(* ===== verification/CH_Prelude.thy ===== *)
theory CH_Prelude
  imports Main
begin

section \<open>Prelude\<close>

text \<open>
  Shared vocabulary of the development: the types of instants and identifiers, the
  sequencing of fallible state-changing code (Rust's \<open>?\<close> operator inside one
  \<open>UnitOfWork\<close>), the calculus that carries invariants and frame properties through such
  code, and the list representation of SQL tables with its lemmas.
\<close>

subsection \<open>Collections of facts\<close>

named_theorems op_defs \<open>definitions of the sequencing operators\<close>
named_theorems table_simps \<open>rewriting of table updates\<close>
named_theorems step_intros \<open>rules that carry a step relation through code\<close>

subsection \<open>Instants and durations\<close>

text \<open>
  A \<open>DateTime<Utc>\<close> is the number of nanoseconds since the epoch, an unbounded integer.
  Row and Telegram identifiers are \<open>i64\<close> values; they are only compared and stored,
  or incremented by one, and are modelled as integers.
\<close>

type_synonym timestamp = int
type_synonym i64 = int

definition seconds :: "int \<Rightarrow> int" where
  "seconds n = n * 1000000000"

definition minutes :: "int \<Rightarrow> int" where
  "minutes n = seconds (60 * n)"

definition hours :: "int \<Rightarrow> int" where
  "hours n = minutes (60 * n)"

definition days :: "int \<Rightarrow> int" where
  "days n = hours (24 * n)"

lemmas duration_defs = days_def hours_def minutes_def seconds_def

subsection \<open>Fallible code over a state\<close>

text \<open>
  Code that runs inside one database transaction takes the state and either fails with an
  error or returns a value and the next state. \<open>and_then\<close> is the \<open>?\<close> operator followed by
  the rest of the body: an error ends the body at once.
\<close>

type_synonym ('s, 'e, 'a) op = "'s \<Rightarrow> 'e + 'a \<times> 's"

definition ret :: "'a \<Rightarrow> ('s, 'e, 'a) op" where
  "ret x = (\<lambda>s. Inr (x, s))"

definition fail :: "'e \<Rightarrow> ('s, 'e, 'a) op" where
  "fail e = (\<lambda>s. Inl e)"

definition gets :: "('s \<Rightarrow> 'a) \<Rightarrow> ('s, 'e, 'a) op" where
  "gets f = (\<lambda>s. Inr (f s, s))"

definition modify :: "('s \<Rightarrow> 's) \<Rightarrow> ('s, 'e, unit) op" where
  "modify f = (\<lambda>s. Inr ((), f s))"

definition and_then :: "('s, 'e, 'a) op \<Rightarrow> ('a \<Rightarrow> ('s, 'e, 'b) op) \<Rightarrow> ('s, 'e, 'b) op" where
  "and_then m f = (\<lambda>s. case m s of Inl e \<Rightarrow> Inl e | Inr (x, t) \<Rightarrow> f x t)"

definition map_err :: "('e \<Rightarrow> 'f) \<Rightarrow> ('s, 'e, 'a) op \<Rightarrow> ('s, 'f, 'a) op" where
  "map_err g m = (\<lambda>s. case m s of Inl e \<Rightarrow> Inl (g e) | Inr r \<Rightarrow> Inr r)"

definition lift_result :: "'e + 'a \<Rightarrow> ('s, 'e, 'a) op" where
  "lift_result r = (\<lambda>s. case r of Inl e \<Rightarrow> Inl e | Inr x \<Rightarrow> Inr (x, s))"

definition gets_result :: "('s \<Rightarrow> 'e + 'a) \<Rightarrow> ('s, 'e, 'a) op" where
  "gets_result f = (\<lambda>s. case f s of Inl e \<Rightarrow> Inl e | Inr x \<Rightarrow> Inr (x, s))"

text \<open>\<open>Option::ok_or\<close>.\<close>

definition ok_or :: "'e \<Rightarrow> 'a option \<Rightarrow> 'e + 'a" where
  "ok_or e x = (case x of None \<Rightarrow> Inl e | Some y \<Rightarrow> Inr y)"

text \<open>\<open>Option::is_some_and\<close>.\<close>

definition is_some_and :: "('a \<Rightarrow> bool) \<Rightarrow> 'a option \<Rightarrow> bool" where
  "is_some_and p x = (case x of None \<Rightarrow> False | Some y \<Rightarrow> p y)"

lemma is_some_and_simps [simp]: "\<not> is_some_and p None" "is_some_and p (Some x) = p x"
  by (simp_all add: is_some_and_def)

lemma is_some_and_iff: "is_some_and p x \<longleftrightarrow> (\<exists>y. x = Some y \<and> p y)"
  by (cases x) simp_all

text \<open>A \<open>for\<close> loop over a list whose body may fail.\<close>

fun for_each :: "('a \<Rightarrow> ('s, 'e, unit) op) \<Rightarrow> 'a list \<Rightarrow> ('s, 'e, unit) op" where
  "for_each f [] = ret ()"
| "for_each f (x # xs) = and_then (f x) (\<lambda>_. for_each f xs)"

declare ret_def [op_defs] fail_def [op_defs] gets_def [op_defs] modify_def [op_defs]
  and_then_def [op_defs] map_err_def [op_defs] lift_result_def [op_defs]
  gets_result_def [op_defs] ok_or_def [op_defs]

text \<open>
  \<open>commit\<close> runs a transaction on the database: on success the new state is kept, on an
  error the transaction is dropped, which rolls every write back. \<open>rollback\<close> runs a
  transaction whose writes are always discarded (the code's read-only transactions).
\<close>

definition commit :: "('s, 'e, 'a) op \<Rightarrow> 's \<Rightarrow> ('e + 'a) \<times> 's" where
  "commit m s = (case m s of Inl e \<Rightarrow> (Inl e, s) | Inr (x, t) \<Rightarrow> (Inr x, t))"

definition rollback :: "('s, 'e, 'a) op \<Rightarrow> 's \<Rightarrow> ('e + 'a) \<times> 's" where
  "rollback m s = (case m s of Inl e \<Rightarrow> (Inl e, s) | Inr (x, t) \<Rightarrow> (Inr x, s))"

lemma and_then_Inr_iff:
  "and_then m f s = Inr (y, u) \<longleftrightarrow> (\<exists>x t. m s = Inr (x, t) \<and> f x t = Inr (y, u))"
  by (auto simp: and_then_def split: sum.splits)

lemma and_then_Inl_iff:
  "and_then m f s = Inl e \<longleftrightarrow> m s = Inl e \<or> (\<exists>x t. m s = Inr (x, t) \<and> f x t = Inl e)"
  by (auto simp: and_then_def split: sum.splits)

lemma map_err_Inr_iff: "map_err g m s = Inr r \<longleftrightarrow> m s = Inr r"
  by (auto simp: map_err_def split: sum.splits)

lemma ret_Inr_iff: "ret x s = Inr (y, t) \<longleftrightarrow> y = x \<and> t = s"
  by (auto simp: ret_def)

lemma gets_Inr_iff: "gets f s = Inr (y, t) \<longleftrightarrow> y = f s \<and> t = s"
  by (auto simp: gets_def)

lemma modify_Inr_iff: "modify f s = Inr (y, t) \<longleftrightarrow> t = f s"
  by (auto simp: modify_def)

lemma lift_result_Inr_iff: "lift_result r s = Inr (y, t) \<longleftrightarrow> r = Inr y \<and> t = s"
  by (auto simp: lift_result_def split: sum.splits)

lemma gets_result_Inr_iff: "gets_result f s = Inr (y, t) \<longleftrightarrow> f s = Inr y \<and> t = s"
  by (auto simp: gets_result_def split: sum.splits)

lemma fail_Inr_iff: "fail e s = Inr r \<longleftrightarrow> False"
  by (simp add: fail_def)

lemma ok_or_Inr_iff: "ok_or e x = Inr y \<longleftrightarrow> x = Some y"
  by (auto simp: ok_or_def split: option.splits)

lemmas op_success = and_then_Inr_iff map_err_Inr_iff ret_Inr_iff gets_Inr_iff modify_Inr_iff
  lift_result_Inr_iff gets_result_Inr_iff fail_Inr_iff ok_or_Inr_iff

text \<open>A body whose first step is known to succeed.\<close>

lemma and_then_run: "m s = Inr (x, t) \<Longrightarrow> and_then m f s = f x t"
  by (simp add: and_then_def)

text \<open>Elimination rules that take a successful body apart.\<close>

lemma and_then_E:
  assumes "and_then m f s = Inr r" and "\<And>x t. m s = Inr (x, t) \<Longrightarrow> f x t = Inr r \<Longrightarrow> P"
  shows P
  using assms by (cases r) (auto simp: and_then_Inr_iff)

lemma map_err_E:
  assumes "map_err g m s = Inr r" and "m s = Inr r \<Longrightarrow> P"
  shows P
  using assms by (simp add: map_err_Inr_iff)

lemma and_then_Inr_lift: "and_then (lift_result (Inr x)) f = f x"
  by (simp add: and_then_def lift_result_def fun_eq_iff)

lemma and_then_lift_E:
  assumes "and_then (lift_result q) f s = Inr r" and "\<And>x. q = Inr x \<Longrightarrow> f x s = Inr r \<Longrightarrow> P"
  shows P
  using assms by (cases q) (auto simp: and_then_def lift_result_def)

lemma commit_error_unchanged: "commit m s = (Inl e, t) \<Longrightarrow> t = s"
  by (auto simp: commit_def split: sum.splits)

lemma commit_success: "commit m s = (Inr x, t) \<longleftrightarrow> m s = Inr (x, t)"
  by (auto simp: commit_def split: sum.splits)

lemma rollback_unchanged [simp]: "snd (rollback m s) = s"
  by (auto simp: rollback_def split: sum.splits)

subsection \<open>Step relations\<close>

text \<open>
  \<open>stays R m\<close>: every successful run of \<open>m\<close> moves the state along \<open>R\<close>. When \<open>R\<close> is
  reflexive and transitive, the property is closed under the sequencing operators, so an
  invariant (\<open>R s t\<close> is \<open>I s \<longrightarrow> I t\<close>) or a frame condition is proved once for each
  repository function and then for every body composed of them.
\<close>

definition stays :: "('s \<Rightarrow> 's \<Rightarrow> bool) \<Rightarrow> ('s, 'e, 'a) op \<Rightarrow> bool" where
  "stays R m \<longleftrightarrow> (\<forall>s x t. m s = Inr (x, t) \<longrightarrow> R s t)"

lemma staysI: "(\<And>s x t. m s = Inr (x, t) \<Longrightarrow> R s t) \<Longrightarrow> stays R m"
  by (simp add: stays_def)

lemma staysD: "stays R m \<Longrightarrow> m s = Inr (x, t) \<Longrightarrow> R s t"
  by (simp add: stays_def)

locale step_relation =
  fixes R :: "'s \<Rightarrow> 's \<Rightarrow> bool"
  assumes step_refl: "R s s"
    and step_trans: "R s t \<Longrightarrow> R t u \<Longrightarrow> R s u"
begin

lemma stays_ret: "stays R (ret x)"
  by (auto simp: stays_def ret_def step_refl)

lemma stays_fail: "stays R (fail e)"
  by (auto simp: stays_def fail_def)

lemma stays_gets: "stays R (gets f)"
  by (auto simp: stays_def gets_def step_refl)

lemma stays_lift_result: "stays R (lift_result r)"
  by (auto simp: stays_def lift_result_Inr_iff step_refl)

lemma stays_gets_result: "stays R (gets_result f)"
  by (auto simp: stays_def gets_result_Inr_iff step_refl)

lemma stays_modify: "(\<And>s. R s (f s)) \<Longrightarrow> stays R (modify f)"
  by (auto simp: stays_def modify_def)

lemma stays_and_then:
  assumes "stays R m" and "\<And>x. stays R (f x)"
  shows "stays R (and_then m f)"
  using assms unfolding stays_def and_then_Inr_iff by (blast intro: step_trans)

lemma stays_map_err: "stays R m \<Longrightarrow> stays R (map_err g m)"
  by (simp add: stays_def map_err_Inr_iff)

lemma stays_for_each: "(\<And>x. stays R (f x)) \<Longrightarrow> stays R (for_each f xs)"
  by (induction xs) (auto intro: stays_ret stays_and_then)

lemma stays_if: "stays R m \<Longrightarrow> stays R n \<Longrightarrow> stays R (if b then m else n)"
  by simp

lemma stays_option:
  "stays R m \<Longrightarrow> (\<And>x. stays R (f x)) \<Longrightarrow> stays R (case v of None \<Rightarrow> m | Some x \<Rightarrow> f x)"
  by (cases v) auto

lemma stays_prod: "(\<And>x y. stays R (f x y)) \<Longrightarrow> stays R (case v of (x, y) \<Rightarrow> f x y)"
  by (cases v) auto

lemmas stays_basic = stays_ret stays_fail stays_gets stays_lift_result stays_gets_result
  stays_and_then stays_map_err stays_for_each stays_if stays_option stays_prod

lemma commit_stays: "stays R m \<Longrightarrow> R s (snd (commit m s))"
  by (auto simp: commit_def step_refl split: sum.splits dest: staysD)

end

text \<open>Preservation of an invariant is a step relation.\<close>

definition keeps :: "('s \<Rightarrow> bool) \<Rightarrow> 's \<Rightarrow> 's \<Rightarrow> bool" where
  "keeps I s t \<longleftrightarrow> (I s \<longrightarrow> I t)"

lemma keepsI: "(I s \<Longrightarrow> I t) \<Longrightarrow> keeps I s t"
  by (simp add: keeps_def)

lemma step_relation_keeps: "step_relation (keeps I)"
  by unfold_locales (auto simp: keeps_def)

text \<open>Equality of a projection of the state is a step relation: a frame condition.\<close>

definition same :: "('s \<Rightarrow> 'v) \<Rightarrow> 's \<Rightarrow> 's \<Rightarrow> bool" where
  "same f s t \<longleftrightarrow> f t = f s"

lemma step_relation_same: "step_relation (same f)"
  by unfold_locales (auto simp: same_def)

subsection \<open>Tables as lists of rows\<close>

text \<open>
  A table is the list of its rows in insertion order. \<open>UPDATE ... WHERE p\<close> is
  \<open>update_where\<close>, \<open>DELETE ... WHERE p\<close> is \<open>delete_where\<close>, and \<open>rows_affected\<close> of either
  is \<open>count_where p\<close> on the table before it. \<open>find_row\<close> is \<open>fetch_optional\<close>.
\<close>

definition update_where :: "('r \<Rightarrow> bool) \<Rightarrow> ('r \<Rightarrow> 'r) \<Rightarrow> 'r list \<Rightarrow> 'r list" where
  "update_where p f rs = map (\<lambda>r. if p r then f r else r) rs"

definition delete_where :: "('r \<Rightarrow> bool) \<Rightarrow> 'r list \<Rightarrow> 'r list" where
  "delete_where p rs = filter (\<lambda>r. \<not> p r) rs"

definition count_where :: "('r \<Rightarrow> bool) \<Rightarrow> 'r list \<Rightarrow> nat" where
  "count_where p rs = length (filter p rs)"

definition find_row :: "('r \<Rightarrow> bool) \<Rightarrow> 'r list \<Rightarrow> 'r option" where
  "find_row p rs = List.find p rs"

lemma update_where_Nil [simp]: "update_where p f [] = []"
  by (simp add: update_where_def)

lemma update_where_Cons [simp]:
  "update_where p f (r # rs) = (if p r then f r else r) # update_where p f rs"
  by (simp add: update_where_def)

lemma length_update_where [simp]: "length (update_where p f rs) = length rs"
  by (simp add: update_where_def)

lemma map_update_where [table_simps]:
  "(\<And>r. k (f r) = k r) \<Longrightarrow> map k (update_where p f rs) = map k rs"
  by (simp add: update_where_def)

lemma set_update_where: "set (update_where p f rs) = (\<lambda>r. if p r then f r else r) ` set rs"
  by (simp add: update_where_def)

lemma in_update_where_iff:
  "r \<in> set (update_where p f rs) \<longleftrightarrow> (\<exists>q \<in> set rs. r = (if p q then f q else q))"
  by (auto simp: set_update_where)

lemma set_delete_where [simp]: "set (delete_where p rs) = {r \<in> set rs. \<not> p r}"
  by (auto simp: delete_where_def)

lemma distinct_map_delete_where: "distinct (map k rs) \<Longrightarrow> distinct (map k (delete_where p rs))"
  by (simp add: delete_where_def distinct_map_filter)

lemma count_where_0_iff: "count_where p rs = 0 \<longleftrightarrow> (\<forall>r \<in> set rs. \<not> p r)"
  by (auto simp: count_where_def filter_empty_conv)

lemma count_where_le_1:
  assumes "distinct (map k rs)" and "\<And>r. p r \<Longrightarrow> k r = x"
  shows "count_where p rs \<le> 1"
proof -
  have "distinct (map k (filter p rs))"
    using assms(1) by (rule distinct_map_filter)
  moreover have "set (map k (filter p rs)) \<subseteq> {x}"
    using assms(2) by auto
  ultimately have "length (map k (filter p rs)) \<le> card {x}"
    by (metis card_mono distinct_card finite.emptyI finite.insertI)
  then show ?thesis by (simp add: count_where_def)
qed

lemma count_where_1I:
  assumes "distinct (map k rs)" and "\<And>q. p q \<Longrightarrow> k q = x" and "r \<in> set rs" and "p r"
  shows "count_where p rs = 1"
proof -
  have "count_where p rs \<noteq> 0"
    using assms(3,4) by (auto simp: count_where_0_iff)
  moreover have "count_where p rs \<le> 1"
    using assms(1,2) by (rule count_where_le_1)
  ultimately show ?thesis by simp
qed

lemma find_row_None_iff: "find_row p rs = None \<longleftrightarrow> (\<forall>r \<in> set rs. \<not> p r)"
  by (auto simp: find_row_def find_None_iff)

lemma find_row_SomeD: "find_row p rs = Some r \<Longrightarrow> r \<in> set rs \<and> p r"
  by (auto simp: find_row_def find_Some_iff)

lemma find_row_key:
  assumes "distinct (map k rs)" and "r \<in> set rs" and "p r" and "\<And>q. p q \<Longrightarrow> k q = k r"
  shows "find_row p rs = Some r"
proof -
  from assms(2,3) obtain q where q: "find_row p rs = Some q"
    by (metis find_row_None_iff not_Some_eq)
  then have "q \<in> set rs" and "k q = k r"
    using assms(4) by (auto dest: find_row_SomeD)
  with assms(1,2) have "q = r"
    by (auto simp: distinct_map dest: inj_onD)
  with q show ?thesis by simp
qed

lemma distinct_key_eq:
  "distinct (map k rs) \<Longrightarrow> r \<in> set rs \<Longrightarrow> q \<in> set rs \<Longrightarrow> k r = k q \<Longrightarrow> r = q"
  by (auto simp: distinct_map dest: inj_onD)

lemma image_update_where [table_simps]:
  "(\<And>r. k (f r) = k r) \<Longrightarrow> k ` set (update_where p f rs) = k ` set rs"
  by (induction rs) auto

lemma ex_key_iff [table_simps]: "(\<exists>r \<in> set rs. k r = x) \<longleftrightarrow> x \<in> k ` set rs"
  by auto

lemma bex_update_where:
  "(\<exists>r \<in> set (update_where p f rs). Q r) \<longleftrightarrow> (\<exists>r \<in> set rs. Q (if p r then f r else r))"
  by (auto simp: set_update_where)

lemma filter_update_where_keys:
  assumes "\<And>r. k (f r) = k r" and "\<And>r. q (f r) \<Longrightarrow> q r"
  shows "k ` set (filter q (update_where p f rs)) \<subseteq> k ` set (filter q rs)"
  using assms by (auto simp: set_update_where split: if_splits)

text \<open>An update that only takes rows out of a partial unique index keeps the index unique.\<close>

lemma distinct_filter_update_where:
  assumes "\<And>r. k (f r) = k r" and "\<And>r. q (f r) \<Longrightarrow> q r"
    and "distinct (map k (filter q rs))"
  shows "distinct (map k (filter q (update_where p f rs)))"
  using assms(3)
proof (induction rs)
  case Nil
  then show ?case by simp
next
  case (Cons r rs)
  have sub: "k ` set (filter q (update_where p f rs)) \<subseteq> k ` set (filter q rs)"
    using assms(1,2) by (rule filter_update_where_keys)
  have "distinct (map k (filter q (update_where p f rs)))"
    using Cons by (simp split: if_splits)
  moreover have "k r \<notin> k ` set (filter q (update_where p f rs))" if "q r"
    using Cons.prems that sub by auto
  ultimately show ?case
    using assms(1,2) by (auto simp: image_iff)
qed

lemma distinct_map_snoc:
  "distinct (map k (rs @ [r])) \<longleftrightarrow> distinct (map k rs) \<and> k r \<notin> k ` set rs"
  by auto

lemma find_row_update_where [table_simps]:
  assumes "\<And>r. q (f r) = q r"
  shows "find_row q (update_where p f rs)
    = map_option (\<lambda>r. if p r then f r else r) (find_row q rs)"
  using assms unfolding find_row_def by (induction rs) auto

lemma find_row_delete_where:
  assumes "\<And>r. q r \<Longrightarrow> \<not> p r"
  shows "find_row q (delete_where p rs) = find_row q rs"
  using assms unfolding find_row_def delete_where_def by (induction rs) auto

lemma find_row_snoc:
  "find_row p (rs @ [r]) = (case find_row p rs of None \<Rightarrow> if p r then Some r else None | Some q \<Rightarrow> Some q)"
  unfolding find_row_def by (induction rs) auto

lemma list_all2_update_where:
  "(\<And>r. P r r) \<Longrightarrow> (\<And>r. p r \<Longrightarrow> P r (f r)) \<Longrightarrow> list_all2 P rs (update_where p f rs)"
  by (induction rs) auto

lemma sum_list_bound:
  fixes f :: "'a \<Rightarrow> nat"
  shows "(\<And>x. x \<in> set xs \<Longrightarrow> f x \<le> k) \<Longrightarrow> sum_list (map f xs) \<le> length xs * k"
proof (induction xs)
  case Nil
  then show ?case by simp
next
  case (Cons x xs)
  then have "f x \<le> k" and "sum_list (map f xs) \<le> length xs * k" by simp_all
  then show ?case by simp
qed

end
