(* ===== verification/CH_Text.thy ===== *)
theory CH_Text
  imports CH_Prelude "HOL-Library.Word"
begin

section \<open>Text\<close>

text \<open>
  User-visible text (message bodies, challenge expressions, detection phrases) is a Rust
  \<open>String\<close>, modelled as its list of Unicode scalar values. Identifiers, states and other
  ASCII constants of the code are Isabelle strings. This theory models the parts of the
  standard library the code uses on text: whitespace, trimming, splitting, decimal
  formatting and parsing, ASCII case, UTF-8.
\<close>

type_synonym codepoint = nat
type_synonym ustring = "codepoint list"
type_synonym byte = "8 word"

definition lit :: "string \<Rightarrow> ustring" where
  "lit s = map of_char s"

lemma lit_simps [simp]: "lit [] = []" "lit (c # cs) = of_char c # lit cs"
  by (simp_all add: lit_def)

text \<open>\<open>char::is_whitespace\<close>: the Unicode property \<open>White_Space\<close>.\<close>

definition is_whitespace :: "codepoint \<Rightarrow> bool" where
  "is_whitespace c \<longleftrightarrow>
     9 \<le> c \<and> c \<le> 13 \<or> c = 32 \<or> c = 0x85 \<or> c = 0xA0 \<or> c = 0x1680
     \<or> 0x2000 \<le> c \<and> c \<le> 0x200A \<or> c = 0x2028 \<or> c = 0x2029 \<or> c = 0x202F
     \<or> c = 0x205F \<or> c = 0x3000"

definition is_ascii_digit :: "codepoint \<Rightarrow> bool" where
  "is_ascii_digit c \<longleftrightarrow> 48 \<le> c \<and> c \<le> 57"

text \<open>\<open>str::trim\<close> and \<open>str::split_whitespace\<close>.\<close>

definition trim_start :: "ustring \<Rightarrow> ustring" where
  "trim_start t = dropWhile is_whitespace t"

definition trim_end :: "ustring \<Rightarrow> ustring" where
  "trim_end t = rev (dropWhile is_whitespace (rev t))"

definition trim :: "ustring \<Rightarrow> ustring" where
  "trim t = trim_end (trim_start t)"

fun split_words :: "ustring \<Rightarrow> ustring \<Rightarrow> ustring list" where
  "split_words acc [] = (if acc = [] then [] else [rev acc])"
| "split_words acc (c # cs) =
     (if is_whitespace c
      then (if acc = [] then split_words [] cs else rev acc # split_words [] cs)
      else split_words (c # acc) cs)"

definition split_whitespace :: "ustring \<Rightarrow> ustring list" where
  "split_whitespace t = split_words [] t"

definition strip_prefix :: "ustring \<Rightarrow> ustring \<Rightarrow> ustring option" where
  "strip_prefix p t = (if take (length p) t = p then Some (drop (length p) t) else None)"

definition starts_with :: "ustring \<Rightarrow> ustring \<Rightarrow> bool" where
  "starts_with t p \<longleftrightarrow> take (length p) t = p"

fun contains_text :: "ustring \<Rightarrow> ustring \<Rightarrow> bool" where
  "contains_text [] p = (p = [])"
| "contains_text (c # cs) p = (starts_with (c # cs) p \<or> contains_text cs p)"

text \<open>\<open>Vec<String>::join\<close>.\<close>

fun join :: "ustring \<Rightarrow> ustring list \<Rightarrow> ustring" where
  "join sep [] = []"
| "join sep [w] = w"
| "join sep (w # v # ws) = w @ sep @ join sep (v # ws)"

subsection \<open>Decimal numbers\<close>

text \<open>\<open>format!("{n}")\<close> on integers.\<close>

fun show_nat :: "nat \<Rightarrow> ustring" where
  "show_nat n = (if n < 10 then [48 + n] else show_nat (n div 10) @ [48 + n mod 10])"

declare show_nat.simps [simp del]

definition show_int :: "int \<Rightarrow> ustring" where
  "show_int n = (if n < 0 then 45 # show_nat (nat (- n)) else show_nat (nat n))"

text \<open>
  \<open>str::parse::<i32>\<close>: an optional sign, then one or more ASCII digits whose value fits
  the type; everything else is an error.
\<close>

fun read_digits :: "nat \<Rightarrow> ustring \<Rightarrow> nat option" where
  "read_digits n [] = Some n"
| "read_digits n (c # cs) = (if is_ascii_digit c then read_digits (10 * n + (c - 48)) cs else None)"

definition read_nat :: "ustring \<Rightarrow> nat option" where
  "read_nat t = (if t = [] then None else read_digits 0 t)"

definition parse_int :: "ustring \<Rightarrow> int option" where
  "parse_int t =
     (case t of
        [] \<Rightarrow> None
      | c # cs \<Rightarrow>
          if c = 45 then map_option (\<lambda>n. - int n) (read_nat cs)
          else if c = 43 then map_option int (read_nat cs)
          else map_option int (read_nat t))"

definition parse_i32 :: "ustring \<Rightarrow> int option" where
  "parse_i32 t =
     (case parse_int t of
        None \<Rightarrow> None
      | Some n \<Rightarrow> if - (2 ^ 31) \<le> n \<and> n < 2 ^ 31 then Some n else None)"

subsection \<open>ASCII case and UTF-8\<close>

definition ascii_lower_char :: "char \<Rightarrow> char" where
  "ascii_lower_char c = (if 65 \<le> (of_char c :: nat) \<and> (of_char c :: nat) \<le> 90
     then char_of ((of_char c :: nat) + 32) else c)"

definition to_ascii_lowercase :: "string \<Rightarrow> string" where
  "to_ascii_lowercase s = map ascii_lower_char s"

definition ascii_lower :: "ustring \<Rightarrow> ustring" where
  "ascii_lower t = map (\<lambda>c. if 65 \<le> c \<and> c \<le> 90 then c + 32 else c) t"

definition utf8_char :: "codepoint \<Rightarrow> byte list" where
  "utf8_char c =
     (if c < 0x80 then [of_nat c]
      else if c < 0x800 then [of_nat (0xC0 + c div 64), of_nat (0x80 + c mod 64)]
      else if c < 0x10000 then
        [of_nat (0xE0 + c div 4096), of_nat (0x80 + c div 64 mod 64), of_nat (0x80 + c mod 64)]
      else
        [of_nat (0xF0 + c div 262144), of_nat (0x80 + c div 4096 mod 64),
         of_nat (0x80 + c div 64 mod 64), of_nat (0x80 + c mod 64)])"

definition as_bytes :: "ustring \<Rightarrow> byte list" where
  "as_bytes t = concat (map utf8_char t)"

subsection \<open>Lemmas on bytes\<close>

lemma unat_byte_less: "unat (b :: byte) < 256"
  using unsigned_less [of b, where 'a = nat] by simp

lemma byte_eq_iff: "(b :: byte) = c \<longleftrightarrow> unat b = unat c"
  by (metis unsigned_word_eqI)

subsection \<open>Lemmas on decimal text\<close>

lemma show_nat_nonempty [simp]: "show_nat n \<noteq> []"
  by (subst show_nat.simps) simp

lemma show_nat_digits: "\<forall>c \<in> set (show_nat n). is_ascii_digit c"
proof (induction n rule: show_nat.induct)
  case (1 n)
  show ?case
  proof (cases "n < 10")
    case True
    then show ?thesis by (subst show_nat.simps) (simp add: is_ascii_digit_def)
  next
    case False
    with "1.IH" have "\<forall>c \<in> set (show_nat (n div 10)). is_ascii_digit c" by simp
    with False show ?thesis
      by (subst show_nat.simps) (auto simp: is_ascii_digit_def)
  qed
qed

lemma show_nat_single: "n < 10 \<Longrightarrow> show_nat n = [48 + n]"
  by (subst show_nat.simps) simp

lemma show_nat_step: "10 \<le> n \<Longrightarrow> show_nat n = show_nat (n div 10) @ [48 + n mod 10]"
  by (subst show_nat.simps) simp

lemma digit_not_whitespace: "is_ascii_digit c \<Longrightarrow> \<not> is_whitespace c"
  by (auto simp: is_ascii_digit_def is_whitespace_def)

lemma show_nat_no_whitespace: "c \<in> set (show_nat n) \<Longrightarrow> \<not> is_whitespace c"
  using show_nat_digits digit_not_whitespace by blast

lemma read_digits_append:
  "read_digits n (xs @ ys) = (case read_digits n xs of None \<Rightarrow> None | Some m \<Rightarrow> read_digits m ys)"
  by (induction xs arbitrary: n) auto

lemma read_digits_show_nat: "read_digits 0 (show_nat n) = Some n"
proof (induction n rule: show_nat.induct)
  case (1 n)
  show ?case
  proof (cases "n < 10")
    case True
    then show ?thesis by (simp add: show_nat_single is_ascii_digit_def)
  next
    case False
    with "1.IH" have "read_digits 0 (show_nat (n div 10)) = Some (n div 10)" by simp
    moreover have "is_ascii_digit (48 + n mod 10)" by (simp add: is_ascii_digit_def)
    moreover have "10 * (n div 10) + n mod 10 = n" by simp
    ultimately show ?thesis
      using False by (simp add: show_nat_step read_digits_append)
  qed
qed

lemma read_nat_show_nat [simp]: "read_nat (show_nat n) = Some n"
  by (simp add: read_nat_def read_digits_show_nat)

lemma hd_show_nat_digit: "is_ascii_digit (hd (show_nat n))"
  using show_nat_digits [of n] by (cases "show_nat n") auto

lemma parse_int_show_nat [simp]: "parse_int (show_nat n) = Some (int n)"
proof -
  obtain c cs where t: "show_nat n = c # cs" by (cases "show_nat n") auto
  with hd_show_nat_digit [of n] have "c \<noteq> 45" "c \<noteq> 43" by (auto simp: is_ascii_digit_def)
  then show ?thesis using t read_nat_show_nat [of n] by (simp add: parse_int_def)
qed

lemma parse_i32_show_int:
  "0 \<le> n \<Longrightarrow> n < 2 ^ 31 \<Longrightarrow> parse_i32 (show_int n) = Some n"
  by (simp add: parse_i32_def show_int_def)

lemma read_digits_None_iff: "read_digits n t = None \<longleftrightarrow> (\<exists>c \<in> set t. \<not> is_ascii_digit c)"
  by (induction t arbitrary: n) auto

lemma read_digits_value_eq:
  "(\<forall>c \<in> set t. is_ascii_digit c) \<Longrightarrow> read_digits 0 (48 # t) = read_digits 0 t"
  by (simp add: is_ascii_digit_def)

lemma read_digits_ge: "read_digits n t = Some m \<Longrightarrow> n \<le> m"
proof (induction t arbitrary: n)
  case Nil
  then show ?case by simp
next
  case (Cons c t)
  then have "10 * n + (c - 48) \<le> m" by (auto split: if_splits)
  then show ?case by simp
qed

lemma show_nat_inj [simp]: "show_nat m = show_nat n \<longleftrightarrow> m = n"
  by (metis option.inject read_nat_show_nat)

lemma show_nat_hd_nonzero: "0 < n \<Longrightarrow> hd (show_nat n) \<noteq> 48"
proof (induction n rule: show_nat.induct)
  case (1 n)
  show ?case
  proof (cases "n < 10")
    case True
    with "1.prems" show ?thesis by (simp add: show_nat_single)
  next
    case False
    with "1.IH" have "hd (show_nat (n div 10)) \<noteq> 48" by simp
    with False show ?thesis by (simp add: show_nat_step)
  qed
qed

lemma show_int_nat: "0 \<le> n \<Longrightarrow> show_int n = show_nat (nat n)"
  by (simp add: show_int_def)

text \<open>The decimal form without leading zeros is the only one with its value.\<close>

lemma read_digits_canonical:
  assumes "\<forall>c \<in> set t. is_ascii_digit c" and "t \<noteq> []" and "hd t \<noteq> 48"
  shows "\<exists>m. read_digits 0 t = Some m \<and> 0 < m \<and> show_nat m = t"
  using assms
proof (induction t rule: rev_induct)
  case Nil
  then show ?case by simp
next
  case (snoc d t)
  then have d: "is_ascii_digit d" by simp
  show ?case
  proof (cases "t = []")
    case True
    with snoc.prems d show ?thesis
      by (intro exI [of _ "d - 48"]) (auto simp: is_ascii_digit_def show_nat_single)
  next
    case False
    with snoc.prems have "hd t \<noteq> 48" by (metis hd_append2)
    with snoc False obtain m where m: "read_digits 0 t = Some m" "0 < m" "show_nat m = t"
      by auto
    let ?v = "10 * m + (d - 48)"
    have "d - 48 < 10" using d by (auto simp: is_ascii_digit_def)
    then have "?v div 10 = m" "?v mod 10 = d - 48" by simp_all
    moreover have "10 \<le> ?v" using m(2) by simp
    ultimately have "show_nat ?v = t @ [48 + (d - 48)]"
      using m(3) by (simp add: show_nat_step)
    moreover have "48 + (d - 48) = d" using d by (simp add: is_ascii_digit_def)
    moreover have "read_digits 0 (t @ [d]) = Some ?v"
      using m(1) d by (simp add: read_digits_append)
    ultimately show ?thesis using m(2) by auto
  qed
qed

subsection \<open>Lemmas on splitting\<close>

lemma split_words_nonspace:
  "(\<forall>c \<in> set w. \<not> is_whitespace c) \<Longrightarrow> split_words acc (w @ cs) = split_words (rev w @ acc) cs"
  by (induction w arbitrary: acc) auto

lemma split_whitespace_word:
  assumes "w \<noteq> []" and "\<forall>c \<in> set w. \<not> is_whitespace c" and "is_whitespace s"
  shows "split_whitespace (w @ s # cs) = w # split_whitespace cs"
  using assms by (simp add: split_whitespace_def split_words_nonspace)

lemma split_whitespace_last:
  assumes "w \<noteq> []" and "\<forall>c \<in> set w. \<not> is_whitespace c"
  shows "split_whitespace w = [w]"
  using assms split_words_nonspace [of w "[]" "[]"] by (simp add: split_whitespace_def)

lemma trim_padded:
  assumes "t \<noteq> []" and "\<forall>c \<in> set t. \<not> is_whitespace c"
    and "\<forall>c \<in> set xs. is_whitespace c" and "\<forall>c \<in> set ys. is_whitespace c"
  shows "trim (xs @ t @ ys) = t"
proof -
  have drop: "dropWhile is_whitespace u = u" if "u = t \<or> u = rev t" for u
    using that assms(1,2) dropWhile_eq_self_iff [of is_whitespace u]
    by (cases u) (metis in_set_conv_decomp_first list.sel(1) list.set_intros(1) set_rev)+
  have "trim_start (xs @ t @ ys) = t @ ys"
  proof -
    obtain c cs where "t = c # cs" using assms(1) by (cases t) auto
    with assms(2,3) show ?thesis by (simp add: trim_start_def dropWhile_append2)
  qed
  moreover have "trim_end (t @ ys) = t"
    using assms(4) drop [of "rev t"] dropWhile_append2 [of "rev ys" is_whitespace "rev t"]
    by (simp add: trim_end_def)
  ultimately show ?thesis by (simp add: trim_def)
qed

lemma starts_with_iff: "starts_with t p \<longleftrightarrow> (\<exists>ys. t = p @ ys)"
proof
  assume "starts_with t p"
  then have "t = p @ drop (length p) t"
    by (metis append_take_drop_id starts_with_def)
  then show "\<exists>ys. t = p @ ys" ..
next
  assume "\<exists>ys. t = p @ ys"
  then show "starts_with t p" by (auto simp: starts_with_def)
qed

lemma starts_with_simps [simp]:
  "starts_with t []" "\<not> starts_with [] (p # ps)"
  "starts_with (c # cs) (p # ps) \<longleftrightarrow> c = p \<and> starts_with cs ps"
  by (auto simp: starts_with_def)

lemma contains_text_iff: "contains_text t p \<longleftrightarrow> (\<exists>xs ys. t = xs @ p @ ys)"
proof (induction t)
  case Nil
  then show ?case by auto
next
  case Cons_IH: (Cons c t)
  show ?case
  proof
    assume "contains_text (c # t) p"
    then consider "starts_with (c # t) p" | "contains_text t p" by auto
    then show "\<exists>xs ys. c # t = xs @ p @ ys"
    proof cases
      case 1
      then obtain ys where "c # t = [] @ p @ ys" by (auto simp: starts_with_iff)
      then show ?thesis by blast
    next
      case 2
      with Cons_IH obtain xs ys where "c # t = (c # xs) @ p @ ys" by auto
      then show ?thesis by blast
    qed
  next
    assume "\<exists>xs ys. c # t = xs @ p @ ys"
    then obtain xs ys where eq: "c # t = xs @ p @ ys" by blast
    show "contains_text (c # t) p"
    proof (cases xs)
      case Nil
      with eq have "starts_with (c # t) p" by (auto simp: starts_with_iff)
      then show ?thesis by simp
    next
      case (Cons d zs)
      with eq have "t = zs @ p @ ys" by simp
      with Cons_IH show ?thesis by auto
    qed
  qed
qed

end
