(* ===== verification/Conversation_State.thy ===== *)
theory Conversation_State
  imports CH_Prelude
begin

section \<open>The conversation state machine\<close>

text \<open>
  Models \<open>src/domain/state.rs\<close>: the six conversation states, the transition function with
  its error value, and the two text forms of a state (\<open>as_str\<close> and \<open>FromStr\<close>).
\<close>

datatype conversation_state =
    New
  | VerifyPending
  | VerifiedWaitingOwner
  | Active
  | TempSoftBlocked
  | SpamSoftBlocked

datatype transition_event =
    SafeFirstInbound
  | SpamDetected
  | VerificationSucceeded
  | ChallengeExpired
  | VerificationExhausted
  | ManualOwnerReply
  | AllOwnerRepliesDeleted
  | TempBlockExpired
  | OwnerUnblocked
  | OwnerInitiatedMessage

datatype invalid_transition = InvalidTransition conversation_state transition_event

datatype invalid_state = InvalidState string

fun transition ::
  "conversation_state \<Rightarrow> transition_event \<Rightarrow> invalid_transition + conversation_state" where
  "transition New SafeFirstInbound = Inr VerifyPending"
| "transition New SpamDetected = Inr SpamSoftBlocked"
| "transition VerifyPending SpamDetected = Inr SpamSoftBlocked"
| "transition VerifiedWaitingOwner SpamDetected = Inr SpamSoftBlocked"
| "transition New ManualOwnerReply = Inr Active"
| "transition VerifyPending ManualOwnerReply = Inr Active"
| "transition VerifiedWaitingOwner ManualOwnerReply = Inr Active"
| "transition TempSoftBlocked ManualOwnerReply = Inr Active"
| "transition VerifyPending VerificationSucceeded = Inr VerifiedWaitingOwner"
| "transition VerifyPending ChallengeExpired = Inr New"
| "transition Active AllOwnerRepliesDeleted = Inr New"
| "transition TempSoftBlocked TempBlockExpired = Inr New"
| "transition SpamSoftBlocked OwnerUnblocked = Inr New"
| "transition VerifyPending VerificationExhausted = Inr TempSoftBlocked"
| "transition SpamSoftBlocked OwnerInitiatedMessage = Inr Active"
| "transition s e = Inl (InvalidTransition s e)"

fun state_as_str :: "conversation_state \<Rightarrow> string" where
  "state_as_str New = ''NEW''"
| "state_as_str VerifyPending = ''VERIFY_PENDING''"
| "state_as_str VerifiedWaitingOwner = ''VERIFIED_WAITING_OWNER''"
| "state_as_str Active = ''ACTIVE''"
| "state_as_str TempSoftBlocked = ''TEMP_SOFT_BLOCKED''"
| "state_as_str SpamSoftBlocked = ''SPAM_SOFT_BLOCKED''"

definition state_from_str :: "string \<Rightarrow> invalid_state + conversation_state" where
  "state_from_str v =
     (if v = ''NEW'' then Inr New
      else if v = ''VERIFY_PENDING'' then Inr VerifyPending
      else if v = ''VERIFIED_WAITING_OWNER'' then Inr VerifiedWaitingOwner
      else if v = ''ACTIVE'' then Inr Active
      else if v = ''TEMP_SOFT_BLOCKED'' then Inr TempSoftBlocked
      else if v = ''SPAM_SOFT_BLOCKED'' then Inr SpamSoftBlocked
      else Inl (InvalidState v))"

subsection \<open>Text forms\<close>

lemma state_from_as_str [simp]: "state_from_str (state_as_str s) = Inr s"
  by (cases s) (simp_all add: state_from_str_def)

lemma state_as_str_inj [simp]: "state_as_str s = state_as_str t \<longleftrightarrow> s = t"
  by (metis state_from_as_str sum.inject(2))

lemma state_from_str_Inr: "state_from_str v = Inr s \<Longrightarrow> v = state_as_str s"
  by (auto simp: state_from_str_def split: if_splits)

lemma state_from_str_Inl:
  assumes "state_from_str v = Inl e"
  shows "e = InvalidState v \<and> v \<notin> range state_as_str"
proof
  show "e = InvalidState v"
    using assms by (auto simp: state_from_str_def split: if_splits)
  show "v \<notin> range state_as_str"
    using assms by auto
qed

subsection \<open>Inversion of transitions\<close>

fun_cases transition_Inr_E: "transition s e = Inr t"

text \<open>One rule per target state: where a transition into it can come from.\<close>

lemma transition_to_SpamSoftBlocked:
  "transition s e = Inr SpamSoftBlocked \<Longrightarrow>
   e = SpamDetected \<and> s \<in> {New, VerifyPending, VerifiedWaitingOwner}"
  by (cases s; cases e) auto

lemma transition_to_TempSoftBlocked:
  "transition s e = Inr TempSoftBlocked \<Longrightarrow> e = VerificationExhausted \<and> s = VerifyPending"
  by (cases s; cases e) auto

lemma transition_to_VerifyPending:
  "transition s e = Inr VerifyPending \<Longrightarrow> e = SafeFirstInbound \<and> s = New"
  by (cases s; cases e) auto

lemma transition_to_Active:
  "transition s e = Inr Active \<Longrightarrow>
   e = ManualOwnerReply \<and> s \<in> {New, VerifyPending, VerifiedWaitingOwner, TempSoftBlocked}
   \<or> e = OwnerInitiatedMessage \<and> s = SpamSoftBlocked"
  by (cases s; cases e) auto

lemma transition_from_Active: "transition Active e = Inr t \<Longrightarrow> e = AllOwnerRepliesDeleted \<and> t = New"
  by (cases e) auto

lemma transition_irreflexive: "transition s e = Inr t \<Longrightarrow> t \<noteq> s"
  by (cases s; cases e) auto

end
