(* ===== verification/Storage_Model.thy ===== *)
theory Storage_Model
  imports CH_Text Conversation_State
begin

section \<open>The database\<close>

text \<open>
  Models \<open>src/storage/models.rs\<close>, the error type of \<open>src/storage/database.rs\<close> and the
  schema of \<open>migrations/\<close>. A table is the list of its rows; a column whose values the schema
  restricts with a \<open>CHECK\<close> is given the datatype of those values; a timestamp column holds
  the instant its RFC 3339 text denotes (the text form written by \<open>chrono\<close> orders as the
  instants do, so the \<open>SQL\<close> comparisons on it are comparisons of instants). A column of JSON
  text holds the parsed value, or \<open>None\<close> where the text need not parse. The singleton tables
  are one row each.
\<close>

subsection \<open>JSON values\<close>

datatype json =
    JNull
  | JBool bool
  | JNum int
  | JStr ustring
  | JArr "json list"
  | JObj "(string \<times> json) list"

text \<open>\<open>Value::get\<close> on an object: \<open>serde_json\<close> keeps the last of repeated keys.\<close>

definition json_get :: "string \<Rightarrow> json \<Rightarrow> json option" where
  "json_get k v = (case v of JObj fs \<Rightarrow> map_of (rev fs) k | _ \<Rightarrow> None)"

fun json_pointer :: "string list \<Rightarrow> json \<Rightarrow> json option" where
  "json_pointer [] v = Some v"
| "json_pointer (k # ks) v =
     (case json_get k v of None \<Rightarrow> None | Some w \<Rightarrow> json_pointer ks w)"

definition json_as_str :: "json \<Rightarrow> ustring option" where
  "json_as_str v = (case v of JStr s \<Rightarrow> Some s | _ \<Rightarrow> None)"

definition json_as_i64 :: "json \<Rightarrow> int option" where
  "json_as_i64 v = (case v of JNum n \<Rightarrow> Some n | _ \<Rightarrow> None)"

definition jopt :: "('a \<Rightarrow> json) \<Rightarrow> 'a option \<Rightarrow> json" where
  "jopt f x = (case x of None \<Rightarrow> JNull | Some y \<Rightarrow> f y)"

subsection \<open>Errors\<close>

text \<open>What the database refuses: a broken constraint, JSON text its functions cannot read, a row that
  is not there, or a column that does not have the expected type.\<close>

datatype constraint_violation =
    ForeignKeyViolation
  | UniqueViolation
  | CheckViolation
  | MalformedJson
  | RowNotFound
  | ColumnDecode

datatype storage_error =
    Database constraint_violation
  | ConcurrentModification
  | InvalidData ustring
  | EntropyUnavailable
  | KeyMaterialMissing
  | InvalidKeyMaterial string
  | UnsupportedKeyVersion i64
  | TelegramBotIdentityMismatch
  | OwnerIdentityMissing
  | InvalidOwnerIdentity string
  | OwnerAlreadyClaimed
  | OwnerChatMismatch
  | InvalidConnectionCandidate string
  | InvalidCandidateGuard string
  | TelegramReconciliationStateMissing
  | InvalidTelegramReconciliationState string
  | InvalidServiceDatabase string
  | OrphanClaimArtifact

subsection \<open>Records of the domain\<close>

record conversation_key =
  connection_id :: string
  chat_id :: i64

record conversation =
  cv_key :: conversation_key
  cv_user_id :: i64
  cv_state :: conversation_state
  cv_created_at :: timestamp
  cv_updated_at :: timestamp
  cv_block_expires_at :: "timestamp option"
  cv_block_reason :: "string option"
  cv_block_count :: i64
  cv_state_version :: i64

datatype message_direction = Inbound | Outbound

fun direction_as_str :: "message_direction \<Rightarrow> string" where
  "direction_as_str Inbound = ''INBOUND''"
| "direction_as_str Outbound = ''OUTBOUND''"

datatype sender_kind = External | Owner | BusinessBot | Implicit

fun sender_as_str :: "sender_kind \<Rightarrow> string" where
  "sender_as_str External = ''EXTERNAL''"
| "sender_as_str Owner = ''OWNER''"
| "sender_as_str BusinessBot = ''BUSINESS_BOT''"
| "sender_as_str Implicit = ''IMPLICIT''"

record ledger_message =
  lm_key :: conversation_key
  lm_message_id :: i64
  lm_direction :: message_direction
  lm_sender_kind :: sender_kind
  lm_manual_owner_reply :: bool
  lm_sent_at :: timestamp
  lm_eligible_for_deletion :: bool
  lm_media_group_id :: "string option"

definition ledger_message_new ::
  "conversation_key \<Rightarrow> i64 \<Rightarrow> message_direction \<Rightarrow> sender_kind \<Rightarrow> bool \<Rightarrow> timestamp
   \<Rightarrow> ledger_message" where
  "ledger_message_new key message_id direction sender_kind manual_owner_reply sent_at =
     \<lparr>lm_key = key, lm_message_id = message_id, lm_direction = direction,
      lm_sender_kind = sender_kind, lm_manual_owner_reply = manual_owner_reply,
      lm_sent_at = sent_at, lm_eligible_for_deletion = True, lm_media_group_id = None\<rparr>"

record ledger_row = ledger_message +
  lm_deleted_at :: "timestamp option"

datatype delivery_status = DeliveryPending | DeliverySent | DeliveryUncertain | DeliveryClosed

record challenge_record =
  ch_id :: i64
  ch_key :: conversation_key
  ch_expression :: ustring
  ch_answer_hmac :: string
  ch_hmac_key_version :: i64
  ch_created_at :: timestamp
  ch_expires_at :: timestamp
  ch_attempts_used :: i64
  ch_max_attempts :: i64
  ch_prompt_message_id :: "i64 option"
  ch_delivery_status :: delivery_status

definition challenge_pending ::
  "conversation_key \<Rightarrow> ustring \<Rightarrow> string \<Rightarrow> i64 \<Rightarrow> timestamp \<Rightarrow> timestamp \<Rightarrow> challenge_record" where
  "challenge_pending key expression answer_hmac hmac_key_version created_at expires_at =
     \<lparr>ch_id = 0, ch_key = key, ch_expression = expression, ch_answer_hmac = answer_hmac,
      ch_hmac_key_version = hmac_key_version, ch_created_at = created_at,
      ch_expires_at = expires_at, ch_attempts_used = 0, ch_max_attempts = 3,
      ch_prompt_message_id = None, ch_delivery_status = DeliveryPending\<rparr>"

record challenge_row = challenge_record +
  ch_closed_at :: "timestamp option"

record challenge_hmac_upgrade_record =
  hu_id :: i64
  hu_expression :: ustring
  hu_hmac_key_version :: i64

datatype reconciliation_state = ReconciliationPending | ReconciliationConfirmed

fun reconciliation_as_str :: "reconciliation_state \<Rightarrow> string" where
  "reconciliation_as_str ReconciliationPending = ''PENDING''"
| "reconciliation_as_str ReconciliationConfirmed = ''CONFIRMED''"

definition reconciliation_parse :: "string \<Rightarrow> storage_error + reconciliation_state" where
  "reconciliation_parse v =
     (if v = ''PENDING'' then Inr ReconciliationPending
      else if v = ''CONFIRMED'' then Inr ReconciliationConfirmed
      else Inl (InvalidData (lit ''unknown business connection reconciliation state'')))"

record business_connection_record =
  bc_connection_id :: string
  bc_owner_user_id :: i64
  bc_rights_json :: "json option"
  bc_enabled :: bool
  bc_connection_established_at :: "i64 option"
  bc_state_revision :: i64
  bc_reconciliation_state :: reconciliation_state
  bc_updated_at :: timestamp

datatype owner_chat_source = LegacyFallback | Claim | BusinessConnection | PrivateMessage

fun owner_chat_source_as_str :: "owner_chat_source \<Rightarrow> string" where
  "owner_chat_source_as_str LegacyFallback = ''LEGACY_FALLBACK''"
| "owner_chat_source_as_str Claim = ''CLAIM''"
| "owner_chat_source_as_str BusinessConnection = ''BUSINESS_CONNECTION''"
| "owner_chat_source_as_str PrivateMessage = ''PRIVATE_MESSAGE''"

definition owner_chat_source_parse :: "string \<Rightarrow> storage_error + owner_chat_source" where
  "owner_chat_source_parse v =
     (if v = ''LEGACY_FALLBACK'' then Inr LegacyFallback
      else if v = ''CLAIM'' then Inr Claim
      else if v = ''BUSINESS_CONNECTION'' then Inr BusinessConnection
      else if v = ''PRIVATE_MESSAGE'' then Inr PrivateMessage
      else Inl (InvalidOwnerIdentity ''owner chat source is unknown''))"

datatype owner_identity =
    Unclaimed
  | Claimed (owner_user_id: i64) (owner_chat_id: i64) (owner_chat_source: owner_chat_source)
      (connection_floor: "i64 option") (bound_at: timestamp)

datatype outbox_action_kind =
    SendChallenge
  | EditChallenge
  | ReadBusinessMessage
  | DeleteBusinessMessages
  | SendOwnerMessage
  | SendPrivateMessage
  | ProposedDestructiveAction

fun kind_as_str :: "outbox_action_kind \<Rightarrow> string" where
  "kind_as_str SendChallenge = ''SEND_CHALLENGE''"
| "kind_as_str EditChallenge = ''EDIT_CHALLENGE''"
| "kind_as_str ReadBusinessMessage = ''READ_BUSINESS_MESSAGE''"
| "kind_as_str DeleteBusinessMessages = ''DELETE_BUSINESS_MESSAGES''"
| "kind_as_str SendOwnerMessage = ''SEND_OWNER_MESSAGE''"
| "kind_as_str SendPrivateMessage = ''SEND_PRIVATE_MESSAGE''"
| "kind_as_str ProposedDestructiveAction = ''PROPOSED_DESTRUCTIVE_ACTION''"

definition kind_from_str :: "string \<Rightarrow> string + outbox_action_kind" where
  "kind_from_str v =
     (if v = ''SEND_CHALLENGE'' then Inr SendChallenge
      else if v = ''EDIT_CHALLENGE'' then Inr EditChallenge
      else if v = ''READ_BUSINESS_MESSAGE'' then Inr ReadBusinessMessage
      else if v = ''DELETE_BUSINESS_MESSAGES'' then Inr DeleteBusinessMessages
      else if v = ''SEND_OWNER_MESSAGE'' then Inr SendOwnerMessage
      else if v = ''SEND_PRIVATE_MESSAGE'' then Inr SendPrivateMessage
      else if v = ''PROPOSED_DESTRUCTIVE_ACTION'' then Inr ProposedDestructiveAction
      else Inl (''unknown outbox action kind '' @ v))"

datatype outbox_status = OutPending | OutRetry | OutSucceeded | OutUncertain | OutPermanentFailure

text \<open>\<open>OutboxActionRow\<close>: the columns of \<open>outbox_action\<close>.\<close>

record outbox_row =
  ob_id :: i64
  ob_source_update_id :: i64
  ob_connection_id :: "string option"
  ob_chat_id :: "i64 option"
  ob_kind :: outbox_action_kind
  ob_payload :: "json option"
  ob_idempotency_key :: ustring
  ob_status :: outbox_status
  ob_attempts :: i64
  ob_next_attempt_at :: "timestamp option"
  ob_last_error :: "string option"
  ob_created_at :: timestamp
  ob_updated_at :: timestamp
  ob_claimed_at :: "timestamp option"

record outbox_action_record =
  oa_id :: i64
  oa_source_update_id :: i64
  oa_key :: "conversation_key option"
  oa_kind :: outbox_action_kind
  oa_payload :: "json option"
  oa_status :: outbox_status
  oa_attempts :: i64
  oa_interrupted :: bool
  oa_next_attempt_at :: "timestamp option"
  oa_created_at :: timestamp
  oa_updated_at :: timestamp

record new_outbox_action =
  no_source_update_id :: i64
  no_key :: "conversation_key option"
  no_kind :: outbox_action_kind
  no_payload :: "json option"
  no_idempotency_key :: ustring
  no_created_at :: timestamp

record new_audit_event =
  na_source_update_id :: i64
  na_key :: "conversation_key option"
  na_event_kind :: string
  na_state_before :: "string option"
  na_state_after :: "string option"
  na_score :: "byte option"
  na_reasons_json :: "json option"
  na_rule_ids_json :: "json option"
  na_normalized_hash :: "string option"
  na_rule_version :: "ustring option"
  na_error_code :: "string option"
  na_error_message :: "ustring option"
  na_occurred_at :: timestamp

record audit_row =
  ae_id :: i64
  ae_source_update_id :: "i64 option"
  ae_key :: "conversation_key option"
  ae_event_kind :: string
  ae_state_before :: "string option"
  ae_state_after :: "string option"
  ae_score :: "int option"
  ae_reasons_json :: "json option"
  ae_rule_ids_json :: "json option"
  ae_normalized_hash :: "string option"
  ae_rule_version :: "ustring option"
  ae_error_code :: "string option"
  ae_error_message :: "ustring option"
  ae_occurred_at :: timestamp

datatype update_status = Recorded | Applied | Failed

text \<open>
  A row of \<open>processed_update\<close>; the stored event text is its parsed form, of a type that the
  event log instantiates.
\<close>

record 'ev update_row =
  pu_update_id :: i64
  pu_event_type :: string
  pu_event :: 'ev
  pu_status :: update_status
  pu_received_at :: timestamp
  pu_applied_at :: "timestamp option"
  pu_error_code :: "string option"
  pu_error_message :: "string option"

record business_connection_candidate =
  cc_connection_id :: string
  cc_business_user_id :: i64
  cc_user_chat_id :: "i64 option"
  cc_rights_json :: "json option"
  cc_enabled :: bool
  cc_connection_established_at :: i64
  cc_state_revision :: i64
  cc_observed_at :: timestamp

record candidate_guard =
  cg_overflow_established_at :: "i64 option"
  cg_state_revision :: i64

datatype global_reconciliation_state = GlobalPending | GlobalReady | GlobalAuthFailed

fun global_as_str :: "global_reconciliation_state \<Rightarrow> string" where
  "global_as_str GlobalPending = ''PENDING''"
| "global_as_str GlobalReady = ''READY''"
| "global_as_str GlobalAuthFailed = ''AUTH_FAILED''"

definition global_parse :: "string \<Rightarrow> storage_error + global_reconciliation_state" where
  "global_parse v =
     (if v = ''PENDING'' then Inr GlobalPending
      else if v = ''READY'' then Inr GlobalReady
      else if v = ''AUTH_FAILED'' then Inr GlobalAuthFailed
      else Inl (InvalidTelegramReconciliationState ''global state is unknown''))"

record telegram_reconciliation_state =
  tr_state :: global_reconciliation_state
  tr_state_revision :: i64
  tr_updated_at :: timestamp

text \<open>
  The singleton of \<open>owner_identity\<close>: the \<open>CHECK\<close> of the table makes its rows exactly the
  three forms below (every owner column is null unless the state is \<open>CLAIMED\<close>).
\<close>

datatype owner_row = OwnerPending | OwnerReady owner_identity

text \<open>The rows of \<open>spam_sample\<close> and \<open>ham_sample\<close>.\<close>

record sample_row =
  sp_body :: ustring
  sp_content_type :: string
  sp_normalized_hash :: string
  sp_source_chat_id :: "i64 option"
  sp_source_message_id :: "i64 option"
  sp_labeled_at :: timestamp

record 'ev db =
  connections :: "business_connection_record list"
  conversations :: "conversation list"
  ledger :: "ledger_row list"
  challenges :: "challenge_row list"
  challenge_seq :: i64
  updates :: "'ev update_row list"
  outbox :: "outbox_row list"
  outbox_seq :: i64
  audit :: "audit_row list"
  audit_seq :: i64
  settings :: "(string \<times> string) list"
  owner :: owner_row
  candidates :: "business_connection_candidate list"
  guard :: candidate_guard
  reconciliation :: telegram_reconciliation_state
  spam_samples :: "sample_row list"
  ham_samples :: "sample_row list"

type_synonym ('ev, 'a) sop = "('ev db, storage_error, 'a) op"

subsection \<open>Text forms\<close>

lemma kind_from_as_str [simp]: "kind_from_str (kind_as_str k) = Inr k"
  by (cases k) (simp_all add: kind_from_str_def)

lemma reconciliation_parse_as_str [simp]: "reconciliation_parse (reconciliation_as_str s) = Inr s"
  by (cases s) (simp_all add: reconciliation_parse_def)

lemma global_parse_as_str [simp]: "global_parse (global_as_str s) = Inr s"
  by (cases s) (simp_all add: global_parse_def)

lemma owner_chat_source_parse_as_str [simp]:
  "owner_chat_source_parse (owner_chat_source_as_str s) = Inr s"
  by (cases s) (simp_all add: owner_chat_source_parse_def)

lemma kind_as_str_inj [simp]: "kind_as_str k = kind_as_str l \<longleftrightarrow> k = l"
  by (metis kind_from_as_str sum.inject(2))

subsection \<open>The schema's constraints\<close>

text \<open>
  Primary keys, foreign keys, unique indexes and the \<open>CHECK\<close>s that are not carried by the
  column types; \<open>AUTOINCREMENT\<close> identifiers stay at most the counter.
\<close>

definition open_challenge :: "challenge_row \<Rightarrow> bool" where
  "open_challenge c \<longleftrightarrow> ch_closed_at c = None"

definition connections_ok :: "'ev db \<Rightarrow> bool" where
  "connections_ok d \<longleftrightarrow>
     distinct (map bc_connection_id (connections d))
     \<and> distinct (map bc_owner_user_id (connections d))
     \<and> (\<forall>c \<in> set (connections d). 0 < bc_owner_user_id c)"

definition conversations_ok :: "'ev db \<Rightarrow> bool" where
  "conversations_ok d \<longleftrightarrow>
     distinct (map cv_key (conversations d))
     \<and> (\<lambda>c. connection_id (cv_key c)) ` set (conversations d)
         \<subseteq> bc_connection_id ` set (connections d)"

definition ledger_ok :: "'ev db \<Rightarrow> bool" where
  "ledger_ok d \<longleftrightarrow>
     distinct (map (\<lambda>m. (lm_key m, lm_message_id m)) (ledger d))
     \<and> lm_key ` set (ledger d) \<subseteq> cv_key ` set (conversations d)"

definition attempts_ok :: "challenge_row \<Rightarrow> bool" where
  "attempts_ok c \<longleftrightarrow>
     0 \<le> ch_attempts_used c \<and> ch_attempts_used c \<le> ch_max_attempts c \<and> ch_max_attempts c = 3"

definition challenges_ok :: "'ev db \<Rightarrow> bool" where
  "challenges_ok d \<longleftrightarrow>
     distinct (map ch_id (challenges d))
     \<and> (\<forall>c \<in> set (challenges d). ch_id c \<le> challenge_seq d)
     \<and> ch_key ` set (challenges d) \<subseteq> cv_key ` set (conversations d)
     \<and> distinct (map ch_key (filter open_challenge (challenges d)))
     \<and> (\<forall>c \<in> set (challenges d). attempts_ok c)"

definition updates_ok :: "'ev db \<Rightarrow> bool" where
  "updates_ok d \<longleftrightarrow> distinct (map pu_update_id (updates d))"

definition outbox_ok :: "'ev db \<Rightarrow> bool" where
  "outbox_ok d \<longleftrightarrow>
     distinct (map ob_id (outbox d))
     \<and> (\<forall>a \<in> set (outbox d). ob_id a \<le> outbox_seq d)
     \<and> distinct (map ob_idempotency_key (outbox d))
     \<and> ob_source_update_id ` set (outbox d) \<subseteq> pu_update_id ` set (updates d)"

definition db_ok :: "'ev db \<Rightarrow> bool" where
  "db_ok d \<longleftrightarrow> connections_ok d \<and> conversations_ok d \<and> ledger_ok d \<and> challenges_ok d
     \<and> updates_ok d \<and> outbox_ok d"

lemmas ok_defs = db_ok_def connections_ok_def conversations_ok_def ledger_ok_def challenges_ok_def
  updates_ok_def outbox_ok_def

end
