(* ===== verification/Lifecycle_Facts.thy ===== *)
theory Lifecycle_Facts
  imports Storage_Model
begin

section \<open>Prepared events\<close>

text \<open>
  Models \<open>src/processing/models.rs\<close> and \<open>src/events/models.rs\<close>: the body-free facts a raw
  update is reduced to before it is stored, and their JSON form (\<open>serde\<close>'s externally visible
  encoding: the tags, field names and order of the derive attributes). Instants are written
  with the RFC 3339 formatter, a parameter.
\<close>

text \<open>A JSON text carried as a string, with its parse.\<close>

record json_text =
  jt_raw :: ustring
  jt_parsed :: "json option"

record detection_facts =
  df_decision :: string
  df_score :: byte
  df_reasons :: "string list"
  df_matched_rules :: "string list"
  df_detector_name :: string
  df_detector_version :: ustring
  df_normalized_hash :: string
  df_error :: "ustring option"

datatype prepared_sender = SentByBusinessBot | SentImplicitly

datatype inbound_outcome =
    StartChallenge ustring string i64 timestamp timestamp byte
      \<comment> \<open>expression, answer HMAC, key version, created, expires, maximal attempts\<close>
  | Retain
  | OutCorrect i64
  | OutIncorrect i64 bool byte "timestamp option"
      \<comment> \<open>challenge, exhausted, attempts remaining, block expiry\<close>
  | OutExpired i64
  | OutSpam

datatype prepared_action =
    ConnectionChanged i64 "i64 option" bool json_text
      \<comment> \<open>owner user, owner chat, enabled, rights\<close>
  | InboundAction detection_facts inbound_outcome bool
  | ActiveInbound
  | BlockedInbound
  | BlockedFailOpen
  | ManualOwner
  | BotMessage prepared_sender
  | MessagesDeleted "i64 list"
  | Ignore

record lifecycle_facts =
  lf_connection_id :: "string option"
  lf_chat_id :: "i64 option"
  lf_user_id :: "i64 option"
  lf_message_id :: "i64 option"
  lf_media_group_id :: "string option"
  lf_contact_display_name :: "ustring option"
  lf_contact_username :: "ustring option"
  lf_owner_user_id :: "i64 option"
  lf_owner_chat_id :: "i64 option"
  lf_event_kind :: string
  lf_dry_run :: bool
  lf_state_before :: "string option"
  lf_occurred_at :: timestamp
  lf_action :: prepared_action

record prepared_event =
  pe_update_id :: i64
  pe_event_type :: string
  pe_occurred_at :: timestamp
  pe_facts :: lifecycle_facts

text \<open>
  The text of an event column: a serialised event, or the redacted text the owner's private
  commands leave (it has a kind only and does not decode as an event).
\<close>

datatype stored_event = StoredEvent prepared_event | RedactedEvent string

type_synonym database = "stored_event db"

datatype record_receipt = ReceiptRecorded | DuplicateRecorded | DuplicateApplied

datatype apply_receipt = ReceiptApplied | AlreadyApplied

subsection \<open>JSON form\<close>

definition jstr :: "string \<Rightarrow> json" where
  "jstr s = JStr (lit s)"

definition detection_json :: "detection_facts \<Rightarrow> json" where
  "detection_json f =
     JObj [(''decision'', jstr (df_decision f)),
           (''score'', JNum (int (unat (df_score f)))),
           (''reasons'', JArr (map jstr (df_reasons f))),
           (''matched_rules'', JArr (map jstr (df_matched_rules f))),
           (''detector_name'', jstr (df_detector_name f)),
           (''detector_version'', JStr (df_detector_version f)),
           (''normalized_hash'', jstr (df_normalized_hash f)),
           (''error'', jopt JStr (df_error f))]"

fun sender_json :: "prepared_sender \<Rightarrow> json" where
  "sender_json SentByBusinessBot = jstr ''BUSINESS_BOT''"
| "sender_json SentImplicitly = jstr ''IMPLICIT''"

fun outcome_json :: "(timestamp \<Rightarrow> ustring) \<Rightarrow> inbound_outcome \<Rightarrow> json" where
  "outcome_json rfc (StartChallenge ex h v c x m) =
     JObj [(''kind'', jstr ''START_CHALLENGE''), (''expression'', JStr ex),
           (''answer_hmac'', jstr h), (''hmac_key_version'', JNum v),
           (''created_at'', JStr (rfc c)), (''expires_at'', JStr (rfc x)),
           (''max_attempts'', JNum (int (unat m)))]"
| "outcome_json rfc Retain = JObj [(''kind'', jstr ''RETAIN'')]"
| "outcome_json rfc (OutCorrect i) =
     JObj [(''kind'', jstr ''CORRECT''), (''challenge_id'', JNum i)]"
| "outcome_json rfc (OutIncorrect i ex rem bl) =
     JObj [(''kind'', jstr ''INCORRECT''), (''challenge_id'', JNum i), (''exhausted'', JBool ex),
           (''attempts_remaining'', JNum (int (unat rem))),
           (''block_expires_at'', jopt (\<lambda>t. JStr (rfc t)) bl)]"
| "outcome_json rfc (OutExpired i) =
     JObj [(''kind'', jstr ''EXPIRED''), (''challenge_id'', JNum i)]"
| "outcome_json rfc OutSpam = JObj [(''kind'', jstr ''SPAM'')]"

fun action_kind :: "prepared_action \<Rightarrow> string" where
  "action_kind (ConnectionChanged _ _ _ _) = ''CONNECTION_CHANGED''"
| "action_kind (InboundAction _ _ _) = ''INBOUND''"
| "action_kind ActiveInbound = ''ACTIVE_INBOUND''"
| "action_kind BlockedInbound = ''BLOCKED_INBOUND''"
| "action_kind BlockedFailOpen = ''BLOCKED_FAIL_OPEN''"
| "action_kind ManualOwner = ''MANUAL_OWNER''"
| "action_kind (BotMessage _) = ''BOT_MESSAGE''"
| "action_kind (MessagesDeleted _) = ''MESSAGES_DELETED''"
| "action_kind Ignore = ''IGNORE''"

fun action_fields :: "(timestamp \<Rightarrow> ustring) \<Rightarrow> prepared_action \<Rightarrow> (string \<times> json) list" where
  "action_fields rfc (ConnectionChanged u c en r) =
     [(''owner_user_id'', JNum u), (''owner_chat_id'', jopt JNum c), (''enabled'', JBool en),
      (''rights_json'', JStr (jt_raw r))]"
| "action_fields rfc (InboundAction f out dry) =
     [(''detection'', detection_json f), (''outcome'', outcome_json rfc out),
      (''dry_run_spam'', JBool dry)]"
| "action_fields rfc (BotMessage s) = [(''sender'', sender_json s)]"
| "action_fields rfc (MessagesDeleted ids) = [(''message_ids'', JArr (map JNum ids))]"
| "action_fields rfc _ = []"

definition action_json :: "(timestamp \<Rightarrow> ustring) \<Rightarrow> prepared_action \<Rightarrow> json" where
  "action_json rfc a = JObj ((''kind'', jstr (action_kind a)) # action_fields rfc a)"

definition facts_json :: "(timestamp \<Rightarrow> ustring) \<Rightarrow> lifecycle_facts \<Rightarrow> json" where
  "facts_json rfc f =
     JObj [(''connection_id'', jopt jstr (lf_connection_id f)),
           (''chat_id'', jopt JNum (lf_chat_id f)),
           (''user_id'', jopt JNum (lf_user_id f)),
           (''message_id'', jopt JNum (lf_message_id f)),
           (''media_group_id'', jopt jstr (lf_media_group_id f)),
           (''contact_display_name'', jopt JStr (lf_contact_display_name f)),
           (''contact_username'', jopt JStr (lf_contact_username f)),
           (''owner_user_id'', jopt JNum (lf_owner_user_id f)),
           (''owner_chat_id'', jopt JNum (lf_owner_chat_id f)),
           (''event_kind'', jstr (lf_event_kind f)),
           (''dry_run'', JBool (lf_dry_run f)),
           (''state_before'', jopt jstr (lf_state_before f)),
           (''occurred_at'', JStr (rfc (lf_occurred_at f))),
           (''action'', action_json rfc (lf_action f))]"

text \<open>What the pointer lookups of the code see of that form.\<close>

lemma lit_inj [simp]: "lit s = lit t \<longleftrightarrow> s = t"
proof -
  have "inj (of_char :: char \<Rightarrow> nat)" by (simp add: inj_def)
  then show ?thesis by (simp add: lit_def inj_map_eq_map)
qed

lemma facts_pointer_action_kind:
  "json_pointer [''action'', ''kind''] (facts_json rfc f)
   = Some (jstr (action_kind (lf_action f)))"
proof -
  have "map_of (rev (action_fields rfc a)) ''kind'' = None" for a
    by (cases a) (auto simp: map_of_eq_None_iff)
  then show ?thesis
    by (simp add: json_get_def facts_json_def action_json_def map_add_def)
qed

lemma action_kind_ignore_iff [simp]: "action_kind a = ''IGNORE'' \<longleftrightarrow> a = Ignore"
  by (cases a) simp_all

end
