(* ===== verification/Storage_Repositories.thy ===== *)
theory Storage_Repositories
  imports Storage_Model
begin

section \<open>Repositories\<close>

text \<open>
  Models \<open>src/storage/repositories.rs\<close>: each function is the sequence of its SQL statements
  on the tables, with the constraint violations SQLite reports (foreign keys are enforced by
  the connection options) and the errors the function itself returns.
  \<open>claim_due_outbox_action\<close>, which consults the readiness classification, is in the theory of
  the outbox dispatcher.
\<close>

definition find_conversation :: "conversation_key \<Rightarrow> ('ev, conversation option) sop" where
  "find_conversation key = gets (\<lambda>d. find_row (\<lambda>c. cv_key c = key) (conversations d))"

definition new_conversation :: "conversation_key \<Rightarrow> i64 \<Rightarrow> timestamp \<Rightarrow> conversation" where
  "new_conversation key user_id now =
     \<lparr>cv_key = key, cv_user_id = user_id, cv_state = New, cv_created_at = now,
      cv_updated_at = now, cv_block_expires_at = None, cv_block_reason = None,
      cv_block_count = 0, cv_state_version = 0\<rparr>"

definition insert_conversation :: "conversation \<Rightarrow> ('ev, unit) sop" where
  "insert_conversation c d =
     (if \<exists>b \<in> set (connections d). bc_connection_id b = connection_id (cv_key c)
      then Inr ((), d\<lparr>conversations := conversations d @ [c]\<rparr>)
      else Inl (Database ForeignKeyViolation))"

definition get_or_create_conversation ::
  "conversation_key \<Rightarrow> i64 \<Rightarrow> timestamp \<Rightarrow> ('ev, conversation) sop" where
  "get_or_create_conversation key user_id now =
     and_then (find_conversation key) (\<lambda>found.
       case found of
         Some c \<Rightarrow> ret c
       | None \<Rightarrow>
           and_then (insert_conversation (new_conversation key user_id now)) (\<lambda>_.
             ret (new_conversation key user_id now)))"

text \<open>\<open>DELETE FROM business_connection WHERE p\<close> with its \<open>ON DELETE CASCADE\<close>s.\<close>

definition delete_connections :: "(business_connection_record \<Rightarrow> bool) \<Rightarrow> 'ev db \<Rightarrow> 'ev db" where
  "delete_connections p d =
     (let gone = (\<lambda>key. \<exists>b \<in> set (connections d). p b \<and> bc_connection_id b = connection_id key)
      in d\<lparr>connections := delete_where p (connections d),
           conversations := delete_where (\<lambda>c. gone (cv_key c)) (conversations d),
           ledger := delete_where (\<lambda>m. gone (lm_key m)) (ledger d),
           challenges := delete_where (\<lambda>c. gone (ch_key c)) (challenges d)\<rparr>)"

definition set_setting :: "string \<Rightarrow> string \<Rightarrow> 'ev db \<Rightarrow> 'ev db" where
  "set_setting k v d = d\<lparr>settings := (k, v) # filter (\<lambda>(k', _). k' \<noteq> k) (settings d)\<rparr>"

definition unfinished :: "outbox_row \<Rightarrow> bool" where
  "unfinished a \<longleftrightarrow> ob_status a = OutPending \<or> ob_status a = OutRetry"

definition retire_stale_connection :: "string \<Rightarrow> timestamp \<Rightarrow> 'ev db \<Rightarrow> 'ev db" where
  "retire_stale_connection stale now d =
     set_setting ''destructive_mode'' ''false''
       (delete_connections (\<lambda>b. bc_connection_id b = stale)
         (d\<lparr>outbox := update_where (\<lambda>a. ob_connection_id a = Some stale \<and> unfinished a)
              (\<lambda>a. a\<lparr>ob_status := OutPermanentFailure, ob_claimed_at := None,
                    ob_next_attempt_at := None,
                    ob_last_error := Some ''business_connection_replaced'',
                    ob_updated_at := now\<rparr>) (outbox d)\<rparr>))"

definition upsert_business_connection :: "business_connection_record \<Rightarrow> ('ev, unit) sop" where
  "upsert_business_connection connection d =
     (let d1 = (case find_row (\<lambda>b. bc_owner_user_id b = bc_owner_user_id connection
                    \<and> bc_connection_id b \<noteq> bc_connection_id connection) (connections d) of
                  None \<Rightarrow> d
                | Some b \<Rightarrow> retire_stale_connection (bc_connection_id b) (bc_updated_at connection) d)
      in if bc_owner_user_id connection \<le> 0
            \<or> is_some_and (\<lambda>t. t \<le> 0) (bc_connection_established_at connection)
            \<or> bc_state_revision connection < 0
         then Inl (Database CheckViolation)
         else if \<exists>b \<in> set (connections d1). bc_connection_id b = bc_connection_id connection
         then Inr ((), d1\<lparr>connections :=
                update_where (\<lambda>b. bc_connection_id b = bc_connection_id connection)
                  (\<lambda>_. connection) (connections d1)\<rparr>)
         else Inr ((), d1\<lparr>connections := connections d1 @ [connection]\<rparr>))"

definition save_conversation :: "conversation \<Rightarrow> i64 \<Rightarrow> ('ev, conversation) sop" where
  "save_conversation c expected_version d =
     (let here = (\<lambda>r. cv_key r = cv_key c \<and> cv_state_version r = expected_version)
      in if count_where here (conversations d) \<noteq> 1 then Inl ConcurrentModification
         else Inr (c\<lparr>cv_state_version := expected_version + 1\<rparr>,
                d\<lparr>conversations := update_where here
                     (\<lambda>r. r\<lparr>cv_state := cv_state c, cv_updated_at := cv_updated_at c,
                           cv_block_expires_at := cv_block_expires_at c,
                           cv_block_reason := cv_block_reason c,
                           cv_block_count := cv_block_count c,
                           cv_state_version := cv_state_version r + 1\<rparr>) (conversations d)\<rparr>))"

definition ledger_row_of :: "ledger_message \<Rightarrow> ledger_row" where
  "ledger_row_of m = ledger_message.extend m \<lparr>lm_deleted_at = None\<rparr>"

definition record_message :: "ledger_message \<Rightarrow> ('ev, bool) sop" where
  "record_message m d =
     (if \<exists>r \<in> set (ledger d). lm_key r = lm_key m \<and> lm_message_id r = lm_message_id m
      then Inr (False, d)
      else if \<exists>c \<in> set (conversations d). cv_key c = lm_key m
      then Inr (True, d\<lparr>ledger := ledger d @ [ledger_row_of m]\<rparr>)
      else Inl (Database ForeignKeyViolation))"

definition mark_message_deleted :: "conversation_key \<Rightarrow> i64 \<Rightarrow> timestamp \<Rightarrow> ('ev, bool) sop" where
  "mark_message_deleted key message_id deleted_at d =
     (let here = (\<lambda>r. lm_key r = key \<and> lm_message_id r = message_id \<and> lm_deleted_at r = None)
      in Inr (count_where here (ledger d) = 1,
              d\<lparr>ledger := update_where here (\<lambda>r. r\<lparr>lm_deleted_at := Some deleted_at\<rparr>) (ledger d)\<rparr>))"

definition active_owner_reply_ids :: "conversation_key \<Rightarrow> ('ev, i64 list) sop" where
  "active_owner_reply_ids key =
     gets (\<lambda>d. sort (map lm_message_id
       (filter (\<lambda>r. lm_key r = key \<and> lm_manual_owner_reply r \<and> lm_deleted_at r = None)
         (ledger d))))"

definition eligible_deletion_ids :: "conversation_key \<Rightarrow> ('ev, i64 list) sop" where
  "eligible_deletion_ids key =
     gets (\<lambda>d. sort (map lm_message_id
       (filter (\<lambda>r. lm_key r = key \<and> lm_eligible_for_deletion r \<and> lm_deleted_at r = None)
         (ledger d))))"

definition challenge_row_of :: "challenge_record \<Rightarrow> i64 \<Rightarrow> challenge_row" where
  "challenge_row_of c i = challenge_record.extend (c\<lparr>ch_id := i\<rparr>) \<lparr>ch_closed_at = None\<rparr>"

definition create_challenge :: "challenge_record \<Rightarrow> ('ev, i64) sop" where
  "create_challenge c d =
     (if ch_attempts_used c < 0 \<or> 3 < ch_attempts_used c \<or> ch_max_attempts c \<noteq> 3
         \<or> ch_hmac_key_version c < 0
      then Inl (Database CheckViolation)
      else if \<exists>r \<in> set (challenges d). ch_key r = ch_key c \<and> open_challenge r
      then Inl (Database UniqueViolation)
      else if \<exists>v \<in> set (conversations d). cv_key v = ch_key c
      then let i = challenge_seq d + 1
           in Inr (i, d\<lparr>challenges := challenges d @ [challenge_row_of c i], challenge_seq := i\<rparr>)
      else Inl (Database ForeignKeyViolation))"

definition challenge_of_row :: "challenge_row \<Rightarrow> challenge_record" where
  "challenge_of_row r = challenge_record.truncate r"

definition active_challenge :: "conversation_key \<Rightarrow> ('ev, challenge_record option) sop" where
  "active_challenge key =
     gets (\<lambda>d. map_option challenge_of_row
       (find_row (\<lambda>r. ch_key r = key \<and> open_challenge r) (challenges d)))"

definition active_challenges_not_on_version ::
  "i64 \<Rightarrow> ('ev, challenge_hmac_upgrade_record list) sop" where
  "active_challenges_not_on_version target =
     gets (\<lambda>d. map (\<lambda>r. \<lparr>hu_id = ch_id r, hu_expression = ch_expression r,
                         hu_hmac_key_version = ch_hmac_key_version r\<rparr>)
       (sort_key ch_id
         (filter (\<lambda>r. open_challenge r \<and> ch_hmac_key_version r \<noteq> target) (challenges d))))"

definition replace_challenge_hmac :: "i64 \<Rightarrow> i64 \<Rightarrow> i64 \<Rightarrow> string \<Rightarrow> ('ev, unit) sop" where
  "replace_challenge_hmac challenge_id from_version to_version hmac d =
     (let here = (\<lambda>r. ch_id r = challenge_id \<and> open_challenge r
                     \<and> ch_hmac_key_version r = from_version)
      in if count_where here (challenges d) \<noteq> 1 then Inl ConcurrentModification
         else Inr ((), d\<lparr>challenges := update_where here
                (\<lambda>r. r\<lparr>ch_answer_hmac := hmac, ch_hmac_key_version := to_version\<rparr>)
                (challenges d)\<rparr>))"

definition close_row :: "timestamp \<Rightarrow> challenge_row \<Rightarrow> challenge_row" where
  "close_row now r = r\<lparr>ch_closed_at := Some now, ch_delivery_status := DeliveryClosed\<rparr>"

definition close_challenge :: "i64 \<Rightarrow> timestamp \<Rightarrow> ('ev, bool) sop" where
  "close_challenge challenge_id closed_at d =
     (let here = (\<lambda>r. ch_id r = challenge_id \<and> open_challenge r)
      in Inr (count_where here (challenges d) = 1,
              d\<lparr>challenges := update_where here (close_row closed_at) (challenges d)\<rparr>))"

definition increment_challenge_attempts :: "i64 \<Rightarrow> ('ev, i64) sop" where
  "increment_challenge_attempts challenge_id d =
     (let here = (\<lambda>r. ch_id r = challenge_id \<and> open_challenge r
                     \<and> ch_attempts_used r < ch_max_attempts r)
      in case find_row here (challenges d) of
           None \<Rightarrow> Inl (InvalidData (lit ''challenge '' @ show_int challenge_id
                          @ lit '' cannot consume another attempt''))
         | Some r \<Rightarrow>
             Inr (ch_attempts_used r + 1,
                  d\<lparr>challenges := update_where here
                      (\<lambda>r. r\<lparr>ch_attempts_used := ch_attempts_used r + 1\<rparr>) (challenges d)\<rparr>))"

definition close_active_challenge :: "conversation_key \<Rightarrow> timestamp \<Rightarrow> ('ev, bool) sop" where
  "close_active_challenge key closed_at d =
     (let here = (\<lambda>r. ch_key r = key \<and> open_challenge r)
      in Inr (count_where here (challenges d) = 1,
              d\<lparr>challenges := update_where here (close_row closed_at) (challenges d)\<rparr>))"

definition outbox_row_of :: "new_outbox_action \<Rightarrow> i64 \<Rightarrow> outbox_row" where
  "outbox_row_of a i =
     \<lparr>ob_id = i, ob_source_update_id = no_source_update_id a,
      ob_connection_id = map_option connection_id (no_key a),
      ob_chat_id = map_option chat_id (no_key a), ob_kind = no_kind a,
      ob_payload = no_payload a, ob_idempotency_key = no_idempotency_key a,
      ob_status = OutPending, ob_attempts = 0, ob_next_attempt_at = None, ob_last_error = None,
      ob_created_at = no_created_at a, ob_updated_at = no_created_at a, ob_claimed_at = None\<rparr>"

definition enqueue_outbox_action :: "new_outbox_action \<Rightarrow> ('ev, bool) sop" where
  "enqueue_outbox_action a d =
     (if \<exists>r \<in> set (outbox d). ob_idempotency_key r = no_idempotency_key a then Inr (False, d)
      else if \<exists>u \<in> set (updates d). pu_update_id u = no_source_update_id a
      then let i = outbox_seq d + 1
           in Inr (True, d\<lparr>outbox := outbox d @ [outbox_row_of a i], outbox_seq := i\<rparr>)
      else Inl (Database ForeignKeyViolation))"

text \<open>\<open>TryFrom<OutboxActionRow>\<close>.\<close>

definition decode_outbox :: "outbox_row \<Rightarrow> storage_error + outbox_action_record" where
  "decode_outbox r =
     (case (case (ob_connection_id r, ob_chat_id r) of
              (Some c, Some h) \<Rightarrow> Inr (Some \<lparr>connection_id = c, chat_id = h\<rparr>)
            | (None, None) \<Rightarrow> Inr None
            | _ \<Rightarrow> Inl (InvalidData
                (lit ''outbox connection and chat identity must both be present or absent''))) of
        Inl e \<Rightarrow> Inl e
      | Inr key \<Rightarrow>
          Inr \<lparr>oa_id = ob_id r, oa_source_update_id = ob_source_update_id r, oa_key = key,
               oa_kind = ob_kind r, oa_payload = ob_payload r, oa_status = ob_status r,
               oa_attempts = ob_attempts r, oa_interrupted = False,
               oa_next_attempt_at = ob_next_attempt_at r, oa_created_at = ob_created_at r,
               oa_updated_at = ob_updated_at r\<rparr>)"

text \<open>\<open>Iterator::collect\<close> into a \<open>Result\<close>: the first error, or all values.\<close>

fun collect_results :: "('e + 'a) list \<Rightarrow> 'e + 'a list" where
  "collect_results [] = Inr []"
| "collect_results (Inl e # rs) = Inl e"
| "collect_results (Inr x # rs) =
     (case collect_results rs of Inl e \<Rightarrow> Inl e | Inr xs \<Rightarrow> Inr (x # xs))"

definition list_outbox_actions_for_update :: "i64 \<Rightarrow> ('ev, outbox_action_record list) sop" where
  "list_outbox_actions_for_update source_update_id =
     gets_result (\<lambda>d. collect_results (map decode_outbox
       (sort_key ob_id (filter (\<lambda>r. ob_source_update_id r = source_update_id) (outbox d)))))"

definition audit_row_of :: "new_audit_event \<Rightarrow> i64 \<Rightarrow> audit_row" where
  "audit_row_of a i =
     \<lparr>ae_id = i, ae_source_update_id = Some (na_source_update_id a), ae_key = na_key a,
      ae_event_kind = na_event_kind a, ae_state_before = na_state_before a,
      ae_state_after = na_state_after a, ae_score = map_option (int \<circ> unat) (na_score a),
      ae_reasons_json = na_reasons_json a, ae_rule_ids_json = na_rule_ids_json a,
      ae_normalized_hash = na_normalized_hash a, ae_rule_version = na_rule_version a,
      ae_error_code = na_error_code a, ae_error_message = na_error_message a,
      ae_occurred_at = na_occurred_at a\<rparr>"

definition insert_audit_event :: "new_audit_event \<Rightarrow> ('ev, i64) sop" where
  "insert_audit_event a d =
     (if is_some_and (\<lambda>s. 100 < unat s) (na_score a) then Inl (Database CheckViolation)
      else if \<exists>u \<in> set (updates d). pu_update_id u = na_source_update_id a
      then let i = audit_seq d + 1
           in Inr (i, d\<lparr>audit := audit d @ [audit_row_of a i], audit_seq := i\<rparr>)
      else Inl (Database ForeignKeyViolation))"

text \<open>\<open>update_one\<close>: an update that must change exactly one row.\<close>

definition update_one ::
  "('r \<Rightarrow> bool) \<Rightarrow> ('r \<Rightarrow> 'r) \<Rightarrow> 'r list \<Rightarrow> storage_error + 'r list" where
  "update_one p f rs =
     (if count_where p rs = 1 then Inr (update_where p f rs) else Inl ConcurrentModification)"

definition set_outbox_terminal ::
  "i64 \<Rightarrow> outbox_status \<Rightarrow> string option \<Rightarrow> timestamp \<Rightarrow> ('ev, unit) sop" where
  "set_outbox_terminal action_id status error_code now d =
     (case update_one (\<lambda>a. ob_id a = action_id \<and> unfinished a)
             (\<lambda>a. a\<lparr>ob_status := status, ob_next_attempt_at := None, ob_claimed_at := None,
                   ob_last_error := error_code, ob_updated_at := now\<rparr>) (outbox d) of
        Inl e \<Rightarrow> Inl e
      | Inr rows \<Rightarrow> Inr ((), d\<lparr>outbox := rows\<rparr>))"

definition mark_outbox_succeeded :: "i64 \<Rightarrow> timestamp \<Rightarrow> ('ev, unit) sop" where
  "mark_outbox_succeeded action_id now = set_outbox_terminal action_id OutSucceeded None now"

definition mark_outbox_uncertain :: "i64 \<Rightarrow> string \<Rightarrow> timestamp \<Rightarrow> ('ev, unit) sop" where
  "mark_outbox_uncertain action_id error_code now =
     set_outbox_terminal action_id OutUncertain (Some error_code) now"

definition mark_outbox_permanent_failure :: "i64 \<Rightarrow> string \<Rightarrow> timestamp \<Rightarrow> ('ev, unit) sop" where
  "mark_outbox_permanent_failure action_id error_code now =
     set_outbox_terminal action_id OutPermanentFailure (Some error_code) now"

definition mark_outbox_retry :: "i64 \<Rightarrow> timestamp \<Rightarrow> string \<Rightarrow> timestamp \<Rightarrow> ('ev, unit) sop" where
  "mark_outbox_retry action_id next_attempt_at error_code now d =
     (case update_one (\<lambda>a. ob_id a = action_id \<and> unfinished a)
             (\<lambda>a. a\<lparr>ob_status := OutRetry, ob_next_attempt_at := Some next_attempt_at,
                   ob_claimed_at := None, ob_last_error := Some error_code,
                   ob_updated_at := now\<rparr>) (outbox d) of
        Inl e \<Rightarrow> Inl e
      | Inr rows \<Rightarrow> Inr ((), d\<lparr>outbox := rows\<rparr>))"

definition find_challenge_by_id :: "i64 \<Rightarrow> ('ev, challenge_record option) sop" where
  "find_challenge_by_id challenge_id =
     gets (\<lambda>d. map_option challenge_of_row
       (find_row (\<lambda>r. ch_id r = challenge_id) (challenges d)))"

definition mark_challenge_sent :: "i64 \<Rightarrow> i64 \<Rightarrow> ('ev, unit) sop" where
  "mark_challenge_sent challenge_id prompt_message_id d =
     (case update_one (\<lambda>r. ch_id r = challenge_id)
             (\<lambda>r. r\<lparr>ch_prompt_message_id := Some prompt_message_id,
                   ch_delivery_status :=
                     (if open_challenge r then DeliverySent else ch_delivery_status r)\<rparr>)
             (challenges d) of
        Inl e \<Rightarrow> Inl e
      | Inr rows \<Rightarrow> Inr ((), d\<lparr>challenges := rows\<rparr>))"

definition mark_challenge_uncertain :: "i64 \<Rightarrow> ('ev, unit) sop" where
  "mark_challenge_uncertain challenge_id d =
     (case update_one (\<lambda>r. ch_id r = challenge_id)
             (\<lambda>r. r\<lparr>ch_delivery_status :=
                     (if open_challenge r then DeliveryUncertain else ch_delivery_status r)\<rparr>)
             (challenges d) of
        Inl e \<Rightarrow> Inl e
      | Inr rows \<Rightarrow> Inr ((), d\<lparr>challenges := rows\<rparr>))"

definition load_telegram_reconciliation_state :: "('ev, telegram_reconciliation_state) sop" where
  "load_telegram_reconciliation_state = gets reconciliation"

text \<open>
  \<open>decode_business_connection\<close>: the checks the schema does not already make are those on a
  blank identifier and on the rights text.
\<close>

definition decode_business_connection ::
  "business_connection_record \<Rightarrow> storage_error + business_connection_record" where
  "decode_business_connection b =
     (if trim (lit (bc_connection_id b)) = [] \<or> bc_owner_user_id b \<le> 0
      then Inl (InvalidData (lit ''trusted Business connection identity is invalid''))
      else if is_some_and (\<lambda>t. t \<le> 0) (bc_connection_established_at b)
            \<or> bc_state_revision b < 0 \<or> bc_rights_json b = None
      then Inl (InvalidData (lit ''trusted Business connection state is invalid''))
      else Inr b)"

definition decode_optional :: "('r \<Rightarrow> 'e + 'a) \<Rightarrow> 'r option \<Rightarrow> 'e + 'a option" where
  "decode_optional f r =
     (case r of None \<Rightarrow> Inr None | Some x \<Rightarrow> (case f x of Inl e \<Rightarrow> Inl e | Inr y \<Rightarrow> Inr (Some y)))"

definition confirmed :: "business_connection_record \<Rightarrow> bool" where
  "confirmed b \<longleftrightarrow> bc_reconciliation_state b = ReconciliationConfirmed"

definition find_business_connection ::
  "string \<Rightarrow> ('ev, business_connection_record option) sop" where
  "find_business_connection cid =
     and_then load_telegram_reconciliation_state (\<lambda>g.
       if tr_state g \<noteq> GlobalReady then ret None
       else gets_result (\<lambda>d. decode_optional decode_business_connection
              (find_row (\<lambda>b. bc_connection_id b = cid \<and> confirmed b) (connections d))))"

text \<open>\<open>ORDER BY connection_id LIMIT 2\<close>, then at most one row is accepted.\<close>

definition single_row ::
  "ustring \<Rightarrow> business_connection_record list
   \<Rightarrow> storage_error + business_connection_record option" where
  "single_row message rows =
     (case rows of
        [] \<Rightarrow> Inr None
      | [b] \<Rightarrow> decode_optional decode_business_connection (Some b)
      | _ \<Rightarrow> Inl (InvalidData message))"

definition find_single_business_connection ::
  "('ev, business_connection_record option) sop" where
  "find_single_business_connection =
     and_then load_telegram_reconciliation_state (\<lambda>g.
       if tr_state g \<noteq> GlobalReady then ret None
       else gets_result (\<lambda>d. single_row
              (lit ''single-account mode found multiple Business connections'')
              (filter confirmed (connections d))))"

definition load_business_connection_for_reconciliation ::
  "string \<Rightarrow> ('ev, business_connection_record option) sop" where
  "load_business_connection_for_reconciliation cid =
     gets_result (\<lambda>d. decode_optional decode_business_connection
       (find_row (\<lambda>b. bc_connection_id b = cid) (connections d)))"

definition load_single_trusted_connection ::
  "('ev, business_connection_record option) sop" where
  "load_single_trusted_connection =
     gets_result (\<lambda>d. single_row
       (lit ''single-account mode found multiple trusted Business connections'')
       (connections d))"

definition disable_business_connection :: "string \<Rightarrow> timestamp \<Rightarrow> ('ev, unit) sop" where
  "disable_business_connection cid now d =
     (case update_one (\<lambda>b. bc_connection_id b = cid)
             (\<lambda>b. b\<lparr>bc_enabled := False, bc_state_revision := bc_state_revision b + 1,
                   bc_updated_at := now\<rparr>) (connections d) of
        Inl e \<Rightarrow> Inl e
      | Inr rows \<Rightarrow> Inr ((), d\<lparr>connections := rows\<rparr>))"

subsection \<open>The schema's constraints are kept\<close>

interpretation ok: step_relation "keeps db_ok"
  by (rule step_relation_keeps)

lemma stays_okI: "(\<And>d x t. m d = Inr (x, t) \<Longrightarrow> db_ok d \<Longrightarrow> db_ok t) \<Longrightarrow> stays (keeps db_ok) m"
  by (auto simp: stays_def keeps_def)

text \<open>A read leaves the state alone.\<close>

definition reads :: "('s, 'e, 'a) op \<Rightarrow> bool" where
  "reads m \<longleftrightarrow> (\<forall>s x t. m s = Inr (x, t) \<longrightarrow> t = s)"

lemma readsD: "reads m \<Longrightarrow> m s = Inr (x, t) \<Longrightarrow> t = s"
  by (simp add: reads_def)

lemma reads_basic:
  "reads (ret x)" "reads (fail e)" "reads (gets f)" "reads (gets_result g)" "reads (lift_result r)"
  by (auto simp: reads_def op_success)

lemma reads_and_then: "reads m \<Longrightarrow> (\<And>x. reads (f x)) \<Longrightarrow> reads (and_then m f)"
  unfolding reads_def and_then_Inr_iff by blast

lemma reads_if: "reads m \<Longrightarrow> reads n \<Longrightarrow> reads (if b then m else n)"
  by simp

lemma reads_map_err: "reads m \<Longrightarrow> reads (map_err g m)"
  by (simp add: reads_def map_err_Inr_iff)

lemma repository_reads:
  "reads (find_conversation key)" "reads (active_owner_reply_ids key)"
  "reads (eligible_deletion_ids key)" "reads (active_challenge key)"
  "reads (active_challenges_not_on_version v)" "reads (list_outbox_actions_for_update u)"
  "reads (find_challenge_by_id i)" "reads load_telegram_reconciliation_state"
  "reads (find_business_connection c)" "reads find_single_business_connection"
  "reads (load_business_connection_for_reconciliation c)" "reads load_single_trusted_connection"
  by (auto simp: find_conversation_def active_owner_reply_ids_def eligible_deletion_ids_def
      active_challenge_def active_challenges_not_on_version_def list_outbox_actions_for_update_def
      find_challenge_by_id_def load_telegram_reconciliation_state_def find_business_connection_def
      find_single_business_connection_def load_business_connection_for_reconciliation_def
      load_single_trusted_connection_def intro!: reads_basic reads_and_then)

context step_relation
begin

lemma stays_reads: "reads m \<Longrightarrow> stays R m"
  unfolding reads_def stays_def using step_refl by blast

end

lemma open_close_row: "open_challenge (close_row now r) \<Longrightarrow> open_challenge r"
  by (simp add: open_challenge_def close_row_def)

lemma close_row_simps [simp]:
  "ch_key (close_row now r) = ch_key r" "ch_id (close_row now r) = ch_id r"
  "ch_attempts_used (close_row now r) = ch_attempts_used r"
  "ch_max_attempts (close_row now r) = ch_max_attempts r"
  by (simp_all add: close_row_def)

lemma ok_insert_conversation:
  assumes "insert_conversation c d = Inr (x, t)" and "cv_key c \<notin> cv_key ` set (conversations d)"
    and "db_ok d"
  shows "db_ok t"
proof -
  have t: "t = d\<lparr>conversations := conversations d @ [c]\<rparr>"
    and fk: "connection_id (cv_key c) \<in> bc_connection_id ` set (connections d)"
    using assms(1) by (auto simp: insert_conversation_def table_simps split: if_splits)
  show ?thesis
    using assms(2,3) fk unfolding t by (simp add: ok_defs subset_insertI2)
qed

lemma ok_get_or_create: "stays (keeps db_ok) (get_or_create_conversation key u now)"
proof (rule stays_okI)
  fix d :: "'a db" and x t
  assume run: "get_or_create_conversation key u now d = Inr (x, t)" and ok: "db_ok d"
  show "db_ok t"
  proof (cases "find_row (\<lambda>c. cv_key c = key) (conversations d)")
    case None
    then have "key \<notin> cv_key ` set (conversations d)" by (auto simp: find_row_None_iff)
    with None run ok show ?thesis
      by (auto simp: get_or_create_conversation_def find_conversation_def op_success
          new_conversation_def dest!: ok_insert_conversation)
  next
    case (Some c)
    with run ok show ?thesis
      by (simp add: get_or_create_conversation_def find_conversation_def op_success)
  qed
qed

lemma ok_save_conversation: "stays (keeps db_ok) (save_conversation c v)"
  by (rule stays_okI)
    (auto simp: save_conversation_def Let_def ok_defs table_simps in_update_where_iff
      split: if_splits)

lemma ok_record_message: "stays (keeps db_ok) (record_message m)"
  by (rule stays_okI)
    (auto simp: record_message_def ok_defs table_simps ledger_row_of_def ledger_message.defs split: if_splits)

lemma ok_mark_message_deleted: "stays (keeps db_ok) (mark_message_deleted key m now)"
  by (rule stays_okI) (auto simp: mark_message_deleted_def Let_def ok_defs table_simps)

lemma ok_create_challenge: "stays (keeps db_ok) (create_challenge c)"
  by (rule stays_okI)
    (auto simp: create_challenge_def Let_def ok_defs table_simps challenge_row_of_def
      challenge_record.defs attempts_ok_def
      open_challenge_def split: if_splits)

lemma ok_update_challenges:
  assumes "db_ok d"
    and "\<And>r. ch_key (f r) = ch_key r" and "\<And>r. ch_id (f r) = ch_id r"
    and "\<And>r. open_challenge (f r) \<Longrightarrow> open_challenge r"
    and "\<And>r. p r \<Longrightarrow> attempts_ok r \<Longrightarrow> attempts_ok (f r)"
  shows "db_ok (d\<lparr>challenges := update_where p f (challenges d)\<rparr>)"
proof -
  have "distinct (map ch_key (filter open_challenge (update_where p f (challenges d))))"
    using assms(1,2,4) by (intro distinct_filter_update_where) (auto simp: ok_defs)
  moreover have "\<forall>c \<in> set (update_where p f (challenges d)). attempts_ok c"
    using assms(1,5) by (auto simp: ok_defs in_update_where_iff)
  ultimately show ?thesis
    using assms(1,2,3) by (auto simp: ok_defs table_simps in_update_where_iff)
qed

lemma ok_replace_challenge_hmac: "stays (keeps db_ok) (replace_challenge_hmac i v w h)"
  by (rule stays_okI)
    (auto simp: attempts_ok_def replace_challenge_hmac_def Let_def open_challenge_def split: if_splits
      intro!: ok_update_challenges)

lemma ok_close_challenge: "stays (keeps db_ok) (close_challenge i now)"
  by (rule stays_okI)
    (auto simp: attempts_ok_def close_challenge_def Let_def dest: open_close_row intro!: ok_update_challenges)

lemma ok_close_active_challenge: "stays (keeps db_ok) (close_active_challenge key now)"
  by (rule stays_okI)
    (auto simp: attempts_ok_def close_active_challenge_def Let_def dest: open_close_row
      intro!: ok_update_challenges)

lemma ok_increment_challenge_attempts: "stays (keeps db_ok) (increment_challenge_attempts i)"
  by (rule stays_okI)
    (auto simp: attempts_ok_def increment_challenge_attempts_def Let_def open_challenge_def split: option.splits
      intro!: ok_update_challenges)

lemma ok_mark_challenge_sent: "stays (keeps db_ok) (mark_challenge_sent i m)"
  by (rule stays_okI)
    (auto simp: attempts_ok_def mark_challenge_sent_def update_one_def open_challenge_def
      split: sum.splits if_splits intro!: ok_update_challenges)

lemma ok_mark_challenge_uncertain: "stays (keeps db_ok) (mark_challenge_uncertain i)"
  by (rule stays_okI)
    (auto simp: attempts_ok_def mark_challenge_uncertain_def update_one_def open_challenge_def
      split: sum.splits if_splits intro!: ok_update_challenges)

lemma ok_enqueue_outbox_action: "stays (keeps db_ok) (enqueue_outbox_action a)"
  by (rule stays_okI)
    (auto simp: enqueue_outbox_action_def Let_def ok_defs table_simps outbox_row_of_def split: if_splits)

lemma ok_insert_audit_event: "stays (keeps db_ok) (insert_audit_event a)"
  by (rule stays_okI) (auto simp: insert_audit_event_def Let_def ok_defs split: if_splits)

lemma ok_update_outbox:
  assumes "db_ok d" and "\<And>r. ob_id (f r) = ob_id r"
    and "\<And>r. ob_idempotency_key (f r) = ob_idempotency_key r"
    and "\<And>r. ob_source_update_id (f r) = ob_source_update_id r"
  shows "db_ok (d\<lparr>outbox := update_where p f (outbox d)\<rparr>)"
  using assms by (auto simp: ok_defs table_simps in_update_where_iff)

lemma ok_set_outbox_terminal: "stays (keeps db_ok) (set_outbox_terminal i s e now)"
  by (rule stays_okI)
    (auto simp: set_outbox_terminal_def update_one_def split: if_splits intro!: ok_update_outbox)

lemma ok_mark_outbox_retry: "stays (keeps db_ok) (mark_outbox_retry i n e now)"
  by (rule stays_okI)
    (auto simp: mark_outbox_retry_def update_one_def split: if_splits intro!: ok_update_outbox)

text \<open>
  Deleting connections with the cascades. \<open>gone\<close> selects the conversation keys that go; a
  table keyed by conversations keeps exactly the rows whose key stays.
\<close>

lemma delete_where_keys:
  "k ` set (delete_where (\<lambda>r. g (k r)) rs) = {x \<in> k ` set rs. \<not> g x}"
  by auto

lemma distinct_filter_delete_where:
  "distinct (map k (filter q rs)) \<Longrightarrow> distinct (map k (filter q (delete_where p rs)))"
proof -
  have "filter q (delete_where p rs) = filter (\<lambda>r. \<not> p r) (filter q rs)"
    by (simp add: delete_where_def conj_commute)
  then show "distinct (map k (filter q rs)) \<Longrightarrow> ?thesis"
    using distinct_map_filter [of k "filter q rs" "\<lambda>r. \<not> p r"] by simp
qed

lemma ok_delete_connections:
  assumes "db_ok d"
  shows "db_ok (delete_connections p d)"
proof -
  define gone :: "conversation_key \<Rightarrow> bool" where
    "gone = (\<lambda>key. \<exists>b \<in> set (connections d). p b \<and> bc_connection_id b = connection_id key)"
  let ?t = "d\<lparr>connections := delete_where p (connections d),
    conversations := delete_where (\<lambda>c. gone (cv_key c)) (conversations d),
    ledger := delete_where (\<lambda>m. gone (lm_key m)) (ledger d),
    challenges := delete_where (\<lambda>c. gone (ch_key c)) (challenges d)\<rparr>"
  have t: "delete_connections p d = ?t"
    by (simp add: delete_connections_def gone_def)
  have "connections_ok ?t" "updates_ok ?t" "outbox_ok ?t"
    using assms by (auto simp: ok_defs intro!: distinct_map_delete_where)
  moreover have "conversations_ok ?t"
  proof -
    have "connection_id (cv_key c) \<in> bc_connection_id ` set (delete_where p (connections d))"
      if "c \<in> set (conversations d)" "\<not> gone (cv_key c)" for c
    proof -
      from assms that(1) have "connection_id (cv_key c) \<in> bc_connection_id ` set (connections d)"
        by (auto simp: ok_defs)
      with that(2) show ?thesis by (auto simp: gone_def)
    qed
    with assms show ?thesis
      by (auto simp: ok_defs intro!: distinct_map_delete_where simp del: set_delete_where
          simp: set_delete_where [of "\<lambda>c. gone (cv_key c)"])
  qed
  moreover have "ledger_ok ?t"
    using assms
    by (auto simp: db_ok_def ledger_ok_def delete_where_keys [of lm_key gone]
        delete_where_keys [of cv_key gone] simp del: set_delete_where
        intro!: distinct_map_delete_where)
  moreover have "challenges_ok ?t"
    using assms
    by (auto simp: db_ok_def challenges_ok_def
        intro!: distinct_map_delete_where distinct_filter_delete_where)
  ultimately show ?thesis unfolding t by (simp add: db_ok_def)
qed

lemma ok_set_setting: "db_ok (set_setting k v d) \<longleftrightarrow> db_ok d"
  by (simp add: set_setting_def ok_defs)

lemma ok_retire_stale_connection: "db_ok d \<Longrightarrow> db_ok (retire_stale_connection stale now d)"
  unfolding retire_stale_connection_def ok_set_setting
  by (intro ok_delete_connections ok_update_outbox) simp_all

text \<open>Rows with the identifier of \<open>b\<close> are replaced by \<open>b\<close>.\<close>

lemma distinct_owner_replace:
  assumes "distinct (map bc_connection_id bs)" and "distinct (map bc_owner_user_id bs)"
    and "\<forall>a \<in> set bs. bc_owner_user_id a = bc_owner_user_id b
      \<longrightarrow> bc_connection_id a = bc_connection_id b"
  shows "distinct (map bc_owner_user_id
    (update_where (\<lambda>a. bc_connection_id a = bc_connection_id b) (\<lambda>_. b) bs))"
  using assms
proof (induction bs)
  case Nil
  then show ?case by simp
next
  case (Cons a bs)
  let ?p = "\<lambda>a. bc_connection_id a = bc_connection_id b"
  have IH: "distinct (map bc_owner_user_id (update_where ?p (\<lambda>_. b) bs))"
    using Cons by simp
  show ?case
  proof (cases "?p a")
    case True
    then have "\<forall>r \<in> set bs. \<not> ?p r" using Cons.prems(1) by (auto simp: image_iff)
    then have "update_where ?p (\<lambda>_. b) bs = bs" by (auto simp: update_where_def intro: map_idI)
    moreover have "bc_owner_user_id b \<notin> bc_owner_user_id ` set bs"
      using Cons.prems(3) \<open>\<forall>r \<in> set bs. \<not> ?p r\<close> by auto
    ultimately show ?thesis using True Cons.prems(2) by simp
  next
    case False
    have "bc_owner_user_id a \<notin> bc_owner_user_id ` set (update_where ?p (\<lambda>_. b) bs)"
      using False Cons.prems(2,3) by (auto simp: set_update_where)
    with False IH show ?thesis by simp
  qed
qed

lemma upsert_Inr:
  assumes "upsert_business_connection b d = Inr (x, t)" and "db_ok d"
  obtains d1 where "db_ok d1"
    and "\<forall>a \<in> set (connections d1). bc_owner_user_id a = bc_owner_user_id b
      \<longrightarrow> bc_connection_id a = bc_connection_id b"
    and "0 < bc_owner_user_id b"
    and "t = d1\<lparr>connections := (if bc_connection_id b \<in> bc_connection_id ` set (connections d1)
        then update_where (\<lambda>a. bc_connection_id a = bc_connection_id b) (\<lambda>_. b) (connections d1)
        else connections d1 @ [b])\<rparr>"
proof -
  let ?stale = "\<lambda>a. bc_owner_user_id a = bc_owner_user_id b
    \<and> bc_connection_id a \<noteq> bc_connection_id b"
  define d1 where "d1 = (case find_row ?stale (connections d) of None \<Rightarrow> d
    | Some a \<Rightarrow> retire_stale_connection (bc_connection_id a) (bc_updated_at b) d)"
  have "db_ok d1"
    unfolding d1_def using assms(2)
    by (cases "find_row ?stale (connections d)") (auto intro: ok_retire_stale_connection)
  moreover have "\<forall>a \<in> set (connections d1). bc_owner_user_id a = bc_owner_user_id b
      \<longrightarrow> bc_connection_id a = bc_connection_id b"
  proof (cases "find_row ?stale (connections d)")
    case None
    then have "d1 = d" by (simp add: d1_def)
    with None show ?thesis by (auto simp: find_row_None_iff)
  next
    case (Some a)
    then have a: "a \<in> set (connections d)" "?stale a" by (auto dest: find_row_SomeD)
    have "r = a" if "r \<in> set (connections d)" "?stale r" for r
      using assms(2) a that distinct_key_eq [of bc_owner_user_id "connections d" r a]
      by (simp add: ok_defs)
    then show ?thesis
      using Some
      by (auto simp: d1_def retire_stale_connection_def set_setting_def delete_connections_def Let_def)
  qed
  moreover have "0 < bc_owner_user_id b"
    and "t = d1\<lparr>connections := (if bc_connection_id b \<in> bc_connection_id ` set (connections d1)
        then update_where (\<lambda>a. bc_connection_id a = bc_connection_id b) (\<lambda>_. b) (connections d1)
        else connections d1 @ [b])\<rparr>"
    using assms(1)
    by (auto simp: upsert_business_connection_def d1_def [symmetric] ex_key_iff split: if_splits)
  ultimately show ?thesis by (intro that)
qed

lemma ok_upsert_business_connection: "stays (keeps db_ok) (upsert_business_connection b)"
proof (rule stays_okI)
  fix d :: "'a db" and x t
  assume "upsert_business_connection b d = Inr (x, t)" and "db_ok d"
  then obtain d1 where d1: "db_ok d1" "\<forall>a \<in> set (connections d1).
      bc_owner_user_id a = bc_owner_user_id b \<longrightarrow> bc_connection_id a = bc_connection_id b"
    and pos: "0 < bc_owner_user_id b"
    and t: "t = d1\<lparr>connections := (if bc_connection_id b \<in> bc_connection_id ` set (connections d1)
        then update_where (\<lambda>a. bc_connection_id a = bc_connection_id b) (\<lambda>_. b) (connections d1)
        else connections d1 @ [b])\<rparr>"
    by (rule upsert_Inr)
  let ?up = "update_where (\<lambda>a. bc_connection_id a = bc_connection_id b) (\<lambda>_. b) (connections d1)"
  have keys: "map bc_connection_id ?up = map bc_connection_id (connections d1)"
    by (simp add: update_where_def)
  then have ids: "bc_connection_id ` set ?up = bc_connection_id ` set (connections d1)"
    by (metis list.set_map)
  show "db_ok t"
  proof (cases "bc_connection_id b \<in> bc_connection_id ` set (connections d1)")
    case True
    have "distinct (map bc_owner_user_id ?up)"
      using d1 by (intro distinct_owner_replace) (simp_all add: ok_defs)
    moreover have "\<forall>a \<in> set ?up. 0 < bc_owner_user_id a"
      using d1(1) pos by (auto simp: ok_defs in_update_where_iff)
    ultimately show ?thesis using d1(1) True t keys ids by (simp add: ok_defs)
  next
    case False
    then have "bc_owner_user_id b \<notin> bc_owner_user_id ` set (connections d1)"
      using d1(2) by (auto simp: image_iff)
    with d1(1) False t pos show ?thesis by (simp add: ok_defs subset_insertI2)
  qed
qed

lemma ok_update_connections:
  assumes "db_ok d" and "\<And>r. bc_connection_id (f r) = bc_connection_id r"
    and "\<And>r. bc_owner_user_id (f r) = bc_owner_user_id r"
  shows "db_ok (d\<lparr>connections := update_where p f (connections d)\<rparr>)"
proof -
  have "\<forall>b \<in> set (update_where p f (connections d)). 0 < bc_owner_user_id b"
    using assms(1,3) by (auto simp: ok_defs in_update_where_iff)
  with assms show ?thesis by (simp add: ok_defs table_simps)
qed

lemma ok_disable_business_connection: "stays (keeps db_ok) (disable_business_connection c now)"
  by (rule stays_okI)
    (auto simp: disable_business_connection_def update_one_def split: if_splits
      intro!: ok_update_connections)

lemmas ok_repositories = ok_get_or_create ok_save_conversation ok_record_message
  ok_mark_message_deleted ok_create_challenge ok_replace_challenge_hmac ok_close_challenge
  ok_close_active_challenge ok_increment_challenge_attempts ok_mark_challenge_sent
  ok_mark_challenge_uncertain ok_enqueue_outbox_action ok_insert_audit_event
  ok_set_outbox_terminal ok_mark_outbox_retry ok_upsert_business_connection
  ok_disable_business_connection

end
