(* ===== verification/Owner_Identity.thy ===== *)
theory Owner_Identity
  imports Storage_Repositories
begin

section \<open>The owner of the installation\<close>

text \<open>
  Models \<open>src/storage/owner_identity.rs\<close>: the singleton that binds the installation to one
  Telegram user. The table's \<open>CHECK\<close> restricts its row to pending, unclaimed and claimed, so
  the strict decoding of its columns is the case analysis on \<open>owner_row\<close>.
\<close>

definition load_owner_lifecycle_state :: "('ev, owner_row) sop" where
  "load_owner_lifecycle_state = gets owner"

definition pending_message :: string where
  "pending_message = ''owner identity is pending initialization''"

definition load_owner_identity :: "('ev, owner_identity) sop" where
  "load_owner_identity =
     and_then load_owner_lifecycle_state (\<lambda>s.
       case s of
         OwnerPending \<Rightarrow> fail (InvalidOwnerIdentity pending_message)
       | OwnerReady i \<Rightarrow> ret i)"

text \<open>
  \<open>initialize_or_load_owner_identity\<close>: with \<open>ORDER BY connection_id LIMIT 2\<close> only whether
  there are none, one or several connections matters.
\<close>

definition set_owner_if :: "(owner_row \<Rightarrow> bool) \<Rightarrow> (owner_row \<Rightarrow> owner_row) \<Rightarrow> ('ev, unit) sop" where
  "set_owner_if p f d =
     (if p (owner d) then Inr ((), d\<lparr>owner := f (owner d)\<rparr>) else Inl ConcurrentModification)"

definition initialize_or_load_owner_identity :: "timestamp \<Rightarrow> ('ev, owner_identity) sop" where
  "initialize_or_load_owner_identity initialized_at =
     and_then load_owner_lifecycle_state (\<lambda>s.
       case s of
         OwnerReady i \<Rightarrow> ret i
       | OwnerPending \<Rightarrow>
           and_then (gets connections) (\<lambda>cs.
           and_then
             (case cs of
                [] \<Rightarrow> set_owner_if (\<lambda>r. r = OwnerPending) (\<lambda>_. OwnerReady Unclaimed)
              | [b] \<Rightarrow>
                  if 0 < bc_owner_user_id b
                  then set_owner_if (\<lambda>r. r = OwnerPending)
                         (\<lambda>_. OwnerReady (Claimed (bc_owner_user_id b) (bc_owner_user_id b)
                                LegacyFallback None initialized_at))
                  else fail (InvalidOwnerIdentity ''legacy connection owner id must be positive'')
              | _ \<Rightarrow> fail (InvalidOwnerIdentity ''multiple legacy business connections''))
             (\<lambda>_. load_owner_identity)))"

definition claim_owner :: "i64 \<Rightarrow> i64 \<Rightarrow> i64 \<Rightarrow> timestamp \<Rightarrow> ('ev, owner_identity) sop" where
  "claim_owner user chat floor now =
     (if user \<le> 0 \<or> chat \<le> 0 \<or> floor \<le> 0
      then fail (InvalidOwnerIdentity ''claim identifiers and connection floor must be positive'')
      else and_then load_owner_lifecycle_state (\<lambda>s.
        case s of
          OwnerPending \<Rightarrow> fail (InvalidOwnerIdentity pending_message)
        | OwnerReady (Claimed _ _ _ _ _) \<Rightarrow> fail OwnerAlreadyClaimed
        | OwnerReady Unclaimed \<Rightarrow>
            and_then (set_owner_if (\<lambda>r. r = OwnerReady Unclaimed)
                (\<lambda>_. OwnerReady (Claimed user chat Claim (Some floor) now)))
              (\<lambda>_. load_owner_identity)))"

definition authoritative_source :: "owner_chat_source \<Rightarrow> bool" where
  "authoritative_source s \<longleftrightarrow> s = BusinessConnection \<or> s = PrivateMessage"

fun promote_row :: "i64 \<Rightarrow> owner_chat_source \<Rightarrow> owner_row \<Rightarrow> owner_row" where
  "promote_row chat source (OwnerReady (Claimed u _ _ fl b)) =
     OwnerReady (Claimed u chat source fl b)"
| "promote_row chat source r = r"

definition legacy_claimed_by :: "i64 \<Rightarrow> owner_row \<Rightarrow> bool" where
  "legacy_claimed_by user r \<longleftrightarrow>
     (case r of OwnerReady (Claimed u _ s _ _) \<Rightarrow> u = user \<and> s = LegacyFallback | _ \<Rightarrow> False)"

definition promote_owner_chat ::
  "i64 \<Rightarrow> i64 \<Rightarrow> owner_chat_source \<Rightarrow> ('ev, owner_identity) sop" where
  "promote_owner_chat user chat source =
     (if user \<le> 0 \<or> chat \<le> 0
      then fail (InvalidOwnerIdentity ''owner user and chat ids must be positive'')
      else if \<not> authoritative_source source
      then fail (InvalidOwnerIdentity ''owner chat promotion source must be authoritative'')
      else and_then load_owner_identity (\<lambda>i.
        case i of
          Unclaimed \<Rightarrow> fail (InvalidOwnerIdentity ''owner chat promotion requires a claimed owner'')
        | Claimed stored _ stored_source _ _ \<Rightarrow>
            if stored \<noteq> user then fail OwnerChatMismatch
            else if stored_source \<noteq> LegacyFallback then ret i
            else and_then (set_owner_if (legacy_claimed_by user) (promote_row chat source))
                   (\<lambda>_. load_owner_identity)))"

fun raise_floor :: "i64 \<Rightarrow> owner_row \<Rightarrow> owner_row" where
  "raise_floor fl (OwnerReady (Claimed u c s old b)) =
     OwnerReady (Claimed u c s
       (case old of None \<Rightarrow> Some fl | Some o' \<Rightarrow> if o' < fl then Some fl else Some o') b)"
| "raise_floor fl r = r"

definition is_claimed :: "owner_row \<Rightarrow> bool" where
  "is_claimed r \<longleftrightarrow> (case r of OwnerReady (Claimed _ _ _ _ _) \<Rightarrow> True | _ \<Rightarrow> False)"

definition advance_owner_connection_floor :: "i64 \<Rightarrow> ('ev, owner_identity) sop" where
  "advance_owner_connection_floor fl =
     (if fl \<le> 0 then fail (InvalidOwnerIdentity ''connection floor must be positive'')
      else and_then load_owner_identity (\<lambda>i.
        case i of
          Unclaimed \<Rightarrow> fail (InvalidOwnerIdentity ''connection floor requires a claimed owner'')
        | Claimed _ _ _ _ _ \<Rightarrow>
            and_then (set_owner_if is_claimed (raise_floor fl)) (\<lambda>_. load_owner_identity)))"

subsection \<open>The binding never changes hands\<close>

text \<open>
  The evolution of the owner row: a pending row may become anything, an unclaimed one may be
  claimed, and from then on the user and the instant of binding are fixed, the chat changes
  only away from the legacy fallback, and the floor only grows.
\<close>

fun floor_le :: "i64 option \<Rightarrow> i64 option \<Rightarrow> bool" where
  "floor_le None _ = True"
| "floor_le (Some a) None = False"
| "floor_le (Some a) (Some b) = (a \<le> b)"

fun owner_step :: "owner_row \<Rightarrow> owner_row \<Rightarrow> bool" where
  "owner_step OwnerPending r = True"
| "owner_step (OwnerReady Unclaimed) r = (r \<noteq> OwnerPending)"
| "owner_step (OwnerReady (Claimed u c s fl b)) r =
     (case r of
        OwnerReady (Claimed u' c' s' fl' b') \<Rightarrow>
          u' = u \<and> b' = b \<and> floor_le fl fl'
          \<and> (s \<noteq> LegacyFallback \<longrightarrow> c' = c \<and> s' = s)
      | _ \<Rightarrow> False)"

definition owner_evolves :: "'ev db \<Rightarrow> 'ev db \<Rightarrow> bool" where
  "owner_evolves d t \<longleftrightarrow> owner_step (owner d) (owner t)"

lemma floor_le_refl [simp]: "floor_le a a"
  by (cases a) auto

lemma floor_le_trans: "floor_le a b \<Longrightarrow> floor_le b c \<Longrightarrow> floor_le a c"
  by (cases a; cases b; cases c) auto

lemma owner_step_refl: "owner_step r r"
proof (cases r)
  case (OwnerReady i)
  then show ?thesis by (cases i) auto
qed simp

lemma owner_step_pending: "owner_step r OwnerPending \<Longrightarrow> r = OwnerPending"
  by (induction r OwnerPending rule: owner_step.induct) auto

lemma owner_step_trans: "owner_step p q \<Longrightarrow> owner_step q r \<Longrightarrow> owner_step p r"
  by (induction p q rule: owner_step.induct)
    (auto split: owner_row.splits owner_identity.splits intro: floor_le_trans
      dest: owner_step_pending)

interpretation owner_ev: step_relation owner_evolves
  by unfold_locales (auto simp: owner_evolves_def owner_step_refl intro: owner_step_trans)

lemma reads_load_owner [simp]: "reads load_owner_lifecycle_state" "reads load_owner_identity"
  by (auto simp: load_owner_lifecycle_state_def load_owner_identity_def
      intro!: reads_and_then reads_basic split: owner_row.split)

lemma stays_set_owner_if:
  "(\<And>r. p r \<Longrightarrow> owner_step r (f r)) \<Longrightarrow> stays owner_evolves (set_owner_if p f)"
  by (rule staysI) (auto simp: set_owner_if_def owner_evolves_def split: if_splits)

lemma legacy_promote_step: "legacy_claimed_by u r \<Longrightarrow> owner_step r (promote_row c s r)"
  by (induction c s r rule: promote_row.induct) (auto simp: legacy_claimed_by_def)

lemma raise_floor_step: "is_claimed r \<Longrightarrow> owner_step r (raise_floor fl r)"
  by (induction fl r rule: raise_floor.induct) (auto simp: is_claimed_def split: option.splits)

lemma owner_ops_evolve:
  "stays owner_evolves (initialize_or_load_owner_identity now)"
  "stays owner_evolves (claim_owner u c fl now)"
  "stays owner_evolves (promote_owner_chat u c s)"
  "stays owner_evolves (advance_owner_connection_floor fl)"
  unfolding initialize_or_load_owner_identity_def claim_owner_def promote_owner_chat_def
    advance_owner_connection_floor_def
  by (auto intro!: owner_ev.stays_basic owner_ev.stays_reads [OF reads_load_owner(1)]
      owner_ev.stays_reads [OF reads_load_owner(2)] stays_set_owner_if legacy_promote_step
      raise_floor_step split: owner_row.split owner_identity.split list.split)

lemma ok_owner_update: "db_ok (d\<lparr>owner := r\<rparr>) \<longleftrightarrow> db_ok d"
  by (simp add: ok_defs)

lemma ok_set_owner_if: "stays (keeps db_ok) (set_owner_if p f)"
  by (rule stays_okI) (auto simp: set_owner_if_def ok_owner_update split: if_splits)

lemma ok_owner_ops:
  "stays (keeps db_ok) (initialize_or_load_owner_identity now)"
  "stays (keeps db_ok) (claim_owner u c fl now)"
  "stays (keeps db_ok) (promote_owner_chat u c s)"
  "stays (keeps db_ok) (advance_owner_connection_floor fl)"
  unfolding initialize_or_load_owner_identity_def claim_owner_def promote_owner_chat_def
    advance_owner_connection_floor_def
  by (auto intro!: ok.stays_basic ok.stays_reads [OF reads_load_owner(1)]
      ok.stays_reads [OF reads_load_owner(2)] ok_set_owner_if
      split: owner_row.split owner_identity.split list.split)

end
