(* ===== verification/Connection_Reconciliation.thy ===== *)
theory Connection_Reconciliation
  imports Owner_Identity "HOL-Library.Char_ord" "HOL-Library.List_Lexorder"
    "HOL-Library.Product_Lexorder"
begin

section \<open>Reconciliation of business connections\<close>

text \<open>
  Models \<open>src/storage/connection_candidate.rs\<close>: untrusted connection candidates, the overflow
  guard, the trusted connection and the global reconciliation gate, all updated by
  compare-and-swap on revisions inside one transaction.
\<close>

subsection \<open>Rights snapshots\<close>

record rights =
  can_reply :: bool
  can_read_messages :: bool
  can_delete_sent_messages :: bool
  can_delete_all_messages :: bool

definition rights_fields :: "string list" where
  "rights_fields =
     [''can_reply'', ''can_read_messages'', ''can_delete_sent_messages'', ''can_delete_all_messages'']"

text \<open>
  Decoding of a structure of booleans from JSON text as \<open>serde\<close> derives it: from an object
  (a repeated field is an error), or from an array in field order. \<open>Absent\<close> fields are an
  error unless the structure has defaults.
\<close>

datatype field = Absent | Present bool | Malformed

definition object_field :: "(string \<times> json) list \<Rightarrow> string \<Rightarrow> field" where
  "object_field fs k =
     (case map snd (filter (\<lambda>(k', _). k' = k) fs) of
        [] \<Rightarrow> Absent
      | [JBool b] \<Rightarrow> Present b
      | _ \<Rightarrow> Malformed)"

definition array_field :: "json list \<Rightarrow> nat \<Rightarrow> field" where
  "array_field vs i =
     (if i < length vs then (case vs ! i of JBool b \<Rightarrow> Present b | _ \<Rightarrow> Malformed) else Absent)"

definition struct_fields :: "bool \<Rightarrow> string list \<Rightarrow> json \<Rightarrow> field list option" where
  "struct_fields deny_unknown names v =
     (case v of
        JObj fs \<Rightarrow>
          if deny_unknown \<and> (\<exists>(k, _) \<in> set fs. k \<notin> set names) then None
          else Some (map (object_field fs) names)
      | JArr vs \<Rightarrow>
          if length vs \<le> length names then Some (map (array_field vs) [0..<length names]) else None
      | _ \<Rightarrow> None)"

fun field_value :: "bool \<Rightarrow> field \<Rightarrow> bool option" where
  "field_value defaulted Absent = (if defaulted then Some False else None)"
| "field_value defaulted (Present b) = Some b"
| "field_value defaulted Malformed = None"

definition decode_rights :: "bool \<Rightarrow> bool \<Rightarrow> json option \<Rightarrow> rights option" where
  "decode_rights deny_unknown defaulted text =
     (case text of
        None \<Rightarrow> None
      | Some v \<Rightarrow>
          (case struct_fields deny_unknown rights_fields v of
             Some [f1, f2, f3, f4] \<Rightarrow>
               (case (field_value defaulted f1, field_value defaulted f2,
                      field_value defaulted f3, field_value defaulted f4) of
                  (Some a, Some b, Some c, Some e) \<Rightarrow>
                    Some \<lparr>can_reply = a, can_read_messages = b, can_delete_sent_messages = c,
                          can_delete_all_messages = e\<rparr>
                | _ \<Rightarrow> None)
           | _ \<Rightarrow> None))"

definition rights_json :: "rights \<Rightarrow> json" where
  "rights_json r =
     JObj [(''can_reply'', JBool (can_reply r)),
           (''can_read_messages'', JBool (can_read_messages r)),
           (''can_delete_sent_messages'', JBool (can_delete_sent_messages r)),
           (''can_delete_all_messages'', JBool (can_delete_all_messages r))]"

definition canonical_rights :: "json option \<Rightarrow> storage_error + json option" where
  "canonical_rights v =
     (case decode_rights True False v of
        None \<Rightarrow> Inl (InvalidConnectionCandidate ''rights snapshot must contain four booleans'')
      | Some r \<Rightarrow> Inr (Some (rights_json r)))"

definition trusted_rights :: "json option \<Rightarrow> storage_error + rights" where
  "trusted_rights v =
     (case decode_rights False True v of
        None \<Rightarrow> Inl (InvalidData (lit ''trusted rights snapshot is invalid''))
      | Some r \<Rightarrow> Inr r)"

subsection \<open>Candidates and the overflow guard\<close>

record connection_reconciliation_snapshot =
  rs_candidate_revision :: "i64 option"
  rs_trusted_connection_id :: "string option"
  rs_trusted_revision :: "i64 option"
  rs_guard_revision :: i64

datatype candidate_write =
    CandInserted | CandReconciled | CandRevisionConflict | CandUserConflict
  | CandGenerationConflict

datatype trusted_connection_write =
    Installed | Reconciled | Replaced | Ambiguous | RevisionConflict | UserConflict
  | GenerationConflict

definition validate_candidate :: "business_connection_candidate \<Rightarrow> storage_error + unit" where
  "validate_candidate c =
     (if trim (lit (cc_connection_id c)) = []
      then Inl (InvalidConnectionCandidate ''connection id must not be empty'')
      else if cc_business_user_id c \<le> 0
      then Inl (InvalidConnectionCandidate ''business user id must be positive'')
      else if is_some_and (\<lambda>v. v \<le> 0) (cc_user_chat_id c)
      then Inl (InvalidConnectionCandidate ''user chat id must be positive'')
      else if cc_connection_established_at c \<le> 0
      then Inl (InvalidConnectionCandidate ''connection establishment date must be positive'')
      else if cc_state_revision c < 0
      then Inl (InvalidConnectionCandidate ''candidate revision must be nonnegative'')
      else (case canonical_rights (cc_rights_json c) of Inl e \<Rightarrow> Inl e | Inr _ \<Rightarrow> Inr ()))"

definition decode_candidate ::
  "business_connection_candidate \<Rightarrow> storage_error + business_connection_candidate" where
  "decode_candidate c =
     (if trim (lit (cc_connection_id c)) = []
      then Inl (InvalidConnectionCandidate ''connection id must not be empty'')
      else if cc_business_user_id c \<le> 0
      then Inl (InvalidConnectionCandidate ''business user id must be positive'')
      else if is_some_and (\<lambda>v. v \<le> 0) (cc_user_chat_id c)
      then Inl (InvalidConnectionCandidate ''user chat id must be positive'')
      else (case canonical_rights (cc_rights_json c) of
              Inl e \<Rightarrow> Inl e
            | Inr r \<Rightarrow>
                if cc_connection_established_at c \<le> 0
                then Inl (InvalidConnectionCandidate
                       ''connection establishment date must be positive'')
                else if cc_state_revision c < 0
                then Inl (InvalidConnectionCandidate ''candidate revision must be nonnegative'')
                else Inr (c\<lparr>cc_rights_json := r\<rparr>)))"

definition load_candidate :: "string \<Rightarrow> ('ev, business_connection_candidate option) sop" where
  "load_candidate cid =
     gets_result (\<lambda>d. decode_optional decode_candidate
       (find_row (\<lambda>c. cc_connection_id c = cid) (candidates d)))"

definition list_connection_candidates :: "('ev, business_connection_candidate list) sop" where
  "list_connection_candidates =
     gets_result (\<lambda>d. collect_results
       (map decode_candidate (sort_key cc_connection_id (candidates d))))"

definition candidates_for_user :: "i64 \<Rightarrow> ('ev, business_connection_candidate list) sop" where
  "candidates_for_user user =
     (if user \<le> 0 then fail (InvalidConnectionCandidate ''business user id must be positive'')
      else gets_result (\<lambda>d. collect_results (map decode_candidate
        (sort_key (\<lambda>c. (cc_connection_established_at c, cc_connection_id c))
          (filter (\<lambda>c. cc_business_user_id c = user) (candidates d))))))"

definition load_candidate_guard :: "('ev, candidate_guard) sop" where
  "load_candidate_guard =
     gets_result (\<lambda>d.
       if is_some_and (\<lambda>v. v \<le> 0) (cg_overflow_established_at (guard d))
       then Inl (InvalidCandidateGuard ''guard overflow date must be positive'')
       else if cg_state_revision (guard d) < 0
       then Inl (InvalidCandidateGuard ''guard revision must be nonnegative'')
       else Inr (guard d))"

definition raise_guard :: "i64 \<Rightarrow> candidate_guard \<Rightarrow> candidate_guard" where
  "raise_guard establishment g =
     \<lparr>cg_overflow_established_at =
        (case cg_overflow_established_at g of
           None \<Rightarrow> Some establishment
         | Some o' \<Rightarrow> if o' < establishment then Some establishment else Some o'),
      cg_state_revision = cg_state_revision g + 1\<rparr>"

definition update_overflow_guard :: "i64 \<Rightarrow> ('ev, unit) sop" where
  "update_overflow_guard establishment =
     and_then load_candidate_guard (\<lambda>g d.
       if cg_state_revision (guard d) = cg_state_revision g
       then Inr ((), d\<lparr>guard := raise_guard establishment (guard d)\<rparr>)
       else Inl ConcurrentModification)"

definition advance_overflow_guard_if_active ::
  "business_connection_candidate \<Rightarrow> ('ev, unit) sop" where
  "advance_overflow_guard_if_active c =
     and_then load_candidate_guard (\<lambda>g.
       if cg_overflow_established_at g \<noteq> None
       then update_overflow_guard (cc_connection_established_at c)
       else ret ())"

definition delete_candidates :: "(business_connection_candidate \<Rightarrow> bool) \<Rightarrow> ('ev, nat) sop" where
  "delete_candidates p d =
     Inr (count_where p (candidates d), d\<lparr>candidates := delete_where p (candidates d)\<rparr>)"

definition delete_exact_candidate :: "business_connection_candidate \<Rightarrow> ('ev, unit) sop" where
  "delete_exact_candidate c =
     and_then (delete_candidates (\<lambda>r. cc_connection_id r = cc_connection_id c
         \<and> cc_state_revision r = cc_state_revision c))
       (\<lambda>n. if n \<noteq> 1 then fail ConcurrentModification else ret ())"

definition clear_connection_candidates :: "('ev, nat) sop" where
  "clear_connection_candidates = delete_candidates (\<lambda>_. True)"

definition delete_connection_candidate :: "string \<Rightarrow> ('ev, nat) sop" where
  "delete_connection_candidate cid = delete_candidates (\<lambda>c. cc_connection_id c = cid)"

definition delete_connection_candidates_for_other_users :: "i64 \<Rightarrow> ('ev, nat) sop" where
  "delete_connection_candidates_for_other_users user =
     (if user \<le> 0 then fail (InvalidConnectionCandidate ''business user id must be positive'')
      else delete_candidates (\<lambda>c. cc_business_user_id c \<noteq> user))"

text \<open>A loop that deletes candidates one identifier at a time and adds up the rows.\<close>

fun delete_each :: "string list \<Rightarrow> nat \<Rightarrow> ('ev, nat) sop" where
  "delete_each [] n = ret n"
| "delete_each (i # is) n =
     and_then (delete_connection_candidate i) (\<lambda>k. delete_each is (n + k))"

definition retain_connection_candidates :: "i64 \<Rightarrow> string list \<Rightarrow> ('ev, nat) sop" where
  "retain_connection_candidates user ids =
     and_then (candidates_for_user user) (\<lambda>cs.
       delete_each (filter (\<lambda>i. i \<notin> set ids) (map cc_connection_id cs)) 0)"

text \<open>Newest generation first.\<close>

definition retained_order :: "'ev db \<Rightarrow> (string \<times> i64) list" where
  "retained_order d =
     map (\<lambda>c. (cc_connection_id c, cc_connection_established_at c))
       (rev (sort_key (\<lambda>c. (cc_connection_established_at c, cc_connection_id c)) (candidates d)))"

definition prune_connection_candidates :: "timestamp \<Rightarrow> i64 \<Rightarrow> ('ev, nat) sop" where
  "prune_connection_candidates cutoff maximum_rows =
     (if maximum_rows < 0
      then fail (InvalidConnectionCandidate ''candidate row limit must be nonnegative'')
      else
        and_then load_candidate_guard (\<lambda>_.
        and_then (delete_candidates (\<lambda>c. cc_observed_at c < cutoff)) (\<lambda>expired.
        and_then (gets retained_order) (\<lambda>retained.
          if length retained \<le> nat maximum_rows then ret expired
          else
            and_then (update_overflow_guard (Max (snd ` set retained))) (\<lambda>_.
            and_then (delete_each (map fst (drop (nat maximum_rows) retained)) 0) (\<lambda>evicted.
              ret (expired + evicted)))))))"

definition candidate_row ::
  "business_connection_candidate \<Rightarrow> json option \<Rightarrow> business_connection_candidate" where
  "candidate_row c r = c\<lparr>cc_rights_json := r, cc_state_revision := 0\<rparr>"

definition apply_authoritative_candidate ::
  "business_connection_candidate \<Rightarrow> i64 option \<Rightarrow> ('ev, candidate_write) sop" where
  "apply_authoritative_candidate c expected_revision =
     and_then (lift_result (validate_candidate c)) (\<lambda>_.
     and_then (lift_result (canonical_rights (cc_rights_json c))) (\<lambda>r.
     and_then (load_candidate (cc_connection_id c)) (\<lambda>existing.
       case existing of
         None \<Rightarrow>
           if expected_revision \<noteq> None
           then and_then (advance_overflow_guard_if_active c) (\<lambda>_. ret CandRevisionConflict)
           else
             and_then (modify (\<lambda>d. d\<lparr>candidates := candidates d @ [candidate_row c r]\<rparr>)) (\<lambda>_.
             and_then (advance_overflow_guard_if_active c) (\<lambda>_. ret CandInserted))
       | Some x \<Rightarrow>
           if cc_business_user_id x \<noteq> cc_business_user_id c
           then
             and_then (advance_overflow_guard_if_active c) (\<lambda>_.
             and_then (delete_exact_candidate x) (\<lambda>_. ret CandUserConflict))
           else if cc_connection_established_at x \<noteq> cc_connection_established_at c
           then
             and_then (advance_overflow_guard_if_active c) (\<lambda>_.
             and_then (delete_exact_candidate x) (\<lambda>_. ret CandGenerationConflict))
           else if expected_revision \<noteq> Some (cc_state_revision x)
           then and_then (advance_overflow_guard_if_active c) (\<lambda>_. ret CandRevisionConflict)
           else
             and_then (\<lambda>d.
               let here = (\<lambda>q. cc_connection_id q = cc_connection_id c
                              \<and> cc_state_revision q = cc_state_revision x)
               in Inr (count_where here (candidates d),
                       d\<lparr>candidates := update_where here
                          (\<lambda>q. q\<lparr>cc_user_chat_id := cc_user_chat_id c, cc_rights_json := r,
                                cc_enabled := cc_enabled c,
                                cc_state_revision := cc_state_revision q + 1,
                                cc_observed_at := cc_observed_at c\<rparr>) (candidates d)\<rparr>))
               (\<lambda>n. if n \<noteq> 1 then ret CandRevisionConflict
                    else and_then (advance_overflow_guard_if_active c)
                           (\<lambda>_. ret CandReconciled)))))"

subsection \<open>The trusted connection\<close>

definition install_trusted ::
  "business_connection_candidate \<Rightarrow> json option \<Rightarrow> i64 \<Rightarrow> ('ev, unit) sop" where
  "install_trusted c r revision =
     upsert_business_connection
       \<lparr>bc_connection_id = cc_connection_id c, bc_owner_user_id = cc_business_user_id c,
        bc_rights_json = r, bc_enabled = cc_enabled c,
        bc_connection_established_at = Some (cc_connection_established_at c),
        bc_state_revision = revision, bc_reconciliation_state = ReconciliationConfirmed,
        bc_updated_at = cc_observed_at c\<rparr>"

text \<open>Updates of the trusted row guarded by its identifier and revision.\<close>

definition trusted_row :: "string \<Rightarrow> i64 \<Rightarrow> business_connection_record \<Rightarrow> bool" where
  "trusted_row cid revision b \<longleftrightarrow> bc_connection_id b = cid \<and> bc_state_revision b = revision"

definition update_trusted ::
  "string \<Rightarrow> i64 \<Rightarrow> (business_connection_record \<Rightarrow> business_connection_record)
   \<Rightarrow> ('ev, nat) sop" where
  "update_trusted cid revision f d =
     Inr (count_where (trusted_row cid revision) (connections d),
          d\<lparr>connections := update_where (trusted_row cid revision) f (connections d)\<rparr>)"

definition delete_trusted :: "string \<Rightarrow> i64 \<Rightarrow> ('ev, nat) sop" where
  "delete_trusted cid revision d =
     Inr (count_where (trusted_row cid revision) (connections d),
          delete_connections (trusted_row cid revision) d)"

definition require_one :: "nat \<Rightarrow> ('ev, unit) sop" where
  "require_one n = (if n \<noteq> 1 then fail ConcurrentModification else ret ())"

definition gate_conflicting_trusted ::
  "business_connection_record \<Rightarrow> timestamp \<Rightarrow> ('ev, unit) sop" where
  "gate_conflicting_trusted b observed_at =
     and_then (update_trusted (bc_connection_id b) (bc_state_revision b)
         (\<lambda>r. r\<lparr>bc_enabled := False, bc_reconciliation_state := ReconciliationPending,
               bc_state_revision := bc_state_revision r + 1, bc_updated_at := observed_at\<rparr>))
       require_one"

definition intersect_rights :: "rights \<Rightarrow> rights \<Rightarrow> rights" where
  "intersect_rights a b =
     \<lparr>can_reply = (can_reply a \<and> can_reply b),
      can_read_messages = (can_read_messages a \<and> can_read_messages b),
      can_delete_sent_messages = (can_delete_sent_messages a \<and> can_delete_sent_messages b),
      can_delete_all_messages = (can_delete_all_messages a \<and> can_delete_all_messages b)\<rparr>"

definition apply_safety_intersection ::
  "business_connection_record \<Rightarrow> business_connection_candidate \<Rightarrow> ('ev, unit) sop" where
  "apply_safety_intersection b c =
     and_then (lift_result (trusted_rights (bc_rights_json b))) (\<lambda>current.
     and_then (lift_result (trusted_rights (cc_rights_json c))) (\<lambda>incoming.
       let inter = intersect_rights current incoming;
           en = (bc_enabled b \<and> cc_enabled c)
       in if en = bc_enabled b \<and> inter = current then ret ()
          else and_then (update_trusted (bc_connection_id b) (bc_state_revision b)
                 (\<lambda>r. r\<lparr>bc_enabled := en, bc_rights_json := Some (rights_json inter),
                       bc_state_revision := bc_state_revision r + 1,
                       bc_updated_at := cc_observed_at c\<rparr>)) require_one))"

definition max_option :: "i64 option list \<Rightarrow> i64 option" where
  "max_option xs = (case List.map_filter id xs of [] \<Rightarrow> None | y # ys \<Rightarrow> Some (fold max ys y))"

definition owner_floor_of :: "owner_identity \<Rightarrow> i64 option" where
  "owner_floor_of i = (case i of Unclaimed \<Rightarrow> None | Claimed _ _ _ fl _ \<Rightarrow> fl)"

definition generation_floor_excluding :: "string \<Rightarrow> ('ev, i64 option) sop" where
  "generation_floor_excluding cid =
     and_then load_owner_identity (\<lambda>i.
     and_then (gets (\<lambda>d. max_option (map bc_connection_established_at
         (filter (\<lambda>b. bc_connection_id b \<noteq> cid) (connections d))))) (\<lambda>trusted_floor.
     and_then (gets (\<lambda>d. max_option (map (\<lambda>c. Some (cc_connection_established_at c))
         (filter (\<lambda>c. cc_connection_id c \<noteq> cid) (candidates d))))) (\<lambda>candidate_floor.
     and_then load_candidate_guard (\<lambda>g.
       ret (max_option [owner_floor_of i, trusted_floor, candidate_floor,
              cg_overflow_established_at g])))))"

definition owner_generation_floor :: "('ev, i64 option) sop" where
  "owner_generation_floor =
     and_then load_owner_lifecycle_state (\<lambda>s.
     and_then (gets (\<lambda>d. max_option (map bc_connection_established_at (connections d))))
       (\<lambda>trusted_floor.
     and_then (gets (\<lambda>d. max_option (map (\<lambda>c. Some (cc_connection_established_at c))
         (candidates d)))) (\<lambda>candidate_floor.
     and_then load_candidate_guard (\<lambda>g.
       ret (max_option [case s of OwnerPending \<Rightarrow> None | OwnerReady i \<Rightarrow> owner_floor_of i,
              trusted_floor, candidate_floor, cg_overflow_established_at g])))))"

definition reconcile_same_trusted ::
  "business_connection_record \<Rightarrow> business_connection_candidate \<Rightarrow> json option \<Rightarrow> i64 option
   \<Rightarrow> ('ev, trusted_connection_write) sop" where
  "reconcile_same_trusted b c r expected =
     (if expected \<noteq> Some (bc_state_revision b)
      then and_then (apply_safety_intersection b c) (\<lambda>_. ret RevisionConflict)
      else if bc_owner_user_id b \<noteq> cc_business_user_id c
      then and_then (gate_conflicting_trusted b (cc_observed_at c)) (\<lambda>_. ret UserConflict)
      else if is_some_and (\<lambda>date. date \<noteq> cc_connection_established_at c)
                (bc_connection_established_at b)
      then and_then (gate_conflicting_trusted b (cc_observed_at c)) (\<lambda>_. ret GenerationConflict)
      else
        and_then (update_trusted (cc_connection_id c) (bc_state_revision b)
            (\<lambda>q. q\<lparr>bc_owner_user_id := cc_business_user_id c, bc_rights_json := r,
                  bc_enabled := cc_enabled c,
                  bc_connection_established_at := Some (cc_connection_established_at c),
                  bc_state_revision := bc_state_revision q + 1,
                  bc_reconciliation_state := ReconciliationConfirmed,
                  bc_updated_at := cc_observed_at c\<rparr>)) (\<lambda>n.
          if n \<noteq> 1 then ret RevisionConflict
          else and_then (delete_connection_candidate (cc_connection_id c))
                 (\<lambda>_. ret Reconciled)))"

text \<open>\<open>INSERT ... ON CONFLICT(connection_id) DO UPDATE\<close> on the candidates.\<close>

definition upsert_candidate :: "business_connection_candidate \<Rightarrow> 'ev db \<Rightarrow> 'ev db" where
  "upsert_candidate c d =
     (if \<exists>q \<in> set (candidates d). cc_connection_id q = cc_connection_id c
      then d\<lparr>candidates := update_where (\<lambda>q. cc_connection_id q = cc_connection_id c)
             (\<lambda>q. c\<lparr>cc_state_revision := cc_state_revision q + 1\<rparr>) (candidates d)\<rparr>
      else d\<lparr>candidates := candidates d @ [c\<lparr>cc_state_revision := 0\<rparr>]\<rparr>)"

definition retain_ambiguous_generations ::
  "business_connection_record \<Rightarrow> business_connection_candidate \<Rightarrow> json option \<Rightarrow> i64
   \<Rightarrow> ('ev, unit) sop" where
  "retain_ambiguous_generations b c r owner_chat =
     and_then (lift_result (trusted_rights (bc_rights_json b))) (\<lambda>t.
     and_then (delete_trusted (bc_connection_id b) (bc_state_revision b)) (\<lambda>n.
     and_then (require_one n) (\<lambda>_.
     and_then (modify (upsert_candidate
         \<lparr>cc_connection_id = bc_connection_id b, cc_business_user_id = bc_owner_user_id b,
          cc_user_chat_id = Some owner_chat, cc_rights_json = Some (rights_json t),
          cc_enabled = bc_enabled b,
          cc_connection_established_at = cc_connection_established_at c, cc_state_revision = 0,
          cc_observed_at = cc_observed_at c\<rparr>)) (\<lambda>_.
     and_then (modify (upsert_candidate (c\<lparr>cc_rights_json := r\<rparr>))) (\<lambda>_.
     and_then (advance_owner_connection_floor (cc_connection_established_at c)) (\<lambda>_.
       advance_overflow_guard_if_active c))))))"

definition next_revision :: "i64 option \<Rightarrow> i64" where
  "next_revision r = (case r of None \<Rightarrow> 0 | Some n \<Rightarrow> n + 1)"

definition below_floor :: "i64 \<Rightarrow> i64 option \<Rightarrow> bool" where
  "below_floor t fl \<longleftrightarrow> is_some_and (\<lambda>v. t \<le> v) fl"

definition install_new_generation ::
  "business_connection_candidate \<Rightarrow> json option \<Rightarrow> i64 option \<Rightarrow> trusted_connection_write
   \<Rightarrow> ('ev, trusted_connection_write) sop" where
  "install_new_generation c r expected_candidate outcome =
     and_then (install_trusted c r (next_revision expected_candidate)) (\<lambda>_.
     and_then (delete_connection_candidate (cc_connection_id c)) (\<lambda>_. ret outcome))"

definition reconcile_authoritative_trusted_connection ::
  "business_connection_candidate \<Rightarrow> i64 option \<Rightarrow> i64 option \<Rightarrow> i64
   \<Rightarrow> ('ev, trusted_connection_write) sop" where
  "reconcile_authoritative_trusted_connection c expected_trusted expected_candidate expected_guard =
     and_then (lift_result (validate_candidate c)) (\<lambda>_.
     and_then (lift_result (canonical_rights (cc_rights_json c))) (\<lambda>r.
     and_then load_candidate_guard (\<lambda>g.
     if cg_state_revision g \<noteq> expected_guard then ret RevisionConflict
     else
     and_then (load_candidate (cc_connection_id c)) (\<lambda>retained.
     if map_option cc_state_revision retained \<noteq> expected_candidate then ret RevisionConflict
     else
     and_then load_owner_identity (\<lambda>i.
     case i of
       Unclaimed \<Rightarrow> ret UserConflict
     | Claimed user chat _ _ _ \<Rightarrow>
         if user \<noteq> cc_business_user_id c then ret UserConflict
         else
         and_then load_single_trusted_connection (\<lambda>trusted.
         case trusted of
           None \<Rightarrow>
             if expected_trusted \<noteq> None then ret RevisionConflict
             else
             and_then (generation_floor_excluding (cc_connection_id c)) (\<lambda>fl.
             if below_floor (cc_connection_established_at c) fl then ret GenerationConflict
             else install_new_generation c r expected_candidate Installed)
         | Some b \<Rightarrow>
             if bc_connection_id b = cc_connection_id c
             then reconcile_same_trusted b c r expected_trusted
             else if expected_trusted \<noteq> Some (bc_state_revision b) then ret RevisionConflict
             else if bc_owner_user_id b \<noteq> cc_business_user_id c then ret UserConflict
             else
             (case bc_connection_established_at b of
                None \<Rightarrow> ret GenerationConflict
              | Some established \<Rightarrow>
                  if cc_connection_established_at c = established
                  then and_then (retain_ambiguous_generations b c r chat) (\<lambda>_. ret Ambiguous)
                  else
                  and_then (generation_floor_excluding (cc_connection_id c)) (\<lambda>fl.
                  if cc_connection_established_at c < established
                     \<or> below_floor (cc_connection_established_at c) fl
                  then ret GenerationConflict
                  else install_new_generation c r expected_candidate Replaced))))))))"

definition promote_claim_candidate ::
  "business_connection_candidate \<Rightarrow> i64 \<Rightarrow> i64 \<Rightarrow> ('ev, trusted_connection_write) sop" where
  "promote_claim_candidate c expected_candidate expected_guard =
     and_then (lift_result (validate_candidate c)) (\<lambda>_.
     and_then (lift_result (canonical_rights (cc_rights_json c))) (\<lambda>r.
     and_then load_candidate_guard (\<lambda>g.
     if cg_state_revision g \<noteq> expected_guard \<or> cg_overflow_established_at g \<noteq> None
     then ret RevisionConflict
     else
     and_then load_owner_identity (\<lambda>i.
     case i of
       Unclaimed \<Rightarrow> ret UserConflict
     | Claimed user _ _ _ _ \<Rightarrow>
         if user \<noteq> cc_business_user_id c then ret UserConflict
         else
         and_then load_single_trusted_connection (\<lambda>trusted.
         if trusted \<noteq> None then ret RevisionConflict
         else
         and_then (load_candidate (cc_connection_id c)) (\<lambda>found.
         case found of
           None \<Rightarrow> ret RevisionConflict
         | Some x \<Rightarrow>
             if cc_state_revision x \<noteq> expected_candidate then ret RevisionConflict
             else if cc_business_user_id x \<noteq> cc_business_user_id c then ret UserConflict
             else if cc_connection_established_at x \<noteq> cc_connection_established_at c
             then ret GenerationConflict
             else install_new_generation c r (Some expected_candidate) Installed))))))"

text \<open>\<open>bound_at.timestamp()\<close>: whole seconds since the epoch, rounded down.\<close>

definition unix_seconds :: "timestamp \<Rightarrow> i64" where
  "unix_seconds t = t div 1000000000"

definition retire_trusted_connection_not_found ::
  "string \<Rightarrow> i64 \<Rightarrow> ('ev, trusted_connection_write) sop" where
  "retire_trusted_connection_not_found cid expected_revision =
     and_then (load_business_connection_for_reconciliation cid) (\<lambda>trusted.
     case trusted of
       None \<Rightarrow> and_then (delete_connection_candidate cid) (\<lambda>_. ret Reconciled)
     | Some b \<Rightarrow>
         if bc_state_revision b \<noteq> expected_revision then ret RevisionConflict
         else
         and_then load_owner_identity (\<lambda>i.
         case i of
           Unclaimed \<Rightarrow> ret UserConflict
         | Claimed user _ _ fl bound \<Rightarrow>
             if user \<noteq> bc_owner_user_id b then ret UserConflict
             else
             let retired = (case bc_connection_established_at b of
                              Some t \<Rightarrow> t | None \<Rightarrow> max (unix_seconds bound) 1);
                 retired = (case fl of None \<Rightarrow> retired | Some v \<Rightarrow> max v retired)
             in and_then (advance_owner_connection_floor retired) (\<lambda>_.
                and_then (delete_trusted cid expected_revision) (\<lambda>n.
                  if n \<noteq> 1 then ret RevisionConflict else ret Reconciled))))"

definition connection_reconciliation_snapshot_of ::
  "string \<Rightarrow> ('ev, connection_reconciliation_snapshot) sop" where
  "connection_reconciliation_snapshot_of cid =
     (if trim (lit cid) = []
      then fail (InvalidConnectionCandidate ''connection id must not be empty'')
      else
        and_then (load_candidate cid) (\<lambda>c.
        and_then load_single_trusted_connection (\<lambda>b.
        and_then load_candidate_guard (\<lambda>g.
          ret \<lparr>rs_candidate_revision = map_option cc_state_revision c,
               rs_trusted_connection_id = map_option bc_connection_id b,
               rs_trusted_revision = map_option bc_state_revision b,
               rs_guard_revision = cg_state_revision g\<rparr>))))"

subsection \<open>The global gate\<close>

definition set_global ::
  "(telegram_reconciliation_state \<Rightarrow> bool) \<Rightarrow> global_reconciliation_state \<Rightarrow> timestamp
   \<Rightarrow> ('ev, unit) sop" where
  "set_global p s now d =
     (if p (reconciliation d)
      then Inr ((), d\<lparr>reconciliation := \<lparr>tr_state = s,
              tr_state_revision = tr_state_revision (reconciliation d) + 1,
              tr_updated_at = now\<rparr>\<rparr>)
      else Inl ConcurrentModification)"

definition trusted_state_invalid :: "storage_error \<Rightarrow> storage_error" where
  "trusted_state_invalid e =
     InvalidTelegramReconciliationState ''trusted connection state is invalid''"

definition pend_trusted :: "timestamp \<Rightarrow> business_connection_record \<Rightarrow> business_connection_record" where
  "pend_trusted now b =
     b\<lparr>bc_reconciliation_state := ReconciliationPending,
       bc_state_revision := bc_state_revision b + 1, bc_updated_at := now\<rparr>"

definition normalize_startup_reconciliation ::
  "timestamp \<Rightarrow> ('ev, telegram_reconciliation_state) sop" where
  "normalize_startup_reconciliation now =
     and_then load_telegram_reconciliation_state (\<lambda>g.
     and_then (map_err trusted_state_invalid load_single_trusted_connection) (\<lambda>_.
     and_then
       (if tr_state g \<noteq> GlobalPending
        then set_global (\<lambda>r. tr_state_revision r = tr_state_revision g \<and> tr_state r = tr_state g)
               GlobalPending now
        else ret ()) (\<lambda>_.
     and_then (\<lambda>d. Inr (count_where confirmed (connections d),
         d\<lparr>connections := update_where confirmed (pend_trusted now) (connections d)\<rparr>)) (\<lambda>n.
       if 1 < n
       then fail (InvalidTelegramReconciliationState
              ''multiple trusted connections are not supported'')
       else load_telegram_reconciliation_state))))"

definition set_telegram_auth_failed ::
  "timestamp \<Rightarrow> ('ev, telegram_reconciliation_state) sop" where
  "set_telegram_auth_failed now =
     and_then load_telegram_reconciliation_state (\<lambda>g.
     and_then (map_err trusted_state_invalid load_single_trusted_connection) (\<lambda>_.
     and_then
       (if tr_state g \<noteq> GlobalAuthFailed
        then set_global (\<lambda>r. tr_state_revision r = tr_state_revision g) GlobalAuthFailed now
        else ret ()) (\<lambda>_.
     and_then (modify (\<lambda>d. d\<lparr>connections :=
         update_where (\<lambda>b. bc_enabled b \<or> confirmed b)
           (\<lambda>b. (pend_trusted now b)\<lparr>bc_enabled := False\<rparr>) (connections d)\<rparr>)) (\<lambda>_.
       load_telegram_reconciliation_state))))"

definition transition_telegram_reconciliation_ready ::
  "i64 \<Rightarrow> timestamp \<Rightarrow> ('ev, telegram_reconciliation_state) sop" where
  "transition_telegram_reconciliation_ready expected_revision now =
     and_then load_telegram_reconciliation_state (\<lambda>g.
     if tr_state g \<noteq> GlobalPending \<or> tr_state_revision g \<noteq> expected_revision
     then fail ConcurrentModification
     else
     and_then (map_err trusted_state_invalid load_single_trusted_connection) (\<lambda>trusted.
     if is_some_and (\<lambda>b. \<not> confirmed b) trusted
     then fail (InvalidTelegramReconciliationState ''trusted connection reconciliation is pending'')
     else
     and_then (set_global (\<lambda>r. tr_state r = GlobalPending
         \<and> tr_state_revision r = expected_revision) GlobalReady now) (\<lambda>_.
       load_telegram_reconciliation_state)))"

definition gate_matching_trusted_for_reconciliation ::
  "string \<Rightarrow> timestamp \<Rightarrow> ('ev, i64 option) sop" where
  "gate_matching_trusted_for_reconciliation cid now =
     and_then (load_business_connection_for_reconciliation cid) (\<lambda>current.
     case current of
       None \<Rightarrow> ret None
     | Some b \<Rightarrow>
         if bc_reconciliation_state b = ReconciliationPending
         then ret (Some (bc_state_revision b))
         else
         and_then (\<lambda>d.
             let here = (\<lambda>r. trusted_row cid (bc_state_revision b) r \<and> confirmed r)
             in Inr (count_where here (connections d),
                     d\<lparr>connections := update_where here (pend_trusted now) (connections d)\<rparr>)) (\<lambda>n.
         and_then (require_one n) (\<lambda>_. ret (Some (bc_state_revision b + 1)))))"

end
