(* ===== verification/Event_Log.thy ===== *)
theory Event_Log
  imports Lifecycle_Facts Connection_Reconciliation
begin

section \<open>The event log\<close>

text \<open>
  Models \<open>src/events/recorder.rs\<close> and the event functions of \<open>src/events/worker.rs\<close>: an
  event is recorded before anything is applied, applied in the transaction that marks it
  applied, and replayed after an interruption. The interface \<open>EventApplier\<close> is a locale.
\<close>

datatype event_error =
    Storage storage_error
  | Serialization
  | UnsafeFacts ustring
  | Application ustring
  | MissingUpdate i64
  | InvalidStatus ustring

type_synonym 'a eop = "(database, event_error, 'a) op"

subsection \<open>Validation of facts\<close>

definition MAX_FACT_STRING_LENGTH :: nat where
  "MAX_FACT_STRING_LENGTH = 512"

definition FORBIDDEN_FACT_KEYS :: "string list" where
  "FORBIDDEN_FACT_KEYS = [''text'', ''caption'', ''filename'', ''raw_update'', ''reply_to_message'']"

fun validate_facts :: "json \<Rightarrow> ustring \<Rightarrow> event_error + unit"
  and validate_fields :: "(string \<times> json) list \<Rightarrow> ustring \<Rightarrow> event_error + unit"
  and validate_items :: "json list \<Rightarrow> nat \<Rightarrow> ustring \<Rightarrow> event_error + unit" where
  "validate_facts (JObj fs) path = validate_fields fs path"
| "validate_facts (JArr vs) path = validate_items vs 0 path"
| "validate_facts (JStr s) path =
     (if length s > MAX_FACT_STRING_LENGTH
      then Inl (UnsafeFacts (lit ''string at '' @ path @ lit '' exceeds 512 characters''))
      else Inr ())"
| "validate_facts JNull path = Inr ()"
| "validate_facts (JBool b) path = Inr ()"
| "validate_facts (JNum n) path = Inr ()"
| "validate_fields [] path = Inr ()"
| "validate_fields ((k, v) # fs) path =
     (if to_ascii_lowercase k \<in> set FORBIDDEN_FACT_KEYS
      then Inl (UnsafeFacts (lit ''forbidden key '' @ path @ [46] @ lit k))
      else (case validate_facts v (path @ [46] @ lit k) of
              Inl e \<Rightarrow> Inl e
            | Inr _ \<Rightarrow> validate_fields fs path))"
| "validate_items [] i path = Inr ()"
| "validate_items (v # vs) i path =
     (case validate_facts v (path @ [91] @ show_nat i @ [93]) of
        Inl e \<Rightarrow> Inl e
      | Inr _ \<Rightarrow> validate_items vs (i + 1) path)"

subsection \<open>Recording\<close>

definition connection_trigger_id ::
  "(timestamp \<Rightarrow> ustring) \<Rightarrow> prepared_event \<Rightarrow> event_error + string option" where
  "connection_trigger_id rfc event =
     (if pe_event_type event \<noteq> ''business_connection_changed''
         \<or> Option.bind (json_pointer [''action'', ''kind''] (facts_json rfc (pe_facts event)))
              json_as_str \<noteq> Some (lit ''IGNORE'')
      then Inr None
      else
        (case lf_connection_id (pe_facts event) of
           Some cid \<Rightarrow>
             if trim (lit cid) \<noteq> [] then Inr (Some cid)
             else Inl (Application (lit ''connection trigger ID is invalid''))
         | None \<Rightarrow> Inl (Application (lit ''connection trigger ID is invalid''))))"

definition update_row_of :: "prepared_event \<Rightarrow> stored_event update_row" where
  "update_row_of event =
     \<lparr>pu_update_id = pe_update_id event, pu_event_type = pe_event_type event,
      pu_event = StoredEvent event, pu_status = Recorded, pu_received_at = pe_occurred_at event,
      pu_applied_at = None, pu_error_code = None, pu_error_message = None\<rparr>"

definition find_update :: "i64 \<Rightarrow> database \<Rightarrow> stored_event update_row option" where
  "find_update uid d = find_row (\<lambda>u. pu_update_id u = uid) (updates d)"

fun status_text :: "update_status \<Rightarrow> ustring" where
  "status_text Recorded = lit ''RECORDED''"
| "status_text Applied = lit ''APPLIED''"
| "status_text Failed = lit ''FAILED''"

definition insert_update :: "stored_event update_row \<Rightarrow> bool eop" where
  "insert_update u d =
     (if \<exists>r \<in> set (updates d). pu_update_id r = pu_update_id u then Inr (False, d)
      else Inr (True, d\<lparr>updates := updates d @ [u]\<rparr>))"

definition record_prepared_event_tx ::
  "(timestamp \<Rightarrow> ustring) \<Rightarrow> prepared_event \<Rightarrow> record_receipt eop" where
  "record_prepared_event_tx rfc event =
     and_then (lift_result (validate_facts (facts_json rfc (pe_facts event)) (lit ''facts''))) (\<lambda>_.
     and_then (lift_result (connection_trigger_id rfc event)) (\<lambda>trigger.
     and_then (insert_update (update_row_of event)) (\<lambda>inserted.
       if inserted
       then
         and_then
           (case trigger of
              None \<Rightarrow> ret None
            | Some cid \<Rightarrow>
                map_err Storage
                  (gate_matching_trusted_for_reconciliation cid (pe_occurred_at event)))
           (\<lambda>_. ret ReceiptRecorded)
       else
         and_then (gets (find_update (pe_update_id event))) (\<lambda>row.
         case row of
           None \<Rightarrow> fail (MissingUpdate (pe_update_id event))
         | Some u \<Rightarrow>
             (case pu_status u of
                Recorded \<Rightarrow> ret DuplicateRecorded
              | Applied \<Rightarrow> ret DuplicateApplied
              | Failed \<Rightarrow> fail (InvalidStatus (status_text Failed)))))))"

definition record_prepared_event ::
  "(timestamp \<Rightarrow> ustring) \<Rightarrow> prepared_event \<Rightarrow> database
   \<Rightarrow> (event_error + record_receipt) \<times> database" where
  "record_prepared_event rfc event = commit (record_prepared_event_tx rfc event)"

subsection \<open>Application\<close>

type_synonym event_applier_fn = "prepared_event \<Rightarrow> unit eop"

definition mark_applied :: "i64 \<Rightarrow> timestamp \<Rightarrow> unit eop" where
  "mark_applied uid now d =
     (let here = (\<lambda>u. pu_update_id u = uid \<and> pu_status u = Recorded)
      in if count_where here (updates d) \<noteq> 1
         then Inl (InvalidStatus (lit ''changed during application''))
         else Inr ((), d\<lparr>updates := update_where here
                (\<lambda>u. u\<lparr>pu_status := Applied, pu_applied_at := Some now, pu_error_code := None,
                      pu_error_message := None\<rparr>) (updates d)\<rparr>))"

definition apply_recorded_event_tx ::
  "event_applier_fn \<Rightarrow> (i64 \<Rightarrow> timestamp) \<Rightarrow> i64 \<Rightarrow> apply_receipt eop" where
  "apply_recorded_event_tx applier now uid =
     and_then (gets (find_update uid)) (\<lambda>row.
     case row of
       None \<Rightarrow> fail (MissingUpdate uid)
     | Some u \<Rightarrow>
         if pu_status u = Applied then ret AlreadyApplied
         else if pu_status u \<noteq> Recorded then fail (InvalidStatus (status_text (pu_status u)))
         else
           (case pu_event u of
              RedactedEvent _ \<Rightarrow> fail Serialization
            | StoredEvent event \<Rightarrow>
                and_then (applier event) (\<lambda>_.
                and_then (mark_applied uid (now uid)) (\<lambda>_. ret ReceiptApplied))))"

definition apply_recorded_event ::
  "event_applier_fn \<Rightarrow> (i64 \<Rightarrow> timestamp) \<Rightarrow> i64 \<Rightarrow> database
   \<Rightarrow> (event_error + apply_receipt) \<times> database" where
  "apply_recorded_event applier now uid = commit (apply_recorded_event_tx applier now uid)"

subsection \<open>Recovery\<close>

definition stored_action_kind :: "(timestamp \<Rightarrow> ustring) \<Rightarrow> stored_event \<Rightarrow> ustring option" where
  "stored_action_kind rfc e =
     (case e of
        StoredEvent event \<Rightarrow>
          Option.bind (json_pointer [''action'', ''kind''] (facts_json rfc (pe_facts event)))
            json_as_str
      | RedactedEvent _ \<Rightarrow> None)"

definition is_authoritative_connection_trigger ::
  "(timestamp \<Rightarrow> ustring) \<Rightarrow> string \<Rightarrow> stored_event \<Rightarrow> bool" where
  "is_authoritative_connection_trigger rfc event_type e \<longleftrightarrow>
     event_type = ''business_connection_changed''
     \<and> stored_action_kind rfc e = Some (lit ''IGNORE'')"

text \<open>\<open>WHERE status = 'RECORDED' ORDER BY update_id\<close>.\<close>

definition recorded_rows :: "database \<Rightarrow> stored_event update_row list" where
  "recorded_rows d = sort_key pu_update_id (filter (\<lambda>u. pu_status u = Recorded) (updates d))"

text \<open>
  The replay loop: rows the caller selects are applied one transaction at a time; the first
  failure ends the loop and the earlier transactions stay committed.
\<close>

fun replay ::
  "event_applier_fn \<Rightarrow> (i64 \<Rightarrow> timestamp) \<Rightarrow> (stored_event update_row \<Rightarrow> bool)
   \<Rightarrow> stored_event update_row list \<Rightarrow> nat \<Rightarrow> database \<Rightarrow> (event_error + nat) \<times> database" where
  "replay applier now skip [] n d = (Inr n, d)"
| "replay applier now skip (u # us) n d =
     (if skip u then replay applier now skip us n d
      else
        (case apply_recorded_event applier now (pu_update_id u) d of
           (Inl e, t) \<Rightarrow> (Inl e, t)
         | (Inr receipt, t) \<Rightarrow>
             replay applier now skip us (if receipt = ReceiptApplied then n + 1 else n) t))"

definition recover_recorded_events ::
  "event_applier_fn \<Rightarrow> (timestamp \<Rightarrow> ustring) \<Rightarrow> (i64 \<Rightarrow> timestamp) \<Rightarrow> database
   \<Rightarrow> (event_error + nat) \<times> database" where
  "recover_recorded_events applier rfc now d =
     replay applier now
       (\<lambda>u. is_authoritative_connection_trigger rfc (pu_event_type u) (pu_event u))
       (recorded_rows d) 0 d"

definition recover_legacy_recorded_connection_events ::
  "event_applier_fn \<Rightarrow> (timestamp \<Rightarrow> ustring) \<Rightarrow> (i64 \<Rightarrow> timestamp) \<Rightarrow> database
   \<Rightarrow> (event_error + nat) \<times> database" where
  "recover_legacy_recorded_connection_events applier rfc now d =
     replay applier now
       (\<lambda>u. stored_action_kind rfc (pu_event u) \<noteq> Some (lit ''CONNECTION_CHANGED''))
       (recorded_rows d) 0 d"

subsection \<open>Facts that are stored are safe\<close>

text \<open>No forbidden key at any depth and no string longer than the limit.\<close>

inductive safe_json :: "json \<Rightarrow> bool" where
  safe_null: "safe_json JNull"
| safe_bool: "safe_json (JBool b)"
| safe_num: "safe_json (JNum n)"
| safe_str: "length s \<le> MAX_FACT_STRING_LENGTH \<Longrightarrow> safe_json (JStr s)"
| safe_arr: "(\<forall>v \<in> set vs. safe_json v) \<Longrightarrow> safe_json (JArr vs)"
| safe_obj: "(\<forall>(k, v) \<in> set fs. to_ascii_lowercase k \<notin> set FORBIDDEN_FACT_KEYS \<and> safe_json v)
     \<Longrightarrow> safe_json (JObj fs)"

inductive_simps safe_json_simps [simp]:
  "safe_json JNull" "safe_json (JBool b)" "safe_json (JNum n)" "safe_json (JStr s)"
  "safe_json (JArr vs)" "safe_json (JObj fs)"

lemma validate_facts_iff:
  "(validate_facts v p = Inr () \<longleftrightarrow> safe_json v)"
  "(validate_fields fs p = Inr () \<longleftrightarrow>
     (\<forall>(k, w) \<in> set fs. to_ascii_lowercase k \<notin> set FORBIDDEN_FACT_KEYS \<and> safe_json w))"
  "(validate_items vs i p = Inr () \<longleftrightarrow> (\<forall>w \<in> set vs. safe_json w))"
  by (induction v p and fs p and vs i p rule: validate_facts_validate_fields_validate_items.induct)
    (auto split: sum.splits)

subsection \<open>The life of a row of the log\<close>

text \<open>
  Between two states of the log every row keeps its identity and event, and its status moves
  only from recorded to applied.
\<close>

definition same_event :: "stored_event update_row \<Rightarrow> stored_event update_row \<Rightarrow> bool" where
  "same_event u v \<longleftrightarrow> pu_update_id v = pu_update_id u \<and> pu_event_type v = pu_event_type u
     \<and> pu_event v = pu_event u
     \<and> (pu_status v = pu_status u \<or> pu_status u = Recorded \<and> pu_status v = Applied)"

definition log_step :: "database \<Rightarrow> database \<Rightarrow> bool" where
  "log_step d t \<longleftrightarrow> list_all2 same_event (updates d) (updates t)"

lemma same_event_refl: "same_event u u"
  by (simp add: same_event_def)

lemma same_event_trans: "same_event u v \<Longrightarrow> same_event v w \<Longrightarrow> same_event u w"
  by (auto simp: same_event_def)

interpretation log: step_relation log_step
proof
  fix s t u :: database
  show "log_step s s" by (simp add: log_step_def list_all2_refl same_event_refl)
  show "log_step s t \<Longrightarrow> log_step t u \<Longrightarrow> log_step s u"
    unfolding log_step_def by (rule list_all2_trans [OF same_event_trans])
qed

lemma log_step_ids: "log_step d t \<Longrightarrow> map pu_update_id (updates t) = map pu_update_id (updates d)"
  unfolding log_step_def by (induction rule: list_all2_induct) (auto simp: same_event_def)

lemma log_step_find:
  assumes "log_step d t"
  shows "rel_option same_event (find_update uid d) (find_update uid t)"
  using assms unfolding log_step_def find_update_def find_row_def
  by (induction rule: list_all2_induct) (auto simp: same_event_def)

definition status_of :: "i64 \<Rightarrow> database \<Rightarrow> update_status option" where
  "status_of uid d = map_option pu_status (find_update uid d)"

lemma log_step_applied: "log_step d t \<Longrightarrow> status_of uid d = Some Applied \<Longrightarrow> status_of uid t = Some Applied"
  using log_step_find [of d t uid]
  by (auto simp: status_of_def same_event_def option_rel_Some1)

lemma find_update_id: "find_update uid d = Some u \<Longrightarrow> u \<in> set (updates d) \<and> pu_update_id u = uid"
  unfolding find_update_def by (drule find_row_SomeD) simp

lemma find_update_row:
  "distinct (map pu_update_id (updates d)) \<Longrightarrow> u \<in> set (updates d)
   \<Longrightarrow> find_update (pu_update_id u) d = Some u"
  unfolding find_update_def by (rule find_row_key [where k = pu_update_id]) auto

lemma mark_applied_Inr:
  assumes "mark_applied uid now d = Inr (x, t)"
  shows "log_step d t" and "status_of uid d = Some Recorded \<Longrightarrow> status_of uid t = Some Applied"
    and "t = d\<lparr>updates := updates t\<rparr>"
proof -
  let ?here = "\<lambda>u. pu_update_id u = uid \<and> pu_status u = Recorded"
  let ?f = "\<lambda>u. u\<lparr>pu_status := Applied, pu_applied_at := Some now, pu_error_code := None,
    pu_error_message := None\<rparr>"
  have t: "t = d\<lparr>updates := update_where ?here ?f (updates d)\<rparr>"
    using assms by (auto simp: mark_applied_def Let_def split: if_splits)
  show "log_step d t"
    unfolding t log_step_def by (simp, rule list_all2_update_where) (auto simp: same_event_def)
  show "t = d\<lparr>updates := updates t\<rparr>" by (simp add: t)
  show "status_of uid t = Some Applied" if rec: "status_of uid d = Some Recorded"
  proof -
    obtain u where u: "find_update uid d = Some u" "pu_status u = Recorded"
      using rec by (auto simp: status_of_def)
    moreover have "pu_update_id u = uid" using find_update_id [OF u(1)] ..
    ultimately show ?thesis by (simp add: t status_of_def find_update_def table_simps)
  qed
qed

lemma ok_updates:
  assumes "db_ok d" and "map pu_update_id (updates t) = map pu_update_id (updates d)"
    and "t = d\<lparr>updates := updates t\<rparr>"
  shows "db_ok t"
proof -
  obtain us where t: "t = d\<lparr>updates := us\<rparr>" using assms(3) by blast
  then have ids: "map pu_update_id us = map pu_update_id (updates d)" using assms(2) by simp
  then have "pu_update_id ` set us = pu_update_id ` set (updates d)" by (metis list.set_map)
  with ids assms(1) show ?thesis unfolding t by (simp add: ok_defs)
qed

subsection \<open>The interface of an applier\<close>

text \<open>
  \<open>trait EventApplier\<close>: an applier changes derived state only (never the log it is driven by)
  and keeps the schema's constraints.
\<close>

locale event_applier =
  fixes applier :: event_applier_fn
  assumes log_untouched: "applier e d = Inr (x, t) \<Longrightarrow> updates t = updates d"
    and applier_ok: "stays (keeps db_ok) (applier e)"
begin

lemma apply_tx_Inr:
  assumes "apply_recorded_event_tx applier now uid d = Inr (r, t)"
  shows "log_step d t" and "status_of uid t = Some Applied"
    and "r = ReceiptApplied \<longleftrightarrow> status_of uid d = Some Recorded"
    and "r = AlreadyApplied \<Longrightarrow> t = d"
proof -
  obtain u where u: "find_update uid d = Some u" "pu_status u = Applied \<or> pu_status u = Recorded"
    using assms
    by (auto simp: apply_recorded_event_tx_def op_success split: option.splits if_splits)
  have "log_step d t \<and> status_of uid t = Some Applied
    \<and> (r = ReceiptApplied \<longleftrightarrow> status_of uid d = Some Recorded) \<and> (r = AlreadyApplied \<longrightarrow> t = d)"
  proof (cases "pu_status u = Applied")
    case True
    with assms u(1) show ?thesis
      by (auto simp: apply_recorded_event_tx_def op_success status_of_def log.step_refl)
  next
    case False
    with u have rec: "pu_status u = Recorded" "status_of uid d = Some Recorded"
      by (auto simp: status_of_def)
    with assms u(1) obtain e y t1 where run: "pu_event u = StoredEvent e" "applier e d = Inr (y, t1)"
      "mark_applied uid (now uid) t1 = Inr ((), t)" "r = ReceiptApplied"
      by (auto simp: apply_recorded_event_tx_def op_success split: stored_event.splits)
    from log_untouched [OF run(2)] have same: "log_step d t1" "status_of uid t1 = status_of uid d"
      by (simp_all add: log_step_def list_all2_refl same_event_refl status_of_def find_update_def)
    have "log_step t1 t" "status_of uid t = Some Applied"
      using mark_applied_Inr [OF run(3)] same(2) rec(2) by auto
    with same(1) rec run(4) show ?thesis by (auto intro: log.step_trans)
  qed
  then show "log_step d t" "status_of uid t = Some Applied"
    "r = ReceiptApplied \<longleftrightarrow> status_of uid d = Some Recorded" "r = AlreadyApplied \<Longrightarrow> t = d"
    by auto
qed

lemma apply_log_step: "log_step d (snd (apply_recorded_event applier now uid d))"
  unfolding apply_recorded_event_def
  by (rule log.commit_stays) (auto intro: staysI apply_tx_Inr(1))

lemma apply_event_Inr:
  assumes "apply_recorded_event applier now uid d = (Inr r, t)"
  shows "status_of uid t = Some Applied"
    and "r = ReceiptApplied \<longleftrightarrow> status_of uid d = Some Recorded"
    and "r = AlreadyApplied \<Longrightarrow> t = d"
  using assms apply_tx_Inr(2-4) [of now uid d r t]
  by (auto simp: apply_recorded_event_def commit_success)

text \<open>An applied event is never applied again.\<close>

lemma apply_again:
  assumes "apply_recorded_event applier now uid d = (Inr r, t)"
  shows "apply_recorded_event applier now' uid t = (Inr AlreadyApplied, t)"
proof -
  obtain u where "find_update uid t = Some u" "pu_status u = Applied"
    using apply_event_Inr(1) [OF assms] by (auto simp: status_of_def)
  then show ?thesis
    by (simp add: apply_recorded_event_def commit_def apply_recorded_event_tx_def op_defs)
qed

text \<open>A failed application leaves the database as it was.\<close>

lemma apply_error:
  "apply_recorded_event applier now uid d = (Inl e, t) \<Longrightarrow> t = d"
  by (simp add: apply_recorded_event_def commit_error_unchanged)

lemma apply_ok: "db_ok d \<Longrightarrow> db_ok (snd (apply_recorded_event applier now uid d))"
proof -
  have mark: "stays (keeps db_ok) (mark_applied i n)" for i n
  proof (rule stays_okI)
    fix d :: database and x t
    assume run: "mark_applied i n d = Inr (x, t)" and "db_ok d"
    from this(2) log_step_ids [OF mark_applied_Inr(1) [OF run]] mark_applied_Inr(3) [OF run]
    show "db_ok t" by (rule ok_updates)
  qed
  have "stays (keeps db_ok) (apply_recorded_event_tx applier now uid)"
    unfolding apply_recorded_event_tx_def
    by (auto intro!: ok.stays_basic applier_ok mark split: option.split stored_event.split)
  from ok.commit_stays [OF this] show "db_ok d \<Longrightarrow> ?thesis"
    by (simp add: keeps_def apply_recorded_event_def)
qed

lemma replay_log_step: "log_step d (snd (replay applier now skip us n d))"
proof (induction us arbitrary: n d)
  case Nil
  then show ?case by (simp add: log.step_refl)
next
  case (Cons u us)
  then show ?case
    using apply_log_step [of d now "pu_update_id u"]
    by (auto split: prod.splits sum.splits intro: log.step_trans)
qed

lemma replay_Inr:
  assumes "replay applier now skip us n d = (Inr m, t)"
    and "u \<in> set us" and "\<not> skip u"
  shows "status_of (pu_update_id u) t = Some Applied"
  using assms
proof (induction us arbitrary: n d)
  case Nil
  then show ?case by simp
next
  case (Cons v us)
  show ?case
  proof (cases "skip v")
    case True
    with Cons show ?thesis by auto
  next
    case False
    then obtain r d1 where run: "apply_recorded_event applier now (pu_update_id v) d = (Inr r, d1)"
      "replay applier now skip us (if r = ReceiptApplied then n + 1 else n) d1 = (Inr m, t)"
      using Cons.prems(1) by (auto split: prod.splits sum.splits)
    show ?thesis
    proof (cases "u = v")
      case True
      have "log_step d1 t" using replay_log_step run(2) by (metis snd_conv)
      with apply_event_Inr(1) [OF run(1)] True show ?thesis by (simp add: log_step_applied)
    next
      case False
      with Cons run(2) show ?thesis by auto
    qed
  qed
qed

lemma recorded_after_replay:
  assumes "replay applier now skip (recorded_rows d) n d = (Inr m, t)"
    and "updates_ok d" and "v \<in> set (updates t)" and "pu_status v = Recorded"
  shows "\<exists>u \<in> set (updates d). same_event u v \<and> pu_status u = Recorded \<and> skip u"
proof -
  have step: "log_step d t" using replay_log_step assms(1) by (metis snd_conv)
  then obtain u where u: "u \<in> set (updates d)" "same_event u v"
    using assms(3) unfolding log_step_def list_all2_conv_all_nth in_set_conv_nth by metis
  then have rec: "pu_status u = Recorded" using assms(4) by (auto simp: same_event_def)
  have "distinct (map pu_update_id (updates t))"
    using assms(2) log_step_ids [OF step] by (simp add: updates_ok_def)
  then have "status_of (pu_update_id v) t = Some Recorded"
    using assms(3,4) by (simp add: status_of_def find_update_row)
  moreover have "pu_update_id v = pu_update_id u" using u(2) by (simp add: same_event_def)
  moreover have "u \<in> set (recorded_rows d)" using u(1) rec by (simp add: recorded_rows_def)
  ultimately have "skip u" using replay_Inr [OF assms(1)] by force
  with u rec show ?thesis by blast
qed

end

end
