(* ===== verification/Processing_Trace.thy ===== *)
theory Processing_Trace
  imports Lifecycle_Facts
begin

section \<open>The dry-run trace\<close>

text \<open>
  Models \<open>src/processing/trace.rs\<close>: the report a dry run sends to the owner, computed from the
  facts of an event, the resulting state and the queued actions. It never sees a message body.
\<close>

datatype trace_status = TraceApplied | TraceQueued | SkippedDryRun | TraceRetained | TraceIgnored

fun trace_status_as_str :: "trace_status \<Rightarrow> string" where
  "trace_status_as_str TraceApplied = ''APPLIED''"
| "trace_status_as_str TraceQueued = ''QUEUED''"
| "trace_status_as_str SkippedDryRun = ''SKIPPED_DRY_RUN''"
| "trace_status_as_str TraceRetained = ''RETAINED''"
| "trace_status_as_str TraceIgnored = ''IGNORED''"

type_synonym trace_action = "string \<times> trace_status"

record trace_detection =
  td_decision :: string
  td_score :: byte
  td_reasons :: "string list"
  td_matched_rules :: "string list"
  td_failed :: bool

record trace_verification =
  tv_result :: string
  tv_attempts_remaining :: "byte option"

record processing_trace =
  pt_update_id :: i64
  pt_contact_id :: "i64 option"
  pt_contact_display_name :: "ustring option"
  pt_contact_username :: "ustring option"
  pt_message_id :: "i64 option"
  pt_event :: string
  pt_state_before :: "string option"
  pt_state_after :: "string option"
  pt_detection :: "trace_detection option"
  pt_verification :: trace_verification
  pt_actions :: "trace_action list"

definition verification_new :: "string \<Rightarrow> byte option \<Rightarrow> trace_verification" where
  "verification_new r a = \<lparr>tv_result = r, tv_attempts_remaining = a\<rparr>"

definition trace_detection_of :: "detection_facts \<Rightarrow> trace_detection" where
  "trace_detection_of f =
     \<lparr>td_decision = df_decision f, td_score = df_score f, td_reasons = df_reasons f,
      td_matched_rules = df_matched_rules f, td_failed = (df_error f \<noteq> None)\<rparr>"

definition push_action :: "string \<Rightarrow> trace_status \<Rightarrow> trace_action list \<Rightarrow> trace_action list" where
  "push_action name status actions =
     (if (name, status) \<in> set actions then actions else actions @ [(name, status)])"

definition outcome_verification :: "string \<Rightarrow> inbound_outcome \<Rightarrow> trace_verification" where
  "outcome_verification event_kind outcome =
     (case outcome of
        StartChallenge _ _ _ _ _ m \<Rightarrow> verification_new ''CHALLENGE_STARTED'' (Some m)
      | Retain \<Rightarrow>
          if event_kind = ''EDITED_INBOUND_MESSAGE''
          then verification_new ''NOT_EVALUATED_EDIT'' None
          else verification_new ''RETAINED'' None
      | OutCorrect _ \<Rightarrow> verification_new ''CORRECT'' (Some 0)
      | OutIncorrect _ _ remaining _ \<Rightarrow> verification_new ''INCORRECT'' (Some remaining)
      | OutExpired _ \<Rightarrow> verification_new ''EXPIRED'' None
      | OutSpam \<Rightarrow> verification_new ''NOT_EVALUATED_SPAM_FIRST'' None)"

definition trace_decisions :: "lifecycle_facts \<Rightarrow> trace_detection option \<times> trace_verification" where
  "trace_decisions facts =
     (case lf_action facts of
        InboundAction detection outcome dry_run_spam \<Rightarrow>
          (Some (trace_detection_of detection),
           if dry_run_spam \<and> lf_state_before facts = Some ''VERIFY_PENDING''
           then verification_new ''NOT_EVALUATED_SPAM_FIRST'' None
           else outcome_verification (lf_event_kind facts) outcome)
      | _ \<Rightarrow> (None, verification_new ''NOT_APPLICABLE'' None))"

definition append_state_change ::
  "string option \<Rightarrow> string option \<Rightarrow> trace_action list \<Rightarrow> trace_action list" where
  "append_state_change before after actions =
     (if before \<noteq> after then push_action ''UPDATE_CONVERSATION_STATE'' TraceApplied actions
      else actions)"

definition append_inbound_actions ::
  "inbound_outcome \<Rightarrow> bool \<Rightarrow> string option \<Rightarrow> string option \<Rightarrow> trace_action list
   \<Rightarrow> trace_action list" where
  "append_inbound_actions outcome dry_run_spam before after actions =
     (case outcome of
        StartChallenge _ _ _ _ _ _ \<Rightarrow>
          append_state_change before after (push_action ''CREATE_CHALLENGE'' TraceApplied actions)
      | Retain \<Rightarrow>
          if \<not> dry_run_spam then push_action ''KEEP_MESSAGE'' TraceRetained actions else actions
      | OutSpam \<Rightarrow> actions
      | OutCorrect _ \<Rightarrow>
          append_state_change before after (push_action ''CLOSE_CHALLENGE'' TraceApplied actions)
      | OutExpired _ \<Rightarrow>
          append_state_change before after (push_action ''CLOSE_CHALLENGE'' TraceApplied actions)
      | OutIncorrect _ exhausted _ block \<Rightarrow>
          let actions = push_action ''INCREMENT_CHALLENGE_ATTEMPTS'' TraceApplied actions
          in if exhausted
             then let actions = append_state_change before after
                        (push_action ''CLOSE_CHALLENGE'' TraceApplied actions)
                  in if block = None then push_action ''TEMP_SOFT_BLOCK'' SkippedDryRun actions
                     else actions
             else actions)"

definition internal_actions :: "lifecycle_facts \<Rightarrow> string option \<Rightarrow> trace_action list" where
  "internal_actions facts after =
     (case lf_action facts of
        ConnectionChanged _ _ _ _ \<Rightarrow> push_action ''UPSERT_BUSINESS_CONNECTION'' TraceApplied []
      | InboundAction _ outcome dry_run_spam \<Rightarrow>
          let actions = push_action ''RECORD_MESSAGE'' TraceApplied [];
              actions =
                (if dry_run_spam
                 then let actions = push_action ''SPAM_BLOCK'' SkippedDryRun
                            (push_action ''DELETE_MESSAGE'' SkippedDryRun actions)
                      in if lf_state_before facts = Some ''VERIFY_PENDING''
                         then push_action ''KEEP_CHALLENGE_OPEN'' TraceApplied actions
                         else actions
                 else actions)
          in append_inbound_actions outcome dry_run_spam (lf_state_before facts) after actions
      | ActiveInbound \<Rightarrow> push_action ''ACTIVE_BYPASS'' TraceIgnored []
      | BlockedInbound \<Rightarrow> push_action ''RECORD_MESSAGE'' TraceApplied []
      | BlockedFailOpen \<Rightarrow>
          push_action ''BLOCK_ENFORCEMENT'' SkippedDryRun
            (push_action ''RECORD_MESSAGE'' TraceApplied [])
      | ManualOwner \<Rightarrow>
          append_state_change (lf_state_before facts) after
            (push_action ''CLOSE_CHALLENGE'' TraceApplied
              (push_action ''RECORD_OWNER_MESSAGE'' TraceApplied []))
      | BotMessage _ \<Rightarrow> push_action ''RECORD_BOT_MESSAGE'' TraceApplied []
      | MessagesDeleted _ \<Rightarrow>
          append_state_change (lf_state_before facts) after
            (push_action ''MARK_MESSAGES_DELETED'' TraceApplied [])
      | Ignore \<Rightarrow> push_action ''IGNORE_EVENT'' TraceIgnored [])"

definition outbox_trace :: "outbox_action_record \<Rightarrow> trace_action list \<Rightarrow> trace_action list" where
  "outbox_trace action actions =
     (if oa_kind action = ProposedDestructiveAction
      then
        let reason = Option.bind (oa_payload action)
              (\<lambda>p. Option.bind (json_get ''reason'' p) json_as_str)
        in if reason = Some (lit ''spam'')
           then push_action ''SPAM_BLOCK'' SkippedDryRun
                  (push_action ''DELETE_MESSAGE'' SkippedDryRun actions)
           else if reason = Some (lit ''verification_exhausted'')
           then push_action ''TEMP_SOFT_BLOCK'' SkippedDryRun actions
           else actions
      else push_action (kind_as_str (oa_kind action)) TraceQueued actions)"

definition append_outbox_actions ::
  "outbox_action_record list \<Rightarrow> trace_action list \<Rightarrow> trace_action list" where
  "append_outbox_actions source actions = fold outbox_trace source actions"

definition from_lifecycle ::
  "i64 \<Rightarrow> lifecycle_facts \<Rightarrow> string option \<Rightarrow> outbox_action_record list \<Rightarrow> processing_trace" where
  "from_lifecycle uid facts after source =
     (let (detection, verification) = trace_decisions facts
      in \<lparr>pt_update_id = uid, pt_contact_id = lf_chat_id facts,
          pt_contact_display_name = lf_contact_display_name facts,
          pt_contact_username = lf_contact_username facts,
          pt_message_id = lf_message_id facts, pt_event = lf_event_kind facts,
          pt_state_before = lf_state_before facts, pt_state_after = after,
          pt_detection = detection, pt_verification = verification,
          pt_actions = append_outbox_actions source (internal_actions facts after)\<rparr>)"

definition trace_owner_command ::
  "i64 \<Rightarrow> i64 \<Rightarrow> i64 option \<Rightarrow> outbox_action_record list \<Rightarrow> processing_trace" where
  "trace_owner_command uid owner_chat message_id source =
     \<lparr>pt_update_id = uid, pt_contact_id = Some owner_chat, pt_contact_display_name = None,
      pt_contact_username = None, pt_message_id = message_id, pt_event = ''OWNER_COMMAND'',
      pt_state_before = None, pt_state_after = None, pt_detection = None,
      pt_verification = verification_new ''NOT_APPLICABLE'' None,
      pt_actions = append_outbox_actions source [(''EXECUTE_OWNER_COMMAND'', TraceApplied)]\<rparr>"

subsection \<open>Rendering\<close>

definition none_text :: ustring where
  "none_text = [0x65E0]"

definition optional_number :: "i64 option \<Rightarrow> ustring" where
  "optional_number v = (case v of None \<Rightarrow> none_text | Some n \<Rightarrow> show_int n)"

definition joined_or_none :: "string list \<Rightarrow> ustring" where
  "joined_or_none vs = (if vs = [] then none_text else join (lit '', '') (map lit vs))"

definition normalized_display_name :: "ustring \<Rightarrow> ustring option" where
  "normalized_display_name n =
     (let j = join [32] (split_whitespace n) in if j = [] then None else Some j)"

definition normalized_username :: "ustring \<Rightarrow> ustring option" where
  "normalized_username n =
     (let u = dropWhile (\<lambda>c. c = 64) (trim n) in if u = [] then None else Some u)"

definition contact_identity :: "ustring option \<Rightarrow> ustring option \<Rightarrow> ustring" where
  "contact_identity display username =
     (case (Option.bind display normalized_display_name, Option.bind username normalized_username) of
        (Some n, Some u) \<Rightarrow> n @ [32, 64] @ u
      | (Some n, None) \<Rightarrow> n
      | (None, Some u) \<Rightarrow> [64] @ u
      | (None, None) \<Rightarrow> none_text)"

definition or_none :: "string option \<Rightarrow> ustring" where
  "or_none v = (case v of None \<Rightarrow> none_text | Some s \<Rightarrow> lit s)"

definition bool_text :: "bool \<Rightarrow> ustring" where
  "bool_text b = (if b then lit ''true'' else lit ''false'')"

definition render_detection :: "trace_detection option \<Rightarrow> ustring" where
  "render_detection v =
     (case v of
        Some x \<Rightarrow>
          lit ''- '' @ [0x5224, 0x5B9A, 0xFF1A] @ lit (td_decision x) @ [10] @
          lit ''- '' @ [0x5206, 0x6570, 0xFF1A] @ show_nat (unat (td_score x)) @ [10] @
          lit ''- '' @ [0x539F, 0x56E0, 0xFF1A] @ joined_or_none (td_reasons x) @ [10] @
          lit ''- '' @ [0x89C4, 0x5219, 0xFF1A] @ joined_or_none (td_matched_rules x) @ [10] @
          lit ''- '' @ [0x5931, 0x8D25, 0xFF1A] @ bool_text (td_failed x) @ [10]
      | None \<Rightarrow>
          lit ''- '' @ [0x5224, 0x5B9A, 0xFF1A] @ lit ''NOT_APPLICABLE'' @ [10] @
          lit ''- '' @ [0x5206, 0x6570, 0xFF1A] @ none_text @ [10] @
          lit ''- '' @ [0x539F, 0x56E0, 0xFF1A] @ none_text @ [10] @
          lit ''- '' @ [0x89C4, 0x5219, 0xFF1A] @ none_text @ [10] @
          lit ''- '' @ [0x5931, 0x8D25, 0xFF1A] @ lit ''false'' @ [10])"

definition render :: "processing_trace \<Rightarrow> ustring" where
  "render t =
     lit ''[DRY-RUN '' @ [0x8FFD, 0x8E2A] @ lit '']'' @ [10, 10] @
     [0x66F4, 0x65B0] @ lit '' ID'' @ [0xFF1A] @ show_int (pt_update_id t) @ [10] @
     [0x8054, 0x7CFB, 0x4EBA, 0xFF1A] @ contact_identity (pt_contact_display_name t) (pt_contact_username t) @ [10] @
     [0x7528, 0x6237] @ lit '' ID'' @ [0xFF1A] @ optional_number (pt_contact_id t) @ [10] @
     [0x6D88, 0x606F] @ lit '' ID'' @ [0xFF1A] @ optional_number (pt_message_id t) @ [10] @
     [0x4E8B, 0x4EF6, 0xFF1A] @ lit (pt_event t) @ [10] @
     [0x72B6, 0x6001, 0xFF1A] @ or_none (pt_state_before t) @ lit '' -> '' @ or_none (pt_state_after t) @ [10] @
     [10] @ [0x68C0, 0x6D4B, 0xFF1A] @ [10] @ render_detection (pt_detection t) @
     [10] @ [0x9A8C, 0x8BC1, 0xFF1A] @ [10] @ lit ''- '' @ [0x7ED3, 0x679C, 0xFF1A] @ lit (tv_result (pt_verification t)) @ [10] @
     (case tv_attempts_remaining (pt_verification t) of
        None \<Rightarrow> []
      | Some n \<Rightarrow> lit ''- '' @ [0x5269, 0x4F59, 0x6B21, 0x6570, 0xFF1A] @ show_nat (unat n) @ [10]) @
     [10] @ [0x64CD, 0x4F5C, 0xFF1A] @ [10] @
     concat (map (\<lambda>(name, status). lit ''- '' @ lit name @ [0xFF1A]
       @ lit (trace_status_as_str status) @ [10]) (pt_actions t))"

subsection \<open>Traces list each action once\<close>

lemma push_action_distinct: "distinct as \<Longrightarrow> distinct (push_action n s as)"
  by (auto simp: push_action_def)

lemma append_state_change_distinct: "distinct as \<Longrightarrow> distinct (append_state_change b a as)"
  by (simp add: append_state_change_def push_action_distinct)

lemma append_inbound_actions_distinct:
  "distinct as \<Longrightarrow> distinct (append_inbound_actions out dry b a as)"
  by (auto simp: append_inbound_actions_def Let_def split: inbound_outcome.split
      intro!: push_action_distinct append_state_change_distinct)

lemma internal_actions_distinct: "distinct (internal_actions facts after)"
  by (auto simp: internal_actions_def Let_def split: prepared_action.split
      intro!: push_action_distinct append_state_change_distinct append_inbound_actions_distinct)

lemma append_outbox_actions_distinct: "distinct as \<Longrightarrow> distinct (append_outbox_actions source as)"
  unfolding append_outbox_actions_def
  by (induction source arbitrary: as) (auto simp: outbox_trace_def Let_def intro!: push_action_distinct)

lemma from_lifecycle_distinct: "distinct (pt_actions (from_lifecycle uid facts after source))"
  by (simp add: from_lifecycle_def case_prod_beta Let_def append_outbox_actions_distinct
      internal_actions_distinct)

end
