(* ===== verification/Lifecycle_Handler.thy ===== *)
theory Lifecycle_Handler
  imports Event_Log Processing_Trace
begin

section \<open>The lifecycle handler\<close>

text \<open>
  Models \<open>src/processing/handler.rs\<close>: the application of a recorded event to the derived
  state, one definition per method, composed as the code composes them. Storage errors are
  carried through with \<open>map_err Storage\<close> (the code's \<open>?\<close> conversion).
\<close>

abbreviation st :: "(database, storage_error, 'a) op \<Rightarrow> 'a eop" where
  "st m \<equiv> map_err Storage m"

definition app_error :: "string \<Rightarrow> event_error" where
  "app_error s = Application (lit s)"

subsection \<open>Fields of the facts\<close>

definition facts_optional_key :: "lifecycle_facts \<Rightarrow> conversation_key option" where
  "facts_optional_key f =
     (case (lf_connection_id f, lf_chat_id f) of
        (Some c, Some h) \<Rightarrow> Some \<lparr>connection_id = c, chat_id = h\<rparr>
      | _ \<Rightarrow> None)"

definition facts_key :: "lifecycle_facts \<Rightarrow> event_error + conversation_key" where
  "facts_key f =
     (case lf_connection_id f of
        None \<Rightarrow> Inl (app_error ''connection ID is missing'')
      | Some c \<Rightarrow>
          (case lf_chat_id f of
             None \<Rightarrow> Inl (app_error ''chat ID is missing'')
           | Some h \<Rightarrow> Inr \<lparr>connection_id = c, chat_id = h\<rparr>))"

definition facts_user_id :: "lifecycle_facts \<Rightarrow> event_error + i64" where
  "facts_user_id f = ok_or (app_error ''user ID is missing'') (lf_user_id f)"

definition facts_message_id :: "lifecycle_facts \<Rightarrow> event_error + i64" where
  "facts_message_id f = ok_or (app_error ''message ID is missing'') (lf_message_id f)"

subsection \<open>Transitions\<close>

text \<open>The \<open>Display\<close> form of an invalid transition: the \<open>Debug\<close> names of its fields.\<close>

fun state_debug :: "conversation_state \<Rightarrow> string" where
  "state_debug New = ''New''"
| "state_debug VerifyPending = ''VerifyPending''"
| "state_debug VerifiedWaitingOwner = ''VerifiedWaitingOwner''"
| "state_debug Active = ''Active''"
| "state_debug TempSoftBlocked = ''TempSoftBlocked''"
| "state_debug SpamSoftBlocked = ''SpamSoftBlocked''"

fun event_debug :: "transition_event \<Rightarrow> string" where
  "event_debug SafeFirstInbound = ''SafeFirstInbound''"
| "event_debug SpamDetected = ''SpamDetected''"
| "event_debug VerificationSucceeded = ''VerificationSucceeded''"
| "event_debug ChallengeExpired = ''ChallengeExpired''"
| "event_debug VerificationExhausted = ''VerificationExhausted''"
| "event_debug ManualOwnerReply = ''ManualOwnerReply''"
| "event_debug AllOwnerRepliesDeleted = ''AllOwnerRepliesDeleted''"
| "event_debug TempBlockExpired = ''TempBlockExpired''"
| "event_debug OwnerUnblocked = ''OwnerUnblocked''"
| "event_debug OwnerInitiatedMessage = ''OwnerInitiatedMessage''"

fun invalid_transition_text :: "invalid_transition \<Rightarrow> ustring" where
  "invalid_transition_text (InvalidTransition s e) =
     lit ''event '' @ lit (event_debug e) @ lit '' is invalid for state '' @ lit (state_debug s)"

definition set_transition ::
  "conversation \<Rightarrow> transition_event \<Rightarrow> timestamp \<Rightarrow> event_error + conversation" where
  "set_transition c event now =
     (case transition (cv_state c) event of
        Inl e \<Rightarrow> Inl (Application (invalid_transition_text e))
      | Inr s \<Rightarrow> Inr (c\<lparr>cv_state := s, cv_updated_at := now\<rparr>))"

subsection \<open>Queued actions and audits\<close>

definition action_idempotency_key ::
  "i64 \<Rightarrow> outbox_action_kind \<Rightarrow> conversation_key \<Rightarrow> nat \<Rightarrow> ustring" where
  "action_idempotency_key uid kind key batch_index =
     show_int uid @ [58] @ lit (kind_as_str kind) @ [58] @ lit (connection_id key) @ [58]
     @ show_int (chat_id key) @ [58] @ show_nat batch_index"

definition enqueue_action ::
  "i64 \<Rightarrow> conversation_key \<Rightarrow> outbox_action_kind \<Rightarrow> json \<Rightarrow> nat \<Rightarrow> timestamp \<Rightarrow> unit eop" where
  "enqueue_action uid key kind payload batch_index now =
     and_then (st (enqueue_outbox_action
       \<lparr>no_source_update_id = uid, no_key = Some key, no_kind = kind, no_payload = Some payload,
        no_idempotency_key = action_idempotency_key uid kind key batch_index,
        no_created_at = now\<rparr>)) (\<lambda>_. ret ())"

definition enqueue_challenge_edit ::
  "i64 \<Rightarrow> conversation_key \<Rightarrow> i64 \<Rightarrow> string \<Rightarrow> i64 option \<Rightarrow> timestamp \<Rightarrow> unit eop" where
  "enqueue_challenge_edit uid key challenge_id status attempts_remaining now =
     enqueue_action uid key EditChallenge
       (JObj [(''challenge_id'', JNum challenge_id), (''status'', jstr status),
              (''attempts_remaining'', jopt JNum attempts_remaining)]) 0 now"

definition enqueue_read :: "i64 \<Rightarrow> conversation_key \<Rightarrow> i64 \<Rightarrow> timestamp \<Rightarrow> unit eop" where
  "enqueue_read uid key message_id now =
     enqueue_action uid key ReadBusinessMessage (JObj [(''message_id'', JNum message_id)]) 0 now"

text \<open>\<open>delete_message_batches\<close>: chunks of at most one hundred.\<close>

function chunks :: "nat \<Rightarrow> 'a list \<Rightarrow> 'a list list" where
  "chunks n xs = (if xs = [] \<or> n = 0 then [] else take n xs # chunks n (drop n xs))"
  by pat_completeness auto

termination
  by (relation "measure (\<lambda>(n, xs). length xs)") auto

declare chunks.simps [simp del]

definition delete_message_batches :: "i64 list \<Rightarrow> i64 list list" where
  "delete_message_batches ids = chunks 100 ids"

definition enqueue_delete :: "i64 \<Rightarrow> conversation_key \<Rightarrow> i64 list \<Rightarrow> timestamp \<Rightarrow> unit eop" where
  "enqueue_delete uid key ids now =
     for_each (\<lambda>(i, batch).
         enqueue_action uid key DeleteBusinessMessages
           (JObj [(''message_ids'', JArr (map JNum batch))]) i now)
       (List.enumerate 0 (delete_message_batches ids))"

definition insert_detection_audit ::
  "i64 \<Rightarrow> conversation_key \<Rightarrow> conversation_state \<Rightarrow> conversation_state \<Rightarrow> detection_facts
   \<Rightarrow> timestamp \<Rightarrow> unit eop" where
  "insert_detection_audit uid key before after detection now =
     and_then (st (insert_audit_event
       \<lparr>na_source_update_id = uid, na_key = Some key, na_event_kind = ''detection'',
        na_state_before = Some (state_as_str before), na_state_after = Some (state_as_str after),
        na_score = Some (df_score detection),
        na_reasons_json = Some (JArr (map jstr (df_reasons detection))),
        na_rule_ids_json = Some (JArr (map jstr (df_matched_rules detection))),
        na_normalized_hash = Some (df_normalized_hash detection),
        na_rule_version = Some (df_detector_version detection),
        na_error_code = (if df_error detection = None then None else Some ''detector_failed''),
        na_error_message = df_error detection, na_occurred_at = now\<rparr>)) (\<lambda>_. ret ())"

definition insert_owner_identity_audit :: "i64 \<Rightarrow> string \<Rightarrow> timestamp \<Rightarrow> unit eop" where
  "insert_owner_identity_audit uid error_code now =
     and_then (st (insert_audit_event
       \<lparr>na_source_update_id = uid, na_key = None, na_event_kind = ''owner_identity_security'',
        na_state_before = None, na_state_after = None, na_score = None, na_reasons_json = None,
        na_rule_ids_json = None, na_normalized_hash = None, na_rule_version = None,
        na_error_code = Some error_code, na_error_message = None, na_occurred_at = now\<rparr>))
       (\<lambda>_. ret ())"

subsection \<open>Connection changes\<close>

definition apply_connection_change ::
  "i64 \<Rightarrow> string \<Rightarrow> i64 \<Rightarrow> i64 option \<Rightarrow> bool \<Rightarrow> json_text \<Rightarrow> timestamp \<Rightarrow> unit eop" where
  "apply_connection_change uid cid user chat en rights now =
     (let upsert = st (upsert_business_connection
            \<lparr>bc_connection_id = cid, bc_owner_user_id = user, bc_rights_json = jt_parsed rights,
             bc_enabled = en, bc_connection_established_at = None, bc_state_revision = 0,
             bc_reconciliation_state = ReconciliationPending, bc_updated_at = now\<rparr>)
      in and_then (st load_owner_lifecycle_state) (\<lambda>s.
         case s of
           OwnerPending \<Rightarrow> upsert
         | OwnerReady Unclaimed \<Rightarrow>
             insert_owner_identity_audit uid ''connection_received_before_owner_claim'' now
         | OwnerReady (Claimed stored_user stored_chat source _ _) \<Rightarrow>
             if stored_user \<noteq> user
             then insert_owner_identity_audit uid ''connection_owner_mismatch'' now
             else
               (case chat of
                  None \<Rightarrow> upsert
                | Some h \<Rightarrow>
                    and_then
                      (if source \<noteq> LegacyFallback \<and> h \<noteq> stored_chat
                       then insert_owner_identity_audit uid ''connection_owner_chat_mismatch'' now
                       else ret ()) (\<lambda>_.
                    and_then (st (promote_owner_chat user h BusinessConnection)) (\<lambda>_.
                      upsert)))))"

subsection \<open>Messages\<close>

definition record_inbound :: "lifecycle_facts \<Rightarrow> conversation_key \<Rightarrow> unit eop" where
  "record_inbound facts key =
     and_then (lift_result (facts_message_id facts)) (\<lambda>m.
     and_then (st (record_message
         ((ledger_message_new key m Inbound External False (lf_occurred_at facts))
            \<lparr>lm_media_group_id := lf_media_group_id facts\<rparr>))) (\<lambda>_. ret ()))"

definition apply_bot_message :: "lifecycle_facts \<Rightarrow> prepared_sender \<Rightarrow> unit eop" where
  "apply_bot_message facts sender =
     and_then (lift_result (facts_key facts)) (\<lambda>key.
     and_then (lift_result (facts_user_id facts)) (\<lambda>u.
     and_then (st (get_or_create_conversation key u (lf_occurred_at facts))) (\<lambda>_.
     and_then (lift_result (facts_message_id facts)) (\<lambda>m.
     and_then (st (record_message (ledger_message_new key m Outbound
         (case sender of SentByBusinessBot \<Rightarrow> BusinessBot | SentImplicitly \<Rightarrow> Implicit) False
         (lf_occurred_at facts)))) (\<lambda>_. ret ())))))"

definition apply_manual_owner :: "lifecycle_facts \<Rightarrow> unit eop" where
  "apply_manual_owner facts =
     and_then (lift_result (facts_key facts)) (\<lambda>key.
     and_then (lift_result (facts_user_id facts)) (\<lambda>u.
     and_then (st (get_or_create_conversation key u (lf_occurred_at facts))) (\<lambda>c.
     and_then (lift_result (facts_message_id facts)) (\<lambda>m.
     and_then (st (record_message (ledger_message_new key m Outbound Owner True
         (lf_occurred_at facts)))) (\<lambda>_.
     and_then (st (close_active_challenge key (lf_occurred_at facts))) (\<lambda>_.
     and_then
       (if cv_state c \<noteq> Active
        then lift_result (set_transition c
               (if cv_state c = SpamSoftBlocked then OwnerInitiatedMessage else ManualOwnerReply)
               (lf_occurred_at facts))
        else ret c) (\<lambda>c.
     and_then (st (save_conversation
         (c\<lparr>cv_block_expires_at := None, cv_block_reason := None,
            cv_updated_at := lf_occurred_at facts\<rparr>) (cv_state_version c))) (\<lambda>_. ret ()))))))))"

definition apply_deletions :: "lifecycle_facts \<Rightarrow> i64 list \<Rightarrow> unit eop" where
  "apply_deletions facts ids =
     and_then (lift_result (facts_key facts)) (\<lambda>key.
     and_then (lift_result (facts_user_id facts)) (\<lambda>u.
     and_then (st (get_or_create_conversation key u (lf_occurred_at facts))) (\<lambda>c.
     and_then (for_each (\<lambda>i. and_then (st (mark_message_deleted key i (lf_occurred_at facts)))
         (\<lambda>_. ret ())) ids) (\<lambda>_.
       if cv_state c = Active
       then
         and_then (st (active_owner_reply_ids key)) (\<lambda>replies.
           if replies = []
           then
             and_then (lift_result (set_transition c AllOwnerRepliesDeleted
                 (lf_occurred_at facts))) (\<lambda>c.
             and_then (st (save_conversation c (cv_state_version c))) (\<lambda>_. ret ()))
           else ret ())
       else ret ()))))"

subsection \<open>Inbound outcomes\<close>

record apply_context =
  ac_update_id :: i64
  ac_facts :: lifecycle_facts
  ac_key :: conversation_key

definition ac_now :: "apply_context \<Rightarrow> timestamp" where
  "ac_now ctx = lf_occurred_at (ac_facts ctx)"

definition apply_challenge_start ::
  "(timestamp \<Rightarrow> ustring) \<Rightarrow> apply_context \<Rightarrow> conversation \<Rightarrow> inbound_outcome
   \<Rightarrow> conversation eop" where
  "apply_challenge_start rfc ctx c outcome =
     (case outcome of
        StartChallenge expression hmac version created expires max_attempts \<Rightarrow>
          if max_attempts \<noteq> 3 then fail (app_error ''challenge max attempts must be three'')
          else
            and_then (st (create_challenge
                (challenge_pending (ac_key ctx) expression hmac version created expires)))
              (\<lambda>challenge_id.
            and_then (lift_result (set_transition c SafeFirstInbound (ac_now ctx))) (\<lambda>c.
            and_then (enqueue_action (ac_update_id ctx) (ac_key ctx) SendChallenge
                (JObj [(''challenge_id'', JNum challenge_id), (''expression'', JStr expression),
                       (''expires_at'', JStr (rfc expires)),
                       (''attempts_remaining'', JNum (int (unat max_attempts)))])
                0 (ac_now ctx)) (\<lambda>_. ret c)))
      | _ \<Rightarrow> fail (app_error ''challenge start outcome is required''))"

text \<open>\<open>i64::from(3_u8).saturating_sub(n).try_into().unwrap_or_default()\<close> as a \<open>u8\<close>.\<close>

definition legacy_remaining :: "i64 \<Rightarrow> i64" where
  "legacy_remaining used = (let r = 3 - used in if 0 \<le> r \<and> r \<le> 255 then r else 0)"

definition apply_incorrect_answer ::
  "apply_context \<Rightarrow> conversation \<Rightarrow> inbound_outcome \<Rightarrow> conversation eop" where
  "apply_incorrect_answer ctx c outcome =
     (case outcome of
        OutIncorrect challenge_id exhausted remaining block \<Rightarrow>
          and_then (st (increment_challenge_attempts challenge_id)) (\<lambda>used.
          if \<not> exhausted
          then
            and_then (enqueue_challenge_edit (ac_update_id ctx) (ac_key ctx) challenge_id
                ''incorrect''
                (Some (if remaining = 255 then legacy_remaining used else int (unat remaining)))
                (ac_now ctx)) (\<lambda>_. ret c)
          else
            and_then (st (close_challenge challenge_id (ac_now ctx))) (\<lambda>_.
            and_then
              (case block of
                 Some expires \<Rightarrow>
                   and_then (lift_result (set_transition c VerificationExhausted (ac_now ctx)))
                     (\<lambda>c. ret (c\<lparr>cv_block_expires_at := Some expires,
                                cv_block_reason := Some ''verification_exhausted'',
                                cv_block_count := cv_block_count c + 1\<rparr>))
               | None \<Rightarrow>
                   and_then (lift_result (set_transition c ChallengeExpired (ac_now ctx))) (\<lambda>c.
                   and_then (enqueue_action (ac_update_id ctx) (ac_key ctx)
                       ProposedDestructiveAction
                       (JObj [(''reason'', jstr ''verification_exhausted''), (''hours'', JNum 24)])
                       1 (ac_now ctx)) (\<lambda>_. ret c))) (\<lambda>c.
            and_then (enqueue_challenge_edit (ac_update_id ctx) (ac_key ctx) challenge_id
                (if block \<noteq> None then ''exhausted'' else ''exhausted_dry_run'') (Some 0)
                (ac_now ctx)) (\<lambda>_. ret c))))
      | _ \<Rightarrow> fail (app_error ''incorrect-answer outcome is required''))"

definition apply_spam :: "apply_context \<Rightarrow> conversation \<Rightarrow> conversation eop" where
  "apply_spam ctx c =
     and_then (lift_result (set_transition c SpamDetected (ac_now ctx))) (\<lambda>c.
     and_then (st (close_active_challenge (ac_key ctx) (ac_now ctx))) (\<lambda>_.
     and_then (lift_result (facts_message_id (ac_facts ctx))) (\<lambda>m.
     and_then (enqueue_read (ac_update_id ctx) (ac_key ctx) m (ac_now ctx)) (\<lambda>_.
     and_then (st (eligible_deletion_ids (ac_key ctx))) (\<lambda>ids.
     and_then (enqueue_delete (ac_update_id ctx) (ac_key ctx) ids (ac_now ctx)) (\<lambda>_.
       ret (c\<lparr>cv_block_reason := Some ''spam'',
              cv_block_count := cv_block_count c + 1\<rparr>)))))))"

text \<open>Closing the answered or expired challenge, with the edit of its prompt.\<close>

definition close_and_edit ::
  "apply_context \<Rightarrow> conversation \<Rightarrow> i64 \<Rightarrow> transition_event \<Rightarrow> string \<Rightarrow> conversation eop" where
  "close_and_edit ctx c challenge_id event status =
     and_then (st (close_challenge challenge_id (ac_now ctx))) (\<lambda>_.
     and_then (lift_result (set_transition c event (ac_now ctx))) (\<lambda>c.
     and_then (enqueue_challenge_edit (ac_update_id ctx) (ac_key ctx) challenge_id status None
         (ac_now ctx)) (\<lambda>_. ret c)))"

definition apply_inbound_outcome ::
  "(timestamp \<Rightarrow> ustring) \<Rightarrow> apply_context \<Rightarrow> conversation \<Rightarrow> inbound_outcome
   \<Rightarrow> conversation eop" where
  "apply_inbound_outcome rfc ctx c outcome =
     (case outcome of
        StartChallenge _ _ _ _ _ _ \<Rightarrow> apply_challenge_start rfc ctx c outcome
      | Retain \<Rightarrow> ret c
      | OutCorrect challenge_id \<Rightarrow>
          close_and_edit ctx c challenge_id VerificationSucceeded ''success''
      | OutIncorrect _ _ _ _ \<Rightarrow> apply_incorrect_answer ctx c outcome
      | OutExpired challenge_id \<Rightarrow>
          close_and_edit ctx c challenge_id ChallengeExpired ''expired''
      | OutSpam \<Rightarrow> apply_spam ctx c)"

definition apply_inbound ::
  "(timestamp \<Rightarrow> ustring) \<Rightarrow> i64 \<Rightarrow> lifecycle_facts \<Rightarrow> detection_facts \<Rightarrow> inbound_outcome \<Rightarrow> bool
   \<Rightarrow> unit eop" where
  "apply_inbound rfc uid facts detection outcome dry_run_spam =
     and_then (lift_result (facts_key facts)) (\<lambda>key.
     and_then (lift_result (facts_user_id facts)) (\<lambda>u.
     and_then (st (get_or_create_conversation key u (lf_occurred_at facts))) (\<lambda>c.
     and_then (record_inbound facts key) (\<lambda>_.
     and_then
       (if dry_run_spam
        then enqueue_action uid key ProposedDestructiveAction
               (JObj [(''reason'', jstr ''spam''),
                      (''score'', JNum (int (unat (df_score detection))))])
               0 (lf_occurred_at facts)
        else ret ()) (\<lambda>_.
     and_then
       (if df_error detection \<noteq> None
        then enqueue_action uid key SendOwnerMessage (JObj [(''alert'', jstr ''detector_failed'')])
               0 (lf_occurred_at facts)
        else ret ()) (\<lambda>_.
     and_then (apply_inbound_outcome rfc
         \<lparr>ac_update_id = uid, ac_facts = facts, ac_key = key\<rparr> c outcome) (\<lambda>c'.
     and_then
       (if cv_state c' \<noteq> cv_state c \<or> cv_updated_at c' \<noteq> lf_occurred_at facts
        then
          st (save_conversation (c'\<lparr>cv_updated_at := lf_occurred_at facts\<rparr>) (cv_state_version c'))
        else ret c') (\<lambda>c'.
       insert_detection_audit uid key (cv_state c) (cv_state c') detection
         (lf_occurred_at facts)))))))))"

subsection \<open>Blocked conversations\<close>

definition touch_conversation :: "conversation \<Rightarrow> timestamp \<Rightarrow> unit eop" where
  "touch_conversation c now =
     and_then (st (save_conversation (c\<lparr>cv_updated_at := now\<rparr>) (cv_state_version c))) (\<lambda>_. ret ())"

definition apply_blocked_inbound :: "i64 \<Rightarrow> lifecycle_facts \<Rightarrow> unit eop" where
  "apply_blocked_inbound uid facts =
     and_then (lift_result (facts_key facts)) (\<lambda>key.
     and_then (lift_result (facts_message_id facts)) (\<lambda>m.
     and_then (lift_result (facts_user_id facts)) (\<lambda>u.
     and_then (st (get_or_create_conversation key u (lf_occurred_at facts))) (\<lambda>c.
     and_then (record_inbound facts key) (\<lambda>_.
     and_then (enqueue_read uid key m (lf_occurred_at facts)) (\<lambda>_.
     and_then (st (eligible_deletion_ids key)) (\<lambda>ids.
     and_then (enqueue_delete uid key ids (lf_occurred_at facts)) (\<lambda>_.
       touch_conversation c (lf_occurred_at facts)))))))))"

definition apply_blocked_fail_open :: "lifecycle_facts \<Rightarrow> unit eop" where
  "apply_blocked_fail_open facts =
     and_then (lift_result (facts_key facts)) (\<lambda>key.
     and_then (lift_result (facts_user_id facts)) (\<lambda>u.
     and_then (st (get_or_create_conversation key u (lf_occurred_at facts))) (\<lambda>c.
     and_then (record_inbound facts key) (\<lambda>_.
       touch_conversation c (lf_occurred_at facts)))))"

subsection \<open>The trace of a dry run\<close>

definition enqueue_dry_run_trace :: "prepared_event \<Rightarrow> unit eop" where
  "enqueue_dry_run_trace event =
     (let facts = pe_facts event; uid = pe_update_id event
      in if \<not> lf_dry_run facts then ret ()
         else
           (case lf_owner_user_id facts of
              None \<Rightarrow> ret ()
            | Some user \<Rightarrow>
                let owner_chat = (case lf_owner_chat_id facts of None \<Rightarrow> user | Some h \<Rightarrow> h);
                    key = facts_optional_key facts
                in and_then
                     (case key of
                        None \<Rightarrow> ret None
                      | Some k \<Rightarrow>
                          and_then (st (find_conversation k)) (\<lambda>c.
                            ret (map_option (\<lambda>c. state_as_str (cv_state c)) c))) (\<lambda>after.
                   and_then (st (list_outbox_actions_for_update uid)) (\<lambda>source.
                   and_then (st (enqueue_outbox_action
                       \<lparr>no_source_update_id = uid, no_key = key, no_kind = SendOwnerMessage,
                        no_payload = Some (JObj
                          [(''message'', JStr (render (from_lifecycle uid facts after source))),
                           (''owner_chat_id'', JNum owner_chat)]),
                        no_idempotency_key = show_int uid @ lit '':DRY_RUN_TRACE'',
                        no_created_at = lf_occurred_at facts\<rparr>)) (\<lambda>_. ret ())))))"

subsection \<open>The applier\<close>

definition apply_action :: "(timestamp \<Rightarrow> ustring) \<Rightarrow> prepared_event \<Rightarrow> unit eop" where
  "apply_action rfc event =
     (let facts = pe_facts event; uid = pe_update_id event
      in case lf_action facts of
           ConnectionChanged user chat en rights \<Rightarrow>
             and_then (lift_result (ok_or (app_error ''connection ID is missing'')
                 (lf_connection_id facts))) (\<lambda>cid.
               apply_connection_change uid cid user chat en rights (lf_occurred_at facts))
         | InboundAction detection outcome dry_run_spam \<Rightarrow>
             apply_inbound rfc uid facts detection outcome dry_run_spam
         | ActiveInbound \<Rightarrow> ret ()
         | Ignore \<Rightarrow> ret ()
         | BlockedInbound \<Rightarrow> apply_blocked_inbound uid facts
         | BlockedFailOpen \<Rightarrow> apply_blocked_fail_open facts
         | ManualOwner \<Rightarrow> apply_manual_owner facts
         | BotMessage sender \<Rightarrow> apply_bot_message facts sender
         | MessagesDeleted ids \<Rightarrow> apply_deletions facts ids)"

definition lifecycle_apply :: "(timestamp \<Rightarrow> ustring) \<Rightarrow> event_applier_fn" where
  "lifecycle_apply rfc event =
     and_then (apply_action rfc event) (\<lambda>_. enqueue_dry_run_trace event)"

subsection \<open>Relations every application respects\<close>

text \<open>
  The contract between the handler and the repositories: a step relation that each repository
  function respects is respected by the application of every event. It is instantiated with
  the schema's constraints, with the log, and with the owner's evolution.
\<close>

locale queue_relation = step_relation R for R :: "database \<Rightarrow> database \<Rightarrow> bool" +
  assumes r_record: "stays R (record_message m)"
    and r_mark_deleted: "stays R (mark_message_deleted key i now)"
    and r_enqueue: "stays R (enqueue_outbox_action a)"
    and r_audit: "stays R (insert_audit_event e)"
begin

lemmas queue_primitive = r_record r_mark_deleted r_enqueue r_audit
  stays_reads [OF repository_reads(1)] stays_reads [OF repository_reads(2)]
  stays_reads [OF repository_reads(3)] stays_reads [OF repository_reads(6)]
  stays_reads [OF reads_load_owner(1)]

lemma stays_enqueue_action: "stays R (enqueue_action uid key kind p b now)"
  unfolding enqueue_action_def by (intro stays_basic queue_primitive)

lemma stays_edit: "stays R (enqueue_challenge_edit uid key i status rem now)"
  unfolding enqueue_challenge_edit_def by (rule stays_enqueue_action)

lemma stays_read: "stays R (enqueue_read uid key m now)"
  unfolding enqueue_read_def by (rule stays_enqueue_action)

lemma stays_delete: "stays R (enqueue_delete uid key ids now)"
  unfolding enqueue_delete_def by (intro stays_basic stays_enqueue_action)

lemma stays_audits: "stays R (insert_detection_audit uid key a b f now)"
  "stays R (insert_owner_identity_audit uid code now)"
  unfolding insert_detection_audit_def insert_owner_identity_audit_def
  by (intro stays_basic queue_primitive)+

lemma stays_record_inbound: "stays R (record_inbound facts key)"
  unfolding record_inbound_def by (intro stays_basic queue_primitive)

lemma stays_trace: "stays R (enqueue_dry_run_trace event)"
  unfolding enqueue_dry_run_trace_def Let_def by (intro stays_basic queue_primitive)

lemmas compound = stays_enqueue_action stays_edit stays_read stays_delete stays_audits
  stays_record_inbound

end

locale repository_relation = queue_relation R for R :: "database \<Rightarrow> database \<Rightarrow> bool" +
  assumes r_get_or_create: "stays R (get_or_create_conversation key u now)"
    and r_save: "stays R (save_conversation c v)"
    and r_create_challenge: "stays R (create_challenge ch)"
    and r_close: "stays R (close_challenge i now)"
    and r_close_active: "stays R (close_active_challenge key now)"
    and r_increment: "stays R (increment_challenge_attempts i)"
    and r_upsert: "stays R (upsert_business_connection b)"
    and r_promote: "stays R (promote_owner_chat user chat src)"
begin

lemmas primitive = queue_primitive r_get_or_create r_save r_create_challenge r_close
  r_close_active r_increment r_upsert r_promote

lemma stays_connection_change: "stays R (apply_connection_change uid cid u h en r now)"
  unfolding apply_connection_change_def Let_def
  by (auto intro!: stays_basic primitive compound split: owner_row.split owner_identity.split)

lemma stays_messages:
  "stays R (apply_bot_message facts sender)" "stays R (apply_manual_owner facts)"
  "stays R (apply_deletions facts ids)"
  unfolding apply_bot_message_def apply_manual_owner_def apply_deletions_def
  by (intro stays_basic primitive compound)+

lemma stays_outcome: "stays R (apply_inbound_outcome rfc ctx c out)"
  unfolding apply_inbound_outcome_def apply_challenge_start_def apply_incorrect_answer_def
    apply_spam_def close_and_edit_def
  by (auto intro!: stays_basic primitive compound split: inbound_outcome.split)

lemma stays_inbound: "stays R (apply_inbound rfc uid facts f out dry)"
  unfolding apply_inbound_def by (intro stays_basic primitive compound stays_outcome)

lemma stays_blocked: "stays R (apply_blocked_inbound uid facts)" "stays R (apply_blocked_fail_open facts)"
  unfolding apply_blocked_inbound_def apply_blocked_fail_open_def touch_conversation_def
  by (intro stays_basic primitive compound)+

lemma stays_action: "stays R (apply_action rfc event)"
  unfolding apply_action_def Let_def
  by (cases "lf_action (pe_facts event)")
    (auto intro!: stays_basic stays_connection_change stays_messages stays_inbound stays_blocked)

lemma stays_lifecycle: "stays R (lifecycle_apply rfc event)"
  unfolding lifecycle_apply_def by (intro stays_basic stays_action stays_trace)

end

interpretation ok_handler: repository_relation "keeps db_ok"
  by unfold_locales (rule ok_repositories ok_owner_ops)+

text \<open>No repository function the handler calls touches the log.\<close>

lemma same_updates_get_or_create:
  "stays (same updates) (get_or_create_conversation key u now :: (database, _, _) op)"
  by (auto simp: stays_def same_def get_or_create_conversation_def find_conversation_def insert_conversation_def op_success
      split: option.splits if_splits)

lemma same_updates_save:
  "stays (same updates) (save_conversation c v :: (database, _, _) op)"
  by (auto simp: stays_def same_def save_conversation_def Let_def
      split: option.splits if_splits)

lemma same_updates_record:
  "stays (same updates) (record_message m :: (database, _, _) op)"
  by (auto simp: stays_def same_def record_message_def
      split: option.splits if_splits)

lemma same_updates_mark_deleted:
  "stays (same updates) (mark_message_deleted key i now :: (database, _, _) op)"
  by (auto simp: stays_def same_def mark_message_deleted_def Let_def
      split: option.splits if_splits)

lemma same_updates_create:
  "stays (same updates) (create_challenge ch :: (database, _, _) op)"
  by (auto simp: stays_def same_def create_challenge_def Let_def
      split: option.splits if_splits)

lemma same_updates_close:
  "stays (same updates) (close_challenge i now :: (database, _, _) op)"
  by (auto simp: stays_def same_def close_challenge_def Let_def
      split: option.splits if_splits)

lemma same_updates_close_active:
  "stays (same updates) (close_active_challenge key now :: (database, _, _) op)"
  by (auto simp: stays_def same_def close_active_challenge_def Let_def
      split: option.splits if_splits)

lemma same_updates_increment:
  "stays (same updates) (increment_challenge_attempts i :: (database, _, _) op)"
  by (auto simp: stays_def same_def increment_challenge_attempts_def Let_def
      split: option.splits if_splits)

lemma same_updates_enqueue:
  "stays (same updates) (enqueue_outbox_action a :: (database, _, _) op)"
  by (auto simp: stays_def same_def enqueue_outbox_action_def Let_def
      split: option.splits if_splits)

lemma same_updates_audit:
  "stays (same updates) (insert_audit_event e :: (database, _, _) op)"
  by (auto simp: stays_def same_def insert_audit_event_def Let_def
      split: option.splits if_splits)

interpretation same_updates: step_relation "same updates"
  by (rule step_relation_same)

lemma same_updates_promote:
  "stays (same updates) (promote_owner_chat user chat src :: (database, _, _) op)"
proof -
  have "stays (same updates) (set_owner_if p f :: (database, _, _) op)" for p f
    by (auto simp: stays_def same_def set_owner_if_def split: if_splits)
  then show ?thesis
    unfolding promote_owner_chat_def
    by (auto intro!: same_updates.stays_basic same_updates.stays_reads [OF reads_load_owner(2)]
        split: owner_identity.split)
qed

lemma same_updates_upsert:
  "stays (same updates) (upsert_business_connection b :: (database, _, _) op)"
proof (rule staysI)
  fix d :: database and x t
  assume run: "upsert_business_connection b d = Inr (x, t)"
  have retire: "updates (retire_stale_connection c n d) = updates d" for c n
    by (simp add: retire_stale_connection_def set_setting_def delete_connections_def Let_def)
  show "same updates d t"
  proof (cases "find_row (\<lambda>a. bc_owner_user_id a = bc_owner_user_id b
      \<and> bc_connection_id a \<noteq> bc_connection_id b) (connections d)")
    case None
    with run show ?thesis
      by (auto simp: upsert_business_connection_def same_def Let_def split: if_splits)
  next
    case (Some a)
    with run retire show ?thesis
      by (auto simp: upsert_business_connection_def same_def Let_def split: if_splits)
  qed
qed

interpretation log_handler: repository_relation "same updates"
  by (intro repository_relation.intro repository_relation_axioms.intro queue_relation.intro
      queue_relation_axioms.intro step_relation_same
      same_updates_get_or_create same_updates_save same_updates_record same_updates_mark_deleted
      same_updates_create same_updates_close same_updates_close_active same_updates_increment
      same_updates_enqueue same_updates_audit same_updates_upsert same_updates_promote)

interpretation lifecycle: event_applier "lifecycle_apply rfc"
proof
  fix e d x t
  show "lifecycle_apply rfc e d = Inr (x, t) \<Longrightarrow> updates t = updates d"
    using staysD [OF log_handler.stays_lifecycle] by (simp add: same_def)
  show "stays (keeps db_ok) (lifecycle_apply rfc e)"
    by (rule ok_handler.stays_lifecycle)
qed

end
