(* ===== verification/Lifecycle_Effects.thy ===== *)
theory Lifecycle_Effects
  imports Lifecycle_Handler
begin

section \<open>Effects of the lifecycle handler\<close>

text \<open>
  What the handler's methods do to the conversations, seen through two observations of the
  database: the state of each conversation, and whether it has an open challenge. Each method
  is shown to move its own conversation along the transition function and to leave the others
  alone.
\<close>

subsection \<open>Observations\<close>

definition row_of :: "'ev db \<Rightarrow> conversation_key \<Rightarrow> conversation option" where
  "row_of d k = find_row (\<lambda>c. cv_key c = k) (conversations d)"

definition state_of :: "'ev db \<Rightarrow> conversation_key \<Rightarrow> conversation_state option" where
  "state_of d k = map_option cv_state (row_of d k)"

definition open_for :: "'ev db \<Rightarrow> conversation_key \<Rightarrow> bool" where
  "open_for d k \<longleftrightarrow> (\<exists>r \<in> set (challenges d). ch_key r = k \<and> open_challenge r)"

text \<open>The tables behind the observations.\<close>

definition core ::
  "'ev db \<Rightarrow> business_connection_record list \<times> conversation list \<times> challenge_row list" where
  "core d = (connections d, conversations d, challenges d)"

lemma core_obs: "core t = core d \<Longrightarrow> state_of t = state_of d \<and> open_for t = open_for d \<and> row_of t = row_of d"
  by (auto simp: core_def state_of_def row_of_def open_for_def fun_eq_iff)

interpretation queue_core: queue_relation "same core"
proof (intro queue_relation.intro queue_relation_axioms.intro step_relation_same)
  show "stays (same core) (record_message m :: (database, _, _) op)" for m
    by (auto simp: stays_def same_def core_def record_message_def split: if_splits)
  show "stays (same core) (mark_message_deleted k i n :: (database, _, _) op)" for k i n
    by (auto simp: stays_def same_def core_def mark_message_deleted_def Let_def)
  show "stays (same core) (enqueue_outbox_action a :: (database, _, _) op)" for a
    by (auto simp: stays_def same_def core_def enqueue_outbox_action_def Let_def split: if_splits)
  show "stays (same core) (insert_audit_event e :: (database, _, _) op)" for e
    by (auto simp: stays_def same_def core_def insert_audit_event_def Let_def split: if_splits)
qed

lemmas core_frames = queue_core.compound [THEN staysD, unfolded same_def]
  queue_core.stays_trace [THEN staysD, unfolded same_def]

lemma row_of_key: "row_of d k = Some c \<Longrightarrow> c \<in> set (conversations d) \<and> cv_key c = k"
  unfolding row_of_def by (drule find_row_SomeD) simp

lemma row_of_None: "row_of d k = None \<longleftrightarrow> k \<notin> cv_key ` set (conversations d)"
  by (auto simp: row_of_def find_row_None_iff)

lemma open_for_row:
  assumes "db_ok d" and "open_for d k"
  shows "row_of d k \<noteq> None"
  using assms by (auto simp: row_of_None open_for_def ok_defs)

subsection \<open>Effects of the repository functions\<close>

lemma get_or_create_effect:
  assumes "get_or_create_conversation key u now d = Inr (c, t)"
  shows "row_of t key = Some c"
    and "row_of t = (row_of d)(key \<mapsto> c)"
    and "row_of d key = Some c \<or> row_of d key = None \<and> c = new_conversation key u now"
    and "challenges t = challenges d"
proof -
  have cases: "row_of d key = Some c \<and> t = d
    \<or> row_of d key = None \<and> c = new_conversation key u now
       \<and> t = d\<lparr>conversations := conversations d @ [c]\<rparr>"
    using assms
    by (auto simp: get_or_create_conversation_def find_conversation_def insert_conversation_def
        op_success row_of_def split: option.splits if_splits)
  have app: "row_of (d\<lparr>conversations := conversations d @ [c]\<rparr>) k
      = (if row_of d k = None \<and> cv_key c = k then Some c else row_of d k)" for k
  proof -
    have "find_row p (xs @ [c]) = (if find_row p xs = None \<and> p c then Some c else find_row p xs)"
      for p xs
      by (induction xs) (auto simp: find_row_def)
    then show ?thesis by (simp add: row_of_def)
  qed
  show "row_of t = (row_of d)(key \<mapsto> c)"
    using cases app by (auto simp: fun_eq_iff new_conversation_def)
  then show "row_of t key = Some c" by simp
  show "row_of d key = Some c \<or> row_of d key = None \<and> c = new_conversation key u now"
    and "challenges t = challenges d"
    using cases by auto
qed

text \<open>The columns \<open>save_conversation\<close> writes.\<close>

definition saved_row :: "conversation \<Rightarrow> conversation \<Rightarrow> conversation" where
  "saved_row c r = r\<lparr>cv_state := cv_state c, cv_updated_at := cv_updated_at c,
     cv_block_expires_at := cv_block_expires_at c, cv_block_reason := cv_block_reason c,
     cv_block_count := cv_block_count c, cv_state_version := cv_state_version r + 1\<rparr>"

lemma saved_row_simps [simp]:
  "cv_key (saved_row c r) = cv_key r" "cv_state (saved_row c r) = cv_state c"
  "cv_block_expires_at (saved_row c r) = cv_block_expires_at c"
  "cv_state_version (saved_row c r) = cv_state_version r + 1"
  by (simp_all add: saved_row_def)

lemma save_unfold:
  "save_conversation c v d =
     (if count_where (\<lambda>r. cv_key r = cv_key c \<and> cv_state_version r = v) (conversations d) \<noteq> 1
      then Inl ConcurrentModification
      else Inr (c\<lparr>cv_state_version := v + 1\<rparr>,
             d\<lparr>conversations := update_where (\<lambda>r. cv_key r = cv_key c \<and> cv_state_version r = v)
                  (saved_row c) (conversations d)\<rparr>))"
  unfolding save_conversation_def saved_row_def Let_def ..

lemma save_Inr:
  assumes "save_conversation c v d = Inr (c', t)"
  shows "c' = c\<lparr>cv_state_version := v + 1\<rparr>"
    and "t = d\<lparr>conversations := update_where (\<lambda>r. cv_key r = cv_key c \<and> cv_state_version r = v)
           (saved_row c) (conversations d)\<rparr>"
    and "count_where (\<lambda>r. cv_key r = cv_key c \<and> cv_state_version r = v) (conversations d) = 1"
  using assms unfolding save_unfold by (simp_all split: if_split_asm)

lemma save_effect:
  assumes run: "save_conversation c v d = Inr (c', t)" and ok: "db_ok d"
  shows "\<exists>r. row_of d (cv_key c) = Some r \<and> cv_state_version r = v
      \<and> row_of t = (row_of d)(cv_key c \<mapsto> saved_row c r)"
    and "challenges t = challenges d"
proof -
  define here :: "conversation \<Rightarrow> bool" where "here = (\<lambda>r. cv_key r = cv_key c \<and> cv_state_version r = v)"
  note eqs = save_Inr [OF run, folded here_def]
  show "challenges t = challenges d" by (simp add: eqs(2))
  have "\<not> (\<forall>r \<in> set (conversations d). \<not> here r)"
    using eqs(3) by (simp flip: count_where_0_iff)
  then obtain r where r: "r \<in> set (conversations d)" "here r" by blast
  then have key: "cv_key r = cv_key c" "cv_state_version r = v" by (simp_all add: here_def)
  have dist: "distinct (map cv_key (conversations d))"
    using ok by (simp add: db_ok_def conversations_ok_def)
  have row: "row_of d (cv_key c) = Some r"
    unfolding row_of_def by (rule find_row_key [OF dist r(1)]) (simp_all add: key)
  have step: "row_of t k = map_option (\<lambda>r. if here r then saved_row c r else r) (row_of d k)" for k
    unfolding eqs(2) row_of_def by (simp add: find_row_update_where)
  have "row_of t k = ((row_of d)(cv_key c \<mapsto> saved_row c r)) k" for k
  proof (cases "k = cv_key c")
    case True
    then show ?thesis using r(2) by (simp add: step row)
  next
    case False
    then have "\<not> here q" if "row_of d k = Some q" for q
      using row_of_key [OF that] by (simp add: here_def)
    with False show ?thesis by (cases "row_of d k") (simp_all add: step)
  qed
  then have "row_of t = (row_of d)(cv_key c \<mapsto> saved_row c r)" by (rule ext)
  with row key(2) show "\<exists>r. row_of d (cv_key c) = Some r \<and> cv_state_version r = v
      \<and> row_of t = (row_of d)(cv_key c \<mapsto> saved_row c r)" by blast
qed

lemma save_state:
  assumes "save_conversation c v d = Inr (c', t)" and "db_ok d"
  shows "state_of t = (state_of d)(cv_key c \<mapsto> cv_state c)" and "open_for t = open_for d"
    and "cv_state c' = cv_state c"
proof -
  obtain r where "row_of t = (row_of d)(cv_key c \<mapsto> saved_row c r)"
    using save_effect(1) [OF assms] by blast
  then show "state_of t = (state_of d)(cv_key c \<mapsto> cv_state c)"
    by (simp add: state_of_def fun_eq_iff)
  show "open_for t = open_for d"
    using save_effect(2) [OF assms] by (simp add: open_for_def fun_eq_iff)
  show "cv_state c' = cv_state c" using save_Inr(1) [OF assms(1)] by simp
qed

lemma create_effect:
  assumes "create_challenge c d = Inr (i, t)"
  shows "conversations t = conversations d" and "\<not> open_for d (ch_key c)"
    and "open_for t k \<longleftrightarrow> k = ch_key c \<or> open_for d k"
proof -
  have t: "t = d\<lparr>challenges := challenges d @ [challenge_row_of c i], challenge_seq := i\<rparr>"
    and none: "\<not> open_for d (ch_key c)"
    using assms by (auto simp: create_challenge_def Let_def open_for_def split: if_splits)
  have "ch_key (challenge_row_of c i) = ch_key c" "open_challenge (challenge_row_of c i)"
    by (simp_all add: challenge_row_of_def challenge_record.defs open_challenge_def)
  then show "open_for t k \<longleftrightarrow> k = ch_key c \<or> open_for d k" unfolding t open_for_def by auto
  show "conversations t = conversations d" "\<not> open_for d (ch_key c)" by (simp_all add: t none)
qed

lemma closed_close_row: "\<not> open_challenge (close_row now r)"
  by (simp add: open_challenge_def close_row_def)

lemma close_active_effect:
  assumes "close_active_challenge key now d = Inr (b, t)"
  shows "conversations t = conversations d" and "open_for t k \<longleftrightarrow> k \<noteq> key \<and> open_for d k"
proof -
  have t: "t = d\<lparr>challenges := update_where (\<lambda>r. ch_key r = key \<and> open_challenge r)
      (close_row now) (challenges d)\<rparr>"
    using assms by (auto simp: close_active_challenge_def Let_def)
  show "conversations t = conversations d" by (simp add: t)
  show "open_for t k \<longleftrightarrow> k \<noteq> key \<and> open_for d k"
    unfolding t open_for_def by (auto simp: bex_update_where closed_close_row)
qed

text \<open>Challenge \<open>i\<close> is the open challenge of conversation \<open>k\<close>.\<close>

definition current_challenge :: "'ev db \<Rightarrow> conversation_key \<Rightarrow> i64 \<Rightarrow> bool" where
  "current_challenge d k i \<longleftrightarrow>
     (\<exists>r \<in> set (challenges d). ch_id r = i \<and> ch_key r = k \<and> open_challenge r)"

lemma current_unique:
  assumes "db_ok d" and "current_challenge d k i" and "r \<in> set (challenges d)"
    and "open_challenge r"
  shows "ch_key r = k \<longleftrightarrow> ch_id r = i"
proof -
  obtain q where q: "q \<in> set (challenges d)" "ch_id q = i" "ch_key q = k" "open_challenge q"
    using assms(2) by (auto simp: current_challenge_def)
  have "r = q" if "ch_id r = i"
    using assms(1,3) q(1,2) that distinct_key_eq [of ch_id "challenges d" r q]
    by (simp add: ok_defs)
  moreover have "r = q" if "ch_key r = k"
    using assms(1,3,4) q(1,3,4) that
      distinct_key_eq [of ch_key "filter open_challenge (challenges d)" r q]
    by (simp add: ok_defs)
  ultimately show ?thesis using q by auto
qed

lemma close_effect:
  assumes "close_challenge i now d = Inr (b, t)" and "db_ok d" and "current_challenge d key i"
  shows "conversations t = conversations d" and "open_for t k \<longleftrightarrow> k \<noteq> key \<and> open_for d k"
proof -
  have t: "t = d\<lparr>challenges := update_where (\<lambda>r. ch_id r = i \<and> open_challenge r)
      (close_row now) (challenges d)\<rparr>"
    using assms(1) by (auto simp: close_challenge_def Let_def)
  show "conversations t = conversations d" by (simp add: t)
  have "open_for t k \<longleftrightarrow> (\<exists>r \<in> set (challenges d). ch_key r = k \<and> open_challenge r \<and> ch_id r \<noteq> i)"
    unfolding t open_for_def by (auto simp: bex_update_where closed_close_row)
  also have "\<dots> \<longleftrightarrow> k \<noteq> key \<and> open_for d k"
    using current_unique [OF assms(2,3)] by (auto simp: open_for_def)
  finally show "open_for t k \<longleftrightarrow> k \<noteq> key \<and> open_for d k" .
qed

lemma increment_effect:
  assumes "increment_challenge_attempts i d = Inr (n, t)"
  shows "conversations t = conversations d" and "open_for t = open_for d"
    and "current_challenge t = current_challenge d"
proof -
  obtain p where t: "t = d\<lparr>challenges := update_where p
      (\<lambda>r. r\<lparr>ch_attempts_used := ch_attempts_used r + 1\<rparr>) (challenges d)\<rparr>"
    using assms by (auto simp: increment_challenge_attempts_def Let_def split: option.splits)
  show "conversations t = conversations d" by (simp add: t)
  show "open_for t = open_for d" "current_challenge t = current_challenge d"
    unfolding t open_for_def current_challenge_def fun_eq_iff
    by (auto simp: bex_update_where open_challenge_def)
qed


lemma obs_of_rows:
  assumes "conversations t = conversations d"
  shows "state_of t = state_of d" and "row_of t = row_of d"
  using assms by (simp_all add: state_of_def row_of_def fun_eq_iff)

lemma core_frame:
  assumes "core t = core d"
  shows "state_of t = state_of d" and "open_for t = open_for d" and "row_of t = row_of d"
    and "conversations t = conversations d" and "challenges t = challenges d"
  using assms core_obs [OF assms] by (auto simp: core_def)

lemma current_frame: "challenges t = challenges d \<Longrightarrow> current_challenge t = current_challenge d"
  by (simp add: current_challenge_def fun_eq_iff)

text \<open>The effects in the form in which a composed body is evaluated with them.\<close>

definition view :: "'ev db \<Rightarrow> conversation list \<times> (conversation_key \<Rightarrow> bool)" where
  "view d = (conversations d, open_for d)"

lemma view_effects:
  "create_challenge c d = Inr (i, t) \<Longrightarrow> view t = (conversations d, (open_for d)(ch_key c := True))"
  "close_active_challenge key now d = Inr (b, t) \<Longrightarrow>
   view t = (conversations d, (open_for d)(key := False))"
proof -
  show "create_challenge c d = Inr (i, t) \<Longrightarrow> view t = (conversations d, (open_for d)(ch_key c := True))"
    by (simp add: view_def create_effect fun_eq_iff)
  show "close_active_challenge key now d = Inr (b, t) \<Longrightarrow>
      view t = (conversations d, (open_for d)(key := False))"
    by (simp add: view_def close_active_effect fun_eq_iff)
qed

lemma view_close:
  "close_challenge i now d = Inr (b, t) \<Longrightarrow> db_ok d \<Longrightarrow> current_challenge d key i \<Longrightarrow>
   view t = (conversations d, (open_for d)(key := False))"
  by (simp add: view_def close_effect fun_eq_iff)

lemma view_frame:
  assumes "core t = core d"
  shows "view t = view d"
  by (simp add: view_def core_frame(2,4) [OF assms])

lemmas view_frames = core_frames [THEN view_frame]

lemma set_transition_Inr:
  "set_transition c ev now = Inr c' \<longleftrightarrow>
   (\<exists>s. transition (cv_state c) ev = Inr s \<and> c' = c\<lparr>cv_state := s, cv_updated_at := now\<rparr>)"
  by (auto simp: set_transition_def split: sum.splits)

subsection \<open>The abstract machine\<close>

text \<open>
  The transition an inbound outcome asks for, and whether the conversation has an open
  challenge afterwards.
\<close>

fun outcome_event :: "inbound_outcome \<Rightarrow> transition_event option" where
  "outcome_event (StartChallenge _ _ _ _ _ _) = Some SafeFirstInbound"
| "outcome_event Retain = None"
| "outcome_event (OutCorrect _) = Some VerificationSucceeded"
| "outcome_event (OutIncorrect _ exhausted _ block) =
     (if \<not> exhausted then None
      else if block = None then Some ChallengeExpired else Some VerificationExhausted)"
| "outcome_event (OutExpired _) = Some ChallengeExpired"
| "outcome_event OutSpam = Some SpamDetected"

definition after_event ::
  "conversation_state \<Rightarrow> transition_event option \<Rightarrow> conversation_state \<Rightarrow> bool" where
  "after_event s ev s' \<longleftrightarrow> (case ev of None \<Rightarrow> s' = s | Some e \<Rightarrow> transition s e = Inr s')"

definition open_after :: "transition_event option \<Rightarrow> bool \<Rightarrow> bool" where
  "open_after ev open_now =
     (case ev of None \<Rightarrow> open_now | Some e \<Rightarrow>
        (if e = SafeFirstInbound then True
         else if e = AllOwnerRepliesDeleted then open_now else False))"

text \<open>The challenge an outcome answers is the conversation's open one.\<close>

fun outcome_current :: "'ev db \<Rightarrow> conversation_key \<Rightarrow> inbound_outcome \<Rightarrow> bool" where
  "outcome_current d k (OutCorrect i) = current_challenge d k i"
| "outcome_current d k (OutIncorrect i _ _ _) = current_challenge d k i"
| "outcome_current d k (OutExpired i) = current_challenge d k i"
| "outcome_current d k _ = True"

lemma incorrect_shape:
  assumes "apply_incorrect_answer ctx c (OutIncorrect i ex rem bl) d = Inr (c', t)"
  shows "\<exists>n d1. increment_challenge_attempts i d = Inr (n, d1)
    \<and> (if ex then (\<exists>b d2. close_challenge i (ac_now ctx) d1 = Inr (b, d2) \<and> view t = view d2)
           \<and> after_event (cv_state c) (outcome_event (OutIncorrect i ex rem bl)) (cv_state c')
           \<and> cv_key c' = cv_key c \<and> cv_state_version c' = cv_state_version c
       else view t = view d1 \<and> c' = c)"
proof -
  consider "\<not> ex" | x where "ex" "bl = Some x" | "ex" "bl = None" by (cases bl) auto
  then show ?thesis
  proof cases
    case 1
    with assms show ?thesis
      by (auto simp: apply_incorrect_answer_def op_success dest!: view_frames(2))
  next
    case 2
    with assms show ?thesis
      by (simp add: apply_incorrect_answer_def op_success set_transition_Inr after_event_def)
        (auto dest!: view_frames(2))
  next
    case 3
    with assms show ?thesis
      by (simp add: apply_incorrect_answer_def op_success set_transition_Inr after_event_def)
        (auto dest!: view_frames(1,2))
  qed
qed

lemma outcome_effect:
  assumes run: "apply_inbound_outcome rfc ctx c out d = Inr (c', t)" and ok: "db_ok d"
    and cur: "outcome_current d (ac_key ctx) out"
  shows "conversations t = conversations d"
    and "open_for t = (open_for d)(ac_key ctx := open_after (outcome_event out) (open_for d (ac_key ctx)))"
    and "after_event (cv_state c) (outcome_event out) (cv_state c')"
    and "cv_key c' = cv_key c" and "cv_state_version c' = cv_state_version c"
proof -
  have "conversations t = conversations d
    \<and> open_for t = (open_for d)(ac_key ctx := open_after (outcome_event out) (open_for d (ac_key ctx)))
    \<and> after_event (cv_state c) (outcome_event out) (cv_state c')
    \<and> cv_key c' = cv_key c \<and> cv_state_version c' = cv_state_version c"
  proof (cases out)
    case (StartChallenge ex h v cr x m)
    then show ?thesis using run
      by (auto simp: apply_inbound_outcome_def apply_challenge_start_def op_success
          set_transition_Inr after_event_def open_after_def view_def challenge_pending_def
          dest!: view_effects(1) view_frames(1) split: if_splits)
  next
    case Retain
    then show ?thesis using run
      by (auto simp: apply_inbound_outcome_def op_success after_event_def open_after_def)
  next
    case (OutCorrect i)
    then show ?thesis using run cur
      by (auto simp: apply_inbound_outcome_def close_and_edit_def op_success
          set_transition_Inr after_event_def open_after_def view_def
          dest!: view_close [OF _ ok] view_frames(2))
  next
    case (OutIncorrect i ex rem bl)
    obtain n d1 where inc: "increment_challenge_attempts i d = Inr (n, d1)"
      and rest: "if ex then (\<exists>b d2. close_challenge i (ac_now ctx) d1 = Inr (b, d2) \<and> view t = view d2)
           \<and> after_event (cv_state c) (outcome_event out) (cv_state c')
           \<and> cv_key c' = cv_key c \<and> cv_state_version c' = cv_state_version c
         else view t = view d1 \<and> c' = c"
      using incorrect_shape [of ctx c i ex rem bl d c' t] run OutIncorrect
      by (auto simp: apply_inbound_outcome_def)
    have ok1: "db_ok d1"
      using staysD [OF ok_handler.r_increment inc] ok by (simp add: keeps_def)
    have cur1: "current_challenge d1 (ac_key ctx) i"
      using cur OutIncorrect increment_effect(3) [OF inc] by simp
    have view1: "view d1 = view d" using increment_effect [OF inc] by (simp add: view_def)
    show ?thesis
    proof (cases ex)
      case True
      then have "view t = (conversations d1, (open_for d1)(ac_key ctx := False))"
        using rest view_close [OF _ ok1 cur1] by auto
      with True rest view1 OutIncorrect show ?thesis by (simp add: view_def open_after_def)
    next
      case False
      with rest view1 OutIncorrect show ?thesis
        by (simp add: view_def open_after_def after_event_def)
    qed
  next
    case (OutExpired i)
    then show ?thesis using run cur
      by (auto simp: apply_inbound_outcome_def close_and_edit_def op_success
          set_transition_Inr after_event_def open_after_def view_def
          dest!: view_close [OF _ ok] view_frames(2))
  next
    case OutSpam
    then show ?thesis using run
      by (auto simp: apply_inbound_outcome_def apply_spam_def op_success
          set_transition_Inr after_event_def open_after_def view_def eligible_deletion_ids_def
          dest!: view_effects(2) view_frames(3,4))
  qed
  then show "conversations t = conversations d"
    and "open_for t = (open_for d)(ac_key ctx := open_after (outcome_event out) (open_for d (ac_key ctx)))"
    and "after_event (cv_state c) (outcome_event out) (cv_state c')"
    and "cv_key c' = cv_key c" and "cv_state_version c' = cv_state_version c"
    by simp_all
qed

subsection \<open>Effects of the event handlers\<close>

definition opened :: "conversation_state option \<Rightarrow> conversation_state" where
  "opened s = (case s of None \<Rightarrow> New | Some s \<Rightarrow> s)"

text \<open>
  Conversation \<open>k\<close>, created in state \<open>New\<close> if there is none, makes the transition \<open>ev\<close> (none:
  stays in its state) and then has an open challenge or not as \<open>op\<close> says; every other
  conversation keeps its state and its challenge.
\<close>

definition moves ::
  "'ev db \<Rightarrow> 'ev db \<Rightarrow> conversation_key \<Rightarrow> transition_event option \<Rightarrow> bool \<Rightarrow> bool" where
  "moves d t k ev op \<longleftrightarrow>
     (\<exists>s'. after_event (opened (state_of d k)) ev s' \<and> state_of t = (state_of d)(k \<mapsto> s')
         \<and> open_for t = (open_for d)(k := op))"

lemma ok_step: "m d = Inr (x, t) \<Longrightarrow> stays (keeps db_ok) m \<Longrightarrow> db_ok d \<Longrightarrow> db_ok t"
  by (auto simp: stays_def keeps_def)

lemma get_or_create_view:
  assumes "get_or_create_conversation key u now d = Inr (c, t)"
  shows "state_of t = (state_of d)(key \<mapsto> cv_state c)" and "cv_state c = opened (state_of d key)"
    and "cv_key c = key" and "challenges t = challenges d" and "open_for t = open_for d"
proof -
  note eff = get_or_create_effect [OF assms]
  show "state_of t = (state_of d)(key \<mapsto> cv_state c)"
    using eff(2) by (simp add: state_of_def fun_eq_iff)
  show "cv_state c = opened (state_of d key)"
    using eff(3) by (auto simp: opened_def state_of_def new_conversation_def)
  show "cv_key c = key" using row_of_key [OF eff(1)] by simp
  show "challenges t = challenges d" by (rule eff(4))
  then show "open_for t = open_for d" by (simp add: open_for_def fun_eq_iff)
qed

lemma optional_enqueue:
  assumes "(if b then enqueue_action uid key kind p i now else ret ()) d = Inr (x, t)"
  shows "core t = core d" and "db_ok d \<Longrightarrow> db_ok t"
proof -
  have "stays (same core) (if b then enqueue_action uid key kind p i now else ret ())"
    by (intro queue_core.stays_basic queue_core.stays_enqueue_action)
  from staysD [OF this assms] show "core t = core d" by (simp add: same_def)
  have "stays (keeps db_ok) (if b then enqueue_action uid key kind p i now else ret ())"
    by (intro ok.stays_basic ok_handler.stays_enqueue_action)
  from staysD [OF this assms] show "db_ok d \<Longrightarrow> db_ok t" by (simp add: keeps_def)
qed

lemma inbound_shape:
  assumes run: "apply_inbound rfc uid facts det out dry d = Inr (x, t)"
    and key: "facts_key facts = Inr k"
  shows "\<exists>u c d1 d2 d3 c' d4 c'' d5.
    get_or_create_conversation k u (lf_occurred_at facts) d = Inr (c, d1)
    \<and> record_inbound facts k d1 = Inr ((), d2) \<and> core d3 = core d2 \<and> (db_ok d2 \<longrightarrow> db_ok d3)
    \<and> apply_inbound_outcome rfc \<lparr>ac_update_id = uid, ac_facts = facts, ac_key = k\<rparr> c out d3
        = Inr (c', d4)
    \<and> (save_conversation (c'\<lparr>cv_updated_at := lf_occurred_at facts\<rparr>) (cv_state_version c') d4
          = Inr (c'', d5)
       \<or> d5 = d4 \<and> c'' = c' \<and> cv_state c' = cv_state c)
    \<and> core t = core d5"
proof -
  let ?now = "lf_occurred_at facts"
  obtain u c d1 d2 d2a d3 c' d4 c'' d5 where
    1: "get_or_create_conversation k u ?now d = Inr (c, d1)"
      "record_inbound facts k d1 = Inr ((), d2)" and
    2: "(if dry then enqueue_action uid k ProposedDestructiveAction
        (JObj [(''reason'', jstr ''spam''), (''score'', JNum (int (unat (df_score det))))]) 0 ?now
        else ret ()) d2 = Inr ((), d2a)" and
    3: "(if df_error det \<noteq> None then enqueue_action uid k SendOwnerMessage
        (JObj [(''alert'', jstr ''detector_failed'')]) 0 ?now else ret ()) d2a = Inr ((), d3)" and
    4: "apply_inbound_outcome rfc \<lparr>ac_update_id = uid, ac_facts = facts, ac_key = k\<rparr> c out d3
        = Inr (c', d4)" and
    5: "(if cv_state c' \<noteq> cv_state c \<or> cv_updated_at c' \<noteq> ?now
        then st (save_conversation (c'\<lparr>cv_updated_at := ?now\<rparr>) (cv_state_version c'))
        else ret c') d4 = Inr (c'', d5)" and
    6: "insert_detection_audit uid k (cv_state c) (cv_state c'') det ?now d5 = Inr (x, t)"
    using run unfolding apply_inbound_def key and_then_Inr_lift
    by (elim and_then_lift_E and_then_E map_err_E) (rule that; (assumption | simp))
  note opt = optional_enqueue [OF 2] optional_enqueue [OF 3]
  have "save_conversation (c'\<lparr>cv_updated_at := ?now\<rparr>) (cv_state_version c') d4 = Inr (c'', d5)
      \<or> d5 = d4 \<and> c'' = c' \<and> cv_state c' = cv_state c"
    using 5 by (auto simp: op_success split: if_splits)
  with 1 4 opt core_frames(5) [OF 6] show ?thesis by metis
qed

lemma inbound_moves:
  assumes run: "apply_inbound rfc uid facts det out dry d = Inr (x, t)" and ok: "db_ok d"
    and key: "facts_key facts = Inr k" and cur: "outcome_current d k out"
  shows "moves d t k (outcome_event out) (open_after (outcome_event out) (open_for d k))"
proof -
  let ?now = "lf_occurred_at facts"
  obtain u c d1 d2 d3 c' d4 c'' d5 where
    create: "get_or_create_conversation k u ?now d = Inr (c, d1)" and
    inb: "record_inbound facts k d1 = Inr ((), d2)" and
    frame: "core d3 = core d2" and ok32: "db_ok d2 \<Longrightarrow> db_ok d3" and
    outc: "apply_inbound_outcome rfc \<lparr>ac_update_id = uid, ac_facts = facts, ac_key = k\<rparr> c out d3
      = Inr (c', d4)" and
    save: "save_conversation (c'\<lparr>cv_updated_at := ?now\<rparr>) (cv_state_version c') d4 = Inr (c'', d5)
      \<or> d5 = d4 \<and> c'' = c' \<and> cv_state c' = cv_state c" and
    aud: "core t = core d5"
    using inbound_shape [OF run key] by blast
  note cr = get_or_create_view [OF create]
  have core2: "core d2 = core d1" using core_frames(7) [OF inb] .
  have core3: "core d3 = core d1" using core2 frame by simp
  note f3 = core_frame [OF core3]
  have ok1: "db_ok d1" using create ok_handler.r_get_or_create ok by (rule ok_step)
  have ok2: "db_ok d2" using inb ok_handler.stays_record_inbound ok1 by (rule ok_step)
  note ok3 = ok32 [OF ok2]
  have ok4: "db_ok d4" using outc ok_handler.stays_outcome ok3 by (rule ok_step)
  have "current_challenge d3 = current_challenge d"
    using f3(5) cr(4) by (intro current_frame) simp
  then have cur3: "outcome_current d3 k out" using cur by (cases out) auto
  note eff = outcome_effect [OF outc ok3, simplified, OF cur3]
  have s4: "state_of d4 = (state_of d)(k \<mapsto> cv_state c)"
    using obs_of_rows(1) [OF eff(1)] f3(1) cr(1) by simp
  have o4: "open_for d4 = (open_for d)(k := open_after (outcome_event out) (open_for d k))"
    using eff(2) f3(2) cr(5) by simp
  have "state_of d5 = (state_of d4)(k \<mapsto> cv_state c') \<and> open_for d5 = open_for d4"
    using save
  proof
    assume "save_conversation (c'\<lparr>cv_updated_at := ?now\<rparr>) (cv_state_version c') d4 = Inr (c'', d5)"
    from save_state [OF this ok4] show ?thesis using eff(4) cr(3) by simp
  next
    assume "d5 = d4 \<and> c'' = c' \<and> cv_state c' = cv_state c"
    then show ?thesis using s4 by (simp add: fun_eq_iff)
  qed
  then show ?thesis
    unfolding moves_def using s4 o4 eff(3) cr(2) core_frame(1,2) [OF aud]
    by (intro exI [of _ "cv_state c'"]) simp
qed


lemma touch_moves:
  assumes run: "touch_conversation c now d = Inr (x, t)" and ok: "db_ok d"
    and st: "state_of d (cv_key c) = Some (cv_state c)"
  shows "state_of t = state_of d" and "open_for t = open_for d"
proof -
  obtain c' where "save_conversation (c\<lparr>cv_updated_at := now\<rparr>) (cv_state_version c) d = Inr (c', t)"
    using run by (auto simp: touch_conversation_def op_success)
  from save_state [OF this ok] st show "state_of t = state_of d" "open_for t = open_for d"
    by (auto simp: fun_eq_iff)
qed

lemma movesI:
  assumes "after_event (opened (state_of d k)) ev s'" and "state_of t = (state_of d)(k \<mapsto> s')"
    and "open_for t = (open_for d)(k := op)"
  shows "moves d t k ev op"
  using assms by (auto simp: moves_def)

lemma blocked_shape:
  assumes run: "apply_blocked_inbound uid facts d = Inr (x, t) \<or> apply_blocked_fail_open facts d = Inr (x, t)"
    and key: "facts_key facts = Inr k"
  shows "\<exists>u c d1 d2 d3. get_or_create_conversation k u (lf_occurred_at facts) d = Inr (c, d1)
    \<and> record_inbound facts k d1 = Inr ((), d2) \<and> core d3 = core d2 \<and> (db_ok d2 \<longrightarrow> db_ok d3)
    \<and> touch_conversation c (lf_occurred_at facts) d3 = Inr (x, t)"
  using run
proof
  let ?now = "lf_occurred_at facts"
  assume "apply_blocked_fail_open facts d = Inr (x, t)"
  then show ?thesis
    unfolding apply_blocked_fail_open_def key and_then_Inr_lift
    by (elim and_then_lift_E and_then_E map_err_E) (simp, blast)
next
  let ?now = "lf_occurred_at facts"
  assume "apply_blocked_inbound uid facts d = Inr (x, t)"
  then obtain u m c d1 d2 d3 ids d4 d5 where
    s: "get_or_create_conversation k u ?now d = Inr (c, d1)"
      "record_inbound facts k d1 = Inr ((), d2)" and
    q: "enqueue_read uid k m ?now d2 = Inr ((), d3)"
      "eligible_deletion_ids k d3 = Inr (ids, d4)" "enqueue_delete uid k ids ?now d4 = Inr ((), d5)"
    and t: "touch_conversation c ?now d5 = Inr (x, t)"
    unfolding apply_blocked_inbound_def key and_then_Inr_lift
    by (elim and_then_lift_E and_then_E map_err_E) (rule that; (assumption | simp))
  have "d4 = d3" using q(2) by (simp add: eligible_deletion_ids_def op_success)
  then have "core d5 = core d2" "db_ok d2 \<longrightarrow> db_ok d5"
    using q(1,3) core_frames(3,4) ok_step [OF _ ok_handler.stays_read] ok_step [OF _ ok_handler.stays_delete]
    by metis+
  with s t show ?thesis by blast
qed

lemma blocked_moves:
  assumes run: "apply_blocked_inbound uid facts d = Inr (x, t) \<or> apply_blocked_fail_open facts d = Inr (x, t)"
    and ok: "db_ok d" and key: "facts_key facts = Inr k"
  shows "moves d t k None (open_for d k)"
proof -
  let ?now = "lf_occurred_at facts"
  obtain u c d1 d2 d3 where create: "get_or_create_conversation k u ?now d = Inr (c, d1)"
    and inb: "record_inbound facts k d1 = Inr ((), d2)" and fr: "core d3 = core d2"
    and ok3: "db_ok d2 \<Longrightarrow> db_ok d3" and touch: "touch_conversation c ?now d3 = Inr (x, t)"
    using blocked_shape [OF run key] by blast
  note cr = get_or_create_view [OF create]
  have ok1: "db_ok d1" using create ok_handler.r_get_or_create ok by (rule ok_step)
  have ok2: "db_ok d2" using inb ok_handler.stays_record_inbound ok1 by (rule ok_step)
  have core3: "core d3 = core d1" using core_frames(7) [OF inb] fr by simp
  have "state_of d3 (cv_key c) = Some (cv_state c)"
    using core_frame(1) [OF core3] cr(1,3) by simp
  note tm = touch_moves [OF touch ok3 [OF ok2] this]
  show ?thesis
    by (rule movesI [where s' = "cv_state c"])
      (simp_all add: tm core_frame [OF core3] cr after_event_def)
qed

lemma owner_shape:
  assumes run: "apply_manual_owner facts d = Inr (x, t)" and key: "facts_key facts = Inr k"
  shows "\<exists>u c d1 m b d2 b' d3 c' c''.
    get_or_create_conversation k u (lf_occurred_at facts) d = Inr (c, d1)
    \<and> record_message (ledger_message_new k m Outbound Owner True (lf_occurred_at facts)) d1
        = Inr (b, d2)
    \<and> close_active_challenge k (lf_occurred_at facts) d2 = Inr (b', d3)
    \<and> (if cv_state c \<noteq> Active
        then lift_result (set_transition c
          (if cv_state c = SpamSoftBlocked then OwnerInitiatedMessage else ManualOwnerReply)
          (lf_occurred_at facts)) else ret c) d3 = Inr (c', d3)
    \<and> save_conversation (c'\<lparr>cv_block_expires_at := None, cv_block_reason := None,
          cv_updated_at := lf_occurred_at facts\<rparr>) (cv_state_version c') d3 = Inr (c'', t)"
proof -
  let ?now = "lf_occurred_at facts"
  let ?m = "\<lambda>c. if cv_state c \<noteq> Active
    then lift_result (set_transition c
      (if cv_state c = SpamSoftBlocked then OwnerInitiatedMessage else ManualOwnerReply) ?now)
    else ret c"
  obtain u c d1 m b d2 b' d3 c' d4 c'' d5 where
    1: "get_or_create_conversation k u ?now d = Inr (c, d1)"
      "record_message (ledger_message_new k m Outbound Owner True ?now) d1 = Inr (b, d2)"
      "close_active_challenge k ?now d2 = Inr (b', d3)" and
    2: "?m c d3 = Inr (c', d4)" and
    3: "save_conversation (c'\<lparr>cv_block_expires_at := None, cv_block_reason := None,
        cv_updated_at := ?now\<rparr>) (cv_state_version c') d4 = Inr (c'', d5)" and
    4: "(ret () :: unit eop) d5 = Inr (x, t)"
    using run unfolding apply_manual_owner_def key and_then_Inr_lift
    by (elim and_then_lift_E and_then_E map_err_E) (rule that; (assumption | simp))
  have "d4 = d3" using 2 by (simp add: op_success split: if_splits)
  moreover have "d5 = t" using 4 by (simp add: ret_def)
  ultimately show ?thesis using 1 2 3 by blast
qed

lemma owner_moves:
  assumes run: "apply_manual_owner facts d = Inr (x, t)" and ok: "db_ok d"
    and key: "facts_key facts = Inr k"
  shows "moves d t k
    (let s = opened (state_of d k)
     in if s = Active then None
        else if s = SpamSoftBlocked then Some OwnerInitiatedMessage else Some ManualOwnerReply) False"
proof -
  let ?now = "lf_occurred_at facts"
  let ?ev = "\<lambda>s. if s = SpamSoftBlocked then OwnerInitiatedMessage else ManualOwnerReply"
  obtain u c d1 m b d2 b' d3 c' c'' where
    create: "get_or_create_conversation k u ?now d = Inr (c, d1)" and
    rec: "record_message (ledger_message_new k m Outbound Owner True ?now) d1 = Inr (b, d2)" and
    close: "close_active_challenge k ?now d2 = Inr (b', d3)" and
    set: "(if cv_state c \<noteq> Active
          then lift_result (set_transition c (?ev (cv_state c)) ?now) else ret c) d3 = Inr (c', d3)" and
    save: "save_conversation (c'\<lparr>cv_block_expires_at := None, cv_block_reason := None,
          cv_updated_at := ?now\<rparr>) (cv_state_version c') d3 = Inr (c'', t)"
    using owner_shape [OF run key] by blast
  note cr = get_or_create_view [OF create]
  have ok1: "db_ok d1" using create ok_handler.r_get_or_create ok by (rule ok_step)
  have ok2: "db_ok d2" using rec ok_handler.r_record ok1 by (rule ok_step)
  have ok3: "db_ok d3" using close ok_handler.r_close_active ok2 by (rule ok_step)
  have core2: "core d2 = core d1" using staysD [OF queue_core.r_record rec] by (simp add: same_def)
  have v3: "view d3 = (conversations d2, (open_for d2)(k := False))"
    using view_effects(2) [OF close] .
  have c': "cv_key c' = k \<and> (if cv_state c = Active then cv_state c' = Active
      else transition (cv_state c) (?ev (cv_state c)) = Inr (cv_state c'))"
    using set cr(3) by (auto simp: op_success set_transition_Inr split: if_splits)
  have s3: "state_of d3 = (state_of d)(k \<mapsto> cv_state c)"
    using v3 obs_of_rows(1) [of d3 d2] core_frame(1) [OF core2] cr(1) by (simp add: view_def)
  have o3: "open_for d3 = (open_for d)(k := False)"
    using v3 core_frame(2) [OF core2] cr(5) by (simp add: view_def)
  note sv = save_state [OF save ok3]
  show ?thesis
    by (rule movesI [where s' = "cv_state c'"])
      (use c' in \<open>simp_all add: sv s3 o3 cr(2) [symmetric] after_event_def Let_def split: if_splits\<close>)
qed


text \<open>An owner reply in the conversation that is not deleted, and is not one of \<open>ids\<close>.\<close>

definition replies_left :: "'ev db \<Rightarrow> conversation_key \<Rightarrow> i64 list \<Rightarrow> bool" where
  "replies_left d k ids \<longleftrightarrow>
     (\<exists>m \<in> set (ledger d). lm_key m = k \<and> lm_manual_owner_reply m \<and> lm_deleted_at m = None
        \<and> lm_message_id m \<notin> set ids)"

lemma mark_deleted_effect:
  assumes "mark_message_deleted k i now d = Inr (b, t)"
  shows "core t = core d" and "replies_left t k ids \<longleftrightarrow> replies_left d k (i # ids)"
proof -
  define here :: "ledger_row \<Rightarrow> bool"
    where "here = (\<lambda>r. lm_key r = k \<and> lm_message_id r = i \<and> lm_deleted_at r = None)"
  have t: "t = d\<lparr>ledger := update_where here (\<lambda>r. r\<lparr>lm_deleted_at := Some now\<rparr>) (ledger d)\<rparr>"
    using assms by (simp add: mark_message_deleted_def here_def Let_def)
  show "core t = core d" by (simp add: t core_def)
  show "replies_left t k ids \<longleftrightarrow> replies_left d k (i # ids)"
    unfolding t replies_left_def by (auto simp: bex_update_where here_def)
qed

lemma mark_all_effect:
  assumes "for_each (\<lambda>i. and_then (st (mark_message_deleted k i now)) (\<lambda>_. ret ())) ids d = Inr (x, t)"
  shows "core t = core d \<and> (replies_left t k later \<longleftrightarrow> replies_left d k (ids @ later))"
  using assms
proof (induction ids arbitrary: d)
  case Nil
  then show ?case by (simp add: ret_def)
next
  case (Cons i ids)
  then obtain b d1 where m: "mark_message_deleted k i now d = Inr (b, d1)"
    and rest: "for_each (\<lambda>i. and_then (st (mark_message_deleted k i now)) (\<lambda>_. ret ())) ids d1
      = Inr (x, t)"
    by (auto simp: op_success)
  show ?case
    using Cons.IH [OF rest] mark_deleted_effect(1) [OF m]
      mark_deleted_effect(2) [OF m, where ids = "ids @ later"] by simp
qed

lemma owner_replies_empty:
  "active_owner_reply_ids k d = Inr (ids, t) \<Longrightarrow> t = d \<and> (ids = [] \<longleftrightarrow> \<not> replies_left d k [])"
  unfolding active_owner_reply_ids_def gets_Inr_iff replies_left_def
  by (auto simp: filter_empty_conv simp flip: set_empty)

lemma deletion_moves:
  assumes run: "apply_deletions facts ids d = Inr (x, t)" and ok: "db_ok d"
    and key: "facts_key facts = Inr k"
  shows "moves d t k
    (if opened (state_of d k) = Active \<and> \<not> replies_left d k ids then Some AllOwnerRepliesDeleted
     else None) (open_for d k)"
proof -
  let ?now = "lf_occurred_at facts"
  let ?loop = "for_each (\<lambda>i. and_then (st (mark_message_deleted k i ?now)) (\<lambda>_. ret ())) ids"
  obtain u c d1 d2 where
    create: "get_or_create_conversation k u ?now d = Inr (c, d1)" and
    loop: "?loop d1 = Inr ((), d2)" and
    rest: "(if cv_state c = Active
       then
         and_then (st (active_owner_reply_ids k)) (\<lambda>replies.
           if replies = []
           then
             and_then (lift_result (set_transition c AllOwnerRepliesDeleted ?now)) (\<lambda>c.
             and_then (st (save_conversation c (cv_state_version c))) (\<lambda>_. ret ()))
           else ret ())
       else ret ()) d2 = Inr (x, t)"
    using run unfolding apply_deletions_def key and_then_Inr_lift
    by (elim and_then_lift_E and_then_E map_err_E) (rule that; (assumption | simp))
  note cr = get_or_create_view [OF create]
  have ok1: "db_ok d1" using create ok_handler.r_get_or_create ok by (rule ok_step)
  have "stays (keeps db_ok) ?loop" by (intro ok.stays_basic ok_handler.r_mark_deleted)
  with loop have ok2: "db_ok d2" using ok1 by (rule ok_step)
  note lp = mark_all_effect [OF loop, where later = "[]", simplified]
  note f2 = core_frame [OF conjunct1 [OF lp]]
  have "ledger d1 = ledger d"
    using create by (auto simp: get_or_create_conversation_def find_conversation_def
        insert_conversation_def op_success split: option.splits if_splits)
  then have replies: "replies_left d2 k [] \<longleftrightarrow> replies_left d k ids"
    using lp by (simp add: replies_left_def)
  have s2: "state_of d2 = (state_of d)(k \<mapsto> cv_state c)" and o2: "open_for d2 = open_for d"
    using f2(1,2) cr(1,5) by simp_all
  show ?thesis
  proof (cases "cv_state c = Active \<and> \<not> replies_left d k ids")
    case True
    then obtain c' c'' where set: "set_transition c AllOwnerRepliesDeleted ?now = Inr c'"
      and save: "save_conversation c' (cv_state_version c') d2 = Inr (c'', t)"
      using rest replies by (auto simp: op_success dest!: owner_replies_empty split: if_splits)
    have c': "cv_key c' = k" "transition (cv_state c) AllOwnerRepliesDeleted = Inr (cv_state c')"
      using set cr(3) by (auto simp: set_transition_Inr)
    note sv = save_state [OF save ok2]
    show ?thesis
      by (rule movesI [where s' = "cv_state c'"])
        (use True c' in \<open>simp_all add: sv s2 o2 cr(2) [symmetric] after_event_def\<close>)
  next
    case False
    then have "t = d2"
      using rest replies by (auto simp: op_success dest!: owner_replies_empty split: if_splits)
    then show ?thesis
      by (intro movesI [where s' = "cv_state c"])
        (use False in \<open>auto simp: s2 o2 cr(2) [symmetric] after_event_def\<close>)
  qed
qed

lemma bot_moves:
  assumes run: "apply_bot_message facts sender d = Inr (x, t)" and key: "facts_key facts = Inr k"
  shows "moves d t k None (open_for d k)"
proof -
  obtain u c d1 m b d2 where create: "get_or_create_conversation k u (lf_occurred_at facts) d = Inr (c, d1)"
    and rec: "record_message m d1 = Inr (b, d2)" and t: "(ret () :: unit eop) d2 = Inr (x, t)"
    using run unfolding apply_bot_message_def key and_then_Inr_lift
    by (elim and_then_lift_E and_then_E map_err_E) (rule that; (assumption | simp))
  note cr = get_or_create_view [OF create]
  have "core d2 = core d1" using staysD [OF queue_core.r_record rec] by (simp add: same_def)
  moreover have "d2 = t" using t by (simp add: ret_def)
  ultimately have c: "core t = core d1" by simp
  show ?thesis
    by (rule movesI [where s' = "cv_state c"])
      (simp_all add: core_frame [OF c] cr after_event_def)
qed

end
