(* ===== verification/Lifecycle_Correctness.thy ===== *)
theory Lifecycle_Correctness
  imports Lifecycle_Effects
begin

section \<open>Correctness of event application\<close>

text \<open>
  The application of an event as an abstract machine on the observations of
  \<open>Lifecycle_Effects\<close>, the invariant that a conversation awaits verification exactly when it
  has an open challenge, and the properties of the event log driven by the lifecycle handler.
\<close>

subsection \<open>Application of an event\<close>

text \<open>The transition an action asks of its conversation, and the challenge it leaves.\<close>

fun action_event ::
  "'ev db \<Rightarrow> conversation_key \<Rightarrow> prepared_action \<Rightarrow> transition_event option" where
  "action_event d k (InboundAction _ out _) = outcome_event out"
| "action_event d k ManualOwner =
     (let s = opened (state_of d k)
      in if s = Active then None
         else if s = SpamSoftBlocked then Some OwnerInitiatedMessage else Some ManualOwnerReply)"
| "action_event d k (MessagesDeleted ids) =
     (if opened (state_of d k) = Active \<and> \<not> replies_left d k ids
      then Some AllOwnerRepliesDeleted else None)"
| "action_event d k _ = None"

fun action_opens :: "'ev db \<Rightarrow> conversation_key \<Rightarrow> prepared_action \<Rightarrow> bool" where
  "action_opens d k (InboundAction _ out _) = open_after (outcome_event out) (open_for d k)"
| "action_opens d k ManualOwner = False"
| "action_opens d k _ = open_for d k"

fun action_current :: "'ev db \<Rightarrow> conversation_key \<Rightarrow> prepared_action \<Rightarrow> bool" where
  "action_current d k (InboundAction _ out _) = outcome_current d k out"
| "action_current d k _ = True"

fun conversation_action :: "prepared_action \<Rightarrow> bool" where
  "conversation_action (ConnectionChanged _ _ _ _) = False"
| "conversation_action ActiveInbound = False"
| "conversation_action Ignore = False"
| "conversation_action _ = True"

lemma apply_shape:
  assumes "lifecycle_apply rfc e d = Inr (x, t)"
  shows "\<exists>d1. apply_action rfc e d = Inr ((), d1) \<and> core t = core d1"
proof -
  obtain d1 where 1: "apply_action rfc e d = Inr ((), d1)"
    and 2: "enqueue_dry_run_trace e d1 = Inr (x, t)"
    using assms by (auto simp: lifecycle_apply_def op_success)
  show ?thesis using 1 core_frames(8) [OF 2] by blast
qed

lemma moves_core: "moves d t k ev op \<Longrightarrow> core u = core t \<Longrightarrow> moves d u k ev op"
  using core_frame(1,2) [of u t] by (simp add: moves_def)

lemma action_moves:
  assumes run: "apply_action rfc e d = Inr (x, t)" and ok: "db_ok d"
    and key: "facts_key (pe_facts e) = Inr k" and act: "lf_action (pe_facts e) = a"
    and conv: "conversation_action a" and cur: "action_current d k a"
  shows "moves d t k (action_event d k a) (action_opens d k a)"
proof (cases a)
  case (InboundAction det out dry)
  with run act have "apply_inbound rfc (pe_update_id e) (pe_facts e) det out dry d = Inr (x, t)"
    by (simp add: apply_action_def)
  from inbound_moves [OF this ok key] cur InboundAction show ?thesis by simp
next
  case BlockedInbound
  with run act have "apply_blocked_inbound (pe_update_id e) (pe_facts e) d = Inr (x, t)"
    by (simp add: apply_action_def)
  from blocked_moves [OF disjI1 [OF this] ok key] BlockedInbound show ?thesis by simp
next
  case BlockedFailOpen
  with run act have "apply_blocked_fail_open (pe_facts e) d = Inr (x, t)"
    by (simp add: apply_action_def)
  from blocked_moves [OF disjI2 [OF this] ok key] BlockedFailOpen show ?thesis by simp
next
  case ManualOwner
  with run act have "apply_manual_owner (pe_facts e) d = Inr (x, t)"
    by (simp add: apply_action_def)
  from owner_moves [OF this ok key] ManualOwner show ?thesis by simp
next
  case (BotMessage s)
  with run act have "apply_bot_message (pe_facts e) s d = Inr (x, t)"
    by (simp add: apply_action_def)
  from bot_moves [OF this key] BotMessage show ?thesis by simp
next
  case (MessagesDeleted ids)
  with run act have "apply_deletions (pe_facts e) ids d = Inr (x, t)"
    by (simp add: apply_action_def)
  from deletion_moves [OF this ok key] MessagesDeleted show ?thesis by simp
qed (use conv in simp_all)

lemma conversation_key_present:
  assumes "apply_action rfc e d = Inr (x, t)" and "conversation_action (lf_action (pe_facts e))"
  shows "\<exists>k. facts_key (pe_facts e) = Inr k"
  using assms
  by (cases "lf_action (pe_facts e)")
    (auto simp: apply_action_def Let_def apply_inbound_def apply_blocked_inbound_def
      apply_blocked_fail_open_def apply_manual_owner_def apply_bot_message_def apply_deletions_def
      elim!: and_then_lift_E)

subsection \<open>Verification and open challenges\<close>

definition verify_sound :: "'ev db \<Rightarrow> bool" where
  "verify_sound d \<longleftrightarrow> (\<forall>k s. state_of d k = Some s \<longrightarrow> (s = VerifyPending \<longleftrightarrow> open_for d k))"

lemma opened_pending:
  assumes "db_ok d" and "verify_sound d"
  shows "opened (state_of d k) = VerifyPending \<longleftrightarrow> open_for d k"
proof (cases "state_of d k")
  case None
  then have "row_of d k = None" by (simp add: state_of_def)
  then have "\<not> open_for d k" using open_for_row [OF assms(1)] by blast
  with None show ?thesis by (simp add: opened_def)
next
  case (Some s)
  then show ?thesis using assms(2) by (simp add: opened_def verify_sound_def)
qed

lemma transition_pending:
  assumes "transition s e = Inr s'" and "s = VerifyPending \<longleftrightarrow> op"
  shows "s' = VerifyPending \<longleftrightarrow> open_after (Some e) op"
  using assms by (cases s; cases e) (auto simp: open_after_def)

lemma moves_sound:
  assumes mv: "moves d t k ev op" and ok: "db_ok d" and vs: "verify_sound d"
    and op: "op = open_after ev (open_for d k)
      \<or> \<not> op \<and> (case ev of None \<Rightarrow> opened (state_of d k) = Active | Some e \<Rightarrow> e \<noteq> SafeFirstInbound)"
  shows "verify_sound t"
proof -
  obtain s' where s': "after_event (opened (state_of d k)) ev s'"
    and st: "state_of t = (state_of d)(k \<mapsto> s')" and opn: "open_for t = (open_for d)(k := op)"
    using mv by (auto simp: moves_def)
  have "s' = VerifyPending \<longleftrightarrow> op"
  proof (cases ev)
    case None
    then show ?thesis using s' op opened_pending [OF ok vs, of k]
      by (auto simp: after_event_def open_after_def)
  next
    case (Some e)
    then have tr: "transition (opened (state_of d k)) e = Inr s'" using s' by (simp add: after_event_def)
    show ?thesis
      using op Some transition_pending [OF tr opened_pending [OF ok vs]]
        transition_to_VerifyPending [of "opened (state_of d k)" e] tr
      by auto
  qed
  with vs show ?thesis unfolding verify_sound_def st opn by simp
qed

lemma action_sound:
  assumes "apply_action rfc e d = Inr (x, t)" and "db_ok d" and "verify_sound d"
    and "facts_key (pe_facts e) = Inr k" and "lf_action (pe_facts e) = a"
    and "conversation_action a" and "action_current d k a"
  shows "verify_sound t"
proof (rule moves_sound [OF action_moves [OF assms(1,2,4-7)] assms(2,3)])
  show "action_opens d k a = open_after (action_event d k a) (open_for d k)
      \<or> \<not> action_opens d k a \<and> (case action_event d k a of None \<Rightarrow> opened (state_of d k) = Active
         | Some e \<Rightarrow> e \<noteq> SafeFirstInbound)"
    by (cases a) (simp_all add: open_after_def Let_def)
qed


text \<open>A change of the trusted connection removes the conversations of the one it replaces.\<close>

definition cascades :: "'ev db \<Rightarrow> 'ev db \<Rightarrow> bool" where
  "cascades d t \<longleftrightarrow> core t = core d
     \<or> (\<exists>gone. conversations t = delete_where (\<lambda>c. gone (cv_key c)) (conversations d)
           \<and> challenges t = delete_where (\<lambda>c. gone (ch_key c)) (challenges d))"

lemma cascades_state:
  assumes "cascades d t"
  shows "\<exists>gone. \<forall>k. state_of t k = (if gone k then None else state_of d k)
    \<and> (open_for t k \<longleftrightarrow> \<not> gone k \<and> open_for d k)"
  using assms unfolding cascades_def
proof
  assume "core t = core d"
  then show ?thesis using core_frame(1,2) [of t d] by (intro exI [of _ "\<lambda>_. False"]) simp
next
  assume "\<exists>gone. conversations t = delete_where (\<lambda>c. gone (cv_key c)) (conversations d)
    \<and> challenges t = delete_where (\<lambda>c. gone (ch_key c)) (challenges d)"
  then obtain gone where t: "conversations t = delete_where (\<lambda>c. gone (cv_key c)) (conversations d)"
    "challenges t = delete_where (\<lambda>c. gone (ch_key c)) (challenges d)" by blast
  have "state_of t k = (if gone k then None else state_of d k)" for k
  proof (cases "gone k")
    case True
    then have "k \<notin> cv_key ` set (conversations t)" by (auto simp: t(1))
    with True show ?thesis by (simp add: state_of_def row_of_None)
  next
    case False
    then have "find_row (\<lambda>c. cv_key c = k) (delete_where (\<lambda>c. gone (cv_key c)) (conversations d))
        = find_row (\<lambda>c. cv_key c = k) (conversations d)"
      by (intro find_row_delete_where) auto
    with False show ?thesis by (simp add: state_of_def row_of_def t(1))
  qed
  moreover have "open_for t k \<longleftrightarrow> \<not> gone k \<and> open_for d k" for k
    by (auto simp: open_for_def t(2))
  ultimately show ?thesis by blast
qed

lemma cascades_sound:
  assumes "cascades d t" and "verify_sound d"
  shows "verify_sound t"
proof -
  obtain gone where "\<forall>k. state_of t k = (if gone k then None else state_of d k)
    \<and> (open_for t k \<longleftrightarrow> \<not> gone k \<and> open_for d k)" using cascades_state [OF assms(1)] by blast
  with assms(2) show ?thesis by (simp add: verify_sound_def)
qed

lemma upsert_cascades: "stays cascades (upsert_business_connection b :: (database, _, _) op)"
proof (rule staysI)
  fix d :: database and x t
  assume run: "upsert_business_connection b d = Inr (x, t)"
  define d1 where "d1 = (case find_row (\<lambda>a. bc_owner_user_id a = bc_owner_user_id b
      \<and> bc_connection_id a \<noteq> bc_connection_id b) (connections d) of
    None \<Rightarrow> d | Some a \<Rightarrow> retire_stale_connection (bc_connection_id a) (bc_updated_at b) d)"
  have "conversations t = conversations d1 \<and> challenges t = challenges d1"
    using run unfolding upsert_business_connection_def Let_def d1_def [symmetric]
    by (auto split: if_splits)
  moreover have "\<exists>gone. conversations d1 = delete_where (\<lambda>c. gone (cv_key c)) (conversations d)
      \<and> challenges d1 = delete_where (\<lambda>c. gone (ch_key c)) (challenges d)"
  proof (cases "find_row (\<lambda>a. bc_owner_user_id a = bc_owner_user_id b
      \<and> bc_connection_id a \<noteq> bc_connection_id b) (connections d)")
    case None
    then show ?thesis
      by (intro exI [of _ "\<lambda>_. False"]) (simp add: d1_def delete_where_def)
  next
    case (Some a)
    then show ?thesis
      by (intro exI [of _ "\<lambda>k. \<exists>b \<in> set (connections d). bc_connection_id b = bc_connection_id a
          \<and> bc_connection_id b = connection_id k"])
        (simp add: d1_def retire_stale_connection_def set_setting_def delete_connections_def Let_def)
  qed
  ultimately show "cascades d t" by (auto simp: cascades_def)
qed

interpretation sound: step_relation "keeps verify_sound"
  by (rule step_relation_keeps)

lemma sound_if_core: "stays (same core) m \<Longrightarrow> stays (keeps verify_sound) m"
proof (rule staysI)
  fix d x t
  assume "stays (same core) m" and "m d = Inr (x, t)"
  then have "core t = core d" by (simp add: stays_def same_def)
  then show "keeps verify_sound d t"
    using core_frame(1,2) [of t d] by (simp add: keeps_def verify_sound_def)
qed

lemma sound_upsert: "stays (keeps verify_sound) (upsert_business_connection b :: (database, _, _) op)"
  using upsert_cascades cascades_sound unfolding stays_def keeps_def by blast

lemma core_promote: "stays (same core) (promote_owner_chat user chat src :: (database, _, _) op)"
proof -
  have "stays (same core) (set_owner_if p f :: (database, _, _) op)" for p f
    by (auto simp: stays_def same_def core_def set_owner_if_def split: if_splits)
  then show ?thesis
    unfolding promote_owner_chat_def
    by (auto intro!: queue_core.stays_basic queue_core.stays_reads [OF reads_load_owner(2)]
        split: owner_identity.split)
qed

lemma connection_sound: "stays (keeps verify_sound) (apply_connection_change uid cid u h en r now)"
  unfolding apply_connection_change_def Let_def
  by (auto intro!: sound.stays_basic sound_upsert sound_if_core [OF core_promote]
      sound_if_core [OF queue_core.stays_audits(2)] sound.stays_reads [OF reads_load_owner(1)]
      split: owner_row.split owner_identity.split)

text \<open>Conversations disappear or keep their state.\<close>

definition drops :: "'ev db \<Rightarrow> 'ev db \<Rightarrow> bool" where
  "drops d t \<longleftrightarrow> (\<forall>k s. state_of t k = Some s \<longrightarrow> state_of d k = Some s)"

interpretation drops: step_relation drops
  by unfold_locales (auto simp: drops_def)

lemma drops_if_core: "stays (same core) m \<Longrightarrow> stays drops m"
  using core_frame(1) unfolding stays_def same_def drops_def by metis

lemma connection_drops: "stays drops (apply_connection_change uid cid u h en r now)"
proof -
  have "stays drops (upsert_business_connection b :: (database, _, _) op)" for b
  proof (rule staysI)
    fix d :: database and x t
    assume "upsert_business_connection b d = Inr (x, t)"
    then obtain gone where "\<forall>k. state_of t k = (if gone k then None else state_of d k)"
      using cascades_state [OF staysD [OF upsert_cascades]] by blast
    then show "drops d t" by (simp add: drops_def)
  qed
  then show ?thesis
    unfolding apply_connection_change_def Let_def
    by (auto intro!: drops.stays_basic drops_if_core [OF core_promote]
        drops_if_core [OF queue_core.stays_audits(2)] drops.stays_reads [OF reads_load_owner(1)]
        split: owner_row.split owner_identity.split)
qed

lemma verify_sound_step:
  assumes run: "lifecycle_apply rfc e d = Inr (x, t)" and ok: "db_ok d" and vs: "verify_sound d"
    and cur: "\<And>k. facts_key (pe_facts e) = Inr k \<Longrightarrow> action_current d k (lf_action (pe_facts e))"
  shows "verify_sound t"
proof -
  obtain d1 where act: "apply_action rfc e d = Inr ((), d1)" and core: "core t = core d1"
    using apply_shape [OF run] by blast
  have "verify_sound d1"
  proof (cases "conversation_action (lf_action (pe_facts e))")
    case True
    then obtain k where k: "facts_key (pe_facts e) = Inr k"
      using conversation_key_present [OF act] by blast
    show ?thesis by (rule action_sound [OF act ok vs k refl True cur [OF k]])
  next
    case False
    then consider u h en r where "lf_action (pe_facts e) = ConnectionChanged u h en r" | "d1 = d"
      using act by (cases "lf_action (pe_facts e)") (auto simp: apply_action_def ret_def)
    then show ?thesis
    proof cases
      case 1
      then obtain cid where
        "apply_connection_change (pe_update_id e) cid u h en r (lf_occurred_at (pe_facts e)) d
         = Inr ((), d1)"
        using act by (auto simp: apply_action_def Let_def elim!: and_then_lift_E)
      from staysD [OF connection_sound this] vs show ?thesis by (simp add: keeps_def)
    qed (use vs in simp)
  qed
  then show ?thesis using core_frame(1,2) [OF core] by (simp add: verify_sound_def)
qed


lemma not_conversation_keeps:
  assumes act: "apply_action rfc e d = Inr ((), t)"
    and "\<not> conversation_action (lf_action (pe_facts e))" and "state_of t k = Some s"
  shows "state_of d k = Some s"
proof -
  consider u h en r where "lf_action (pe_facts e) = ConnectionChanged u h en r" | "t = d"
    using assms by (cases "lf_action (pe_facts e)") (auto simp: apply_action_def ret_def)
  then show ?thesis
  proof cases
    case 1
    then obtain cid where
      run: "apply_connection_change (pe_update_id e) cid u h en r (lf_occurred_at (pe_facts e)) d
       = Inr ((), t)"
      using act by (auto simp: apply_action_def Let_def elim!: and_then_lift_E)
    from staysD [OF connection_drops run] assms(3) show ?thesis by (simp add: drops_def)
  qed (use assms in simp)
qed

lemma provenance_of_event:
  assumes "after_event s0 (action_event d k a) s" and "s0 \<noteq> s"
  shows "(s = SpamSoftBlocked \<longrightarrow> (\<exists>det dry. a = InboundAction det OutSpam dry))
    \<and> (s = TempSoftBlocked \<longrightarrow> (\<exists>det i rem expiry dry.
         a = InboundAction det (OutIncorrect i True rem (Some expiry)) dry))
    \<and> (s = Active \<longrightarrow> a = ManualOwner)
    \<and> (s = VerifiedWaitingOwner \<longrightarrow> (\<exists>det i dry. a = InboundAction det (OutCorrect i) dry))
    \<and> (s = VerifyPending \<longrightarrow> (\<exists>det ex h v c x m dry.
         a = InboundAction det (StartChallenge ex h v c x m) dry))"
proof -
  obtain ev where ev: "action_event d k a = Some ev" "transition s0 ev = Inr s"
    using assms by (auto simp: after_event_def split: option.splits)
  then show ?thesis
  proof (cases a)
    case (InboundAction det out dry)
    with ev show ?thesis by (cases out; cases s0) (auto split: if_splits option.splits)
  next
    case ManualOwner
    with ev show ?thesis by (cases s0) (auto simp: Let_def split: if_splits)
  next
    case (MessagesDeleted ids)
    with ev show ?thesis by (cases s0) (auto split: if_splits)
  qed simp_all
qed

subsection \<open>A small database\<close>

text \<open>One trusted connection, one conversation that awaits verification, its open challenge.\<close>

definition sample_key :: conversation_key where
  "sample_key = \<lparr>connection_id = ''bc'', chat_id = 7\<rparr>"

definition sample_event_with :: "i64 \<Rightarrow> timestamp \<Rightarrow> prepared_action \<Rightarrow> prepared_event" where
  "sample_event_with uid now action =
     \<lparr>pe_update_id = uid, pe_event_type = ''business_message'', pe_occurred_at = now,
      pe_facts =
        \<lparr>lf_connection_id = Some ''bc'', lf_chat_id = Some 7, lf_user_id = Some 7,
         lf_message_id = Some 70, lf_media_group_id = None, lf_contact_display_name = None,
         lf_contact_username = None, lf_owner_user_id = Some 1, lf_owner_chat_id = Some 1,
         lf_event_kind = ''inbound_message'', lf_dry_run = False,
         lf_state_before = Some ''VERIFY_PENDING'', lf_occurred_at = now, lf_action = action\<rparr>\<rparr>"

definition sample_detection :: detection_facts where
  "sample_detection =
     \<lparr>df_decision = ''SAFE'', df_score = 0, df_reasons = [], df_matched_rules = [],
      df_detector_name = ''rule'', df_detector_version = lit ''1'', df_normalized_hash = ''00'',
      df_error = None\<rparr>"

definition sample_event :: prepared_event where
  "sample_event = sample_event_with 5 100 (InboundAction sample_detection (OutCorrect 1) False)"

definition sample_db :: database where
  "sample_db =
     \<lparr>connections =
        [\<lparr>bc_connection_id = ''bc'', bc_owner_user_id = 1, bc_rights_json = Some (JObj []),
          bc_enabled = True, bc_connection_established_at = Some 1, bc_state_revision = 1,
          bc_reconciliation_state = ReconciliationConfirmed, bc_updated_at = 0\<rparr>],
      conversations =
        [\<lparr>cv_key = sample_key, cv_user_id = 7, cv_state = VerifyPending, cv_created_at = 0,
          cv_updated_at = 0, cv_block_expires_at = None, cv_block_reason = None,
          cv_block_count = 0, cv_state_version = 1\<rparr>],
      ledger = [],
      challenges =
        [\<lparr>ch_id = 1, ch_key = sample_key, ch_expression = lit ''1 + 2 + 3'', ch_answer_hmac = ''ab'',
          ch_hmac_key_version = 1, ch_created_at = 0, ch_expires_at = 1000, ch_attempts_used = 0,
          ch_max_attempts = 3, ch_prompt_message_id = None, ch_delivery_status = DeliverySent,
          ch_closed_at = None\<rparr>],
      challenge_seq = 1, updates = [update_row_of sample_event],
      outbox = [], outbox_seq = 0, audit = [], audit_seq = 0, settings = [],
      owner = OwnerReady (Claimed 1 1 Claim None 0), candidates = [],
      guard = \<lparr>cg_overflow_established_at = None, cg_state_revision = 0\<rparr>,
      reconciliation = \<lparr>tr_state = GlobalReady, tr_state_revision = 0, tr_updated_at = 0\<rparr>,
      spam_samples = [], ham_samples = []\<rparr>"

lemma sample_ok: "db_ok sample_db"
  by (simp add: ok_defs sample_db_def sample_key_def open_challenge_def attempts_ok_def)

lemma sample_run: "\<exists>t. lifecycle_apply (\<lambda>_. []) sample_event sample_db = Inr ((), t)"
proof -
  have "case lifecycle_apply (\<lambda>_. []) sample_event sample_db of Inl _ \<Rightarrow> False | Inr _ \<Rightarrow> True"
    by code_simp
  then show ?thesis by (auto split: sum.splits)
qed

lemma sample_obs: "state_of sample_db sample_key = Some VerifyPending" "open_for sample_db sample_key"
  "current_challenge sample_db sample_key 1"
  by (simp_all add: sample_db_def state_of_def row_of_def find_row_def open_for_def
      open_challenge_def current_challenge_def)


subsection \<open>Properties\<close>

text \<open>
  C3: applying a prepared event implements the abstract machine. When the event's challenge is
  the open one, a successful application makes exactly the transition its action asks for on
  its own conversation (created in state NEW if it was unknown), leaves that conversation with
  an open challenge exactly when the machine says so, and changes neither the state nor the
  challenge of any other conversation.
\<close>

theorem apply_refines_machine:
  assumes "lifecycle_apply rfc e d = Inr ((), t)" and "db_ok d"
    and "facts_optional_key (pe_facts e) = Some k"
    and "conversation_action (lf_action (pe_facts e))"
    and "action_current d k (lf_action (pe_facts e))"
  shows "(case action_event d k (lf_action (pe_facts e)) of
            None \<Rightarrow> state_of t k = Some (opened (state_of d k))
          | Some ev \<Rightarrow> \<exists>s. transition (opened (state_of d k)) ev = Inr s \<and> state_of t k = Some s)
    \<and> (open_for t k \<longleftrightarrow> action_opens d k (lf_action (pe_facts e)))
    \<and> (\<forall>k'. k' \<noteq> k \<longrightarrow> state_of t k' = state_of d k' \<and> open_for t k' = open_for d k')"
proof -
  obtain d1 where act: "apply_action rfc e d = Inr ((), d1)" and core: "core t = core d1"
    using apply_shape [OF assms(1)] by blast
  have key: "facts_key (pe_facts e) = Inr k"
    using assms(3) by (auto simp: facts_optional_key_def facts_key_def split: option.splits)
  from moves_core [OF action_moves [OF act assms(2) key refl assms(4,5)] core]
  obtain s' where s': "after_event (opened (state_of d k)) (action_event d k (lf_action (pe_facts e))) s'"
      "state_of t = (state_of d)(k \<mapsto> s')"
      "open_for t = (open_for d)(k := action_opens d k (lf_action (pe_facts e)))"
    by (auto simp: moves_def)
  then show ?thesis by (auto simp: after_event_def split: option.splits)
qed

theorem apply_refines_machine_witness:
  "\<exists>t. lifecycle_apply (\<lambda>_. []) sample_event sample_db = Inr ((), t)
     \<and> state_of t sample_key = Some VerifiedWaitingOwner \<and> \<not> open_for t sample_key"
proof -
  obtain t where run: "lifecycle_apply (\<lambda>_. []) sample_event sample_db = Inr ((), t)"
    using sample_run by blast
  have "facts_optional_key (pe_facts sample_event) = Some sample_key"
    by (simp add: sample_event_def sample_event_with_def facts_optional_key_def sample_key_def)
  from apply_refines_machine [OF run sample_ok this] run sample_obs show ?thesis
    by (auto simp: sample_event_def sample_event_with_def open_after_def opened_def)
qed

text \<open>
  A conversation awaits verification exactly when it has an open challenge; every
  application of an event keeps this, changes of the business connection included.
\<close>

theorem verify_pending_iff_open_challenge:
  assumes "lifecycle_apply rfc e d = Inr ((), t)" and "db_ok d"
    and "\<forall>k s. state_of d k = Some s \<longrightarrow> (s = VerifyPending \<longleftrightarrow> open_for d k)"
    and "\<forall>k. facts_optional_key (pe_facts e) = Some k \<longrightarrow> action_current d k (lf_action (pe_facts e))"
  shows "\<forall>k s. state_of t k = Some s \<longrightarrow> (s = VerifyPending \<longleftrightarrow> open_for t k)"
proof -
  have "action_current d k (lf_action (pe_facts e))" if "facts_key (pe_facts e) = Inr k" for k
    using assms(4) that by (auto simp: facts_key_def facts_optional_key_def split: option.splits)
  from verify_sound_step [OF assms(1,2) _ this] assms(3) show ?thesis
    by (simp add: verify_sound_def)
qed

theorem verify_pending_iff_open_challenge_witness:
  "\<exists>t. lifecycle_apply (\<lambda>_. []) sample_event sample_db = Inr ((), t)
     \<and> (\<forall>k s. state_of t k = Some s \<longrightarrow> (s = VerifyPending \<longleftrightarrow> open_for t k))"
proof -
  obtain t where run: "lifecycle_apply (\<lambda>_. []) sample_event sample_db = Inr ((), t)"
    using sample_run by blast
  have "\<forall>k s. state_of sample_db k = Some s \<longrightarrow> (s = VerifyPending \<longleftrightarrow> open_for sample_db k)"
    by (auto simp: sample_db_def state_of_def row_of_def find_row_def open_for_def open_challenge_def)
  moreover have "\<forall>k. facts_optional_key (pe_facts sample_event) = Some k
      \<longrightarrow> action_current sample_db k (lf_action (pe_facts sample_event))"
    using sample_obs(3)
    by (auto simp: sample_event_def sample_event_with_def facts_optional_key_def sample_key_def)
  ultimately show ?thesis
    using verify_pending_iff_open_challenge [OF run sample_ok] run by blast
qed

text \<open>
  C25: what puts a conversation into a state. If an application leaves a conversation in a state
  it was not in before, then the event belongs to that conversation, and: only a spam verdict
  blocks it as spam, only exhausted attempts with a block expiry block it temporarily, only a
  message of the owner makes it active, only a correct answer verifies it, and only a new
  challenge makes it wait for an answer.
\<close>

theorem state_provenance:
  assumes "lifecycle_apply rfc e d = Inr ((), t)" and "db_ok d"
    and "\<forall>k. facts_optional_key (pe_facts e) = Some k \<longrightarrow> action_current d k (lf_action (pe_facts e))"
    and "state_of t k = Some s" and "state_of d k \<noteq> Some s"
  shows "facts_optional_key (pe_facts e) = Some k
    \<and> (s = SpamSoftBlocked \<longrightarrow> (\<exists>det dry. lf_action (pe_facts e) = InboundAction det OutSpam dry))
    \<and> (s = TempSoftBlocked \<longrightarrow> (\<exists>det i rem expiry dry.
         lf_action (pe_facts e) = InboundAction det (OutIncorrect i True rem (Some expiry)) dry))
    \<and> (s = Active \<longrightarrow> lf_action (pe_facts e) = ManualOwner)
    \<and> (s = VerifiedWaitingOwner \<longrightarrow>
         (\<exists>det i dry. lf_action (pe_facts e) = InboundAction det (OutCorrect i) dry))
    \<and> (s = VerifyPending \<longrightarrow> (\<exists>det ex h v c x m dry.
         lf_action (pe_facts e) = InboundAction det (StartChallenge ex h v c x m) dry))"
proof -
  obtain d1 where act: "apply_action rfc e d = Inr ((), d1)" and core: "core t = core d1"
    using apply_shape [OF assms(1)] by blast
  let ?a = "lf_action (pe_facts e)"
  have conv: "conversation_action ?a"
    using not_conversation_keeps [OF act] core_frame(1) [OF core] assms(4,5) by metis
  then obtain k0 where k0: "facts_key (pe_facts e) = Inr k0"
    using conversation_key_present [OF act] by blast
  then have opt: "facts_optional_key (pe_facts e) = Some k0"
    by (auto simp: facts_key_def facts_optional_key_def split: option.splits)
  have "moves d t k0 (action_event d k0 ?a) (action_opens d k0 ?a)"
    using assms(3) opt by (intro moves_core [OF action_moves [OF act assms(2) k0 refl conv] core]) simp
  then obtain s' where s': "after_event (opened (state_of d k0)) (action_event d k0 ?a) s'"
      "state_of t = (state_of d)(k0 \<mapsto> s')" by (auto simp: moves_def)
  with assms(4,5) have k: "k0 = k" "s' = s" by (auto split: if_splits)
  show ?thesis
  proof (cases "s = New")
    case True
    with opt k(1) show ?thesis by simp
  next
    case False
    with assms(5) have "opened (state_of d k) \<noteq> s" by (auto simp: opened_def split: option.splits)
    from provenance_of_event [OF s'(1) [unfolded k] this] opt k(1) show ?thesis by simp
  qed
qed

theorem state_provenance_witness:
  "\<exists>t. lifecycle_apply (\<lambda>_. []) sample_event sample_db = Inr ((), t)
     \<and> state_of t sample_key = Some VerifiedWaitingOwner
     \<and> facts_optional_key (pe_facts sample_event) = Some sample_key"
proof -
  have "case lifecycle_apply (\<lambda>_. []) sample_event sample_db of
      Inl _ \<Rightarrow> False | Inr (_, t) \<Rightarrow> state_of t sample_key = Some VerifiedWaitingOwner"
    by code_simp
  then obtain t where run: "lifecycle_apply (\<lambda>_. []) sample_event sample_db = Inr ((), t)"
    and st: "state_of t sample_key = Some VerifiedWaitingOwner" by (auto split: sum.splits prod.splits)
  have cur: "\<forall>k. facts_optional_key (pe_facts sample_event) = Some k
      \<longrightarrow> action_current sample_db k (lf_action (pe_facts sample_event))"
    using sample_obs(3)
    by (auto simp: sample_event_def sample_event_with_def facts_optional_key_def sample_key_def)
  have "state_of sample_db sample_key \<noteq> Some VerifiedWaitingOwner" by (simp add: sample_obs)
  from state_provenance [OF run sample_ok cur st this] run st show ?thesis by blast
qed

end
