(* ===== verification/Lifecycle_Log.thy ===== *)
theory Lifecycle_Log
  imports Lifecycle_Correctness
begin

section \<open>The event log driven by the lifecycle handler\<close>

text \<open>
  Recording, exactly-once application and recovery of events, for the handler of the program:
  the facts of the locale \<open>event_applier\<close> at the interpretation \<open>lifecycle\<close>.
\<close>

subsection \<open>Recording\<close>

lemma reads_for_reconciliation:
  "reads (load_business_connection_for_reconciliation cid)"
  unfolding load_business_connection_for_reconciliation_def by (rule reads_basic)

lemma stays_gate:
  assumes step: "step_relation R"
    and upd: "\<And>p now d. R d (d\<lparr>connections := update_where p (pend_trusted now) (connections d)\<rparr>)"
  shows "stays R (gate_matching_trusted_for_reconciliation cid now)"
proof -
  have upd_stays: "stays R (\<lambda>d. Inr (count_where p (connections d),
      d\<lparr>connections := update_where p (pend_trusted now) (connections d)\<rparr>))" for p
    by (rule staysI) (auto intro: upd)
  show ?thesis
    unfolding gate_matching_trusted_for_reconciliation_def require_one_def Let_def
    by (intro step_relation.stays_basic [OF step] upd_stays
        step_relation.stays_reads [OF step reads_for_reconciliation])
qed

lemma gate_updates: "stays (same updates) (gate_matching_trusted_for_reconciliation cid now)"
  by (rule stays_gate) (simp_all add: step_relation_same same_def)

lemma gate_ok: "stays (keeps db_ok) (gate_matching_trusted_for_reconciliation cid now)"
  by (rule stays_gate)
    (auto simp: step_relation_keeps keeps_def pend_trusted_def intro!: ok_update_connections)

lemma insert_update_ok: "stays (keeps db_ok) (insert_update u)"
  by (rule stays_okI) (auto simp: insert_update_def ok_defs split: if_splits)

lemma record_tx_ok: "stays (keeps db_ok) (record_prepared_event_tx rfc e)"
  unfolding record_prepared_event_tx_def
  by (auto intro!: ok.stays_basic insert_update_ok gate_ok split: update_status.split)

lemma duplicate_receipt:
  "(case pu_status u of Recorded \<Rightarrow> ret DuplicateRecorded | Applied \<Rightarrow> ret DuplicateApplied
     | Failed \<Rightarrow> fail e) d \<noteq> Inr (ReceiptRecorded, t)"
  by (cases "pu_status u") (simp_all add: op_success)

lemma record_tx_shape:
  assumes "record_prepared_event_tx rfc e d = Inr (ReceiptRecorded, t)"
  shows "\<exists>trigger d1 d2 r. validate_facts (facts_json rfc (pe_facts e)) (lit ''facts'') = Inr ()
    \<and> connection_trigger_id rfc e = Inr trigger
    \<and> insert_update (update_row_of e) d = Inr (True, d1)
    \<and> (case trigger of None \<Rightarrow> ret None
         | Some cid \<Rightarrow> map_err Storage
             (gate_matching_trusted_for_reconciliation cid (pe_occurred_at e))) d1 = Inr (r, d2)
    \<and> t = d2"
proof -
  obtain trigger b d1 where
    1: "validate_facts (facts_json rfc (pe_facts e)) (lit ''facts'') = Inr ()"
      "connection_trigger_id rfc e = Inr trigger" and
    2: "insert_update (update_row_of e) d = Inr (b, d1)" and
    3: "(if b then
          and_then (case trigger of None \<Rightarrow> ret None
             | Some cid \<Rightarrow> map_err Storage
                 (gate_matching_trusted_for_reconciliation cid (pe_occurred_at e)))
           (\<lambda>_. ret ReceiptRecorded)
        else
         and_then (gets (find_update (pe_update_id e))) (\<lambda>row.
         case row of
           None \<Rightarrow> fail (MissingUpdate (pe_update_id e))
         | Some u \<Rightarrow>
             (case pu_status u of
                Recorded \<Rightarrow> ret DuplicateRecorded
              | Applied \<Rightarrow> ret DuplicateApplied
              | Failed \<Rightarrow> fail (InvalidStatus (status_text Failed))))) d1
       = Inr (ReceiptRecorded, t)"
    using assms unfolding record_prepared_event_tx_def
    by (elim and_then_lift_E and_then_E) (rule that; (assumption | simp))
  have b
  proof (rule ccontr)
    assume "\<not> b"
    with 3 show False
      by (auto simp: and_then_Inr_iff gets_Inr_iff fail_Inr_iff duplicate_receipt
          split: option.splits)
  qed
  with 1 2 3 show ?thesis by (auto simp: and_then_Inr_iff ret_Inr_iff)
qed

lemma record_tx_recorded:
  assumes "record_prepared_event_tx rfc e d = Inr (ReceiptRecorded, t)"
  shows "safe_json (facts_json rfc (pe_facts e))" and "connection_trigger_id rfc e \<noteq> Inl x"
    and "find_update (pe_update_id e) d = None" and "updates t = updates d @ [update_row_of e]"
proof -
  obtain trigger d1 d2 r where
    1: "validate_facts (facts_json rfc (pe_facts e)) (lit ''facts'') = Inr ()" and
    2: "connection_trigger_id rfc e = Inr trigger" and
    3: "insert_update (update_row_of e) d = Inr (True, d1)" and
    4: "(case trigger of None \<Rightarrow> ret None
         | Some cid \<Rightarrow> map_err Storage
             (gate_matching_trusted_for_reconciliation cid (pe_occurred_at e))) d1 = Inr (r, d2)" and
    5: "t = d2"
    using record_tx_shape [OF assms] by blast
  show "safe_json (facts_json rfc (pe_facts e))" using 1 by (simp add: validate_facts_iff)
  show "connection_trigger_id rfc e \<noteq> Inl x" using 2 by simp
  have d1: "d1 = d\<lparr>updates := updates d @ [update_row_of e]\<rparr>"
    and none: "\<forall>u \<in> set (updates d). pu_update_id u \<noteq> pe_update_id e"
    using 3 by (auto simp: insert_update_def update_row_of_def split: if_splits)
  show "find_update (pe_update_id e) d = None"
    using none by (simp add: find_update_def find_row_None_iff)
  have "updates d2 = updates d1"
    using 4 staysD [OF gate_updates] by (auto simp: op_success same_def split: option.splits)
  then show "updates t = updates d @ [update_row_of e]" by (simp add: 5 d1)
qed

lemma record_again:
  assumes "validate_facts (facts_json rfc (pe_facts e)) (lit ''facts'') = Inr ()"
    and "connection_trigger_id rfc e = Inr trigger"
    and "find_update (pe_update_id e) d = Some u"
  shows "record_prepared_event rfc e d =
    (case pu_status u of Recorded \<Rightarrow> (Inr DuplicateRecorded, d) | Applied \<Rightarrow> (Inr DuplicateApplied, d)
     | Failed \<Rightarrow> (Inl (InvalidStatus (lit ''FAILED'')), d))"
proof -
  have "\<exists>r \<in> set (updates d). pu_update_id r = pu_update_id (update_row_of e)"
    using find_update_id [OF assms(3)] by (auto simp: update_row_of_def)
  then have "insert_update (update_row_of e) d = Inr (False, d)"
    by (simp add: insert_update_def)
  with assms show ?thesis
    unfolding record_prepared_event_def record_prepared_event_tx_def commit_def
    by (simp add: op_defs split: update_status.split)
qed

subsection \<open>Recovery\<close>

lemma lifecycle_replay_ok:
  "db_ok d \<Longrightarrow> db_ok (snd (replay (lifecycle_apply rfc) now skip us n d))"
proof (induction us arbitrary: n d)
  case Nil
  then show ?case by simp
next
  case (Cons u us)
  have "db_ok (snd (apply_recorded_event (lifecycle_apply rfc) now (pu_update_id u) d))"
    by (rule lifecycle.apply_ok [OF Cons.prems])
  with Cons show ?case by (auto split: prod.splits sum.splits)
qed

lemma replay_all_skipped: "\<forall>u \<in> set us. skip u \<Longrightarrow> replay applier now skip us n d = (Inr n, d)"
  by (induction us) auto

subsection \<open>Properties\<close>

lemma record_once:
  assumes "record_prepared_event rfc e d = (Inr ReceiptRecorded, t)" and "db_ok d"
  shows "updates t = updates d @ [update_row_of e]"
    and "status_of (pe_update_id e) d = None" and "status_of (pe_update_id e) t = Some Recorded"
    and "safe_json (facts_json rfc (pe_facts e))" and "db_ok t"
    and "record_prepared_event rfc e t = (Inr DuplicateRecorded, t)"
proof -
  have tx: "record_prepared_event_tx rfc e d = Inr (ReceiptRecorded, t)"
    using assms(1) by (simp add: record_prepared_event_def commit_success)
  note r = record_tx_recorded [OF tx]
  show "updates t = updates d @ [update_row_of e]" by (rule r(4))
  show "status_of (pe_update_id e) d = None" using r(3) by (simp add: status_of_def)
  have find: "find_update (pe_update_id e) t = Some (update_row_of e)"
    using r(3,4) by (simp add: find_update_def find_row_snoc update_row_of_def)
  then show "status_of (pe_update_id e) t = Some Recorded"
    by (simp add: status_of_def update_row_of_def)
  show safe: "safe_json (facts_json rfc (pe_facts e))" by (rule r(1))
  show "db_ok t" using staysD [OF record_tx_ok tx] assms(2) by (simp add: keeps_def)
  obtain trigger where "connection_trigger_id rfc e = Inr trigger"
    using r(2) by (cases "connection_trigger_id rfc e") auto
  from record_again [OF _ this find] safe
  show "record_prepared_event rfc e t = (Inr DuplicateRecorded, t)"
    by (simp add: validate_facts_iff update_row_of_def)
qed

text \<open>
  An event is recorded at most once and only with safe facts. A recording that reports a
  new row appends exactly the row of the event, with status RECORDED, to the log; its facts
  have no message text, caption, file name or raw update under any key and no string above the
  limit; the schema's constraints are kept; and recording the event again reports a duplicate
  and changes nothing.
\<close>

theorem record_once_and_safe:
  assumes "record_prepared_event rfc e d = (Inr ReceiptRecorded, t)" and "db_ok d"
  shows "(updates t = updates d @ [update_row_of e])
    \<and> (status_of (pe_update_id e) d = None)
    \<and> (status_of (pe_update_id e) t = Some Recorded)
    \<and> (safe_json (facts_json rfc (pe_facts e)))
    \<and> (db_ok t)
    \<and> (record_prepared_event rfc e t = (Inr DuplicateRecorded, t))"
  using record_once [OF assms] by blast

definition sample_log_event :: prepared_event where
  "sample_log_event = sample_event_with 6 200 ManualOwner"

theorem record_once_and_safe_witness:
  "\<exists>t. record_prepared_event (\<lambda>_. []) sample_log_event sample_db = (Inr ReceiptRecorded, t)
     \<and> record_prepared_event (\<lambda>_. []) sample_log_event t = (Inr DuplicateRecorded, t)"
proof -
  have "case record_prepared_event (\<lambda>_. []) sample_log_event sample_db of
      (Inr ReceiptRecorded, t) \<Rightarrow> True | _ \<Rightarrow> False"
    by code_simp
  then obtain t where run:
    "record_prepared_event (\<lambda>_. []) sample_log_event sample_db = (Inr ReceiptRecorded, t)"
    by (auto split: sum.splits prod.splits record_receipt.splits)
  from record_once_and_safe [OF run sample_ok] run show ?thesis by blast
qed

text \<open>
  C11: exactly-once application. An application that fails leaves the database as it was. One
  that succeeds leaves the event applied, has run the handler if and only if the event was
  still only recorded, and makes every later application of the same event a no-op; no other
  row of the log changes its identity, its event or, unless it was recorded, its status.
\<close>

theorem apply_exactly_once:
  assumes "apply_recorded_event (lifecycle_apply rfc) now uid d = (result, t)"
  shows "case result of
      Inl _ \<Rightarrow> t = d
    | Inr receipt \<Rightarrow>
        status_of uid t = Some Applied
        \<and> (receipt = ReceiptApplied \<longleftrightarrow> status_of uid d = Some Recorded)
        \<and> (receipt = AlreadyApplied \<longrightarrow> t = d)
        \<and> list_all2 same_event (updates d) (updates t)
        \<and> (\<forall>now'. apply_recorded_event (lifecycle_apply rfc) now' uid t = (Inr AlreadyApplied, t))"
proof (cases result)
  case (Inl e)
  then show ?thesis using assms lifecycle.apply_error by simp
next
  case (Inr r)
  note run = assms [unfolded Inr]
  have "log_step d t" using lifecycle.apply_log_step run by (metis snd_conv)
  then show ?thesis
    using Inr lifecycle.apply_event_Inr [OF run] lifecycle.apply_again [OF run]
    by (simp add: log_step_def)
qed

theorem apply_exactly_once_witness:
  "\<exists>t. apply_recorded_event (lifecycle_apply (\<lambda>_. [])) (\<lambda>_. 300) 5 sample_db = (Inr ReceiptApplied, t)
     \<and> status_of 5 t = Some Applied
     \<and> apply_recorded_event (lifecycle_apply (\<lambda>_. [])) (\<lambda>_. 400) 5 t = (Inr AlreadyApplied, t)"
proof -
  have "case apply_recorded_event (lifecycle_apply (\<lambda>_. [])) (\<lambda>_. 300) 5 sample_db of
      (Inr ReceiptApplied, t) \<Rightarrow> True | _ \<Rightarrow> False"
    by code_simp
  then obtain t where run: "apply_recorded_event (lifecycle_apply (\<lambda>_. [])) (\<lambda>_. 300) 5 sample_db
      = (Inr ReceiptApplied, t)"
    by (auto split: sum.splits prod.splits apply_receipt.splits)
  from apply_exactly_once [OF run] run show ?thesis by auto
qed

lemma recovery_facts:
  assumes "recover_recorded_events (lifecycle_apply rfc) rfc now d = (Inr n, t)" and "db_ok d"
  shows "\<forall>u \<in> set (updates t). pu_status u = Recorded
      \<longrightarrow> is_authoritative_connection_trigger rfc (pu_event_type u) (pu_event u)"
    and "list_all2 same_event (updates d) (updates t)" and "db_ok t"
    and "recover_recorded_events (lifecycle_apply rfc) rfc now' t = (Inr 0, t)"
proof -
  let ?skip = "\<lambda>u. is_authoritative_connection_trigger rfc (pu_event_type u) (pu_event u)"
  have run: "replay (lifecycle_apply rfc) now ?skip (recorded_rows d) 0 d = (Inr n, t)"
    using assms(1) by (simp add: recover_recorded_events_def)
  have uok: "updates_ok d" using assms(2) by (simp add: db_ok_def)
  have left: "?skip v" if v: "v \<in> set (updates t)" "pu_status v = Recorded" for v
  proof -
    obtain u where "same_event u v" "?skip u"
      using lifecycle.recorded_after_replay [OF run uok v] by blast
    then show ?thesis by (simp add: same_event_def)
  qed
  then show "\<forall>u \<in> set (updates t). pu_status u = Recorded \<longrightarrow> ?skip u" by blast
  show "list_all2 same_event (updates d) (updates t)"
    using lifecycle.replay_log_step run by (metis log_step_def snd_conv)
  show "db_ok t" using lifecycle_replay_ok [OF assms(2)] run by (metis snd_conv)
  have "\<forall>u \<in> set (recorded_rows t). ?skip u" using left by (auto simp: recorded_rows_def)
  then show "recover_recorded_events (lifecycle_apply rfc) rfc now' t = (Inr 0, t)"
    unfolding recover_recorded_events_def by (rule replay_all_skipped)
qed

text \<open>
  Recovery after an interruption. When the recovery succeeds, every event that is still
  only recorded is a connection trigger (those wait for the connection lookup), the rows of
  the log kept their events, the schema's constraints hold, and a second recovery finds
  nothing to apply and changes nothing.
\<close>

theorem recovery_complete:
  assumes "recover_recorded_events (lifecycle_apply rfc) rfc now d = (Inr n, t)" and "db_ok d"
  shows "(\<forall>u \<in> set (updates t). pu_status u = Recorded
      \<longrightarrow> is_authoritative_connection_trigger rfc (pu_event_type u) (pu_event u))
    \<and> (list_all2 same_event (updates d) (updates t))
    \<and> (db_ok t)
    \<and> (recover_recorded_events (lifecycle_apply rfc) rfc now' t = (Inr 0, t))"
  using recovery_facts [OF assms] by blast

theorem recovery_complete_witness:
  "\<exists>n t. recover_recorded_events (lifecycle_apply (\<lambda>_. [])) (\<lambda>_. []) (\<lambda>_. 300) sample_db = (Inr n, t)
     \<and> recover_recorded_events (lifecycle_apply (\<lambda>_. [])) (\<lambda>_. []) (\<lambda>_. 400) t = (Inr 0, t)"
proof -
  have "case recover_recorded_events (lifecycle_apply (\<lambda>_. [])) (\<lambda>_. []) (\<lambda>_. 300) sample_db of
      (Inr n, t) \<Rightarrow> n = 1 | _ \<Rightarrow> False"
    by code_simp
  then obtain n t where run:
    "recover_recorded_events (lifecycle_apply (\<lambda>_. [])) (\<lambda>_. []) (\<lambda>_. 300) sample_db = (Inr n, t)"
    by (auto split: sum.splits prod.splits)
  from recovery_complete [OF run sample_ok] run show ?thesis by blast
qed

end
