(* ===== verification/Connection_Safety.thy ===== *)
theory Connection_Safety
  imports Connection_Reconciliation "HOL-Library.Multiset"
begin

section \<open>Safety of connection reconciliation\<close>

text \<open>
  What the operations of \<open>Connection_Reconciliation\<close> may do to the trusted connection: a write
  that reports success leaves exactly one trusted connection, the confirmed authoritative one
  of the claimed owner, newer than every generation seen before; every other result only
  narrows the trust the database expressed before. The global gate hides every connection
  until it is ready again.
\<close>

subsection \<open>Narrowing of trust\<close>

definition rights_le :: "rights \<Rightarrow> rights \<Rightarrow> bool" where
  "rights_le a b \<longleftrightarrow> (can_reply a \<longrightarrow> can_reply b) \<and> (can_read_messages a \<longrightarrow> can_read_messages b)
     \<and> (can_delete_sent_messages a \<longrightarrow> can_delete_sent_messages b)
     \<and> (can_delete_all_messages a \<longrightarrow> can_delete_all_messages b)"

definition effective_le :: "json option \<Rightarrow> json option \<Rightarrow> bool" where
  "effective_le v w \<longleftrightarrow> v = w
     \<or> (\<exists>a b. trusted_rights v = Inr a \<and> trusted_rights w = Inr b \<and> rights_le a b)"

definition narrower :: "business_connection_record \<Rightarrow> business_connection_record \<Rightarrow> bool" where
  "narrower a b \<longleftrightarrow> bc_connection_id a = bc_connection_id b
     \<and> bc_owner_user_id a = bc_owner_user_id b \<and> (bc_enabled a \<longrightarrow> bc_enabled b)
     \<and> (confirmed a \<longrightarrow> confirmed b) \<and> effective_le (bc_rights_json a) (bc_rights_json b)"

definition trust_narrows :: "'ev db \<Rightarrow> 'ev db \<Rightarrow> bool" where
  "trust_narrows d t \<longleftrightarrow> (\<forall>a \<in> set (connections t). \<exists>b \<in> set (connections d). narrower a b)"

lemma rights_json_roundtrip [simp]:
  "decode_rights True False (Some (rights_json r)) = Some r"
  "decode_rights False True (Some (rights_json r)) = Some r"
  by (simp_all add: decode_rights_def rights_json_def struct_fields_def rights_fields_def
      object_field_def)

lemma effective_le_refl [simp]: "effective_le v v"
  by (simp add: effective_le_def)

lemma narrower_refl [simp]: "narrower b b"
  by (simp add: narrower_def effective_le_def)

lemma rights_le_trans: "rights_le a b \<Longrightarrow> rights_le b c \<Longrightarrow> rights_le a c"
  by (simp add: rights_le_def)

lemma effective_le_trans:
  assumes "effective_le u v" and "effective_le v w"
  shows "effective_le u w"
proof (cases "u = v \<or> v = w")
  case True
  with assms show ?thesis by blast
next
  case False
  then obtain a b c where "trusted_rights u = Inr a" "rights_le a b" "trusted_rights w = Inr c"
    "rights_le b c"
    using assms unfolding effective_le_def by force
  then show ?thesis unfolding effective_le_def using rights_le_trans by blast
qed

lemma narrower_trans: "narrower a b \<Longrightarrow> narrower b c \<Longrightarrow> narrower a c"
  unfolding narrower_def using effective_le_trans by metis

interpretation narrowing: step_relation trust_narrows
proof
  fix s t u :: "'a db"
  show "trust_narrows s s" unfolding trust_narrows_def using narrower_refl by blast
  show "trust_narrows s t \<Longrightarrow> trust_narrows t u \<Longrightarrow> trust_narrows s u"
    unfolding trust_narrows_def using narrower_trans by meson
qed

lemma same_connections_narrow: "connections t = connections d \<Longrightarrow> trust_narrows d t"
  unfolding trust_narrows_def using narrower_refl by metis

lemma intersect_le: "rights_le (intersect_rights a b) a"
  by (simp add: rights_le_def intersect_rights_def)

subsection \<open>What the loads return\<close>

lemma decode_business_connection_id: "decode_business_connection b = Inr c \<Longrightarrow> c = b"
  by (auto simp: decode_business_connection_def split: if_splits)

lemma load_single_Inr:
  assumes "load_single_trusted_connection d = Inr (r, t)"
  shows "t = d \<and> connections d = (case r of None \<Rightarrow> [] | Some b \<Rightarrow> [b])"
  using assms
  by (auto simp: load_single_trusted_connection_def op_success single_row_def decode_optional_def
      split: list.splits sum.splits option.splits dest: decode_business_connection_id)

lemma load_owner_identity_Inr:
  "load_owner_identity d = Inr (i, t) \<longleftrightarrow> t = d \<and> owner d = OwnerReady i"
  by (auto simp: load_owner_identity_def load_owner_lifecycle_state_def op_success
      split: owner_row.splits)

lemma load_guard_Inr: "load_candidate_guard d = Inr (g, t) \<Longrightarrow> t = d \<and> g = guard d"
  by (auto simp: load_candidate_guard_def op_success split: if_splits)

lemma load_candidate_frame: "load_candidate cid d = Inr (c, t) \<Longrightarrow> t = d"
  by (simp add: load_candidate_def op_success)


subsection \<open>Generation floors\<close>

lemma fold_max_ge: "(y :: int) \<le> fold max ys y \<and> (\<forall>x \<in> set ys. x \<le> fold max ys y)"
  by (induction ys arbitrary: y) (force simp: max_def)+

lemma max_option_bound:
  assumes "\<not> below_floor e (max_option xs)" and "Some x \<in> set xs"
  shows "x < e"
proof (cases "List.map_filter id xs")
  case Nil
  then have "x \<notin> set (List.map_filter id xs)" by simp
  moreover have "x \<in> set (List.map_filter id xs)" using assms(2) by (force simp: List.map_filter_def)
  ultimately show ?thesis by contradiction
next
  case (Cons y ys)
  have "x \<in> set (List.map_filter id xs)" using assms(2) by (force simp: List.map_filter_def)
  then have "x \<le> fold max ys y" using Cons fold_max_ge [of y ys] by auto
  moreover have "fold max ys y < e"
    using assms(1) Cons by (simp add: max_option_def below_floor_def)
  ultimately show ?thesis by simp
qed

lemma max_option_nested:
  assumes "\<not> below_floor e (max_option xs)" and "max_option ys \<in> set xs" and "Some x \<in> set ys"
  shows "x < e"
proof -
  have "\<not> below_floor e (max_option ys)"
  proof (cases "max_option ys")
    case (Some m)
    then have "m < e" using max_option_bound [OF assms(1)] assms(2) by simp
    with Some show ?thesis by (simp add: below_floor_def)
  qed (simp add: below_floor_def)
  from max_option_bound [OF this assms(3)] show ?thesis .
qed

text \<open>Every generation the database knows of, apart from the connection \<open>cid\<close> itself.\<close>

definition newer_than_all :: "'ev db \<Rightarrow> string \<Rightarrow> i64 \<Rightarrow> bool" where
  "newer_than_all d cid e \<longleftrightarrow>
     (\<forall>u c s fl b. owner d = OwnerReady (Claimed u c s (Some fl) b) \<longrightarrow> fl < e)
     \<and> (\<forall>b \<in> set (connections d). \<forall>x. bc_connection_id b \<noteq> cid
          \<longrightarrow> bc_connection_established_at b = Some x \<longrightarrow> x < e)
     \<and> (\<forall>c \<in> set (candidates d). cc_connection_id c \<noteq> cid \<longrightarrow> cc_connection_established_at c < e)
     \<and> (\<forall>x. cg_overflow_established_at (guard d) = Some x \<longrightarrow> x < e)"

lemma generation_floor_Inr:
  assumes run: "generation_floor_excluding cid d = Inr (fl, t)" and above: "\<not> below_floor e fl"
  shows "t = d \<and> newer_than_all d cid e"
proof -
  let ?tr = "map bc_connection_established_at (filter (\<lambda>b. bc_connection_id b \<noteq> cid) (connections d))"
  let ?ca = "map (\<lambda>c. Some (cc_connection_established_at c))
    (filter (\<lambda>c. cc_connection_id c \<noteq> cid) (candidates d))"
  obtain i where i: "owner d = OwnerReady i" and t: "t = d"
    and fl: "fl = max_option [owner_floor_of i, max_option ?tr, max_option ?ca,
      cg_overflow_established_at (guard d)]"
    using run
    by (auto simp: generation_floor_excluding_def op_success load_owner_identity_Inr
        dest!: load_guard_Inr)
  note above = above [unfolded fl]
  have "x < e" if "owner_floor_of i = Some x" for x
    using max_option_bound [OF above, of x] that by simp
  moreover have "x < e" if "b \<in> set (connections d)" "bc_connection_id b \<noteq> cid"
      "bc_connection_established_at b = Some x" for b x
    using that by (intro max_option_nested [OF above, of ?tr]) (auto simp: image_iff intro: sym)
  moreover have "cc_connection_established_at c < e"
    if "c \<in> set (candidates d)" "cc_connection_id c \<noteq> cid" for c
    using that by (intro max_option_nested [OF above, of ?ca]) auto
  moreover have "x < e" if "cg_overflow_established_at (guard d) = Some x" for x
    using max_option_bound [OF above, of x] that by simp
  ultimately show ?thesis using i t by (auto simp: newer_than_all_def owner_floor_of_def)
qed

subsection \<open>Installing a generation\<close>

definition trusted_of ::
  "business_connection_candidate \<Rightarrow> json option \<Rightarrow> i64 \<Rightarrow> business_connection_record" where
  "trusted_of c r revision =
     \<lparr>bc_connection_id = cc_connection_id c, bc_owner_user_id = cc_business_user_id c,
      bc_rights_json = r, bc_enabled = cc_enabled c,
      bc_connection_established_at = Some (cc_connection_established_at c),
      bc_state_revision = revision, bc_reconciliation_state = ReconciliationConfirmed,
      bc_updated_at = cc_observed_at c\<rparr>"

lemma trusted_of_simps [simp]:
  "bc_connection_id (trusted_of c r n) = cc_connection_id c"
  "bc_owner_user_id (trusted_of c r n) = cc_business_user_id c"
  "bc_rights_json (trusted_of c r n) = r" "confirmed (trusted_of c r n)"
  "bc_enabled (trusted_of c r n) = cc_enabled c"
  "bc_connection_established_at (trusted_of c r n) = Some (cc_connection_established_at c)"
  by (simp_all add: trusted_of_def confirmed_def)

lemma connections_retire [simp]:
  "connections (retire_stale_connection cid now d)
   = delete_where (\<lambda>b. bc_connection_id b = cid) (connections d)"
  by (simp add: retire_stale_connection_def set_setting_def delete_connections_def Let_def)

lemma install_effect:
  assumes run: "install_trusted c r n d = Inr (x, t)"
    and one: "\<forall>b \<in> set (connections d). bc_owner_user_id b = cc_business_user_id c
      \<and> bc_connection_id b \<noteq> cc_connection_id c" and len: "length (connections d) \<le> 1"
  shows "connections t = [trusted_of c r n]"
proof -
  have up: "upsert_business_connection (trusted_of c r n) d = Inr (x, t)"
    using run by (simp add: install_trusted_def trusted_of_def)
  consider "connections d = []" | b where "connections d = [b]"
    using len by (cases "connections d") auto
  then show ?thesis
  proof cases
    case 1
    with up show ?thesis
      by (auto simp: upsert_business_connection_def find_row_def Let_def split: if_splits)
  next
    case 2
    then have "bc_owner_user_id b = cc_business_user_id c" "bc_connection_id b \<noteq> cc_connection_id c"
      using one by simp_all
    with 2 up show ?thesis
      by (auto simp: upsert_business_connection_def find_row_def Let_def delete_where_def
          split: if_splits)
  qed
qed

lemma delete_candidates_frame:
  "delete_candidates p d = Inr (n, t) \<Longrightarrow> connections t = connections d \<and> owner t = owner d
     \<and> updates t = updates d"
  by (auto simp: delete_candidates_def)

lemma install_new_generation_effect:
  assumes "install_new_generation c r ec w d = Inr (w', t)"
    and "\<forall>b \<in> set (connections d). bc_owner_user_id b = cc_business_user_id c
      \<and> bc_connection_id b \<noteq> cc_connection_id c" and "length (connections d) \<le> 1"
  shows "w' = w \<and> connections t = [trusted_of c r (next_revision ec)]"
  using assms
  by (auto simp: install_new_generation_def op_success delete_connection_candidate_def
      dest!: install_effect delete_candidates_frame)

subsection \<open>Conflicts narrow\<close>

lemma update_trusted_narrows:
  assumes "\<And>b. trusted_row cid n b \<Longrightarrow> b \<in> set (connections d) \<Longrightarrow> narrower (f b) b"
    and "update_trusted cid n f d = Inr (x, t)"
  shows "trust_narrows d t"
proof -
  have t: "connections t = update_where (trusted_row cid n) f (connections d)"
    using assms(2) by (auto simp: update_trusted_def)
  show ?thesis
    unfolding trust_narrows_def t set_update_where
  proof (intro ballI, elim imageE)
    fix a b
    assume "a = (if trusted_row cid n b then f b else b)" and b: "b \<in> set (connections d)"
    then have "narrower a b" using assms(1) by simp
    with b show "\<exists>b \<in> set (connections d). narrower a b" by blast
  qed
qed

lemma gate_conflicting_narrows: "stays trust_narrows (gate_conflicting_trusted b now)"
proof -
  have "stays trust_narrows (update_trusted cid n (\<lambda>r. r\<lparr>bc_enabled := False,
      bc_reconciliation_state := ReconciliationPending,
      bc_state_revision := bc_state_revision r + 1, bc_updated_at := now\<rparr>))" for cid n
    by (rule staysI, erule update_trusted_narrows [rotated])
      (simp add: narrower_def confirmed_def effective_le_def)
  then show ?thesis
    unfolding gate_conflicting_trusted_def require_one_def by (intro narrowing.stays_basic)
qed

lemma safety_intersection_narrows:
  assumes run: "apply_safety_intersection b c d = Inr (x, t)" and one: "connections d = [b]"
  shows "trust_narrows d t"
proof -
  obtain current incoming where r: "trusted_rights (bc_rights_json b) = Inr current"
    "trusted_rights (cc_rights_json c) = Inr incoming"
    using run by (auto simp: apply_safety_intersection_def op_success)
  let ?i = "intersect_rights current incoming"
  have "effective_le (Some (rights_json ?i)) (bc_rights_json b)"
    using r(1) intersect_le by (auto simp: effective_le_def trusted_rights_def)
  then show ?thesis
    using run r one
    by (auto simp: apply_safety_intersection_def op_success Let_def update_trusted_def
        require_one_def trust_narrows_def narrower_def confirmed_def split: if_splits)
qed


lemma reconcile_same_cases:
  assumes run: "reconcile_same_trusted b c r expected d = Inr (w, t)"
    and one: "connections d = [b]" and id: "bc_connection_id b = cc_connection_id c"
  shows "w \<in> {RevisionConflict, UserConflict, GenerationConflict} \<and> trust_narrows d t
    \<or> w = Reconciled \<and> bc_owner_user_id b = cc_business_user_id c
        \<and> bc_connection_established_at b \<in> {None, Some (cc_connection_established_at c)}
        \<and> connections t = [trusted_of c r (bc_state_revision b + 1)]"
proof -
  consider "expected \<noteq> Some (bc_state_revision b)"
    | "expected = Some (bc_state_revision b)" "bc_owner_user_id b \<noteq> cc_business_user_id c"
    | "expected = Some (bc_state_revision b)" "bc_owner_user_id b = cc_business_user_id c"
      "is_some_and (\<lambda>date. date \<noteq> cc_connection_established_at c) (bc_connection_established_at b)"
    | "expected = Some (bc_state_revision b)" "bc_owner_user_id b = cc_business_user_id c"
      "\<not> is_some_and (\<lambda>date. date \<noteq> cc_connection_established_at c) (bc_connection_established_at b)"
    by blast
  then show ?thesis
  proof cases
    case 1
    with run one show ?thesis
      by (auto simp: reconcile_same_trusted_def op_success dest: safety_intersection_narrows)
  next
    case 2
    with run show ?thesis
      by (auto simp: reconcile_same_trusted_def op_success
          dest: staysD [OF gate_conflicting_narrows])
  next
    case 3
    with run show ?thesis
      by (auto simp: reconcile_same_trusted_def op_success
          dest: staysD [OF gate_conflicting_narrows])
  next
    case 4
    then have "bc_connection_established_at b \<in> {None, Some (cc_connection_established_at c)}"
      by (cases "bc_connection_established_at b") auto
    moreover from 4 run one id have "w = Reconciled
        \<and> connections t = [trusted_of c r (bc_state_revision b + 1)]"
      by (auto simp: reconcile_same_trusted_def op_success update_trusted_def trusted_row_def
          count_where_def trusted_of_def delete_connection_candidate_def
          dest!: delete_candidates_frame)
    ultimately show ?thesis using 4 by blast
  qed
qed

interpretation keep_connections: step_relation "same connections"
  by (rule step_relation_same)

lemma floor_connections: "stays (same connections) (advance_owner_connection_floor fl)"
proof -
  have "stays (same connections) (set_owner_if p f)" for p f
    by (auto simp: stays_def same_def set_owner_if_def split: if_splits)
  then show ?thesis
    unfolding advance_owner_connection_floor_def
    by (auto intro!: keep_connections.stays_basic keep_connections.stays_reads [OF reads_load_owner(2)]
        split: owner_identity.split)
qed

lemma ambiguous_removes:
  assumes "retain_ambiguous_generations b c r chat d = Inr (x, t)" and "connections d = [b]"
  shows "connections t = []"
proof -
  have floor: "connections t' = connections d'" if "advance_owner_connection_floor fl d' = Inr (i, t')"
    for fl d' i t'
    using staysD [OF floor_connections that] by (simp add: same_def)
  have guard: "connections t' = connections d'" if "advance_overflow_guard_if_active c d' = Inr (y, t')"
    for d' y t'
    using that by (auto simp: advance_overflow_guard_if_active_def update_overflow_guard_def
        op_success split: if_splits dest!: load_guard_Inr)
  show ?thesis
    using assms
    by (auto simp: retain_ambiguous_generations_def op_success delete_trusted_def
        delete_connections_def trusted_row_def delete_where_def count_where_def require_one_def
        upsert_candidate_def Let_def dest!: floor guard split: if_splits)
qed


lemma canonical_trusted:
  "canonical_rights v = Inr r \<Longrightarrow> \<exists>q. r = Some (rights_json q) \<and> trusted_rights r = Inr q"
  by (auto simp: canonical_rights_def trusted_rights_def split: option.splits)

text \<open>What a reconciliation of the trusted connection can do, result by result.\<close>

definition trust_gained ::
  "business_connection_candidate \<Rightarrow> i64 option \<Rightarrow> i64 \<Rightarrow> 'ev db \<Rightarrow> trusted_connection_write \<Rightarrow> 'ev db
   \<Rightarrow> bool" where
  "trust_gained c et eg d w t \<longleftrightarrow>
     (\<exists>r n. connections t = [trusted_of c r n] \<and> canonical_rights (cc_rights_json c) = Inr r)
     \<and> (\<exists>chat s fl b. owner d = OwnerReady (Claimed (cc_business_user_id c) chat s fl b))
     \<and> cg_state_revision (guard d) = eg
     \<and> (w \<in> {Installed, Replaced}
           \<and> newer_than_all d (cc_connection_id c) (cc_connection_established_at c)
        \<or> w = Reconciled \<and> (\<exists>b. connections d = [b] \<and> bc_connection_id b = cc_connection_id c
             \<and> bc_connection_established_at b \<in> {None, Some (cc_connection_established_at c)}))"

definition trust_refused :: "'ev db \<Rightarrow> trusted_connection_write \<Rightarrow> 'ev db \<Rightarrow> bool" where
  "trust_refused d w t \<longleftrightarrow>
     w \<in> {RevisionConflict, UserConflict, GenerationConflict, Ambiguous} \<and> trust_narrows d t"

lemma refused_unchanged:
  "w \<in> {RevisionConflict, UserConflict, GenerationConflict, Ambiguous} \<Longrightarrow> trust_refused d w d"
  by (simp add: trust_refused_def narrowing.step_refl)

lemma reconcile_none:
  assumes run: "(if et \<noteq> None then ret RevisionConflict
      else and_then (generation_floor_excluding (cc_connection_id c)) (\<lambda>fl.
        if below_floor (cc_connection_established_at c) fl then ret GenerationConflict
        else install_new_generation c r ec Installed)) d = Inr (w, t)"
    and none: "connections d = []" and r: "canonical_rights (cc_rights_json c) = Inr r"
    and own: "owner d = OwnerReady (Claimed (cc_business_user_id c) chat s fl b)"
    and g: "cg_state_revision (guard d) = eg"
  shows "trust_refused d w t \<or> trust_gained c et eg d w t"
proof (cases "et = None")
  case False
  with run show ?thesis by (simp add: op_success refused_unchanged)
next
  case True
  then obtain f d1 where f: "generation_floor_excluding (cc_connection_id c) d = Inr (f, d1)"
    and rest: "(if below_floor (cc_connection_established_at c) f then ret GenerationConflict
        else install_new_generation c r ec Installed) d1 = Inr (w, t)"
    using run by (auto simp: and_then_Inr_iff)
  have d1: "d1 = d" using f
    by (auto simp: generation_floor_excluding_def op_success load_owner_identity_Inr dest!: load_guard_Inr)
  show ?thesis
  proof (cases "below_floor (cc_connection_established_at c) f")
    case True
    with rest d1 show ?thesis by (simp add: op_success refused_unchanged)
  next
    case False
    with rest d1 have "install_new_generation c r ec Installed d = Inr (w, t)" by simp
    from install_new_generation_effect [OF this] none
    have "w = Installed" "connections t = [trusted_of c r (next_revision ec)]" by simp_all
    then show ?thesis
      using generation_floor_Inr [OF f False] own g r by (auto simp: trust_gained_def)
  qed
qed


lemma reconcile_other:
  assumes run: "(if et \<noteq> Some (bc_state_revision b) then ret RevisionConflict
      else if bc_owner_user_id b \<noteq> cc_business_user_id c then ret UserConflict
      else (case bc_connection_established_at b of
          None \<Rightarrow> ret GenerationConflict
        | Some established \<Rightarrow>
            if cc_connection_established_at c = established
            then and_then (retain_ambiguous_generations b c r chat) (\<lambda>_. ret Ambiguous)
            else
            and_then (generation_floor_excluding (cc_connection_id c)) (\<lambda>fl.
            if cc_connection_established_at c < established
               \<or> below_floor (cc_connection_established_at c) fl
            then ret GenerationConflict
            else install_new_generation c r ec Replaced))) d = Inr (w, t)"
    and one: "connections d = [b]" and id: "bc_connection_id b \<noteq> cc_connection_id c"
    and r: "canonical_rights (cc_rights_json c) = Inr r"
    and own: "owner d = OwnerReady (Claimed (cc_business_user_id c) ch s fl bd)"
    and g: "cg_state_revision (guard d) = eg"
  shows "trust_refused d w t \<or> trust_gained c et eg d w t"
proof (cases "et \<noteq> Some (bc_state_revision b) \<or> bc_owner_user_id b \<noteq> cc_business_user_id c
    \<or> bc_connection_established_at b = None")
  case True
  with run show ?thesis by (auto simp: op_success refused_unchanged split: if_splits)
next
  case False
  then obtain e where e: "bc_connection_established_at b = Some e" "et = Some (bc_state_revision b)"
    "bc_owner_user_id b = cc_business_user_id c" by auto
  show ?thesis
  proof (cases "cc_connection_established_at c = e")
    case True
    with run e obtain x where "retain_ambiguous_generations b c r chat d = Inr (x, t)" "w = Ambiguous"
      by (auto simp: op_success)
    then show ?thesis using ambiguous_removes [OF _ one] by (simp add: trust_refused_def trust_narrows_def)
  next
    case False
    with run e obtain f d1 where f: "generation_floor_excluding (cc_connection_id c) d = Inr (f, d1)"
      and rest: "(if cc_connection_established_at c < e \<or> below_floor (cc_connection_established_at c) f
        then ret GenerationConflict else install_new_generation c r ec Replaced) d1 = Inr (w, t)"
      by (auto simp: and_then_Inr_iff)
    have d1: "d1 = d" using f
      by (auto simp: generation_floor_excluding_def op_success load_owner_identity_Inr
          dest!: load_guard_Inr)
    show ?thesis
    proof (cases "cc_connection_established_at c < e \<or> below_floor (cc_connection_established_at c) f")
      case True
      with rest d1 show ?thesis by (simp add: op_success refused_unchanged)
    next
      case False
      with rest d1 have "install_new_generation c r ec Replaced d = Inr (w, t)" by simp
      from install_new_generation_effect [OF this] one id e(3)
      have "w = Replaced" "connections t = [trusted_of c r (next_revision ec)]" by simp_all
      then show ?thesis
        using generation_floor_Inr [OF f] False own g r by (auto simp: trust_gained_def)
    qed
  qed
qed

text \<open>The part of the reconciliation that follows the load of the owner.\<close>

definition reconcile_owned ::
  "business_connection_candidate \<Rightarrow> json option \<Rightarrow> i64 option \<Rightarrow> i64 option \<Rightarrow> owner_identity
   \<Rightarrow> ('ev, trusted_connection_write) sop" where
  "reconcile_owned c r et ec i =
     (case i of
       Unclaimed \<Rightarrow> ret UserConflict
     | Claimed user chat _ _ _ \<Rightarrow>
         if user \<noteq> cc_business_user_id c then ret UserConflict
         else
         and_then load_single_trusted_connection (\<lambda>trusted.
         case trusted of
           None \<Rightarrow>
             if et \<noteq> None then ret RevisionConflict
             else
             and_then (generation_floor_excluding (cc_connection_id c)) (\<lambda>fl.
             if below_floor (cc_connection_established_at c) fl then ret GenerationConflict
             else install_new_generation c r ec Installed)
         | Some b \<Rightarrow>
             if bc_connection_id b = cc_connection_id c then reconcile_same_trusted b c r et
             else if et \<noteq> Some (bc_state_revision b) then ret RevisionConflict
             else if bc_owner_user_id b \<noteq> cc_business_user_id c then ret UserConflict
             else
             (case bc_connection_established_at b of
                None \<Rightarrow> ret GenerationConflict
              | Some established \<Rightarrow>
                  if cc_connection_established_at c = established
                  then and_then (retain_ambiguous_generations b c r chat) (\<lambda>_. ret Ambiguous)
                  else
                  and_then (generation_floor_excluding (cc_connection_id c)) (\<lambda>fl.
                  if cc_connection_established_at c < established
                     \<or> below_floor (cc_connection_established_at c) fl
                  then ret GenerationConflict
                  else install_new_generation c r ec Replaced))))"

lemma reconcile_unfold:
  "reconcile_authoritative_trusted_connection c et ec eg =
     and_then (lift_result (validate_candidate c)) (\<lambda>_.
     and_then (lift_result (canonical_rights (cc_rights_json c))) (\<lambda>r.
     and_then load_candidate_guard (\<lambda>g.
     if cg_state_revision g \<noteq> eg then ret RevisionConflict
     else
     and_then (load_candidate (cc_connection_id c)) (\<lambda>retained.
     if map_option cc_state_revision retained \<noteq> ec then ret RevisionConflict
     else and_then load_owner_identity (\<lambda>i. reconcile_owned c r et ec i)))))"
  unfolding reconcile_authoritative_trusted_connection_def reconcile_owned_def ..

lemma reconcile_owned_cases:
  assumes run: "reconcile_owned c r et ec i d = Inr (w, t)" and own: "owner d = OwnerReady i"
    and r: "canonical_rights (cc_rights_json c) = Inr r" and g: "cg_state_revision (guard d) = eg"
  shows "trust_refused d w t \<or> trust_gained c et eg d w t"
proof (cases i)
  case Unclaimed
  with run show ?thesis by (simp add: reconcile_owned_def op_success refused_unchanged)
next
  case (Claimed user chat s fl bd)
  show ?thesis
  proof (cases "user = cc_business_user_id c")
    case False
    with Claimed run show ?thesis by (simp add: reconcile_owned_def op_success refused_unchanged)
  next
    case True
    note own' = own [unfolded Claimed True]
    obtain trusted d1 where l: "load_single_trusted_connection d = Inr (trusted, d1)"
      using run Claimed True by (auto simp: reconcile_owned_def and_then_Inr_iff)
    note ld = load_single_Inr [OF l]
    show ?thesis
    proof (cases trusted)
      case None
      then have "connections d = []" "d1 = d" using ld by simp_all
      then show ?thesis
        using run Claimed True l None
        by (intro reconcile_none [OF _ _ r own' g]) (simp_all add: reconcile_owned_def and_then_def)
    next
      case (Some b)
      then have one: "connections d = [b]" "d1 = d" using ld by simp_all
      show ?thesis
      proof (cases "bc_connection_id b = cc_connection_id c")
        case id: True
        then have "reconcile_same_trusted b c r et d = Inr (w, t)"
          using run Claimed True l Some one by (simp add: reconcile_owned_def and_then_def)
        from reconcile_same_cases [OF this one(1) id] show ?thesis
          using one(1) id own' g r unfolding trust_refused_def trust_gained_def by blast
      next
        case False
        show ?thesis
          using run Claimed True l Some one False
          by (intro reconcile_other [OF _ one(1) False r own' g])
            (simp add: reconcile_owned_def and_then_def)
      qed
    qed
  qed
qed

lemma reconcile_cases:
  assumes run: "reconcile_authoritative_trusted_connection c et ec eg d = Inr (w, t)"
  shows "trust_refused d w t \<or> trust_gained c et eg d w t"
proof -
  obtain r g dg where r: "canonical_rights (cc_rights_json c) = Inr r"
    and g: "load_candidate_guard d = Inr (g, dg)"
    and rest: "(if cg_state_revision g \<noteq> eg then ret RevisionConflict
      else
      and_then (load_candidate (cc_connection_id c)) (\<lambda>retained.
      if map_option cc_state_revision retained \<noteq> ec then ret RevisionConflict
      else
      and_then load_owner_identity (\<lambda>i. reconcile_owned c r et ec i))) dg = Inr (w, t)"
    using run unfolding reconcile_unfold
    by (elim and_then_lift_E and_then_E) (rule that; assumption)
  have dg: "dg = d" "g = guard d" using load_guard_Inr [OF g] by simp_all
  show ?thesis
  proof (cases "cg_state_revision g = eg")
    case False
    with rest dg show ?thesis by (simp add: op_success refused_unchanged)
  next
    case True
    with rest dg obtain retained :: "business_connection_candidate option" where
      rest2: "(if map_option cc_state_revision retained \<noteq> ec then ret RevisionConflict
        else and_then load_owner_identity (\<lambda>i. reconcile_owned c r et ec i)) d = Inr (w, t)"
      by (auto simp: and_then_Inr_iff dest!: load_candidate_frame)
    show ?thesis
    proof (cases "map_option cc_state_revision retained = ec")
      case False
      with rest2 show ?thesis by (simp add: op_success refused_unchanged)
    next
      case True
      with rest2 obtain i where i: "owner d = OwnerReady i" "reconcile_owned c r et ec i d = Inr (w, t)"
        by (auto simp: and_then_Inr_iff load_owner_identity_Inr)
      show ?thesis
        by (rule reconcile_owned_cases [OF i(2,1) r]) (use \<open>cg_state_revision g = eg\<close> dg in simp)
    qed
  qed
qed


subsection \<open>The global gate\<close>

lemma gate_closed_hides:
  assumes "tr_state (reconciliation d) \<noteq> GlobalReady"
  shows "find_business_connection cid d = Inr (None, d)" and "find_single_business_connection d = Inr (None, d)"
  using assms
  by (simp_all add: find_business_connection_def find_single_business_connection_def
      load_telegram_reconciliation_state_def op_defs)

lemma auth_failed_effect:
  assumes run: "set_telegram_auth_failed now d = Inr (g, t)"
  shows "tr_state (reconciliation t) = GlobalAuthFailed"
    and "\<forall>b \<in> set (connections t). \<not> bc_enabled b \<and> \<not> confirmed b"
proof -
  let ?close = "\<lambda>b. (pend_trusted now b)\<lparr>bc_enabled := False\<rparr>"
  obtain cs where d1: "tr_state (reconciliation t) = GlobalAuthFailed"
    and t: "connections t = update_where (\<lambda>b. bc_enabled b \<or> confirmed b) ?close cs"
    using run
    by (auto simp: set_telegram_auth_failed_def op_success load_telegram_reconciliation_state_def
        set_global_def split: if_splits dest!: load_single_Inr)
  show "tr_state (reconciliation t) = GlobalAuthFailed" by (rule d1)
  show "\<forall>b \<in> set (connections t). \<not> bc_enabled b \<and> \<not> confirmed b"
    unfolding t by (auto simp: set_update_where pend_trusted_def confirmed_def)
qed

lemma startup_effect:
  assumes run: "normalize_startup_reconciliation now d = Inr (g, t)"
  shows "tr_state (reconciliation t) = GlobalPending"
    and "\<forall>b \<in> set (connections t). \<not> confirmed b"
proof -
  obtain cs where d1: "tr_state (reconciliation t) = GlobalPending"
    and t: "connections t = update_where confirmed (pend_trusted now) cs"
    using run
    by (auto simp: normalize_startup_reconciliation_def op_success load_telegram_reconciliation_state_def
        set_global_def split: if_splits dest!: load_single_Inr)
  show "tr_state (reconciliation t) = GlobalPending" by (rule d1)
  show "\<forall>b \<in> set (connections t). \<not> confirmed b"
    unfolding t by (auto simp: set_update_where pend_trusted_def confirmed_def)
qed

lemma ready_effect:
  assumes run: "transition_telegram_reconciliation_ready n now d = Inr (g, t)"
  shows "tr_state (reconciliation d) = GlobalPending \<and> tr_state_revision (reconciliation d) = n"
    and "tr_state (reconciliation t) = GlobalReady" and "connections t = connections d"
    and "\<forall>b \<in> set (connections t). confirmed b" and "length (connections t) \<le> 1"
  using run
  by (auto simp: transition_telegram_reconciliation_ready_def op_success
      load_telegram_reconciliation_state_def set_global_def split: if_splits option.splits
      dest!: load_single_Inr)


subsection \<open>Pruning of candidates\<close>

lemma delete_each_Inr:
  "delete_each ids n d = Inr (k, t) \<Longrightarrow>
     t = d\<lparr>candidates := filter (\<lambda>c. cc_connection_id c \<notin> set ids) (candidates d)\<rparr>"
proof (induction ids arbitrary: n d)
  case Nil
  then show ?case by (simp add: ret_def)
next
  case (Cons i ids)
  then show ?case
    by (auto simp: and_then_Inr_iff delete_connection_candidate_def delete_candidates_def
        delete_where_def dest!: Cons.IH)
qed

lemma filter_ids_take:
  assumes "distinct (map k xs)"
  shows "filter (\<lambda>x. k x \<notin> set (map k (drop m xs))) xs = take m xs"
proof -
  have "distinct (map k (take m xs @ drop m xs))" using assms by simp
  then have disj: "\<forall>x \<in> set (take m xs). k x \<notin> set (map k (drop m xs))"
    unfolding map_append distinct_append by auto
  have "filter (\<lambda>x. k x \<notin> set (map k (drop m xs))) (take m xs @ drop m xs)
      = filter (\<lambda>x. k x \<notin> set (map k (drop m xs))) (take m xs)
        @ filter (\<lambda>x. k x \<notin> set (map k (drop m xs))) (drop m xs)"
    by (rule filter_append)
  also have "filter (\<lambda>x. k x \<notin> set (map k (drop m xs))) (take m xs) = take m xs"
    using disj by (simp only: filter_id_conv)
  also have "filter (\<lambda>x. k x \<notin> set (map k (drop m xs))) (drop m xs) = []"
    by (auto simp: filter_empty_conv)
  finally show ?thesis by simp
qed

lemma update_guard_Inr:
  assumes "update_overflow_guard e d = Inr (x, t)"
  shows "t = d\<lparr>guard := raise_guard e (guard d)\<rparr>"
  using assms by (auto simp: update_overflow_guard_def and_then_Inr_iff split: if_splits dest!: load_guard_Inr)

lemma raise_guard_bound:
  "\<exists>x. cg_overflow_established_at (raise_guard e g) = Some x \<and> e \<le> x"
  by (auto simp: raise_guard_def split: option.splits)

lemma prune_effect:
  assumes run: "prune_connection_candidates cutoff m d = Inr (n, t)"
    and keys: "distinct (map cc_connection_id (candidates d))"
  shows "0 \<le> m" and "int (length (candidates t)) \<le> m"
    and "set (candidates t) \<subseteq> {c \<in> set (candidates d). cutoff \<le> cc_observed_at c}"
    and "\<And>c. c \<in> set (candidates d) \<Longrightarrow> cutoff \<le> cc_observed_at c \<Longrightarrow> c \<notin> set (candidates t) \<Longrightarrow>
      (\<forall>k \<in> set (candidates t). cc_connection_established_at c \<le> cc_connection_established_at k)
      \<and> (\<exists>x. cg_overflow_established_at (guard t) = Some x \<and> cc_connection_established_at c \<le> x)"
proof -
  define live :: "business_connection_candidate list" where "live = filter (\<lambda>c. cutoff \<le> cc_observed_at c) (candidates d)"
  define d1 where "d1 = d\<lparr>candidates := live\<rparr>"
  define key :: "business_connection_candidate \<Rightarrow> i64 \<times> string" where "key = (\<lambda>c. (cc_connection_established_at c, cc_connection_id c))"
  define ord where "ord = rev (sort_key key live)"
  have live: "set live = {c \<in> set (candidates d). cutoff \<le> cc_observed_at c}" by (auto simp: live_def)
  have setord: "set ord = set live" by (simp add: ord_def)
  have lenord: "length ord = length live" by (simp add: ord_def)
  have msetord: "mset ord = mset live" by (simp add: ord_def)
  show "0 \<le> m" using run by (auto simp: prune_connection_candidates_def op_success split: if_splits)
  have cases: "length ord \<le> nat m \<and> t = d1
    \<or> nat m < length ord
      \<and> (\<exists>e. (\<forall>c \<in> set live. cc_connection_established_at c \<le> e)
           \<and> guard t = raise_guard e (guard d))
      \<and> candidates t = filter (\<lambda>c. cc_connection_id c \<notin> set (map cc_connection_id (drop (nat m) ord))) live"
  proof -
    have keep: "delete_where (\<lambda>c. cc_observed_at c < cutoff) (candidates d) = live"
      by (simp add: delete_where_def live_def not_less)
    have ret1: "retained_order d1 = map (\<lambda>c. (cc_connection_id c, cc_connection_established_at c)) ord"
      by (simp add: retained_order_def d1_def ord_def key_def)
    have rest: "(if length (retained_order d1) \<le> nat m then ret k
        else and_then (update_overflow_guard (Max (snd ` set (retained_order d1)))) (\<lambda>_.
          and_then (delete_each (map fst (drop (nat m) (retained_order d1))) 0) (\<lambda>evicted.
            ret (k + evicted)))) d1 = Inr (n, t)"
      if "k = count_where (\<lambda>c. cc_observed_at c < cutoff) (candidates d)" for k
      using run that
      by (auto simp: prune_connection_candidates_def and_then_Inr_iff fail_Inr_iff gets_Inr_iff
          delete_candidates_def keep d1_def split: if_split_asm dest!: load_guard_Inr)
    show ?thesis
    proof (cases "length ord \<le> nat m")
      case True
      with rest [OF refl] ret1 show ?thesis by (simp add: ret_def)
    next
      case False
      then obtain d2 where
        g: "update_overflow_guard (Max (snd ` set (retained_order d1))) d1 = Inr ((), d2)"
        and del: "\<exists>k. delete_each (map fst (drop (nat m) (retained_order d1))) 0 d2 = Inr (k, t)"
        using rest [OF refl] ret1 by (auto simp: and_then_Inr_iff ret_Inr_iff)
      have d2: "d2 = d1\<lparr>guard := raise_guard (Max (snd ` set (retained_order d1))) (guard d1)\<rparr>"
        by (rule update_guard_Inr [OF g])
      have bound: "\<forall>c \<in> set live. cc_connection_established_at c \<le> Max (snd ` set (retained_order d1))"
        using setord by (auto intro!: Max_ge simp: ret1 image_image)
      have ids: "map fst (drop (nat m) (retained_order d1)) = map cc_connection_id (drop (nat m) ord)"
        by (simp add: ret1 drop_map)
      have t: "t = d2\<lparr>candidates :=
          filter (\<lambda>c. cc_connection_id c \<notin> set (map cc_connection_id (drop (nat m) ord))) (candidates d2)\<rparr>"
        using del ids by (auto dest!: delete_each_Inr)
      have "guard t = raise_guard (Max (snd ` set (retained_order d1))) (guard d)"
        by (simp add: t d2 d1_def)
      then have "\<exists>e. (\<forall>c \<in> set live. cc_connection_established_at c \<le> e)
          \<and> guard t = raise_guard e (guard d)" using bound by blast
      moreover have "candidates t
          = filter (\<lambda>c. cc_connection_id c \<notin> set (map cc_connection_id (drop (nat m) ord))) live"
        by (simp add: t d2 d1_def)
      ultimately show ?thesis using False by (simp only: not_le) blast
    qed
  qed
  have dist: "distinct (map cc_connection_id ord)"
  proof -
    have "distinct (map cc_connection_id live)" using keys by (simp add: live_def distinct_map_filter)
    then show ?thesis using msetord by (metis mset_eq_imp_distinct_iff mset_map)
  qed
  have kept: "mset (candidates t) = mset (take (nat m) ord)"
  proof (cases "length ord \<le> nat m")
    case True
    then show ?thesis using cases msetord by (simp add: d1_def)
  next
    case False
    let ?P = "\<lambda>c. cc_connection_id c \<notin> set (map cc_connection_id (drop (nat m) ord))"
    have "mset (candidates t) = filter_mset ?P (mset ord)"
      using False cases msetord by (simp add: mset_filter)
    also have "\<dots> = mset (filter ?P ord)" by (simp add: mset_filter)
    also have "filter ?P ord = take (nat m) ord" by (rule filter_ids_take [OF dist])
    finally show ?thesis .
  qed
  then have sett: "set (candidates t) = set (take (nat m) ord)" by (metis set_mset_mset)
  have "length (candidates t) = length (take (nat m) ord)" using kept by (metis size_mset)
  then show "int (length (candidates t)) \<le> m" using \<open>0 \<le> m\<close> by simp
  show "set (candidates t) \<subseteq> {c \<in> set (candidates d). cutoff \<le> cc_observed_at c}"
    using sett setord live set_take_subset by metis
  fix c
  assume c: "c \<in> set (candidates d)" "cutoff \<le> cc_observed_at c" "c \<notin> set (candidates t)"
  then have cl: "c \<in> set live" by (simp add: live)
  have "set ord = set (take (nat m) ord) \<union> set (drop (nat m) ord)"
    by (metis append_take_drop_id set_append)
  then have drop: "c \<in> set (drop (nat m) ord)" using cl c(3) sett setord by blast
  then have "nat m < length ord" by (metis drop_all empty_iff empty_set not_le)
  then obtain e where e: "\<forall>c \<in> set live. cc_connection_established_at c \<le> e"
    "guard t = raise_guard e (guard d)" using cases by auto
  have older: "cc_connection_established_at c \<le> cc_connection_established_at k"
    if "k \<in> set (candidates t)" for k
  proof -
    have "sorted (map key (rev ord))" by (simp add: ord_def)
    then have "sorted_wrt (\<lambda>x y. key y \<le> key x) (take (nat m) ord @ drop (nat m) ord)"
      by (simp add: sorted_wrt_rev sorted_wrt_map flip: rev_map)
    then have "key c \<le> key k"
      unfolding sorted_wrt_append using drop that sett by auto
    then show ?thesis by (auto simp: key_def less_eq_prod_def)
  qed
  show "(\<forall>k \<in> set (candidates t). cc_connection_established_at c \<le> cc_connection_established_at k)
      \<and> (\<exists>x. cg_overflow_established_at (guard t) = Some x \<and> cc_connection_established_at c \<le> x)"
  proof
    show "\<forall>k \<in> set (candidates t). cc_connection_established_at c \<le> cc_connection_established_at k"
      using older by blast
    obtain x where "cg_overflow_established_at (guard t) = Some x" "e \<le> x"
      using raise_guard_bound [of e "guard d"] e(2) by auto
    with e(1) cl
    show "\<exists>x. cg_overflow_established_at (guard t) = Some x \<and> cc_connection_established_at c \<le> x"
      by force
  qed
qed


subsection \<open>Samples\<close>

definition sample_candidate :: business_connection_candidate where
  "sample_candidate =
     \<lparr>cc_connection_id = ''bc'', cc_business_user_id = 1, cc_user_chat_id = Some 1,
      cc_rights_json = Some (rights_json \<lparr>can_reply = True, can_read_messages = True,
        can_delete_sent_messages = False, can_delete_all_messages = True\<rparr>),
      cc_enabled = True, cc_connection_established_at = 10, cc_state_revision = 0,
      cc_observed_at = 50\<rparr>"

definition sample_trust :: "unit db" where
  "sample_trust =
     \<lparr>connections = [], conversations = [], ledger = [], challenges = [], challenge_seq = 0,
      updates = [], outbox = [], outbox_seq = 0, audit = [], audit_seq = 0, settings = [],
      owner = OwnerReady (Claimed 1 1 Claim (Some 5) 0), candidates = [],
      guard = \<lparr>cg_overflow_established_at = None, cg_state_revision = 0\<rparr>,
      reconciliation = \<lparr>tr_state = GlobalPending, tr_state_revision = 4, tr_updated_at = 0\<rparr>,
      spam_samples = [], ham_samples = []\<rparr>"

lemma trim_bc [simp]: "trim [98, 99] = [98, 99]"
  by code_simp

lemma sample_canonical: "canonical_rights (cc_rights_json sample_candidate) = Inr (cc_rights_json sample_candidate)"
  by (simp add: canonical_rights_def sample_candidate_def)

lemma sample_installed:
  "\<exists>t. reconcile_authoritative_trusted_connection sample_candidate None None 0 sample_trust = Inr (Installed, t)"
proof -
  have "case reconcile_authoritative_trusted_connection sample_candidate None None 0 sample_trust of
      Inl _ \<Rightarrow> False | Inr (w, _) \<Rightarrow> w = Installed"
    by code_simp
  then show ?thesis by (auto split: sum.splits prod.splits)
qed

lemma sample_conflict:
  "\<exists>t. reconcile_authoritative_trusted_connection sample_candidate (Some 3) None 0 sample_trust
     = Inr (RevisionConflict, t)"
proof -
  have "case reconcile_authoritative_trusted_connection sample_candidate (Some 3) None 0 sample_trust of
      Inl _ \<Rightarrow> False | Inr (w, _) \<Rightarrow> w = RevisionConflict"
    by code_simp
  then show ?thesis by (auto split: sum.splits prod.splits)
qed

subsection \<open>Properties\<close>



text \<open>
  C10: a reconciliation that reports a conflict or an ambiguity only narrows trust. Every
  trusted connection afterwards was trusted before, for the same user, and it is not enabled,
  confirmed or entitled to any right that it was not before.
\<close>

theorem conflict_narrows_trust:
  assumes "reconcile_authoritative_trusted_connection c et ec eg d = Inr (w, t)"
    and "w \<notin> {Installed, Replaced, Reconciled}"
  shows "\<forall>a \<in> set (connections t). \<exists>b \<in> set (connections d).
      bc_connection_id a = bc_connection_id b \<and> bc_owner_user_id a = bc_owner_user_id b
      \<and> (bc_enabled a \<longrightarrow> bc_enabled b) \<and> (confirmed a \<longrightarrow> confirmed b)
      \<and> effective_le (bc_rights_json a) (bc_rights_json b)"
proof -
  have "\<not> trust_gained c et eg d w t" using assms(2) by (auto simp: trust_gained_def)
  then have "trust_narrows d t"
    using reconcile_cases [OF assms(1)] by (auto simp: trust_refused_def)
  then show ?thesis unfolding trust_narrows_def narrower_def .
qed

theorem conflict_narrows_trust_witness:
  "\<exists>t. reconcile_authoritative_trusted_connection sample_candidate (Some 3) None 0 sample_trust
       = Inr (RevisionConflict, t) \<and> connections t = []"
proof -
  obtain t where run: "reconcile_authoritative_trusted_connection sample_candidate (Some 3) None 0
      sample_trust = Inr (RevisionConflict, t)" using sample_conflict by blast
  have "\<forall>a \<in> set (connections t). \<exists>b \<in> set (connections sample_trust). bc_connection_id a = bc_connection_id b"
    using conflict_narrows_trust [OF run] by blast
  then have "connections t = []" by (simp add: sample_trust_def flip: set_empty) 
  with run show ?thesis by blast
qed

text \<open>
  A closed gate hides every connection. After a failed authentication, or after the
  normalisation at start, the global state is not ready, no connection is confirmed (after a
  failed authentication none is enabled either), and no lookup of a business connection
  returns one.
\<close>

theorem closed_gate_hides_connections:
  assumes "set_telegram_auth_failed now d = Inr (g, t) \<or> normalize_startup_reconciliation now d = Inr (g, t)"
  shows "(\<forall>b \<in> set (connections t). \<not> confirmed b)
    \<and> (set_telegram_auth_failed now d = Inr (g, t) \<longrightarrow> (\<forall>b \<in> set (connections t). \<not> bc_enabled b))
    \<and> find_business_connection cid t = Inr (None, t)
    \<and> find_single_business_connection t = Inr (None, t)"
proof -
  have "tr_state (reconciliation t) \<noteq> GlobalReady"
    using assms auth_failed_effect(1) startup_effect(1) by fastforce
  note hidden = gate_closed_hides [OF this]
  show ?thesis using assms auth_failed_effect(2) startup_effect(2) hidden by blast
qed

theorem closed_gate_hides_connections_witness:
  "\<exists>g t. set_telegram_auth_failed 9 sample_trust = Inr (g, t)
     \<and> find_business_connection ''bc'' t = Inr (None, t)"
proof -
  have "case set_telegram_auth_failed 9 sample_trust of Inl _ \<Rightarrow> False | Inr _ \<Rightarrow> True"
    by code_simp
  then obtain g t where run: "set_telegram_auth_failed 9 sample_trust = Inr (g, t)"
    by (auto split: sum.splits)
  from closed_gate_hides_connections [OF disjI1 [OF run]] run show ?thesis by blast
qed

text \<open>
  The gate opens only from a pending state at the expected revision, and only when there
  is at most one trusted connection and it is confirmed.
\<close>

theorem gate_opens_only_confirmed:
  assumes "transition_telegram_reconciliation_ready expected now d = Inr (g, t)"
  shows "tr_state (reconciliation d) = GlobalPending
    \<and> tr_state_revision (reconciliation d) = expected
    \<and> tr_state (reconciliation t) = GlobalReady \<and> connections t = connections d
    \<and> length (connections t) \<le> 1 \<and> (\<forall>b \<in> set (connections t). confirmed b)"
  using ready_effect [OF assms] by simp

theorem gate_opens_only_confirmed_witness:
  "\<exists>g t. transition_telegram_reconciliation_ready 4 9 sample_trust = Inr (g, t)
     \<and> tr_state (reconciliation t) = GlobalReady"
proof -
  have "case transition_telegram_reconciliation_ready 4 9 sample_trust of Inl _ \<Rightarrow> False | Inr _ \<Rightarrow> True"
    by code_simp
  then obtain g t where run: "transition_telegram_reconciliation_ready 4 9 sample_trust = Inr (g, t)"
    by (auto split: sum.splits)
  from gate_opens_only_confirmed [OF run] run show ?thesis by blast
qed

text \<open>
  Pruning bounds the untrusted candidates without losing security information: at most
  the allowed number of rows stays, all of them observed since the cutoff; every unexpired
  candidate that was evicted is no newer than each one that stays, and its generation is
  covered by the overflow guard, so it can never be installed later.
\<close>

theorem prune_bounded_and_guarded:
  assumes "prune_connection_candidates cutoff m d = Inr (n, t)"
    and "distinct (map cc_connection_id (candidates d))"
  shows "int (length (candidates t)) \<le> m
    \<and> set (candidates t) \<subseteq> {c \<in> set (candidates d). cutoff \<le> cc_observed_at c}
    \<and> (\<forall>c \<in> set (candidates d). cutoff \<le> cc_observed_at c \<longrightarrow> c \<notin> set (candidates t) \<longrightarrow>
         (\<forall>k \<in> set (candidates t). cc_connection_established_at c \<le> cc_connection_established_at k)
         \<and> (\<exists>x. cg_overflow_established_at (guard t) = Some x \<and> cc_connection_established_at c \<le> x))"
  using prune_effect(2-4) [OF assms] by blast

theorem prune_bounded_and_guarded_witness:
  "\<exists>n t. prune_connection_candidates 0 0 (sample_trust\<lparr>candidates := [sample_candidate]\<rparr>) = Inr (n, t)
     \<and> candidates t = []
     \<and> (\<exists>x. cg_overflow_established_at (guard t) = Some x \<and> 10 \<le> x)"
proof -
  let ?d = "sample_trust\<lparr>candidates := [sample_candidate]\<rparr>"
  have "case prune_connection_candidates 0 0 ?d of Inl _ \<Rightarrow> False | Inr _ \<Rightarrow> True"
    by code_simp
  then obtain n t where run: "prune_connection_candidates 0 0 ?d = Inr (n, t)"
    by (auto split: sum.splits)
  have "distinct (map cc_connection_id (candidates ?d))" by simp
  from prune_bounded_and_guarded [OF run this] run show ?thesis
    by (auto simp: sample_candidate_def)
qed

end
