(* ===== verification/Spam_Detection.thy ===== *)
theory Spam_Detection
  imports CH_Text "HOL-Library.Multiset" "HOL-Library.List_Lexorder" "HOL-Library.Product_Lexorder"
begin

section \<open>Spam detection\<close>

text \<open>
  Models \<open>src/detection/mod.rs\<close>, \<open>normalize.rs\<close> and \<open>rules.rs\<close>: the content of a message,
  its normalisation, and the additive rule detector with its \<open>u16\<close> accumulator and \<open>u8\<close>
  score.

  The regular-expression engine, Unicode NFKC, Unicode lower-casing and grapheme
  segmentation, the URL and IDNA parsers and SHA-256 are parameters (\<open>detection_env\<close>): each
  static regular expression of the code is the function that returns its matches.
\<close>

subsection \<open>Data\<close>

datatype decision = Allow | Suspicious | Spam

definition from_score :: "byte \<Rightarrow> decision" where
  "from_score score =
     (if score = 100 then Spam
      else if 50 \<le> score \<and> score \<le> 99 then Suspicious
      else Allow)"

fun decision_as_str :: "decision \<Rightarrow> string" where
  "decision_as_str Allow = ''ALLOW''"
| "decision_as_str Suspicious = ''SUSPICIOUS''"
| "decision_as_str Spam = ''SPAM''"

datatype message_entity_kind = Url | TextLink | Mention | PhoneNumber | OtherEntity

record message_entity =
  me_kind :: message_entity_kind
  me_value :: ustring

datatype media_kind = Photo | Video | Document | Voice | Sticker | OtherMedia

record message_content =
  mc_text :: "ustring option"
  mc_caption :: "ustring option"
  mc_entities :: "message_entity list"
  mc_media_kind :: "media_kind option"
  mc_document_filename :: "ustring option"
  mc_forwarded :: bool

definition empty_content :: message_content where
  "empty_content =
     \<lparr>mc_text = None, mc_caption = None, mc_entities = [], mc_media_kind = None,
      mc_document_filename = None, mc_forwarded = False\<rparr>"

record detection_context =
  dc_malicious_domains :: "ustring set"
  dc_prior_distinct_senders_for_hash :: nat

record detection_result =
  dr_decision :: decision
  dr_score :: byte
  dr_reasons :: "string list"
  dr_matched_rules :: "string list"
  dr_detector_name :: string
  dr_detector_version :: ustring
  dr_normalized_hash :: string

datatype detector_error = InvalidConfig ustring

datatype normalized_link =
  NormalizedLink (nl_canonical: ustring) (nl_domain: ustring) (nl_telegram_invite: bool)

text \<open>
  The derived \<open>Ord\<close> of the struct: fields in declaration order. UTF-8 byte order of strings
  is the order of their code points.
\<close>

definition link_key :: "normalized_link \<Rightarrow> ustring \<times> ustring \<times> bool" where
  "link_key l = (nl_canonical l, nl_domain l, nl_telegram_invite l)"

lemma link_key_inj: "link_key l = link_key k \<longleftrightarrow> l = k"
  by (cases l; cases k) (simp add: link_key_def)

instantiation normalized_link :: linorder
begin

definition less_eq_normalized_link :: "normalized_link \<Rightarrow> normalized_link \<Rightarrow> bool" where
  "l \<le> k \<longleftrightarrow> link_key l \<le> link_key k"

definition less_normalized_link :: "normalized_link \<Rightarrow> normalized_link \<Rightarrow> bool" where
  "l < k \<longleftrightarrow> link_key l < link_key k"

instance
  by standard
    (auto simp: less_eq_normalized_link_def less_normalized_link_def link_key_inj [symmetric])

end

record normalized_content =
  nc_text :: ustring
  nc_normalized_hash :: string
  nc_links :: "normalized_link list"
  nc_evasion :: bool
  nc_contact :: bool
  nc_mention_count :: nat
  nc_emoji_count :: nat

text \<open>Third-party functions; a parsed URL is its optional host and its path.\<close>

record detection_env =
  de_nfkc :: "ustring \<Rightarrow> ustring"
  de_to_lowercase :: "ustring \<Rightarrow> ustring"
  de_graphemes :: "ustring \<Rightarrow> ustring list"
  de_url_matches :: "ustring \<Rightarrow> ustring list"
  de_mention_matches :: "ustring \<Rightarrow> ustring list"
  de_email_is_match :: "ustring \<Rightarrow> bool"
  de_phone_is_match :: "ustring \<Rightarrow> bool"
  de_spaced_word_is_match :: "ustring \<Rightarrow> bool"
  de_wallet_is_match :: "ustring \<Rightarrow> bool"
  de_url_parse :: "ustring \<Rightarrow> (ustring option \<times> ustring) option"
  de_domain_to_ascii :: "ustring \<Rightarrow> ustring option"
  de_sha256_hex :: "byte list \<Rightarrow> string"

subsection \<open>Normalisation\<close>

definition is_zero_width :: "codepoint \<Rightarrow> bool" where
  "is_zero_width c \<longleftrightarrow> c \<in> {0x200B, 0x200C, 0x200D, 0x2060, 0xFEFF}"

definition is_latin :: "codepoint \<Rightarrow> bool" where
  "is_latin c \<longleftrightarrow>
     (65 \<le> c \<and> c \<le> 90 \<or> 97 \<le> c \<and> c \<le> 122)
     \<or> 0xC0 \<le> c \<and> c \<le> 0x24F \<or> 0x1E00 \<le> c \<and> c \<le> 0x1EFF"

definition is_cyrillic :: "codepoint \<Rightarrow> bool" where
  "is_cyrillic c \<longleftrightarrow>
     0x400 \<le> c \<and> c \<le> 0x52F \<or> 0x2DE0 \<le> c \<and> c \<le> 0x2DFF \<or> 0xA640 \<le> c \<and> c \<le> 0xA69F"

definition is_emoji :: "codepoint \<Rightarrow> bool" where
  "is_emoji c \<longleftrightarrow>
     0x1F300 \<le> c \<and> c \<le> 0x1FAFF \<or> 0x2600 \<le> c \<and> c \<le> 0x26FF \<or> 0x2700 \<le> c \<and> c \<le> 0x27BF"

definition has_mixed_latin_cyrillic :: "ustring \<Rightarrow> bool" where
  "has_mixed_latin_cyrillic token \<longleftrightarrow> list_ex is_latin token \<and> list_ex is_cyrillic token"

definition hash_content :: "detection_env \<Rightarrow> ustring \<Rightarrow> normalized_link list \<Rightarrow> string" where
  "hash_content env txt links =
     de_sha256_hex env
       (as_bytes txt @ concat (map (\<lambda>link. 10 # as_bytes (nl_canonical link)) links))"

text \<open>\<open>trim_end_matches\<close> with the closing punctuation \<open>. , ; : ! ? ) ] }\<close>.\<close>

definition link_punctuation :: "codepoint list" where
  "link_punctuation = lit ''.,;:!?)]}''"

definition normalize_link :: "detection_env \<Rightarrow> ustring \<Rightarrow> normalized_link option" where
  "normalize_link env raw =
     (let trimmed = rev (dropWhile (\<lambda>c. c \<in> set link_punctuation) (rev raw));
          candidate =
            (if starts_with trimmed (lit ''http://'') \<or> starts_with trimmed (lit ''https://'')
             then trimmed else lit ''https://'' @ trimmed)
      in case de_url_parse env candidate of
           None \<Rightarrow> None
         | Some (None, path) \<Rightarrow> None
         | Some (Some host, raw_path) \<Rightarrow>
             (case de_domain_to_ascii env host of
                None \<Rightarrow> None
              | Some ascii \<Rightarrow>
                  let lowered = de_to_lowercase env ascii;
                      domain = (case strip_prefix (lit ''www.'') lowered of
                                  None \<Rightarrow> lowered | Some d \<Rightarrow> d);
                      path = de_to_lowercase env raw_path;
                      telegram_invite =
                        domain = lit ''t.me''
                        \<and> (starts_with path (lit ''/+'') \<or> starts_with path (lit ''/joinchat/''))
                  in Some (NormalizedLink (domain @ raw_path) domain telegram_invite)))"

text \<open>
  The loop over the entities: pushed links, the number of mentions and whether the message
  carries contact data.
\<close>

fun scan_entities ::
  "message_entity list \<Rightarrow> ustring list \<times> nat \<times> bool \<Rightarrow> ustring list \<times> nat \<times> bool" where
  "scan_entities [] acc = acc"
| "scan_entities (e # es) (links, mentions, contact) =
     scan_entities es
       (case me_kind e of
          Url \<Rightarrow> (links @ [me_value e], mentions, contact)
        | TextLink \<Rightarrow> (links @ [me_value e], mentions, contact)
        | Mention \<Rightarrow> (links, mentions + 1, True)
        | PhoneNumber \<Rightarrow> (links, mentions, True)
        | OtherEntity \<Rightarrow> (links, mentions, contact))"

text \<open>Collecting into a \<open>BTreeSet\<close> and back into a vector: sorted, without repetition.\<close>

definition btree_collect :: "'a::linorder list \<Rightarrow> 'a list" where
  "btree_collect xs = sort (remdups xs)"

definition source_text :: "message_content \<Rightarrow> ustring" where
  "source_text content =
     join [10] (List.map_filter id [mc_text content, mc_caption content])"

definition normalized_text :: "detection_env \<Rightarrow> ustring \<Rightarrow> ustring" where
  "normalized_text env source =
     de_to_lowercase env
       (join [32] (split_whitespace (filter (\<lambda>c. \<not> is_zero_width c) (de_nfkc env source))))"

definition normalize :: "detection_env \<Rightarrow> message_content \<Rightarrow> normalized_content" where
  "normalize env content =
     (let source = source_text content;
          had_zero_width = list_ex is_zero_width source;
          txt = normalized_text env source;
          (raw_links, mention_count, entity_contact) =
            scan_entities (mc_entities content)
              (de_url_matches env txt, length (de_mention_matches env txt), False);
          links = btree_collect (List.map_filter (normalize_link env) raw_links);
          mixed_script = list_ex has_mixed_latin_cyrillic (split_whitespace txt);
          evasion = (had_zero_width \<or> mixed_script \<or> de_spaced_word_is_match env txt);
          contact = (entity_contact
            \<or> de_email_is_match env txt
            \<or> de_phone_is_match env ([32] @ txt @ [32])
            \<or> de_mention_matches env ([32] @ txt) \<noteq> []
            \<or> contains_text txt (lit ''contact me'')
            \<or> contains_text txt [0x8054, 0x7CFB, 0x6211]
            \<or> contains_text txt [0x79C1, 0x804A, 0x6211]);
          emoji_count = length (filter (list_ex is_emoji) (de_graphemes env txt))
      in \<lparr>nc_text = txt, nc_normalized_hash = hash_content env txt links, nc_links = links,
          nc_evasion = evasion, nc_contact = contact, nc_mention_count = mention_count,
          nc_emoji_count = emoji_count\<rparr>)"

definition normalized_text_hash :: "detection_env \<Rightarrow> ustring \<Rightarrow> string" where
  "normalized_text_hash env body =
     nc_normalized_hash (normalize env (empty_content\<lparr>mc_text := Some body\<rparr>))"

subsection \<open>Rules\<close>

record rule_weights =
  malicious_domain_exact :: byte
  repeated_promo_template :: byte
  telegram_invite_link :: byte
  solicitation_phrase :: byte
  wallet_or_payment_destination :: byte
  task_investment_airdrop_phrase :: byte
  more_than_two_links :: byte
  contact_plus_solicitation :: byte
  spacing_or_mixed_script_evasion :: byte
  excessive_mentions_or_emoji :: byte
  ordinary_url :: byte

record rule_config =
  rc_version :: ustring
  rc_weights :: rule_weights
  rc_solicitation_phrases :: "ustring list"
  rc_task_investment_airdrop_phrases :: "ustring list"

record rule_detector =
  rd_config :: rule_config
  rd_checksum :: string

definition validate_config :: "rule_config \<Rightarrow> detector_error + unit" where
  "validate_config config =
     (if trim (rc_version config) = [] then Inl (InvalidConfig (lit ''version cannot be empty''))
      else if rc_solicitation_phrases config = [] \<or> rc_task_investment_airdrop_phrases config = []
      then Inl (InvalidConfig (lit ''phrase groups cannot be empty''))
      else Inr ())"

text \<open>The JSON parser is a parameter that returns its message or the configuration.\<close>

definition from_json ::
  "detection_env \<Rightarrow> (ustring \<Rightarrow> ustring + rule_config) \<Rightarrow> ustring
   \<Rightarrow> detector_error + rule_detector" where
  "from_json env parse json =
     (case parse json of
        Inl err \<Rightarrow> Inl (InvalidConfig err)
      | Inr config \<Rightarrow>
          (case validate_config config of
             Inl err \<Rightarrow> Inl err
           | Inr _ \<Rightarrow>
               Inr \<lparr>rd_config = config, rd_checksum = de_sha256_hex env (as_bytes json)\<rparr>))"

definition contains_phrase :: "ustring \<Rightarrow> ustring list \<Rightarrow> bool" where
  "contains_phrase txt phrases \<longleftrightarrow> list_ex (contains_text txt) phrases"

definition domain_is_malicious :: "detection_env \<Rightarrow> ustring \<Rightarrow> detection_context \<Rightarrow> bool" where
  "domain_is_malicious env domain ctx \<longleftrightarrow>
     (\<exists>candidate \<in> dc_malicious_domains ctx.
        case de_domain_to_ascii env candidate of
          None \<Rightarrow> False
        | Some ascii \<Rightarrow> ascii_lower ascii = ascii_lower domain)"

record accumulator =
  acc_score :: "16 word"
  acc_reasons :: "string list"
  acc_matched_rules :: "string list"

definition saturating_add_u16 :: "16 word \<Rightarrow> 16 word \<Rightarrow> 16 word" where
  "saturating_add_u16 a b = (if unat a + unat b < 2 ^ 16 then a + b else - 1)"

definition accumulator_add :: "string \<Rightarrow> byte \<Rightarrow> string \<Rightarrow> accumulator \<Rightarrow> accumulator" where
  "accumulator_add rule_id score reason acc =
     \<lparr>acc_score = saturating_add_u16 (acc_score acc) (ucast score),
      acc_reasons = acc_reasons acc @ [reason],
      acc_matched_rules = acc_matched_rules acc @ [rule_id]\<rparr>"

definition accumulator_finish ::
  "accumulator \<Rightarrow> ustring \<Rightarrow> string \<Rightarrow> normalized_content \<Rightarrow> detection_result" where
  "accumulator_finish acc version checksum normalized =
     (let score = ucast (min (acc_score acc) 100)
      in \<lparr>dr_decision = from_score score, dr_score = score, dr_reasons = acc_reasons acc,
          dr_matched_rules = acc_matched_rules acc, dr_detector_name = ''rule'',
          dr_detector_version = version @ [58] @ lit checksum,
          dr_normalized_hash = nc_normalized_hash normalized\<rparr>)"

text \<open>
  The conditional additions of \<open>detect\<close> in their order: a rule is its condition, identifier,
  weight and reason.
\<close>

type_synonym rule = "bool \<times> string \<times> byte \<times> string"

definition rules_of ::
  "detection_env \<Rightarrow> rule_config \<Rightarrow> normalized_content \<Rightarrow> detection_context \<Rightarrow> rule list" where
  "rules_of env config normalized ctx =
     (let w = rc_weights config;
          solicitation = contains_phrase (nc_text normalized) (rc_solicitation_phrases config);
          task_scam =
            contains_phrase (nc_text normalized) (rc_task_investment_airdrop_phrases config);
          malicious_link =
            list_ex (\<lambda>link. domain_is_malicious env (nl_domain link) ctx) (nc_links normalized);
          telegram_invite = list_ex nl_telegram_invite (nc_links normalized)
      in [(malicious_link, ''malicious_domain_exact'', malicious_domain_exact w,
            ''message contains a configured malicious domain''),
          (2 \<le> dc_prior_distinct_senders_for_hash ctx \<and> (solicitation \<or> task_scam),
            ''repeated_promo_template'', repeated_promo_template w,
            ''promotional template repeated across distinct senders''),
          (telegram_invite, ''telegram_invite_link'', telegram_invite_link w,
            ''message contains a Telegram invite link''),
          (solicitation, ''solicitation_phrase'', solicitation_phrase w,
            ''message contains solicitation language''),
          (de_wallet_is_match env (nc_text normalized), ''wallet_or_payment_destination'',
            wallet_or_payment_destination w,
            ''message contains a wallet or payment destination''),
          (task_scam, ''task_investment_airdrop_phrase'', task_investment_airdrop_phrase w,
            ''message contains task, investment, or airdrop language''),
          (length (nc_links normalized) > 2, ''more_than_two_links'', more_than_two_links w,
            ''message contains more than two distinct links''),
          (nc_contact normalized \<and> solicitation, ''contact_plus_solicitation'',
            contact_plus_solicitation w,
            ''contact information accompanies solicitation language''),
          (nc_evasion normalized, ''spacing_or_mixed_script_evasion'',
            spacing_or_mixed_script_evasion w,
            ''message uses spacing, zero-width, or mixed-script evasion''),
          (nc_mention_count normalized > 3 \<or> nc_emoji_count normalized \<ge> 8,
            ''excessive_mentions_or_emoji'', excessive_mentions_or_emoji w,
            ''message contains excessive mentions or emoji''),
          (list_ex (\<lambda>link. \<not> nl_telegram_invite link
              \<and> \<not> domain_is_malicious env (nl_domain link) ctx) (nc_links normalized),
            ''ordinary_url'', ordinary_url w, ''message contains an ordinary URL'')])"

fun apply_rules :: "rule list \<Rightarrow> accumulator \<Rightarrow> accumulator" where
  "apply_rules [] acc = acc"
| "apply_rules ((fires, rule_id, weight, reason) # rs) acc =
     apply_rules rs (if fires then accumulator_add rule_id weight reason acc else acc)"

definition empty_accumulator :: accumulator where
  "empty_accumulator = \<lparr>acc_score = 0, acc_reasons = [], acc_matched_rules = []\<rparr>"

definition detect ::
  "detection_env \<Rightarrow> rule_detector \<Rightarrow> message_content \<Rightarrow> detection_context
   \<Rightarrow> detector_error + detection_result" where
  "detect env detector message ctx =
     (let normalized = normalize env message;
          acc = apply_rules (rules_of env (rd_config detector) normalized ctx) empty_accumulator
      in Inr (accumulator_finish acc (rc_version (rd_config detector)) (rd_checksum detector)
               normalized))"

text \<open>The embedded configuration \<open>defaults.json\<close>.\<close>

definition default_config :: rule_config where
  "default_config =
     \<lparr>rc_version = lit ''2026-07-14.1'',
      rc_weights =
        \<lparr>malicious_domain_exact = 100, repeated_promo_template = 100,
         telegram_invite_link = 45, solicitation_phrase = 40,
         wallet_or_payment_destination = 45, task_investment_airdrop_phrase = 40,
         more_than_two_links = 30, contact_plus_solicitation = 30,
         spacing_or_mixed_script_evasion = 20, excessive_mentions_or_emoji = 10,
         ordinary_url = 10\<rparr>,
      rc_solicitation_phrases =
        [lit ''contact me'', lit ''dm me'', lit ''promotion'', lit ''promote'',
         lit ''advertising'', lit ''marketing service'', lit ''business opportunity'',
         [0x5408, 0x4F5C, 0x63A8, 0x5E7F], [0x63A8, 0x5E7F], [0x5E7F, 0x544A, 0x6295, 0x653E],
         [0x8054, 0x7CFB, 0x6211], [0x79C1, 0x804A, 0x6211], [0x6E20, 0x9053, 0x5408, 0x4F5C],
         [0x4EE3, 0x7406]],
      rc_task_investment_airdrop_phrases =
        [lit ''investment'', lit ''guaranteed return'', lit ''airdrop'', lit ''rebate'',
         lit ''commission'', lit ''task job'', [0x6295, 0x8D44], [0x7A7A, 0x6295],
         [0x8FD4, 0x4F63], [0x5237, 0x5355], [0x4EFB, 0x52A1, 0x8D5A, 0x94B1],
         [0x9AD8, 0x56DE, 0x62A5], [0x7A33, 0x8D5A]]\<rparr>"

subsection \<open>The interface of a detector\<close>

text \<open>
  \<open>trait SpamDetector\<close>. The preparer stores the score, the matched rules and the hash of a
  result and branches on its decision only; it relies on the decision being the
  classification of the score, the score being a percentage, and the hash being a function
  of the message alone (it is used to count prior senders of the same content).
\<close>

locale spam_detector =
  fixes detect_message ::
    "'d \<Rightarrow> message_content \<Rightarrow> detection_context \<Rightarrow> detector_error + detection_result"
  assumes decision_of_score:
      "detect_message d m c = Inr r \<Longrightarrow> dr_decision r = from_score (dr_score r)"
    and score_percent: "detect_message d m c = Inr r \<Longrightarrow> unat (dr_score r) \<le> 100"
    and hash_context_free:
      "detect_message d m c = Inr r \<Longrightarrow> detect_message d m c' = Inr r' \<Longrightarrow>
       dr_normalized_hash r = dr_normalized_hash r'"
begin

lemma spam_score: "detect_message d m c = Inr r \<Longrightarrow> dr_decision r = Spam \<longleftrightarrow> dr_score r = 100"
  by (drule decision_of_score) (simp add: from_score_def)

lemma allow_score:
  assumes "detect_message d m c = Inr r"
  shows "dr_decision r = Allow \<longleftrightarrow> unat (dr_score r) < 50"
proof -
  have "dr_score r = 100 \<longleftrightarrow> unat (dr_score r) = 100"
    by (simp add: byte_eq_iff)
  then show ?thesis
    using decision_of_score [OF assms] score_percent [OF assms]
    by (auto simp: from_score_def word_le_nat_alt)
qed

end

subsection \<open>The accumulator\<close>

text \<open>Identifier, weight and reason of a rule, and the rules whose condition holds.\<close>

definition rule_id :: "rule \<Rightarrow> string" where "rule_id r = fst (snd r)"
definition rule_weight :: "rule \<Rightarrow> nat" where "rule_weight r = unat (fst (snd (snd r)))"
definition rule_reason :: "rule \<Rightarrow> string" where "rule_reason r = snd (snd (snd r))"
definition fired :: "rule list \<Rightarrow> rule list" where "fired rs = filter fst rs"
definition total_weight :: "rule list \<Rightarrow> nat" where
  "total_weight rs = sum_list (map rule_weight (fired rs))"

lemma fired_Cons [simp]: "fired (r # rs) = (if fst r then r # fired rs else fired rs)"
  by (simp add: fired_def)

lemma fired_Nil [simp]: "fired [] = []"
  by (simp add: fired_def)

lemma unat_ucast_byte: "unat (ucast (b :: byte) :: 16 word) = unat b"
  using unat_byte_less [of b] by (simp add: unsigned_ucast_eq take_bit_nat_eq_self_iff)

lemma saturating_add_exact:
  "unat a + unat b < 2 ^ 16 \<Longrightarrow> unat (saturating_add_u16 a b) = unat a + unat b"
  by (simp add: saturating_add_u16_def unat_add_lem [symmetric])

lemma rule_weight_le: "rule_weight r \<le> 255"
  using unat_byte_less [of "fst (snd (snd r))"] by (simp add: rule_weight_def)

lemma total_weight_le: "total_weight rs \<le> 255 * length rs"
proof -
  have "total_weight rs \<le> length (fired rs) * 255"
    unfolding total_weight_def by (intro sum_list_bound rule_weight_le)
  moreover have "length (fired rs) \<le> length rs" by (simp add: fired_def)
  ultimately show ?thesis by linarith
qed

text \<open>As long as the sum of the weights fits \<open>u16\<close>, the saturating addition is exact.\<close>

lemma apply_rules_result:
  assumes "unat (acc_score acc) + total_weight rs < 2 ^ 16"
  shows "unat (acc_score (apply_rules rs acc)) = unat (acc_score acc) + total_weight rs"
    and "acc_matched_rules (apply_rules rs acc) = acc_matched_rules acc @ map rule_id (fired rs)"
    and "acc_reasons (apply_rules rs acc) = acc_reasons acc @ map rule_reason (fired rs)"
  using assms
proof (induction rs acc rule: apply_rules.induct)
  case (1 acc)
  {
    case 1
    then show ?case by (simp add: total_weight_def)
  next
    case 2
    then show ?case by simp
  next
    case 3
    then show ?case by simp
  }
next
  case (2 fires i w reason rs acc)
  let ?acc = "if fires then accumulator_add i w reason acc else acc"
  have step: "unat (acc_score ?acc) + total_weight rs
      = unat (acc_score acc) + total_weight ((fires, i, w, reason) # rs)"
    if "unat (acc_score acc) + total_weight ((fires, i, w, reason) # rs) < 2 ^ 16"
    using that
    by (auto simp: accumulator_add_def saturating_add_exact unat_ucast_byte total_weight_def
        rule_weight_def)
  {
    case 1
    with step "2.IH"(1) show ?case by simp
  next
    case 2
    with step "2.IH"(2) show ?case by (simp add: accumulator_add_def rule_id_def)
  next
    case 3
    with step "2.IH"(3) show ?case by (simp add: accumulator_add_def rule_reason_def)
  }
qed

lemma length_rules_of [simp]: "length (rules_of env config normalized ctx) = 11"
  by (simp add: rules_of_def Let_def)

lemma rules_of_no_saturation: "total_weight (rules_of env config normalized ctx) < 2 ^ 16"
  using total_weight_le [of "rules_of env config normalized ctx"] by simp

lemma finish_score:
  "unat (dr_score (accumulator_finish acc v c n)) = min 100 (unat (acc_score acc))"
proof -
  have "unat (min (acc_score acc) 100) = min 100 (unat (acc_score acc))"
    by (auto simp: min_def word_le_nat_alt)
  then show ?thesis
    by (simp add: accumulator_finish_def Let_def unsigned_ucast_eq take_bit_nat_eq_self_iff)
qed

lemma from_score_nat:
  assumes "unat s = min 100 n"
  shows "from_score s = (if 100 \<le> n then Spam else if 50 \<le> n then Suspicious else Allow)"
proof -
  have "s = 100 \<longleftrightarrow> unat s = 100" by (simp add: byte_eq_iff)
  then show ?thesis using assms by (auto simp: from_score_def word_le_nat_alt)
qed

lemma detect_Inr:
  obtains r where "detect env d m c = Inr r"
    and "unat (dr_score r) = min 100 (total_weight (rules_of env (rd_config d) (normalize env m) c))"
    and "dr_decision r = from_score (dr_score r)"
    and "dr_matched_rules r = map rule_id (fired (rules_of env (rd_config d) (normalize env m) c))"
    and "dr_reasons r = map rule_reason (fired (rules_of env (rd_config d) (normalize env m) c))"
    and "dr_normalized_hash r = nc_normalized_hash (normalize env m)"
proof -
  let ?rs = "rules_of env (rd_config d) (normalize env m) c"
  let ?acc = "apply_rules ?rs empty_accumulator"
  have fits: "unat (acc_score empty_accumulator) + total_weight ?rs < 2 ^ 16"
    using rules_of_no_saturation by (simp add: empty_accumulator_def)
  let ?r = "accumulator_finish ?acc (rc_version (rd_config d)) (rd_checksum d) (normalize env m)"
  have "unat (dr_score ?r) = min 100 (total_weight ?rs)"
    using apply_rules_result(1) [OF fits] by (simp add: finish_score empty_accumulator_def)
  moreover have "dr_matched_rules ?r = map rule_id (fired ?rs)"
    "dr_reasons ?r = map rule_reason (fired ?rs)"
    using apply_rules_result(2,3) [OF fits]
    by (simp_all add: accumulator_finish_def Let_def empty_accumulator_def)
  moreover have "detect env d m c = Inr ?r" by (simp add: detect_def Let_def)
  moreover have "dr_decision ?r = from_score (dr_score ?r)"
    "dr_normalized_hash ?r = nc_normalized_hash (normalize env m)"
    by (simp_all add: accumulator_finish_def Let_def)
  ultimately show ?thesis by (intro that)
qed

interpretation rule: spam_detector "detect env"
proof
  fix d m c r assume "detect env d m c = Inr r"
  then show "dr_decision r = from_score (dr_score r)" and "unat (dr_score r) \<le> 100"
    using detect_Inr [of env d m c] by (metis sum.inject(2), metis min.cobounded1 sum.inject(2))
next
  fix d m c r c' r' assume "detect env d m c = Inr r" and "detect env d m c' = Inr r'"
  then show "dr_normalized_hash r = dr_normalized_hash r'"
    using detect_Inr [of env d m c] detect_Inr [of env d m c'] by (metis sum.inject(2))
qed

subsection \<open>Normalisation of links and entities\<close>

lemma btree_collect_set_cong: "set xs = set ys \<Longrightarrow> btree_collect xs = btree_collect ys"
  unfolding btree_collect_def
  by (metis sorted_list_of_set_sort_remdups)

lemma map_filter_set: "set (List.map_filter f xs) = {y. \<exists>x \<in> set xs. f x = Some y}"
  by (induction xs) (auto simp: map_filter_simps split: option.splits)

lemma scan_entities_eq:
  "scan_entities es (ls, n, b) =
     (ls @ map me_value (filter (\<lambda>e. me_kind e = Url \<or> me_kind e = TextLink) es),
      n + length (filter (\<lambda>e. me_kind e = Mention) es),
      b \<or> (\<exists>e \<in> set es. me_kind e = Mention \<or> me_kind e = PhoneNumber))"
  by (induction es arbitrary: ls n b) (auto split: message_entity_kind.splits)

lemma length_filter_mset: "mset xs = mset ys \<Longrightarrow> length (filter P xs) = length (filter P ys)"
  by (metis mset_filter size_mset)

lemma scan_entities_perm:
  assumes "mset es = mset fs"
  shows "snd (scan_entities es (ls, n, b)) = snd (scan_entities fs (ls, n, b))"
    and "set (fst (scan_entities es (ls, n, b))) = set (fst (scan_entities fs (ls, n, b)))"
  using assms mset_eq_setD [OF assms] length_filter_mset [OF assms]
  by (auto simp: scan_entities_eq)

lemma normalize_entity_order:
  assumes "mset (mc_entities m) = mset fs"
  shows "normalize env (m\<lparr>mc_entities := fs\<rparr>) = normalize env m"
proof -
  let ?txt = "normalized_text env (source_text m)"
  let ?acc = "(de_url_matches env ?txt, length (de_mention_matches env ?txt), False)"
  have src: "source_text (m\<lparr>mc_entities := fs\<rparr>) = source_text m"
    by (simp add: source_text_def)
  obtain l1 n1 b1 where 1: "scan_entities (mc_entities m) ?acc = (l1, n1, b1)"
    by (cases "scan_entities (mc_entities m) ?acc") auto
  obtain l2 n2 b2 where 2: "scan_entities fs ?acc = (l2, n2, b2)"
    by (cases "scan_entities fs ?acc") auto
  have eq: "n2 = n1" "b2 = b1" "set l2 = set l1"
    using scan_entities_perm [OF assms, where ls = "de_url_matches env ?txt"
        and n = "length (de_mention_matches env ?txt)" and b = False] 1 2 by auto
  have "btree_collect (List.map_filter (normalize_link env) l2)
      = btree_collect (List.map_filter (normalize_link env) l1)"
    using eq(3) by (intro btree_collect_set_cong) (simp add: map_filter_set)
  then show ?thesis
    using eq 1 2 by (simp add: normalize_def src Let_def)
qed

subsection \<open>Weights of the embedded configuration\<close>

lemma default_weight_small:
  assumes "r \<in> set (rules_of env default_config n c)"
    and "rule_id r \<noteq> ''malicious_domain_exact''" and "rule_id r \<noteq> ''repeated_promo_template''"
  shows "rule_weight r \<le> 45"
  using assms
  by (auto simp: rules_of_def Let_def default_config_def rule_weight_def rule_id_def)

subsection \<open>Properties\<close>

text \<open>
  C19: the detector always returns a verdict, whose score is the sum of the weights of the
  rules that fire, capped at 100 (the \<open>u16\<close> sum never saturates); the verdict is spam from
  100, suspicious from 50, and the reported rules and reasons are those of exactly the rules
  that fired, in order.
\<close>

theorem detect_score_exact:
  "\<exists>r. detect env d m c = Inr r
     \<and> (let rs = rules_of env (rd_config d) (normalize env m) c
        in unat (dr_score r) = min 100 (total_weight rs)
         \<and> dr_decision r = (if 100 \<le> total_weight rs then Spam
              else if 50 \<le> total_weight rs then Suspicious else Allow)
         \<and> dr_matched_rules r = map rule_id (fired rs)
         \<and> dr_reasons r = map rule_reason (fired rs))"
  by (rule detect_Inr [of env d m c]) (simp add: Let_def from_score_nat)

text \<open>
  Under the embedded configuration one weak signal never blocks: a spam verdict needs a
  configured malicious domain, a template repeated by several senders, or at least three
  other rules at once.
\<close>

theorem default_spam_evidence:
  assumes "detect env d m c = Inr r" and "rd_config d = default_config" and "dr_decision r = Spam"
  shows "''malicious_domain_exact'' \<in> set (dr_matched_rules r)
    \<or> ''repeated_promo_template'' \<in> set (dr_matched_rules r)
    \<or> 3 \<le> length (dr_matched_rules r)"
proof (rule ccontr)
  assume neg: "\<not> ?thesis"
  let ?rs = "rules_of env default_config (normalize env m) c"
  have r: "dr_matched_rules r = map rule_id (fired ?rs)"
    "unat (dr_score r) = min 100 (total_weight ?rs)" "dr_decision r = from_score (dr_score r)"
    using detect_Inr [of env d m c] assms(1,2) by (metis sum.inject(2))+
  have "rule_weight q \<le> 45" if "q \<in> set (fired ?rs)" for q
  proof (rule default_weight_small)
    show "q \<in> set ?rs" using that by (simp add: fired_def)
    have "rule_id q \<in> set (dr_matched_rules r)" using that r(1) by simp
    then show "rule_id q \<noteq> ''malicious_domain_exact''" "rule_id q \<noteq> ''repeated_promo_template''"
      using neg by auto
  qed
  then have "sum_list (map rule_weight (fired ?rs)) \<le> length (fired ?rs) * 45"
    by (intro sum_list_bound)
  moreover have "length (fired ?rs) \<le> 2" using neg r(1) by simp
  ultimately have "total_weight ?rs < 100" by (simp add: total_weight_def)
  with assms(3) r(3) from_score_nat [OF r(2)] show False by (simp split: if_splits)
qed

text \<open>A detector environment without URLs, and a message three rules fire on.\<close>

definition sample_env :: detection_env where
  "sample_env =
     \<lparr>de_nfkc = (\<lambda>t. t), de_to_lowercase = ascii_lower, de_graphemes = map (\<lambda>c. [c]),
      de_url_matches = (\<lambda>_. []), de_mention_matches = (\<lambda>_. []), de_email_is_match = (\<lambda>_. False),
      de_phone_is_match = (\<lambda>_. False), de_spaced_word_is_match = (\<lambda>_. False),
      de_wallet_is_match = (\<lambda>_. False), de_url_parse = (\<lambda>_. None),
      de_domain_to_ascii = Some, de_sha256_hex = (\<lambda>_. ''00'')\<rparr>"

definition sample_detector :: rule_detector where
  "sample_detector = \<lparr>rd_config = default_config, rd_checksum = ''00''\<rparr>"

definition sample_context :: detection_context where
  "sample_context = \<lparr>dc_malicious_domains = {}, dc_prior_distinct_senders_for_hash = 0\<rparr>"

definition sample_spam :: message_content where
  "sample_spam = empty_content\<lparr>mc_text := Some (lit ''Airdrop  CONTACT me'')\<rparr>"

definition detect_summary :: "detector_error + detection_result \<Rightarrow> (decision \<times> string list) option" where
  "detect_summary r = (case r of Inl _ \<Rightarrow> None | Inr r \<Rightarrow> Some (dr_decision r, dr_matched_rules r))"

lemma sample_spam_detected:
  "detect_summary (detect sample_env sample_detector sample_spam sample_context)
   = Some (Spam, [''solicitation_phrase'', ''task_investment_airdrop_phrase'',
       ''contact_plus_solicitation''])"
proof -
  let ?m = "normalize sample_env sample_spam"
  have body: "nc_text ?m = lit ''airdrop contact me''"
    by (simp add: normalize_def normalized_text_def source_text_def sample_spam_def sample_env_def
        empty_content_def Let_def split_whitespace_def is_whitespace_def is_zero_width_def
        ascii_lower_def map_filter_simps)
  have rest: "nc_links ?m = []" "nc_contact ?m" "\<not> nc_evasion ?m" "nc_mention_count ?m = 0"
    "nc_emoji_count ?m = 0"
    using body by (simp_all add: normalize_def source_text_def sample_spam_def sample_env_def
        empty_content_def Let_def is_zero_width_def btree_collect_def split_whitespace_def
        is_whitespace_def has_mixed_latin_cyrillic_def is_cyrillic_def is_emoji_def map_filter_simps)
  have "contains_phrase (nc_text ?m) (rc_solicitation_phrases default_config)"
    "contains_phrase (nc_text ?m) (rc_task_investment_airdrop_phrases default_config)"
    unfolding body by (simp_all add: contains_phrase_def default_config_def)
  then have rules: "fired (rules_of sample_env (rd_config sample_detector) ?m sample_context) =
      [(True, ''solicitation_phrase'', 40, ''message contains solicitation language''),
       (True, ''task_investment_airdrop_phrase'', 40,
         ''message contains task, investment, or airdrop language''),
       (True, ''contact_plus_solicitation'', 30,
         ''contact information accompanies solicitation language'')]"
    using rest
    by (simp add: rules_of_def Let_def sample_context_def sample_detector_def)
      (simp add: sample_env_def default_config_def)
  show ?thesis
    by (rule detect_Inr [of sample_env sample_detector sample_spam sample_context])
      (simp add: detect_summary_def rules total_weight_def rule_weight_def rule_id_def
        from_score_def byte_eq_iff)
qed

theorem default_spam_evidence_witness:
  "\<exists>r. detect sample_env sample_detector sample_spam sample_context = Inr r
     \<and> dr_decision r = Spam
     \<and> (''malicious_domain_exact'' \<in> set (dr_matched_rules r)
        \<or> ''repeated_promo_template'' \<in> set (dr_matched_rules r)
        \<or> 3 \<le> length (dr_matched_rules r))"
proof -
  obtain r where r: "detect sample_env sample_detector sample_spam sample_context = Inr r"
    "dr_decision r = Spam"
    using sample_spam_detected
    by (cases "detect sample_env sample_detector sample_spam sample_context")
      (auto simp: detect_summary_def)
  moreover have "rd_config sample_detector = default_config" by (simp add: sample_detector_def)
  ultimately show ?thesis using default_spam_evidence [OF r(1) _ r(2)] by blast
qed

text \<open>
  The verdict and the stored content hash depend on the message's text and on which
  entities it has, not on the order the entities arrive in.
\<close>

theorem detect_entity_order:
  assumes "mset (mc_entities m) = mset fs"
  shows "detect env d (m\<lparr>mc_entities := fs\<rparr>) c = detect env d m c"
  using normalize_entity_order [OF assms] by (simp add: detect_def Let_def)

theorem detect_entity_order_witness:
  "detect sample_env sample_detector
     (sample_spam\<lparr>mc_entities := [\<lparr>me_kind = Mention, me_value = []\<rparr>, \<lparr>me_kind = Url, me_value = [1]\<rparr>]\<rparr>)
     sample_context
   = detect sample_env sample_detector
     (sample_spam\<lparr>mc_entities := [\<lparr>me_kind = Url, me_value = [1]\<rparr>, \<lparr>me_kind = Mention, me_value = []\<rparr>]\<rparr>)
     sample_context"
  using detect_entity_order
    [of "sample_spam\<lparr>mc_entities := [\<lparr>me_kind = Url, me_value = [1]\<rparr>, \<lparr>me_kind = Mention, me_value = []\<rparr>]\<rparr>"
      "[\<lparr>me_kind = Mention, me_value = []\<rparr>, \<lparr>me_kind = Url, me_value = [1]\<rparr>]"
      sample_env sample_detector sample_context]
  by (simp add: add_mset_commute)

end
