(* ===== verification/Arithmetic_Challenge.thy ===== *)
theory Arithmetic_Challenge
  imports CH_Text
begin

section \<open>Arithmetic challenges\<close>

text \<open>
  Models \<open>src/verification/arithmetic.rs\<close>: generation of a challenge, its canonical
  textual form and the strict parser of that form, the evaluation of an answer, and the
  interface (\<open>trait ChallengeVerifier\<close>) the preparer relies on. \<open>i32\<close> values are 32-bit
  words read with \<open>sint\<close>, so the arithmetic wraps as the machine's would.

  Third-party code is a parameter: the random generator (\<open>rand\<close>, one draw from a closed
  interval), HMAC-SHA-256, hexadecimal coding and Unicode NFKC normalisation.
\<close>

type_synonym i32 = "32 word"

record crypto =
  hmac_sha256 :: "byte list \<Rightarrow> byte list \<Rightarrow> byte list"
  hmac_verify :: "byte list \<Rightarrow> byte list \<Rightarrow> byte list \<Rightarrow> bool"
  hex_encode :: "byte list \<Rightarrow> string"
  hex_decode :: "string \<Rightarrow> byte list option"
  nfkc :: "ustring \<Rightarrow> ustring"

text \<open>\<open>rng.random_range(lo..=hi)\<close>: a value and the next generator state.\<close>

type_synonym 'r random_range = "int \<Rightarrow> int \<Rightarrow> 'r \<Rightarrow> int \<times> 'r"

datatype answer_kind = Correct | Incorrect | NonNumeric

datatype challenge_expression_error = ChallengeExpressionError

record generated_challenge =
  gc_expression :: ustring
  gc_answer_hmac :: string
  gc_hmac_key_version :: i64
  gc_created_at :: timestamp
  gc_expires_at :: timestamp
  gc_max_attempts :: byte

definition is_expired :: "generated_challenge \<Rightarrow> timestamp \<Rightarrow> bool" where
  "is_expired c now \<longleftrightarrow> gc_expires_at c \<le> now"

record 'r arithmetic_verifier =
  av_rng :: 'r
  av_key :: "byte list"
  av_key_version :: i64

datatype arith_operator = Add | Subtract | Multiply

fun symbol :: "arith_operator \<Rightarrow> ustring" where
  "symbol Add = [43]"
| "symbol Subtract = [45]"
| "symbol Multiply = [0xD7]"

fun apply_operator :: "arith_operator \<Rightarrow> i32 \<Rightarrow> i32 \<Rightarrow> i32" where
  "apply_operator Add l r = l + r"
| "apply_operator Subtract l r = l - r"
| "apply_operator Multiply l r = l * r"

fun precedence :: "arith_operator \<Rightarrow> byte" where
  "precedence Add = 1"
| "precedence Subtract = 1"
| "precedence Multiply = 2"

text \<open>\<open>(0..=99).contains(&x)\<close>.\<close>

definition in_0_99 :: "i32 \<Rightarrow> bool" where
  "in_0_99 x \<longleftrightarrow> 0 \<le> sint x \<and> sint x \<le> 99"

definition bounded_answer :: "i32 \<Rightarrow> arith_operator \<Rightarrow> i32 \<Rightarrow> arith_operator \<Rightarrow> i32 \<Rightarrow> i32 option" where
  "bounded_answer first first_operator second second_operator third =
     (let (intermediate, answer) =
        (if precedence first_operator < precedence second_operator
         then let i = apply_operator second_operator second third
              in (i, apply_operator first_operator first i)
         else let i = apply_operator first_operator first second
              in (i, apply_operator second_operator i third))
      in if in_0_99 intermediate \<and> in_0_99 answer then Some answer else None)"

text \<open>\<open>format!("{first} {} {second} {} {third}", ...)\<close>.\<close>

definition format_expression :: "i32 \<Rightarrow> arith_operator \<Rightarrow> i32 \<Rightarrow> arith_operator \<Rightarrow> i32 \<Rightarrow> ustring" where
  "format_expression a o1 b o2 c =
     show_int (sint a) @ [32] @ symbol o1 @ [32] @ show_int (sint b) @ [32] @ symbol o2 @ [32]
     @ show_int (sint c)"

definition parse_operand :: "ustring \<Rightarrow> challenge_expression_error + i32" where
  "parse_operand v =
     (case parse_i32 v of
        None \<Rightarrow> Inl ChallengeExpressionError
      | Some n \<Rightarrow> if in_0_99 (word_of_int n) then Inr (word_of_int n)
                 else Inl ChallengeExpressionError)"

definition parse_operator :: "ustring \<Rightarrow> challenge_expression_error + arith_operator" where
  "parse_operator v =
     (if v = [43] then Inr Add
      else if v = [45] then Inr Subtract
      else if v = [0xD7] then Inr Multiply
      else Inl ChallengeExpressionError)"

definition answer_hmac :: "crypto \<Rightarrow> 'r arithmetic_verifier \<Rightarrow> ustring \<Rightarrow> string" where
  "answer_hmac cr v answer = hex_encode cr (hmac_sha256 cr (av_key v) (as_bytes answer))"

definition answer_hmac_for_expression ::
  "crypto \<Rightarrow> 'r arithmetic_verifier \<Rightarrow> ustring \<Rightarrow> challenge_expression_error + string" where
  "answer_hmac_for_expression cr v expression =
     (case split_whitespace expression of
        [p0, p1, p2, p3, p4] \<Rightarrow>
          (case parse_operand p0 of Inl e \<Rightarrow> Inl e | Inr first \<Rightarrow>
          (case parse_operator p1 of Inl e \<Rightarrow> Inl e | Inr first_operator \<Rightarrow>
          (case parse_operand p2 of Inl e \<Rightarrow> Inl e | Inr second \<Rightarrow>
          (case parse_operator p3 of Inl e \<Rightarrow> Inl e | Inr second_operator \<Rightarrow>
          (case parse_operand p4 of Inl e \<Rightarrow> Inl e | Inr third \<Rightarrow>
             if format_expression first first_operator second second_operator third \<noteq> expression
             then Inl ChallengeExpressionError
             else
               (case bounded_answer first first_operator second second_operator third of
                  None \<Rightarrow> Inl ChallengeExpressionError
                | Some answer \<Rightarrow> Inr (answer_hmac cr v (show_int (sint answer)))))))))
      | _ \<Rightarrow> Inl ChallengeExpressionError)"

definition random_operator :: "'r random_range \<Rightarrow> 'r \<Rightarrow> arith_operator \<times> 'r" where
  "random_operator rr g =
     (let (n, g) = rr 0 2 g
      in (if n = 0 then Add else if n = 1 then Subtract else Multiply, g))"

definition random_candidate :: "'r random_range \<Rightarrow> 'r \<Rightarrow> (ustring \<times> i32) option \<times> 'r" where
  "random_candidate rr g =
     (let (a, g) = rr 0 99 g; (b, g) = rr 0 99 g; (c, g) = rr 0 99 g;
          (o1, g) = random_operator rr g; (o2, g) = random_operator rr g;
          first = word_of_int a; second = word_of_int b; third = word_of_int c
      in (case bounded_answer first o1 second o2 third of
            None \<Rightarrow> (None, g)
          | Some answer \<Rightarrow> (Some (format_expression first o1 second o2 third, answer), g)))"

definition MAX_RANDOM_CANDIDATES :: nat where
  "MAX_RANDOM_CANDIDATES = 100"

definition FALLBACK_EXPRESSION :: ustring where
  "FALLBACK_EXPRESSION = lit ''7 + 5 - 3''"

definition FALLBACK_ANSWER :: i32 where
  "FALLBACK_ANSWER = 9"

text \<open>\<open>(0..n).find_map(|_| random_candidate(rng))\<close>.\<close>

fun find_candidate :: "nat \<Rightarrow> 'r random_range \<Rightarrow> 'r \<Rightarrow> (ustring \<times> i32) option \<times> 'r" where
  "find_candidate 0 rr g = (None, g)"
| "find_candidate (Suc n) rr g =
     (case random_candidate rr g of
        (Some c, g') \<Rightarrow> (Some c, g')
      | (None, g') \<Rightarrow> find_candidate n rr g')"

definition generate ::
  "crypto \<Rightarrow> 'r random_range \<Rightarrow> 'r arithmetic_verifier \<Rightarrow> timestamp
   \<Rightarrow> generated_challenge \<times> 'r arithmetic_verifier" where
  "generate cr rr v now =
     (let (found, g) = find_candidate MAX_RANDOM_CANDIDATES rr (av_rng v);
          (expression, answer) =
            (case found of None \<Rightarrow> (FALLBACK_EXPRESSION, FALLBACK_ANSWER) | Some c \<Rightarrow> c)
      in (\<lparr>gc_expression = expression,
           gc_answer_hmac = answer_hmac cr v (show_int (sint answer)),
           gc_hmac_key_version = av_key_version v,
           gc_created_at = now,
           gc_expires_at = now + minutes 2,
           gc_max_attempts = 3\<rparr>,
          v\<lparr>av_rng := g\<rparr>))"

definition normalize_answer :: "crypto \<Rightarrow> ustring \<Rightarrow> ustring option" where
  "normalize_answer cr raw =
     (let value = trim (nfkc cr raw);
          value = (case strip_prefix [43] value of None \<Rightarrow> value | Some u \<Rightarrow> u)
      in if value = [] \<or> \<not> list_all is_ascii_digit value then None
         else let canonical = dropWhile (\<lambda>c. c = 48) value
              in Some (if canonical = [] then [48] else canonical))"

definition evaluate ::
  "crypto \<Rightarrow> 'r arithmetic_verifier \<Rightarrow> ustring \<Rightarrow> string \<Rightarrow> answer_kind" where
  "evaluate cr v raw expected_hmac =
     (case normalize_answer cr raw of
        None \<Rightarrow> NonNumeric
      | Some answer \<Rightarrow>
          (case hex_decode cr expected_hmac of
             None \<Rightarrow> Incorrect
           | Some expected_tag \<Rightarrow>
               if hmac_verify cr (av_key v) (as_bytes answer) expected_tag
               then Correct else Incorrect))"

text \<open>What the code relies on of the third-party functions.\<close>

definition rng_in_range :: "'r random_range \<Rightarrow> bool" where
  "rng_in_range rr \<longleftrightarrow> (\<forall>lo hi g. lo \<le> hi \<longrightarrow> lo \<le> fst (rr lo hi g) \<and> fst (rr lo hi g) \<le> hi)"

definition crypto_documented :: "crypto \<Rightarrow> bool" where
  "crypto_documented cr \<longleftrightarrow>
     (\<forall>k m t. hmac_verify cr k m t \<longleftrightarrow> t = hmac_sha256 cr k m)
     \<and> (\<forall>bs. hex_decode cr (hex_encode cr bs) = Some bs)
     \<and> (\<forall>t. (\<forall>c \<in> set t. c < 128) \<longrightarrow> nfkc cr t = t)"

subsection \<open>The interface of a verifier\<close>

text \<open>The verifier after generating challenges at a list of instants.\<close>

fun after_generating ::
  "('v \<Rightarrow> timestamp \<Rightarrow> generated_challenge \<times> 'v) \<Rightarrow> 'v \<Rightarrow> timestamp list \<Rightarrow> 'v" where
  "after_generating gen v [] = v"
| "after_generating gen v (t # ts) = after_generating gen (snd (gen v t)) ts"

text \<open>
  \<open>trait ChallengeVerifier\<close>. A client generates a challenge for one user, stores it, and
  evaluates answers later against the stored tag, possibly after the verifier has generated
  challenges for others. What it relies on: a generated challenge carries the verifier's
  key version, opens at the given instant and admits at least one attempt, and generating
  changes neither the key version nor the verdict on any answer.
\<close>

locale challenge_verifier =
  fixes key_version :: "'v \<Rightarrow> i64"
    and generate_challenge :: "'v \<Rightarrow> timestamp \<Rightarrow> generated_challenge \<times> 'v"
    and evaluate_answer :: "'v \<Rightarrow> ustring \<Rightarrow> string \<Rightarrow> answer_kind"
  assumes generated_key_version:
      "gc_hmac_key_version (fst (generate_challenge v now)) = key_version v"
    and generated_window: "gc_created_at (fst (generate_challenge v now)) = now"
      "now < gc_expires_at (fst (generate_challenge v now))"
    and generated_attempts: "0 < gc_max_attempts (fst (generate_challenge v now))"
    and key_version_stable: "key_version (snd (generate_challenge v now)) = key_version v"
    and evaluate_stable: "evaluate_answer (snd (generate_challenge v now)) = evaluate_answer v"
begin

lemma after_generating_evaluate:
  "evaluate_answer (after_generating generate_challenge v ts) = evaluate_answer v"
  by (induction ts arbitrary: v) (simp_all add: evaluate_stable)

lemma after_generating_key_version: "key_version (after_generating generate_challenge v ts) = key_version v"
  by (induction ts arbitrary: v) (simp_all add: key_version_stable)

lemma fresh_challenge_open: "\<not> is_expired (fst (generate_challenge v now)) now"
  using generated_window by (simp add: is_expired_def not_le)

end

interpretation arithmetic: challenge_verifier av_key_version "generate cr rr" "evaluate cr"
  by unfold_locales
    (auto simp: generate_def Let_def evaluate_def duration_defs word_less_nat_alt
      split: prod.splits intro!: ext split: option.splits)

subsection \<open>Reference arithmetic\<close>

text \<open>The value of an expression by the usual precedence, over unbounded integers.\<close>

fun int_operator :: "arith_operator \<Rightarrow> int \<Rightarrow> int \<Rightarrow> int" where
  "int_operator Add l r = l + r"
| "int_operator Subtract l r = l - r"
| "int_operator Multiply l r = l * r"

definition binds_tighter :: "arith_operator \<Rightarrow> arith_operator \<Rightarrow> bool" where
  "binds_tighter p q \<longleftrightarrow> p = Multiply \<and> q \<noteq> Multiply"

definition expression_steps :: "int \<Rightarrow> arith_operator \<Rightarrow> int \<Rightarrow> arith_operator \<Rightarrow> int \<Rightarrow> int \<times> int" where
  "expression_steps a p b q c =
     (if binds_tighter q p
      then (int_operator q b c, int_operator p a (int_operator q b c))
      else (int_operator p a b, int_operator q (int_operator p a b) c))"

lemma sint_small: "- (2 ^ 31) \<le> n \<Longrightarrow> n < 2 ^ 31 \<Longrightarrow> sint (word_of_int n :: i32) = n"
  by (simp add: sint_sbintrunc' signed_take_bit_int_eq_self)

lemma precedence_less_iff: "precedence p < precedence q \<longleftrightarrow> binds_tighter q p"
  by (cases p; cases q) (simp_all add: binds_tighter_def)

lemma apply_operator_of_int:
  "apply_operator p (word_of_int l) (word_of_int r) = word_of_int (int_operator p l r)"
  by (cases p) simp_all

lemma mult_range_99:
  fixes a b :: int
  assumes "0 \<le> a" "a \<le> 99" "0 \<le> b" "b \<le> 99"
  shows "0 \<le> a * b \<and> a * b \<le> 9801"
proof -
  have "a * b \<le> 99 * 99" using assms by (intro mult_mono) auto
  then show ?thesis using assms by simp
qed

lemma int_operator_first_range:
  assumes "0 \<le> a" "a \<le> 99" "0 \<le> b" "b \<le> 99"
  shows "- 99 \<le> int_operator p a b \<and> int_operator p a b \<le> 9801"
proof -
  have "- 99 \<le> a * b \<and> a * b \<le> 9801" using mult_range_99 [OF assms] by linarith
  then show ?thesis using assms by (cases p) auto
qed

lemma int_operator_second_range:
  assumes "- 99 \<le> i" "i \<le> 9801" "0 \<le> c" "c \<le> 99"
  shows "\<bar>int_operator p i c\<bar> < 2 ^ 31 \<and> \<bar>int_operator p c i\<bar> < 2 ^ 31"
proof -
  have "\<bar>i * c\<bar> \<le> 9801 * 99"
    unfolding abs_mult using assms by (intro mult_mono) auto
  then show ?thesis using assms by (cases p) (auto simp: mult.commute)
qed

text \<open>On operands in range no step wraps, so the words carry the integer results.\<close>

lemma bounded_answer_of_int:
  assumes "0 \<le> a" "a \<le> 99" "0 \<le> b" "b \<le> 99" "0 \<le> c" "c \<le> 99"
  shows "bounded_answer (word_of_int a) p (word_of_int b) q (word_of_int c) =
    (let (i, r) = expression_steps a p b q c
     in if 0 \<le> i \<and> i \<le> 99 \<and> 0 \<le> r \<and> r \<le> 99 then Some (word_of_int r) else None)"
proof (cases "binds_tighter q p")
  case True
  have i: "- 99 \<le> int_operator q b c \<and> int_operator q b c \<le> 9801"
    using assms by (intro int_operator_first_range)
  have r: "\<bar>int_operator p a (int_operator q b c)\<bar> < 2 ^ 31"
    using i assms int_operator_second_range [of "int_operator q b c" a p] by simp
  show ?thesis
    using True i r
    by (simp add: bounded_answer_def expression_steps_def precedence_less_iff
        apply_operator_of_int in_0_99_def Let_def sint_small)
next
  case False
  have i: "- 99 \<le> int_operator p a b \<and> int_operator p a b \<le> 9801"
    using assms by (intro int_operator_first_range)
  have r: "\<bar>int_operator q (int_operator p a b) c\<bar> < 2 ^ 31"
    using i assms int_operator_second_range [of "int_operator p a b" c q] by simp
  show ?thesis
    using False i r
    by (simp add: bounded_answer_def expression_steps_def precedence_less_iff
        apply_operator_of_int in_0_99_def Let_def sint_small)
qed

lemma bounded_answer_in_range: "bounded_answer a p b q c = Some r \<Longrightarrow> in_0_99 r"
  by (auto simp: bounded_answer_def Let_def split: if_splits prod.splits)

subsection \<open>The canonical form and its parser\<close>

lemma parse_operator_symbol [simp]: "parse_operator (symbol p) = Inr p"
  by (cases p) (simp_all add: parse_operator_def)

lemma symbol_word: "symbol p \<noteq> [] \<and> (\<forall>c \<in> set (symbol p). \<not> is_whitespace c)"
  by (cases p) (simp_all add: is_whitespace_def)

lemma parse_operand_show:
  assumes "in_0_99 a"
  shows "parse_operand (show_int (sint a)) = Inr a"
proof -
  have "parse_i32 (show_int (sint a)) = Some (sint a)"
    using assms by (intro parse_i32_show_int) (auto simp: in_0_99_def)
  then show ?thesis using assms by (simp add: parse_operand_def)
qed

lemma show_in_range_word:
  assumes "in_0_99 a"
  shows "show_int (sint a) \<noteq> [] \<and> (\<forall>c \<in> set (show_int (sint a)). \<not> is_whitespace c)"
  using assms show_nat_no_whitespace by (auto simp: in_0_99_def show_int_nat)

lemma split_format_expression:
  assumes "in_0_99 a" "in_0_99 b" "in_0_99 c"
  shows "split_whitespace (format_expression a p b q c) =
    [show_int (sint a), symbol p, show_int (sint b), symbol q, show_int (sint c)]"
proof -
  have "is_whitespace 32" by (simp add: is_whitespace_def)
  then show ?thesis
    using assms [THEN show_in_range_word] symbol_word
    by (simp add: format_expression_def split_whitespace_word split_whitespace_last)
qed

lemma answer_hmac_for_canonical:
  assumes "in_0_99 a" "in_0_99 b" "in_0_99 c" "bounded_answer a p b q c = Some r"
  shows "answer_hmac_for_expression cr v (format_expression a p b q c) =
    Inr (answer_hmac cr v (show_int (sint r)))"
  using assms
  by (simp add: answer_hmac_for_expression_def split_format_expression parse_operand_show)

lemma parse_operand_range: "parse_operand v = Inr a \<Longrightarrow> in_0_99 a"
  by (auto simp: parse_operand_def split: option.splits if_splits)

text \<open>The parser accepts exactly the canonical forms.\<close>

lemma answer_hmac_for_expression_Inr:
  assumes "answer_hmac_for_expression cr v e = Inr h"
  obtains a p b q c r where "in_0_99 a" "in_0_99 b" "in_0_99 c"
    and "e = format_expression a p b q c" and "bounded_answer a p b q c = Some r"
    and "h = answer_hmac cr v (show_int (sint r))"
proof -
  obtain p0 p1 p2 p3 p4 where s: "split_whitespace e = [p0, p1, p2, p3, p4]"
    using assms by (auto simp: answer_hmac_for_expression_def split: list.splits)
  with assms obtain a p b q c r where *: "parse_operand p0 = Inr a" "parse_operand p2 = Inr b"
    "parse_operand p4 = Inr c" "e = format_expression a p b q c"
    "bounded_answer a p b q c = Some r" "h = answer_hmac cr v (show_int (sint r))"
    by (auto simp: answer_hmac_for_expression_def split: sum.splits if_splits option.splits)
  show ?thesis using that [OF *(1-3) [THEN parse_operand_range] *(4-6)] .
qed

subsection \<open>Generated candidates\<close>

lemma in_0_99_of_int: "0 \<le> n \<Longrightarrow> n \<le> 99 \<Longrightarrow> in_0_99 (word_of_int n)"
  by (simp add: in_0_99_def sint_small)

lemma random_candidate_canonical:
  assumes "rng_in_range rr" and "random_candidate rr g = (Some (e, r), g')"
  shows "\<exists>a p b q c. in_0_99 a \<and> in_0_99 b \<and> in_0_99 c \<and> e = format_expression a p b q c
    \<and> bounded_answer a p b q c = Some r"
proof -
  have rng: "0 \<le> fst (rr 0 99 h) \<and> fst (rr 0 99 h) \<le> 99" for h
    using assms(1) by (simp add: rng_in_range_def)
  let ?a = "fst (rr 0 99 g)" and ?g1 = "snd (rr 0 99 g)"
  let ?b = "fst (rr 0 99 ?g1)" and ?g2 = "snd (rr 0 99 ?g1)"
  let ?c = "fst (rr 0 99 ?g2)" and ?g3 = "snd (rr 0 99 ?g2)"
  let ?p = "fst (random_operator rr ?g3)" and ?g4 = "snd (random_operator rr ?g3)"
  let ?q = "fst (random_operator rr ?g4)"
  have "e = format_expression (word_of_int ?a) ?p (word_of_int ?b) ?q (word_of_int ?c)"
    and "bounded_answer (word_of_int ?a) ?p (word_of_int ?b) ?q (word_of_int ?c) = Some r"
    using assms(2)
    by (auto simp: random_candidate_def Let_def case_prod_beta split: option.splits)
  then show ?thesis using rng in_0_99_of_int by blast
qed

lemma find_candidate_canonical:
  assumes "rng_in_range rr" and "find_candidate n rr g = (Some (e, r), g')"
  shows "\<exists>a p b q c. in_0_99 a \<and> in_0_99 b \<and> in_0_99 c \<and> e = format_expression a p b q c
    \<and> bounded_answer a p b q c = Some r"
  using assms(2)
proof (induction n arbitrary: g)
  case 0
  then show ?case by simp
next
  case (Suc n)
  obtain m h where m: "random_candidate rr g = (m, h)" by fastforce
  show ?case
  proof (cases m)
    case None
    with Suc m show ?thesis by simp
  next
    case (Some x)
    with Suc.prems m have "random_candidate rr g = (Some (e, r), g')" by simp
    with assms(1) show ?thesis by (rule random_candidate_canonical)
  qed
qed

lemma show_single_digits:
  "show_int 7 = [55]" "show_int 5 = [53]" "show_int 3 = [51]"
  by (simp_all add: show_int_def show_nat_single)

lemma fallback_canonical:
  "FALLBACK_EXPRESSION = format_expression 7 Add 5 Subtract 3"
  "bounded_answer 7 Add 5 Subtract 3 = Some FALLBACK_ANSWER"
  by (simp_all add: FALLBACK_EXPRESSION_def FALLBACK_ANSWER_def format_expression_def
      show_single_digits bounded_answer_def in_0_99_def Let_def)

lemma generate_canonical:
  assumes "rng_in_range rr"
  shows "\<exists>a p b q c r. in_0_99 a \<and> in_0_99 b \<and> in_0_99 c
    \<and> gc_expression (fst (generate cr rr v now)) = format_expression a p b q c
    \<and> bounded_answer a p b q c = Some r
    \<and> gc_answer_hmac (fst (generate cr rr v now)) = answer_hmac cr v (show_int (sint r))"
proof -
  obtain found g where f: "find_candidate MAX_RANDOM_CANDIDATES rr (av_rng v) = (found, g)"
    by fastforce
  show ?thesis
  proof (cases found)
    case None
    have "in_0_99 7" "in_0_99 5" "in_0_99 3" by (simp_all add: in_0_99_def)
    moreover have "gc_expression (fst (generate cr rr v now)) = format_expression 7 Add 5 Subtract 3"
      and "gc_answer_hmac (fst (generate cr rr v now))
           = answer_hmac cr v (show_int (sint FALLBACK_ANSWER))"
      using f None by (simp_all add: generate_def fallback_canonical(1))
    ultimately show ?thesis using fallback_canonical(2) by blast
  next
    case (Some x)
    obtain e r where x: "x = (e, r)" by fastforce
    with f Some assms obtain a p b q c where
      "in_0_99 a" "in_0_99 b" "in_0_99 c" "e = format_expression a p b q c"
      "bounded_answer a p b q c = Some r"
      using find_candidate_canonical by metis
    moreover have "gc_expression (fst (generate cr rr v now)) = e"
      and "gc_answer_hmac (fst (generate cr rr v now)) = answer_hmac cr v (show_int (sint r))"
      using f Some x by (simp_all add: generate_def)
    ultimately show ?thesis by blast
  qed
qed

subsection \<open>Answers\<close>

lemma dropWhile_zeros:
  "dropWhile (\<lambda>c. c = 48) (replicate k 48 @ show_nat n)
   = (if n = 0 then [] else show_nat n)"
proof -
  have "dropWhile (\<lambda>c. c = 48) (show_nat n) = (if n = 0 then [] else show_nat n)"
    using show_nat_hd_nonzero [of n] by (cases "show_nat n"; cases "n = 0") (auto simp: show_nat_single)
  moreover have "dropWhile (\<lambda>c. c = 48) (replicate k 48 @ t) = dropWhile (\<lambda>c. c = 48) t" for t
    by (induction k) simp_all
  ultimately show ?thesis by metis
qed

text \<open>
  Every spelling of a number the user may send: ASCII blanks around it, one plus sign,
  leading zeros.
\<close>

definition answer_spelling :: "ustring \<Rightarrow> bool \<Rightarrow> nat \<Rightarrow> nat \<Rightarrow> ustring \<Rightarrow> ustring" where
  "answer_spelling xs sg k n ys =
     xs @ ((if sg then [43] else []) @ replicate k 48 @ show_nat n) @ ys"

definition ascii_blank :: "ustring \<Rightarrow> bool" where
  "ascii_blank xs \<longleftrightarrow> list_all (\<lambda>c. is_whitespace c \<and> c < 128) xs"

lemma normalize_spelling:
  assumes "crypto_documented cr" and "ascii_blank xs" and "ascii_blank ys"
  shows "normalize_answer cr (answer_spelling xs sg k n ys) = Some (show_nat n)"
proof -
  let ?body = "(if sg then [43] else []) @ replicate k 48 @ show_nat n"
  have body: "\<forall>c \<in> set ?body. \<not> is_whitespace c \<and> c < 128"
    using show_nat_digits [of n] digit_not_whitespace
    by (auto simp: is_ascii_digit_def is_whitespace_def)
  have "nfkc cr (answer_spelling xs sg k n ys) = answer_spelling xs sg k n ys"
  proof -
    have "\<forall>c \<in> set (answer_spelling xs sg k n ys). c < 128"
      using assms(2,3) body by (auto simp: answer_spelling_def ascii_blank_def list_all_iff)
    with assms(1) show ?thesis by (simp add: crypto_documented_def)
  qed
  moreover have "trim (answer_spelling xs sg k n ys) = ?body"
    unfolding answer_spelling_def using assms(2,3) body
    by (intro trim_padded) (auto simp: ascii_blank_def list_all_iff)
  moreover have "list_all is_ascii_digit (replicate k 48 @ show_nat n)"
    using show_nat_digits [of n] by (auto simp: list_all_iff is_ascii_digit_def)
  moreover have "hd (replicate k 48 @ show_nat n) \<noteq> 43"
    using hd_show_nat_digit [of n] by (cases k) (auto simp: is_ascii_digit_def)
  then have "strip_prefix [43] (replicate k 48 @ show_nat n) = None"
    by (cases "replicate k 48 @ show_nat n") (auto simp: strip_prefix_def)
  ultimately show ?thesis
    by (simp add: normalize_answer_def Let_def dropWhile_zeros show_nat_single
        strip_prefix_def [of _ "[43] @ _"] strip_prefix_def [of _ "43 # _"]
        del: dropWhile_eq_Nil_conv)
qed

lemma evaluate_spelling:
  assumes "crypto_documented cr" and "ascii_blank xs" and "ascii_blank ys"
  shows "evaluate cr v (answer_spelling xs sg k n ys) (answer_hmac cr v t) =
    (if hmac_sha256 cr (av_key v) (as_bytes (show_nat n)) = hmac_sha256 cr (av_key v) (as_bytes t)
     then Correct else Incorrect)"
  using assms
  by (simp add: evaluate_def normalize_spelling answer_hmac_def crypto_documented_def)

lemma generated_answer_accepted:
  assumes "rng_in_range rr" and "crypto_documented cr"
  shows "\<exists>a p b q c n. in_0_99 a \<and> in_0_99 b \<and> in_0_99 c \<and> n \<le> 99
    \<and> gc_expression (fst (generate cr rr v now)) = format_expression a p b q c
    \<and> int n = snd (expression_steps (sint a) p (sint b) q (sint c))
    \<and> (\<forall>xs sg k ys ts. ascii_blank xs \<and> ascii_blank ys \<longrightarrow>
         evaluate cr (after_generating (generate cr rr) v ts) (answer_spelling xs sg k n ys)
           (gc_answer_hmac (fst (generate cr rr v now))) = Correct)"
proof -
  obtain a p b q c r where g: "in_0_99 a" "in_0_99 b" "in_0_99 c"
    "gc_expression (fst (generate cr rr v now)) = format_expression a p b q c"
    "bounded_answer a p b q c = Some r"
    "gc_answer_hmac (fst (generate cr rr v now)) = answer_hmac cr v (show_int (sint r))"
    using generate_canonical [OF assms(1)] by metis
  let ?n = "nat (sint r)"
  have r: "0 \<le> sint r" "sint r \<le> 99"
    using bounded_answer_in_range [OF g(5)] by (auto simp: in_0_99_def)
  have v: "sint r = snd (expression_steps (sint a) p (sint b) q (sint c))"
    using g(1-3) g(5) bounded_answer_of_int [of "sint a" "sint b" "sint c" p q]
    by (auto simp: in_0_99_def Let_def case_prod_beta sint_small split: if_splits)
  have "evaluate cr (after_generating (generate cr rr) v ts) (answer_spelling xs sg k ?n ys)
      (gc_answer_hmac (fst (generate cr rr v now))) = Correct"
    if "ascii_blank xs \<and> ascii_blank ys" for xs sg k ys ts
    using that assms(2) r g(6)
    by (simp add: arithmetic.after_generating_evaluate evaluate_spelling show_int_nat)
  then show ?thesis using g(1-4) r v by (metis nat_le_iff of_nat_numeral int_nat_eq)
qed

subsection \<open>An instance of the parameters\<close>

text \<open>
  A keyed injection for the tag, one character per byte for the coding and the identity for
  normalisation meet the documented behaviour; the smallest number of each range is an
  admissible sequence of draws.
\<close>

definition sample_crypto :: crypto where
  "sample_crypto =
     \<lparr>hmac_sha256 = (\<lambda>k m. k @ m), hmac_verify = (\<lambda>k m t. t = k @ m),
      hex_encode = map (\<lambda>b. char_of (unat b)),
      hex_decode = (\<lambda>s. Some (map (\<lambda>c. of_nat (of_char c)) s)), nfkc = (\<lambda>t. t)\<rparr>"

definition sample_range :: "unit random_range" where
  "sample_range lo hi g = (lo, g)"

definition sample_verifier :: "unit arithmetic_verifier" where
  "sample_verifier = \<lparr>av_rng = (), av_key = [1, 2], av_key_version = 1\<rparr>"

lemma sample_crypto_documented: "crypto_documented sample_crypto"
proof -
  have "of_nat (of_char (char_of (unat b) :: char)) = b" for b :: byte
  proof -
    have "unat b < 256" by (rule unat_byte_less)
    then show ?thesis by (simp add: of_char_of)
  qed
  then show ?thesis by (simp add: crypto_documented_def sample_crypto_def comp_def)
qed

lemma sample_range_in_range: "rng_in_range sample_range"
  by (simp add: rng_in_range_def sample_range_def)

subsection \<open>Properties\<close>

text \<open>
  C24: on operands between 0 and 99 the checker of candidate expressions agrees with integer
  arithmetic under the usual precedence: it returns the value exactly when the intermediate
  and the final result are between 0 and 99, and no machine operation wraps around.
\<close>

theorem bounded_answer_reference:
  assumes "0 \<le> a" "a \<le> 99" "0 \<le> b" "b \<le> 99" "0 \<le> c" "c \<le> 99"
  shows "bounded_answer (word_of_int a) p (word_of_int b) q (word_of_int c) =
    (let (i, r) = expression_steps a p b q c
     in if 0 \<le> i \<and> i \<le> 99 \<and> 0 \<le> r \<and> r \<le> 99 then Some (word_of_int r) else None)"
  using assms by (rule bounded_answer_of_int)

theorem bounded_answer_reference_witness:
  "bounded_answer 2 Add 3 Multiply 4 = Some 14"
  using bounded_answer_reference [of 2 3 4 Add Multiply]
  by (simp add: expression_steps_def binds_tighter_def)

text \<open>
  The key-rotation path recomputes exactly the tag that generation stored: parsing the
  persisted expression of any generated challenge succeeds, and under any verifier it yields
  that verifier's tag of the same answer.
\<close>

theorem generate_rehash_roundtrip:
  assumes "rng_in_range rr"
  shows "answer_hmac_for_expression cr v (gc_expression (fst (generate cr rr v now)))
      = Inr (gc_answer_hmac (fst (generate cr rr v now)))
    \<and> (\<exists>answer. gc_answer_hmac (fst (generate cr rr v now)) = answer_hmac cr v answer
         \<and> answer_hmac_for_expression cr w (gc_expression (fst (generate cr rr v now)))
           = Inr (answer_hmac cr w answer))"
  using generate_canonical [OF assms, of cr v now]
  by (auto simp: answer_hmac_for_canonical)

theorem generate_rehash_roundtrip_witness:
  "rng_in_range sample_range
   \<and> answer_hmac_for_expression sample_crypto sample_verifier
       (gc_expression (fst (generate sample_crypto sample_range sample_verifier 0)))
     = Inr (gc_answer_hmac (fst (generate sample_crypto sample_range sample_verifier 0)))"
  using generate_rehash_roundtrip [OF sample_range_in_range, of sample_crypto sample_verifier 0
      sample_verifier] sample_range_in_range
  by simp

text \<open>
  C20: whoever sends the value of the expression is accepted: for every generated challenge
  there is a number between 0 and 99, the value of the displayed expression, such that each
  spelling of it (surrounding blanks, a plus sign, leading zeros) evaluates to \<open>Correct\<close>,
  also after the verifier has generated any number of further challenges.
\<close>

theorem correct_answer_accepted:
  assumes "rng_in_range rr" and "crypto_documented cr"
  shows "\<exists>a p b q c n. in_0_99 a \<and> in_0_99 b \<and> in_0_99 c \<and> n \<le> 99
    \<and> gc_expression (fst (generate cr rr v now)) = format_expression a p b q c
    \<and> int n = snd (expression_steps (sint a) p (sint b) q (sint c))
    \<and> (\<forall>xs sg k ys ts. ascii_blank xs \<and> ascii_blank ys \<longrightarrow>
         evaluate cr (after_generating (generate cr rr) v ts) (answer_spelling xs sg k n ys)
           (gc_answer_hmac (fst (generate cr rr v now))) = Correct)"
  using assms by (rule generated_answer_accepted)

theorem correct_answer_accepted_witness:
  "crypto_documented sample_crypto \<and> rng_in_range sample_range
   \<and> (\<exists>n \<le> 99. evaluate sample_crypto sample_verifier (answer_spelling [32] True 2 n [10])
        (gc_answer_hmac (fst (generate sample_crypto sample_range sample_verifier 0))) = Correct)"
proof -
  have "ascii_blank [32] \<and> ascii_blank [10]" by (simp add: ascii_blank_def is_whitespace_def)
  then have "\<exists>n \<le> 99. evaluate sample_crypto
      (after_generating (generate sample_crypto sample_range) sample_verifier [])
      (answer_spelling [32] True 2 n [10])
      (gc_answer_hmac (fst (generate sample_crypto sample_range sample_verifier 0))) = Correct"
    using correct_answer_accepted [OF sample_range_in_range sample_crypto_documented,
        of sample_verifier 0] by blast
  then show ?thesis
    using sample_range_in_range sample_crypto_documented by simp
qed

end
