(* ===== verification/Owner_Input.thy ===== *)
theory Owner_Input
  imports CH_Text
begin

section \<open>Parsing of owner input\<close>

text \<open>
  Models \<open>src/owner/commands.rs\<close> and \<open>src/owner/claim.rs\<close>: the parser of the owner's
  commands and the parser of the one-time claim. The hexadecimal decoder of the \<open>hex\<close> crate is
  a parameter.
\<close>

subsection \<open>Commands\<close>

datatype owner_command =
    Help
  | Health
  | Inspect i64
  | Reset i64
  | Unblock i64
  | DryRun bool
  | Errors byte
  | MarkSpam
  | MarkHam

datatype owner_command_parse_error = MissingPrefix | UnknownCommand | InvalidArguments | InvalidSuffix

text \<open>\<open>str::parse\<close> at a width.\<close>

definition parse_bounded :: "nat \<Rightarrow> ustring \<Rightarrow> int option" where
  "parse_bounded w t =
     (case parse_int t of
        None \<Rightarrow> None
      | Some n \<Rightarrow> if - (2 ^ (w - 1)) \<le> n \<and> n < 2 ^ (w - 1) then Some n else None)"

definition one_positive_id :: "ustring list \<Rightarrow> owner_command_parse_error + i64" where
  "one_positive_id arguments =
     (case arguments of
        [a] \<Rightarrow>
          (case parse_bounded 64 a of
             Some chat \<Rightarrow> if 0 < chat then Inr chat else Inl InvalidArguments
           | None \<Rightarrow> Inl InvalidArguments)
      | _ \<Rightarrow> Inl InvalidArguments)"

definition normalized_error_limit :: "ustring list \<Rightarrow> owner_command_parse_error + byte" where
  "normalized_error_limit arguments =
     (if 1 < length arguments then Inl InvalidArguments
      else
        (case arguments of
           [] \<Rightarrow> Inr 10
         | a # _ \<Rightarrow>
             (case parse_bounded 128 a of
                None \<Rightarrow> Inr 10
              | Some v \<Rightarrow> if v \<le> 0 then Inr 10 else Inr (word_of_int (min v 20)))))"

text \<open>\<open>str::split_once\<close> at a character.\<close>

definition split_once :: "codepoint \<Rightarrow> ustring \<Rightarrow> (ustring \<times> ustring) option" where
  "split_once c t =
     (if c \<in> set t then Some (takeWhile (\<lambda>x. x \<noteq> c) t, tl (dropWhile (\<lambda>x. x \<noteq> c) t)) else None)"

definition is_ascii_alphanumeric :: "codepoint \<Rightarrow> bool" where
  "is_ascii_alphanumeric c \<longleftrightarrow> is_ascii_digit c \<or> 65 \<le> c \<and> c \<le> 90 \<or> 97 \<le> c \<and> c \<le> 122"

definition suffix_invalid :: "ustring \<Rightarrow> bool" where
  "suffix_invalid suffix \<longleftrightarrow>
     suffix = [] \<or> \<not> list_all (\<lambda>c. is_ascii_alphanumeric c \<or> c = 95) suffix"

definition map_result :: "('a \<Rightarrow> 'b) \<Rightarrow> 'e + 'a \<Rightarrow> 'e + 'b" where
  "map_result f r = (case r of Inl e \<Rightarrow> Inl e | Inr x \<Rightarrow> Inr (f x))"

definition command_named ::
  "ustring \<Rightarrow> ustring list \<Rightarrow> owner_command_parse_error + owner_command" where
  "command_named name arguments =
     (if name = lit ''help'' \<and> arguments = [] then Inr Help
      else if name = lit ''health'' \<and> arguments = [] then Inr Health
      else if name = lit ''inspect'' then map_result Inspect (one_positive_id arguments)
      else if name = lit ''reset'' then map_result Reset (one_positive_id arguments)
      else if name = lit ''unblock'' then map_result Unblock (one_positive_id arguments)
      else if name = lit ''dry_run'' \<and> length arguments = 1
      then (if arguments = [lit ''on''] then Inr (DryRun True)
            else if arguments = [lit ''off''] then Inr (DryRun False)
            else Inl InvalidArguments)
      else if name = lit ''errors'' then map_result Errors (normalized_error_limit arguments)
      else if name = lit ''mark_spam'' \<and> arguments = [] then Inr MarkSpam
      else if name = lit ''mark_ham'' \<and> arguments = [] then Inr MarkHam
      else if name \<in> {lit ''help'', lit ''health'', lit ''dry_run'', lit ''mark_spam'', lit ''mark_ham''}
      then Inl InvalidArguments
      else Inl UnknownCommand)"

definition parse_owner_command :: "ustring \<Rightarrow> owner_command_parse_error + owner_command" where
  "parse_owner_command input =
     (case split_whitespace input of
        [] \<Rightarrow> Inl MissingPrefix
      | token # arguments \<Rightarrow>
          (case strip_prefix (lit ''/'') token of
             None \<Rightarrow> Inl MissingPrefix
           | Some token \<Rightarrow>
               let (name, suffix) =
                     (case split_once 64 token of
                        None \<Rightarrow> (token, None) | Some (name, suffix) \<Rightarrow> (name, Some suffix))
               in if is_some_and suffix_invalid suffix then Inl InvalidSuffix
                  else command_named (ascii_lower name) arguments))"

subsection \<open>The claim\<close>

record owner_claim_context =
  oc_ordinary_message :: bool
  oc_private_chat :: bool
  oc_from_user_id :: "i64 option"
  oc_chat_id :: i64
  oc_message_id :: i64
  oc_message_date :: i64
  oc_text :: "ustring option"

datatype parsed_owner_claim =
    NotClaim
  | IgnoreClaim
  | RejectClaim i64
  | ClaimCandidate i64 i64 i64 i64 "byte list"
      \<comment> \<open>user, chat, message, date, token\<close>

definition CLAIM_TOKEN_BYTES :: nat where
  "CLAIM_TOKEN_BYTES = 32"

definition CLAIM_TOKEN_HEX_LEN :: nat where
  "CLAIM_TOKEN_HEX_LEN = CLAIM_TOKEN_BYTES * 2"

definition lower_hex_byte :: "byte \<Rightarrow> bool" where
  "lower_hex_byte b \<longleftrightarrow> 48 \<le> b \<and> b \<le> 57 \<or> 97 \<le> b \<and> b \<le> 102"

definition parse_owner_claim ::
  "(ustring \<Rightarrow> byte list option) \<Rightarrow> owner_claim_context \<Rightarrow> parsed_owner_claim" where
  "parse_owner_claim hex_decode_to_slice ctx =
     (case oc_text ctx of
        None \<Rightarrow> NotClaim
      | Some t \<Rightarrow>
          let trimmed = trim t
          in if \<not> starts_with trimmed (lit ''/claim'') then NotClaim
             else
               (case oc_from_user_id ctx of
                  None \<Rightarrow> IgnoreClaim
                | Some user \<Rightarrow>
                    if user \<le> 0 then IgnoreClaim
                    else if \<not> oc_ordinary_message ctx \<or> \<not> oc_private_chat ctx
                       \<or> oc_chat_id ctx \<le> 0 \<or> oc_message_id ctx \<le> 0 \<or> oc_message_date ctx \<le> 0
                    then IgnoreClaim
                    else if t \<noteq> trimmed then RejectClaim (oc_chat_id ctx)
                    else
                      (case strip_prefix (lit ''/claim '') t of
                         None \<Rightarrow> RejectClaim (oc_chat_id ctx)
                       | Some encoded \<Rightarrow>
                           if length (as_bytes encoded) \<noteq> CLAIM_TOKEN_HEX_LEN
                              \<or> \<not> list_all lower_hex_byte (as_bytes encoded)
                           then RejectClaim (oc_chat_id ctx)
                           else
                             (case hex_decode_to_slice encoded of
                                None \<Rightarrow> RejectClaim (oc_chat_id ctx)
                              | Some token \<Rightarrow>
                                  ClaimCandidate user (oc_chat_id ctx) (oc_message_id ctx)
                                    (oc_message_date ctx) token))))"

subsection \<open>The text of a command\<close>

fun command_text :: "owner_command \<Rightarrow> ustring list" where
  "command_text Help = [lit ''help'']"
| "command_text Health = [lit ''health'']"
| "command_text (Inspect c) = [lit ''inspect'', show_int c]"
| "command_text (Reset c) = [lit ''reset'', show_int c]"
| "command_text (Unblock c) = [lit ''unblock'', show_int c]"
| "command_text (DryRun b) = [lit ''dry_run'', if b then lit ''on'' else lit ''off'']"
| "command_text (Errors n) = [lit ''errors'', show_nat (unat n)]"
| "command_text MarkSpam = [lit ''mark_spam'']"
| "command_text MarkHam = [lit ''mark_ham'']"

text \<open>What the parser can return.\<close>

fun command_valid :: "owner_command \<Rightarrow> bool" where
  "command_valid (Inspect c) = (0 < c \<and> c < 2 ^ 63)"
| "command_valid (Reset c) = (0 < c \<and> c < 2 ^ 63)"
| "command_valid (Unblock c) = (0 < c \<and> c < 2 ^ 63)"
| "command_valid (Errors n) = (1 \<le> unat n \<and> unat n \<le> 20)"
| "command_valid _ = True"

lemma parse_bounded_show:
  "0 \<le> n \<Longrightarrow> n < 2 ^ (w - 1) \<Longrightarrow> parse_bounded w (show_int n) = Some n"
  by (simp add: parse_bounded_def show_int_def order_trans [of "- (2 ^ (w - 1))" 0 n])

lemma one_positive_id_Inr: "one_positive_id args = Inr c \<Longrightarrow> 0 < c \<and> c < 2 ^ 63"
  by (auto simp: one_positive_id_def parse_bounded_def split: list.splits option.splits if_splits)

lemma limit_word: "1 \<le> v \<Longrightarrow> v \<le> 20 \<Longrightarrow> unat (word_of_int v :: byte) = nat v"
  by (simp add: unat_eq_nat_uint uint_word_of_int take_bit_eq_mod)

lemma normalized_error_limit_Inr:
  assumes "normalized_error_limit args = Inr n"
  shows "1 \<le> unat n \<and> unat n \<le> 20"
proof -
  have "n = 10 \<or> (\<exists>v. 0 < v \<and> n = word_of_int (min v 20))"
    using assms
    by (auto simp: normalized_error_limit_def not_le split: list.splits option.splits if_splits)
  then show ?thesis
  proof
    assume "\<exists>v. 0 < v \<and> n = word_of_int (min v 20)"
    then obtain v where "0 < v" "n = word_of_int (min v 20)" by blast
    then show ?thesis using limit_word [of "min v 20"] by auto
  qed simp
qed


lemma parsed_command_valid: "parse_owner_command t = Inr c \<Longrightarrow> command_valid c"
  by (auto simp: parse_owner_command_def command_named_def map_result_def Let_def
      split: list.splits option.splits prod.splits if_splits sum.splits
      dest: one_positive_id_Inr normalized_error_limit_Inr)

definition spelled :: "ustring option \<Rightarrow> owner_command \<Rightarrow> ustring" where
  "spelled suffix c =
     (case command_text c of
        name # arguments \<Rightarrow>
          join [32] ((47 # name @ (case suffix of None \<Rightarrow> [] | Some s \<Rightarrow> 64 # s)) # arguments)
      | [] \<Rightarrow> [])"

lemma command_text_shape:
  obtains name where "command_text c = [name]" | name argument where "command_text c = [name, argument]"
  by (cases c) auto

lemma command_words_plain:
  "w \<in> set (command_text c) \<Longrightarrow> command_valid c \<Longrightarrow> w \<noteq> [] \<and> (\<forall>x \<in> set w. \<not> is_whitespace x)"
  by (cases c)
    (auto simp: show_int_nat dest: show_nat_no_whitespace split: if_splits, simp_all add: is_whitespace_def)

lemma suffix_plain:
  assumes "\<not> suffix_invalid s"
  shows "\<forall>x \<in> set s. \<not> is_whitespace x"
proof
  fix x assume "x \<in> set s"
  with assms have "is_ascii_alphanumeric x \<or> x = 95"
    by (auto simp: suffix_invalid_def list_all_iff)
  then show "\<not> is_whitespace x"
    by (auto simp: is_ascii_alphanumeric_def is_ascii_digit_def is_whitespace_def)
qed

lemma command_name_plain:
  "command_text c = name # args \<Longrightarrow> 64 \<notin> set name \<and> ascii_lower name = name"
  by (cases c) (auto simp: ascii_lower_def)

lemma split_spelled:
  assumes "command_valid c" and "\<not> is_some_and suffix_invalid suffix"
    and "command_text c = name # args"
  shows "split_whitespace (spelled suffix c)
    = (47 # name @ (case suffix of None \<Rightarrow> [] | Some s \<Rightarrow> 64 # s)) # args"
proof -
  let ?token = "47 # name @ (case suffix of None \<Rightarrow> [] | Some s \<Rightarrow> 64 # s)"
  have name: "\<forall>x \<in> set name. \<not> is_whitespace x"
    using command_words_plain [of name c] assms(1,3) by simp
  have ws: "\<not> is_whitespace 47" "\<not> is_whitespace 64" "is_whitespace 32"
    by (simp_all add: is_whitespace_def)
  have plain: "\<forall>x \<in> set ?token. \<not> is_whitespace x"
    using name assms(2) suffix_plain ws by (cases suffix) auto
  note token = split_whitespace_last [OF _ plain] split_whitespace_word [OF _ plain ws(3)]
  consider "args = []" | a where "args = [a]"
    using assms(3) by (cases c rule: command_text_shape) auto
  then show ?thesis
  proof cases
    case 1
    then show ?thesis using token(1) assms(3) by (simp add: spelled_def)
  next
    case 2
    have "split_whitespace a = [a]"
      using command_words_plain [of a c] assms(1,3) 2 by (intro split_whitespace_last) simp_all
    then show ?thesis using token(2) [of a] 2 assms(3) by (simp add: spelled_def)
  qed
qed

lemma named_command:
  assumes "command_valid c"
  shows "command_named (hd (command_text c)) (tl (command_text c)) = Inr c"
proof -
  have id: "one_positive_id [show_int n] = Inr n" if "0 < n" "n < 2 ^ 63" for n
    using that by (simp add: one_positive_id_def parse_bounded_show)
  have lim: "normalized_error_limit [show_nat (unat n)] = Inr n" if "1 \<le> unat n" "unat n \<le> 20" for n :: byte
  proof -
    define k where "k = unat n"
    have "parse_bounded 128 (show_nat k) = Some (int k)"
      using that parse_bounded_show [of "int k" 128] by (simp add: show_int_nat flip: k_def)
    moreover have "word_of_int (int k) = n" by (simp add: k_def)
    ultimately show ?thesis using that by (simp add: normalized_error_limit_def flip: k_def)
  qed
  show ?thesis
    using assms by (cases c) (simp_all add: command_named_def map_result_def id lim)
qed

lemma spelled_parses:
  assumes "command_valid c" and "\<not> is_some_and suffix_invalid suffix"
  shows "parse_owner_command (spelled suffix c) = Inr c"
proof -
  obtain name args where ct: "command_text c = name # args"
    by (cases c rule: command_text_shape) auto
  note plain = command_name_plain [OF ct]
  have "parse_owner_command (spelled suffix c) = command_named (ascii_lower name) args"
  proof (cases suffix)
    case None
    then show ?thesis
      using split_spelled [OF assms ct] plain
      by (simp add: parse_owner_command_def strip_prefix_def split_once_def)
  next
    case (Some s)
    have "takeWhile (\<lambda>x. x \<noteq> 64) (name @ 64 # s) = name" "dropWhile (\<lambda>x. x \<noteq> 64) (name @ 64 # s) = 64 # s"
      using plain takeWhile_append2 [of name "\<lambda>x. x \<noteq> 64" "64 # s"]
        dropWhile_append2 [of name "\<lambda>x. x \<noteq> 64" "64 # s"] by fastforce+
    then have "split_once 64 (name @ 64 # s) = Some (name, s)" by (simp add: split_once_def)
    then show ?thesis
      using split_spelled [OF assms ct] Some assms(2)
      by (simp add: parse_owner_command_def strip_prefix_def)
  qed
  then show ?thesis using plain named_command [OF assms(1)] ct by simp
qed

lemma strip_prefix_Some: "strip_prefix p t = Some u \<Longrightarrow> t = p @ u"
  unfolding strip_prefix_def by (metis append_take_drop_id option.distinct(1) option.inject)

lemma trim_id:
  assumes "t \<noteq> []" and "\<not> is_whitespace (hd t)" and "\<not> is_whitespace (last t)"
  shows "trim t = t"
proof -
  have "dropWhile is_whitespace t = t" using assms(1,2) by (cases t) auto
  moreover have "dropWhile is_whitespace (rev t) = rev t"
    using assms(1,3) by (cases t rule: rev_cases) auto
  ultimately show ?thesis by (simp add: trim_def trim_start_def trim_end_def)
qed

definition lower_hex :: "codepoint \<Rightarrow> bool" where
  "lower_hex c \<longleftrightarrow> 48 \<le> c \<and> c \<le> 57 \<or> 97 \<le> c \<and> c \<le> 102"

lemma hex_bytes:
  "length (as_bytes t) = n \<and> list_all lower_hex_byte (as_bytes t)
   \<longleftrightarrow> length t = n \<and> list_all lower_hex t"
proof -
  have bytes: "as_bytes t = map of_nat t" if "list_all lower_hex t"
    using that by (induction t) (auto simp: as_bytes_def utf8_char_def lower_hex_def)
  have conv: "lower_hex_byte (of_nat c) \<longleftrightarrow> lower_hex c" if "c < 128" for c
    using that by (simp add: lower_hex_byte_def lower_hex_def word_le_nat_alt unat_of_nat)
  have cont: "\<not> list_all lower_hex_byte (utf8_char c)" if "128 \<le> c" for c
  proof -
    have "unat (of_nat (0x80 + c mod 64) :: byte) = 128 + c mod 64"
      using mod_less_divisor [of 64 c] by (simp only: unat_of_nat) simp
    then have "\<not> lower_hex_byte (of_nat (0x80 + c mod 64))"
      by (simp add: lower_hex_byte_def word_le_nat_alt)
    with that show ?thesis by (simp add: utf8_char_def)
  qed
  have "list_all lower_hex_byte (as_bytes t) \<longleftrightarrow> list_all lower_hex t"
  proof (induction t)
    case Nil
    then show ?case by (simp add: as_bytes_def)
  next
    case (Cons c t)
    show ?case
    proof (cases "c < 128")
      case True
      then show ?thesis using Cons conv by (simp add: as_bytes_def utf8_char_def)
    next
      case False
      then have "\<not> list_all lower_hex_byte (utf8_char c)" using cont [of c] by simp
      moreover have "\<not> lower_hex c" using False by (simp add: lower_hex_def)
      ultimately show ?thesis by (simp add: as_bytes_def)
    qed
  qed
  then show ?thesis using bytes by auto
qed


text \<open>
  A message is a claim candidate exactly when it is an ordinary private message with
  positive identifiers whose text is the claim word, one blank and sixty-four lower-case
  hexadecimal digits, without any surrounding blank; the candidate carries the decoded token
  and the message's own user, chat and date.
\<close>

theorem claim_candidate_exact:
  "parse_owner_claim h ctx = ClaimCandidate user chat message date token \<longleftrightarrow>
     oc_from_user_id ctx = Some user \<and> 0 < user \<and> oc_ordinary_message ctx \<and> oc_private_chat ctx
     \<and> chat = oc_chat_id ctx \<and> 0 < chat \<and> message = oc_message_id ctx \<and> 0 < message
     \<and> date = oc_message_date ctx \<and> 0 < date
     \<and> (\<exists>encoded. oc_text ctx = Some (lit ''/claim '' @ encoded) \<and> length encoded = 64
          \<and> list_all lower_hex encoded \<and> h encoded = Some token)"
  (is "?l \<longleftrightarrow> ?r")
proof
  assume l: ?l
  then obtain t encoded where t: "oc_text ctx = Some t" "strip_prefix (lit ''/claim '') t = Some encoded"
    and enc: "length (as_bytes encoded) = 64 \<and> list_all lower_hex_byte (as_bytes encoded)"
    and h: "h encoded = Some token"
    by (auto simp: parse_owner_claim_def Let_def CLAIM_TOKEN_HEX_LEN_def CLAIM_TOKEN_BYTES_def
        split: option.splits if_splits)
  have "t = lit ''/claim '' @ encoded"
    by (rule strip_prefix_Some [OF t(2)])
  moreover have "length encoded = 64 \<and> list_all lower_hex encoded" using enc hex_bytes by blast
  ultimately have "\<exists>encoded. oc_text ctx = Some (lit ''/claim '' @ encoded) \<and> length encoded = 64
      \<and> list_all lower_hex encoded \<and> h encoded = Some token" using t(1) h by blast
  with l show ?r
    by (auto simp: parse_owner_claim_def Let_def split: option.splits if_splits)
next
  assume r: ?r
  then obtain encoded where enc: "oc_text ctx = Some (lit ''/claim '' @ encoded)" "length encoded = 64"
    "list_all lower_hex encoded" "h encoded = Some token" by blast
  have "length (as_bytes encoded) = 64 \<and> list_all lower_hex_byte (as_bytes encoded)"
    using enc hex_bytes by blast
  moreover have "trim (lit ''/claim '' @ encoded) = lit ''/claim '' @ encoded"
  proof (rule trim_id)
    have "encoded \<noteq> []" using enc(2) by auto
    then have "lower_hex (last encoded)" using enc(3) by (simp add: list_all_iff)
    with \<open>encoded \<noteq> []\<close> show "\<not> is_whitespace (last (lit ''/claim '' @ encoded))"
      by (auto simp: lower_hex_def is_whitespace_def)
  qed (simp_all add: is_whitespace_def)
  ultimately show ?l
    using r enc by (simp add: parse_owner_claim_def strip_prefix_def CLAIM_TOKEN_HEX_LEN_def
        CLAIM_TOKEN_BYTES_def)
qed

subsection \<open>Properties\<close>



end
