(* ===== verification/Event_Preparer.thy ===== *)
theory Event_Preparer
  imports Lifecycle_Correctness Spam_Detection Arithmetic_Challenge Owner_Input
begin

section \<open>Preparation of events\<close>

text \<open>
  Models \<open>src/telegram/models.rs\<close> and \<open>src/processing/preparer.rs\<close>: a raw update, with its
  transient content, is judged against the stored state and reduced to the body-free facts
  that are recorded. The detector, the verifier and the clock are the traits of the code:
  the functions of a \<open>preparer_services\<close> record, the two readings of the clock one preparation
  makes at most, and an explicit verifier state (generating a challenge draws random numbers).
\<close>

subsection \<open>Raw updates\<close>

datatype raw_event_kind =
    RawConnectionChanged
  | RawInboundMessage
  | RawEditedInboundMessage
  | RawManualOwnerMessage
  | RawBotBusinessMessage
  | RawImplicitOwnerMessage
  | RawMessagesDeleted
  | RawOwnerClaim
  | RawOwnerStart
  | RawOwnerCommand
  | RawIgnored

record business_connection_snapshot =
  bs_connection_id :: string
  bs_owner_user_id :: i64
  bs_owner_chat_id :: "i64 option"
  bs_enabled :: bool
  bs_rights :: rights

record owner_reply_snapshot =
  or_body :: ustring
  or_content_type :: string
  or_source_chat_id :: "i64 option"
  or_source_message_id :: "i64 option"

record owner_command_snapshot =
  os_from_user_id :: "i64 option"
  os_private_chat :: bool
  os_text :: ustring
  os_replied_sample :: "owner_reply_snapshot option"

record raw_business_event =
  raw_kind :: raw_event_kind
  raw_connection_id :: "string option"
  raw_chat_id :: "i64 option"
  raw_message_id :: "i64 option"
  raw_media_group_id :: "string option"
  raw_content :: "message_content option"
  raw_deleted_message_ids :: "i64 list"
  raw_connection :: "business_connection_snapshot option"
  raw_owner_claim :: "parsed_owner_claim option"
  raw_owner_command :: "owner_command_snapshot option"
  raw_contact_display_name :: "ustring option"
  raw_contact_username :: "ustring option"
  raw_occurred_at :: timestamp

datatype processing_error =
    StorageFailure storage_error
  | EventFailure event_error
  | SerializationFailure
  | InvalidEvent ustring

type_synonym 'a pop = "(database, processing_error, 'a) op"

abbreviation stp :: "(database, storage_error, 'a) op \<Rightarrow> 'a pop" where
  "stp m \<equiv> map_err StorageFailure m"

definition invalid_event :: "string \<Rightarrow> processing_error" where
  "invalid_event s = InvalidEvent (lit s)"

subsection \<open>The preparer and its collaborators\<close>

record ('d, 'v) preparer_services =
  svc_detect :: "'d \<Rightarrow> message_content \<Rightarrow> detection_context \<Rightarrow> detector_error + detection_result"
  svc_key_version :: "'v \<Rightarrow> i64"
  svc_generate :: "'v \<Rightarrow> timestamp \<Rightarrow> generated_challenge \<times> 'v"
  svc_evaluate :: "'v \<Rightarrow> ustring \<Rightarrow> string \<Rightarrow> answer_kind"

record ('d, 'v) event_preparer =
  ep_detector :: 'd
  ep_verifier :: 'v
  ep_destructive_mode :: bool

text \<open>The first and the second reading of the clock during a preparation.\<close>

type_synonym clock_readings = "timestamp \<times> timestamp"

definition read_owner_lifecycle_state :: "(database, storage_error, owner_row) op" where
  "read_owner_lifecycle_state d =
     (case load_owner_identity d of
        Inr (identity, t) \<Rightarrow> Inr (OwnerReady identity, t)
      | Inl (InvalidOwnerIdentity message) \<Rightarrow>
          if message = ''owner identity is pending initialization''
          then Inr (OwnerPending, d) else Inl (InvalidOwnerIdentity message)
      | Inl e \<Rightarrow> Inl e)"

definition owner_chat_for_user :: "i64 \<Rightarrow> i64 option pop" where
  "owner_chat_for_user user =
     and_then (stp read_owner_lifecycle_state) (\<lambda>s.
       ret (case s of
              OwnerPending \<Rightarrow> Some user
            | OwnerReady (Claimed stored_user chat _ _ _) \<Rightarrow>
                if stored_user = user then Some chat else None
            | OwnerReady Unclaimed \<Rightarrow> None))"

definition trace_owner_identity :: "raw_business_event \<Rightarrow> (i64 option \<times> i64 option) pop" where
  "trace_owner_identity raw =
     (case raw_connection raw of
        Some connection \<Rightarrow> ret (Some (bs_owner_user_id connection), bs_owner_chat_id connection)
      | None \<Rightarrow>
          and_then
            (case raw_connection_id raw of
               None \<Rightarrow> ret None
             | Some cid \<Rightarrow> stp (find_business_connection cid)) (\<lambda>found.
          and_then
            (case found of
               Some b \<Rightarrow> ret (Some b)
             | None \<Rightarrow> stp find_single_business_connection) (\<lambda>known.
            case known of
              None \<Rightarrow> ret (None, None)
            | Some b \<Rightarrow>
                and_then (owner_chat_for_user (bc_owner_user_id b)) (\<lambda>chat.
                  ret (Some (bc_owner_user_id b), chat)))))"

definition trace_state_before :: "raw_business_event \<Rightarrow> string option pop" where
  "trace_state_before raw =
     (case (raw_connection_id raw, raw_chat_id raw) of
        (Some cid, Some h) \<Rightarrow>
          and_then (stp (find_conversation \<lparr>connection_id = cid, chat_id = h\<rparr>)) (\<lambda>found.
            ret (map_option (\<lambda>c. state_as_str (cv_state c)) found))
      | _ \<Rightarrow> ret None)"

fun creates_conversation :: "prepared_action \<Rightarrow> bool" where
  "creates_conversation (InboundAction _ _ _) = True"
| "creates_conversation BlockedInbound = True"
| "creates_conversation BlockedFailOpen = True"
| "creates_conversation ManualOwner = True"
| "creates_conversation (BotMessage _) = True"
| "creates_conversation (MessagesDeleted _) = True"
| "creates_conversation _ = False"

fun raw_event_name :: "raw_event_kind \<Rightarrow> string" where
  "raw_event_name RawConnectionChanged = ''BUSINESS_CONNECTION_CHANGED''"
| "raw_event_name RawInboundMessage = ''INBOUND_MESSAGE''"
| "raw_event_name RawEditedInboundMessage = ''EDITED_INBOUND_MESSAGE''"
| "raw_event_name RawManualOwnerMessage = ''MANUAL_OWNER_MESSAGE''"
| "raw_event_name RawBotBusinessMessage = ''BOT_BUSINESS_MESSAGE''"
| "raw_event_name RawImplicitOwnerMessage = ''IMPLICIT_OWNER_MESSAGE''"
| "raw_event_name RawMessagesDeleted = ''MESSAGES_DELETED''"
| "raw_event_name RawOwnerClaim = ''OWNER_CLAIM''"
| "raw_event_name RawOwnerStart = ''OWNER_START''"
| "raw_event_name RawOwnerCommand = ''OWNER_COMMAND''"
| "raw_event_name RawIgnored = ''IGNORED''"

definition requires_known_connection :: "raw_event_kind \<Rightarrow> bool" where
  "requires_known_connection kind \<longleftrightarrow>
     kind \<in> {RawInboundMessage, RawEditedInboundMessage, RawManualOwnerMessage,
       RawBotBusinessMessage, RawImplicitOwnerMessage, RawMessagesDeleted}"

definition known_business_connection :: "raw_business_event \<Rightarrow> bool pop" where
  "known_business_connection raw =
     (case raw_connection_id raw of
        None \<Rightarrow> ret False
      | Some cid \<Rightarrow>
          and_then (stp (find_business_connection cid)) (\<lambda>found. ret (found \<noteq> None)))"

text \<open>\<open>StoredRights\<close>: three required booleans, other fields ignored; any error is all false.\<close>

record stored_rights =
  sr_can_reply :: bool
  sr_can_read_messages :: bool
  sr_can_delete_all_messages :: bool

definition stored_rights_of :: "json option \<Rightarrow> stored_rights" where
  "stored_rights_of text =
     (case Option.bind text (struct_fields False
              [''can_reply'', ''can_read_messages'', ''can_delete_all_messages'']) of
        Some [Present a, Present b, Present c] \<Rightarrow>
          \<lparr>sr_can_reply = a, sr_can_read_messages = b, sr_can_delete_all_messages = c\<rparr>
      | _ \<Rightarrow>
          \<lparr>sr_can_reply = False, sr_can_read_messages = False,
           sr_can_delete_all_messages = False\<rparr>)"

record business_availability_flags =
  ba_reply :: bool
  ba_destructive :: bool

definition no_availability :: business_availability_flags where
  "no_availability = \<lparr>ba_reply = False, ba_destructive = False\<rparr>"

definition business_availability :: "conversation_key \<Rightarrow> business_availability_flags pop" where
  "business_availability key =
     and_then (stp (find_business_connection (connection_id key))) (\<lambda>found.
       ret (case found of
              None \<Rightarrow> no_availability
            | Some b \<Rightarrow>
                if \<not> bc_enabled b then no_availability
                else let rights = stored_rights_of (bc_rights_json b)
                     in \<lparr>ba_reply = sr_can_reply rights,
                         ba_destructive = sr_can_read_messages rights
                           \<and> sr_can_delete_all_messages rights\<rparr>))"

definition destructive_setting :: "bool \<Rightarrow> 'ev db \<Rightarrow> bool" where
  "destructive_setting mode d =
     (case map_of (settings d) ''destructive_mode'' of
        None \<Rightarrow> mode
      | Some v \<Rightarrow> v = ''true'')"

definition runtime_destructive_mode :: "bool \<Rightarrow> bool pop" where
  "runtime_destructive_mode mode = gets (destructive_setting mode)"

definition detection_facts_of :: "detection_result \<Rightarrow> detection_facts" where
  "detection_facts_of r =
     \<lparr>df_decision = decision_as_str (dr_decision r), df_score = dr_score r,
      df_reasons = dr_reasons r, df_matched_rules = dr_matched_rules r,
      df_detector_name = dr_detector_name r, df_detector_version = dr_detector_version r,
      df_normalized_hash = dr_normalized_hash r, df_error = None\<rparr>"

definition detection_failed :: "ustring \<Rightarrow> detection_facts" where
  "detection_failed error =
     \<lparr>df_decision = decision_as_str Allow, df_score = 0, df_reasons = [], df_matched_rules = [],
      df_detector_name = ''error'', df_detector_version = lit ''unavailable'',
      df_normalized_hash = ''unavailable'', df_error = Some error\<rparr>"

fun detector_error_text :: "detector_error \<Rightarrow> ustring" where
  "detector_error_text (InvalidConfig m) = lit ''invalid rule configuration: '' @ m"

definition event_key :: "raw_business_event \<Rightarrow> processing_error + conversation_key" where
  "event_key raw =
     (case raw_connection_id raw of
        None \<Rightarrow> Inl (invalid_event ''connection ID is missing'')
      | Some cid \<Rightarrow>
          (case raw_chat_id raw of
             None \<Rightarrow> Inl (invalid_event ''chat ID is missing'')
           | Some h \<Rightarrow> Inr \<lparr>connection_id = cid, chat_id = h\<rparr>))"

subsection \<open>Inbound messages\<close>

definition generated_challenge_outcome ::
  "('d, 'v) preparer_services \<Rightarrow> ('d, 'v) event_preparer \<Rightarrow> timestamp \<Rightarrow> inbound_outcome \<times> 'v" where
  "generated_challenge_outcome S p now =
     (let (c, v) = svc_generate S (ep_verifier p) now
      in (StartChallenge (gc_expression c) (gc_answer_hmac c) (gc_hmac_key_version c)
            (gc_created_at c) (gc_expires_at c) (gc_max_attempts c), v))"

definition answered_outcome ::
  "('d, 'v) preparer_services \<Rightarrow> ('d, 'v) event_preparer \<Rightarrow> clock_readings \<Rightarrow> message_content
   \<Rightarrow> bool \<Rightarrow> challenge_record \<Rightarrow> inbound_outcome" where
  "answered_outcome S p clk content destructive c =
     (case svc_evaluate S (ep_verifier p)
             (case mc_text content of None \<Rightarrow> [] | Some t \<Rightarrow> t) (ch_answer_hmac c) of
        Correct \<Rightarrow> OutCorrect (ch_id c)
      | _ \<Rightarrow>
          let used = ch_attempts_used c + 1;
              exhausted = (ch_max_attempts c \<le> used);
              remaining = max (ch_max_attempts c - used) 0
          in OutIncorrect (ch_id c) exhausted
               (if remaining \<le> 255 then word_of_int remaining else 0)
               (if exhausted \<and> destructive then Some (snd clk + hours 24) else None))"

definition safe_outcome ::
  "('d, 'v) preparer_services \<Rightarrow> ('d, 'v) event_preparer \<Rightarrow> clock_readings \<Rightarrow> raw_event_kind
   \<Rightarrow> conversation_state \<Rightarrow> conversation_key \<Rightarrow> message_content \<Rightarrow> bool
   \<Rightarrow> (inbound_outcome \<times> 'v) pop" where
  "safe_outcome S p clk kind state key content destructive =
     (case state of
        New \<Rightarrow> ret (generated_challenge_outcome S p (fst clk))
      | VerifyPending \<Rightarrow>
          and_then (stp (active_challenge key)) (\<lambda>found.
          and_then (lift_result (ok_or
              (invalid_event ''VERIFY_PENDING conversation has no active challenge'') found)) (\<lambda>c.
            if ch_expires_at c \<le> fst clk then ret (OutExpired (ch_id c), ep_verifier p)
            else if kind = RawEditedInboundMessage then ret (Retain, ep_verifier p)
            else if ch_hmac_key_version c \<noteq> svc_key_version S (ep_verifier p)
            then fail (invalid_event ''challenge HMAC key version does not match verifier'')
            else ret (answered_outcome S p clk content destructive c, ep_verifier p)))
      | VerifiedWaitingOwner \<Rightarrow> ret (Retain, ep_verifier p)
      | _ \<Rightarrow> fail (invalid_event ''checked state reached safe inbound preparation''))"

text \<open>The context of a detection: no known malicious domain, no prior sender.\<close>

definition blank_context :: detection_context where
  "blank_context = \<lparr>dc_malicious_domains = {}, dc_prior_distinct_senders_for_hash = 0\<rparr>"

definition run_detector ::
  "('d, 'v) preparer_services \<Rightarrow> ('d, 'v) event_preparer \<Rightarrow> message_content \<Rightarrow> detection_facts" where
  "run_detector S p content =
     (case svc_detect S (ep_detector p) content blank_context of
        Inr r \<Rightarrow> detection_facts_of r
      | Inl e \<Rightarrow> detection_failed (detector_error_text e))"

definition content_of :: "raw_business_event \<Rightarrow> message_content" where
  "content_of raw = (case raw_content raw of None \<Rightarrow> empty_content | Some m \<Rightarrow> m)"

definition prepare_inbound ::
  "('d, 'v) preparer_services \<Rightarrow> ('d, 'v) event_preparer \<Rightarrow> clock_readings \<Rightarrow> raw_business_event
   \<Rightarrow> bool \<Rightarrow> (prepared_action \<times> 'v) pop" where
  "prepare_inbound S p clk raw runtime_destructive =
     and_then (lift_result (event_key raw)) (\<lambda>key.
     and_then (stp (find_conversation key)) (\<lambda>found.
       let state = (case found of None \<Rightarrow> New | Some c \<Rightarrow> cv_state c)
       in if state = Active then ret (ActiveInbound, ep_verifier p)
          else and_then (business_availability key) (\<lambda>av.
            if state = TempSoftBlocked \<or> state = SpamSoftBlocked
            then ret (if runtime_destructive \<and> ba_destructive av
                      then BlockedInbound else BlockedFailOpen, ep_verifier p)
            else
              let detection = run_detector S p (content_of raw);
                  is_spam = (df_decision detection = ''SPAM'');
                  destructive = (runtime_destructive \<and> ba_destructive av)
              in and_then
                   (if is_spam \<and> destructive then ret (OutSpam, ep_verifier p)
                    else if is_spam \<and> state = VerifyPending
                       \<or> (state = New \<or> state = VerifyPending) \<and> \<not> ba_reply av
                    then ret (Retain, ep_verifier p)
                    else safe_outcome S p clk (raw_kind raw) state key (content_of raw)
                           destructive) (\<lambda>(outcome, v).
                 ret (InboundAction detection outcome (is_spam \<and> \<not> destructive), v)))))"

subsection \<open>The whole preparation\<close>

definition prepare_action ::
  "('d, 'v) preparer_services \<Rightarrow> ('d, 'v) event_preparer \<Rightarrow> clock_readings \<Rightarrow> raw_business_event
   \<Rightarrow> bool \<Rightarrow> (prepared_action \<times> 'v) pop" where
  "prepare_action S p clk raw destructive =
     (case raw_kind raw of
        RawInboundMessage \<Rightarrow> prepare_inbound S p clk raw destructive
      | RawEditedInboundMessage \<Rightarrow> prepare_inbound S p clk raw destructive
      | RawManualOwnerMessage \<Rightarrow> ret (ManualOwner, ep_verifier p)
      | RawBotBusinessMessage \<Rightarrow> ret (BotMessage SentByBusinessBot, ep_verifier p)
      | RawImplicitOwnerMessage \<Rightarrow> ret (BotMessage SentImplicitly, ep_verifier p)
      | RawMessagesDeleted \<Rightarrow>
          ret (MessagesDeleted (raw_deleted_message_ids raw), ep_verifier p)
      | _ \<Rightarrow> ret (Ignore, ep_verifier p))"

definition prepared_facts ::
  "raw_business_event \<Rightarrow> bool \<Rightarrow> i64 option \<times> i64 option \<Rightarrow> string option \<Rightarrow> prepared_action
   \<Rightarrow> lifecycle_facts" where
  "prepared_facts raw destructive owner_ids state_before action =
     \<lparr>lf_connection_id = raw_connection_id raw, lf_chat_id = raw_chat_id raw,
      lf_user_id = raw_chat_id raw, lf_message_id = raw_message_id raw,
      lf_media_group_id = raw_media_group_id raw,
      lf_contact_display_name = (if destructive then None else raw_contact_display_name raw),
      lf_contact_username = (if destructive then None else raw_contact_username raw),
      lf_owner_user_id = fst owner_ids, lf_owner_chat_id = snd owner_ids,
      lf_event_kind = raw_event_name (raw_kind raw),
      lf_dry_run = (\<not> destructive \<and> raw_kind raw \<noteq> RawOwnerClaim \<and> raw_kind raw \<noteq> RawIgnored),
      lf_state_before =
        (case state_before of
           Some s \<Rightarrow> Some s
         | None \<Rightarrow> if creates_conversation action then Some (state_as_str New) else None),
      lf_occurred_at = raw_occurred_at raw, lf_action = action\<rparr>"

definition prepare ::
  "('d, 'v) preparer_services \<Rightarrow> clock_readings \<Rightarrow> i64 \<Rightarrow> raw_business_event
   \<Rightarrow> ('d, 'v) event_preparer \<Rightarrow> (prepared_event \<times> ('d, 'v) event_preparer) pop" where
  "prepare S clk uid raw p =
     and_then (runtime_destructive_mode (ep_destructive_mode p)) (\<lambda>destructive.
     and_then (trace_owner_identity raw) (\<lambda>owner_ids.
     and_then (trace_state_before raw) (\<lambda>state_before.
     and_then
       (if requires_known_connection (raw_kind raw)
        then known_business_connection raw else ret True) (\<lambda>known.
     and_then
       (if known then prepare_action S p clk raw destructive
        else ret (Ignore, ep_verifier p)) (\<lambda>(action, v).
       ret (\<lparr>pe_update_id = uid,
             pe_event_type =
               (if raw_kind raw = RawConnectionChanged
                then ''business_connection_changed'' else ''lifecycle''),
             pe_occurred_at = raw_occurred_at raw,
             pe_facts = prepared_facts raw destructive owner_ids state_before action\<rparr>,
            p\<lparr>ep_verifier := v\<rparr>))))))"

subsection \<open>Preparation only reads\<close>

lemma read_owner_lifecycle_state_eq: "read_owner_lifecycle_state = load_owner_lifecycle_state"
  by (auto simp: read_owner_lifecycle_state_def load_owner_identity_def fun_eq_iff
      load_owner_lifecycle_state_def op_defs pending_message_def split: owner_row.split)

lemma reads_cases:
  "reads m \<Longrightarrow> (\<And>x. reads (f x)) \<Longrightarrow> reads (case v of None \<Rightarrow> m | Some x \<Rightarrow> f x)"
  "(\<And>x y. reads (g x y)) \<Longrightarrow> reads (case w of (x, y) \<Rightarrow> g x y)"
  by (cases v; simp) (cases w; simp)

lemmas reads_rules = reads_basic reads_and_then reads_map_err reads_if reads_cases
  repository_reads reads_load_owner

lemma reads_prepare_parts:
  "reads (owner_chat_for_user u)" "reads (trace_owner_identity raw)" "reads (trace_state_before raw)"
  "reads (known_business_connection raw)" "reads (business_availability k)"
  "reads (runtime_destructive_mode b)"
  by (auto simp: owner_chat_for_user_def trace_owner_identity_def trace_state_before_def
      known_business_connection_def business_availability_def runtime_destructive_mode_def
      read_owner_lifecycle_state_eq split: option.split intro!: reads_rules)

lemma reads_safe_outcome: "reads (safe_outcome S p clk kind s k content b)"
  unfolding safe_outcome_def by (cases s) (auto intro!: reads_rules)

lemma reads_prepare_inbound: "reads (prepare_inbound S p clk raw b)"
  unfolding prepare_inbound_def Let_def
  by (intro reads_rules reads_prepare_parts reads_safe_outcome)

lemma reads_prepare_action: "reads (prepare_action S p clk raw b)"
  unfolding prepare_action_def
  by (cases "raw_kind raw") (auto intro!: reads_rules reads_prepare_inbound)

lemma reads_prepare: "reads (prepare S clk uid raw p)"
  unfolding prepare_def
  by (intro reads_rules reads_prepare_parts reads_prepare_action)

subsection \<open>What a preparation can return\<close>

definition knows_connection :: "raw_business_event \<Rightarrow> 'ev db \<Rightarrow> bool" where
  "knows_connection raw d \<longleftrightarrow>
     tr_state (reconciliation d) = GlobalReady
     \<and> (\<exists>b \<in> set (connections d). Some (bc_connection_id b) = raw_connection_id raw \<and> confirmed b)"

lemma find_connection_Inr:
  assumes "find_business_connection cid d = Inr (found, t)"
  shows "t = d"
    and "found \<noteq> None \<longleftrightarrow> tr_state (reconciliation d) = GlobalReady
      \<and> (\<exists>b \<in> set (connections d). bc_connection_id b = cid \<and> confirmed b)"
    and "found = Some b \<Longrightarrow> tr_state (reconciliation d) = GlobalReady
      \<and> b \<in> set (connections d) \<and> bc_connection_id b = cid \<and> confirmed b"
proof -
  show "t = d" by (rule readsD [OF repository_reads(9) assms])
  have f: "if tr_state (reconciliation d) \<noteq> GlobalReady then found = None
    else decode_optional decode_business_connection
      (find_row (\<lambda>b. bc_connection_id b = cid \<and> confirmed b) (connections d)) = Inr found"
    using assms by (auto simp: find_business_connection_def load_telegram_reconciliation_state_def
        op_success split: if_splits)
  have dec: "decode_business_connection b = Inr b' \<Longrightarrow> b' = b" for b b'
    by (auto simp: decode_business_connection_def split: if_splits)
  show "found \<noteq> None \<longleftrightarrow> tr_state (reconciliation d) = GlobalReady
      \<and> (\<exists>b \<in> set (connections d). bc_connection_id b = cid \<and> confirmed b)"
    using f by (auto simp: decode_optional_def find_row_None_iff split: if_splits option.splits sum.splits
        dest!: find_row_SomeD)
  show "tr_state (reconciliation d) = GlobalReady \<and> b \<in> set (connections d)
      \<and> bc_connection_id b = cid \<and> confirmed b" if "found = Some b"
    using f that dec by (auto simp: decode_optional_def split: if_splits option.splits sum.splits
        dest!: find_row_SomeD dec)
qed

lemma known_Inr:
  "known_business_connection raw d = Inr (known, t) \<Longrightarrow> known \<longleftrightarrow> knows_connection raw d"
  by (auto simp: known_business_connection_def knows_connection_def op_success
      split: option.splits dest: find_connection_Inr(2))

lemma prepare_Inr:
  assumes "prepare S clk uid raw p d = Inr ((e, p'), t)"
  obtains ids sb a v where "t = d" and "p' = p\<lparr>ep_verifier := v\<rparr>"
    and "pe_facts e = prepared_facts raw (destructive_setting (ep_destructive_mode p) d) ids sb a"
    and "pe_update_id e = uid" and "pe_occurred_at e = raw_occurred_at raw"
    and "pe_event_type e = (if raw_kind raw = RawConnectionChanged
           then ''business_connection_changed'' else ''lifecycle'')"
    and "if requires_known_connection (raw_kind raw) \<and> \<not> knows_connection raw d
         then a = Ignore \<and> v = ep_verifier p
         else prepare_action S p clk raw (destructive_setting (ep_destructive_mode p) d) d
              = Inr ((a, v), d)"
proof -
  let ?dm = "destructive_setting (ep_destructive_mode p) d"
  have td: "t = d" by (rule readsD [OF reads_prepare assms])
  from assms obtain ids d1 sb d2 known d3 a v d4 where
    run: "trace_owner_identity raw d = Inr (ids, d1)" "trace_state_before raw d1 = Inr (sb, d2)"
      "(if requires_known_connection (raw_kind raw) then known_business_connection raw else ret True) d2
       = Inr (known, d3)"
      "(if known then prepare_action S p clk raw ?dm else ret (Ignore, ep_verifier p)) d3
       = Inr ((a, v), d4)"
    and e: "p' = p\<lparr>ep_verifier := v\<rparr>" "pe_facts e = prepared_facts raw ?dm ids sb a"
      "pe_update_id e = uid" "pe_occurred_at e = raw_occurred_at raw"
      "pe_event_type e = (if raw_kind raw = RawConnectionChanged
         then ''business_connection_changed'' else ''lifecycle'')"
    unfolding prepare_def runtime_destructive_mode_def
    by (fastforce elim!: and_then_E simp: ret_def gets_def)
  note d1 = readsD [OF reads_prepare_parts(2) run(1)]
  note d2 = readsD [OF reads_prepare_parts(3) run(2)]
  have "reads (if requires_known_connection (raw_kind raw) then known_business_connection raw else ret True)"
    by (intro reads_rules reads_prepare_parts)
  note d3 = readsD [OF this run(3)]
  have "reads (if known then prepare_action S p clk raw ?dm else ret (Ignore, ep_verifier p))"
    by (intro reads_rules reads_prepare_action)
  note d4 = readsD [OF this run(4)]
  have "known \<longleftrightarrow> \<not> requires_known_connection (raw_kind raw) \<or> knows_connection raw d"
    using run(3) known_Inr [of raw d] d1 d2 by (auto simp: ret_def split: if_splits)
  then have "if requires_known_connection (raw_kind raw) \<and> \<not> knows_connection raw d
       then a = Ignore \<and> v = ep_verifier p else prepare_action S p clk raw ?dm d = Inr ((a, v), d)"
    using run(4) d1 d2 d3 d4 by (auto simp: ret_def split: if_splits)
  from that [OF td e this] show thesis .
qed

lemma available_Inr:
  assumes "business_availability k d = Inr (av, t)"
  shows "t = d"
    and "ba_reply av \<or> ba_destructive av \<Longrightarrow>
      \<exists>b \<in> set (connections d). bc_connection_id b = connection_id k \<and> confirmed b \<and> bc_enabled b
        \<and> (ba_reply av \<longrightarrow> sr_can_reply (stored_rights_of (bc_rights_json b)))
        \<and> (ba_destructive av \<longrightarrow> sr_can_read_messages (stored_rights_of (bc_rights_json b))
             \<and> sr_can_delete_all_messages (stored_rights_of (bc_rights_json b)))"
proof -
  show "t = d" by (rule readsD [OF reads_prepare_parts(5) assms])
  assume some: "ba_reply av \<or> ba_destructive av"
  obtain found where found: "find_business_connection (connection_id k) d = Inr (found, t)"
    and av: "av = (case found of None \<Rightarrow> no_availability
      | Some b \<Rightarrow> if \<not> bc_enabled b then no_availability
          else let rights = stored_rights_of (bc_rights_json b)
               in \<lparr>ba_reply = sr_can_reply rights, ba_destructive = sr_can_read_messages rights
                    \<and> sr_can_delete_all_messages rights\<rparr>)"
    using assms unfolding business_availability_def
    by (elim and_then_E map_err_E) (simp add: ret_def that)
  then obtain b where b: "found = Some b" "bc_enabled b"
    using some by (auto simp: no_availability_def split: option.splits if_splits)
  show "\<exists>b \<in> set (connections d). bc_connection_id b = connection_id k \<and> confirmed b
      \<and> bc_enabled b \<and> (ba_reply av \<longrightarrow> sr_can_reply (stored_rights_of (bc_rights_json b)))
      \<and> (ba_destructive av \<longrightarrow> sr_can_read_messages (stored_rights_of (bc_rights_json b))
           \<and> sr_can_delete_all_messages (stored_rights_of (bc_rights_json b)))"
    using find_connection_Inr(3) [OF found b(1)] av b
    by (intro bexI [of _ b]) (auto simp: Let_def)
qed

text \<open>The outcome of a message that is judged, by the state of its conversation.\<close>

inductive judged ::
  "('d, 'v) preparer_services \<Rightarrow> ('d, 'v) event_preparer \<Rightarrow> clock_readings \<Rightarrow> raw_business_event
   \<Rightarrow> database \<Rightarrow> conversation_key \<Rightarrow> conversation_state \<Rightarrow> bool \<Rightarrow> inbound_outcome \<Rightarrow> 'v \<Rightarrow> bool"
  for S p clk raw d k where
  judged_spam:
    "df_decision (run_detector S p (content_of raw)) = ''SPAM''
     \<Longrightarrow> judged S p clk raw d k s True OutSpam (ep_verifier p)"
| judged_retain: "judged S p clk raw d k s b Retain (ep_verifier p)"
| judged_new:
    "generated_challenge_outcome S p (fst clk) = (out, v)
     \<Longrightarrow> judged S p clk raw d k New b out v"
| judged_expired:
    "active_challenge k d = Inr (Some c, d) \<Longrightarrow> ch_expires_at c \<le> fst clk
     \<Longrightarrow> judged S p clk raw d k VerifyPending b (OutExpired (ch_id c)) (ep_verifier p)"
| judged_answer:
    "active_challenge k d = Inr (Some c, d) \<Longrightarrow> fst clk < ch_expires_at c
     \<Longrightarrow> raw_kind raw \<noteq> RawEditedInboundMessage
     \<Longrightarrow> ch_hmac_key_version c = svc_key_version S (ep_verifier p)
     \<Longrightarrow> judged S p clk raw d k VerifyPending b
           (answered_outcome S p clk (content_of raw) b c) (ep_verifier p)"

lemma safe_outcome_judged:
  assumes "safe_outcome S p clk (raw_kind raw) s k (content_of raw) b d = Inr ((out, v), t)"
  shows "judged S p clk raw d k s b out v"
proof (cases s)
  case New
  with assms show ?thesis by (auto simp: safe_outcome_def ret_def intro: judged_new)
next
  case VerifyPending
  from assms obtain c where c: "active_challenge k d = Inr (Some c, d)"
    and rest: "(if ch_expires_at c \<le> fst clk then ret (OutExpired (ch_id c), ep_verifier p)
      else if raw_kind raw = RawEditedInboundMessage then ret (Retain, ep_verifier p)
      else if ch_hmac_key_version c \<noteq> svc_key_version S (ep_verifier p)
      then fail (invalid_event ''challenge HMAC key version does not match verifier'')
      else ret (answered_outcome S p clk (content_of raw) b c, ep_verifier p)) d = Inr ((out, v), t)"
    unfolding safe_outcome_def VerifyPending
    by (fastforce elim!: and_then_E and_then_lift_E map_err_E
        simp: ok_or_Inr_iff active_challenge_def gets_def)
  show ?thesis
    using rest c unfolding VerifyPending
    by (auto simp: ret_def fail_def split: if_splits
        intro: judged_retain judged_expired judged_answer)
next
  case VerifiedWaitingOwner
  with assms show ?thesis by (auto simp: safe_outcome_def ret_def intro: judged_retain)
qed (use assms in \<open>simp_all add: safe_outcome_def fail_def\<close>)

lemma find_conversation_state:
  "find_conversation k d = Inr (found, t) \<Longrightarrow>
   (case found of None \<Rightarrow> New | Some c \<Rightarrow> cv_state c) = opened (state_of d k) \<and> t = d"
  by (auto simp: find_conversation_def gets_def opened_def state_of_def row_of_def split: option.split)

lemma prepare_inbound_Inr:
  assumes "prepare_inbound S p clk raw dm d = Inr ((a, v), t)"
  obtains (active) k where "event_key raw = Inr k" and "opened (state_of d k) = Active"
      and "a = ActiveInbound" and "v = ep_verifier p"
  | (blocked) k av where "event_key raw = Inr k" and "business_availability k d = Inr (av, d)"
      and "opened (state_of d k) = TempSoftBlocked \<or> opened (state_of d k) = SpamSoftBlocked"
      and "a = (if dm \<and> ba_destructive av then BlockedInbound else BlockedFailOpen)"
      and "v = ep_verifier p"
  | (judged) k av out where "event_key raw = Inr k" and "business_availability k d = Inr (av, d)"
      and "opened (state_of d k) \<in> {New, VerifyPending, VerifiedWaitingOwner}"
      and "a = InboundAction (run_detector S p (content_of raw)) out
             (df_decision (run_detector S p (content_of raw)) = ''SPAM'' \<and> \<not> (dm \<and> ba_destructive av))"
      and "judged S p clk raw d k (opened (state_of d k)) (dm \<and> ba_destructive av) out v"
proof -
  from assms obtain k found d1 where k: "event_key raw = Inr k"
    and found: "find_conversation k d = Inr (found, d1)"
    and rest: "(let state = (case found of None \<Rightarrow> New | Some c \<Rightarrow> cv_state c)
       in if state = Active then ret (ActiveInbound, ep_verifier p)
          else and_then (business_availability k) (\<lambda>av.
            if state = TempSoftBlocked \<or> state = SpamSoftBlocked
            then ret (if dm \<and> ba_destructive av then BlockedInbound else BlockedFailOpen, ep_verifier p)
            else
              let detection = run_detector S p (content_of raw);
                  is_spam = (df_decision detection = ''SPAM'');
                  destructive = (dm \<and> ba_destructive av)
              in and_then
                   (if is_spam \<and> destructive then ret (OutSpam, ep_verifier p)
                    else if is_spam \<and> state = VerifyPending
                       \<or> (state = New \<or> state = VerifyPending) \<and> \<not> ba_reply av
                    then ret (Retain, ep_verifier p)
                    else safe_outcome S p clk (raw_kind raw) state k (content_of raw)
                           destructive) (\<lambda>(outcome, v).
                 ret (InboundAction detection outcome (is_spam \<and> \<not> destructive), v)))) d1
       = Inr ((a, v), t)"
    unfolding prepare_inbound_def by (elim and_then_lift_E and_then_E map_err_E) (rule that; assumption)
  let ?s = "opened (state_of d k)"
  have s: "(case found of None \<Rightarrow> New | Some c \<Rightarrow> cv_state c) = ?s" and d1: "d1 = d"
    using find_conversation_state [OF found] by simp_all
  note rest = rest [unfolded s d1 Let_def]
  show thesis
  proof (cases "?s = Active")
    case True
    with rest k show ?thesis by (intro active) (auto simp: ret_def)
  next
    case False
    with rest obtain av where av: "business_availability k d = Inr (av, d)"
      and rest: "(if ?s = TempSoftBlocked \<or> ?s = SpamSoftBlocked
            then ret (if dm \<and> ba_destructive av then BlockedInbound else BlockedFailOpen, ep_verifier p)
            else and_then
                   (if df_decision (run_detector S p (content_of raw)) = ''SPAM'' \<and> dm \<and> ba_destructive av
                    then ret (OutSpam, ep_verifier p)
                    else if df_decision (run_detector S p (content_of raw)) = ''SPAM'' \<and> ?s = VerifyPending
                       \<or> (?s = New \<or> ?s = VerifyPending) \<and> \<not> ba_reply av
                    then ret (Retain, ep_verifier p)
                    else safe_outcome S p clk (raw_kind raw) ?s k (content_of raw)
                           (dm \<and> ba_destructive av)) (\<lambda>(outcome, v).
                 ret (InboundAction (run_detector S p (content_of raw)) outcome
                   (df_decision (run_detector S p (content_of raw)) = ''SPAM''
                    \<and> \<not> (dm \<and> ba_destructive av)), v))) d = Inr ((a, v), t)"
      by (auto elim!: and_then_E dest: available_Inr(1))
    show ?thesis
    proof (cases "?s = TempSoftBlocked \<or> ?s = SpamSoftBlocked")
      case True
      with rest k av show ?thesis by (intro blocked) (auto simp: ret_def split: if_splits)
    next
      case False
      with \<open>?s \<noteq> Active\<close> have st: "?s \<in> {New, VerifyPending, VerifiedWaitingOwner}"
        by (cases ?s) auto
      from rest False obtain out t' where
        out: "(if df_decision (run_detector S p (content_of raw)) = ''SPAM'' \<and> dm \<and> ba_destructive av
             then ret (OutSpam, ep_verifier p)
             else if df_decision (run_detector S p (content_of raw)) = ''SPAM'' \<and> ?s = VerifyPending
                \<or> (?s = New \<or> ?s = VerifyPending) \<and> \<not> ba_reply av
             then ret (Retain, ep_verifier p)
             else safe_outcome S p clk (raw_kind raw) ?s k (content_of raw)
                    (dm \<and> ba_destructive av)) d = Inr ((out, v), t')"
        and a: "a = InboundAction (run_detector S p (content_of raw)) out
             (df_decision (run_detector S p (content_of raw)) = ''SPAM'' \<and> \<not> (dm \<and> ba_destructive av))"
        by (auto elim!: and_then_E simp: ret_def)
      from out have "judged S p clk raw d k ?s (dm \<and> ba_destructive av) out v"
        by (auto simp: ret_def split: if_splits intro: judged_spam judged_retain safe_outcome_judged)
      from judged [OF k av st a this] show ?thesis .
    qed
  qed
qed

lemma active_challenge_current:
  assumes "active_challenge k d = Inr (Some c, t)"
  shows "current_challenge d k (ch_id c)" and "open_for d k"
    and "db_ok d \<Longrightarrow> 0 \<le> ch_attempts_used c \<and> ch_attempts_used c \<le> 3 \<and> ch_max_attempts c = 3"
proof -
  obtain r where r: "find_row (\<lambda>r. ch_key r = k \<and> open_challenge r) (challenges d) = Some r"
    "c = challenge_of_row r"
    using assms by (auto simp: active_challenge_def gets_def)
  then have in_table: "r \<in> set (challenges d)" "ch_key r = k" "open_challenge r" and "ch_id c = ch_id r"
    by (auto dest: find_row_SomeD simp: challenge_of_row_def challenge_record.defs)
  then show "current_challenge d k (ch_id c)" "open_for d k"
    by (auto simp: current_challenge_def open_for_def)
  show "0 \<le> ch_attempts_used c \<and> ch_attempts_used c \<le> 3 \<and> ch_max_attempts c = 3" if "db_ok d"
    using that in_table(1) r(2)
    by (auto simp: ok_defs attempts_ok_def challenge_of_row_def challenge_record.defs)
qed

lemma answered_outcome_cases:
  "answered_outcome S p clk content b c = OutCorrect (ch_id c)
   \<or> (\<exists>rem. answered_outcome S p clk content b c
        = OutIncorrect (ch_id c) (ch_max_attempts c \<le> ch_attempts_used c + 1) rem
            (if ch_max_attempts c \<le> ch_attempts_used c + 1 \<and> b then Some (snd clk + hours 24) else None))"
  by (auto simp: answered_outcome_def Let_def split: answer_kind.split)

lemma judged_current: "judged S p clk raw d k s b out v \<Longrightarrow> outcome_current d k out"
proof (induction rule: judged.induct)
  case (judged_new out v b)
  then show ?case by (auto simp: generated_challenge_outcome_def split: prod.splits)
next
  case (judged_expired c b)
  then show ?case using active_challenge_current(1) by simp
next
  case (judged_answer c b)
  then show ?case
    using active_challenge_current(1) answered_outcome_cases [of S p clk "content_of raw" b c] by auto
qed simp_all

lemma judged_enabled:
  assumes "judged S p clk raw d k s b out v" and "outcome_event out = Some ev"
    and "s \<in> {New, VerifyPending, VerifiedWaitingOwner}"
  shows "\<exists>s'. transition s ev = Inr s'"
  using assms
proof (induction rule: judged.induct)
  case (judged_spam s)
  then show ?case by auto
next
  case (judged_new out v b)
  then show ?case by (auto simp: generated_challenge_outcome_def split: prod.splits)
next
  case (judged_answer c b)
  then show ?case
    using answered_outcome_cases [of S p clk "content_of raw" b c] by (auto split: if_splits)
qed auto

text \<open>The outcomes that block a conversation or destroy messages.\<close>

fun destructive_outcome :: "inbound_outcome \<Rightarrow> bool" where
  "destructive_outcome OutSpam = True"
| "destructive_outcome (OutIncorrect _ _ _ block) = (block \<noteq> None)"
| "destructive_outcome _ = False"

fun destructive_action :: "prepared_action \<Rightarrow> bool" where
  "destructive_action (InboundAction _ out _) = destructive_outcome out"
| "destructive_action BlockedInbound = True"
| "destructive_action _ = False"

lemma judged_destructive: "judged S p clk raw d k s b out v \<Longrightarrow> destructive_outcome out \<Longrightarrow> b"
proof (induction rule: judged.induct)
  case (judged_new out v b)
  then show ?case by (auto simp: generated_challenge_outcome_def split: prod.splits)
next
  case (judged_answer c b)
  then show ?case
    using answered_outcome_cases [of S p clk "content_of raw" b c] by (auto split: if_splits)
qed simp_all

text \<open>The same for whole actions.\<close>

lemma prepare_action_cases:
  assumes "prepare_action S p clk raw dm d = Inr ((a, v), t)"
  obtains (inbound) "raw_kind raw = RawInboundMessage \<or> raw_kind raw = RawEditedInboundMessage"
      and "prepare_inbound S p clk raw dm d = Inr ((a, v), t)"
  | (other) "raw_kind raw \<noteq> RawInboundMessage" and "raw_kind raw \<noteq> RawEditedInboundMessage"
      and "v = ep_verifier p"
      and "a = ManualOwner \<or> a = Ignore \<or> (\<exists>s. a = BotMessage s) \<or> (\<exists>ids. a = MessagesDeleted ids)"
  using assms unfolding prepare_action_def
  by (cases "raw_kind raw") (auto simp: ret_def intro: that)

definition raw_key :: "raw_business_event \<Rightarrow> conversation_key option" where
  "raw_key raw =
     (case (raw_connection_id raw, raw_chat_id raw) of
        (Some cid, Some h) \<Rightarrow> Some \<lparr>connection_id = cid, chat_id = h\<rparr>
      | _ \<Rightarrow> None)"

lemma event_key_Inr: "event_key raw = Inr k \<longleftrightarrow> raw_key raw = Some k"
  by (auto simp: event_key_def raw_key_def split: option.splits)

lemma prepared_facts_key: "facts_optional_key (prepared_facts raw dm ids sb a) = raw_key raw"
  by (simp add: facts_optional_key_def prepared_facts_def raw_key_def)

lemma manual_enabled:
  "action_event d k ManualOwner = Some ev \<Longrightarrow> \<exists>s. transition (opened (state_of d k)) ev = Inr s"
  by (cases "opened (state_of d k)") (auto simp: Let_def split: if_splits)

text \<open>An enabled confirmed connection that grants the rights to read and to delete.\<close>

definition destruction_granted :: "'ev db \<Rightarrow> conversation_key \<Rightarrow> bool" where
  "destruction_granted d k \<longleftrightarrow>
     (\<exists>b \<in> set (connections d). bc_connection_id b = connection_id k \<and> confirmed b \<and> bc_enabled b
        \<and> sr_can_read_messages (stored_rights_of (bc_rights_json b))
        \<and> sr_can_delete_all_messages (stored_rights_of (bc_rights_json b)))"

lemma available_destructive:
  "business_availability k d = Inr (av, t) \<Longrightarrow> ba_destructive av \<Longrightarrow> destruction_granted d k"
  using available_Inr(2) unfolding destruction_granted_def by blast

lemma prepare_inbound_sound:
  assumes "prepare_inbound S p clk raw dm d = Inr ((a, v), t)" and "raw_key raw = Some k"
  shows "action_current d k a
    \<and> (\<forall>ev. action_event d k a = Some ev \<longrightarrow> (\<exists>s. transition (opened (state_of d k)) ev = Inr s))
    \<and> (destructive_action a \<longrightarrow> dm \<and> destruction_granted d k)"
  using assms(1)
proof (cases rule: prepare_inbound_Inr)
  case (blocked k' av)
  then show ?thesis using assms(2) available_destructive [OF blocked(2)] by (simp add: event_key_Inr)
next
  case (judged k' av out)
  then have k: "k' = k" using assms(2) by (simp add: event_key_Inr)
  show ?thesis
    using judged(3,4) judged_current [OF judged(5)] judged_enabled [OF judged(5)]
      judged_destructive [OF judged(5)] available_destructive [OF judged(2)] by (simp add: k)
qed simp

lemma prepare_action_sound:
  assumes run: "prepare_action S p clk raw dm d = Inr ((a, v), t)" and k: "raw_key raw = Some k"
  shows "action_current d k a
    \<and> (\<forall>ev. action_event d k a = Some ev \<longrightarrow> (\<exists>s. transition (opened (state_of d k)) ev = Inr s))
    \<and> (destructive_action a \<longrightarrow> dm \<and> destruction_granted d k)"
  using run
proof (cases rule: prepare_action_cases)
  case inbound
  from prepare_inbound_sound [OF inbound(2) k] show ?thesis .
next
  case other
  then show ?thesis using manual_enabled [of d k] by (auto split: if_splits)
qed

subsection \<open>The laws of the collaborators\<close>

text \<open>
  A preparer whose detector and verifier obey their interfaces: a spam outcome has full
  score, and a started challenge can be answered by every later state of the verifier.
\<close>

locale preparation =
  spam_detector "svc_detect S" +
  challenge_verifier "svc_key_version S" "svc_generate S" "svc_evaluate S"
  for S :: "('d, 'v) preparer_services"
begin

lemma spam_decision_score:
  assumes "df_decision (run_detector S p content) = ''SPAM''"
  shows "df_score (run_detector S p content) = 100 \<and> df_error (run_detector S p content) = None"
proof (cases "svc_detect S (ep_detector p) content blank_context")
  case (Inl e)
  with assms show ?thesis by (simp add: run_detector_def detection_failed_def)
next
  case (Inr r)
  then have "dr_decision r = Spam"
    using assms by (cases "dr_decision r") (auto simp: run_detector_def detection_facts_of_def)
  with Inr show ?thesis
    using spam_score [OF Inr] by (simp add: run_detector_def detection_facts_of_def)
qed

lemma started_challenge:
  assumes "judged S p clk raw d k s b (StartChallenge ex h ver c x m) v"
  shows "ver = svc_key_version S (ep_verifier p)" and "c = fst clk" and "c < x" and "0 < m"
    and "h = gc_answer_hmac (fst (svc_generate S (ep_verifier p) (fst clk)))"
    and "ex = gc_expression (fst (svc_generate S (ep_verifier p) (fst clk)))"
    and "x = gc_expires_at (fst (svc_generate S (ep_verifier p) (fst clk)))"
    and "v = snd (svc_generate S (ep_verifier p) (fst clk))"
  using assms
  by (auto elim!: judged.cases simp: generated_challenge_outcome_def answered_outcome_def Let_def
      case_prod_beta generated_key_version generated_window generated_attempts
      split: answer_kind.splits)

end

definition engine_services ::
  "detection_env \<Rightarrow> crypto \<Rightarrow> 'r random_range
   \<Rightarrow> (rule_detector, 'r arithmetic_verifier) preparer_services" where
  "engine_services env cr rr =
     \<lparr>svc_detect = detect env, svc_key_version = av_key_version, svc_generate = generate cr rr,
      svc_evaluate = evaluate cr\<rparr>"

interpretation engine: preparation "engine_services env cr rr"
  unfolding preparation_def engine_services_def preparer_services.simps
  by (intro conjI rule.spam_detector_axioms arithmetic.challenge_verifier_axioms)

subsection \<open>Preparation does not fail\<close>

definition decodable :: "'ev db \<Rightarrow> bool" where
  "decodable d \<longleftrightarrow> (\<forall>b \<in> set (connections d). decode_business_connection b = Inr b)
     \<and> length (filter confirmed (connections d)) \<le> 1"

lemma find_connection_total:
  "decodable d \<Longrightarrow> \<exists>found. find_business_connection cid d = Inr (found, d)"
  by (auto simp: decodable_def find_business_connection_def load_telegram_reconciliation_state_def
      op_defs decode_optional_def split: option.split dest!: find_row_SomeD)

lemma find_single_total: "decodable d \<Longrightarrow> \<exists>found. find_single_business_connection d = Inr (found, d)"
proof -
  assume dec: "decodable d"
  have "\<forall>b \<in> set (filter confirmed (connections d)). decode_business_connection b = Inr b"
    using dec by (simp add: decodable_def)
  moreover have "length (filter confirmed (connections d)) \<le> 1" using dec by (simp add: decodable_def)
  ultimately have "\<exists>f. single_row m (filter confirmed (connections d)) = Inr f" for m
    by (cases "filter confirmed (connections d)" rule: list.exhaust)
      (auto simp: single_row_def decode_optional_def)
  then show ?thesis
    by (auto simp: find_single_business_connection_def load_telegram_reconciliation_state_def op_defs
        split: sum.split) (metis sum.distinct(1) sum.inject)
qed

lemma prepare_parts_total:
  assumes "decodable d"
  shows "\<exists>x. owner_chat_for_user u d = Inr (x, d)" and "\<exists>x. trace_owner_identity raw d = Inr (x, d)"
    and "\<exists>x. trace_state_before raw d = Inr (x, d)"
    and "\<exists>x. known_business_connection raw d = Inr (x, d)"
    and "\<exists>x. business_availability k d = Inr (x, d)"
proof -
  have owner: "\<exists>x. owner_chat_for_user u d = Inr (x, d)" for u
    by (simp add: owner_chat_for_user_def read_owner_lifecycle_state_eq
        load_owner_lifecycle_state_def op_defs)
  then show "\<exists>x. owner_chat_for_user u d = Inr (x, d)" .
  show "\<exists>x. trace_state_before raw d = Inr (x, d)"
    by (auto simp: trace_state_before_def find_conversation_def op_defs split: option.split)
  obtain found where found: "raw_connection_id raw = Some cid \<Longrightarrow>
      find_business_connection cid d = Inr (found cid, d)" for cid
    using find_connection_total [OF assms] by metis
  then show "\<exists>x. known_business_connection raw d = Inr (x, d)"
    by (auto simp: known_business_connection_def op_defs split: option.split)
  show "\<exists>x. business_availability k d = Inr (x, d)"
    using find_connection_total [OF assms, of "connection_id k"]
    by (auto simp: business_availability_def op_defs)
  obtain single where single: "find_single_business_connection d = Inr (single, d)"
    using find_single_total [OF assms] by blast
  show "\<exists>x. trace_owner_identity raw d = Inr (x, d)"
  proof (cases "raw_connection raw")
    case None
    obtain f where f: "(case raw_connection_id raw of None \<Rightarrow> ret None
        | Some cid \<Rightarrow> stp (find_business_connection cid)) d = Inr (f, d)"
      using found by (cases "raw_connection_id raw") (auto simp: ret_def map_err_def)
    obtain g where g: "(case f of Some b \<Rightarrow> ret (Some b)
        | None \<Rightarrow> stp find_single_business_connection) d = Inr (g, d)"
      using single by (cases f) (auto simp: ret_def map_err_def)
    obtain h where "(case g of None \<Rightarrow> ret (None, None) | Some b \<Rightarrow>
        and_then (owner_chat_for_user (bc_owner_user_id b)) (\<lambda>chat.
          ret (Some (bc_owner_user_id b), chat))) d = Inr (h, d)"
    proof (cases g)
      case (Some b)
      obtain x where "owner_chat_for_user (bc_owner_user_id b) d = Inr (x, d)" using owner by blast
      with Some that show ?thesis by (simp add: and_then_def ret_def)
    qed (simp add: ret_def that)
    with f g show ?thesis
      unfolding trace_owner_identity_def None option.case by (simp add: and_then_run)
  qed (simp add: trace_owner_identity_def ret_def)
qed

lemma safe_outcome_total:
  assumes "s \<in> {New, VerifyPending, VerifiedWaitingOwner}" and "s = VerifyPending \<longrightarrow> open_for d k"
    and "\<And>c. active_challenge k d = Inr (Some c, d)
      \<Longrightarrow> ch_hmac_key_version c = svc_key_version S (ep_verifier p)"
  shows "\<exists>x. safe_outcome S p clk kind s k content b d = Inr (x, d)"
proof (cases s)
  case VerifyPending
  with assms(2) have "find_row (\<lambda>r. ch_key r = k \<and> open_challenge r) (challenges d) \<noteq> None"
    by (auto simp: open_for_def find_row_None_iff)
  then obtain c where c: "active_challenge k d = Inr (Some c, d)"
    by (auto simp: active_challenge_def gets_def)
  with assms(3) [OF c] VerifyPending show ?thesis
    by (simp add: safe_outcome_def and_then_run map_err_def ok_or_def and_then_Inr_lift ret_def)
qed (use assms(1) in \<open>simp_all add: safe_outcome_def ret_def\<close>)

lemma prepare_inbound_total:
  assumes "decodable d" and "raw_key raw = Some k"
    and "opened (state_of d k) = VerifyPending \<longrightarrow> open_for d k"
    and "\<And>c. active_challenge k d = Inr (Some c, d)
      \<Longrightarrow> ch_hmac_key_version c = svc_key_version S (ep_verifier p)"
  shows "\<exists>x. prepare_inbound S p clk raw dm d = Inr (x, d)"
proof -
  let ?s = "opened (state_of d k)"
  have key: "event_key raw = Inr k" using assms(2) by (simp add: event_key_Inr)
  obtain found where found: "find_conversation k d = Inr (found, d)"
    by (simp add: find_conversation_def gets_def)
  have s: "(case found of None \<Rightarrow> New | Some c \<Rightarrow> cv_state c) = ?s"
    using find_conversation_state [OF found] by simp
  obtain av where av: "business_availability k d = Inr (av, d)"
    using prepare_parts_total(5) [OF assms(1)] by blast
  have safe: "\<exists>x. safe_outcome S p clk (raw_kind raw) ?s k (content_of raw) b d = Inr (x, d)"
    if "?s \<noteq> Active" "?s \<noteq> TempSoftBlocked" "?s \<noteq> SpamSoftBlocked" for b
    using that assms(3,4) by (intro safe_outcome_total) (cases ?s; simp)+
  note unfold = prepare_inbound_def key and_then_Inr_lift
  show ?thesis
  proof (cases "?s = Active \<or> ?s = TempSoftBlocked \<or> ?s = SpamSoftBlocked")
    case True
    then show ?thesis
      using found av unfolding unfold by (auto simp: and_then_def map_err_def s ret_def Let_def)
  next
    case False
    then obtain x where x: "safe_outcome S p clk (raw_kind raw) ?s k (content_of raw)
        (dm \<and> ba_destructive av) d = Inr (x, d)" using safe by blast
    show ?thesis
      using False found av x unfolding unfold
      by (cases x) (simp add: and_then_def map_err_def s ret_def Let_def)
  qed
qed

lemma prepare_total:
  assumes dec: "decodable d"
    and pend: "\<And>k. raw_key raw = Some k \<Longrightarrow> opened (state_of d k) = VerifyPending \<longrightarrow> open_for d k"
    and ver: "\<And>k c. raw_key raw = Some k \<Longrightarrow> active_challenge k d = Inr (Some c, d)
      \<Longrightarrow> ch_hmac_key_version c = svc_key_version S (ep_verifier p)"
    and chat: "raw_kind raw = RawInboundMessage \<or> raw_kind raw = RawEditedInboundMessage
      \<Longrightarrow> raw_chat_id raw \<noteq> None"
  shows "\<exists>x. prepare S clk uid raw p d = Inr (x, d)"
proof -
  let ?dm = "destructive_setting (ep_destructive_mode p) d"
  obtain ids where ids: "trace_owner_identity raw d = Inr (ids, d)"
    using prepare_parts_total(2) [OF dec] by blast
  obtain sb where sb: "trace_state_before raw d = Inr (sb, d)"
    using prepare_parts_total(3) [OF dec] by blast
  obtain known where known: "known_business_connection raw d = Inr (known, d)"
    using prepare_parts_total(4) [OF dec] by blast
  have act: "\<exists>x. prepare_action S p clk raw ?dm d = Inr (x, d)"
    if kn: "requires_known_connection (raw_kind raw) \<longrightarrow> known"
  proof (cases "raw_kind raw = RawInboundMessage \<or> raw_kind raw = RawEditedInboundMessage")
    case True
    then have "raw_connection_id raw \<noteq> None"
      using kn known by (auto simp: known_business_connection_def ret_def requires_known_connection_def
          split: option.splits)
    with chat [OF True] obtain k where k: "raw_key raw = Some k" by (auto simp: raw_key_def)
    have "\<exists>x. prepare_inbound S p clk raw ?dm d = Inr (x, d)"
      by (rule prepare_inbound_total [OF dec k pend [OF k] ver [OF k]])
    with True show ?thesis by (elim disjE) (simp_all add: prepare_action_def)
  next
    case False
    then show ?thesis by (cases "raw_kind raw") (auto simp: prepare_action_def ret_def)
  qed
  obtain kn where kn: "(if requires_known_connection (raw_kind raw) then known_business_connection raw
      else ret True) d = Inr (kn, d)" "requires_known_connection (raw_kind raw) \<longrightarrow> kn = known"
      "\<not> requires_known_connection (raw_kind raw) \<longrightarrow> kn"
    using known by (cases "requires_known_connection (raw_kind raw)") (auto simp: ret_def)
  obtain a v where "(if kn then prepare_action S p clk raw ?dm else ret (Ignore, ep_verifier p)) d
      = Inr ((a, v), d)"
    using act kn(2,3) by (cases kn) (auto simp: ret_def)
  with ids sb kn(1) show ?thesis
    unfolding prepare_def runtime_destructive_mode_def by (simp add: and_then_run gets_def ret_def)
qed

subsection \<open>Prepared events\<close>

lemma prepare_sound:
  assumes "prepare S clk uid raw p d = Inr ((e, p'), t)" and "raw_key raw = Some k"
  shows "facts_optional_key (pe_facts e) = Some k"
    and "action_current d k (lf_action (pe_facts e))"
    and "action_event d k (lf_action (pe_facts e)) = Some ev
      \<Longrightarrow> \<exists>s. transition (opened (state_of d k)) ev = Inr s"
    and "destructive_action (lf_action (pe_facts e))
      \<Longrightarrow> destructive_setting (ep_destructive_mode p) d \<and> destruction_granted d k
          \<and> knows_connection raw d"
proof -
  let ?dm = "destructive_setting (ep_destructive_mode p) d"
  obtain ids sb a v where e: "pe_facts e = prepared_facts raw ?dm ids sb a"
    and run: "if requires_known_connection (raw_kind raw) \<and> \<not> knows_connection raw d
       then a = Ignore \<and> v = ep_verifier p else prepare_action S p clk raw ?dm d = Inr ((a, v), d)"
    using assms(1) by (elim prepare_Inr)
  have a: "lf_action (pe_facts e) = a" by (simp add: e prepared_facts_def)
  show "facts_optional_key (pe_facts e) = Some k" by (simp add: e prepared_facts_key assms(2))
  have all: "action_current d k a
    \<and> (\<forall>ev. action_event d k a = Some ev \<longrightarrow> (\<exists>s. transition (opened (state_of d k)) ev = Inr s))
    \<and> (destructive_action a \<longrightarrow> ?dm \<and> destruction_granted d k \<and> knows_connection raw d)"
  proof (cases "requires_known_connection (raw_kind raw) \<and> \<not> knows_connection raw d")
    case True
    then show ?thesis using run by simp
  next
    case False
    with run have act: "prepare_action S p clk raw ?dm d = Inr ((a, v), d)" by (simp split: if_splits)
    have "knows_connection raw d" if "destructive_action a"
      using act that False
      by (cases rule: prepare_action_cases) (auto simp: requires_known_connection_def)
    with prepare_action_sound [OF act assms(2)] show ?thesis by blast
  qed
  then show "action_current d k (lf_action (pe_facts e))"
    and "action_event d k (lf_action (pe_facts e)) = Some ev
      \<Longrightarrow> \<exists>s. transition (opened (state_of d k)) ev = Inr s"
    and "destructive_action (lf_action (pe_facts e))
      \<Longrightarrow> ?dm \<and> destruction_granted d k \<and> knows_connection raw d" by (simp_all add: a)
qed

lemma prepare_inbound_action:
  assumes "prepare S clk uid raw p d = Inr ((e, p'), t)"
    and "lf_action (pe_facts e) = InboundAction det out dry"
  obtains k b where "raw_key raw = Some k"
    and "det = run_detector S p (content_of raw)"
    and "dry \<longleftrightarrow> df_decision det = ''SPAM'' \<and> \<not> b"
    and "judged S p clk raw d k (opened (state_of d k)) b out (ep_verifier p')"
proof -
  obtain ids sb a v where p': "p' = p\<lparr>ep_verifier := v\<rparr>"
    and e: "pe_facts e = prepared_facts raw (destructive_setting (ep_destructive_mode p) d) ids sb a"
    and run: "if requires_known_connection (raw_kind raw) \<and> \<not> knows_connection raw d
       then a = Ignore \<and> v = ep_verifier p
       else prepare_action S p clk raw (destructive_setting (ep_destructive_mode p) d) d = Inr ((a, v), d)"
    using assms(1) by (elim prepare_Inr)
  have a: "a = InboundAction det out dry" using assms(2) by (simp add: e prepared_facts_def)
  with run have "prepare_action S p clk raw (destructive_setting (ep_destructive_mode p) d) d
      = Inr ((a, v), d)" by (simp split: if_splits)
  then show thesis
  proof (cases rule: prepare_action_cases)
    case inbound
    from inbound(2) show ?thesis
    proof (cases rule: prepare_inbound_Inr)
      case (judged k av out')
      with a p' show ?thesis by (intro that [of k]) (auto simp: event_key_Inr)
    qed (use a in \<open>auto split: if_splits\<close>)
  qed (use a in auto)
qed

lemma destructive_key:
  assumes "prepare S clk uid raw p d = Inr ((e, p'), t)"
    and "destructive_action (lf_action (pe_facts e))"
  shows "\<exists>k. raw_key raw = Some k"
proof -
  let ?dm = "destructive_setting (ep_destructive_mode p) d"
  obtain ids sb a v where e: "pe_facts e = prepared_facts raw ?dm ids sb a"
    and run: "if requires_known_connection (raw_kind raw) \<and> \<not> knows_connection raw d
       then a = Ignore \<and> v = ep_verifier p else prepare_action S p clk raw ?dm d = Inr ((a, v), d)"
    using assms(1) by (elim prepare_Inr)
  have a: "destructive_action a" using assms(2) by (simp add: e prepared_facts_def)
  with run have "prepare_action S p clk raw ?dm d = Inr ((a, v), d)" by (auto split: if_splits)
  then show ?thesis
  proof (cases rule: prepare_action_cases)
    case inbound
    from inbound(2) show ?thesis by (cases rule: prepare_inbound_Inr) (auto simp: event_key_Inr)
  qed (use a in auto)
qed

context preparation
begin

lemma prepared_spam:
  assumes "prepare S clk uid raw p d = Inr ((e, p'), t)"
    and "lf_action (pe_facts e) = InboundAction det OutSpam dry"
  shows "df_score det = 100 \<and> df_error det = None \<and> \<not> dry"
  using assms
proof (rule prepare_inbound_action)
  fix k b
  assume det: "det = run_detector S p (content_of raw)"
    and dry: "dry \<longleftrightarrow> df_decision det = ''SPAM'' \<and> \<not> b"
    and j: "judged S p clk raw d k (opened (state_of d k)) b OutSpam (ep_verifier p')"
  from j have "df_decision det = ''SPAM''" "b"
    using judged_destructive [OF j]
    by (auto elim!: judged.cases simp: det generated_challenge_outcome_def answered_outcome_def
        Let_def split: prod.splits answer_kind.splits)
  then show ?thesis using spam_decision_score [of p "content_of raw"] det dry by simp
qed

end

lemma and_then_reads_cong:
  "reads m \<Longrightarrow> (\<And>x. f x d = g x d) \<Longrightarrow> and_then m f d = and_then m g d"
  by (auto simp: and_then_def reads_def split: sum.split)

lemma and_then_left: "m d = m' d \<Longrightarrow> and_then m f d = and_then m' f d"
  by (simp add: and_then_def)

lemma prepare_content_irrelevant:
  assumes k: "raw_key raw = Some k" and "state_of d k = Some Active"
  shows "prepare S clk uid (raw\<lparr>raw_content := m\<rparr>) p d = prepare S' clk uid raw p d"
proof -
  let ?raw = "raw\<lparr>raw_content := m\<rparr>"
  have same: "trace_owner_identity ?raw = trace_owner_identity raw"
    "trace_state_before ?raw = trace_state_before raw"
    "known_business_connection ?raw = known_business_connection raw"
    "prepared_facts ?raw = prepared_facts raw"
    by (cases "raw_connection raw"; simp add: trace_owner_identity_def trace_state_before_def
        known_business_connection_def prepared_facts_def fun_eq_iff)+
  obtain c where c: "find_conversation k d = Inr (Some c, d)" "cv_state c = Active"
    using assms(2) by (auto simp: state_of_def row_of_def find_conversation_def gets_def)
  have key: "event_key ?raw = Inr k" "event_key raw = Inr k"
    using k by (simp_all add: event_key_Inr raw_key_def)
  have inb: "prepare_inbound S p clk ?raw dm d = Inr ((ActiveInbound, ep_verifier p), d)"
    "prepare_inbound S' p clk raw dm d = Inr ((ActiveInbound, ep_verifier p), d)" for dm
    unfolding prepare_inbound_def key and_then_Inr_lift
    using c by (simp_all add: and_then_run map_err_def ret_def)
  have act: "prepare_action S p clk ?raw dm d = prepare_action S' p clk raw dm d" for dm
    by (cases "raw_kind raw") (simp_all add: prepare_action_def inb)
  have stay: "reads (trace_owner_identity raw)" "reads (trace_state_before raw)"
    "reads (if requires_known_connection (raw_kind raw) then known_business_connection raw else ret True)"
    by (intro reads_prepare_parts reads_rules)+
  have raw_simps: "raw_kind ?raw = raw_kind raw" "raw_occurred_at ?raw = raw_occurred_at raw" by simp_all
  have "reads (runtime_destructive_mode (ep_destructive_mode p))" by (rule reads_prepare_parts)
  then show ?thesis
    unfolding prepare_def same raw_simps
    by (intro and_then_reads_cong stay and_then_left) (auto simp: act split: if_split)
qed

lemma answered_remaining:
  assumes "answered_outcome S p clk content b c = OutIncorrect i ex rem blk"
    and "0 \<le> ch_attempts_used c" and "ch_attempts_used c \<le> 3" and "ch_max_attempts c = 3"
  shows "i = ch_id c" and "ex \<longleftrightarrow> 2 \<le> ch_attempts_used c" and "int (unat rem) = max (2 - ch_attempts_used c) 0"
    and "blk = (if ex \<and> b then Some (snd clk + hours 24) else None)"
proof -
  have w: "int (unat (word_of_int n :: byte)) = n" if "0 \<le> n" "n \<le> 255" for n
    using that by (simp add: unat_eq_nat_uint uint_word_of_int_eq take_bit_int_eq_self)
  show "i = ch_id c" "ex \<longleftrightarrow> 2 \<le> ch_attempts_used c"
    "blk = (if ex \<and> b then Some (snd clk + hours 24) else None)"
    using assms by (auto simp: answered_outcome_def Let_def split: answer_kind.splits)
  have "rem = word_of_int (max (2 - ch_attempts_used c) 0)"
    using assms by (auto simp: answered_outcome_def Let_def max_def split: answer_kind.splits)
  then show "int (unat rem) = max (2 - ch_attempts_used c) 0"
    using assms(2) by (simp only:) (rule w; simp)
qed

end
