(* ===== verification/Preparation_Safety.thy ===== *)
theory Preparation_Safety
  imports Event_Preparer
begin

section \<open>Safety of preparation\<close>

text \<open>
  The properties of the preparer with their samples: prepared events are applicable, nothing
  destructive is prepared without consent, a failing detector never condemns a message, active
  conversations are not inspected, attempts are counted exactly, preparation does not fail on
  a sound state, and a started challenge can be answered.
\<close>

subsection \<open>Samples\<close>

definition sample_raw :: "raw_event_kind \<Rightarrow> raw_business_event" where
  "sample_raw kind =
     \<lparr>raw_kind = kind, raw_connection_id = Some ''bc'', raw_chat_id = Some 7,
      raw_message_id = Some 70, raw_media_group_id = None, raw_content = None,
      raw_deleted_message_ids = [], raw_connection = None, raw_owner_claim = None,
      raw_owner_command = None, raw_contact_display_name = None, raw_contact_username = None,
      raw_occurred_at = 100\<rparr>"

definition sample_preparer :: "bool \<Rightarrow> (rule_detector, unit arithmetic_verifier) event_preparer" where
  "sample_preparer mode =
     \<lparr>ep_detector = sample_detector, ep_verifier = sample_verifier, ep_destructive_mode = mode\<rparr>"

abbreviation sample_services ::
  "(rule_detector, unit arithmetic_verifier) preparer_services" where
  "sample_services \<equiv> engine_services sample_env sample_crypto sample_range"

text \<open>The sample database with all rights granted and its conversation in a given state.\<close>

definition sample_state_db :: "conversation_state \<Rightarrow> database" where
  "sample_state_db s =
     sample_db\<lparr>connections := map (\<lambda>b. b\<lparr>bc_rights_json :=
          Some (rights_json \<lparr>can_reply = True, can_read_messages = True,
            can_delete_sent_messages = True, can_delete_all_messages = True\<rparr>)\<rparr>) (connections sample_db),
        conversations := map (\<lambda>c. c\<lparr>cv_state := s\<rparr>) (conversations sample_db),
        challenges := (if s = VerifyPending then challenges sample_db else [])\<rparr>"

lemma sample_connection:
  "find_business_connection ''bc'' (sample_state_db s)
   = Inr (Some (hd (connections (sample_state_db s))), sample_state_db s)"
  "bc_enabled (hd (connections (sample_state_db s)))"
  "stored_rights_of (bc_rights_json (hd (connections (sample_state_db s))))
   = \<lparr>sr_can_reply = True, sr_can_read_messages = True, sr_can_delete_all_messages = True\<rparr>"
  by (simp_all add: sample_state_db_def sample_db_def find_business_connection_def op_defs
      load_telegram_reconciliation_state_def find_row_def confirmed_def decode_optional_def
      decode_business_connection_def trim_def trim_start_def trim_end_def is_whitespace_def
      stored_rights_of_def rights_json_def struct_fields_def object_field_def)

lemma sample_availability:
  "business_availability sample_key (sample_state_db s)
   = Inr (\<lparr>ba_reply = True, ba_destructive = True\<rparr>, sample_state_db s)"
  using sample_connection [of s]
  by (simp add: business_availability_def and_then_run map_err_def sample_key_def ret_def Let_def)

lemma sample_conversation:
  "find_conversation sample_key (sample_state_db s)
   = Inr (Some (hd (conversations (sample_state_db s))), sample_state_db s)"
  "cv_state (hd (conversations (sample_state_db s))) = s"
  "state_of (sample_state_db s) sample_key = Some s"
  by (simp_all add: find_conversation_def gets_def sample_state_db_def sample_db_def find_row_def
      state_of_def row_of_def)

lemma sample_raw_simps [simp]:
  "raw_kind (sample_raw kind) = kind" "event_key (sample_raw kind) = Inr sample_key"
  "raw_key (sample_raw kind) = Some sample_key"
  "raw_connection_id (sample_raw kind) = Some ''bc''" "raw_chat_id (sample_raw kind) = Some 7"
  by (simp_all add: sample_raw_def event_key_def raw_key_def sample_key_def)

lemma sample_decodable: "decodable (sample_state_db s)"
  by (simp add: decodable_def sample_state_db_def sample_db_def decode_business_connection_def
      trim_def trim_start_def trim_end_def is_whitespace_def rights_json_def confirmed_def)

text \<open>A preparation of the sample update, given how its inbound part runs.\<close>

lemma sample_prepare:
  assumes "prepare_inbound S p clk (sample_raw RawInboundMessage) (ep_destructive_mode p)
      (sample_state_db s) = Inr ((a, v), sample_state_db s)"
  shows "\<exists>e p'. prepare S clk uid (sample_raw RawInboundMessage) p (sample_state_db s)
      = Inr ((e, p'), sample_state_db s) \<and> lf_action (pe_facts e) = a"
proof -
  let ?raw = "sample_raw RawInboundMessage" and ?d = "sample_state_db s"
  obtain ids where ids: "trace_owner_identity ?raw ?d = Inr (ids, ?d)"
    using prepare_parts_total(2) [OF sample_decodable] by blast
  obtain sb where sb: "trace_state_before ?raw ?d = Inr (sb, ?d)"
    using prepare_parts_total(3) [OF sample_decodable] by blast
  have known: "known_business_connection ?raw ?d = Inr (True, ?d)"
    by (simp add: known_business_connection_def and_then_run map_err_def sample_connection ret_def)
  have mode: "runtime_destructive_mode (ep_destructive_mode p) ?d = Inr (ep_destructive_mode p, ?d)"
    by (simp add: runtime_destructive_mode_def destructive_setting_def gets_def sample_state_db_def
        sample_db_def)
  show ?thesis
    using assms unfolding prepare_def
    by (simp add: and_then_run mode ids sb known requires_known_connection_def prepare_action_def
        ret_def prepared_facts_def)
qed

lemma sample_inbound:
  "s = TempSoftBlocked \<Longrightarrow> prepare_inbound S p clk (sample_raw RawInboundMessage) True (sample_state_db s)
   = Inr ((BlockedInbound, ep_verifier p), sample_state_db s)"
  "s = New \<Longrightarrow> prepare_inbound S p clk (sample_raw RawInboundMessage) False (sample_state_db s)
   = (let (out, v) = generated_challenge_outcome S p (fst clk);
          det = run_detector S p (content_of (sample_raw RawInboundMessage))
      in Inr ((InboundAction det out (df_decision det = ''SPAM''), v), sample_state_db s))"
  by (simp_all add: prepare_inbound_def and_then_Inr_lift and_then_run map_err_def
      sample_conversation sample_availability ret_def safe_outcome_def Let_def case_prod_beta)

text \<open>The same services with a detector that fails.\<close>

definition offline_services :: "(rule_detector, unit arithmetic_verifier) preparer_services" where
  "offline_services = sample_services\<lparr>svc_detect := (\<lambda>_ _ _. Inl (InvalidConfig []))\<rparr>"

lemma sample_wrong_answer:
  "prepare_inbound offline_services (sample_preparer False) (100, 100) (sample_raw RawInboundMessage)
     False (sample_state_db VerifyPending)
   = Inr ((InboundAction (detection_failed (detector_error_text (InvalidConfig [])))
       (OutIncorrect 1 False 2 None) False, sample_verifier), sample_state_db VerifyPending)"
proof -
  let ?d = "sample_state_db VerifyPending"
  have c: "active_challenge sample_key ?d = Inr (Some (challenge_of_row (hd (challenges sample_db))), ?d)"
    by (simp add: active_challenge_def gets_def sample_state_db_def sample_db_def find_row_def
        open_challenge_def)
  have det: "run_detector offline_services (sample_preparer False) m
      = detection_failed (detector_error_text (InvalidConfig []))" for m
    by (simp add: run_detector_def offline_services_def)
  have out: "answered_outcome offline_services (sample_preparer False) (100, 100)
      (content_of (sample_raw RawInboundMessage)) False (challenge_of_row (hd (challenges sample_db)))
      = OutIncorrect 1 False 2 None"
    by (simp add: answered_outcome_def offline_services_def engine_services_def evaluate_def
        normalize_answer_def content_of_def sample_raw_def empty_content_def sample_crypto_def
        trim_def trim_start_def trim_end_def strip_prefix_def challenge_of_row_def
        challenge_record.defs sample_db_def)
  have "safe_outcome offline_services (sample_preparer False) (100, 100) RawInboundMessage
      VerifyPending sample_key (content_of (sample_raw RawInboundMessage)) False ?d
    = Inr ((OutIncorrect 1 False 2 None, sample_verifier), ?d)"
    using out unfolding safe_outcome_def conversation_state.case
    by (simp add: and_then_run map_err_def c ok_or_def and_then_Inr_lift ret_def
        challenge_of_row_def challenge_record.defs sample_db_def offline_services_def
        engine_services_def sample_preparer_def sample_verifier_def)
  then show ?thesis
    by (simp add: prepare_inbound_def and_then_Inr_lift and_then_run map_err_def sample_conversation
        sample_availability ret_def det detection_failed_def)
qed

lemma sample_start:
  "\<exists>e p' det ex h ver created expires m dry.
     prepare sample_services (100, 100) 9 (sample_raw RawInboundMessage) (sample_preparer False)
       (sample_state_db New) = Inr ((e, p'), sample_state_db New)
     \<and> lf_action (pe_facts e) = InboundAction det (StartChallenge ex h ver created expires m) dry"
proof -
  let ?p = "sample_preparer False"
  let ?det = "run_detector sample_services ?p (content_of (sample_raw RawInboundMessage))"
  have mode: "\<not> ep_destructive_mode ?p" by (simp add: sample_preparer_def)
  obtain ex h ver created expires m v where
    "generated_challenge_outcome sample_services ?p 100 = (StartChallenge ex h ver created expires m, v)"
    by (simp add: generated_challenge_outcome_def Let_def case_prod_beta)
  then have "prepare_inbound sample_services ?p (100, 100) (sample_raw RawInboundMessage)
      (ep_destructive_mode ?p) (sample_state_db New)
    = Inr ((InboundAction ?det (StartChallenge ex h ver created expires m)
        (df_decision ?det = ''SPAM''), v), sample_state_db New)"
    using sample_inbound(2) [OF refl, of sample_services ?p "(100, 100)"] mode by (simp add: Let_def)
  from sample_prepare [OF this, of 9] show ?thesis by blast
qed

lemma sample_state_ok: "db_ok (sample_state_db s)"
  using sample_ok by (cases "s = VerifyPending")
    (simp_all add: sample_state_db_def sample_db_def ok_defs sample_key_def open_challenge_def
      attempts_ok_def)

subsection \<open>Properties\<close>

text \<open>
  C27: preparation reads and never writes, and what it prepares is applicable: in the state it
  was prepared in, the event names the raw update's own conversation, a challenge it answers or
  closes is that conversation's open one, and the transition it asks for is one the
  conversation's state admits.
\<close>

theorem prepared_event_applicable:
  assumes "prepare S clk uid raw p d = Inr ((e, p'), t)"
    and "raw_connection_id raw = Some cid" and "raw_chat_id raw = Some h"
  shows "t = d \<and> pe_update_id e = uid
    \<and> facts_optional_key (pe_facts e) = Some \<lparr>connection_id = cid, chat_id = h\<rparr>
    \<and> action_current d \<lparr>connection_id = cid, chat_id = h\<rparr> (lf_action (pe_facts e))
    \<and> (case action_event d \<lparr>connection_id = cid, chat_id = h\<rparr> (lf_action (pe_facts e)) of
         None \<Rightarrow> True
       | Some ev \<Rightarrow> \<exists>s. transition (opened (state_of d \<lparr>connection_id = cid, chat_id = h\<rparr>)) ev = Inr s)"
proof -
  have k: "raw_key raw = Some \<lparr>connection_id = cid, chat_id = h\<rparr>"
    using assms(2,3) by (simp add: raw_key_def)
  have "t = d" by (rule readsD [OF reads_prepare assms(1)])
  moreover have "pe_update_id e = uid" using assms(1) by (elim prepare_Inr)
  ultimately show ?thesis
    using prepare_sound(1-3) [OF assms(1) k] by (auto split: option.split)
qed

theorem prepared_event_applicable_witness:
  "\<exists>e p'. prepare sample_services (100, 100) 9 (sample_raw RawInboundMessage) (sample_preparer False)
       (sample_state_db New) = Inr ((e, p'), sample_state_db New)
     \<and> facts_optional_key (pe_facts e) = Some sample_key
     \<and> action_current (sample_state_db New) sample_key (lf_action (pe_facts e))"
proof -
  obtain e p' where run: "prepare sample_services (100, 100) 9 (sample_raw RawInboundMessage)
      (sample_preparer False) (sample_state_db New) = Inr ((e, p'), sample_state_db New)"
    using sample_start by blast
  from prepared_event_applicable [OF run] run show ?thesis
    by (simp add: sample_key_def)
qed

text \<open>
  C8: destruction needs consent. An event whose application would block a conversation or have
  messages read and deleted is prepared only when destructive mode is switched on, the
  reconciliation gate is open, and the update's own business connection is confirmed, enabled
  and grants the rights to read and to delete all messages; a spam verdict moreover needs a
  detection with the full score and without error.
\<close>

theorem destruction_needs_consent:
  assumes "prepare (engine_services env cr rr) clk uid raw p d = Inr ((e, p'), t)"
    and "destructive_action (lf_action (pe_facts e))"
  shows "destructive_setting (ep_destructive_mode p) d \<and> tr_state (reconciliation d) = GlobalReady
    \<and> (\<exists>b \<in> set (connections d). Some (bc_connection_id b) = raw_connection_id raw \<and> confirmed b
         \<and> bc_enabled b \<and> sr_can_read_messages (stored_rights_of (bc_rights_json b))
         \<and> sr_can_delete_all_messages (stored_rights_of (bc_rights_json b)))
    \<and> (case lf_action (pe_facts e) of
         InboundAction det OutSpam dry \<Rightarrow>
           df_score det = 100 \<and> df_error det = None \<and> \<not> dry
       | _ \<Rightarrow> True)"
proof -
  obtain k where k: "raw_key raw = Some k" using destructive_key [OF assms] by blast
  then have cid: "raw_connection_id raw = Some (connection_id k)"
    by (auto simp: raw_key_def split: option.splits)
  have "case lf_action (pe_facts e) of
      InboundAction det OutSpam dry \<Rightarrow> df_score det = 100 \<and> df_error det = None \<and> \<not> dry | _ \<Rightarrow> True"
    using engine.prepared_spam [OF assms(1)]
    by (auto split: prepared_action.split inbound_outcome.split)
  then show ?thesis
    using prepare_sound(4) [OF assms(1) k assms(2)] cid
    unfolding destruction_granted_def knows_connection_def by auto
qed

theorem destruction_needs_consent_witness:
  "\<exists>e p'. prepare sample_services (100, 100) 9 (sample_raw RawInboundMessage) (sample_preparer True)
       (sample_state_db TempSoftBlocked) = Inr ((e, p'), sample_state_db TempSoftBlocked)
     \<and> destructive_action (lf_action (pe_facts e))
     \<and> destructive_setting True (sample_state_db TempSoftBlocked)"
proof -
  have inb: "prepare_inbound sample_services (sample_preparer True) (100, 100)
      (sample_raw RawInboundMessage) (ep_destructive_mode (sample_preparer True))
      (sample_state_db TempSoftBlocked)
    = Inr ((BlockedInbound, ep_verifier (sample_preparer True)), sample_state_db TempSoftBlocked)"
    by (simp add: sample_preparer_def sample_inbound(1))
  obtain e p' where run: "prepare sample_services (100, 100) 9 (sample_raw RawInboundMessage)
      (sample_preparer True) (sample_state_db TempSoftBlocked)
      = Inr ((e, p'), sample_state_db TempSoftBlocked)"
    and act: "destructive_action (lf_action (pe_facts e))"
    using sample_prepare [OF inb, of 9] by auto
  from destruction_needs_consent [OF run act] run act show ?thesis
    by (auto simp: sample_preparer_def)
qed

text \<open>
  A detector that fails never makes a message spam. When the detector returns an error, the
  prepared event keeps the error, scores zero, and its outcome is not spam: the message goes
  through verification as a safe one, in destructive mode as in a dry run.
\<close>

theorem detector_failure_fails_open:
  assumes "svc_detect S (ep_detector p) (content_of raw) blank_context = Inl err"
    and "prepare S clk uid raw p d = Inr ((e, p'), t)"
    and "lf_action (pe_facts e) = InboundAction det out dry"
  shows "out \<noteq> OutSpam \<and> \<not> dry \<and> df_score det = 0 \<and> df_decision det = ''ALLOW''
    \<and> df_error det = Some (detector_error_text err)"
  using assms(2,3)
proof (rule prepare_inbound_action)
  fix k b
  assume det: "det = run_detector S p (content_of raw)"
    and dry: "dry \<longleftrightarrow> df_decision det = ''SPAM'' \<and> \<not> b"
    and j: "judged S p clk raw d k (opened (state_of d k)) b out (ep_verifier p')"
  have f: "det = detection_failed (detector_error_text err)"
    using assms(1) by (simp add: det run_detector_def)
  from j have "out \<noteq> OutSpam"
    using f det by (auto elim!: judged.cases simp: detection_failed_def generated_challenge_outcome_def
        answered_outcome_def Let_def split: prod.splits answer_kind.splits)
  then show ?thesis using f dry by (simp add: detection_failed_def)
qed

theorem detector_failure_fails_open_witness:
  "\<exists>e p' det out dry. prepare offline_services (100, 100) 9 (sample_raw RawInboundMessage)
       (sample_preparer False) (sample_state_db VerifyPending)
       = Inr ((e, p'), sample_state_db VerifyPending)
     \<and> lf_action (pe_facts e) = InboundAction det out dry \<and> out \<noteq> OutSpam \<and> df_score det = 0"
proof -
  obtain e p' where run: "prepare offline_services (100, 100) 9 (sample_raw RawInboundMessage)
      (sample_preparer False) (sample_state_db VerifyPending)
      = Inr ((e, p'), sample_state_db VerifyPending)"
    and act: "lf_action (pe_facts e) = InboundAction
      (detection_failed (detector_error_text (InvalidConfig []))) (OutIncorrect 1 False 2 None) False"
    using sample_prepare [of offline_services "sample_preparer False"] sample_wrong_answer
    by (fastforce simp: sample_preparer_def)
  have "svc_detect offline_services (ep_detector (sample_preparer False))
      (content_of (sample_raw RawInboundMessage)) blank_context = Inl (InvalidConfig [])"
    by (simp add: offline_services_def)
  from detector_failure_fails_open [OF this run act] run act show ?thesis by blast
qed

text \<open>
  The messages of a conversation the owner takes part in are not inspected. In an active
  conversation the prepared event is the same whatever the content of the message and whatever
  the detector and the verifier are.
\<close>

theorem active_conversation_not_inspected:
  assumes "raw_connection_id raw = Some cid" and "raw_chat_id raw = Some h"
    and "state_of d \<lparr>connection_id = cid, chat_id = h\<rparr> = Some Active"
  shows "prepare S clk uid (raw\<lparr>raw_content := m\<rparr>) p d = prepare S' clk uid raw p d"
  using assms by (intro prepare_content_irrelevant [of _ "\<lparr>connection_id = cid, chat_id = h\<rparr>"])
    (simp_all add: raw_key_def)

theorem active_conversation_not_inspected_witness:
  "prepare sample_services (100, 100) 9
     (sample_raw RawInboundMessage\<lparr>raw_content := Some sample_spam\<rparr>) (sample_preparer True)
     (sample_state_db Active)
   = prepare offline_services (100, 100) 9 (sample_raw RawInboundMessage) (sample_preparer True)
       (sample_state_db Active)"
  by (rule active_conversation_not_inspected [of _ "''bc''" 7])
    (simp_all add: sample_conversation(3) [unfolded sample_key_def])



text \<open>
  C28: preparation is total on a sound state: when the stored connections are readable and at
  most one is confirmed, a conversation that awaits verification has an open challenge, and the
  open challenges carry the verifier's key version, every update is prepared; no content, no
  detector and no answer makes it fail.
\<close>

theorem prepare_never_fails:
  assumes "\<forall>b \<in> set (connections d). decode_business_connection b = Inr b"
    and "length (filter confirmed (connections d)) \<le> 1"
    and "db_ok d" and "\<forall>k s. state_of d k = Some s \<longrightarrow> (s = VerifyPending \<longleftrightarrow> open_for d k)"
    and "\<forall>c \<in> set (challenges d). ch_closed_at c = None
      \<longrightarrow> ch_hmac_key_version c = svc_key_version S (ep_verifier p)"
    and "raw_kind raw \<in> {RawInboundMessage, RawEditedInboundMessage} \<longrightarrow> raw_chat_id raw \<noteq> None"
  shows "\<exists>e p'. prepare S clk uid raw p d = Inr ((e, p'), d)"
proof -
  have "decodable d" using assms(1,2) by (simp add: decodable_def)
  moreover have "opened (state_of d k) = VerifyPending \<longrightarrow> open_for d k" for k
    using opened_pending [OF assms(3)] assms(4) by (simp add: verify_sound_def)
  moreover have "ch_hmac_key_version c = svc_key_version S (ep_verifier p)"
    if "active_challenge k d = Inr (Some c, d)" for k c
    using that assms(5)
    by (auto simp: active_challenge_def gets_def open_challenge_def challenge_of_row_def
        challenge_record.defs dest!: find_row_SomeD)
  ultimately have "\<exists>x. prepare S clk uid raw p d = Inr (x, d)"
    using assms(6) by (intro prepare_total) auto
  then show ?thesis by auto
qed

theorem prepare_never_fails_witness:
  "\<exists>e p'. prepare sample_services (100, 100) 9 (sample_raw RawEditedInboundMessage)
     (sample_preparer True) (sample_state_db VerifyPending)
     = Inr ((e, p'), sample_state_db VerifyPending)"
proof (rule prepare_never_fails)
  show "\<forall>b \<in> set (connections (sample_state_db VerifyPending)). decode_business_connection b = Inr b"
    and "length (filter confirmed (connections (sample_state_db VerifyPending))) \<le> 1"
    using sample_decodable [of VerifyPending] by (simp_all add: decodable_def)
  show "db_ok (sample_state_db VerifyPending)" by (rule sample_state_ok)
  show "\<forall>k s. state_of (sample_state_db VerifyPending) k = Some s
      \<longrightarrow> (s = VerifyPending \<longleftrightarrow> open_for (sample_state_db VerifyPending) k)"
    by (auto simp: sample_state_db_def sample_db_def state_of_def row_of_def find_row_def open_for_def
        open_challenge_def)
  show "\<forall>c \<in> set (challenges (sample_state_db VerifyPending)). ch_closed_at c = None
      \<longrightarrow> ch_hmac_key_version c = svc_key_version sample_services (ep_verifier (sample_preparer True))"
    by (simp add: sample_state_db_def sample_db_def engine_services_def sample_preparer_def
        sample_verifier_def)
qed simp

text \<open>
  A started challenge can be answered. When the engine's detector and verifier start a
  challenge for a first message, there is a number between 0 and 99, the value of the displayed
  expression, such that any later spelling of it in a new message, checked by any later state
  of the verifier against the stored challenge before it expires, is judged correct; the
  challenge carries three attempts and expires two minutes after it was created.
\<close>

theorem started_challenge_answerable:
  assumes "rng_in_range rr" and "crypto_documented cr"
    and "prepare (engine_services env cr rr) clk uid raw p d = Inr ((e, p'), t)"
    and "lf_action (pe_facts e) = InboundAction det (StartChallenge ex h ver created expires m) dry"
  shows "m = 3 \<and> created = fst clk \<and> expires = created + minutes 2
    \<and> (\<exists>a o1 b o2 c n. ex = format_expression a o1 b o2 c \<and> n \<le> 99
         \<and> int n = snd (expression_steps (sint a) o1 (sint b) o2 (sint c))
         \<and> (\<forall>q ts k ch d2 clk2 content destructive xs sg z ys.
              ep_verifier q = after_generating (generate cr rr) (ep_verifier p') ts
              \<and> active_challenge k d2 = Inr (Some ch, d2) \<and> ch_answer_hmac ch = h
              \<and> ch_hmac_key_version ch = ver \<and> fst clk2 < ch_expires_at ch
              \<and> mc_text content = Some (answer_spelling xs sg z n ys)
              \<and> ascii_blank xs \<and> ascii_blank ys \<longrightarrow>
              safe_outcome (engine_services env cr rr) q clk2 RawInboundMessage VerifyPending k content
                destructive d2 = Inr ((OutCorrect (ch_id ch), ep_verifier q), d2)))"
  using assms(3,4)
proof (rule prepare_inbound_action)
  let ?S = "engine_services env cr rr"
  let ?g = "generate cr rr (ep_verifier p) (fst clk)"
  fix k b
  assume j: "judged ?S p clk raw d k (opened (state_of d k)) b (StartChallenge ex h ver created expires m)
      (ep_verifier p')"
  have svc: "svc_generate ?S = generate cr rr" "svc_key_version ?S = av_key_version"
      "svc_evaluate ?S = evaluate cr" by (simp_all add: engine_services_def)
  note started = engine.started_challenge [OF j, unfolded svc]
  have m: "m = gc_max_attempts (fst ?g)"
    using j by (auto elim!: judged.cases simp: generated_challenge_outcome_def answered_outcome_def
        svc Let_def case_prod_beta split: answer_kind.splits)
  have p': "ep_verifier p' = after_generating (generate cr rr) (ep_verifier p) [fst clk]"
    using started(8) by simp
  have window: "gc_max_attempts (fst ?g) = 3" "gc_expires_at (fst ?g) = fst clk + minutes 2"
    by (simp_all add: generate_def Let_def case_prod_beta)
  obtain a o1 b' o2 c n where n: "n \<le> 99" "gc_expression (fst ?g) = format_expression a o1 b' o2 c"
      "int n = snd (expression_steps (sint a) o1 (sint b') o2 (sint c))"
    and ok: "\<And>xs sg z ys ts. ascii_blank xs \<and> ascii_blank ys \<Longrightarrow>
      evaluate cr (after_generating (generate cr rr) (ep_verifier p) ts) (answer_spelling xs sg z n ys)
        (gc_answer_hmac (fst ?g)) = Correct"
    using generated_answer_accepted [OF assms(1,2), of "ep_verifier p" "fst clk"] by blast
  have "safe_outcome ?S q clk2 RawInboundMessage VerifyPending k content destructive d2
      = Inr ((OutCorrect (ch_id ch), ep_verifier q), d2)"
    if q: "ep_verifier q = after_generating (generate cr rr) (ep_verifier p') ts"
      and ch: "active_challenge k d2 = Inr (Some ch, d2)" "ch_answer_hmac ch = h"
        "ch_hmac_key_version ch = ver" "fst clk2 < ch_expires_at ch"
      and msg: "mc_text content = Some (answer_spelling xs sg z n ys)" "ascii_blank xs" "ascii_blank ys"
    for q ts k ch d2 clk2 content destructive xs sg z ys
  proof -
    have "evaluate cr (ep_verifier q) = evaluate cr (ep_verifier p)"
      and v: "av_key_version (ep_verifier q) = av_key_version (ep_verifier p)"
      unfolding q p' by (simp_all only: arithmetic.after_generating_evaluate
          arithmetic.after_generating_key_version)
    then have "evaluate cr (ep_verifier q) (answer_spelling xs sg z n ys) h = Correct"
      using ok [of xs ys "[]" sg z] msg(2,3) started(5) by simp
    then have "answered_outcome ?S q clk2 content destructive ch = OutCorrect (ch_id ch)"
      using msg(1) ch(2) by (simp add: answered_outcome_def svc)
    then show ?thesis
      using ch v started(1)
      by (simp add: safe_outcome_def and_then_run map_err_def ok_or_def and_then_Inr_lift svc ret_def)
  qed
  then show ?thesis using n m started(2,6,7) window by blast
qed

theorem started_challenge_answerable_witness:
  "\<exists>e p' det ex h ver created expires m dry.
     prepare sample_services (100, 100) 9 (sample_raw RawInboundMessage) (sample_preparer False)
       (sample_state_db New) = Inr ((e, p'), sample_state_db New)
     \<and> lf_action (pe_facts e) = InboundAction det (StartChallenge ex h ver created expires m) dry
     \<and> m = 3 \<and> expires = 100 + minutes 2"
proof -
  obtain e p' det ex h ver created expires m dry where
    run: "prepare sample_services (100, 100) 9 (sample_raw RawInboundMessage) (sample_preparer False)
       (sample_state_db New) = Inr ((e, p'), sample_state_db New)"
    and act: "lf_action (pe_facts e) = InboundAction det (StartChallenge ex h ver created expires m) dry"
    using sample_start by blast
  from started_challenge_answerable [OF sample_range_in_range sample_crypto_documented run act] run act
  show ?thesis by fastforce
qed

end
