(* ===== verification/Readiness.thy ===== *)
theory Readiness
  imports Connection_Reconciliation
begin

section \<open>Readiness\<close>

text \<open>
  Models \<open>src/health.rs\<close>: the classification of the stored state into a health snapshot. An
  error means that the state is not a legal ready one; queued business actions are held back
  then.
\<close>

datatype owner_health = OwnerClaimed | OwnerUnclaimed

fun owner_health_as_str :: "owner_health \<Rightarrow> string" where
  "owner_health_as_str OwnerClaimed = ''claimed''"
| "owner_health_as_str OwnerUnclaimed = ''unclaimed''"

datatype connection_health =
    HealthMissing | HealthCandidate | HealthEnabled | HealthDisabled | HealthRightsIncomplete
  | HealthAmbiguous

fun connection_health_as_str :: "connection_health \<Rightarrow> string" where
  "connection_health_as_str HealthMissing = ''missing''"
| "connection_health_as_str HealthCandidate = ''candidate''"
| "connection_health_as_str HealthEnabled = ''enabled''"
| "connection_health_as_str HealthDisabled = ''disabled''"
| "connection_health_as_str HealthRightsIncomplete = ''rights_incomplete''"
| "connection_health_as_str HealthAmbiguous = ''ambiguous''"

record health_snapshot =
  hs_owner :: owner_health
  hs_connection :: connection_health

definition CANDIDATE_RETENTION :: int where
  "CANDIDATE_RETENTION = days 7"

definition rights_complete :: "rights \<Rightarrow> bool" where
  "rights_complete r \<longleftrightarrow> can_reply r \<and> can_read_messages r \<and> can_delete_sent_messages r
     \<and> can_delete_all_messages r"

definition unavailable :: storage_error where
  "unavailable = InvalidTelegramReconciliationState ''readiness is unavailable''"

definition untrusted_health ::
  "candidate_guard \<Rightarrow> business_connection_candidate list \<Rightarrow> connection_health" where
  "untrusted_health g retained =
     (if cg_overflow_established_at g \<noteq> None \<or> 1 < length retained then HealthAmbiguous
      else if length retained = 1 then HealthCandidate
      else HealthMissing)"

definition trusted_health ::
  "i64 \<Rightarrow> business_connection_record \<Rightarrow> candidate_guard \<Rightarrow> business_connection_candidate list
   \<Rightarrow> storage_error + connection_health" where
  "trusted_health user b g retained =
     (if bc_owner_user_id b \<noteq> user \<or> \<not> confirmed b \<or> retained \<noteq> []
         \<or> cg_overflow_established_at g \<noteq> None
      then Inl unavailable
      else
        (case decode_rights True True (bc_rights_json b) of
           None \<Rightarrow> Inl unavailable
         | Some r \<Rightarrow>
             Inr (if \<not> bc_enabled b then HealthDisabled
                  else if rights_complete r then HealthEnabled
                  else HealthRightsIncomplete)))"

definition health_of ::
  "owner_identity \<Rightarrow> business_connection_record option \<Rightarrow> candidate_guard
   \<Rightarrow> business_connection_candidate list \<Rightarrow> storage_error + health_snapshot" where
  "health_of i trusted g retained =
     (case (i, trusted) of
        (Unclaimed, Some _) \<Rightarrow> Inl unavailable
      | (Unclaimed, None) \<Rightarrow>
          Inr \<lparr>hs_owner = OwnerUnclaimed, hs_connection = untrusted_health g retained\<rparr>
      | (Claimed user _ _ _ _, Some b) \<Rightarrow>
          (case trusted_health user b g retained of
             Inl e \<Rightarrow> Inl e
           | Inr h \<Rightarrow> Inr \<lparr>hs_owner = OwnerClaimed, hs_connection = h\<rparr>)
      | (Claimed user _ _ _ _, None) \<Rightarrow>
          if \<exists>c \<in> set retained. cc_business_user_id c \<noteq> user then Inl unavailable
          else Inr \<lparr>hs_owner = OwnerClaimed, hs_connection = untrusted_health g retained\<rparr>)"

definition classify_readiness_in :: "timestamp \<Rightarrow> ('ev, health_snapshot) sop" where
  "classify_readiness_in now =
     and_then load_telegram_reconciliation_state (\<lambda>g0.
     if tr_state g0 \<noteq> GlobalReady then fail unavailable
     else
     and_then load_owner_identity (\<lambda>i.
     and_then load_single_trusted_connection (\<lambda>trusted.
     and_then list_connection_candidates (\<lambda>cs.
     and_then load_candidate_guard (\<lambda>g.
       lift_result (health_of i trusted g
         (filter (\<lambda>c. now - CANDIDATE_RETENTION \<le> cc_observed_at c) cs)))))))"

definition classify_readiness :: "timestamp \<Rightarrow> 'ev db \<Rightarrow> (storage_error + health_snapshot) \<times> 'ev db" where
  "classify_readiness now = commit (classify_readiness_in now)"

subsection \<open>What a snapshot says\<close>

lemma decode_business_id: "decode_business_connection b = Inr c \<Longrightarrow> c = b"
  by (auto simp: decode_business_connection_def split: if_splits)

lemma single_trusted_Inr:
  assumes "load_single_trusted_connection d = Inr (found, t)"
  shows "t = d" and "found = None \<longleftrightarrow> connections d = []"
    and "found = Some b \<Longrightarrow> connections d = [b] \<and> bc_rights_json b \<noteq> None"
proof -
  show "t = d" by (rule readsD [OF repository_reads(12) assms])
  have r: "single_row (lit ''single-account mode found multiple trusted Business connections'')
      (connections d) = Inr found"
    using assms by (auto simp: load_single_trusted_connection_def gets_result_Inr_iff)
  show "found = None \<longleftrightarrow> connections d = []"
    using r by (auto simp: single_row_def decode_optional_def split: list.splits sum.splits)
  show "connections d = [b] \<and> bc_rights_json b \<noteq> None" if "found = Some b"
    using r that
    by (auto simp: single_row_def decode_optional_def decode_business_connection_def
        split: list.splits sum.splits if_splits)
qed

lemma reads_candidates [simp]: "reads list_connection_candidates" "reads load_candidate_guard"
  by (auto simp: reads_def list_connection_candidates_def load_candidate_guard_def op_defs
      split: sum.splits)

lemma reads_readiness [simp]: "reads (classify_readiness_in now)"
  unfolding classify_readiness_in_def
  by (intro reads_and_then reads_if reads_basic repository_reads reads_load_owner reads_candidates)

lemma readiness_Inr:
  assumes "classify_readiness_in now d = Inr (h, t)"
  obtains i trusted g cs where "t = d" and "tr_state (reconciliation d) = GlobalReady"
    and "owner d = OwnerReady i" and "load_single_trusted_connection d = Inr (trusted, d)"
    and "list_connection_candidates d = Inr (cs, d)" and "load_candidate_guard d = Inr (g, d)"
    and "health_of i trusted g (filter (\<lambda>c. now - CANDIDATE_RETENTION \<le> cc_observed_at c) cs) = Inr h"
proof -
  from assms have ready: "tr_state (reconciliation d) = GlobalReady"
    and rest: "and_then load_owner_identity (\<lambda>i.
     and_then load_single_trusted_connection (\<lambda>trusted.
     and_then list_connection_candidates (\<lambda>cs.
     and_then load_candidate_guard (\<lambda>g.
       lift_result (health_of i trusted g
         (filter (\<lambda>c. now - CANDIDATE_RETENTION \<le> cc_observed_at c) cs)))))) d = Inr (h, t)"
    unfolding classify_readiness_in_def load_telegram_reconciliation_state_def
    by (auto simp: and_then_def gets_def fail_def split: if_splits)
  from rest obtain i d1 trusted d2 cs d3 g d4 where
    s: "load_owner_identity d = Inr (i, d1)" "load_single_trusted_connection d1 = Inr (trusted, d2)"
      "list_connection_candidates d2 = Inr (cs, d3)" "load_candidate_guard d3 = Inr (g, d4)"
      "health_of i trusted g (filter (\<lambda>c. now - CANDIDATE_RETENTION \<le> cc_observed_at c) cs) = Inr h"
    and t: "t = d4"
    by (elim and_then_E) (auto simp: lift_result_Inr_iff)
  have d: "d1 = d" "d2 = d1" "d3 = d2" "d4 = d3"
    using readsD [OF reads_load_owner(2) s(1)] readsD [OF repository_reads(12) s(2)]
      readsD [OF reads_candidates(1) s(3)] readsD [OF reads_candidates(2) s(4)] by simp_all
  have "owner d = OwnerReady i"
    using s(1) by (auto simp: load_owner_identity_def load_owner_lifecycle_state_def op_success
        split: owner_row.splits)
  with that ready s t d show thesis by simp
qed

end
