(* ===== verification/Connection_Lookup.thy ===== *)
theory Connection_Lookup
  imports Connection_Reconciliation
begin

section \<open>Authoritative lookups\<close>

text \<open>
  Models \<open>src/telegram/connection_state.rs\<close> and the error type of \<open>src/telegram/client.rs\<close>:
  a query of Telegram's current state with at most three attempts, and the classification of
  its failures. The remote side is a parameter: the answer to each attempt.
\<close>

datatype telegram_error =
    TgTimeout
  | TgTransport
  | TgApi nat ustring "nat option"
      \<comment> \<open>error code, description, retry after (seconds)\<close>
  | TgProtocol ustring
  | TgInvalidRequest ustring

record authenticated_bot =
  ab_id :: i64

record authoritative_business_connection =
  au_connection_id :: string
  au_business_user_id :: i64
  au_user_chat_id :: "i64 option"
  au_connection_established_at :: i64
  au_rights :: rights
  au_enabled :: bool

datatype authoritative_lookup_error =
    ConnectionNotFound "nat option"
  | BotAuthentication "nat option"
  | TransientExhausted "nat option"
  | InvalidResponse "nat option"
  | ClientRejected "nat option"

datatype failure_class =
    RetryFailure "nat option" "nat option"
  | TerminalFailure authoritative_lookup_error

text \<open>Delays are in seconds.\<close>

definition RETRY_DELAYS :: "nat list" where
  "RETRY_DELAYS = [1, 2]"

definition MAX_RETRY_AFTER :: nat where
  "MAX_RETRY_AFTER = 5"

definition RECOGNIZED_CONNECTION_NOT_FOUND :: ustring where
  "RECOGNIZED_CONNECTION_NOT_FOUND = lit ''Bad Request: business connection not found''"

definition SAFE_CONNECTION_NOT_FOUND :: ustring where
  "SAFE_CONNECTION_NOT_FOUND = lit ''recognized business connection not found''"

fun classify :: "telegram_error \<Rightarrow> bool \<Rightarrow> failure_class" where
  "classify TgTimeout allow_not_found = RetryFailure None None"
| "classify TgTransport allow_not_found = RetryFailure None None"
| "classify (TgApi error_code description retry_after) allow_not_found =
     (if error_code = 429 \<or> 500 \<le> error_code \<and> error_code \<le> 599
      then RetryFailure (Some error_code) (map_option (\<lambda>s. min s MAX_RETRY_AFTER) retry_after)
      else if error_code = 401 \<or> error_code = 403
      then TerminalFailure (BotAuthentication (Some error_code))
      else if allow_not_found \<and> error_code = 400 \<and> description = RECOGNIZED_CONNECTION_NOT_FOUND
      then TerminalFailure (ConnectionNotFound (Some error_code))
      else TerminalFailure (ClientRejected (Some error_code)))"
| "classify (TgProtocol description) allow_not_found =
     (if allow_not_found \<and> description = SAFE_CONNECTION_NOT_FOUND
      then TerminalFailure (ConnectionNotFound (Some 400))
      else TerminalFailure (InvalidResponse None))"
| "classify (TgInvalidRequest _) allow_not_found = TerminalFailure (ClientRejected None)"

text \<open>
  The attempt loop: \<open>api n\<close> answers attempt \<open>n\<close>, the list holds the default delays of the
  attempts that may still be repeated, and the result carries the delays waited. The last
  attempt has no delay left.
\<close>

fun lookup_attempts ::
  "bool \<Rightarrow> (nat \<Rightarrow> telegram_error + 'a) \<Rightarrow> nat list \<Rightarrow> nat
   \<Rightarrow> (authoritative_lookup_error + 'a) \<times> nat list" where
  "lookup_attempts allow_not_found api delays n =
     (case api n of
        Inr x \<Rightarrow> (Inr x, [])
      | Inl error \<Rightarrow>
          (case classify error allow_not_found of
             TerminalFailure e \<Rightarrow> (Inl e, [])
           | RetryFailure status retry_after \<Rightarrow>
               (case delays of
                  [] \<Rightarrow> (Inl (TransientExhausted status), [])
                | d # ds \<Rightarrow>
                    let (r, waited) = lookup_attempts allow_not_found api ds (n + 1)
                    in (r, (case retry_after of None \<Rightarrow> d | Some s \<Rightarrow> s) # waited))))"

declare lookup_attempts.simps [simp del]

definition lookup_authenticated_bot ::
  "(nat \<Rightarrow> telegram_error + authenticated_bot)
   \<Rightarrow> (authoritative_lookup_error + authenticated_bot) \<times> nat list" where
  "lookup_authenticated_bot api = lookup_attempts False api RETRY_DELAYS 0"

definition lookup_business_connection ::
  "(nat \<Rightarrow> telegram_error + authoritative_business_connection)
   \<Rightarrow> (authoritative_lookup_error + authoritative_business_connection) \<times> nat list" where
  "lookup_business_connection api = lookup_attempts True api RETRY_DELAYS 0"

subsection \<open>Bounds and meaning of a lookup\<close>

definition retryable :: "telegram_error \<Rightarrow> bool" where
  "retryable e \<longleftrightarrow> (\<exists>s r. classify e True = RetryFailure s r)"

lemma classify_retry_after:
  "classify e b = RetryFailure s r \<Longrightarrow> (case r of None \<Rightarrow> True | Some t \<Rightarrow> t \<le> MAX_RETRY_AFTER)"
  by (cases e) (auto split: if_splits option.splits)

lemma classify_retry_any: "(\<exists>s r. classify e b = RetryFailure s r) \<longleftrightarrow> retryable e"
  unfolding retryable_def by (cases e) auto

lemma lookup_attempts_waits:
  assumes "lookup_attempts b api delays n = (r, waited)"
  shows "length waited \<le> length delays
    \<and> (\<forall>i < length waited. waited ! i \<le> max (delays ! i) MAX_RETRY_AFTER)
    \<and> (\<forall>i < length waited. \<exists>e. api (n + i) = Inl e \<and> retryable e)"
  using assms
proof (induction delays arbitrary: n r waited)
  case Nil
  then show ?case
    by (subst (asm) lookup_attempts.simps) (auto split: sum.splits failure_class.splits)
next
  case (Cons d ds)
  show ?case
  proof (cases "\<exists>e s ra. api n = Inl e \<and> classify e b = RetryFailure s ra")
    case True
    then obtain e s ra where e: "api n = Inl e" "classify e b = RetryFailure s ra" by blast
    obtain r' w where rec: "lookup_attempts b api ds (n + 1) = (r', w)" by fastforce
    have w: "waited = (case ra of None \<Rightarrow> d | Some t \<Rightarrow> t) # w"
      using Cons.prems e rec by (subst (asm) lookup_attempts.simps) simp
    have first: "(case ra of None \<Rightarrow> d | Some t \<Rightarrow> t) \<le> max d MAX_RETRY_AFTER"
      using classify_retry_after [OF e(2)] by (auto split: option.splits)
    have re: "retryable e" using e(2) classify_retry_any by blast
    have nth: "\<forall>i < length waited. waited ! i \<le> max ((d # ds) ! i) MAX_RETRY_AFTER
        \<and> (\<exists>e. api (n + i) = Inl e \<and> retryable e)"
    proof (intro allI impI)
      fix i assume i: "i < length waited"
      show "waited ! i \<le> max ((d # ds) ! i) MAX_RETRY_AFTER
          \<and> (\<exists>e. api (n + i) = Inl e \<and> retryable e)"
        using Cons.IH [OF rec] i first e(1) re w by (cases i) auto
    qed
    then show ?thesis using Cons.IH [OF rec] w by auto
  next
    case False
    then have "waited = []"
      using Cons.prems by (subst (asm) lookup_attempts.simps)
        (auto split: sum.splits failure_class.splits)
    then show ?thesis by simp
  qed
qed

lemma lookup_attempts_result:
  assumes "lookup_attempts b api delays n = (r, waited)"
  shows "case r of
      Inr x \<Rightarrow> api (n + length waited) = Inr x
    | Inl e \<Rightarrow> \<exists>err. api (n + length waited) = Inl err
        \<and> (if length waited = length delays
           then classify err b = TerminalFailure e
             \<or> (\<exists>s ra. classify err b = RetryFailure s ra \<and> e = TransientExhausted s)
           else classify err b = TerminalFailure e)"
  using assms
proof (induction delays arbitrary: n r waited)
  case Nil
  then show ?case
    by (subst (asm) lookup_attempts.simps) (auto split: sum.splits failure_class.splits)
next
  case (Cons d ds)
  show ?case
  proof (cases "\<exists>e s ra. api n = Inl e \<and> classify e b = RetryFailure s ra")
    case True
    then obtain e s ra where e: "api n = Inl e" "classify e b = RetryFailure s ra" by blast
    obtain r' w where rec: "lookup_attempts b api ds (n + 1) = (r', w)" by fastforce
    have "r' = r \<and> length waited = Suc (length w)"
      using Cons.prems e rec by (subst (asm) lookup_attempts.simps) auto
    with Cons.IH [OF rec] show ?thesis by (auto split: sum.splits if_splits)
  next
    case False
    with Cons.prems show ?thesis
      by (subst (asm) lookup_attempts.simps) (auto split: sum.splits failure_class.splits)
  qed
qed

lemma classify_gone:
  "classify e b = TerminalFailure (ConnectionNotFound s) \<longleftrightarrow>
   b \<and> s = Some 400 \<and> ((\<exists>ra. e = TgApi 400 RECOGNIZED_CONNECTION_NOT_FOUND ra)
     \<or> e = TgProtocol SAFE_CONNECTION_NOT_FOUND)"
  by (cases e) auto

lemma classify_auth:
  "classify e b = TerminalFailure (BotAuthentication s) \<Longrightarrow>
   \<exists>code d ra. e = TgApi code d ra \<and> (code = 401 \<or> code = 403)"
  by (cases e) (auto split: if_splits)

subsection \<open>Properties\<close>

text \<open>
  C30: an authoritative lookup ends after at most three attempts and at most two waits of at most
  five seconds; all attempts but the last failed in a retryable way; a connection it returns is
  the last answer; and it declares a connection gone only on one of the two recognised answers
  of Telegram, and the bot's authentication rejected only on status 401 or 403.
\<close>

theorem lookup_bounded_and_faithful:
  assumes "lookup_business_connection api = (r, waited)"
  shows "length waited \<le> 2 \<and> (\<forall>w \<in> set waited. w \<le> 5)
    \<and> (\<forall>i < length waited. \<exists>e. api i = Inl e \<and> retryable e)
    \<and> (case r of
         Inr c \<Rightarrow> api (length waited) = Inr c
       | Inl (ConnectionNotFound _) \<Rightarrow>
           (\<exists>ra. api (length waited) = Inl (TgApi 400 RECOGNIZED_CONNECTION_NOT_FOUND ra))
           \<or> api (length waited) = Inl (TgProtocol SAFE_CONNECTION_NOT_FOUND)
       | Inl (BotAuthentication _) \<Rightarrow>
           (\<exists>code d ra. api (length waited) = Inl (TgApi code d ra) \<and> (code = 401 \<or> code = 403))
       | Inl (TransientExhausted _) \<Rightarrow>
           length waited = 2 \<and> (\<exists>e. api (length waited) = Inl e \<and> retryable e)
       | Inl _ \<Rightarrow> \<exists>e. api (length waited) = Inl e \<and> \<not> retryable e)"
proof -
  have run: "lookup_attempts True api RETRY_DELAYS 0 = (r, waited)"
    using assms by (simp add: lookup_business_connection_def)
  note w = lookup_attempts_waits [OF run] and res = lookup_attempts_result [OF run]
  have len: "length waited \<le> 2" using w by (simp add: RETRY_DELAYS_def)
  have "waited ! i \<le> 5" if "i < length waited" for i
  proof -
    from that len have "RETRY_DELAYS ! i \<le> 5" by (auto simp: RETRY_DELAYS_def nth_Cons split: nat.split)
    then show ?thesis using w that by (fastforce simp: MAX_RETRY_AFTER_def)
  qed
  then have "\<forall>w \<in> set waited. w \<le> 5" by (auto simp: in_set_conv_nth)
  moreover have "classify err True = TerminalFailure e \<Longrightarrow> \<not> retryable err" for err e
    by (auto simp: retryable_def)
  moreover have "classify err True = RetryFailure s ra \<Longrightarrow> retryable err" for err s ra
    by (auto simp: retryable_def)
  moreover have "classify err True \<noteq> TerminalFailure (TransientExhausted s)" for err s
    by (cases err) auto
  ultimately show ?thesis
    using w res len classify_gone [of _ True] classify_auth [of _ True]
    by (auto simp: RETRY_DELAYS_def split: sum.splits authoritative_lookup_error.splits if_splits)
qed

theorem lookup_bounded_and_faithful_witness:
  "\<exists>waited. lookup_business_connection
       (\<lambda>n. if n = 0 then Inl (TgApi 429 [] (Some 60)) else Inl (TgApi 400 RECOGNIZED_CONNECTION_NOT_FOUND None))
     = (Inl (ConnectionNotFound (Some 400)), waited) \<and> length waited \<le> 2 \<and> (\<forall>w \<in> set waited. w \<le> 5)"
proof -
  let ?api = "\<lambda>n. if n = 0 then Inl (TgApi 429 [] (Some 60))
    else Inl (TgApi 400 RECOGNIZED_CONNECTION_NOT_FOUND None)
    :: telegram_error + authoritative_business_connection"
  have run: "lookup_business_connection ?api = (Inl (ConnectionNotFound (Some 400)), [5])"
    by (simp add: lookup_business_connection_def RETRY_DELAYS_def lookup_attempts.simps
        MAX_RETRY_AFTER_def)
  from lookup_bounded_and_faithful [OF run] run show ?thesis by blast
qed

end
