(* ===== verification/Outbox_Dispatcher.thy ===== *)
theory Outbox_Dispatcher
  imports Readiness Connection_Lookup Event_Log
begin

section \<open>The outbox dispatcher\<close>

text \<open>
  Models \<open>src/telegram/outbox.rs\<close> and \<open>claim_due_outbox_action\<close> of
  \<open>src/storage/repositories.rs\<close>: the oldest due action is claimed in one transaction, executed
  against Telegram outside of any transaction, and finished in another one. The Telegram side
  is a parameter: the answer to a call, where a sent message answers with its identifier.
\<close>

subsection \<open>Claiming\<close>

definition due :: "timestamp \<Rightarrow> outbox_row \<Rightarrow> bool" where
  "due now r \<longleftrightarrow> unfinished r
     \<and> (case ob_next_attempt_at r of None \<Rightarrow> True | Some t \<Rightarrow> t \<le> now)"

definition private_kind :: "outbox_row \<Rightarrow> bool" where
  "private_kind r \<longleftrightarrow> ob_connection_id r = None
     \<and> (ob_kind r = SendPrivateMessage \<or> ob_kind r = SendOwnerMessage)"

definition is_ready :: "timestamp \<Rightarrow> 'ev db \<Rightarrow> bool" where
  "is_ready now d = (case classify_readiness_in now d of Inl _ \<Rightarrow> False | Inr _ \<Rightarrow> True)"

text \<open>\<open>ORDER BY id LIMIT 1\<close>.\<close>

definition next_due :: "timestamp \<Rightarrow> 'ev db \<Rightarrow> outbox_row option" where
  "next_due now d =
     (let ready = is_ready now d
      in case sort_key ob_id (filter (\<lambda>r. due now r \<and> (ready \<or> private_kind r)) (outbox d)) of
           [] \<Rightarrow> None
         | r # _ \<Rightarrow> Some r)"

definition claim_due_outbox_action :: "timestamp \<Rightarrow> ('ev, outbox_action_record option) sop" where
  "claim_due_outbox_action now d =
     (case next_due now d of
        None \<Rightarrow> Inr (None, d)
      | Some r \<Rightarrow>
          let interrupted = (ob_claimed_at r \<noteq> None);
              increment = (if interrupted then 0 else 1)
          in (case update_one
                     (\<lambda>a. ob_id a = ob_id r \<and> ob_status a = ob_status r \<and> ob_attempts a = ob_attempts r)
                     (\<lambda>a. a\<lparr>ob_attempts := ob_attempts a + increment, ob_claimed_at := Some now,
                           ob_updated_at := now\<rparr>) (outbox d) of
                Inl e \<Rightarrow> Inl e
              | Inr rows \<Rightarrow>
                  (case decode_outbox r of
                     Inl e \<Rightarrow> Inl e
                   | Inr action \<Rightarrow>
                       Inr (Some (action\<lparr>oa_attempts := oa_attempts action + increment,
                                    oa_interrupted := interrupted, oa_updated_at := now\<rparr>),
                            d\<lparr>outbox := rows\<rparr>))))"

subsection \<open>Payloads\<close>

text \<open>
  Decoding of a payload structure as \<open>serde\<close> derives it: from an object, where a repeated field
  is an error and other fields are ignored unless they are denied, or from an array with one
  element per field.
\<close>

datatype payload_field = FieldAbsent | FieldValue json | FieldRepeated

definition payload_field_of :: "(string \<times> json) list \<Rightarrow> string \<Rightarrow> payload_field" where
  "payload_field_of fs k =
     (case map snd (filter (\<lambda>(k', _). k' = k) fs) of
        [] \<Rightarrow> FieldAbsent
      | [v] \<Rightarrow> FieldValue v
      | _ \<Rightarrow> FieldRepeated)"

definition payload_fields :: "bool \<Rightarrow> string list \<Rightarrow> json \<Rightarrow> payload_field list option" where
  "payload_fields deny_unknown names v =
     (case v of
        JObj fs \<Rightarrow>
          if deny_unknown \<and> (\<exists>(k, _) \<in> set fs. k \<notin> set names) then None
          else Some (map (payload_field_of fs) names)
      | JArr vs \<Rightarrow> if length vs = length names then Some (map FieldValue vs) else None
      | _ \<Rightarrow> None)"

definition is_i64 :: "int \<Rightarrow> bool" where
  "is_i64 n \<longleftrightarrow> - (2 ^ 63) \<le> n \<and> n < 2 ^ 63"

definition number_of_json :: "json \<Rightarrow> i64 option" where
  "number_of_json v = (case v of JNum n \<Rightarrow> if is_i64 n then Some n else None | _ \<Rightarrow> None)"

definition text_of_json :: "json \<Rightarrow> ustring option" where
  "text_of_json v = (case v of JStr s \<Rightarrow> Some s | _ \<Rightarrow> None)"

fun all_some :: "'a option list \<Rightarrow> 'a list option" where
  "all_some [] = Some []"
| "all_some (None # xs) = None"
| "all_some (Some x # xs) = map_option ((#) x) (all_some xs)"

definition numbers_of_json :: "json \<Rightarrow> i64 list option" where
  "numbers_of_json v = (case v of JArr vs \<Rightarrow> all_some (map number_of_json vs) | _ \<Rightarrow> None)"

definition required_field :: "(json \<Rightarrow> 'a option) \<Rightarrow> payload_field \<Rightarrow> 'a option" where
  "required_field f p = (case p of FieldValue v \<Rightarrow> f v | _ \<Rightarrow> None)"

definition optional_field :: "(json \<Rightarrow> 'a option) \<Rightarrow> payload_field \<Rightarrow> 'a option option" where
  "optional_field f p =
     (case p of
        FieldAbsent \<Rightarrow> Some None
      | FieldValue JNull \<Rightarrow> Some None
      | FieldValue v \<Rightarrow> map_option Some (f v)
      | FieldRepeated \<Rightarrow> None)"

record edit_payload =
  ed_challenge_id :: i64
  ed_status :: ustring
  ed_attempts_remaining :: "i64 option"

record owner_alert_payload =
  al_alert :: "ustring option"
  al_message :: "ustring option"
  al_challenge_id :: "i64 option"
  al_owner_chat_id :: "i64 option"
  al_owner_user_id :: "i64 option"

datatype private_message_kind = OwnerSetupGuide | OwnerClaimRejected

record private_message_payload =
  pm_chat_id :: i64
  pm_message_kind :: private_message_kind

definition challenge_payload :: "json \<Rightarrow> i64 option" where
  "challenge_payload v =
     (case payload_fields False [''challenge_id''] v of
        Some [i] \<Rightarrow> required_field number_of_json i
      | _ \<Rightarrow> None)"

definition edit_payload_of :: "json \<Rightarrow> edit_payload option" where
  "edit_payload_of v =
     (case payload_fields False [''challenge_id'', ''status'', ''attempts_remaining''] v of
        Some [i, s, a] \<Rightarrow>
          (case (required_field number_of_json i, required_field text_of_json s,
                 optional_field number_of_json a) of
             (Some i, Some s, Some a) \<Rightarrow>
               Some \<lparr>ed_challenge_id = i, ed_status = s, ed_attempts_remaining = a\<rparr>
           | _ \<Rightarrow> None)
      | _ \<Rightarrow> None)"

definition read_payload :: "json \<Rightarrow> i64 option" where
  "read_payload v =
     (case payload_fields False [''message_id''] v of
        Some [i] \<Rightarrow> required_field number_of_json i
      | _ \<Rightarrow> None)"

definition delete_payload :: "json \<Rightarrow> i64 list option" where
  "delete_payload v =
     (case payload_fields False [''message_ids''] v of
        Some [i] \<Rightarrow> required_field numbers_of_json i
      | _ \<Rightarrow> None)"

definition owner_alert_payload_of :: "json \<Rightarrow> owner_alert_payload option" where
  "owner_alert_payload_of v =
     (case payload_fields False
             [''alert'', ''message'', ''challenge_id'', ''owner_chat_id'', ''owner_user_id''] v of
        Some [a, m, i, c, u] \<Rightarrow>
          (case (optional_field text_of_json a, optional_field text_of_json m,
                 optional_field number_of_json i, optional_field number_of_json c,
                 optional_field number_of_json u) of
             (Some a, Some m, Some i, Some c, Some u) \<Rightarrow>
               Some \<lparr>al_alert = a, al_message = m, al_challenge_id = i, al_owner_chat_id = c,
                     al_owner_user_id = u\<rparr>
           | _ \<Rightarrow> None)
      | _ \<Rightarrow> None)"

text \<open>A unit variant is read from its name, or from an object that maps its name to null.\<close>

definition private_message_kind_of :: "json \<Rightarrow> private_message_kind option" where
  "private_message_kind_of v =
     (let named = (\<lambda>s. if s = lit ''OWNER_SETUP_GUIDE'' then Some OwnerSetupGuide
                       else if s = lit ''OWNER_CLAIM_REJECTED'' then Some OwnerClaimRejected
                       else None)
      in case v of
           JStr s \<Rightarrow> named s
         | JObj [(k, JNull)] \<Rightarrow> named (lit k)
         | _ \<Rightarrow> None)"

definition private_message_payload_of :: "json \<Rightarrow> private_message_payload option" where
  "private_message_payload_of v =
     (case payload_fields True [''chat_id'', ''message_kind''] v of
        Some [c, k] \<Rightarrow>
          (case (required_field number_of_json c, required_field private_message_kind_of k) of
             (Some c, Some k) \<Rightarrow> Some \<lparr>pm_chat_id = c, pm_message_kind = k\<rparr>
           | _ \<Rightarrow> None)
      | _ \<Rightarrow> None)"

subsection \<open>Texts\<close>

definition challenge_prompt :: "challenge_record \<Rightarrow> ustring" where
  "challenge_prompt c =
     [0x8BF7, 0x5728] @ lit '' 2 '' @ [0x5206, 0x949F, 0x5185, 0x5B8C, 0x6210,
          0x9A8C, 0x8BC1, 0xFF1A, 0xA]
     @ ch_expression c @ lit '' = ?'' @ [0xA, 0x6700, 0x591A, 0x53EF, 0x5C1D, 0x8BD5] @ lit '' 3 '' @
          [0x6B21, 0x3002]"

definition challenge_status_text :: "challenge_record \<Rightarrow> edit_payload \<Rightarrow> ustring" where
  "challenge_status_text c p =
     (if ed_status p = lit ''success''
      then [0x9A8C, 0x8BC1, 0x901A, 0x8FC7, 0xFF0C, 0x6D88, 0x606F, 0x5DF2, 0x653E, 0x884C,
          0x3002]
      else if ed_status p = lit ''incorrect''
      then [0x7B54, 0x6848, 0x4E0D, 0x6B63, 0x786E, 0xFF0C, 0x8FD8, 0x53EF, 0x5C1D, 0x8BD5]
          @ lit '' ''
        @ show_int (case ed_attempts_remaining p of None \<Rightarrow> 0 | Some n \<Rightarrow> n)
        @ lit '' '' @ [0x6B21, 0x3002, 0xA, 0xA, 0x8BF7, 0x91CD, 0x65B0, 0x56DE, 0x7B54,
          0xFF1A, 0xA]
        @ ch_expression c @ lit '' = ?''
      else if ed_status p = lit ''exhausted_dry_run''
      then [0x9A8C, 0x8BC1, 0x5931, 0x8D25, 0x3002, 0xA] @ lit ''Dry-run'' @ [0xFF1A,
          0x6B63, 0x5F0F, 0x6A21, 0x5F0F, 0x4E0B, 0x5C06, 0x8F6F, 0x5C4F, 0x853D] @
          lit '' 24 '' @ [0x5C0F, 0x65F6, 0xFF0C, 0x672C, 0x6B21, 0x672A, 0x6267, 0x884C,
          0x5C4F, 0x853D, 0x3002]
      else if ed_status p = lit ''exhausted''
      then [0x9A8C, 0x8BC1, 0x5931, 0x8D25, 0xFF0C, 0x8BF7] @ lit '' 24 '' @ [0x5C0F,
          0x65F6, 0x540E, 0x518D, 0x8BD5, 0x3002]
      else if ed_status p = lit ''expired''
      then [0x9A8C, 0x8BC1, 0x5DF2, 0x8FC7, 0x671F, 0xFF0C, 0x8BF7, 0x91CD, 0x65B0, 0x53D1,
          0x9001, 0x6D88, 0x606F, 0x5F00, 0x59CB, 0x9A8C, 0x8BC1, 0x3002]
      else [0x9A8C, 0x8BC1, 0x72B6, 0x6001, 0x5DF2, 0x66F4, 0x65B0, 0x3002])"

definition owner_alert_text :: "owner_alert_payload \<Rightarrow> ustring" where
  "owner_alert_text p =
     (case al_message p of
        Some m \<Rightarrow> m
      | None \<Rightarrow>
          let alert = (case al_alert p of None \<Rightarrow> [] | Some a \<Rightarrow> a)
          in if alert = lit ''challenge_send_uncertain''
             then lit ''ChatHygiene '' @ [0x65E0, 0x6CD5, 0x786E, 0x8BA4, 0x9A8C, 0x8BC1, 0x63D0,
          0x793A, 0x662F, 0x5426, 0x5DF2, 0x53D1, 0x9001, 0xFF08] @ lit ''challenge ''
               @ (case al_challenge_id p of None \<Rightarrow> lit ''unknown'' | Some i \<Rightarrow> show_int i)
               @ [0xFF09, 0x3002]
             else if alert = lit ''business_rights_unavailable''
             then lit ''ChatHygiene '' @ [0x5DF2, 0x6682, 0x505C, 0x7834, 0x574F, 0x6027, 0x52A8,
          0x4F5C, 0xFF1A] @ lit ''Business '' @ [0x8FDE, 0x63A5, 0x6216, 0x6743, 0x9650,
          0x4E0D, 0x53EF, 0x7528, 0x3002]
             else if alert = lit ''detector_failed''
             then lit ''ChatHygiene '' @ [0x68C0, 0x6D4B, 0x5668, 0x5931, 0x8D25, 0xFF0C, 0x672C,
          0x6B21, 0x6D88, 0x606F, 0x5DF2, 0x4FDD, 0x7559, 0x3002]
             else lit ''ChatHygiene '' @ [0x9700, 0x8981, 0x4EBA, 0x5DE5, 0x68C0, 0x67E5, 0x8FD0,
          0x884C, 0x72B6, 0x6001, 0x3002])"

fun private_message_text :: "private_message_kind \<Rightarrow> ustring" where
  "private_message_text OwnerSetupGuide =
     lit ''Owner setup is incomplete. Copy the /claim command from the claim-code file beside the ChatHygiene database. If the file is missing, restart ChatHygiene.''"
| "private_message_text OwnerClaimRejected = lit ''claim failed''"

subsection \<open>Execution\<close>

datatype api_call =
    SendMessageCall "string option" i64 ustring
  | EditMessageCall string i64 i64 ustring
  | ReadMessageCall string i64 i64
  | DeleteMessagesCall string "i64 list"

datatype action_success = PlainSuccess | ChallengeSent i64 i64
    \<comment> \<open>challenge, message sent\<close>

datatype action_failure =
    TelegramFailure telegram_error
  | StorageFailed storage_error
  | RightsUnavailable
  | UncertainDependency i64
  | InvalidAction string

datatype required_right = RightReply | RightRead | RightDeleteAll

definition required_key :: "outbox_action_record \<Rightarrow> action_failure + conversation_key" where
  "required_key action = ok_or (InvalidAction ''business_identity_missing'') (oa_key action)"

definition parse_payload :: "(json \<Rightarrow> 'a option) \<Rightarrow> outbox_action_record \<Rightarrow> action_failure + 'a" where
  "parse_payload f action = ok_or (InvalidAction ''invalid_action_payload'') (Option.bind (oa_payload action) f)"

text \<open>A read in a transaction of its own that is rolled back.\<close>

definition read_tx :: "('ev, 'a) sop \<Rightarrow> 'ev db \<Rightarrow> action_failure + 'a" where
  "read_tx m d = (case m d of Inl e \<Rightarrow> Inl (StorageFailed e) | Inr (x, _) \<Rightarrow> Inr x)"

definition result_then :: "'e + 'a \<Rightarrow> ('a \<Rightarrow> 'e + 'b) \<Rightarrow> 'e + 'b" where
  "result_then r f = (case r of Inl e \<Rightarrow> Inl e | Inr x \<Rightarrow> f x)"

definition ensure_right :: "string \<Rightarrow> required_right \<Rightarrow> 'ev db \<Rightarrow> action_failure + unit" where
  "ensure_right cid required d =
     result_then (read_tx (find_business_connection cid) d) (\<lambda>found.
       case found of
         None \<Rightarrow> Inl RightsUnavailable
       | Some b \<Rightarrow>
           if \<not> bc_enabled b then Inl RightsUnavailable
           else
             (case decode_rights False False (bc_rights_json b) of
                None \<Rightarrow> Inl (InvalidAction ''invalid_action_payload'')
              | Some r \<Rightarrow>
                  if (case required of RightReply \<Rightarrow> can_reply r | RightRead \<Rightarrow> can_read_messages r
                      | RightDeleteAll \<Rightarrow> can_delete_all_messages r)
                  then Inr () else Inl RightsUnavailable))"

definition load_challenge :: "i64 \<Rightarrow> 'ev db \<Rightarrow> action_failure + challenge_record" where
  "load_challenge i d =
     result_then (read_tx (find_challenge_by_id i) d)
       (ok_or (InvalidAction ''challenge_not_found''))"

definition load_owner_chat :: "string \<Rightarrow> 'ev db \<Rightarrow> action_failure + i64" where
  "load_owner_chat cid d =
     (case load_owner_identity d of
        Inl (InvalidOwnerIdentity m) \<Rightarrow>
          if m = ''owner identity is pending initialization''
          then result_then (read_tx (find_business_connection cid) d) (\<lambda>found.
                 case found of
                   None \<Rightarrow> Inl RightsUnavailable
                 | Some b \<Rightarrow> Inr (bc_owner_user_id b))
          else Inl (StorageFailed (InvalidOwnerIdentity m))
      | Inl e \<Rightarrow> Inl (StorageFailed e)
      | Inr (Claimed _ chat _ _ _, _) \<Rightarrow> Inr chat
      | Inr (Unclaimed, _) \<Rightarrow> Inl RightsUnavailable)"

text \<open>
  The part of \<open>execute\<close> before its call, with the success its answer gives; no call for a
  proposed action.
\<close>

type_synonym request = "(api_call \<times> (i64 \<Rightarrow> action_success)) option"

definition challenge_request :: "outbox_action_record \<Rightarrow> 'ev db \<Rightarrow> action_failure + request" where
  "challenge_request action d =
     result_then (required_key action) (\<lambda>key.
     result_then (ensure_right (connection_id key) RightReply d) (\<lambda>_.
     result_then (parse_payload challenge_payload action) (\<lambda>i.
     result_then (load_challenge i d) (\<lambda>c.
       Inr (Some (SendMessageCall (Some (connection_id key)) (chat_id key) (challenge_prompt c),
                  ChallengeSent (ch_id c)))))))"

definition edit_request :: "outbox_action_record \<Rightarrow> 'ev db \<Rightarrow> action_failure + request" where
  "edit_request action d =
     result_then (required_key action) (\<lambda>key.
     result_then (ensure_right (connection_id key) RightReply d) (\<lambda>_.
     result_then (parse_payload edit_payload_of action) (\<lambda>p.
     result_then (load_challenge (ed_challenge_id p) d) (\<lambda>c.
       case ch_prompt_message_id c of
         None \<Rightarrow>
           if ch_delivery_status c = DeliveryUncertain then Inl (UncertainDependency (ch_id c))
           else Inl (InvalidAction ''challenge_prompt_missing'')
       | Some m \<Rightarrow>
           Inr (Some (EditMessageCall (connection_id key) (chat_id key) m (challenge_status_text c p),
                      \<lambda>_. PlainSuccess))))))"

definition read_request :: "outbox_action_record \<Rightarrow> 'ev db \<Rightarrow> action_failure + request" where
  "read_request action d =
     result_then (required_key action) (\<lambda>key.
     result_then (ensure_right (connection_id key) RightRead d) (\<lambda>_.
     result_then (parse_payload read_payload action) (\<lambda>m.
       Inr (Some (ReadMessageCall (connection_id key) (chat_id key) m, \<lambda>_. PlainSuccess)))))"

definition delete_request :: "outbox_action_record \<Rightarrow> 'ev db \<Rightarrow> action_failure + request" where
  "delete_request action d =
     result_then (required_key action) (\<lambda>key.
     result_then (ensure_right (connection_id key) RightDeleteAll d) (\<lambda>_.
     result_then (parse_payload delete_payload action) (\<lambda>ids.
       Inr (Some (DeleteMessagesCall (connection_id key) ids, \<lambda>_. PlainSuccess)))))"

definition owner_message_request :: "outbox_action_record \<Rightarrow> 'ev db \<Rightarrow> action_failure + request" where
  "owner_message_request action d =
     result_then (parse_payload owner_alert_payload_of action) (\<lambda>p.
     result_then
       (case al_owner_chat_id p of
          Some c \<Rightarrow> Inr c
        | None \<Rightarrow>
            (case al_owner_user_id p of
               Some u \<Rightarrow> Inr u
             | None \<Rightarrow>
                 result_then (required_key action) (\<lambda>key. load_owner_chat (connection_id key) d)))
       (\<lambda>chat. Inr (Some (SendMessageCall None chat (owner_alert_text p), \<lambda>_. PlainSuccess))))"

definition private_message_request :: "outbox_action_record \<Rightarrow> action_failure + request" where
  "private_message_request action =
     result_then (parse_payload private_message_payload_of action) (\<lambda>p.
       if pm_chat_id p \<le> 0 then Inl (InvalidAction ''invalid_private_message_payload'')
       else Inr (Some (SendMessageCall None (pm_chat_id p) (private_message_text (pm_message_kind p)),
                       \<lambda>_. PlainSuccess)))"

definition action_request :: "outbox_action_record \<Rightarrow> 'ev db \<Rightarrow> action_failure + request" where
  "action_request action d =
     (case oa_kind action of
        SendChallenge \<Rightarrow> challenge_request action d
      | EditChallenge \<Rightarrow> edit_request action d
      | ReadBusinessMessage \<Rightarrow> read_request action d
      | DeleteBusinessMessages \<Rightarrow> delete_request action d
      | SendOwnerMessage \<Rightarrow> owner_message_request action d
      | SendPrivateMessage \<Rightarrow> private_message_request action
      | ProposedDestructiveAction \<Rightarrow> Inr None)"

text \<open>The answer of Telegram to a call: an error, or an identifier that only sending uses.\<close>

type_synonym business_api = "api_call \<Rightarrow> telegram_error + i64"

definition execute ::
  "business_api \<Rightarrow> outbox_action_record \<Rightarrow> 'ev db
   \<Rightarrow> (action_failure + action_success) \<times> api_call option" where
  "execute api action d =
     (case action_request action d of
        Inl e \<Rightarrow> (Inl e, None)
      | Inr None \<Rightarrow> (Inr PlainSuccess, None)
      | Inr (Some (call, success)) \<Rightarrow>
          ((case api call of Inl e \<Rightarrow> Inl (TelegramFailure e) | Inr m \<Rightarrow> Inr (success m)),
           Some call))"

subsection \<open>Finishing\<close>

datatype dispatch_outcome =
    DispatchIdle
  | DispatchSucceeded i64
  | DispatchRetryScheduled i64 timestamp
  | DispatchUncertain i64
  | DispatchPermanentFailure i64

datatype dispatch_error = DispatchStorage storage_error | DispatchSerialization

type_synonym 'a dop = "(database, dispatch_error, 'a) op"

abbreviation std :: "(database, storage_error, 'a) op \<Rightarrow> 'a dop" where
  "std m \<equiv> map_err DispatchStorage m"

fun is_idempotent :: "outbox_action_kind \<Rightarrow> bool" where
  "is_idempotent EditChallenge = True"
| "is_idempotent ReadBusinessMessage = True"
| "is_idempotent DeleteBusinessMessages = True"
| "is_idempotent ProposedDestructiveAction = True"
| "is_idempotent SendChallenge = False"
| "is_idempotent SendOwnerMessage = False"
| "is_idempotent SendPrivateMessage = False"

text \<open>Seconds.\<close>

definition RETRY_SECONDS :: "int list" where
  "RETRY_SECONDS = [1, 2, 4, 8, 16, 30]"

text \<open>
  The delay before the next attempt; the code indexes \<open>RETRY_SECONDS\<close>, which panics outside of
  its bounds (that it does not is \<open>retry_index_in_range\<close>).
\<close>

definition retryable_failure :: "telegram_error \<Rightarrow> bool" where
  "retryable_failure error =
     (case error of
        TgTimeout \<Rightarrow> True
      | TgTransport \<Rightarrow> True
      | TgProtocol _ \<Rightarrow> True
      | TgApi code _ _ \<Rightarrow> code = 429 \<or> 500 \<le> code \<and> code \<le> 599
      | TgInvalidRequest _ \<Rightarrow> False)"

definition requested_delay :: "telegram_error \<Rightarrow> int option" where
  "requested_delay error =
     (case error of
        TgApi code _ (Some s) \<Rightarrow> if code = 429 then Some (seconds (int (min s 60))) else None
      | _ \<Rightarrow> None)"

definition retry_delay :: "telegram_error \<Rightarrow> i64 \<Rightarrow> int option" where
  "retry_delay error attempts =
     (if int (length RETRY_SECONDS) < attempts then None
      else
        (case requested_delay error of
           Some t \<Rightarrow> Some t
         | None \<Rightarrow>
             if attempts - 1 < 0 then None
             else if retryable_failure error
             then Some (seconds (RETRY_SECONDS ! nat (attempts - 1)))
             else None))"

definition already_applied :: "outbox_action_kind \<Rightarrow> telegram_error \<Rightarrow> bool" where
  "already_applied kind error =
     (case error of
        TgApi code description _ \<Rightarrow>
          code = 400
          \<and> (let text = ascii_lower description
             in (case kind of
                   EditChallenge \<Rightarrow> contains_text text (lit ''message is not modified'')
                 | DeleteBusinessMessages \<Rightarrow> contains_text text (lit ''message to delete not found'')
                 | _ \<Rightarrow> False))
      | _ \<Rightarrow> False)"

definition invalid_connection_or_right :: "telegram_error \<Rightarrow> bool" where
  "invalid_connection_or_right error =
     (case error of
        TgApi _ description _ \<Rightarrow>
          list_ex (contains_text (ascii_lower description))
            [lit ''business connection not found'', lit ''business connection is not enabled'',
             lit ''not enough rights'', lit ''has no rights'']
      | _ \<Rightarrow> False)"

fun error_code :: "telegram_error \<Rightarrow> string" where
  "error_code TgTimeout = ''timeout''"
| "error_code TgTransport = ''transport''"
| "error_code (TgApi code _ _) =
     (if code = 429 then ''api_429''
      else if 500 \<le> code \<and> code \<le> 599 then ''api_5xx'' else ''api_rejected'')"
| "error_code (TgProtocol _) = ''protocol''"
| "error_code (TgInvalidRequest _) = ''invalid_request''"

definition enqueue_owner_alert ::
  "outbox_action_record \<Rightarrow> string \<Rightarrow> i64 option \<Rightarrow> timestamp \<Rightarrow> (database, storage_error, unit) op" where
  "enqueue_owner_alert action alert challenge now =
     (case oa_key action of
        None \<Rightarrow> ret ()
      | Some key \<Rightarrow>
          and_then (enqueue_outbox_action
            \<lparr>no_source_update_id = oa_source_update_id action, no_key = Some key,
             no_kind = SendOwnerMessage,
             no_payload = Some (JObj [(''alert'', jstr alert), (''challenge_id'', jopt JNum challenge)]),
             no_idempotency_key = lit ''outbox:'' @ show_int (oa_id action) @ [58] @ lit alert,
             no_created_at = now\<rparr>) (\<lambda>_. ret ()))"

definition force_dry_run :: "('ev, unit) sop" where
  "force_dry_run = modify (set_setting ''destructive_mode'' ''false'')"

definition finish_success ::
  "outbox_action_record \<Rightarrow> action_success \<Rightarrow> timestamp \<Rightarrow> dispatch_outcome dop" where
  "finish_success action success now =
     and_then (std (mark_outbox_succeeded (oa_id action) now)) (\<lambda>_.
     and_then
       (case success of
          PlainSuccess \<Rightarrow> ret ()
        | ChallengeSent i m \<Rightarrow> std (mark_challenge_sent i m)) (\<lambda>_.
       ret (DispatchSucceeded (oa_id action))))"

definition finish_uncertain ::
  "outbox_action_record \<Rightarrow> i64 option \<Rightarrow> string \<Rightarrow> timestamp \<Rightarrow> dispatch_outcome dop" where
  "finish_uncertain action challenge code now =
     and_then (std (mark_outbox_uncertain (oa_id action) code now)) (\<lambda>_.
     and_then
       (case challenge of
          None \<Rightarrow> ret ()
        | Some i \<Rightarrow> std (mark_challenge_uncertain i)) (\<lambda>_.
     and_then (std (enqueue_owner_alert action ''challenge_send_uncertain'' challenge now)) (\<lambda>_.
       ret (DispatchUncertain (oa_id action)))))"

definition finish_action_uncertain ::
  "outbox_action_record \<Rightarrow> string \<Rightarrow> timestamp \<Rightarrow> dispatch_outcome dop" where
  "finish_action_uncertain action code now =
     and_then (std (mark_outbox_uncertain (oa_id action) code now)) (\<lambda>_.
       ret (DispatchUncertain (oa_id action)))"

definition finish_permanent ::
  "outbox_action_record \<Rightarrow> string \<Rightarrow> bool \<Rightarrow> timestamp \<Rightarrow> dispatch_outcome dop" where
  "finish_permanent action code disable_connection now =
     and_then (std (mark_outbox_permanent_failure (oa_id action) code now)) (\<lambda>_.
     and_then
       (if disable_connection
        then
          and_then
            (case oa_key action of
               None \<Rightarrow> ret ()
             | Some key \<Rightarrow> std (disable_business_connection (connection_id key) now)) (\<lambda>_.
          and_then (std force_dry_run) (\<lambda>_.
            std (enqueue_owner_alert action ''business_rights_unavailable'' None now)))
        else ret ()) (\<lambda>_.
       ret (DispatchPermanentFailure (oa_id action))))"

text \<open>The method \<open>finish_uncertain\<close>, which reads the challenge from the payload.\<close>

definition finish_uncertain_send ::
  "outbox_action_record \<Rightarrow> string \<Rightarrow> timestamp \<Rightarrow> dispatch_outcome dop" where
  "finish_uncertain_send action code now =
     (if oa_kind action = SendChallenge
      then
        (case Option.bind (oa_payload action) challenge_payload of
           None \<Rightarrow> fail DispatchSerialization
         | Some i \<Rightarrow> finish_uncertain action (Some i) code now)
      else finish_action_uncertain action code now)"

definition schedule_retry ::
  "outbox_action_record \<Rightarrow> telegram_error \<Rightarrow> timestamp \<Rightarrow> timestamp \<Rightarrow> dispatch_outcome dop" where
  "schedule_retry action error next_attempt_at now =
     and_then (std (mark_outbox_retry (oa_id action) next_attempt_at (error_code error) now)) (\<lambda>_.
       ret (DispatchRetryScheduled (oa_id action) next_attempt_at))"

definition handle_telegram_failure ::
  "outbox_action_record \<Rightarrow> telegram_error \<Rightarrow> timestamp \<Rightarrow> dispatch_outcome dop" where
  "handle_telegram_failure action error now =
     (if already_applied (oa_kind action) error then finish_success action PlainSuccess now
      else if invalid_connection_or_right error
      then finish_permanent action (error_code error) True now
      else if error = TgTimeout \<and> \<not> is_idempotent (oa_kind action)
      then finish_uncertain_send action (error_code error) now
      else
        (case retry_delay error (oa_attempts action) of
           Some delay \<Rightarrow> schedule_retry action error (now + delay) now
         | None \<Rightarrow> finish_permanent action (error_code error) False now))"

definition finish_execution ::
  "outbox_action_record \<Rightarrow> action_failure + action_success \<Rightarrow> timestamp \<Rightarrow> dispatch_outcome dop" where
  "finish_execution action result now =
     (case result of
        Inr success \<Rightarrow> finish_success action success now
      | Inl (UncertainDependency i) \<Rightarrow>
          finish_uncertain action (Some i) ''uncertain_prompt_dependency'' now
      | Inl RightsUnavailable \<Rightarrow>
          finish_permanent action ''business_rights_unavailable'' True now
      | Inl (InvalidAction code) \<Rightarrow> finish_permanent action code False now
      | Inl (StorageFailed e) \<Rightarrow> fail (DispatchStorage e)
      | Inl (TelegramFailure e) \<Rightarrow> handle_telegram_failure action e now)"

text \<open>
  \<open>dispatch_next\<close> after its claim, and as a whole: the claim is committed before the action is
  executed, so a crash in between leaves the claimed state. The second component is the call
  that was made.
\<close>

definition dispatch_claimed ::
  "business_api \<Rightarrow> timestamp \<Rightarrow> outbox_action_record \<Rightarrow> database
   \<Rightarrow> (dispatch_error + dispatch_outcome) \<times> api_call option \<times> database" where
  "dispatch_claimed api now action d =
     (if oa_interrupted action \<and> \<not> is_idempotent (oa_kind action)
      then
        let (r, t) = commit (finish_uncertain_send action ''interrupted_send'' now) d
        in (r, None, t)
      else
        let (result, call) = execute api action d;
            (r, t) = commit (finish_execution action result now) d
        in (r, call, t))"

definition dispatch_next ::
  "business_api \<Rightarrow> timestamp \<Rightarrow> database
   \<Rightarrow> (dispatch_error + dispatch_outcome) \<times> api_call option \<times> database" where
  "dispatch_next api now d =
     (case commit (claim_due_outbox_action now) d of
        (Inl e, t) \<Rightarrow> (Inl (DispatchStorage e), None, t)
      | (Inr None, t) \<Rightarrow> (Inr DispatchIdle, None, t)
      | (Inr (Some action), t) \<Rightarrow> dispatch_claimed api now action t)"

end
