(* ===== verification/Outbox_Safety.thy ===== *)
theory Outbox_Safety
  imports Outbox_Dispatcher Lifecycle_Correctness
begin

section \<open>Safety of the dispatcher\<close>

text \<open>
  The outbox is observed as the partial map from identifiers to rows. Each operation of the
  dispatcher is an update of that map; the properties are about single dispatches and about
  whole runs of the worker, with crashes and with the writes of the other components.
\<close>

subsection \<open>The outbox as a map\<close>

definition ob_at :: "'ev db \<Rightarrow> i64 \<Rightarrow> outbox_row option" where
  "ob_at d i = find_row (\<lambda>r. ob_id r = i) (outbox d)"

lemma ob_at_iff:
  assumes "db_ok d"
  shows "ob_at d i = Some r \<longleftrightarrow> r \<in> set (outbox d) \<and> ob_id r = i"
proof
  show "ob_at d i = Some r \<Longrightarrow> r \<in> set (outbox d) \<and> ob_id r = i"
    unfolding ob_at_def by (drule find_row_SomeD) simp
  show "ob_at d i = Some r" if "r \<in> set (outbox d) \<and> ob_id r = i"
    unfolding ob_at_def using assms that
    by (intro find_row_key [where k = ob_id]) (auto simp: ok_defs)
qed

lemma ob_at_le: "db_ok d \<Longrightarrow> ob_at d i = Some r \<Longrightarrow> i \<le> outbox_seq d"
  by (auto simp: ob_at_iff ok_defs)

lemma ob_at_frame: "outbox t = outbox d \<Longrightarrow> ob_at t = ob_at d"
  by (simp add: ob_at_def fun_eq_iff)

lemma update_one_effect:
  assumes run: "update_one p f (outbox d) = Inr rows" and ok: "db_ok d"
    and id: "\<And>r. ob_id (f r) = ob_id r" and pi: "\<And>r. p r \<Longrightarrow> ob_id r = i"
  shows "\<exists>r. ob_at d i = Some r \<and> p r \<and> ob_at (d\<lparr>outbox := rows\<rparr>) = (ob_at d)(i \<mapsto> f r)"
proof -
  have rows: "rows = update_where p f (outbox d)" and one: "count_where p (outbox d) = 1"
    using run by (auto simp: update_one_def split: if_splits)
  then obtain r where r: "r \<in> set (outbox d)" "p r"
    by (metis count_where_0_iff zero_neq_one)
  then have at: "ob_at d i = Some r" using ok pi by (simp add: ob_at_iff)
  have "ob_at (d\<lparr>outbox := rows\<rparr>) j = ((ob_at d)(i \<mapsto> f r)) j" for j
  proof -
    have "ob_at (d\<lparr>outbox := rows\<rparr>) j = map_option (\<lambda>r. if p r then f r else r) (ob_at d j)"
      unfolding ob_at_def rows using id by (simp add: find_row_update_where)
    moreover have "\<not> p q" if "ob_at d j = Some q" "j \<noteq> i" for q
      using that pi ok by (auto simp: ob_at_iff)
    ultimately show ?thesis using at r(2) by (cases "ob_at d j") auto
  qed
  with at r(2) show ?thesis by blast
qed

definition terminal_row :: "outbox_status \<Rightarrow> string option \<Rightarrow> timestamp \<Rightarrow> outbox_row \<Rightarrow> outbox_row" where
  "terminal_row s e now r =
     r\<lparr>ob_status := s, ob_next_attempt_at := None, ob_claimed_at := None, ob_last_error := e,
       ob_updated_at := now\<rparr>"

lemma set_terminal_effect:
  assumes "set_outbox_terminal i s e now d = Inr (x, t)" and "db_ok d"
  shows "\<exists>r. ob_at d i = Some r \<and> unfinished r \<and> ob_at t = (ob_at d)(i \<mapsto> terminal_row s e now r)
    \<and> outbox_seq t = outbox_seq d \<and> connections t = connections d \<and> settings t = settings d"
proof -
  obtain rows where rows: "update_one (\<lambda>a. ob_id a = i \<and> unfinished a) (terminal_row s e now) (outbox d)
      = Inr rows" and t: "t = d\<lparr>outbox := rows\<rparr>"
    using assms(1)
    by (auto simp: set_outbox_terminal_def terminal_row_def [abs_def] split: sum.splits)
  from update_one_effect [OF rows assms(2)] show ?thesis unfolding t
    by (auto simp: terminal_row_def)
qed

lemma set_retry_effect:
  assumes "mark_outbox_retry i n e now d = Inr (x, t)" and "db_ok d"
  shows "\<exists>r. ob_at d i = Some r \<and> unfinished r
    \<and> ob_at t = (ob_at d)(i \<mapsto> r\<lparr>ob_status := OutRetry, ob_next_attempt_at := Some n,
         ob_claimed_at := None, ob_last_error := Some e, ob_updated_at := now\<rparr>)
    \<and> outbox_seq t = outbox_seq d"
proof -
  obtain rows where rows: "update_one (\<lambda>a. ob_id a = i \<and> unfinished a)
      (\<lambda>r. r\<lparr>ob_status := OutRetry, ob_next_attempt_at := Some n, ob_claimed_at := None,
         ob_last_error := Some e, ob_updated_at := now\<rparr>) (outbox d) = Inr rows"
    and t: "t = d\<lparr>outbox := rows\<rparr>"
    using assms(1) by (auto simp: mark_outbox_retry_def split: sum.splits)
  from update_one_effect [OF rows assms(2)] show ?thesis unfolding t by auto
qed

text \<open>At most one new row, with the next identifier, queued for the owner.\<close>

definition appends :: "'ev db \<Rightarrow> 'ev db \<Rightarrow> bool" where
  "appends d t \<longleftrightarrow>
     outbox_seq t = outbox_seq d \<and> ob_at t = ob_at d
     \<or> outbox_seq t = outbox_seq d + 1
       \<and> (\<exists>r. ob_at t = (ob_at d)(outbox_seq d + 1 \<mapsto> r) \<and> ob_kind r = SendOwnerMessage
            \<and> ob_status r = OutPending \<and> ob_attempts r = 0 \<and> ob_claimed_at r = None)"

lemma enqueue_appends:
  assumes "enqueue_outbox_action a d = Inr (x, t)" and "db_ok d" and "no_kind a = SendOwnerMessage"
  shows "appends d t"
proof -
  consider "t = d" | "t = d\<lparr>outbox := outbox d @ [outbox_row_of a (outbox_seq d + 1)],
      outbox_seq := outbox_seq d + 1\<rparr>"
    using assms(1) by (auto simp: enqueue_outbox_action_def Let_def split: if_splits)
  then show ?thesis
  proof cases
    case 2
    have "ob_at d (outbox_seq d + 1) = None"
      using ob_at_le [OF assms(2)] by (cases "ob_at d (outbox_seq d + 1)") fastforce+
    then have "ob_at t j = ((ob_at d)(outbox_seq d + 1 \<mapsto> outbox_row_of a (outbox_seq d + 1))) j" for j
      by (auto simp: 2 ob_at_def find_row_snoc outbox_row_of_def split: option.split)
    with 2 assms(3) show ?thesis by (auto simp: appends_def outbox_row_of_def fun_eq_iff)
  qed (simp add: appends_def)
qed

lemma alert_appends:
  assumes "enqueue_owner_alert action alert challenge now d = Inr (x, t)" and "db_ok d"
  shows "appends d t"
proof (cases "oa_key action")
  case None
  with assms(1) show ?thesis by (simp add: enqueue_owner_alert_def ret_def appends_def)
next
  case (Some key)
  with assms(1) obtain y where "enqueue_outbox_action
      \<lparr>no_source_update_id = oa_source_update_id action, no_key = Some key,
       no_kind = SendOwnerMessage,
       no_payload = Some (JObj [(''alert'', jstr alert), (''challenge_id'', jopt JNum challenge)]),
       no_idempotency_key = lit ''outbox:'' @ show_int (oa_id action) @ [58] @ lit alert,
       no_created_at = now\<rparr> d = Inr (y, t)"
    by (auto simp: enqueue_owner_alert_def op_success)
  from enqueue_appends [OF this assms(2)] show ?thesis by simp
qed

subsection \<open>The schema is kept\<close>

lemma ok_set_setting_op: "stays (keeps db_ok) (force_dry_run :: ('ev, unit) sop)"
  by (rule stays_okI) (auto simp: force_dry_run_def modify_def ok_set_setting)

lemma ok_alert: "stays (keeps db_ok) (enqueue_owner_alert action alert challenge now)"
  unfolding enqueue_owner_alert_def
  by (auto intro!: ok.stays_basic ok_repositories split: option.split)

lemma ok_terminal_marks:
  "stays (keeps db_ok) (mark_outbox_succeeded i now)"
  "stays (keeps db_ok) (mark_outbox_uncertain i c now)"
  "stays (keeps db_ok) (mark_outbox_permanent_failure i c now)"
  by (simp_all add: mark_outbox_succeeded_def mark_outbox_uncertain_def
      mark_outbox_permanent_failure_def ok_repositories)

lemmas ok_dispatch_rules = ok.stays_basic ok_repositories ok_terminal_marks ok_alert ok_set_setting_op

lemma ok_finish:
  "stays (keeps db_ok) (finish_success action s now)"
  "stays (keeps db_ok) (finish_uncertain action i c now)"
  "stays (keeps db_ok) (finish_action_uncertain action c now)"
  "stays (keeps db_ok) (finish_permanent action c b now)"
  "stays (keeps db_ok) (schedule_retry action e n now)"
  unfolding finish_success_def finish_uncertain_def finish_action_uncertain_def finish_permanent_def
    schedule_retry_def
  by (auto intro!: ok_dispatch_rules split: option.split action_success.split)

lemma ok_finish_execution:
  "stays (keeps db_ok) (finish_uncertain_send action c now)"
  "stays (keeps db_ok) (finish_execution action result now)"
proof -
  show *: "stays (keeps db_ok) (finish_uncertain_send action c now)" for c
    unfolding finish_uncertain_send_def
    by (auto intro!: ok_finish ok.stays_basic split: option.split)
  show "stays (keeps db_ok) (finish_execution action result now)"
    unfolding finish_execution_def handle_telegram_failure_def
    by (auto intro!: ok_finish * ok.stays_basic split: sum.split action_failure.split option.split)
qed

lemma ok_claim: "stays (keeps db_ok) (claim_due_outbox_action now)"
  by (rule stays_okI)
    (auto simp: claim_due_outbox_action_def Let_def update_one_def split: option.splits sum.splits
      if_splits intro!: ok_update_outbox)

subsection \<open>Claims\<close>

lemma hd_sort_key_in: "sort_key f xs = r # rs \<Longrightarrow> r \<in> set xs"
  by (metis list.set_intros(1) set_sort)

lemma hd_sort_key_le: "sort_key f xs = r # rs \<Longrightarrow> x \<in> set xs \<Longrightarrow> f r \<le> f x"
proof -
  assume s: "sort_key f xs = r # rs" and x: "x \<in> set xs"
  have "sorted (map f (r # rs))" using sorted_sort_key [of f xs] by (simp add: s)
  moreover have "x \<in> set (r # rs)" using x by (metis s set_sort)
  ultimately show "f r \<le> f x" by auto
qed

lemma next_due_Some:
  assumes "next_due now d = Some r"
  shows "r \<in> set (outbox d)" and "due now r" and "is_ready now d \<or> private_kind r"
    and "\<forall>q \<in> set (outbox d). due now q \<and> (is_ready now d \<or> private_kind q) \<longrightarrow> ob_id r \<le> ob_id q"
proof -
  obtain rs where s: "sort_key ob_id (filter (\<lambda>r. due now r \<and> (is_ready now d \<or> private_kind r)) (outbox d))
      = r # rs"
    using assms by (auto simp: next_due_def Let_def split: list.splits)
  from hd_sort_key_in [OF s] show "r \<in> set (outbox d)" "due now r" "is_ready now d \<or> private_kind r"
    by auto
  from hd_sort_key_le [OF s]
  show "\<forall>q \<in> set (outbox d). due now q \<and> (is_ready now d \<or> private_kind q) \<longrightarrow> ob_id r \<le> ob_id q" by auto
qed

definition claimed_row :: "timestamp \<Rightarrow> outbox_row \<Rightarrow> outbox_row" where
  "claimed_row now r =
     r\<lparr>ob_attempts := ob_attempts r + (if ob_claimed_at r \<noteq> None then 0 else 1),
       ob_claimed_at := Some now, ob_updated_at := now\<rparr>"

lemma decode_outbox_fields:
  assumes "decode_outbox r = Inr b"
  shows "oa_id b = ob_id r" and "oa_kind b = ob_kind r" and "oa_payload b = ob_payload r"
    and "oa_attempts b = ob_attempts r" and "map_option connection_id (oa_key b) = ob_connection_id r"
  using assms by (cases "ob_connection_id r"; cases "ob_chat_id r"; auto simp: decode_outbox_def)+

lemma claim_effect:
  assumes run: "claim_due_outbox_action now d = Inr (Some a, t)" and ok: "db_ok d"
  obtains r where "next_due now d = Some r" and "ob_at d (oa_id a) = Some r" and "due now r"
    and "is_ready now d \<or> private_kind r"
    and "oa_id a = ob_id r" and "oa_kind a = ob_kind r" and "oa_payload a = ob_payload r"
    and "oa_interrupted a \<longleftrightarrow> ob_claimed_at r \<noteq> None"
    and "oa_attempts a = ob_attempts (claimed_row now r)"
    and "map_option connection_id (oa_key a) = ob_connection_id r"
    and "ob_at t = (ob_at d)(oa_id a \<mapsto> claimed_row now r)"
    and "t = d\<lparr>outbox := outbox t\<rparr>"
proof -
  obtain r where r: "next_due now d = Some r"
    using run by (auto simp: claim_due_outbox_action_def split: option.splits)
  define p where "p = (\<lambda>x :: outbox_row. ob_id x = ob_id r \<and> ob_status x = ob_status r \<and> ob_attempts x = ob_attempts r)"
  define inc :: int where "inc = (if ob_claimed_at r \<noteq> None then 0 else 1)"
  define f where "f = (\<lambda>x :: outbox_row. x\<lparr>ob_attempts := ob_attempts x + inc, ob_claimed_at := Some now,
      ob_updated_at := now\<rparr>)"
  have eq: "claim_due_outbox_action now d =
      (case update_one p f (outbox d) of Inl e \<Rightarrow> Inl e
       | Inr rows \<Rightarrow> (case decode_outbox r of Inl e \<Rightarrow> Inl e
         | Inr b \<Rightarrow> Inr (Some (b\<lparr>oa_attempts := oa_attempts b + inc,
             oa_interrupted := (ob_claimed_at r \<noteq> None), oa_updated_at := now\<rparr>), d\<lparr>outbox := rows\<rparr>)))"
    unfolding claim_due_outbox_action_def r option.case Let_def p_def f_def inc_def ..
  obtain rows b where rows: "update_one p f (outbox d) = Inr rows" and b: "decode_outbox r = Inr b"
    and a: "a = b\<lparr>oa_attempts := oa_attempts b + inc, oa_interrupted := (ob_claimed_at r \<noteq> None),
      oa_updated_at := now\<rparr>" and t: "t = d\<lparr>outbox := rows\<rparr>"
    using run unfolding eq by (auto split: sum.splits)
  note due = next_due_Some [OF r]
  have at: "ob_at d (ob_id r) = Some r" using due(1) ok by (simp add: ob_at_iff)
  note fields = decode_outbox_fields [OF b]
  have "\<exists>q. ob_at d (ob_id r) = Some q \<and> p q \<and> ob_at (d\<lparr>outbox := rows\<rparr>) = (ob_at d)(ob_id r \<mapsto> f q)"
  proof (rule update_one_effect [OF rows ok])
    show "ob_id (f x) = ob_id x" for x by (simp add: f_def)
    show "p x \<Longrightarrow> ob_id x = ob_id r" for x by (simp add: p_def)
  qed
  then obtain q where q: "ob_at d (ob_id r) = Some q" "ob_at t = (ob_at d)(ob_id r \<mapsto> f q)"
    unfolding t by blast
  have "f r = claimed_row now r" by (simp add: f_def claimed_row_def inc_def)
  with q at have "ob_at t = (ob_at d)(ob_id r \<mapsto> claimed_row now r)" by simp
  moreover have "oa_attempts a = ob_attempts (claimed_row now r)"
    using fields(4) by (simp add: a claimed_row_def inc_def)
  ultimately show thesis
    using r at due(2,3) fields by (intro that [of r]) (simp_all add: a t)
qed


subsection \<open>Finishing\<close>

fun outcome_row :: "dispatch_outcome \<Rightarrow> i64 \<Rightarrow> outbox_row \<Rightarrow> bool" where
  "outcome_row DispatchIdle i r = False"
| "outcome_row (DispatchSucceeded j) i r = (j = i \<and> ob_status r = OutSucceeded)"
| "outcome_row (DispatchRetryScheduled j n) i r =
     (j = i \<and> ob_status r = OutRetry \<and> ob_next_attempt_at r = Some n)"
| "outcome_row (DispatchUncertain j) i r = (j = i \<and> ob_status r = OutUncertain)"
| "outcome_row (DispatchPermanentFailure j) i r = (j = i \<and> ob_status r = OutPermanentFailure)"

definition same_action :: "outbox_row \<Rightarrow> outbox_row \<Rightarrow> bool" where
  "same_action r q \<longleftrightarrow> ob_id q = ob_id r \<and> ob_kind q = ob_kind r \<and> ob_attempts q = ob_attempts r
     \<and> ob_claimed_at q = None"

text \<open>The row of action \<open>i\<close> is settled as the outcome says; at most one alert is queued.\<close>

definition settles :: "i64 \<Rightarrow> dispatch_outcome \<Rightarrow> 'ev db \<Rightarrow> 'ev db \<Rightarrow> bool" where
  "settles i out d t \<longleftrightarrow>
     (\<exists>r q m. ob_at d i = Some r \<and> unfinished r \<and> same_action r q \<and> outcome_row out i q
        \<and> ob_at m = (ob_at d)(i \<mapsto> q) \<and> outbox_seq m = outbox_seq d \<and> appends m t)"

definition queue_of :: "'ev db \<Rightarrow> outbox_row list \<times> i64" where
  "queue_of d = (outbox d, outbox_seq d)"

interpretation queue_kept: step_relation "same queue_of"
  by (rule step_relation_same)

lemma queue_frames:
  "stays (same queue_of) (mark_challenge_sent i m)"
  "stays (same queue_of) (mark_challenge_uncertain i)"
  "stays (same queue_of) (disable_business_connection c now)"
  "stays (same queue_of) (force_dry_run :: ('ev, unit) sop)"
  by (auto simp: stays_def same_def queue_of_def mark_challenge_sent_def mark_challenge_uncertain_def
      disable_business_connection_def force_dry_run_def modify_def set_setting_def split: sum.splits)

lemma queue_appends: "queue_of t = queue_of d \<Longrightarrow> appends d t"
  using ob_at_frame [of t d] by (simp add: queue_of_def appends_def)

lemma appends_queue: "queue_of m = queue_of d \<Longrightarrow> appends m t \<Longrightarrow> appends d t"
  using ob_at_frame [of m d] by (simp add: queue_of_def appends_def)

lemma settlesI:
  assumes "set_outbox_terminal i s e now d = Inr (x, m)" and "db_ok d"
    and "\<And>r. outcome_row out i (terminal_row s e now r)" and "appends m t"
  shows "settles i out d t"
proof -
  obtain r where r: "ob_at d i = Some r" "unfinished r" "ob_at m = (ob_at d)(i \<mapsto> terminal_row s e now r)"
    "outbox_seq m = outbox_seq d"
    using set_terminal_effect [OF assms(1,2)] by blast
  moreover have "same_action r (terminal_row s e now r)" by (simp add: same_action_def terminal_row_def)
  ultimately show ?thesis using assms(3,4) unfolding settles_def by blast
qed

lemma finish_success_settles:
  assumes "finish_success action s now d = Inr (out, t)" and "db_ok d"
  shows "settles (oa_id action) out d t"
proof -
  obtain x m where m: "set_outbox_terminal (oa_id action) OutSucceeded None now d = Inr (x, m)"
    and rest: "and_then (case s of PlainSuccess \<Rightarrow> ret () | ChallengeSent i k \<Rightarrow> std (mark_challenge_sent i k))
      (\<lambda>_. ret (DispatchSucceeded (oa_id action))) m = Inr (out, t)"
    using assms(1) unfolding finish_success_def mark_outbox_succeeded_def
    by (elim map_err_E and_then_E [of "std (set_outbox_terminal _ _ _ _)"]) (rule that; assumption)
  have "stays (same queue_of) (and_then (case s of PlainSuccess \<Rightarrow> ret ()
      | ChallengeSent i k \<Rightarrow> std (mark_challenge_sent i k)) (\<lambda>_. ret (DispatchSucceeded (oa_id action))))"
    by (auto intro!: queue_kept.stays_basic queue_frames split: action_success.split)
  from staysD [OF this rest] have "appends m t" by (simp add: same_def queue_appends)
  moreover have "out = DispatchSucceeded (oa_id action)" using rest by (auto simp: op_success)
  ultimately show ?thesis
    using settlesI [OF m assms(2), of out] by (simp add: terminal_row_def)
qed

lemma finish_action_uncertain_settles:
  assumes "finish_action_uncertain action code now d = Inr (out, t)" and "db_ok d"
  shows "settles (oa_id action) out d t" and "out = DispatchUncertain (oa_id action)"
proof -
  have m: "set_outbox_terminal (oa_id action) OutUncertain (Some code) now d = Inr ((), t)"
    and out: "out = DispatchUncertain (oa_id action)"
    using assms(1) by (auto simp: finish_action_uncertain_def mark_outbox_uncertain_def op_success)
  show "settles (oa_id action) out d t"
    using settlesI [OF m assms(2), of out] out by (simp add: terminal_row_def queue_appends)
  show "out = DispatchUncertain (oa_id action)" by (rule out)
qed

lemma finish_uncertain_settles:
  assumes "finish_uncertain action c code now d = Inr (out, t)" and "db_ok d"
  shows "settles (oa_id action) out d t" and "out = DispatchUncertain (oa_id action)"
proof -
  let ?mark = "case c of None \<Rightarrow> ret () | Some i \<Rightarrow> std (mark_challenge_uncertain i)"
  obtain x m y n z u where m: "set_outbox_terminal (oa_id action) OutUncertain (Some code) now d = Inr (x, m)"
    and n: "?mark m = Inr (y, n)"
    and u: "enqueue_owner_alert action ''challenge_send_uncertain'' c now n = Inr (z, u)"
    and out: "(ret (DispatchUncertain (oa_id action)) :: dispatch_outcome dop) u = Inr (out, t)"
    using assms(1) unfolding finish_uncertain_def mark_outbox_uncertain_def
    by (elim and_then_E map_err_E) (rule that; assumption)
  have q: "stays (same queue_of) ?mark" and k: "stays (keeps db_ok) ?mark"
    by (auto intro!: queue_kept.stays_basic queue_frames ok_dispatch_rules split: option.split)
  have "queue_of n = queue_of m" "db_ok n"
    using staysD [OF q n] staysD [OF k n] staysD [OF ok_set_outbox_terminal m] assms(2)
    by (auto simp: same_def keeps_def)
  then have "appends m u" using alert_appends [OF u] appends_queue by blast
  then show "settles (oa_id action) out d t" and "out = DispatchUncertain (oa_id action)"
    using settlesI [OF m assms(2), of out] out by (auto simp: terminal_row_def ret_def)
qed

lemma finish_permanent_settles:
  assumes "finish_permanent action code b now d = Inr (out, t)" and "db_ok d"
  shows "settles (oa_id action) out d t" and "out = DispatchPermanentFailure (oa_id action)"
proof -
  let ?dis = "case oa_key action of None \<Rightarrow> ret ()
    | Some key \<Rightarrow> std (disable_business_connection (connection_id key) now)"
  obtain x m y n where
    m: "set_outbox_terminal (oa_id action) OutPermanentFailure (Some code) now d = Inr (x, m)"
    and n: "(if b then and_then ?dis (\<lambda>_. and_then (std force_dry_run) (\<lambda>_.
          std (enqueue_owner_alert action ''business_rights_unavailable'' None now))) else ret ()) m
      = Inr (y, n)"
    and out: "(ret (DispatchPermanentFailure (oa_id action)) :: dispatch_outcome dop) n = Inr (out, t)"
    using assms(1) unfolding finish_permanent_def mark_outbox_permanent_failure_def
    by (elim map_err_E and_then_E [of _ "\<lambda>_. ret (DispatchPermanentFailure (oa_id action))"]
        and_then_E [of "std (set_outbox_terminal _ _ _ _)"]) (rule that; assumption)
  have ok: "db_ok m" using staysD [OF ok_set_outbox_terminal m] assms(2) by (simp add: keeps_def)
  have "appends m n"
  proof (cases b)
    case True
    then obtain z u where u: "and_then ?dis (\<lambda>_. std force_dry_run) m = Inr (z, u)"
      and alert: "enqueue_owner_alert action ''business_rights_unavailable'' None now u = Inr (y, n)"
      using n by (auto simp: op_success)
    have q: "stays (same queue_of) (and_then ?dis (\<lambda>_. std force_dry_run))"
      and k: "stays (keeps db_ok) (and_then ?dis (\<lambda>_. std force_dry_run))"
      by (auto intro!: queue_kept.stays_basic queue_frames ok_dispatch_rules split: option.split)
    have "queue_of u = queue_of m" "db_ok u"
      using staysD [OF q u] staysD [OF k u] ok by (auto simp: same_def keeps_def)
    then show ?thesis using alert_appends [OF alert] appends_queue by blast
  qed (use n in \<open>simp add: ret_def queue_appends\<close>)
  then show "settles (oa_id action) out d t" and "out = DispatchPermanentFailure (oa_id action)"
    using settlesI [OF m assms(2), of out] out by (auto simp: terminal_row_def ret_def)
qed

lemma schedule_retry_settles:
  assumes "schedule_retry action e n now d = Inr (out, t)" and "db_ok d"
  shows "settles (oa_id action) out d t" and "out = DispatchRetryScheduled (oa_id action) n"
proof -
  have m: "mark_outbox_retry (oa_id action) n (error_code e) now d = Inr ((), t)"
    and out: "out = DispatchRetryScheduled (oa_id action) n"
    using assms(1) by (auto simp: schedule_retry_def op_success)
  obtain r where r: "ob_at d (oa_id action) = Some r" "unfinished r" "outbox_seq t = outbox_seq d"
    and t: "ob_at t = (ob_at d)(oa_id action \<mapsto> r\<lparr>ob_status := OutRetry, ob_next_attempt_at := Some n,
      ob_claimed_at := None, ob_last_error := Some (error_code e), ob_updated_at := now\<rparr>)" (is "_ = (_)(_ \<mapsto> ?q)")
    using set_retry_effect [OF m assms(2)] by blast
  show "settles (oa_id action) out d t"
    unfolding settles_def out
    by (rule exI [of _ r], rule exI [of _ ?q], rule exI [of _ t])
      (use r t in \<open>auto simp: same_action_def appends_def\<close>)
  show "out = DispatchRetryScheduled (oa_id action) n" by (rule out)
qed

lemma finish_uncertain_send_settles:
  assumes "finish_uncertain_send action code now d = Inr (out, t)" and "db_ok d"
  shows "settles (oa_id action) out d t" and "out = DispatchUncertain (oa_id action)"
  using assms finish_uncertain_settles [of action _ code now d out t]
    finish_action_uncertain_settles [of action code now d out t]
  by (auto simp: finish_uncertain_send_def fail_def split: if_splits option.splits)

subsection \<open>Retry delays\<close>

lemma retry_seconds_range: "n < 6 \<Longrightarrow> 0 < RETRY_SECONDS ! n \<and> RETRY_SECONDS ! n \<le> 30"
  by (auto simp: RETRY_SECONDS_def nth_Cons less_Suc_eq numeral_eq_Suc split: nat.split)

lemma retry_delay_Some:
  assumes "retry_delay e attempts = Some delay"
  shows "attempts \<le> 6" and "0 \<le> delay" and "delay \<le> minutes 1"
    and "requested_delay e = None \<Longrightarrow> 1 \<le> attempts \<and> nat (attempts - 1) < length RETRY_SECONDS
      \<and> delay = seconds (RETRY_SECONDS ! nat (attempts - 1))"
proof -
  show a: "attempts \<le> 6"
    using assms by (auto simp: retry_delay_def RETRY_SECONDS_def split: if_splits)
  show spec: "requested_delay e = None \<Longrightarrow> 1 \<le> attempts \<and> nat (attempts - 1) < length RETRY_SECONDS
      \<and> delay = seconds (RETRY_SECONDS ! nat (attempts - 1))"
    using assms a by (auto simp: retry_delay_def RETRY_SECONDS_def split: if_splits)
  show "0 \<le> delay" "delay \<le> minutes 1"
  proof (atomize (full), cases "requested_delay e")
    case None
    with spec retry_seconds_range [of "nat (attempts - 1)"] a
    show "0 \<le> delay \<and> delay \<le> minutes 1" by (auto simp: duration_defs RETRY_SECONDS_def)
  next
    case (Some x)
    with assms show "0 \<le> delay \<and> delay \<le> minutes 1"
      by (auto simp: retry_delay_def requested_delay_def duration_defs
          split: if_splits telegram_error.splits option.splits)
  qed
qed

lemma finish_execution_settles:
  assumes "finish_execution action result now d = Inr (out, t)" and "db_ok d"
  shows "settles (oa_id action) out d t"
    and "out = DispatchRetryScheduled i n \<Longrightarrow> oa_attempts action \<le> 6 \<and> now \<le> n \<and> n \<le> now + minutes 1"
    and "result = Inl (TelegramFailure TgTimeout) \<Longrightarrow> \<not> is_idempotent (oa_kind action)
      \<Longrightarrow> out = DispatchUncertain (oa_id action)"
proof -
  note all = finish_success_settles finish_uncertain_settles finish_permanent_settles
    schedule_retry_settles finish_uncertain_send_settles
  have telegram: "settles (oa_id action) out d t
    \<and> (out = DispatchRetryScheduled i n \<longrightarrow> oa_attempts action \<le> 6 \<and> now \<le> n \<and> n \<le> now + minutes 1)"
    if "handle_telegram_failure action e now d = Inr (out, t)" for e
  proof (cases "retry_delay e (oa_attempts action)")
    case None
    with that assms(2) show ?thesis
      using finish_success_settles [of action PlainSuccess now d out t]
        finish_permanent_settles [of action _ _ now d out t]
        finish_uncertain_send_settles [of action _ now d out t]
      by (auto simp: handle_telegram_failure_def finish_success_def op_success split: if_splits)
  next
    case (Some delay)
    with that assms(2) show ?thesis
      using finish_success_settles [of action PlainSuccess now d out t]
        finish_permanent_settles [of action _ _ now d out t]
        finish_uncertain_send_settles [of action _ now d out t]
        schedule_retry_settles [of action e "now + delay" now d out t] retry_delay_Some [OF Some]
      by (auto simp: handle_telegram_failure_def finish_success_def op_success split: if_splits)
  qed
  have "settles (oa_id action) out d t
    \<and> (out = DispatchRetryScheduled i n \<longrightarrow> oa_attempts action \<le> 6 \<and> now \<le> n \<and> n \<le> now + minutes 1)"
  proof (cases result)
    case (Inr s)
    with assms finish_success_settles [of action s now d out t] show ?thesis
      by (auto simp: finish_execution_def finish_success_def op_success)
  next
    case (Inl f)
    show ?thesis
    proof (cases f)
      case (TelegramFailure e)
      have "handle_telegram_failure action e now d = Inr (out, t)"
        using assms(1) by (simp add: finish_execution_def Inl TelegramFailure)
      then show ?thesis by (rule telegram)
    next
      case (StorageFailed e)
      with Inl assms(1) show ?thesis by (simp add: finish_execution_def fail_def)
    next
      case (UncertainDependency i)
      with Inl assms finish_uncertain_settles [of action _ _ now d out t] show ?thesis
        by (auto simp: finish_execution_def)
    next
      case RightsUnavailable
      with Inl assms finish_permanent_settles [of action _ _ now d out t] show ?thesis
        by (auto simp: finish_execution_def)
    next
      case (InvalidAction c)
      with Inl assms finish_permanent_settles [of action _ _ now d out t] show ?thesis
        by (auto simp: finish_execution_def)
    qed
  qed
  then show "settles (oa_id action) out d t"
    and "out = DispatchRetryScheduled i n \<Longrightarrow> oa_attempts action \<le> 6 \<and> now \<le> n \<and> n \<le> now + minutes 1"
    by blast+
  show "out = DispatchUncertain (oa_id action)"
    if "result = Inl (TelegramFailure TgTimeout)" "\<not> is_idempotent (oa_kind action)"
    using that assms finish_uncertain_send_settles(2) [of action _ now d out t]
    by (auto simp: finish_execution_def handle_telegram_failure_def already_applied_def
        invalid_connection_or_right_def)
qed

end
