(* ===== verification/Outbox_Runs.thy ===== *)
theory Outbox_Runs
  imports Outbox_Safety
begin

section \<open>Runs of the outbox worker\<close>

text \<open>
  The worker against the rest of the program: dispatches, crashes between the claim and the
  finish of an action, restarts, and the writes of the other components in between.
\<close>

subsection \<open>What other components do to the outbox\<close>

definition row_progress :: "outbox_row \<Rightarrow> outbox_row \<Rightarrow> bool" where
  "row_progress r q \<longleftrightarrow> q = r
     \<or> unfinished r \<and> \<not> unfinished q \<and> ob_id q = ob_id r \<and> ob_kind q = ob_kind r"

definition fresh_row :: "outbox_row \<Rightarrow> bool" where
  "fresh_row q \<longleftrightarrow> (unfinished q \<longrightarrow> ob_attempts q = 0 \<and> ob_claimed_at q = None)"

definition other_writes :: "'ev db \<Rightarrow> 'ev db \<Rightarrow> bool" where
  "other_writes d t \<longleftrightarrow> outbox_seq d \<le> outbox_seq t
     \<and> (\<forall>i q. ob_at t i = Some q \<longrightarrow>
          (case ob_at d i of Some r \<Rightarrow> row_progress r q | None \<Rightarrow> outbox_seq d < i \<and> fresh_row q))"

definition outbox_evolves :: "'ev db \<Rightarrow> 'ev db \<Rightarrow> bool" where
  "outbox_evolves d t \<longleftrightarrow> (db_ok d \<longrightarrow> db_ok t \<and> other_writes d t)"

lemma row_progress_trans: "row_progress r q \<Longrightarrow> row_progress q w \<Longrightarrow> row_progress r w"
  by (auto simp: row_progress_def)

lemma fresh_progress: "fresh_row q \<Longrightarrow> row_progress q w \<Longrightarrow> fresh_row w"
  by (auto simp: row_progress_def fresh_row_def)

lemma other_writes_trans:
  assumes ok: "db_ok d" and dt: "other_writes d t" and tu: "other_writes t u"
  shows "other_writes d u"
proof -
  have seq: "outbox_seq d \<le> outbox_seq t" "outbox_seq t \<le> outbox_seq u"
    using dt tu by (auto simp: other_writes_def)
  have "case ob_at d i of Some r \<Rightarrow> row_progress r w | None \<Rightarrow> outbox_seq d < i \<and> fresh_row w"
    if w: "ob_at u i = Some w" for i w
  proof (cases "ob_at t i")
    case None
    with w tu have "outbox_seq t < i \<and> fresh_row w" unfolding other_writes_def by fastforce
    with seq ob_at_le [OF ok, of i] show ?thesis by (cases "ob_at d i") fastforce+
  next
    case (Some q)
    with w tu have qw: "row_progress q w" unfolding other_writes_def by fastforce
    from Some dt have "case ob_at d i of Some r \<Rightarrow> row_progress r q
      | None \<Rightarrow> outbox_seq d < i \<and> fresh_row q" unfolding other_writes_def by blast
    with qw show ?thesis
      by (auto split: option.splits intro: row_progress_trans fresh_progress)
  qed
  with seq show ?thesis by (auto simp: other_writes_def)
qed

interpretation evolves: step_relation "outbox_evolves :: database \<Rightarrow> database \<Rightarrow> bool"
proof
  show "outbox_evolves d d" for d :: database
    by (auto simp: outbox_evolves_def other_writes_def row_progress_def split: option.split)
  show "outbox_evolves d u" if "outbox_evolves d t" "outbox_evolves t u" for d t u :: database
    using that other_writes_trans unfolding outbox_evolves_def by blast
qed

lemma evolves_queue:
  assumes "stays (same queue_of) m" and "stays (keeps db_ok) m"
  shows "stays outbox_evolves (m :: (database, 'e, 'a) op)"
proof (rule staysI)
  fix d t :: database and x
  assume run: "m d = Inr (x, t)"
  have "outbox t = outbox d" "outbox_seq t = outbox_seq d"
    using staysD [OF assms(1) run] by (auto simp: same_def queue_of_def)
  with ob_at_frame [of t d] staysD [OF assms(2) run] show "outbox_evolves d t"
    by (auto simp: outbox_evolves_def other_writes_def row_progress_def keeps_def split: option.split)
qed

lemma queue_frames_handler:
  "stays (same queue_of) (get_or_create_conversation key u now :: (database, _, _) op)"
  "stays (same queue_of) (save_conversation c v :: (database, _, _) op)"
  "stays (same queue_of) (record_message m :: (database, _, _) op)"
  "stays (same queue_of) (mark_message_deleted key i now :: (database, _, _) op)"
  "stays (same queue_of) (create_challenge ch :: (database, _, _) op)"
  "stays (same queue_of) (close_challenge j now :: (database, _, _) op)"
  "stays (same queue_of) (close_active_challenge key now :: (database, _, _) op)"
  "stays (same queue_of) (increment_challenge_attempts j :: (database, _, _) op)"
  "stays (same queue_of) (insert_audit_event e :: (database, _, _) op)"
  by (auto simp: stays_def same_def queue_of_def get_or_create_conversation_def find_conversation_def
      insert_conversation_def save_conversation_def record_message_def mark_message_deleted_def
      create_challenge_def close_challenge_def close_active_challenge_def
      increment_challenge_attempts_def insert_audit_event_def Let_def op_success
      split: option.splits if_splits)

lemma queue_frame_promote:
  "stays (same queue_of) (promote_owner_chat user chat src :: (database, _, _) op)"
proof -
  have "stays (same queue_of) (set_owner_if p f :: (database, _, _) op)" for p f
    by (auto simp: stays_def same_def queue_of_def set_owner_if_def split: if_splits)
  then show ?thesis
    unfolding promote_owner_chat_def
    by (auto intro!: queue_kept.stays_basic queue_kept.stays_reads [OF reads_load_owner(2)]
        split: owner_identity.split)
qed

lemma evolves_enqueue: "stays outbox_evolves (enqueue_outbox_action a :: (database, _, _) op)"
proof (rule staysI)
  fix d t :: database and x
  assume run: "enqueue_outbox_action a d = Inr (x, t)"
  have "other_writes d t" if ok: "db_ok d"
  proof -
    consider "t = d" | "t = d\<lparr>outbox := outbox d @ [outbox_row_of a (outbox_seq d + 1)],
        outbox_seq := outbox_seq d + 1\<rparr>"
      using run by (auto simp: enqueue_outbox_action_def Let_def split: if_splits)
    then show ?thesis
    proof cases
      case 1
      then show ?thesis by (auto simp: other_writes_def row_progress_def split: option.split)
    next
      case 2
      then show ?thesis
        by (auto simp: other_writes_def ob_at_def find_row_snoc outbox_row_of_def row_progress_def
            fresh_row_def split: option.splits if_splits)
    qed
  qed
  moreover have "keeps db_ok d t" using staysD [OF ok_enqueue_outbox_action run] by blast
  ultimately show "outbox_evolves d t" by (simp add: outbox_evolves_def keeps_def)
qed

lemma other_writes_retire:
  assumes "db_ok d"
  shows "other_writes d (retire_stale_connection stale now d)" (is "other_writes d ?t")
proof -
  let ?f = "\<lambda>a :: outbox_row. a\<lparr>ob_status := OutPermanentFailure, ob_claimed_at := None,
      ob_next_attempt_at := None, ob_last_error := Some ''business_connection_replaced'',
      ob_updated_at := now\<rparr>"
  let ?p = "\<lambda>a. ob_connection_id a = Some stale \<and> unfinished a"
  have t: "outbox ?t = update_where ?p ?f (outbox d)" "outbox_seq ?t = outbox_seq d"
    by (simp_all add: retire_stale_connection_def set_setting_def delete_connections_def Let_def)
  have "ob_at ?t i = map_option (\<lambda>r. if ?p r then ?f r else r) (ob_at d i)" for i
    unfolding ob_at_def t by (simp add: find_row_update_where)
  then show ?thesis
    by (auto simp: other_writes_def t row_progress_def unfinished_def split: option.splits if_splits)
qed

lemma evolves_upsert: "stays outbox_evolves (upsert_business_connection b :: (database, _, _) op)"
proof (rule staysI)
  fix d t :: database and x
  assume run: "upsert_business_connection b d = Inr (x, t)"
  have "other_writes d t" if ok: "db_ok d"
  proof -
    have "outbox t = outbox d \<and> outbox_seq t = outbox_seq d
      \<or> (\<exists>c n. outbox t = outbox (retire_stale_connection c n d)
          \<and> outbox_seq t = outbox_seq (retire_stale_connection c n d))"
    proof (cases "find_row (\<lambda>a. bc_owner_user_id a = bc_owner_user_id b
        \<and> bc_connection_id a \<noteq> bc_connection_id b) (connections d)")
      case None
      with run show ?thesis by (auto simp: upsert_business_connection_def Let_def split: if_splits)
    next
      case (Some a)
      with run show ?thesis
        by (intro disjI2 exI [of _ "bc_connection_id a"] exI [of _ "bc_updated_at b"])
          (auto simp: upsert_business_connection_def Let_def split: if_splits)
    qed
    then show ?thesis
    proof
      assume "outbox t = outbox d \<and> outbox_seq t = outbox_seq d"
      with ob_at_frame [of t d] show ?thesis
        by (auto simp: other_writes_def row_progress_def split: option.split)
    next
      assume "\<exists>c n. outbox t = outbox (retire_stale_connection c n d)
        \<and> outbox_seq t = outbox_seq (retire_stale_connection c n d)"
      then obtain c n where "outbox t = outbox (retire_stale_connection c n d)"
        and "outbox_seq t = outbox_seq (retire_stale_connection c n d)" by blast
      with other_writes_retire [OF ok, of c n] ob_at_frame [of t "retire_stale_connection c n d"]
      show ?thesis by (simp add: other_writes_def)
    qed
  qed
  moreover have "keeps db_ok d t" using staysD [OF ok_handler.r_upsert run] by blast
  ultimately show "outbox_evolves d t" by (simp add: outbox_evolves_def keeps_def)
qed

text \<open>The application of an event is such a write.\<close>

interpretation outbox_writer: repository_relation outbox_evolves
  by (intro repository_relation.intro repository_relation_axioms.intro queue_relation.intro
      queue_relation_axioms.intro evolves.step_relation_axioms evolves_enqueue evolves_upsert
      evolves_queue queue_frames_handler queue_frame_promote ok_handler.primitive)

lemma applying_evolves:
  "lifecycle_apply rfc event d = Inr (x, t) \<Longrightarrow> outbox_evolves d t"
  using staysD [OF outbox_writer.stays_lifecycle] .

subsection \<open>One dispatch\<close>

lemma request_idempotent:
  assumes "execute api a d = (r, Some (SendMessageCall b h x))"
  shows "\<not> is_idempotent (oa_kind a)"
  using assms
  by (cases "oa_kind a")
    (auto simp: execute_def action_request_def edit_request_def read_request_def delete_request_def
      result_then_def split: sum.splits option.splits if_splits)

text \<open>
  A dispatch with an action to claim: the call is made only for an action that was not
  interrupted or is idempotent; either the row of the action is settled as the outcome says,
  or the transaction failed and the row stays claimed.
\<close>

lemma dispatch_step:
  assumes claim: "claim_due_outbox_action now d = Inr (Some a, m)"
    and run: "dispatch_next api now d = (res, call, t)" and ok: "db_ok d"
  shows "call = None \<or> \<not> oa_interrupted a \<or> is_idempotent (oa_kind a)"
    and "call = None \<or> call = snd (execute api a m)"
    and "(\<exists>out. res = Inr out \<and> settles (oa_id a) out m t \<and> db_ok t
          \<and> (\<forall>i n. out = DispatchRetryScheduled i n \<longrightarrow>
               oa_attempts a \<le> 6 \<and> now \<le> n \<and> n \<le> now + minutes 1))
      \<or> (\<exists>e. res = Inl e \<and> t = m)"
proof -
  have ok_m: "db_ok m" using staysD [OF ok_claim claim] ok by (simp add: keeps_def)
  have run': "dispatch_claimed api now a m = (res, call, t)"
    using run claim by (simp add: dispatch_next_def commit_def)
  consider "oa_interrupted a \<and> \<not> is_idempotent (oa_kind a)" and "call = None"
      and "commit (finish_uncertain_send a ''interrupted_send'' now) m = (res, t)"
    | "\<not> (oa_interrupted a \<and> \<not> is_idempotent (oa_kind a))" and "call = snd (execute api a m)"
      and "commit (finish_execution a (fst (execute api a m)) now) m = (res, t)"
    using run' by (auto simp: dispatch_claimed_def split: if_splits prod.splits)
  then show "call = None \<or> \<not> oa_interrupted a \<or> is_idempotent (oa_kind a)"
    and "call = None \<or> call = snd (execute api a m)"
    and "(\<exists>out. res = Inr out \<and> settles (oa_id a) out m t \<and> db_ok t
          \<and> (\<forall>i n. out = DispatchRetryScheduled i n \<longrightarrow>
               oa_attempts a \<le> 6 \<and> now \<le> n \<and> n \<le> now + minutes 1))
      \<or> (\<exists>e. res = Inl e \<and> t = m)"
  proof (atomize (full), cases)
    case 1
    have "db_ok t"
      using ok_m 1(3) ok.commit_stays [OF ok_finish_execution(1) [of a "''interrupted_send''" now], of m] by (auto simp: keeps_def)
    then show "(call = None \<or> \<not> oa_interrupted a \<or> is_idempotent (oa_kind a)) \<and>
      (call = None \<or> call = snd (execute api a m)) \<and> ((\<exists>out. res = Inr out \<and>
        settles (oa_id a) out m t \<and> db_ok t \<and> (\<forall>i n. out = DispatchRetryScheduled i n \<longrightarrow>
          oa_attempts a \<le> 6 \<and> now \<le> n \<and> n \<le> now + minutes 1)) \<or> (\<exists>e. res = Inl e \<and> t = m))"
      using 1 finish_uncertain_send_settles [of a "''interrupted_send''" now m _ t] ok_m
      by (cases res) (auto simp: commit_success dest: commit_error_unchanged)
  next
    case 2
    have "db_ok t"
      using ok_m 2(3) ok.commit_stays [OF ok_finish_execution(2) [of a "fst (execute api a m)" now], of m]
      by (auto simp: keeps_def)
    moreover have "settles (oa_id a) out m t \<and> (\<forall>i n. out = DispatchRetryScheduled i n \<longrightarrow>
        oa_attempts a \<le> 6 \<and> now \<le> n \<and> n \<le> now + minutes 1)" if "res = Inr out" for out
    proof -
      have "finish_execution a (fst (execute api a m)) now m = Inr (out, t)"
        using 2(3) that by (simp add: commit_success)
      from finish_execution_settles(1,2) [OF this ok_m] show ?thesis by blast
    qed
    moreover have "t = m" if "res = Inl e" for e
      using 2(3) that by (auto dest: commit_error_unchanged)
    ultimately show "(call = None \<or> \<not> oa_interrupted a \<or> is_idempotent (oa_kind a)) \<and>
      (call = None \<or> call = snd (execute api a m)) \<and> ((\<exists>out. res = Inr out \<and>
        settles (oa_id a) out m t \<and> db_ok t \<and> (\<forall>i n. out = DispatchRetryScheduled i n \<longrightarrow>
          oa_attempts a \<le> 6 \<and> now \<le> n \<and> n \<le> now + minutes 1)) \<or> (\<exists>e. res = Inl e \<and> t = m))"
      using 2(1,2) by (cases res) auto
  qed
qed

subsection \<open>Runs\<close>

text \<open>An attempt at an action: the call made and the outcome stored, where there is one.\<close>

datatype dispatch_event = Attempt i64 "api_call option" "dispatch_outcome option"

definition stored_outcome :: "'e + dispatch_outcome \<Rightarrow> dispatch_outcome option" where
  "stored_outcome r = (case r of Inl _ \<Rightarrow> None | Inr out \<Rightarrow> Some out)"

text \<open>
  A step of the worker or of the rest of the program. A crash loses everything after the
  committed claim, where the call may or may not have been made.
\<close>

inductive outbox_step :: "database \<Rightarrow> dispatch_event list \<Rightarrow> database \<Rightarrow> bool" where
  dispatched: "claim_due_outbox_action now d = Inr (Some a, m) \<Longrightarrow>
    dispatch_next api now d = (res, call, t) \<Longrightarrow>
    outbox_step d [Attempt (oa_id a) call (stored_outcome res)] t"
| crashed: "claim_due_outbox_action now d = Inr (Some a, m) \<Longrightarrow>
    dispatch_next api now d = (res, call, t) \<Longrightarrow> made = None \<or> made = call \<Longrightarrow>
    outbox_step d [Attempt (oa_id a) made None] m"
| written: "outbox_evolves d t \<Longrightarrow> outbox_step d [] t"

inductive outbox_run :: "database \<Rightarrow> dispatch_event list \<Rightarrow> database \<Rightarrow> bool" where
  finished: "outbox_run d [] d"
| steps: "outbox_step d es m \<Longrightarrow> outbox_run m es' t \<Longrightarrow> outbox_run d (es @ es') t"

inductive_cases outbox_stepE: "outbox_step d es t"

lemma step_events: "outbox_step d es t \<Longrightarrow> es = [] \<or> (\<exists>e. es = [e])"
  by (auto elim!: outbox_stepE)

lemma step_ok: "outbox_step d es t \<Longrightarrow> db_ok d \<Longrightarrow> db_ok t"
proof (induction rule: outbox_step.induct)
  case (dispatched now d a m api res call t)
  then show ?case
    using dispatch_step(3) [OF dispatched(1,2)] staysD [OF ok_claim dispatched(1)]
    by (auto simp: keeps_def)
next
  case (crashed now d a m)
  then show ?case using staysD [OF ok_claim crashed(1)] by (auto simp: keeps_def)
qed (simp add: outbox_evolves_def)

lemma run_split:
  assumes "outbox_run d es t" and "es = xs @ e # ys" and "db_ok d"
  shows "\<exists>m n. outbox_step m [e] n \<and> outbox_run n ys t \<and> db_ok m"
  using assms
proof (induction arbitrary: xs rule: outbox_run.induct)
  case (steps d es m es' t)
  have ok: "db_ok m" using step_ok steps.hyps(1) steps.prems(2) by blast
  from step_events [OF steps.hyps(1)] show ?case
  proof
    assume "es = []"
    then show ?thesis using steps.IH [OF _ ok] steps.prems(1) by simp
  next
    assume "\<exists>e. es = [e]"
    then obtain f where f: "es = [f]" by blast
    show ?thesis
    proof (cases xs)
      case Nil
      with f steps.hyps(1,2) steps.prems show ?thesis by auto
    next
      case (Cons x xs')
      with f steps.IH [OF _ ok] steps.prems(1) show ?thesis by auto
    qed
  qed
qed simp

text \<open>An invariant of single steps, and what a step shows under it, carry along a run.\<close>

lemma run_always:
  assumes "outbox_run d es t" and "I d" and "db_ok d"
    and step: "\<And>d es t. outbox_step d es t \<Longrightarrow> db_ok d \<Longrightarrow> I d \<Longrightarrow> I t \<and> (\<forall>e \<in> set es. P e)"
  shows "\<forall>e \<in> set es. P e"
  using assms(1-3)
proof (induction rule: outbox_run.induct)
  case (steps d es m es' t)
  with step [OF steps.hyps(1)] step_ok [OF steps.hyps(1)] show ?case by auto
qed simp

subsection \<open>Attempts run out\<close>

definition completed :: "i64 \<Rightarrow> dispatch_event list \<Rightarrow> nat" where
  "completed i es =
     length (filter (\<lambda>e. case e of Attempt j _ out \<Rightarrow> j = i \<and> out \<noteq> None) es)"

definition attempts_left :: "i64 \<Rightarrow> 'ev db \<Rightarrow> nat" where
  "attempts_left i d =
     (case ob_at d i of
        None \<Rightarrow> if i \<le> outbox_seq d then 0 else 7
      | Some r \<Rightarrow>
          if unfinished r
          then nat (max 1 ((if ob_claimed_at r \<noteq> None then 8 else 7) - ob_attempts r))
          else 0)"

lemma settles_frame:
  assumes "settles i out d t" and "db_ok d"
  shows "outbox_seq d \<le> outbox_seq t" and "outbox_seq t \<le> outbox_seq d + 1"
    and "j \<noteq> i \<Longrightarrow> j \<le> outbox_seq d \<Longrightarrow> ob_at t j = ob_at d j"
    and "outbox_seq d < j \<Longrightarrow> ob_at t j = Some q \<Longrightarrow> fresh_row q"
    and "\<exists>r q. ob_at d i = Some r \<and> ob_at t i = Some q \<and> unfinished r \<and> same_action r q
      \<and> outcome_row out i q"
proof -
  obtain r q m where r: "ob_at d i = Some r" "unfinished r" "same_action r q" "outcome_row out i q"
    and m: "ob_at m = (ob_at d)(i \<mapsto> q)" "outbox_seq m = outbox_seq d" and t: "appends m t"
    using assms(1) by (auto simp: settles_def)
  have i: "i \<le> outbox_seq d" using r(1) ob_at_le assms(2) by blast
  show "outbox_seq d \<le> outbox_seq t" "outbox_seq t \<le> outbox_seq d + 1"
    using t m(2) by (auto simp: appends_def)
  show "ob_at t j = ob_at d j" if "j \<noteq> i" "j \<le> outbox_seq d"
    using t m that by (auto simp: appends_def)
  show "fresh_row q'" if "outbox_seq d < j" "ob_at t j = Some q'" for q'
    using t m that i ob_at_le [OF assms(2), of j]
    by (auto simp: appends_def fresh_row_def split: if_splits)
  show "\<exists>r q. ob_at d i = Some r \<and> ob_at t i = Some q \<and> unfinished r \<and> same_action r q
      \<and> outcome_row out i q"
    using r t m i by (auto simp: appends_def)
qed

lemma attempts_fresh:
  "db_ok d \<Longrightarrow> outbox_seq d < i \<Longrightarrow> attempts_left i d = 7"
  using ob_at_le [of d i] by (cases "ob_at d i") (auto simp: attempts_left_def)

lemma attempts_left_fresh_le:
  assumes "outbox_seq d < i" and "db_ok d" and "outbox_seq d \<le> outbox_seq t"
    and "\<And>q. ob_at t i = Some q \<Longrightarrow> fresh_row q"
  shows "attempts_left i t \<le> attempts_left i d"
proof (cases "ob_at t i")
  case (Some q)
  with assms(4) [of q] attempts_fresh [OF assms(2,1)] show ?thesis
    by (auto simp: attempts_left_def fresh_row_def)
qed (use attempts_fresh [OF assms(2,1)] in \<open>simp add: attempts_left_def\<close>)

lemma claim_attempts:
  assumes "claim_due_outbox_action now d = Inr (Some a, m)" and "db_ok d"
  shows "attempts_left j m = attempts_left j d"
proof -
  obtain r where r: "ob_at d (oa_id a) = Some r" "due now r"
    "ob_at m = (ob_at d)(oa_id a \<mapsto> claimed_row now r)" "m = d\<lparr>outbox := outbox m\<rparr>"
    by (rule claim_effect [OF assms]) (blast intro: that)
  have "outbox_seq m = outbox_seq d" by (subst r(4)) simp
  then show ?thesis
    using r(1-3) by (auto simp: attempts_left_def claimed_row_def due_def unfinished_def)
qed

lemma settled_attempts:
  assumes claim: "claim_due_outbox_action now d = Inr (Some a, m)" and ok: "db_ok d"
    and s: "settles (oa_id a) out m t"
    and retry: "\<And>i n. out = DispatchRetryScheduled i n \<Longrightarrow> oa_attempts a \<le> 6"
  shows "attempts_left (oa_id a) t + 1 \<le> attempts_left (oa_id a) m"
    and "j \<noteq> oa_id a \<Longrightarrow> attempts_left j t \<le> attempts_left j m"
proof -
  have ok_m: "db_ok m" using staysD [OF ok_claim claim] ok by (simp add: keeps_def)
  note frame = settles_frame [OF s ok_m]
  obtain r where at: "ob_at m (oa_id a) = Some (claimed_row now r)"
    and n: "oa_attempts a = ob_attempts (claimed_row now r)"
    by (rule claim_effect [OF claim ok]) (auto intro: that)
  obtain q where q: "ob_at t (oa_id a) = Some q" "same_action (claimed_row now r) q"
    "outcome_row out (oa_id a) q" "unfinished (claimed_row now r)"
    using frame(5) at by auto
  have "unfinished q \<Longrightarrow> ob_attempts q \<le> 6 \<and> ob_claimed_at q = None"
    using q(2,3) retry n by (cases out) (auto simp: same_action_def unfinished_def)
  with q at show "attempts_left (oa_id a) t + 1 \<le> attempts_left (oa_id a) m"
    by (auto simp: attempts_left_def claimed_row_def same_action_def)
  show "attempts_left j t \<le> attempts_left j m" if j: "j \<noteq> oa_id a"
  proof (cases "j \<le> outbox_seq m")
    case True
    with frame(1) frame(3) [OF j True] show ?thesis by (simp add: attempts_left_def)
  next
    case False
    then show ?thesis using attempts_left_fresh_le [of m j t] ok_m frame(1) frame(4) [of j] by simp
  qed
qed

lemma written_attempts:
  assumes "other_writes d t" and "db_ok d"
  shows "attempts_left i t \<le> attempts_left i d"
proof (cases "ob_at t i")
  case None
  with assms show ?thesis
    by (cases "ob_at d i")
      (auto simp: attempts_left_def other_writes_def dest: ob_at_le)
next
  case (Some q)
  then have "case ob_at d i of Some r \<Rightarrow> row_progress r q | None \<Rightarrow> outbox_seq d < i \<and> fresh_row q"
    using assms(1) by (auto simp: other_writes_def)
  with Some show ?thesis
    by (auto simp: attempts_left_def row_progress_def fresh_row_def split: option.splits)
qed

lemma attempts_step:
  assumes "outbox_step d es t" and "db_ok d"
  shows "attempts_left i t + completed i es \<le> attempts_left i d"
  using assms
proof (induction rule: outbox_step.induct)
  case (dispatched now d a m api res call t)
  note c = claim_attempts [OF dispatched(1,3), of i]
  from dispatch_step(3) [OF dispatched(1-3)] show ?case
  proof
    assume "\<exists>out. res = Inr out \<and> settles (oa_id a) out m t \<and> db_ok t \<and>
        (\<forall>i n. out = DispatchRetryScheduled i n \<longrightarrow>
          oa_attempts a \<le> 6 \<and> now \<le> n \<and> n \<le> now + minutes 1)"
    then obtain out where out: "res = Inr out" "settles (oa_id a) out m t"
      "\<And>i n. out = DispatchRetryScheduled i n \<Longrightarrow> oa_attempts a \<le> 6" by blast
    have "attempts_left (oa_id a) t + 1 \<le> attempts_left (oa_id a) m"
      "i \<noteq> oa_id a \<Longrightarrow> attempts_left i t \<le> attempts_left i m"
      using settled_attempts [OF dispatched(1,3) out(2)] out(3) by blast+
    with c show ?case
      by (cases "i = oa_id a") (auto simp: completed_def stored_outcome_def out(1))
  qed (use c in \<open>auto simp: completed_def stored_outcome_def\<close>)
next
  case (crashed now d a m api res call t made)
  from claim_attempts [OF crashed(1,4), of i] show ?case by (simp add: completed_def)
next
  case (written d t)
  with written_attempts [of d t i] show ?case by (simp add: completed_def outbox_evolves_def)
qed

text \<open>
  C31: the worker gives up. In any run - with crashes, restarts and the writes of the other
  components between its dispatches - an action gets at most as many completed attempts as it
  has left, seven for an action that is still to be queued; and an action without attempts
  left is finished, so the worker never loops on it.
\<close>

theorem attempts_run_out:
  assumes "outbox_run d es t" and "db_ok d"
  shows "attempts_left i t + completed i es \<le> attempts_left i d
    \<and> (outbox_seq d < i \<longrightarrow> attempts_left i d = 7)
    \<and> (attempts_left i t = 0 \<longrightarrow> \<not> (\<exists>r. ob_at t i = Some r \<and> unfinished r))"
proof (intro conjI)
  show "attempts_left i t + completed i es \<le> attempts_left i d"
    using assms
  proof (induction rule: outbox_run.induct)
    case (steps d es m es' t)
    have "completed i (es @ es') = completed i es + completed i es'" by (simp add: completed_def)
    with attempts_step [OF steps.hyps(1) steps.prems, of i]
      steps.IH [OF step_ok [OF steps.hyps(1) steps.prems]]
    show ?case by linarith
  qed (simp add: completed_def)
  show "outbox_seq d < i \<longrightarrow> attempts_left i d = 7" using attempts_fresh [OF assms(2)] by blast
  show "attempts_left i t = 0 \<longrightarrow> \<not> (\<exists>r. ob_at t i = Some r \<and> unfinished r)"
    by (auto simp: attempts_left_def)
qed

subsection \<open>No message is sent twice\<close>

text \<open>Nothing more is sent for such an action: it is finished, or was lost by a crash.\<close>

definition spent :: "i64 \<Rightarrow> 'ev db \<Rightarrow> bool" where
  "spent i d \<longleftrightarrow> i \<le> outbox_seq d
     \<and> (\<forall>r. ob_at d i = Some r \<longrightarrow>
          \<not> unfinished r \<or> ob_claimed_at r \<noteq> None \<and> \<not> is_idempotent (ob_kind r))"

lemma interrupted_uncertain:
  assumes claim: "claim_due_outbox_action now d = Inr (Some a, m)"
    and run: "dispatch_next api now d = (Inr out, call, t)" and ok: "db_ok d"
    and a: "oa_interrupted a" "\<not> is_idempotent (oa_kind a)"
  shows "out = DispatchUncertain (oa_id a)"
proof -
  have "db_ok m" using staysD [OF ok_claim claim] ok by (simp add: keeps_def)
  moreover have "finish_uncertain_send a ''interrupted_send'' now m = Inr (out, t)"
    using run claim a by (auto simp: dispatch_next_def dispatch_claimed_def commit_def split: sum.splits)
  ultimately show ?thesis using finish_uncertain_send_settles(2) by blast
qed

lemma spent_claim:
  assumes "claim_due_outbox_action now d = Inr (Some a, m)" and "db_ok d" and "spent i d"
  shows "spent i m" and "oa_id a = i \<Longrightarrow> oa_interrupted a \<and> \<not> is_idempotent (oa_kind a)"
proof -
  obtain r where r: "ob_at d (oa_id a) = Some r" "due now r"
    "ob_at m = (ob_at d)(oa_id a \<mapsto> claimed_row now r)" "m = d\<lparr>outbox := outbox m\<rparr>"
    "oa_kind a = ob_kind r" "oa_interrupted a \<longleftrightarrow> ob_claimed_at r \<noteq> None"
    by (rule claim_effect [OF assms(1,2)]) (blast intro: that)
  have seq: "outbox_seq m = outbox_seq d" by (subst r(4)) simp
  show "oa_id a = i \<Longrightarrow> oa_interrupted a \<and> \<not> is_idempotent (oa_kind a)"
    using r assms(3) by (auto simp: spent_def due_def)
  show "spent i m"
    using r(1-3) assms(3) seq by (auto simp: spent_def claimed_row_def unfinished_def due_def)
qed

lemma spent_settled:
  assumes "settles j out m t" and "db_ok m" and "spent i m"
    and "j = i \<Longrightarrow> out = DispatchUncertain i"
  shows "spent i t"
proof -
  note frame = settles_frame [OF assms(1,2)]
  show ?thesis
  proof (cases "j = i")
    case True
    with frame(5) assms(4) obtain q where "ob_at t i = Some q" "ob_status q = OutUncertain"
      by auto
    with frame(1) assms(3) show ?thesis by (auto simp: spent_def unfinished_def)
  next
    case False
    with frame(3) [of i] frame(1) assms(3) show ?thesis by (auto simp: spent_def)
  qed
qed

lemma spent_step:
  assumes "outbox_step d es t" and "db_ok d" and "spent i d"
  shows "spent i t \<and> (\<forall>e \<in> set es. \<forall>c out. e \<noteq> Attempt i (Some c) out)"
  using assms
proof (induction rule: outbox_step.induct)
  case (dispatched now d a m api res call t)
  note claim = spent_claim [OF dispatched(1,3,4)] and step = dispatch_step [OF dispatched(1-3)]
  have ok_m: "db_ok m" using staysD [OF ok_claim dispatched(1)] dispatched(3) by (simp add: keeps_def)
  have "oa_id a = i \<Longrightarrow> call = None" using claim(2) step(1) by blast
  moreover have "spent i t"
    using step(3)
  proof (elim disjE exE conjE)
    fix out
    assume out: "res = Inr out" "settles (oa_id a) out m t"
    show ?thesis
      using interrupted_uncertain [OF dispatched(1) _ dispatched(3)] dispatched(2) claim out
      by (intro spent_settled [OF out(2) ok_m claim(1)]) blast
  qed (use claim(1) in simp)
  ultimately show ?case by auto
next
  case (crashed now d a m api res call t made)
  note claim = spent_claim [OF crashed(1,4,5)] and step = dispatch_step [OF crashed(1,2,4)]
  have "oa_id a = i \<Longrightarrow> made = None" using claim(2) step(1) crashed(3) by blast
  with claim(1) show ?case by auto
next
  case (written d t)
  then have w: "other_writes d t" by (simp add: outbox_evolves_def)
  have "spent i t"
    unfolding spent_def
  proof (intro conjI allI impI)
    show "i \<le> outbox_seq t" using w written(3) by (auto simp: other_writes_def spent_def)
    fix q assume q: "ob_at t i = Some q"
    with w have "case ob_at d i of Some r \<Rightarrow> row_progress r q | None \<Rightarrow> outbox_seq d < i \<and> fresh_row q"
      by (auto simp: other_writes_def)
    with written(3) obtain r where "ob_at d i = Some r" "row_progress r q"
      by (cases "ob_at d i") (auto simp: spent_def)
    with written(3)
    show "\<not> unfinished q \<or> ob_claimed_at q \<noteq> None \<and> \<not> is_idempotent (ob_kind q)"
      by (auto simp: spent_def row_progress_def)
  qed
  then show ?case by simp
qed

lemma lost_spent:
  assumes "outbox_step d [Attempt i (Some (SendMessageCall b h x)) out] t" and "db_ok d"
    and "\<And>n. out \<noteq> Some (DispatchRetryScheduled i n)"
  shows "spent i t"
  using assms(1)
proof (cases rule: outbox_step.cases)
  case (dispatched now a m api res)
  then have d1: "claim_due_outbox_action now d = Inr (Some a, m)"
    and d2: "dispatch_next api now d = (res, Some (SendMessageCall b h x), t)"
    and i: "i = oa_id a" and o: "out = stored_outcome res" by simp_all
  have ok_m: "db_ok m" using staysD [OF ok_claim d1] assms(2) by (simp add: keeps_def)
  note step = dispatch_step [OF d1 d2 assms(2)]
  from step(2) have kind: "\<not> is_idempotent (oa_kind a)"
    using request_idempotent [of api a m "fst (execute api a m)"]
    by (metis option.distinct(1) prod.collapse)
  obtain r where r: "oa_kind a = ob_kind r" "ob_at m (oa_id a) = Some (claimed_row now r)"
    by (rule claim_effect [OF d1 assms(2)]) (auto intro: that)
  from step(3) show ?thesis
  proof (elim disjE exE conjE)
    fix o'
    assume s: "res = Inr o'" "settles (oa_id a) o' m t" "db_ok t"
    from settles_frame(5) [OF s(2) ok_m] obtain q where q: "ob_at t (oa_id a) = Some q"
      "outcome_row o' (oa_id a) q" by blast
    have "\<not> unfinished q"
      using q(2) assms(3) o s(1) i
      by (cases o') (auto simp: unfinished_def stored_outcome_def)
    with q(1) s(3) i ob_at_le show ?thesis by (auto simp: spent_def)
  next
    fix e
    assume "res = Inl e" and "t = m"
    with r kind i ok_m ob_at_le show ?thesis by (fastforce simp: spent_def claimed_row_def)
  qed
next
  case (crashed now a api res call u)
  then have c1: "claim_due_outbox_action now d = Inr (Some a, t)"
    and c2: "dispatch_next api now d = (res, Some (SendMessageCall b h x), u)"
    and i: "i = oa_id a" by auto
  have ok_t: "db_ok t" using staysD [OF ok_claim c1] assms(2) by (simp add: keeps_def)
  from dispatch_step(2) [OF c1 c2 assms(2)]
  have kind: "\<not> is_idempotent (oa_kind a)"
    using request_idempotent [of api a t "fst (execute api a t)"]
    by (metis option.distinct(1) prod.collapse)
  obtain r where r: "oa_kind a = ob_kind r" "ob_at t (oa_id a) = Some (claimed_row now r)"
    by (rule claim_effect [OF c1 assms(2)]) (auto intro: that)
  with kind i ok_t ob_at_le show ?thesis by (fastforce simp: spent_def claimed_row_def)
qed

text \<open>
  C6: a message is not sent again once its outcome is lost. In any run, after an attempt to send
  a message - a challenge, an alert or a private message - that crashed, failed to be stored
  or ended in anything but a scheduled retry, no later attempt of that action calls Telegram.
\<close>

theorem lost_send_never_repeated:
  assumes "outbox_run d (es @ Attempt i (Some (SendMessageCall b h x)) out # es') t" and "db_ok d"
    and "\<And>n. out \<noteq> Some (DispatchRetryScheduled i n)"
  shows "\<forall>e \<in> set es'. \<forall>c out'. e \<noteq> Attempt i (Some c) out'"
proof -
  obtain m n where step: "outbox_step m [Attempt i (Some (SendMessageCall b h x)) out] n"
    and run: "outbox_run n es' t" and ok: "db_ok m"
    using run_split [OF assms(1) refl assms(2)] by blast
  from run lost_spent [OF step ok assms(3)] step_ok [OF step ok] show ?thesis
    by (rule run_always [where I = "spent i"]) (use spent_step in blast)
qed

end
