(* ===== verification/Outbox_Correctness.thy ===== *)
theory Outbox_Correctness
  imports Outbox_Runs
begin

section \<open>Properties of a dispatch\<close>

text \<open>
  What one call of \<open>dispatch_next\<close> may send, what it does to the queue, how long it may delay a
  retry, and an action it cannot get past; with the witnesses of the properties of runs.
\<close>

subsection \<open>Authorization\<close>

text \<open>The connection a call acts for, and the right it needs.\<close>

fun call_right :: "api_call \<Rightarrow> (string \<times> required_right) option" where
  "call_right (SendMessageCall None _ _) = None"
| "call_right (SendMessageCall (Some cid) _ _) = Some (cid, RightReply)"
| "call_right (EditMessageCall cid _ _ _) = Some (cid, RightReply)"
| "call_right (ReadMessageCall cid _ _) = Some (cid, RightRead)"
| "call_right (DeleteMessagesCall cid _) = Some (cid, RightDeleteAll)"

fun grants :: "rights \<Rightarrow> required_right \<Rightarrow> bool" where
  "grants r RightReply = can_reply r"
| "grants r RightRead = can_read_messages r"
| "grants r RightDeleteAll = can_delete_all_messages r"

lemma ensure_right_Inr:
  assumes "ensure_right cid right d = Inr ()"
  obtains b r where "find_business_connection cid d = Inr (Some b, d)" and "bc_enabled b"
    and "decode_rights False False (bc_rights_json b) = Some r" and "grants r right"
  using assms readsD [OF repository_reads(9)]
  by (cases right)
    (fastforce simp: ensure_right_def result_then_def read_tx_def
      split: sum.splits option.splits if_splits)+

lemma execute_right:
  assumes "execute api a d = (r, Some call)" and "call_right call = Some (cid, right)"
  shows "\<exists>key. oa_key a = Some key \<and> connection_id key = cid \<and> ensure_right cid right d = Inr ()"
  using assms
  by (cases "oa_kind a")
    (auto simp: execute_def action_request_def challenge_request_def edit_request_def
      read_request_def delete_request_def owner_message_request_def private_message_request_def
      required_key_def ok_or_def result_then_def split: sum.splits option.splits if_splits)

lemma ready_single_owner:
  assumes "is_ready now d" and "find_business_connection cid d = Inr (Some b, d)"
  shows "connections d = [b] \<and> bc_connection_id b = cid \<and> confirmed b
    \<and> tr_state (reconciliation d) = GlobalReady
    \<and> (\<exists>chat src floor at. owner d = OwnerReady (Claimed (bc_owner_user_id b) chat src floor at))"
proof -
  obtain h t where "classify_readiness_in now d = Inr (h, t)"
    using assms(1) by (auto simp: is_ready_def split: sum.splits)
  then obtain i trusted g cs where ready: "tr_state (reconciliation d) = GlobalReady"
    and own: "owner d = OwnerReady i" and single: "load_single_trusted_connection d = Inr (trusted, d)"
    and h: "health_of i trusted g (filter (\<lambda>c. now - CANDIDATE_RETENTION \<le> cc_observed_at c) cs) = Inr h"
    by (rule readiness_Inr)
  have b: "b \<in> set (connections d)" "bc_connection_id b = cid" "confirmed b"
    using assms(2) ready
    by (auto simp: find_business_connection_def load_telegram_reconciliation_state_def op_success
        decode_optional_def decode_business_connection_def
        split: option.splits sum.splits if_splits dest!: find_row_SomeD)
  then obtain c where c: "trusted = Some c" "connections d = [c]"
    using single_trusted_Inr(2,3) [OF single] by (cases trusted) auto
  with b(1) have "c = b" by simp
  with c h own show ?thesis
    using b ready
    by (cases i) (auto simp: health_of_def trusted_health_def split: if_splits sum.splits)
qed

text \<open>
  C13: nothing is sent through a business connection without permission. When a dispatch calls
  Telegram for a connection, the program is ready: that connection is the only one stored, it
  is confirmed, enabled and owned by the claimed owner, and its stored rights grant the right
  the call needs.
\<close>

theorem business_call_authorized:
  assumes "dispatch_next api now d = (res, Some call, t)" and "db_ok d"
    and "call_right call = Some (cid, right)"
  shows "\<exists>b r chat src floor at.
      connections d = [b] \<and> bc_connection_id b = cid \<and> confirmed b \<and> bc_enabled b
    \<and> decode_rights False False (bc_rights_json b) = Some r \<and> grants r right
    \<and> owner d = OwnerReady (Claimed (bc_owner_user_id b) chat src floor at)
    \<and> tr_state (reconciliation d) = GlobalReady"
proof -
  obtain a m where claim: "claim_due_outbox_action now d = Inr (Some a, m)"
    using assms(1)
    by (auto simp: dispatch_next_def commit_def split: sum.splits option.splits prod.splits)
  have exec: "snd (execute api a m) = Some call"
    using dispatch_step(2) [OF claim assms(1,2)] by simp
  then obtain key where key: "oa_key a = Some key" "ensure_right cid right m = Inr ()"
    using execute_right [of api a m "fst (execute api a m)" call] assms(3)
    by (metis prod.collapse)
  obtain r0 where r0: "is_ready now d \<or> private_kind r0" "map_option connection_id (oa_key a) = ob_connection_id r0"
    and m: "m = d\<lparr>outbox := outbox m\<rparr>"
    by (rule claim_effect [OF claim assms(2)]) (blast intro: that)
  have ready: "is_ready now d" using r0 key(1) by (auto simp: private_kind_def)
  obtain b r where b: "find_business_connection cid m = Inr (Some b, m)" "bc_enabled b"
    "decode_rights False False (bc_rights_json b) = Some r" "grants r right"
    by (rule ensure_right_Inr [OF key(2)])
  have "find_business_connection cid (d\<lparr>outbox := q\<rparr>) = Inr (x, d\<lparr>outbox := q\<rparr>)
      \<Longrightarrow> find_business_connection cid d = Inr (x, d)" for q x
    by (auto simp: find_business_connection_def load_telegram_reconciliation_state_def op_defs
        split: sum.splits if_splits)
  then have "find_business_connection cid d = Inr (Some b, d)" using b(1) m by metis
  with ready_single_owner [OF ready this] b(2-4) show ?thesis by blast
qed

subsection \<open>The queue\<close>

lemma claim_None_iff: "claim_due_outbox_action now d = Inr (None, t) \<longleftrightarrow> next_due now d = None \<and> t = d"
  by (auto simp: claim_due_outbox_action_def Let_def split: option.splits sum.splits)

text \<open>
  C32: a dispatch settles exactly the oldest action that is due. Either nothing is due and
  nothing happens; or the row of that action takes the status the outcome names, every other
  row stays as it was, at most one alert is queued behind them, and a retry is scheduled within
  the next minute.
\<close>

theorem dispatch_settles:
  assumes "dispatch_next api now d = (Inr out, call, t)" and "db_ok d"
  shows "out = DispatchIdle \<and> next_due now d = None \<and> call = None \<and> t = d
    \<or> (\<exists>r q. next_due now d = Some r \<and> ob_at t (ob_id r) = Some q \<and> outcome_row out (ob_id r) q
        \<and> (\<forall>j \<le> outbox_seq d. j \<noteq> ob_id r \<longrightarrow> ob_at t j = ob_at d j)
        \<and> outbox_seq d \<le> outbox_seq t \<and> outbox_seq t \<le> outbox_seq d + 1
        \<and> (\<forall>n. out = DispatchRetryScheduled (ob_id r) n \<longrightarrow> now \<le> n \<and> n \<le> now + minutes 1))"
proof -
  consider "claim_due_outbox_action now d = Inr (None, t)" "out = DispatchIdle" "call = None"
    | a m where "claim_due_outbox_action now d = Inr (Some a, m)"
    using assms(1)
    by (auto simp: dispatch_next_def commit_def split: sum.splits option.splits prod.splits)
  then show ?thesis
  proof cases
    case 1
    then show ?thesis by (simp add: claim_None_iff)
  next
    case 2
    have ok_m: "db_ok m" using staysD [OF ok_claim 2] assms(2) by (simp add: keeps_def)
    obtain r where r: "next_due now d = Some r" "oa_id a = ob_id r"
      "ob_at m = (ob_at d)(oa_id a \<mapsto> claimed_row now r)" and m: "m = d\<lparr>outbox := outbox m\<rparr>"
      by (rule claim_effect [OF 2 assms(2)]) (blast intro: that)
    have seq: "outbox_seq m = outbox_seq d" by (subst m) simp
    have s: "settles (oa_id a) out m t"
      and retry: "\<forall>n. out = DispatchRetryScheduled (ob_id r) n \<longrightarrow> now \<le> n \<and> n \<le> now + minutes 1"
      using dispatch_step(3) [OF 2 assms] by auto
    note frame = settles_frame [OF s ok_m]
    obtain q where q: "ob_at t (ob_id r) = Some q" "outcome_row out (ob_id r) q"
      using frame(5) r(2) by auto
    have "\<forall>j \<le> outbox_seq d. j \<noteq> ob_id r \<longrightarrow> ob_at t j = ob_at d j"
      using frame(3) r(2,3) seq by auto
    with r(1) q frame(1,2) retry seq show ?thesis by auto
  qed
qed

subsection \<open>An action the worker cannot get past\<close>

lemma next_due_iff:
  assumes "db_ok d"
  shows "next_due now d = Some r \<longleftrightarrow>
    ob_at d (ob_id r) = Some r \<and> due now r \<and> (is_ready now d \<or> private_kind r)
    \<and> (\<forall>q \<in> set (outbox d). due now q \<and> (is_ready now d \<or> private_kind q) \<longrightarrow> ob_id r \<le> ob_id q)"
    (is "_ \<longleftrightarrow> ?least r")
proof
  assume "next_due now d = Some r"
  from next_due_Some [OF this] show "?least r" using assms by (auto simp: ob_at_iff)
next
  assume r: "?least r"
  then have "r \<in> set (filter (\<lambda>r. due now r \<and> (is_ready now d \<or> private_kind r)) (outbox d))"
    using assms by (simp add: ob_at_iff)
  then have "sort_key ob_id (filter (\<lambda>r. due now r \<and> (is_ready now d \<or> private_kind r)) (outbox d)) \<noteq> []"
    by (metis empty_iff list.set(1) set_sort)
  then obtain q where q: "next_due now d = Some q"
    by (auto simp: next_due_def Let_def neq_Nil_conv split: list.splits)
  from next_due_Some [OF q] r assms have "ob_id q = ob_id r" "q \<in> set (outbox d)"
    by (auto simp: ob_at_iff intro: antisym)
  with r assms have "q = r" by (simp add: ob_at_iff) (metis ob_at_iff option.inject assms)
  with q show "next_due now d = Some r" by simp
qed

text \<open>A read whose result does not depend on the outbox.\<close>

definition blind :: "('ev db, 'e, 'a) op \<Rightarrow> bool" where
  "blind m \<longleftrightarrow> reads m \<and> (\<forall>d q. map_sum id fst (m (d\<lparr>outbox := q\<rparr>)) = map_sum id fst (m d))"

lemma blind_and_then:
  assumes "blind m" and "\<And>x. blind (f x)"
  shows "blind (and_then m f)"
  unfolding blind_def
proof (intro conjI allI)
  show "reads (and_then m f)" using assms by (intro reads_and_then) (auto simp: blind_def)
  fix d q
  have m: "map_sum id fst (m (d\<lparr>outbox := q\<rparr>)) = map_sum id fst (m d)"
    and f: "\<And>x. map_sum id fst (f x (d\<lparr>outbox := q\<rparr>)) = map_sum id fst (f x d)"
    using assms by (auto simp: blind_def)
  have "reads m" using assms(1) by (simp add: blind_def)
  note keep = readsD [OF this]
  show "map_sum id fst (and_then m f (d\<lparr>outbox := q\<rparr>)) = map_sum id fst (and_then m f d)"
    using m f keep [of d] keep [of "d\<lparr>outbox := q\<rparr>"]
    by (cases "m d"; cases "m (d\<lparr>outbox := q\<rparr>)") (auto simp: and_then_def)
qed

lemma blind_basic:
  "blind (ret x)" "blind (fail e)" "blind (lift_result r)"
  "blind m \<Longrightarrow> blind n \<Longrightarrow> blind (if b then m else n)"
  by (auto simp: blind_def reads_def op_defs split: sum.splits)

lemma blind_loads:
  "blind load_telegram_reconciliation_state" "blind load_owner_identity"
  "blind load_single_trusted_connection" "blind list_connection_candidates"
  "blind load_candidate_guard"
  unfolding blind_def using repository_reads(8,12) reads_load_owner(2) reads_candidates
  by (auto simp: load_telegram_reconciliation_state_def
      load_owner_identity_def load_owner_lifecycle_state_def load_single_trusted_connection_def
      list_connection_candidates_def load_candidate_guard_def op_defs
      split: sum.split owner_row.split)

lemma ready_ignores_outbox [simp]: "is_ready now (d\<lparr>outbox := q\<rparr>) = is_ready now d"
proof -
  have "blind (classify_readiness_in now :: ('a, _) sop)"
    unfolding classify_readiness_in_def by (intro blind_and_then blind_basic blind_loads)
  then have "map_sum id fst (classify_readiness_in now (d\<lparr>outbox := q\<rparr>))
      = map_sum id fst (classify_readiness_in now d)" by (simp add: blind_def)
  then show ?thesis by (auto simp: is_ready_def split: sum.splits)
qed

definition orphan :: "timestamp \<Rightarrow> database \<Rightarrow> bool" where
  "orphan now d \<longleftrightarrow> db_ok d
     \<and> (\<exists>r cid chat. next_due now d = Some r \<and> ob_connection_id r = Some cid \<and> ob_chat_id r = Some chat
          \<and> ob_kind r \<in> {EditChallenge, ReadBusinessMessage, DeleteBusinessMessages}
          \<and> cid \<notin> bc_connection_id ` set (connections d))"

lemma no_connection_no_right:
  assumes "cid \<notin> bc_connection_id ` set (connections d)"
  shows "ensure_right cid right d = Inl RightsUnavailable"
proof -
  have "find_row (\<lambda>b. bc_connection_id b = cid \<and> p b) (connections d) = None" for p
    using assms by (auto simp: find_row_None_iff)
  then show ?thesis
    by (auto simp: ensure_right_def find_business_connection_def result_then_def read_tx_def op_defs
        load_telegram_reconciliation_state_def decode_optional_def)
qed

lemma orphan_fails:
  assumes "connection_id key \<notin> bc_connection_id ` set (connections d)" and "oa_key a = Some key"
  shows "finish_permanent a code True now d = Inl (DispatchStorage ConcurrentModification)"
proof -
  have gone: "count_where (\<lambda>b. bc_connection_id b = connection_id key) (connections d) = 0"
    using assms(1) by (force simp: count_where_0_iff)
  then show ?thesis
    by (auto simp: finish_permanent_def mark_outbox_permanent_failure_def set_outbox_terminal_def
        disable_business_connection_def update_one_def op_defs assms(2))
qed

lemma orphan_step:
  assumes "orphan now d"
  obtains t where "dispatch_next api now d = (Inl (DispatchStorage ConcurrentModification), None, t)"
    and "orphan now t"
proof -
  obtain r cid chat where ok: "db_ok d" and r: "next_due now d = Some r"
    and key: "ob_connection_id r = Some cid" "ob_chat_id r = Some chat"
    and kind: "ob_kind r \<in> {EditChallenge, ReadBusinessMessage, DeleteBusinessMessages}"
    and gone: "cid \<notin> bc_connection_id ` set (connections d)"
    using assms by (auto simp: orphan_def)
  show thesis
  proof (cases "claim_due_outbox_action now d")
    case (Inl e)
    then have "e = ConcurrentModification"
      using r key by (auto simp: claim_due_outbox_action_def Let_def update_one_def decode_outbox_def
          split: sum.splits if_splits)
    with Inl have "dispatch_next api now d = (Inl (DispatchStorage ConcurrentModification), None, d)"
      by (simp add: dispatch_next_def commit_def)
    with assms show thesis by (rule that [rotated])
  next
    case (Inr am)
    obtain a m where claim: "claim_due_outbox_action now d = Inr (Some a, m)"
      using Inr r claim_None_iff [of now d] by (cases am; cases "fst am") auto
    obtain r' where e: "next_due now d = Some r'" "oa_id a = ob_id r'" "oa_kind a = ob_kind r'"
      "ob_at m = (ob_at d)(oa_id a \<mapsto> claimed_row now r')" "due now r'"
      "is_ready now d \<or> private_kind r'"
      and m: "m = d\<lparr>outbox := outbox m\<rparr>"
      by (rule claim_effect [OF claim ok]) (blast intro: that)
    have [simp]: "r' = r" using e(1) r by simp
    have ok_m: "db_ok m" using staysD [OF ok_claim claim] ok by (simp add: keeps_def)
    have con: "connections m = connections d" by (subst m) simp
    have akey: "oa_key a = Some \<lparr>connection_id = cid, chat_id = chat\<rparr>"
      using claim r key
      by (auto simp: claim_due_outbox_action_def Let_def decode_outbox_def split: sum.splits)
    have "action_request a m = Inl RightsUnavailable"
      using kind e(3) no_connection_no_right [of cid m] gone con
      by (auto simp: action_request_def edit_request_def read_request_def delete_request_def
          required_key_def akey ok_or_def result_then_def)
    then have exec: "execute api a m = (Inl RightsUnavailable, None)" by (simp add: execute_def)
    have "is_idempotent (oa_kind a)" using kind e(3) by auto
    moreover have "finish_permanent a ''business_rights_unavailable'' True now m
      = Inl (DispatchStorage ConcurrentModification)"
      using gone con akey by (intro orphan_fails) auto
    ultimately have run: "dispatch_next api now d
        = (Inl (DispatchStorage ConcurrentModification), None, m)"
      using claim exec
      by (simp add: dispatch_next_def commit_def dispatch_claimed_def finish_execution_def)
    have "next_due now m = Some (claimed_row now r)"
    proof (subst next_due_iff [OF ok_m], intro conjI ballI impI)
      show "ob_at m (ob_id (claimed_row now r)) = Some (claimed_row now r)"
        using e(2,4) by (simp add: claimed_row_def)
      show "due now (claimed_row now r)" using e(5) by (simp add: claimed_row_def due_def unfinished_def)
      have ready: "is_ready now m = is_ready now d" by (subst m) (rule ready_ignores_outbox)
      then show "is_ready now m \<or> private_kind (claimed_row now r)"
        using e(6) by (simp add: claimed_row_def private_kind_def)
      fix q assume q: "q \<in> set (outbox m)" "due now q \<and> (is_ready now m \<or> private_kind q)"
      then have at: "ob_at m (ob_id q) = Some q" using ok_m by (simp add: ob_at_iff)
      show "ob_id (claimed_row now r) \<le> ob_id q"
      proof (cases "ob_id q = ob_id r")
        case False
        with at e(2,4) have "ob_at d (ob_id q) = Some q" by simp
        with ok have "q \<in> set (outbox d)" by (simp add: ob_at_iff)
        with next_due_Some(4) [OF r] q(2) ready show ?thesis by (auto simp: claimed_row_def)
      qed (simp add: claimed_row_def)
    qed
    then have "orphan now m"
      unfolding orphan_def using ok_m key kind gone con
      by (intro conjI exI [of _ "claimed_row now r"] exI [of _ cid] exI [of _ chat])
        (auto simp: claimed_row_def)
    with run show thesis by (rule that)
  qed
qed


subsection \<open>Witnesses\<close>

text \<open>A store with one queued action.\<close>

definition queued_db ::
  "business_connection_record list \<Rightarrow> conversation_key option \<Rightarrow> outbox_action_kind \<Rightarrow> json \<Rightarrow> database" where
  "queued_db cs key kind payload =
     sample_db\<lparr>connections := cs,
       conversations := (if cs = [] then [] else conversations sample_db),
       challenges := (if cs = [] then [] else challenges sample_db),
       outbox := [outbox_row_of \<lparr>no_source_update_id = 5, no_key = key, no_kind = kind,
         no_payload = Some payload, no_idempotency_key = lit ''k'', no_created_at = 0\<rparr> 1],
       outbox_seq := 1\<rparr>"

definition sample_connections :: "business_connection_record list" where
  "sample_connections = map (\<lambda>b. b\<lparr>bc_rights_json := Some (rights_json \<lparr>can_reply = True,
     can_read_messages = True, can_delete_sent_messages = True, can_delete_all_messages = True\<rparr>)\<rparr>)
     (connections sample_db)"

lemma queued_ok: "cs = [] \<or> cs = sample_connections \<Longrightarrow> db_ok (queued_db cs key kind p)"
  by (auto simp: queued_db_def ok_defs sample_db_def sample_connections_def sample_key_def
      open_challenge_def attempts_ok_def outbox_row_of_def update_row_of_def sample_event_def
      sample_event_with_def)

definition read_db :: database where
  "read_db = queued_db sample_connections (Some sample_key) ReadBusinessMessage
     (JObj [(''message_id'', JNum 70)])"

definition setup_db :: database where
  "setup_db = queued_db [] None SendPrivateMessage
     (JObj [(''chat_id'', JNum 9), (''message_kind'', jstr ''OWNER_SETUP_GUIDE'')])"

abbreviation answering :: business_api where
  "answering \<equiv> \<lambda>_. Inr 0"

lemma read_ready: "is_ready 100 read_db"
  by (simp add: is_ready_def classify_readiness_in_def read_db_def queued_db_def sample_db_def
      sample_connections_def op_defs load_telegram_reconciliation_state_def load_owner_identity_def
      load_owner_lifecycle_state_def load_single_trusted_connection_def single_row_def
      list_connection_candidates_def load_candidate_guard_def decode_optional_def
      decode_business_connection_def trim_def trim_start_def trim_end_def is_whitespace_def
      health_of_def trusted_health_def confirmed_def decode_rights_def rights_json_def
      rights_fields_def struct_fields_def object_field_def)

lemma read_next: "next_due 100 read_db = Some (hd (outbox read_db))"
  using read_ready
  by (simp add: next_due_def read_db_def queued_db_def outbox_row_of_def due_def unfinished_def)

lemma read_runs: "fst (snd (dispatch_next answering 100 read_db)) = Some (ReadMessageCall ''bc'' 7 70)"
  by (simp add: dispatch_next_def commit_def claim_due_outbox_action_def read_next)
    (simp add: read_db_def queued_db_def sample_db_def sample_key_def update_one_def count_where_def
      outbox_row_of_def decode_outbox_def dispatch_claimed_def execute_def action_request_def
      read_request_def required_key_def ok_or_def result_then_def ensure_right_def read_tx_def
      find_business_connection_def load_telegram_reconciliation_state_def op_defs
      sample_connections_def find_row_def confirmed_def decode_optional_def
      decode_business_connection_def trim_def trim_start_def trim_end_def is_whitespace_def
      decode_rights_def rights_json_def rights_fields_def struct_fields_def object_field_def
      parse_payload_def read_payload_def payload_fields_def payload_field_of_def
      required_field_def number_of_json_def is_i64_def split: prod.split)

theorem business_call_authorized_witness:
  "\<exists>b r. connections read_db = [b] \<and> bc_enabled b
     \<and> decode_rights False False (bc_rights_json b) = Some r \<and> can_read_messages r"
proof -
  obtain res t where "dispatch_next answering 100 read_db
      = (res, Some (ReadMessageCall ''bc'' 7 70), t)"
    using read_runs by (metis prod.collapse)
  moreover have "db_ok read_db" unfolding read_db_def by (intro queued_ok) simp
  ultimately show ?thesis
    using business_call_authorized [of answering 100 read_db res "ReadMessageCall ''bc'' 7 70" t
      "''bc''" RightRead] by auto
qed

lemma setup_ok: "db_ok setup_db"
  unfolding setup_db_def by (intro queued_ok) simp

lemma setup_due: "map_option ob_id (next_due 100 setup_db) = Some 1"
  by code_simp

lemma setup_fails:
  "fst (dispatch_next (\<lambda>_. Inl TgTransport) 100 setup_db)
   = Inr (DispatchRetryScheduled 1 (100 + seconds 1))"
  by code_simp

theorem dispatch_settles_witness:
  "\<exists>t :: database. \<exists>q. ob_at t 1 = Some q \<and> ob_status q = OutRetry \<and> ob_next_attempt_at q = Some (100 + seconds 1)"
proof -
  obtain call t where "dispatch_next (\<lambda>_. Inl TgTransport) 100 setup_db
      = (Inr (DispatchRetryScheduled 1 (100 + seconds 1)), call, t)"
    using setup_fails by (metis prod.collapse)
  from dispatch_settles [OF this setup_ok] setup_due
  obtain q where "ob_at t 1 = Some q" "outcome_row (DispatchRetryScheduled 1 (100 + seconds 1)) 1 q"
    by auto
  then show ?thesis by (intro exI [of _ t] exI [of _ q]) simp
qed


definition setup_send :: api_call where
  "setup_send = SendMessageCall None 9 (private_message_text OwnerSetupGuide)"

lemma setup_crash:
  obtains a m where "claim_due_outbox_action 100 setup_db = Inr (Some a, m)" and "oa_id a = 1"
    and "fst (snd (dispatch_next answering 100 setup_db)) = Some setup_send"
    and "fst (dispatch_next answering 200 m) = Inr (DispatchUncertain 1)"
    and "map_sum id (map_option oa_id \<circ> fst) (claim_due_outbox_action 200 m) = Inr (Some 1)"
    and "fst (snd (dispatch_next answering 200 m)) = None"
proof -
  have "case claim_due_outbox_action 100 setup_db of Inl _ \<Rightarrow> False | Inr (None, _) \<Rightarrow> False
    | Inr (Some a, m) \<Rightarrow> oa_id a = 1
       \<and> fst (snd (dispatch_next answering 100 setup_db)) = Some setup_send
       \<and> fst (dispatch_next answering 200 m) = Inr (DispatchUncertain 1)
       \<and> map_sum id (map_option oa_id \<circ> fst) (claim_due_outbox_action 200 m) = Inr (Some 1)
       \<and> fst (snd (dispatch_next answering 200 m)) = None"
    by code_simp
  then show thesis by (auto split: sum.splits option.splits intro: that)
qed

lemma setup_run:
  "\<exists>t. outbox_run setup_db ([] @ Attempt 1 (Some setup_send) None
     # [Attempt 1 None (Some (DispatchUncertain 1))]) t"
proof -
  obtain a m where a: "claim_due_outbox_action 100 setup_db = Inr (Some a, m)" "oa_id a = 1"
    and sent: "fst (snd (dispatch_next answering 100 setup_db)) = Some setup_send"
    and out: "fst (dispatch_next answering 200 m) = Inr (DispatchUncertain 1)"
    and again: "map_sum id (map_option oa_id \<circ> fst) (claim_due_outbox_action 200 m) = Inr (Some 1)"
    and silent: "fst (snd (dispatch_next answering 200 m)) = None"
    by (rule setup_crash)
  obtain b n where b: "claim_due_outbox_action 200 m = Inr (Some b, n)" "oa_id b = 1"
    using again by (cases "claim_due_outbox_action 200 m") auto
  have s1: "outbox_step setup_db [Attempt (oa_id a) (Some setup_send) None] m"
    using sent by (intro crashed [OF a(1), of answering "fst (dispatch_next answering 100 setup_db)"
      "Some setup_send" "snd (snd (dispatch_next answering 100 setup_db))"])
      (auto simp: prod_eq_iff)
  have s2: "outbox_step m [Attempt (oa_id b) None (stored_outcome (Inr (DispatchUncertain 1)
      :: dispatch_error + dispatch_outcome))] (snd (snd (dispatch_next answering 200 m)))"
    using out silent by (intro dispatched [OF b(1), of answering]) (auto simp: prod_eq_iff)
  show ?thesis
    using steps [OF s1 steps [OF s2 finished]] a(2) b(2) by (auto simp: stored_outcome_def)
qed

theorem attempts_run_out_witness:
  "\<exists>t. outbox_run setup_db [Attempt 1 (Some setup_send) None,
       Attempt 1 None (Some (DispatchUncertain 1))] t
     \<and> attempts_left 1 t + 1 \<le> attempts_left 1 setup_db"
  using setup_run attempts_run_out [OF _ setup_ok, of _ _ 1] by (fastforce simp: completed_def)

theorem lost_send_never_repeated_witness:
  "\<exists>t. outbox_run setup_db ([] @ Attempt 1 (Some (SendMessageCall None 9
      (private_message_text OwnerSetupGuide))) None # [Attempt 1 None (Some (DispatchUncertain 1))]) t
    \<and> (\<forall>c out. Attempt 1 None (Some (DispatchUncertain 1)) \<noteq> Attempt 1 (Some c) out)"
proof -
  obtain t where run: "outbox_run setup_db ([] @ Attempt 1 (Some (SendMessageCall None 9
      (private_message_text OwnerSetupGuide))) None # [Attempt 1 None (Some (DispatchUncertain 1))]) t"
    using setup_run by (auto simp: setup_send_def)
  from lost_send_never_repeated [OF run setup_ok]
  have "\<forall>c out. Attempt 1 None (Some (DispatchUncertain 1)) \<noteq> Attempt 1 (Some c) out" by simp
  with run show ?thesis by blast
qed

end
