(* ===== verification/Retention_Service.thy ===== *)
theory Retention_Service
  imports Outbox_Runs
begin

section \<open>Retention\<close>

text \<open>
  Models \<open>src/retention/service.rs\<close>: the expiry of challenges and temporary blocks, and the
  purge of old ledger rows, audit events, finished actions and processed updates. Each of the
  two runs in one transaction; the clock is an argument.
\<close>

subsection \<open>Expiry\<close>

record expiry_report =
  xr_expired_challenges :: int
  xr_expired_temporary_blocks :: int

record purge_report =
  pr_ledger_messages :: int
  pr_audit_events :: int
  pr_outbox_actions :: int
  pr_processed_updates :: int

definition purge_total :: "purge_report \<Rightarrow> int" where
  "purge_total r = pr_ledger_messages r + pr_audit_events r + pr_outbox_actions r
     + pr_processed_updates r"

datatype retention_error = RetentionStorage storage_error | RetentionSerialization

type_synonym 'a rop = "(database, retention_error, 'a) op"

abbreviation rst :: "(database, storage_error, 'a) op \<Rightarrow> 'a rop" where
  "rst m \<equiv> map_err RetentionStorage m"

definition due_challenges :: "timestamp \<Rightarrow> 'ev db \<Rightarrow> challenge_row list" where
  "due_challenges now d =
     sort_key ch_id (filter (\<lambda>c. open_challenge c \<and> ch_expires_at c \<le> now) (challenges d))"

text \<open>
  \<open>json_extract(payload_json, '$.challenge_id') = ?\<close>: a number, where true is one and false
  is zero; the first of repeated keys.
\<close>

definition payload_names :: "i64 \<Rightarrow> json \<Rightarrow> bool" where
  "payload_names i v =
     (case v of
        JObj fs \<Rightarrow>
          (case map_of fs ''challenge_id'' of
             Some (JNum n) \<Rightarrow> n = i
           | Some (JBool b) \<Rightarrow> (if b then 1 else 0) = i
           | _ \<Rightarrow> False)
      | _ \<Rightarrow> False)"

text \<open>The scan in the order of the identifiers stops at the first match, or at unreadable JSON.\<close>

fun first_source :: "i64 \<Rightarrow> outbox_row list \<Rightarrow> storage_error + i64 option" where
  "first_source i [] = Inr None"
| "first_source i (r # rs) =
     (if ob_kind r \<noteq> SendChallenge then first_source i rs
      else
        (case ob_payload r of
           None \<Rightarrow> Inl (Database MalformedJson)
         | Some v \<Rightarrow> if payload_names i v then Inr (Some (ob_source_update_id r))
                     else first_source i rs))"

definition enqueue_expiry_edit :: "challenge_row \<Rightarrow> timestamp \<Rightarrow> unit rop" where
  "enqueue_expiry_edit c now =
     and_then (rst (gets_result (\<lambda>d. first_source (ch_id c) (sort_key ob_id (outbox d))))) (\<lambda>source.
     case source of
       None \<Rightarrow> ret ()
     | Some uid \<Rightarrow>
         and_then (rst (enqueue_outbox_action
           \<lparr>no_source_update_id = uid, no_key = Some (ch_key c), no_kind = EditChallenge,
            no_payload = Some (JObj [(''challenge_id'', JNum (ch_id c)), (''status'', jstr ''expired''),
              (''attempts_remaining'', JNull)]),
            no_idempotency_key = lit ''retention:challenge:'' @ show_int (ch_id c) @ lit '':expired'',
            no_created_at = now\<rparr>)) (\<lambda>_. ret ()))"

text \<open>The closing statement is the one of \<open>close_challenge\<close>.\<close>

definition released_row :: "timestamp \<Rightarrow> conversation \<Rightarrow> conversation" where
  "released_row now v = v\<lparr>cv_state := New, cv_updated_at := now,
     cv_state_version := cv_state_version v + 1\<rparr>"

definition release_pending :: "conversation_key \<Rightarrow> timestamp \<Rightarrow> (database, storage_error, unit) op" where
  "release_pending key now =
     modify (\<lambda>d. d\<lparr>conversations := update_where (\<lambda>v. cv_key v = key \<and> cv_state v = VerifyPending)
       (released_row now) (conversations d)\<rparr>)"

definition expire_challenge :: "timestamp \<Rightarrow> challenge_row \<Rightarrow> int rop" where
  "expire_challenge now c =
     and_then (rst (close_challenge (ch_id c) now)) (\<lambda>closed.
       if \<not> closed then ret 0
       else
         and_then (rst (release_pending (ch_key c) now)) (\<lambda>_.
         and_then
           (case ch_prompt_message_id c of None \<Rightarrow> ret () | Some _ \<Rightarrow> enqueue_expiry_edit c now) (\<lambda>_.
           ret 1)))"

fun expire_challenges :: "timestamp \<Rightarrow> challenge_row list \<Rightarrow> int rop" where
  "expire_challenges now [] = ret 0"
| "expire_challenges now (c # cs) =
     and_then (expire_challenge now c) (\<lambda>n.
     and_then (expire_challenges now cs) (\<lambda>m. ret (n + m)))"

definition block_expired :: "timestamp \<Rightarrow> conversation \<Rightarrow> bool" where
  "block_expired now v \<longleftrightarrow> cv_state v = TempSoftBlocked
     \<and> (case cv_block_expires_at v of None \<Rightarrow> False | Some t \<Rightarrow> t \<le> now)"

definition unblocked_row :: "timestamp \<Rightarrow> conversation \<Rightarrow> conversation" where
  "unblocked_row now v = v\<lparr>cv_state := New, cv_block_expires_at := None, cv_block_reason := None,
     cv_updated_at := now, cv_state_version := cv_state_version v + 1\<rparr>"

definition expire_blocks :: "timestamp \<Rightarrow> (database, storage_error, int) op" where
  "expire_blocks now d =
     Inr (int (count_where (block_expired now) (conversations d)),
          d\<lparr>conversations := update_where (block_expired now) (unblocked_row now) (conversations d)\<rparr>)"

definition expire_due_state_in :: "timestamp \<Rightarrow> expiry_report rop" where
  "expire_due_state_in now =
     and_then (gets (due_challenges now)) (\<lambda>cs.
     and_then (expire_challenges now cs) (\<lambda>n.
     and_then (rst (expire_blocks now)) (\<lambda>b.
       ret \<lparr>xr_expired_challenges = n, xr_expired_temporary_blocks = b\<rparr>)))"

definition expire_due_state :: "timestamp \<Rightarrow> database \<Rightarrow> (retention_error + expiry_report) \<times> database" where
  "expire_due_state now = commit (expire_due_state_in now)"

subsection \<open>Purge\<close>

text \<open>The messages of the deletions still to be dispatched.\<close>

definition protected_of :: "outbox_row \<Rightarrow> retention_error + (conversation_key \<times> i64) list" where
  "protected_of r =
     (case (ob_connection_id r, ob_chat_id r) of
        (Some cid, Some chat) \<Rightarrow>
          (case Option.bind (ob_payload r) delete_payload of
             None \<Rightarrow> Inl RetentionSerialization
           | Some ids \<Rightarrow> Inr (map (Pair \<lparr>connection_id = cid, chat_id = chat\<rparr>) ids))
      | _ \<Rightarrow> Inr [])"

definition protected_deletion_ids :: "(conversation_key \<times> i64) list rop" where
  "protected_deletion_ids =
     gets_result (\<lambda>d.
       case collect_results (map protected_of
              (filter (\<lambda>r. ob_kind r = DeleteBusinessMessages \<and> unfinished r) (outbox d))) of
         Inl e \<Rightarrow> Inl e
       | Inr ids \<Rightarrow> Inr (concat ids))"

definition ledger_purgeable :: "timestamp \<Rightarrow> (conversation_key \<times> i64) list \<Rightarrow> ledger_row \<Rightarrow> bool" where
  "ledger_purgeable cutoff protected m \<longleftrightarrow>
     lm_direction m = Inbound \<and> \<not> lm_manual_owner_reply m \<and> lm_sent_at m \<le> cutoff
     \<and> (lm_key m, lm_message_id m) \<notin> set protected"

definition purge_ledger ::
  "timestamp \<Rightarrow> (conversation_key \<times> i64) list \<Rightarrow> (database, storage_error, int) op" where
  "purge_ledger cutoff protected d =
     Inr (int (count_where (ledger_purgeable cutoff protected) (ledger d)),
          d\<lparr>ledger := delete_where (ledger_purgeable cutoff protected) (ledger d)\<rparr>)"

text \<open>The last audit event of every persistently blocked conversation is kept.\<close>

definition last_spam_audit :: "'ev db \<Rightarrow> audit_row \<Rightarrow> bool" where
  "last_spam_audit d a \<longleftrightarrow>
     (\<exists>v \<in> set (conversations d). cv_state v = SpamSoftBlocked \<and> ae_key a = Some (cv_key v))
     \<and> (\<forall>b \<in> set (audit d). ae_key b = ae_key a \<longrightarrow> ae_id b \<le> ae_id a)"

definition purge_audits :: "timestamp \<Rightarrow> (database, storage_error, int) op" where
  "purge_audits cutoff d =
     (let old = (\<lambda>a. ae_occurred_at a \<le> cutoff \<and> \<not> last_spam_audit d a)
      in Inr (int (count_where old (audit d)), d\<lparr>audit := delete_where old (audit d)\<rparr>))"

definition outbox_purgeable :: "timestamp \<Rightarrow> timestamp \<Rightarrow> outbox_row \<Rightarrow> bool" where
  "outbox_purgeable succeeded_cutoff failed_cutoff r \<longleftrightarrow>
     ob_status r = OutSucceeded \<and> ob_updated_at r \<le> succeeded_cutoff
     \<or> (ob_status r = OutUncertain \<or> ob_status r = OutPermanentFailure)
       \<and> ob_updated_at r \<le> failed_cutoff"

definition purge_outbox :: "timestamp \<Rightarrow> timestamp \<Rightarrow> (database, storage_error, int) op" where
  "purge_outbox succeeded_cutoff failed_cutoff d =
     Inr (int (count_where (outbox_purgeable succeeded_cutoff failed_cutoff) (outbox d)),
          d\<lparr>outbox := delete_where (outbox_purgeable succeeded_cutoff failed_cutoff) (outbox d)\<rparr>)"

definition update_purgeable :: "timestamp \<Rightarrow> 'ev db \<Rightarrow> 'ev update_row \<Rightarrow> bool" where
  "update_purgeable cutoff d u \<longleftrightarrow>
     pu_received_at u \<le> cutoff
     \<and> (\<forall>r \<in> set (outbox d). ob_source_update_id r \<noteq> pu_update_id u)
     \<and> (\<forall>a \<in> set (audit d). ae_source_update_id a \<noteq> Some (pu_update_id u))"

definition purge_processed_updates :: "timestamp \<Rightarrow> (database, storage_error, int) op" where
  "purge_processed_updates cutoff d =
     Inr (int (count_where (update_purgeable cutoff d) (updates d)),
          d\<lparr>updates := delete_where (update_purgeable cutoff d) (updates d)\<rparr>)"

definition purge_history_in :: "timestamp \<Rightarrow> purge_report rop" where
  "purge_history_in now =
     and_then protected_deletion_ids (\<lambda>protected.
     and_then (rst (purge_ledger (now - hours 72) protected)) (\<lambda>l.
     and_then (rst (purge_audits (now - days 90))) (\<lambda>a.
     and_then (rst (purge_outbox (now - days 30) (now - days 90))) (\<lambda>o'.
     and_then (rst (purge_processed_updates (now - days 7))) (\<lambda>u.
       ret \<lparr>pr_ledger_messages = l, pr_audit_events = a, pr_outbox_actions = o',
            pr_processed_updates = u\<rparr>)))))"

definition purge_history :: "timestamp \<Rightarrow> database \<Rightarrow> (retention_error + purge_report) \<times> database" where
  "purge_history now = commit (purge_history_in now)"

end
