(* ===== verification/Retention_Safety.thy ===== *)
theory Retention_Safety
  imports Retention_Service
begin

section \<open>Safety of retention\<close>

text \<open>
  Expiry follows the state machine of the conversations and cannot fail; the purge keeps the
  schema, everything that is still in use, and everything that is young.
\<close>

subsection \<open>Expiry in closed form\<close>

lemma update_where_twice:
  assumes "\<And>r. p r \<Longrightarrow> \<not> q (f r)"
  shows "update_where q f (update_where p f rs) = update_where (\<lambda>r. p r \<or> q r) f rs"
  using assms by (induction rs) auto

lemma update_where_cong:
  "(\<And>r. r \<in> set rs \<Longrightarrow> p r = q r) \<Longrightarrow> update_where p f rs = update_where q f rs"
  by (induction rs) auto

lemma in_update_where_out:
  assumes "\<And>q. p q \<Longrightarrow> \<not> live (f q)"
  shows "r \<in> set (update_where p f rs) \<and> live r \<longleftrightarrow> r \<in> set rs \<and> live r \<and> \<not> p r"
  using assms by (induction rs) auto

definition closing :: "challenge_row list \<Rightarrow> challenge_row \<Rightarrow> bool" where
  "closing cs r \<longleftrightarrow> open_challenge r \<and> ch_id r \<in> ch_id ` set cs"

definition releasing :: "challenge_row list \<Rightarrow> conversation \<Rightarrow> bool" where
  "releasing cs v \<longleftrightarrow> cv_state v = VerifyPending \<and> cv_key v \<in> ch_key ` set cs"

definition expired_db :: "timestamp \<Rightarrow> challenge_row list \<Rightarrow> 'ev db \<Rightarrow> outbox_row list \<times> i64 \<Rightarrow> 'ev db" where
  "expired_db now cs d q =
     d\<lparr>conversations := update_where (releasing cs) (released_row now) (conversations d),
       challenges := update_where (closing cs) (close_row now) (challenges d),
       outbox := fst q, outbox_seq := snd q\<rparr>"

lemma close_row_not_open [simp]: "\<not> open_challenge (close_row now r)"
  by (simp add: open_challenge_def close_row_def)

lemma released_simps [simp]:
  "cv_key (released_row now v) = cv_key v" "cv_state (released_row now v) = New"
  "cv_block_expires_at (released_row now v) = cv_block_expires_at v"
  "ch_id (close_row now r) = ch_id r" "ch_key (close_row now r) = ch_key r"
  by (simp_all add: released_row_def close_row_def)

lemma expired_db_compose:
  "expired_db now cs (expired_db now [c] d q) q' = expired_db now (c # cs) d q'"
proof -
  have "update_where (releasing cs) (released_row now) (update_where (releasing [c]) (released_row now) vs)
      = update_where (releasing (c # cs)) (released_row now) vs" for vs
    by (subst update_where_twice) (auto simp: releasing_def intro!: update_where_cong)
  moreover have "update_where (closing cs) (close_row now) (update_where (closing [c]) (close_row now) rs)
      = update_where (closing (c # cs)) (close_row now) rs" for rs
    by (subst update_where_twice) (auto simp: closing_def intro!: update_where_cong)
  ultimately show ?thesis by (simp add: expired_db_def)
qed

lemma queue_only_enqueue:
  assumes "enqueue_outbox_action a d = Inr (x, t)"
  shows "\<exists>rs n. t = d\<lparr>outbox := rs, outbox_seq := n\<rparr>"
proof -
  consider "t = d" | rs n where "t = d\<lparr>outbox := rs, outbox_seq := n\<rparr>"
    using assms by (auto simp: enqueue_outbox_action_def Let_def split: if_splits)
  then show ?thesis
  proof cases
    case 1
    then have "t = d\<lparr>outbox := outbox d, outbox_seq := outbox_seq d\<rparr>" by simp
    then show ?thesis by blast
  qed blast
qed

lemma queue_frame_edit:
  assumes "enqueue_expiry_edit c now d = Inr (x, t)"
  shows "\<exists>rs n. t = d\<lparr>outbox := rs, outbox_seq := n\<rparr>"
proof -
  obtain source m where m: "rst (gets_result (\<lambda>d. first_source (ch_id c) (sort_key ob_id (outbox d)))) d
      = Inr (source, m)"
    and rest: "(case source of None \<Rightarrow> ret () | Some uid \<Rightarrow> and_then (rst (enqueue_outbox_action
           \<lparr>no_source_update_id = uid, no_key = Some (ch_key c), no_kind = EditChallenge,
            no_payload = Some (JObj [(''challenge_id'', JNum (ch_id c)), (''status'', jstr ''expired''),
              (''attempts_remaining'', JNull)]),
            no_idempotency_key = lit ''retention:challenge:'' @ show_int (ch_id c) @ lit '':expired'',
            no_created_at = now\<rparr>)) (\<lambda>_. ret ())) m = Inr (x, t)"
    using assms unfolding enqueue_expiry_edit_def by (elim and_then_E) (rule that; assumption)
  have "m = d" using m by (simp add: map_err_Inr_iff gets_result_Inr_iff)
  then show ?thesis
  proof (cases source)
    case None
    with rest have "t = d\<lparr>outbox := outbox d, outbox_seq := outbox_seq d\<rparr>"
      using \<open>m = d\<close> by (simp add: ret_Inr_iff)
    then show ?thesis by blast
  next
    case (Some uid)
    with rest \<open>m = d\<close> queue_only_enqueue show ?thesis
      by (simp add: and_then_Inr_iff map_err_Inr_iff ret_Inr_iff) blast
  qed
qed

lemma expire_challenge_effect:
  assumes "expire_challenge now c d = Inr (n, t)" and "r \<in> set (challenges d)"
    and "ch_id r = ch_id c" and "open_challenge r" and "db_ok d"
  shows "n = 1 \<and> (\<exists>q. t = expired_db now [c] d q)"
proof -
  let ?here = "\<lambda>r. ch_id r = ch_id c \<and> open_challenge r"
  have one: "count_where ?here (challenges d) = 1"
    using assms(2-5) by (intro count_where_1I [where k = ch_id and r = r]) (auto simp: ok_defs)
  define m where "m = d\<lparr>challenges := update_where ?here (close_row now) (challenges d),
    conversations := update_where (\<lambda>v. cv_key v = ch_key c \<and> cv_state v = VerifyPending)
      (released_row now) (conversations d)\<rparr>"
  have rest: "and_then (case ch_prompt_message_id c of None \<Rightarrow> ret () | Some _ \<Rightarrow> enqueue_expiry_edit c now)
      (\<lambda>_. ret 1) m = Inr (n, t)"
    using assms(1) one
    by (simp add: expire_challenge_def and_then_def map_err_def close_challenge_def Let_def
        release_pending_def modify_def m_def)
  have n: "n = 1" using rest by (auto simp: and_then_Inr_iff ret_Inr_iff)
  have "\<exists>rs k. t = m\<lparr>outbox := rs, outbox_seq := k\<rparr>"
  proof (cases "ch_prompt_message_id c")
    case None
    with rest have "t = m\<lparr>outbox := outbox m, outbox_seq := outbox_seq m\<rparr>"
      by (simp add: and_then_Inr_iff ret_Inr_iff)
    then show ?thesis by blast
  next
    case (Some p)
    with rest queue_frame_edit [of c now m] show ?thesis
      by (auto simp: and_then_Inr_iff ret_Inr_iff)
  qed
  then obtain rs k where t: "t = m\<lparr>outbox := rs, outbox_seq := k\<rparr>" by blast
  have "?here = closing [c]"
    and "(\<lambda>v. cv_key v = ch_key c \<and> cv_state v = VerifyPending) = releasing [c]"
    by (auto simp: closing_def releasing_def fun_eq_iff)
  then have "t = expired_db now [c] d (rs, k)" by (simp add: t m_def expired_db_def)
  with n show ?thesis by blast
qed

lemma ok_conversation_update:
  assumes "db_ok d" and "\<And>v. cv_key (f v) = cv_key v"
  shows "db_ok (d\<lparr>conversations := update_where p f (conversations d)\<rparr>)"
  using assms by (auto simp: ok_defs table_simps in_update_where_iff)

lemma ok_expire_blocks: "stays (keeps db_ok) (expire_blocks now)"
  by (rule stays_okI) (auto simp: expire_blocks_def unblocked_row_def intro!: ok_conversation_update)

lemma ok_expire_challenge: "stays (keeps db_ok) (expire_challenge now c)"
proof -
  have "stays (keeps db_ok) (release_pending k now)" for k
    by (rule stays_okI) (auto simp: release_pending_def modify_def intro!: ok_conversation_update)
  moreover have "stays (keeps db_ok) (enqueue_expiry_edit c now)"
    unfolding enqueue_expiry_edit_def by (intro ok.stays_basic ok_repositories)
  ultimately show ?thesis
    unfolding expire_challenge_def by (intro ok.stays_basic ok_repositories)
qed

lemma ok_expire_challenges: "stays (keeps db_ok) (expire_challenges now cs)"
  by (induction cs) (auto intro!: ok.stays_basic ok_expire_challenge)

lemma expire_challenges_effect:
  assumes "expire_challenges now cs d = Inr (n, t)" and "db_ok d"
    and "\<forall>c \<in> set cs. \<exists>r \<in> set (challenges d). ch_id r = ch_id c \<and> open_challenge r"
    and "distinct (map ch_id cs)"
  shows "n = int (length cs) \<and> (\<exists>q. t = expired_db now cs d q)"
  using assms
proof (induction cs arbitrary: d n)
  case Nil
  then have "t = expired_db now [] d (outbox d, outbox_seq d)"
    by (simp add: ret_def expired_db_def releasing_def closing_def update_where_def)
  with Nil show ?case by (auto simp: ret_def)
next
  case (Cons c cs)
  obtain a m b where c: "expire_challenge now c d = Inr (a, m)"
    and cs: "expire_challenges now cs m = Inr (b, t)" and n: "n = a + b"
    using Cons.prems(1) by (auto simp: op_success)
  obtain r where "r \<in> set (challenges d)" "ch_id r = ch_id c" "open_challenge r"
    using Cons.prems(3) by auto
  from expire_challenge_effect [OF c this Cons.prems(2)] obtain q where
    a: "a = 1" and m: "m = expired_db now [c] d q" by blast
  have ok: "db_ok m" using staysD [OF ok_expire_challenge c] Cons.prems(2) by (simp add: keeps_def)
  have "\<forall>c' \<in> set cs. \<exists>r \<in> set (challenges m). ch_id r = ch_id c' \<and> open_challenge r"
  proof
    fix c' assume c': "c' \<in> set cs"
    then obtain r where r: "r \<in> set (challenges d)" "ch_id r = ch_id c'" "open_challenge r"
      using Cons.prems(3) by auto
    moreover have "ch_id c' \<noteq> ch_id c"
      using c' Cons.prems(4) by (metis distinct.simps(2) image_eqI image_set list.simps(9))
    ultimately have "r \<in> set (challenges m)"
      unfolding m expired_db_def by (force simp: set_update_where closing_def)
    with r show "\<exists>r \<in> set (challenges m). ch_id r = ch_id c' \<and> open_challenge r" by blast
  qed
  from Cons.IH [OF cs ok this] Cons.prems(4) obtain q' where
    "b = int (length cs)" "t = expired_db now cs m q'" by auto
  then have "n = int (length (c # cs))" "t = expired_db now (c # cs) d q'"
    using n a by (simp_all add: m expired_db_compose)
  then show ?case by blast
qed

lemma due_challenges_facts:
  "c \<in> set (due_challenges now d) \<longleftrightarrow> c \<in> set (challenges d) \<and> open_challenge c \<and> ch_expires_at c \<le> now"
  "db_ok d \<Longrightarrow> distinct (map ch_id (due_challenges now d))"
  by (auto simp: due_challenges_def ok_defs distinct_map inj_on_def)

lemma expire_effect:
  assumes "expire_due_state_in now d = Inr (report, t)" and "db_ok d"
  shows "xr_expired_challenges report = int (length (due_challenges now d))"
    and "challenges t = update_where (closing (due_challenges now d)) (close_row now) (challenges d)"
    and "conversations t = update_where (block_expired now) (unblocked_row now)
      (update_where (releasing (due_challenges now d)) (released_row now) (conversations d))"
    and "xr_expired_temporary_blocks report = int (count_where (block_expired now)
      (update_where (releasing (due_challenges now d)) (released_row now) (conversations d)))"
    and "db_ok t"
proof -
  obtain n m where run: "expire_challenges now (due_challenges now d) d = Inr (n, m)"
    and b: "expire_blocks now m = Inr (xr_expired_temporary_blocks report, t)"
    and n: "xr_expired_challenges report = n"
    using assms(1) by (auto simp: expire_due_state_in_def op_success)
  from expire_challenges_effect [OF run assms(2)] due_challenges_facts(1) [of _ now d] due_challenges_facts(2) [of d now] assms(2)
  obtain q where "n = int (length (due_challenges now d))" "m = expired_db now (due_challenges now d) d q"
    by auto
  then show "xr_expired_challenges report = int (length (due_challenges now d))"
    and "challenges t = update_where (closing (due_challenges now d)) (close_row now) (challenges d)"
    and "conversations t = update_where (block_expired now) (unblocked_row now)
      (update_where (releasing (due_challenges now d)) (released_row now) (conversations d))"
    and "xr_expired_temporary_blocks report = int (count_where (block_expired now)
      (update_where (releasing (due_challenges now d)) (released_row now) (conversations d)))"
    using b n by (auto simp: expire_blocks_def expired_db_def)
  have "db_ok m" using staysD [OF ok_expire_challenges run] assms(2) by (simp add: keeps_def)
  then show "db_ok t" using staysD [OF ok_expire_blocks b] by (simp add: keeps_def)
qed

subsection \<open>Expiry as transitions\<close>

text \<open>The event that expires a conversation, where one does.\<close>

definition expiry_event :: "timestamp \<Rightarrow> 'ev db \<Rightarrow> conversation_key \<Rightarrow> transition_event option" where
  "expiry_event now d k =
     (if k \<in> ch_key ` set (due_challenges now d) then Some ChallengeExpired
      else (case row_of d k of
              None \<Rightarrow> None
            | Some v \<Rightarrow> if block_expired now v then Some TempBlockExpired else None))"

lemma unblocked_simps [simp]:
  "cv_key (unblocked_row now v) = cv_key v" "cv_state (unblocked_row now v) = New"
  by (simp_all add: unblocked_row_def)

lemma expiry_rows:
  assumes "expire_due_state_in now d = Inr (report, t)" and "db_ok d"
  shows "row_of t k = map_option (\<lambda>v.
      if releasing (due_challenges now d) v then released_row now v
      else if block_expired now v then unblocked_row now v else v) (row_of d k)"
proof -
  have "row_of t k = map_option (\<lambda>v. if block_expired now v then unblocked_row now v else v)
      (map_option (\<lambda>v. if releasing (due_challenges now d) v then released_row now v else v)
        (row_of d k))"
    unfolding row_of_def expire_effect(3) [OF assms]
    by (subst find_row_update_where, simp)+ simp
  also have "\<dots> = map_option (\<lambda>v. if releasing (due_challenges now d) v then released_row now v
      else if block_expired now v then unblocked_row now v else v) (row_of d k)"
    by (cases "row_of d k") (auto simp: block_expired_def)
  finally show ?thesis .
qed

lemma due_keys:
  assumes "db_ok d" and "verify_sound d" and "k \<in> ch_key ` set (due_challenges now d)"
  shows "state_of d k = Some VerifyPending"
proof -
  have op: "open_for d k" using assms(3) by (auto simp: open_for_def due_challenges_facts(1))
  then obtain v where "row_of d k = Some v" using open_for_row [OF assms(1)] by blast
  with assms(2) op show ?thesis by (auto simp: verify_sound_def state_of_def)
qed

lemma expiry_states:
  assumes run: "expire_due_state_in now d = Inr (report, t)" and ok: "db_ok d" and vs: "verify_sound d"
  shows "case state_of d k of
       None \<Rightarrow> state_of t k = None
     | Some s \<Rightarrow> \<exists>s'. after_event s (expiry_event now d k) s' \<and> state_of t k = Some s'"
proof (cases "row_of d k")
  case None
  then show ?thesis by (simp add: state_of_def expiry_rows [OF run ok])
next
  case (Some v)
  have key: "cv_key v = k" using row_of_key [OF Some] by simp
  show ?thesis
  proof (cases "k \<in> ch_key ` set (due_challenges now d)")
    case True
    from due_keys [OF ok vs True] Some have "cv_state v = VerifyPending" by (simp add: state_of_def)
    with True Some key show ?thesis
      by (simp add: state_of_def expiry_rows [OF run ok] expiry_event_def after_event_def releasing_def)
  next
    case False
    with Some key show ?thesis
      by (auto simp: state_of_def expiry_rows [OF run ok] expiry_event_def after_event_def
          releasing_def block_expired_def)
  qed
qed

lemma expiry_open_rows:
  assumes "expire_due_state_in now d = Inr (report, t)" and "db_ok d"
  shows "r \<in> set (challenges t) \<and> open_challenge r
    \<longleftrightarrow> r \<in> set (challenges d) \<and> open_challenge r \<and> ch_id r \<notin> ch_id ` set (due_challenges now d)"
  unfolding expire_effect(2) [OF assms]
  by (subst in_update_where_out) (auto simp: closing_def)

lemma expiry_open:
  assumes run: "expire_due_state_in now d = Inr (report, t)" and ok: "db_ok d"
  shows "open_for t k \<longleftrightarrow> open_for d k \<and> k \<notin> ch_key ` set (due_challenges now d)"
proof -
  note open_t = expiry_open_rows [OF run ok]
  have ids: "ch_id r \<in> ch_id ` set (due_challenges now d) \<longleftrightarrow> r \<in> set (due_challenges now d)"
    if "r \<in> set (challenges d)" for r
  proof
    assume "ch_id r \<in> ch_id ` set (due_challenges now d)"
    then obtain c where c: "c \<in> set (due_challenges now d)" "ch_id c = ch_id r" by auto
    then have "c \<in> set (challenges d)" by (simp add: due_challenges_facts(1))
    then have "c = r" using c(2) that ok by (auto simp: ok_defs intro: distinct_key_eq)
    with c(1) show "r \<in> set (due_challenges now d)" by simp
  qed simp
  have keys: "r \<in> set (due_challenges now d) \<longleftrightarrow> ch_key r \<in> ch_key ` set (due_challenges now d)"
    if r: "r \<in> set (challenges d)" "open_challenge r" for r
  proof
    assume "ch_key r \<in> ch_key ` set (due_challenges now d)"
    then obtain c where c: "c \<in> set (due_challenges now d)" "ch_key c = ch_key r" by auto
    then have "c \<in> set (filter open_challenge (challenges d))" by (simp add: due_challenges_facts(1))
    moreover have "r \<in> set (filter open_challenge (challenges d))" using r by simp
    moreover have "distinct (map ch_key (filter open_challenge (challenges d)))"
      using ok by (simp add: ok_defs)
    ultimately have "c = r" using c(2) by (metis distinct_key_eq)
    with c(1) show "r \<in> set (due_challenges now d)" by simp
  qed simp
  show ?thesis
    unfolding open_for_def using open_t ids keys by blast
qed

lemma expiry_opens:
  assumes "expire_due_state_in now d = Inr (report, t)" and "db_ok d"
  shows "open_for t k \<longleftrightarrow> open_for d k \<and> expiry_event now d k \<noteq> Some ChallengeExpired"
  unfolding expiry_open [OF assms] by (auto simp: expiry_event_def split: option.split)

lemma expiry_sound:
  assumes run: "expire_due_state_in now d = Inr (report, t)" and "db_ok d" and "verify_sound d"
  shows "verify_sound t"
  unfolding verify_sound_def
proof (intro allI impI)
  fix k s'
  assume s': "state_of t k = Some s'"
  with expiry_states [OF run assms(2,3), of k] obtain s where s: "state_of d k = Some s"
    "after_event s (expiry_event now d k) s'" by (auto split: option.splits)
  have "s = VerifyPending \<longleftrightarrow> open_for d k" using assms(3) s(1) by (simp add: verify_sound_def)
  with s show "s' = VerifyPending \<longleftrightarrow> open_for t k"
    unfolding expiry_opens [OF run assms(2), of k]
    by (cases s) (auto simp: after_event_def expiry_event_def split: if_splits option.splits)
qed

text \<open>
  C15: expiry is the machine's. A successful run makes, in every conversation, the transition
  \<open>ChallengeExpired\<close> if its open challenge is due, \<open>TempBlockExpired\<close> if its temporary block is
  over, and none otherwise; it leaves nothing due, and keeps the schema and the rule that
  exactly the conversations that await verification have an open challenge.
\<close>

theorem expiry_follows_machine:
  assumes "expire_due_state now d = (Inr report, t)" and "db_ok d" and "verify_sound d"
  shows "(\<forall>k. case state_of d k of
           None \<Rightarrow> state_of t k = None
         | Some s \<Rightarrow> \<exists>s'. after_event s (expiry_event now d k) s' \<and> state_of t k = Some s')
    \<and> (\<forall>k. open_for t k \<longleftrightarrow> open_for d k \<and> expiry_event now d k \<noteq> Some ChallengeExpired)
    \<and> due_challenges now t = [] \<and> (\<forall>k. expiry_event now t k = None)
    \<and> xr_expired_challenges report = int (length (due_challenges now d))
    \<and> db_ok t \<and> verify_sound t"
proof -
  have run: "expire_due_state_in now d = Inr (report, t)"
    using assms(1) by (simp add: expire_due_state_def commit_success)
  note eff = expire_effect [OF run assms(2)]
  note opn = expiry_opens [OF run assms(2)]
  have none: "due_challenges now t = []"
  proof (rule ccontr)
    assume "due_challenges now t \<noteq> []"
    then obtain r where "r \<in> set (due_challenges now t)" by (cases "due_challenges now t") auto
    then have r: "r \<in> set (challenges t)" "open_challenge r" "ch_expires_at r \<le> now"
      by (auto simp: due_challenges_facts(1))
    then have "r \<in> set (challenges d) \<and> ch_id r \<notin> ch_id ` set (due_challenges now d)"
      using expiry_open_rows [OF run assms(2)] by blast
    with r show False by (auto simp: due_challenges_facts(1))
  qed
  have over: "expiry_event now t k = None" for k
    by (auto simp: expiry_event_def none expiry_rows [OF run assms(2)] block_expired_def
        split: option.split)
  have sound: "verify_sound t" by (rule expiry_sound [OF run assms(2,3)])
  show ?thesis
    using expiry_states [OF run assms(2,3)] opn none over eff(1,5) sound by blast
qed

subsection \<open>Expiry cannot fail\<close>

definition readable :: "'ev db \<Rightarrow> bool" where
  "readable d \<longleftrightarrow> db_ok d
     \<and> (\<forall>r \<in> set (outbox d). ob_kind r = SendChallenge \<longrightarrow> ob_payload r \<noteq> None)"

lemma first_source_Inr:
  assumes "\<forall>r \<in> set rs. ob_kind r = SendChallenge \<longrightarrow> ob_payload r \<noteq> None"
  shows "\<exists>x. first_source i rs = Inr x
    \<and> (\<forall>uid. x = Some uid \<longrightarrow> uid \<in> ob_source_update_id ` set rs)"
  using assms by (induction rs) auto

lemma enqueue_edit_total:
  assumes "readable d" and "no_kind a = EditChallenge"
    and "no_source_update_id a \<in> pu_update_id ` set (updates d)"
  shows "\<exists>b t. enqueue_outbox_action a d = Inr (b, t) \<and> readable t"
proof -
  have "\<exists>b t. enqueue_outbox_action a d = Inr (b, t) \<and> (t = d
      \<or> t = d\<lparr>outbox := outbox d @ [outbox_row_of a (outbox_seq d + 1)], outbox_seq := outbox_seq d + 1\<rparr>)"
    using assms(3) by (auto simp: enqueue_outbox_action_def Let_def)
  then obtain b t where run: "enqueue_outbox_action a d = Inr (b, t)"
    and t: "t = d \<or> t = d\<lparr>outbox := outbox d @ [outbox_row_of a (outbox_seq d + 1)],
      outbox_seq := outbox_seq d + 1\<rparr>" by blast
  have "db_ok t" using staysD [OF ok_enqueue_outbox_action run] assms(1) by (simp add: keeps_def readable_def)
  with t assms(1,2) have "readable t" by (auto simp: readable_def outbox_row_of_def)
  with run show ?thesis by blast
qed

lemma expiry_edit_total:
  assumes "readable d"
  shows "\<exists>t. enqueue_expiry_edit c now d = Inr ((), t) \<and> readable t"
proof -
  obtain x where x: "first_source (ch_id c) (sort_key ob_id (outbox d)) = Inr x"
    and uid: "\<And>uid. x = Some uid \<Longrightarrow> uid \<in> ob_source_update_id ` set (outbox d)"
    using first_source_Inr [of "sort_key ob_id (outbox d)" "ch_id c"] assms by (auto simp: readable_def)
  show ?thesis
  proof (cases x)
    case None
    then show ?thesis using assms x
      by (simp add: enqueue_expiry_edit_def and_then_def map_err_def gets_result_def ret_def)
  next
    case (Some u)
    have "u \<in> pu_update_id ` set (updates d)"
      using uid [OF Some] assms by (auto simp: readable_def ok_defs)
    from enqueue_edit_total [OF assms, of "\<lparr>no_source_update_id = u, no_key = Some (ch_key c),
        no_kind = EditChallenge, no_payload = Some (JObj [(''challenge_id'', JNum (ch_id c)),
          (''status'', jstr ''expired''), (''attempts_remaining'', JNull)]),
        no_idempotency_key = lit ''retention:challenge:'' @ show_int (ch_id c) @ lit '':expired'',
        no_created_at = now\<rparr>"] this
    show ?thesis
      by (auto simp: enqueue_expiry_edit_def and_then_def map_err_def gets_result_def ret_def x Some)
  qed
qed

lemma expire_challenge_total:
  assumes "readable d"
  shows "\<exists>n t. expire_challenge now c d = Inr (n, t) \<and> readable t"
proof -
  obtain b m where close: "close_challenge (ch_id c) now d = Inr (b, m)" and q: "outbox m = outbox d"
    by (simp add: close_challenge_def Let_def)
  have m: "readable m"
    using staysD [OF ok_close_challenge close] assms q by (simp add: readable_def keeps_def)
  then have ok_m: "db_ok m" by (simp add: readable_def)
  obtain u where u: "release_pending (ch_key c) now m = Inr ((), u)" "readable u"
    using m ok_conversation_update [OF ok_m, of "released_row now"]
    by (simp add: release_pending_def modify_def readable_def)
  obtain t where "(case ch_prompt_message_id c of None \<Rightarrow> ret () | Some _ \<Rightarrow> enqueue_expiry_edit c now) u
      = Inr ((), t)" "readable t"
    using expiry_edit_total [OF u(2), of c now] u(2)
    by (cases "ch_prompt_message_id c") (auto simp: ret_def)
  with m u(1) close show ?thesis
    by (cases b) (auto simp: expire_challenge_def and_then_def map_err_def ret_def)
qed

lemma expire_challenges_total:
  "readable d \<Longrightarrow> \<exists>n t. expire_challenges now cs d = Inr (n, t) \<and> readable t"
proof (induction cs arbitrary: d)
  case (Cons c cs)
  obtain n m where "expire_challenge now c d = Inr (n, m)" "readable m"
    using expire_challenge_total [OF Cons.prems] by blast
  with Cons.IH [of m] show ?case by (auto simp: and_then_def ret_def)
qed (simp add: ret_def)

text \<open>
  Expiry always succeeds on a database whose stored challenges can be read: every prompt
  it edits has a source update, so no foreign key is broken.
\<close>

theorem expiry_never_fails:
  assumes "db_ok d"
    and "\<forall>r \<in> set (outbox d). ob_kind r = SendChallenge \<longrightarrow> ob_payload r \<noteq> None"
  shows "\<exists>report t. expire_due_state now d = (Inr report, t)"
proof -
  obtain n m where "expire_challenges now (due_challenges now d) d = Inr (n, m)"
    using expire_challenges_total [of d now] assms unfolding readable_def by blast
  then have "\<exists>report t. expire_due_state_in now d = Inr (report, t)"
    by (auto simp: expire_due_state_in_def and_then_def gets_def map_err_def expire_blocks_def ret_def)
  then show ?thesis by (auto simp: expire_due_state_def commit_def)
qed

subsection \<open>The purge\<close>

definition named_by_deletion :: "'ev db \<Rightarrow> ledger_row \<Rightarrow> bool" where
  "named_by_deletion d m \<longleftrightarrow>
     (\<exists>r \<in> set (outbox d). \<exists>ids. ob_kind r = DeleteBusinessMessages \<and> unfinished r
        \<and> ob_connection_id r = Some (connection_id (lm_key m)) \<and> ob_chat_id r = Some (chat_id (lm_key m))
        \<and> Option.bind (ob_payload r) delete_payload = Some ids \<and> lm_message_id m \<in> set ids)"

lemma collect_results_in:
  "collect_results (map f xs) = Inr ys \<Longrightarrow> x \<in> set xs \<Longrightarrow> \<exists>y \<in> set ys. f x = Inr y"
proof (induction xs arbitrary: ys)
  case (Cons a xs)
  then show ?case by (cases "f a") (auto split: sum.splits)
qed simp

lemma protected_named:
  assumes "protected_deletion_ids d = Inr (ids, t)" and "named_by_deletion d m"
  shows "t = d" and "(lm_key m, lm_message_id m) \<in> set ids"
proof -
  obtain r js where r: "r \<in> set (outbox d)" "ob_kind r = DeleteBusinessMessages" "unfinished r"
    "ob_connection_id r = Some (connection_id (lm_key m))" "ob_chat_id r = Some (chat_id (lm_key m))"
    "Option.bind (ob_payload r) delete_payload = Some js" "lm_message_id m \<in> set js"
    using assms(2) by (auto simp: named_by_deletion_def)
  obtain ys where ys: "collect_results (map protected_of
      (filter (\<lambda>r. ob_kind r = DeleteBusinessMessages \<and> unfinished r) (outbox d))) = Inr ys"
    and ids: "ids = concat ys" and t: "t = d"
    using assms(1) by (auto simp: protected_deletion_ids_def gets_result_Inr_iff split: sum.splits)
  show "t = d" by (rule t)
  have "protected_of r = Inr (map (Pair (lm_key m)) js)"
    using r by (simp add: protected_of_def)
  with collect_results_in [OF ys, of r] r have "map (Pair (lm_key m)) js \<in> set ys" by auto
  with r(7) ids show "(lm_key m, lm_message_id m) \<in> set ids" by force
qed

definition in_use :: "timestamp \<Rightarrow> 'ev db \<Rightarrow> ledger_row \<Rightarrow> bool" where
  "in_use now d m \<longleftrightarrow> lm_manual_owner_reply m \<or> lm_direction m = Outbound
     \<or> now - hours 72 < lm_sent_at m \<or> named_by_deletion d m"

lemma purge_shape:
  assumes "purge_history_in now d = Inr (report, t)"
  obtains ids s where "protected_deletion_ids d = Inr (ids, d)"
    and "s = d\<lparr>ledger := delete_where (ledger_purgeable (now - hours 72) ids) (ledger d),
        audit := delete_where (\<lambda>a. ae_occurred_at a \<le> now - days 90 \<and> \<not> last_spam_audit d a) (audit d),
        outbox := delete_where (outbox_purgeable (now - days 30) (now - days 90)) (outbox d)\<rparr>"
    and "t = s\<lparr>updates := delete_where (update_purgeable (now - days 7) s) (updates d)\<rparr>"
proof -
  obtain ids m where p: "protected_deletion_ids d = Inr (ids, m)"
    and rest: "and_then (rst (purge_ledger (now - hours 72) ids)) (\<lambda>l.
     and_then (rst (purge_audits (now - days 90))) (\<lambda>a.
     and_then (rst (purge_outbox (now - days 30) (now - days 90))) (\<lambda>o'.
     and_then (rst (purge_processed_updates (now - days 7))) (\<lambda>u.
       ret \<lparr>pr_ledger_messages = l, pr_audit_events = a, pr_outbox_actions = o',
            pr_processed_updates = u\<rparr>)))) m = Inr (report, t)"
    using assms unfolding purge_history_in_def
    by (elim and_then_E [of protected_deletion_ids]) (rule that; assumption)
  have m: "m = d" using p by (auto simp: protected_deletion_ids_def gets_result_Inr_iff split: sum.splits)
  define s where "s = d\<lparr>ledger := delete_where (ledger_purgeable (now - hours 72) ids) (ledger d),
        audit := delete_where (\<lambda>a. ae_occurred_at a \<le> now - days 90 \<and> \<not> last_spam_audit d a) (audit d),
        outbox := delete_where (outbox_purgeable (now - days 30) (now - days 90)) (outbox d)\<rparr>"
  have "last_spam_audit (d\<lparr>ledger := l\<rparr>) = last_spam_audit d" for l
    by (simp add: last_spam_audit_def fun_eq_iff)
  with rest have "t = s\<lparr>updates := delete_where (update_purgeable (now - days 7) s) (updates d)\<rparr>"
    unfolding m
    by (simp add: and_then_def map_err_def ret_def purge_ledger_def purge_audits_def Let_def
        purge_outbox_def purge_processed_updates_def s_def)
  with p m s_def that show thesis by blast
qed

lemma purge_evolves:
  assumes "purge_history_in now d = Inr (report, t)"
  shows "outbox_evolves d t"
proof -
  obtain ids s where s: "s = d\<lparr>ledger := delete_where (ledger_purgeable (now - hours 72) ids) (ledger d),
        audit := delete_where (\<lambda>a. ae_occurred_at a \<le> now - days 90 \<and> \<not> last_spam_audit d a) (audit d),
        outbox := delete_where (outbox_purgeable (now - days 30) (now - days 90)) (outbox d)\<rparr>"
    and t: "t = s\<lparr>updates := delete_where (update_purgeable (now - days 7) s) (updates d)\<rparr>"
    by (rule purge_shape [OF assms])
  have ok: "db_ok t" if dok: "db_ok d"
  proof -
    have "ob_source_update_id ` set (outbox t) \<subseteq> pu_update_id ` set (updates t)"
    proof
      fix i assume "i \<in> ob_source_update_id ` set (outbox t)"
      then obtain r where r: "r \<in> set (outbox s)" "i = ob_source_update_id r" by (auto simp: t)
      then have rd: "r \<in> set (outbox d)" by (simp add: s)
      have "ob_source_update_id ` set (outbox d) \<subseteq> pu_update_id ` set (updates d)"
        using dok by (simp add: ok_defs)
      with rd r(2) obtain u where u: "u \<in> set (updates d)" "pu_update_id u = i"
        by (metis image_eqI imageE subsetD)
      with r have "u \<in> set (updates t)" by (auto simp: t update_purgeable_def)
      with u(2) show "i \<in> pu_update_id ` set (updates t)" by blast
    qed
    moreover have "distinct (map pu_update_id (updates t)) \<and> distinct (map ob_id (outbox t))
        \<and> distinct (map ob_idempotency_key (outbox t)) \<and> (\<forall>r \<in> set (outbox t). ob_id r \<le> outbox_seq t)"
      using dok by (simp add: t s ok_defs distinct_map_delete_where)
    moreover have "connections_ok t \<and> conversations_ok t \<and> ledger_ok t \<and> challenges_ok t"
      using dok by (auto simp: t s ok_defs distinct_map_delete_where)
    ultimately show ?thesis by (simp add: db_ok_def updates_ok_def outbox_ok_def)
  qed
  have "other_writes d t" if dok: "db_ok d"
  proof -
    have "ob_at d i = Some q" if "ob_at t i = Some q" for i q
    proof -
      have "q \<in> set (outbox t)" "ob_id q = i" using ok [OF dok] that by (simp_all add: ob_at_iff)
      then show ?thesis using dok by (simp add: ob_at_iff t s)
    qed
    moreover have "outbox_seq t = outbox_seq d" by (simp add: t s)
    ultimately show ?thesis by (auto simp: other_writes_def row_progress_def)
  qed
  with ok show ?thesis by (simp add: outbox_evolves_def)
qed


text \<open>
  C34: the purge does not look at the status of an update: a trigger that is recorded but still
  waits for its reconciliation goes with the rest after seven days, unless an action or an
  audit event refers to it.
\<close>

theorem purge_drops_waiting_triggers:
  assumes "purge_history now d = (Inr report, t)" and "u \<in> set (updates d)"
    and "pu_status u = Recorded" and "pu_received_at u \<le> now - days 7"
    and "\<forall>r \<in> set (outbox d). ob_source_update_id r \<noteq> pu_update_id u"
    and "\<forall>a \<in> set (audit d). ae_source_update_id a \<noteq> Some (pu_update_id u)"
  shows "u \<notin> set (updates t)"
proof -
  have "purge_history_in now d = Inr (report, t)"
    using assms(1) by (simp add: purge_history_def commit_success)
  then obtain ids s where s: "s = d\<lparr>ledger := delete_where (ledger_purgeable (now - hours 72) ids) (ledger d),
        audit := delete_where (\<lambda>a. ae_occurred_at a \<le> now - days 90 \<and> \<not> last_spam_audit d a) (audit d),
        outbox := delete_where (outbox_purgeable (now - days 30) (now - days 90)) (outbox d)\<rparr>"
    and t: "t = s\<lparr>updates := delete_where (update_purgeable (now - days 7) s) (updates d)\<rparr>"
    by (rule purge_shape)
  have "update_purgeable (now - days 7) s u"
    using assms(4-6) by (auto simp: update_purgeable_def s)
  then show ?thesis by (simp add: t)
qed

subsection \<open>Witnesses\<close>

text \<open>An open challenge whose prompt was sent, with the action that sent it still queued.\<close>

definition expiring_db :: database where
  "expiring_db = sample_db\<lparr>
     challenges := map (\<lambda>c. c\<lparr>ch_prompt_message_id := Some 90\<rparr>) (challenges sample_db),
     outbox := [outbox_row_of \<lparr>no_source_update_id = 5, no_key = Some sample_key, no_kind = SendChallenge,
       no_payload = Some (JObj [(''challenge_id'', JNum 1)]), no_idempotency_key = lit ''k'',
       no_created_at = 0\<rparr> 1],
     outbox_seq := 1\<rparr>"

lemma expiring_ok: "db_ok expiring_db"
  by (simp add: ok_defs expiring_db_def sample_db_def sample_key_def open_challenge_def attempts_ok_def
      outbox_row_of_def update_row_of_def sample_event_def sample_event_with_def)

lemma expiring_sound: "verify_sound expiring_db"
  by (auto simp: verify_sound_def expiring_db_def sample_db_def state_of_def row_of_def find_row_def
      open_for_def open_challenge_def split: if_splits)

lemma expiring_runs: "\<exists>report t. expire_due_state 2000 expiring_db = (Inr report, t)"
proof -
  have "case fst (expire_due_state 2000 expiring_db) of Inl _ \<Rightarrow> False | Inr _ \<Rightarrow> True"
    by code_simp
  then show ?thesis by (auto split: sum.splits) (metis prod.collapse)
qed

theorem expiry_follows_machine_witness:
  "\<exists>report t. expire_due_state 2000 expiring_db = (Inr report, t)
     \<and> state_of t sample_key = Some New \<and> \<not> open_for t sample_key"
proof -
  obtain report t where run: "expire_due_state 2000 expiring_db = (Inr report, t)"
    using expiring_runs by blast
  have now: "state_of expiring_db sample_key = Some VerifyPending"
    "expiry_event 2000 expiring_db sample_key = Some ChallengeExpired"
    by code_simp+
  note props = expiry_follows_machine [OF run expiring_ok expiring_sound]
  have "\<exists>s'. after_event VerifyPending (Some ChallengeExpired) s' \<and> state_of t sample_key = Some s'"
    using props [THEN conjunct1, THEN spec, of sample_key] now by simp
  moreover have "\<not> open_for t sample_key" using props now(2) by simp
  ultimately show ?thesis using run by (auto simp: after_event_def)
qed

theorem expiry_never_fails_witness:
  "\<exists>report t. expire_due_state 2000 expiring_db = (Inr report, t)"
  using expiry_never_fails [OF expiring_ok, of 2000] by (simp add: expiring_db_def outbox_row_of_def)


theorem purge_drops_waiting_triggers_witness:
  "\<exists>report t. purge_history (days 400) sample_db = (Inr report, t)
     \<and> pu_status (update_row_of sample_event) = Recorded \<and> update_row_of sample_event \<notin> set (updates t)"
proof -
  have "case fst (purge_history (days 400) sample_db) of Inl _ \<Rightarrow> False | Inr _ \<Rightarrow> True"
    by code_simp
  then obtain report t where run: "purge_history (days 400) sample_db = (Inr report, t)"
    by (auto split: sum.splits) (metis prod.collapse)
  have "update_row_of sample_event \<in> set (updates sample_db)" "outbox sample_db = []" "audit sample_db = []"
    by (simp_all add: sample_db_def)
  moreover have "pu_status (update_row_of sample_event) = Recorded"
    "pu_received_at (update_row_of sample_event) \<le> days 400 - days 7"
    by (simp_all add: update_row_of_def sample_event_def sample_event_with_def duration_defs)
  ultimately show ?thesis
    using run purge_drops_waiting_triggers [OF run, of "update_row_of sample_event"] by simp
qed

end
