(* ===== verification/Owner_Commands.thy ===== *)
theory Owner_Commands
  imports Retention_Service Event_Preparer Owner_Input
begin

section \<open>The owner's commands\<close>

text \<open>
  Models \<open>src/owner/mod.rs\<close>: the authorization of a command's source and the commands. A
  business error is a value, because the caller goes on in the same transaction and commits
  what was written (the security audit of a rejected source); a storage error is a failure,
  for which the caller drops the transaction. The hash of a sample comes from the detector's
  environment, the text of an instant from an argument.
\<close>

subsection \<open>Data\<close>

definition HELP_MESSAGE :: ustring where
  "HELP_MESSAGE = join [10]
     [lit ''owner commands:'',
      lit ''/help - list owner commands'',
      lit ''/health - show connection and dry-run status'',
      lit ''/inspect <chat_id> - show conversation state'',
      lit ''/reset <chat_id> - delete known messages and reset the conversation'',
      lit ''/unblock <chat_id> - clear a local soft block'',
      lit ''/dry_run on|off - set dry-run mode'',
      lit ''/errors [1..20] - show recent errors'',
      lit ''/mark_spam - label the replied message as spam'',
      lit ''/mark_ham - label the replied message as ham'']"

record labeled_message_body =
  lb_body :: ustring
  lb_content_type :: string
  lb_source_chat_id :: "i64 option"
  lb_source_message_id :: "i64 option"

record owner_command_source =
  src_from_user_id :: i64
  src_chat_id :: i64
  src_private_chat :: bool
  src_replied_sample :: "labeled_message_body option"

record authorized_owner =
  ow_identity :: owner_identity
  ow_owner_user_id :: i64
  ow_owner_chat_id :: i64
  ow_connection :: "business_connection_record option"

datatype owner_telegram_action = DeleteMessagesAction conversation_key "i64 list"

record owner_command_execution =
  ex_response :: ustring
  ex_telegram_actions :: "owner_telegram_action list"

definition plain :: "ustring \<Rightarrow> owner_command_execution" where
  "plain response = \<lparr>ex_response = response, ex_telegram_actions = []\<rparr>"

text \<open>\<open>OwnerCommandError\<close> without its \<open>Storage\<close> variant, which is \<open>owner_storage_error\<close>.\<close>

datatype owner_command_error =
    Unauthorized
  | MissingSample
  | InvalidSample
  | BusinessRightsUnavailable
  | TargetNotFound
  | TargetNotBlocked

fun owner_command_error_text :: "owner_command_error \<Rightarrow> ustring" where
  "owner_command_error_text Unauthorized = lit ''unauthorized owner command''"
| "owner_command_error_text MissingSample = lit ''a replied text or caption sample is required''"
| "owner_command_error_text InvalidSample = lit ''sample body or content type is invalid''"
| "owner_command_error_text BusinessRightsUnavailable =
     lit ''Business connection or required rights are unavailable''"
| "owner_command_error_text TargetNotFound = lit ''target conversation was not found''"
| "owner_command_error_text TargetNotBlocked = lit ''target conversation is not soft blocked''"

datatype owner_storage_error = OwnerStorage storage_error | ForeignOwnerConnection

type_synonym 'a cop = "(database, owner_storage_error, owner_command_error + 'a) op"

abbreviation cst :: "(database, storage_error, 'a) op \<Rightarrow> (database, owner_storage_error, 'a) op" where
  "cst m \<equiv> map_err OwnerStorage m"

text \<open>\<open>?\<close> on a business error.\<close>

definition and_then_ok ::
  "('s, 'e, 'f + 'a) op \<Rightarrow> ('a \<Rightarrow> ('s, 'e, 'f + 'b) op) \<Rightarrow> ('s, 'e, 'f + 'b) op" where
  "and_then_ok m f = and_then m (\<lambda>r. case r of Inl e \<Rightarrow> ret (Inl e) | Inr x \<Rightarrow> f x)"

definition accepted :: "'a \<Rightarrow> ('s, 'e, 'f + 'a) op" where
  "accepted x = ret (Inr x)"

definition rejected :: "'f \<Rightarrow> ('s, 'e, 'f + 'a) op" where
  "rejected e = ret (Inl e)"

definition require :: "'f \<Rightarrow> 'a option \<Rightarrow> ('s, 'e, 'f + 'a) op" where
  "require e x = ret (ok_or e x)"

subsection \<open>Audits\<close>

definition append_audit :: "(i64 \<Rightarrow> audit_row) \<Rightarrow> (database, storage_error, unit) op" where
  "append_audit row =
     modify (\<lambda>d. d\<lparr>audit := audit d @ [row (audit_seq d + 1)], audit_seq := audit_seq d + 1\<rparr>)"

definition security_audit_row :: "timestamp \<Rightarrow> i64 \<Rightarrow> audit_row" where
  "security_audit_row now i =
     \<lparr>ae_id = i, ae_source_update_id = None, ae_key = None, ae_event_kind = ''SECURITY'',
      ae_state_before = None, ae_state_after = None, ae_score = None, ae_reasons_json = None,
      ae_rule_ids_json = None, ae_normalized_hash = None, ae_rule_version = None,
      ae_error_code = Some ''OWNER_COMMAND_UNAUTHORIZED'',
      ae_error_message = Some (lit ''owner command source rejected''), ae_occurred_at = now\<rparr>"

definition insert_security_audit :: "timestamp \<Rightarrow> (database, storage_error, unit) op" where
  "insert_security_audit now = append_audit (security_audit_row now)"

definition recovery_audit_row :: "conversation_key \<Rightarrow> string \<Rightarrow> timestamp \<Rightarrow> i64 \<Rightarrow> audit_row" where
  "recovery_audit_row key action now i =
     \<lparr>ae_id = i, ae_source_update_id = None, ae_key = Some key, ae_event_kind = ''OWNER_RECOVERY'',
      ae_state_before = None, ae_state_after = None, ae_score = None, ae_reasons_json = None,
      ae_rule_ids_json = None, ae_normalized_hash = None, ae_rule_version = None,
      ae_error_code = None, ae_error_message = Some (lit action), ae_occurred_at = now\<rparr>"

definition insert_recovery_audit ::
  "conversation_key \<Rightarrow> string \<Rightarrow> timestamp \<Rightarrow> (database, storage_error, unit) op" where
  "insert_recovery_audit key action now = append_audit (recovery_audit_row key action now)"

subsection \<open>Authorization\<close>

definition source_accepted :: "owner_command_source \<Rightarrow> i64 \<Rightarrow> i64 \<Rightarrow> owner_chat_source \<Rightarrow> bool" where
  "source_accepted source user chat chat_source \<longleftrightarrow>
     \<not> (\<not> src_private_chat source \<or> src_from_user_id source \<noteq> user \<or> src_chat_id source \<le> 0
        \<or> (chat_source \<noteq> LegacyFallback \<and> src_chat_id source \<noteq> chat))"

definition authorize :: "owner_command_source \<Rightarrow> timestamp \<Rightarrow> authorized_owner cop" where
  "authorize source now =
     and_then (cst load_owner_identity) (\<lambda>i.
     case i of
       Unclaimed \<Rightarrow> and_then (cst (insert_security_audit now)) (\<lambda>_. rejected Unauthorized)
     | Claimed user chat chat_source _ _ \<Rightarrow>
         if \<not> source_accepted source user chat chat_source
         then and_then (cst (insert_security_audit now)) (\<lambda>_. rejected Unauthorized)
         else
           and_then
             (if chat_source = LegacyFallback
              then cst (promote_owner_chat user (src_chat_id source) PrivateMessage)
              else ret i) (\<lambda>i.
           and_then (cst find_single_business_connection) (\<lambda>connection.
             if is_some_and (\<lambda>b. bc_owner_user_id b \<noteq> user) connection
             then fail ForeignOwnerConnection
             else accepted \<lparr>ow_identity = i, ow_owner_user_id = user, ow_owner_chat_id = owner_chat_id i,
                        ow_connection = connection\<rparr>)))"

definition required_connection :: "authorized_owner \<Rightarrow> business_connection_record cop" where
  "required_connection who = require BusinessRightsUnavailable (ow_connection who)"

subsection \<open>Commands\<close>

definition health :: "timestamp \<Rightarrow> bool \<Rightarrow> ustring cop" where
  "health now default_destructive_mode d =
     (case classify_readiness_in now d of
        Inl _ \<Rightarrow> Inr (Inr (lit ''status=unavailable''), d)
      | Inr (snapshot, d) \<Rightarrow>
          Inr (Inr (lit ''status=ok owner=claimed connection=''
                 @ lit (connection_health_as_str (hs_connection snapshot)) @ lit '' dry_run=''
                 @ lit (if destructive_setting default_destructive_mode d then ''off'' else ''on'')), d))"

definition inspect :: "business_connection_record \<Rightarrow> i64 \<Rightarrow> ustring cop" where
  "inspect connection chat =
     and_then (cst (find_conversation \<lparr>connection_id = bc_connection_id connection, chat_id = chat\<rparr>)) (\<lambda>found.
     and_then_ok (require TargetNotFound found) (\<lambda>c.
       accepted (lit ''chat_id='' @ show_int chat @ lit '' state='' @ lit (state_as_str (cv_state c))
             @ lit '' block_reason=''
             @ lit (case cv_block_reason c of None \<Rightarrow> ''none'' | Some r \<Rightarrow> r)
             @ lit '' block_count='' @ show_int (cv_block_count c))))"

definition prompt_message_ids :: "conversation_key \<Rightarrow> 'ev db \<Rightarrow> i64 list" where
  "prompt_message_ids key d =
     map (the \<circ> ch_prompt_message_id)
       (filter (\<lambda>c. ch_key c = key \<and> ch_prompt_message_id c \<noteq> None) (challenges d))"

definition in_conversation :: "conversation_key \<Rightarrow> outbox_row \<Rightarrow> bool" where
  "in_conversation key r \<longleftrightarrow>
     ob_connection_id r = Some (connection_id key) \<and> ob_chat_id r = Some (chat_id key)"

definition reset_row :: "timestamp \<Rightarrow> conversation \<Rightarrow> conversation" where
  "reset_row now v = v\<lparr>cv_state := New, cv_block_expires_at := None, cv_block_reason := None,
     cv_block_count := 0, cv_updated_at := now, cv_state_version := cv_state_version v + 1\<rparr>"

text \<open>The four statements that clear a conversation.\<close>

definition clear_conversation :: "conversation_key \<Rightarrow> timestamp \<Rightarrow> (database, storage_error, unit) op" where
  "clear_conversation key now =
     and_then (modify (\<lambda>d. d\<lparr>outbox :=
       delete_where (\<lambda>r. in_conversation key r \<and> unfinished r) (outbox d)\<rparr>)) (\<lambda>_.
     and_then (modify (\<lambda>d. d\<lparr>challenges := delete_where (\<lambda>c. ch_key c = key) (challenges d)\<rparr>)) (\<lambda>_.
     and_then (modify (\<lambda>d. d\<lparr>ledger := delete_where (\<lambda>m. lm_key m = key) (ledger d)\<rparr>)) (\<lambda>_.
     modify (\<lambda>d. d\<lparr>conversations :=
       update_where (\<lambda>v. cv_key v = key) (reset_row now) (conversations d)\<rparr>))))"

definition reset_conversation ::
  "business_connection_record \<Rightarrow> i64 \<Rightarrow> timestamp \<Rightarrow> owner_command_execution cop" where
  "reset_conversation connection chat now =
     (let key = \<lparr>connection_id = bc_connection_id connection, chat_id = chat\<rparr>
      in and_then (cst (find_conversation key)) (\<lambda>found.
         and_then_ok (require TargetNotFound found) (\<lambda>_.
         and_then (cst (eligible_deletion_ids key)) (\<lambda>eligible.
         and_then (gets (prompt_message_ids key)) (\<lambda>prompts.
         let ids = remdups_adj (sort (eligible @ prompts))
         in and_then (cst (clear_conversation key now)) (\<lambda>_.
            and_then (cst (insert_recovery_audit key ''reset'' now)) (\<lambda>_.
              accepted \<lparr>ex_response = lit ''reset chat_id='' @ show_int chat @ lit '' telegram_delete=''
                      @ lit (if ids = [] then ''none'' else ''queued'') @ lit '' message_count=''
                      @ show_int (int (length ids)),
                    ex_telegram_actions =
                      (if ids = [] then [] else [DeleteMessagesAction key ids])\<rparr>)))))))"

definition soft_blocked :: "conversation \<Rightarrow> bool" where
  "soft_blocked v \<longleftrightarrow> cv_state v = TempSoftBlocked \<or> cv_state v = SpamSoftBlocked"

definition unblock_conversation ::
  "business_connection_record \<Rightarrow> i64 \<Rightarrow> timestamp \<Rightarrow> ustring cop" where
  "unblock_conversation connection chat now =
     (let key = \<lparr>connection_id = bc_connection_id connection, chat_id = chat\<rparr>;
          here = (\<lambda>v. cv_key v = key \<and> soft_blocked v)
      in and_then (gets (\<lambda>d. count_where here (conversations d))) (\<lambda>changed.
         and_then (modify (\<lambda>d. d\<lparr>conversations :=
           update_where here (unblocked_row now) (conversations d)\<rparr>)) (\<lambda>_.
         if changed = 0
         then
           and_then (gets (\<lambda>d. find_row (\<lambda>v. cv_key v = key) (conversations d))) (\<lambda>state.
             case state of
               None \<Rightarrow> rejected TargetNotFound
             | Some _ \<Rightarrow> rejected TargetNotBlocked)
         else
           and_then (cst (close_active_challenge key now)) (\<lambda>_.
           and_then (cst (insert_recovery_audit key ''unblock'' now)) (\<lambda>_.
             accepted (lit ''unblocked chat_id='' @ show_int chat))))))"

definition all_rights_granted :: "business_connection_record \<Rightarrow> bool" where
  "all_rights_granted b \<longleftrightarrow>
     (case decode_rights False False (bc_rights_json b) of
        None \<Rightarrow> False
      | Some r \<Rightarrow> bc_enabled b \<and> can_reply r \<and> can_read_messages r \<and> can_delete_sent_messages r
          \<and> can_delete_all_messages r)"

definition set_dry_run :: "business_connection_record option \<Rightarrow> bool \<Rightarrow> timestamp \<Rightarrow> ustring cop" where
  "set_dry_run connection enabled now =
     and_then_ok
       (if enabled then accepted ()
        else
          and_then_ok (require BusinessRightsUnavailable connection) (\<lambda>b.
            if all_rights_granted b then accepted () else rejected BusinessRightsUnavailable)) (\<lambda>_.
     and_then (modify (set_setting ''destructive_mode'' (if enabled then ''false'' else ''true''))) (\<lambda>_.
       accepted (lit ''dry_run='' @ lit (if enabled then ''on'' else ''off''))))"

text \<open>\<open>ORDER BY occurred_at DESC, id DESC\<close>: two stable sorts.\<close>

definition recent_errors :: "(timestamp \<Rightarrow> ustring) \<Rightarrow> byte \<Rightarrow> ustring cop" where
  "recent_errors rfc limit =
     and_then (gets (\<lambda>d. take (unat limit)
       (sort_key (\<lambda>a. - ae_occurred_at a) (sort_key (\<lambda>a. - ae_id a)
         (filter (\<lambda>a. ae_error_code a \<noteq> None) (audit d)))))) (\<lambda>rows.
     if rows = [] then accepted (lit ''no errors'')
     else accepted (join [10] (map (\<lambda>a. rfc (ae_occurred_at a) @ lit '' ''
            @ lit (case ae_error_code a of None \<Rightarrow> ''unknown'' | Some c \<Rightarrow> c) @ lit '' ''
            @ (case ae_error_message a of None \<Rightarrow> [] | Some m \<Rightarrow> m)) rows)))"

definition sample_row_of :: "detection_env \<Rightarrow> labeled_message_body \<Rightarrow> timestamp \<Rightarrow> sample_row" where
  "sample_row_of env s now =
     \<lparr>sp_body = lb_body s, sp_content_type = lb_content_type s,
      sp_normalized_hash = normalized_text_hash env (lb_body s),
      sp_source_chat_id = lb_source_chat_id s, sp_source_message_id = lb_source_message_id s,
      sp_labeled_at = now\<rparr>"

definition label_sample ::
  "detection_env \<Rightarrow> string \<Rightarrow> labeled_message_body option \<Rightarrow> timestamp \<Rightarrow> ustring cop" where
  "label_sample env table sample now =
     and_then_ok (require MissingSample sample) (\<lambda>s.
     if trim (lb_body s) = [] \<or> lb_content_type s \<notin> {''text'', ''caption''}
     then rejected InvalidSample
     else if table = ''spam_sample''
     then and_then (modify (\<lambda>d. d\<lparr>spam_samples := spam_samples d @ [sample_row_of env s now]\<rparr>)) (\<lambda>_.
            accepted (lit ''sample=spam stored''))
     else if table = ''ham_sample''
     then and_then (modify (\<lambda>d. d\<lparr>ham_samples := ham_samples d @ [sample_row_of env s now]\<rparr>)) (\<lambda>_.
            accepted (lit ''sample=ham stored''))
     else rejected InvalidSample)"

record owner_command_service =
  os_now :: timestamp
  os_default_destructive_mode :: bool

definition and_plain :: "ustring cop \<Rightarrow> owner_command_execution cop" where
  "and_plain m = and_then_ok m (\<lambda>t. accepted (plain t))"

definition execute_authorized ::
  "detection_env \<Rightarrow> (timestamp \<Rightarrow> ustring) \<Rightarrow> owner_command_service \<Rightarrow> owner_command
   \<Rightarrow> owner_command_source \<Rightarrow> authorized_owner \<Rightarrow> owner_command_execution cop" where
  "execute_authorized env rfc service command source who =
     (case command of
        Help \<Rightarrow> accepted (plain HELP_MESSAGE)
      | Health \<Rightarrow> and_plain (health (os_now service) (os_default_destructive_mode service))
      | Inspect chat \<Rightarrow>
          and_plain (and_then_ok (required_connection who) (\<lambda>b. inspect b chat))
      | Reset chat \<Rightarrow>
          and_then_ok (required_connection who) (\<lambda>b. reset_conversation b chat (os_now service))
      | Unblock chat \<Rightarrow>
          and_plain (and_then_ok (required_connection who)
            (\<lambda>b. unblock_conversation b chat (os_now service)))
      | DryRun enabled \<Rightarrow> and_plain (set_dry_run (ow_connection who) enabled (os_now service))
      | Errors limit \<Rightarrow> and_plain (recent_errors rfc limit)
      | MarkSpam \<Rightarrow>
          and_plain (label_sample env ''spam_sample'' (src_replied_sample source) (os_now service))
      | MarkHam \<Rightarrow>
          and_plain (label_sample env ''ham_sample'' (src_replied_sample source) (os_now service)))"

definition execute_owner_command ::
  "detection_env \<Rightarrow> (timestamp \<Rightarrow> ustring) \<Rightarrow> owner_command_service \<Rightarrow> owner_command
   \<Rightarrow> owner_command_source \<Rightarrow> owner_command_execution cop" where
  "execute_owner_command env rfc service command source =
     and_then_ok (authorize source (os_now service)) (\<lambda>who.
       execute_authorized env rfc service command source who)"

end
