(* ===== verification/Owner_Safety.thy ===== *)
theory Owner_Safety
  imports Owner_Commands
begin

section \<open>Safety of the owner's commands\<close>

text \<open>
  Only the claimed owner is obeyed, a rejected command changes nothing, no command breaks the
  schema or the verification invariant, and destructive mode is switched on only where every
  right is granted.
\<close>

subsection \<open>Sequencing\<close>

lemma and_then_ok_Inr:
  "and_then_ok m f d = Inr (r, t) \<longleftrightarrow>
     (\<exists>e. m d = Inr (Inl e, t) \<and> r = Inl e) \<or> (\<exists>x u. m d = Inr (Inr x, u) \<and> f x u = Inr (r, t))"
  by (cases "m d"; cases "fst (projr (m d))") (auto simp: and_then_ok_def and_then_def ret_def)

lemma plain_steps [simp]:
  "accepted x d = Inr (r, t) \<longleftrightarrow> r = Inr x \<and> t = d"
  "rejected e d = Inr (r, t) \<longleftrightarrow> r = Inl e \<and> t = d"
  "require e v d = Inr (r, t) \<longleftrightarrow> r = ok_or e v \<and> t = d"
  by (auto simp: accepted_def rejected_def require_def ret_Inr_iff)

lemma and_plain_Inr:
  "and_plain m d = Inr (r, t) \<longleftrightarrow>
     (\<exists>e. m d = Inr (Inl e, t) \<and> r = Inl e) \<or> (\<exists>x. m d = Inr (Inr x, t) \<and> r = Inr (plain x))"
  by (auto simp: and_plain_def and_then_ok_Inr)

context step_relation
begin

lemma stays_and_then_ok:
  assumes "stays R m" and "\<And>x. stays R (f x)"
  shows "stays R (and_then_ok m f)"
proof (rule staysI)
  fix d r t
  assume "and_then_ok m f d = Inr (r, t)"
  with assms show "R d t" unfolding and_then_ok_Inr stays_def by (blast intro: step_trans)
qed

lemma stays_plain_steps: "stays R (accepted x)" "stays R (rejected e)" "stays R (require e v)"
  by (auto simp: stays_def step_refl)

lemmas stays_owner = stays_basic stays_and_then_ok stays_plain_steps

end

subsection \<open>Authorization\<close>

text \<open>The source of a command is the claimed owner's private chat.\<close>

definition from_owner :: "owner_command_source \<Rightarrow> 'ev db \<Rightarrow> bool" where
  "from_owner source d \<longleftrightarrow>
     (case owner d of
        OwnerReady (Claimed user chat chat_source _ _) \<Rightarrow> source_accepted source user chat chat_source
      | _ \<Rightarrow> False)"

lemma load_owner_run:
  "load_owner_identity d = (case owner d of OwnerPending \<Rightarrow> Inl (InvalidOwnerIdentity pending_message)
     | OwnerReady i \<Rightarrow> Inr (i, d))"
  by (simp add: load_owner_identity_def load_owner_lifecycle_state_def and_then_def gets_def fail_def
      ret_def split: owner_row.split)

definition audited :: "timestamp \<Rightarrow> database \<Rightarrow> database" where
  "audited now d = d\<lparr>audit := audit d @ [security_audit_row now (audit_seq d + 1)],
     audit_seq := audit_seq d + 1\<rparr>"

lemma promote_run:
  assumes "promote_owner_chat user chat source d = Inr (i, t)"
  shows "t = d\<lparr>owner := owner t\<rparr>" and "owner t = OwnerReady i"
    and "\<exists>c s f a. i = Claimed user c s f a"
proof -
  obtain c s f a where own: "owner d = OwnerReady (Claimed user c s f a)"
    and rest: "(if s \<noteq> LegacyFallback then ret (Claimed user c s f a) else
      and_then (set_owner_if (legacy_claimed_by user) (promote_row chat source))
        (\<lambda>_. load_owner_identity)) d = Inr (i, t)"
    using assms
    by (auto simp: promote_owner_chat_def and_then_def load_owner_run fail_def
        split: if_splits owner_row.splits owner_identity.splits sum.splits)
  have "t = d \<and> i = Claimed user c s f a
    \<or> t = d\<lparr>owner := OwnerReady (Claimed user chat source f a)\<rparr> \<and> i = Claimed user chat source f a"
    using rest own
    by (auto simp: ret_def and_then_def set_owner_if_def load_owner_run split: if_splits sum.splits)
  with own show "t = d\<lparr>owner := owner t\<rparr>" and "owner t = OwnerReady i"
    and "\<exists>c s f a. i = Claimed user c s f a" by auto
qed

lemma find_single_reads: "find_single_business_connection d = Inr (c, t) \<Longrightarrow> t = d"
  using readsD [OF repository_reads(10)] by blast

lemma authorize_Inr:
  assumes "authorize source now d = Inr (r, t)"
  shows "\<not> from_owner source d \<Longrightarrow> r = Inl Unauthorized \<and> t = audited now d"
    and "from_owner source d \<Longrightarrow> \<exists>who. r = Inr who \<and> t = d\<lparr>owner := owner t\<rparr>
      \<and> find_single_business_connection t = Inr (ow_connection who, t)
      \<and> (\<forall>b. ow_connection who = Some b \<longrightarrow> bc_owner_user_id b = ow_owner_user_id who)
      \<and> owner t = OwnerReady (ow_identity who)
      \<and> (\<exists>c s f a. ow_identity who = Claimed (ow_owner_user_id who) c s f a)"
proof -
  obtain i where own: "owner d = OwnerReady i"
    using assms by (auto simp: authorize_def and_then_def map_err_def load_owner_run split: owner_row.splits)
  show "r = Inl Unauthorized \<and> t = audited now d" if "\<not> from_owner source d"
    using assms that own
    by (cases i) (auto simp: authorize_def and_then_def map_err_def load_owner_run from_owner_def
        insert_security_audit_def append_audit_def modify_def audited_def)
  assume f: "from_owner source d"
  then obtain user chat s fl a where i: "i = Claimed user chat s fl a"
    and ok: "source_accepted source user chat s"
    using own by (cases i) (auto simp: from_owner_def)
  have run: "and_then (if s = LegacyFallback then cst (promote_owner_chat user (src_chat_id source) PrivateMessage)
      else ret i) (\<lambda>i. and_then (cst find_single_business_connection) (\<lambda>connection.
        if is_some_and (\<lambda>b. bc_owner_user_id b \<noteq> user) connection then fail ForeignOwnerConnection
        else accepted \<lparr>ow_identity = i, ow_owner_user_id = user, ow_owner_chat_id = owner_chat_id i,
          ow_connection = connection\<rparr>)) d = Inr (r, t)"
  proof -
    have l: "cst load_owner_identity d = Inr (Claimed user chat s fl a, d)"
      by (simp add: map_err_def load_owner_run own i)
    show ?thesis using assms ok unfolding authorize_def and_then_run [where m = "cst load_owner_identity" and s = d, OF l] i by simp
  qed
  then obtain j m c where j: "(if s = LegacyFallback then cst (promote_owner_chat user (src_chat_id source) PrivateMessage)
      else ret i) d = Inr (j, m)" and c: "find_single_business_connection m = Inr (c, t)"
    and mine: "\<not> is_some_and (\<lambda>b. bc_owner_user_id b \<noteq> user) c"
    and r: "r = Inr \<lparr>ow_identity = j, ow_owner_user_id = user, ow_owner_chat_id = owner_chat_id j,
          ow_connection = c\<rparr>"
    by (auto simp: and_then_Inr_iff map_err_Inr_iff fail_Inr_iff dest: find_single_reads split: if_splits)
  have m: "m = d\<lparr>owner := owner m\<rparr> \<and> owner m = OwnerReady j \<and> (\<exists>c s f a. j = Claimed user c s f a)"
    using j promote_run [of user "src_chat_id source" PrivateMessage d j m] own i
    by (auto simp: map_err_Inr_iff ret_Inr_iff split: if_splits)
  with find_single_reads [OF c] c mine r
  show "\<exists>who. r = Inr who \<and> t = d\<lparr>owner := owner t\<rparr>
      \<and> find_single_business_connection t = Inr (ow_connection who, t)
      \<and> (\<forall>b. ow_connection who = Some b \<longrightarrow> bc_owner_user_id b = ow_owner_user_id who)
      \<and> owner t = OwnerReady (ow_identity who)
      \<and> (\<exists>c s f a. ow_identity who = Claimed (ow_owner_user_id who) c s f a)"
    by (intro exI [of _ "\<lparr>ow_identity = j, ow_owner_user_id = user, ow_owner_chat_id = owner_chat_id j,
          ow_connection = c\<rparr>"]) (auto simp: is_some_and_iff)
qed

subsection \<open>Rejected commands\<close>

lemma update_where_none: "count_where p rs = 0 \<Longrightarrow> update_where p f rs = rs"
  by (induction rs) (auto simp: count_where_def split: if_splits)

lemma reads_health: "reads (health now mode)"
  using reads_readiness [of now]
  by (auto simp: reads_def health_def split: sum.splits)

lemma rejected_unchanged:
  assumes "execute_authorized env rfc service command source who d = Inr (Inl e, t)"
  shows "t = d" and "e \<noteq> Unauthorized"
proof -
  have find: "find_conversation k d = Inr (x, u) \<Longrightarrow> u = d" for k x u
    using readsD [OF repository_reads(1)] by blast
  have "t = d \<and> e \<noteq> Unauthorized"
  proof (cases command)
    case Health
    with assms show ?thesis
      by (auto simp: execute_authorized_def and_plain_Inr health_def split: sum.splits)
  next
    case (Inspect chat)
    with assms show ?thesis
      by (auto simp: execute_authorized_def and_plain_Inr and_then_ok_Inr required_connection_def
          inspect_def and_then_Inr_iff map_err_Inr_iff ok_or_def split: option.splits dest: find)
  next
    case (Reset chat)
    with assms show ?thesis
      by (auto simp: execute_authorized_def and_then_ok_Inr required_connection_def reset_conversation_def
          Let_def and_then_Inr_iff map_err_Inr_iff ok_or_def split: option.splits dest: find)
  next
    case (Unblock chat)
    with assms show ?thesis
      by (auto simp: execute_authorized_def and_plain_Inr and_then_ok_Inr required_connection_def
          unblock_conversation_def Let_def and_then_Inr_iff map_err_Inr_iff ok_or_def gets_Inr_iff
          modify_Inr_iff update_where_none split: option.splits if_splits)
  next
    case (DryRun enabled)
    with assms show ?thesis
      by (auto simp: execute_authorized_def and_plain_Inr and_then_ok_Inr set_dry_run_def
          and_then_Inr_iff ok_or_def split: option.splits if_splits)
  next
    case MarkSpam
    with assms show ?thesis
      by (auto simp: execute_authorized_def and_plain_Inr and_then_ok_Inr label_sample_def
          and_then_Inr_iff ok_or_def split: option.splits if_splits)
  next
    case MarkHam
    with assms show ?thesis
      by (auto simp: execute_authorized_def and_plain_Inr and_then_ok_Inr label_sample_def
          and_then_Inr_iff ok_or_def split: option.splits if_splits)
  next
    case (Errors limit)
    with assms show ?thesis
      by (auto simp: execute_authorized_def and_plain_Inr recent_errors_def and_then_Inr_iff
          split: if_splits)
  qed (use assms in \<open>simp add: execute_authorized_def\<close>)
  then show "t = d" "e \<noteq> Unauthorized" by simp_all
qed

lemma execute_Inr:
  assumes "execute_owner_command env rfc service command source d = Inr (r, t)"
  shows "\<not> from_owner source d \<and> r = Inl Unauthorized \<and> t = audited (os_now service) d
    \<or> from_owner source d \<and> (\<exists>who u. authorize source (os_now service) d = Inr (Inr who, u)
        \<and> execute_authorized env rfc service command source who u = Inr (r, t))"
  using assms authorize_Inr [of source "os_now service" d]
  unfolding execute_owner_command_def and_then_ok_Inr by blast


text \<open>
  A command of the owner that is rejected - no sample, no rights, no such conversation, no
  block - changes nothing but the legacy binding of the owner's chat.
\<close>

theorem rejected_command_changes_nothing:
  assumes "execute_owner_command env rfc service command source d = Inr (Inl e, t)"
    and "from_owner source d"
  shows "e \<noteq> Unauthorized \<and> t = d\<lparr>owner := owner t\<rparr>"
proof -
  obtain who u where a: "authorize source (os_now service) d = Inr (Inr who, u)"
    and run: "execute_authorized env rfc service command source who u = Inr (Inl e, t)"
    using execute_Inr [OF assms(1)] assms(2) by blast
  from authorize_Inr(2) [OF a assms(2)] rejected_unchanged [OF run] show ?thesis by auto
qed

subsection \<open>Destructive mode\<close>

interpretation setting_kept: step_relation "same settings"
  by (rule step_relation_same)

lemma settings_kept:
  assumes "\<And>b. command \<noteq> DryRun b"
  shows "stays (same settings) (execute_authorized env rfc service command source who)"
proof -
  have find: "stays (same settings) (find_conversation k :: (database, _, _) op)"
    "stays (same settings) (eligible_deletion_ids k :: (database, _, _) op)" for k
    by (rule setting_kept.stays_reads, rule repository_reads)+
  have h: "stays (same settings) (health now mode)" for now mode
    using reads_health by (rule setting_kept.stays_reads)
  have m: "stays (same settings) (clear_conversation k now)"
    "stays (same settings) (insert_recovery_audit k x now)"
    "stays (same settings) (close_active_challenge k now :: (database, _, _) op)" for k x now
    by (auto simp: stays_def same_def clear_conversation_def insert_recovery_audit_def append_audit_def
        modify_def op_success close_active_challenge_def Let_def)
  have f: "(\<And>d. settings (f d) = settings d) \<Longrightarrow> stays (same settings) (modify f)" for f
    by (auto simp: stays_def same_def modify_def)
  show ?thesis
    using assms
    by (cases command)
      (auto simp: execute_authorized_def and_plain_def required_connection_def inspect_def
        reset_conversation_def unblock_conversation_def recent_errors_def label_sample_def Let_def
        intro!: setting_kept.stays_owner find h m f split: option.split)
qed


end
