(* ===== verification/Command_Effects.thy ===== *)
theory Command_Effects
  imports Owner_Safety Outbox_Correctness Retention_Safety
begin

section \<open>Effects of the owner's commands\<close>

text \<open>
  Every command leaves the database sound and the outbox as the worker expects it, and a reset
  forgets exactly one conversation. \<open>safe_step\<close> is the relation every writer of the program
  is shown to stay in.
\<close>

subsection \<open>Safe steps\<close>

definition safe_step :: "database \<Rightarrow> database \<Rightarrow> bool" where
  "safe_step d t \<longleftrightarrow> outbox_evolves d t \<and> (db_ok d \<longrightarrow> verify_sound d \<longrightarrow> verify_sound t)"

interpretation safe: step_relation safe_step
proof
  show "safe_step d d" for d by (simp add: safe_step_def evolves.step_refl)
  show "safe_step d u" if "safe_step d t" "safe_step t u" for d t u
    using that evolves.step_trans unfolding safe_step_def outbox_evolves_def by blast
qed

lemma safe_if: "stays outbox_evolves m \<Longrightarrow> stays (keeps verify_sound) m \<Longrightarrow> stays safe_step m"
  by (auto simp: stays_def safe_step_def keeps_def)

lemma safe_frame:
  "stays (same core) m \<Longrightarrow> stays (same queue_of) m \<Longrightarrow> stays (keeps db_ok) m \<Longrightarrow> stays safe_step m"
  by (intro safe_if evolves_queue sound_if_core)

lemma queue_same_evolves:
  fixes d u :: database
  assumes "db_ok d \<Longrightarrow> db_ok u" and "queue_of u = queue_of d"
  shows "outbox_evolves d u"
  using assms ob_at_frame [of u d]
  by (auto simp: outbox_evolves_def other_writes_def row_progress_def queue_of_def split: option.split)

lemma safe_reads: "reads m \<Longrightarrow> stays safe_step m"
  by (rule safe.stays_reads)

text \<open>Writes to the tables neither invariant speaks of.\<close>

definition guarded ::
  "'ev db \<Rightarrow> business_connection_record list \<times> conversation list \<times> ledger_row list \<times> challenge_row list
     \<times> i64 \<times> 'ev update_row list \<times> outbox_row list \<times> i64" where
  "guarded d = (connections d, conversations d, ledger d, challenges d, challenge_seq d, updates d,
     outbox d, outbox_seq d)"

lemma safe_unguarded:
  assumes "stays (same guarded) m"
  shows "stays safe_step m"
  using assms
  by (intro safe_frame)
    (auto simp: stays_def same_def keeps_def guarded_def core_def queue_of_def ok_defs)

lemma safe_modify: "(\<And>d. guarded (f d) = guarded d) \<Longrightarrow> stays safe_step (modify f)"
  by (rule safe_unguarded) (auto simp: stays_def same_def modify_def)

subsection \<open>Commands are safe\<close>

lemma safe_audits:
  "stays safe_step (insert_security_audit now)" "stays safe_step (insert_recovery_audit key action now)"
  unfolding insert_security_audit_def insert_recovery_audit_def append_audit_def
  by (intro safe_modify; simp add: guarded_def)+

lemma safe_promote: "stays safe_step (promote_owner_chat user chat source)"
proof (rule safe_unguarded, rule staysI)
  fix d t i
  assume "promote_owner_chat user chat source d = Inr (i, t)"
  then have "t = d\<lparr>owner := owner t\<rparr>" by (rule promote_run)
  then show "same guarded d t" by (metis db.update_convs(12) db.surjective db.select_convs same_def guarded_def)
qed

lemma safe_authorize: "stays safe_step (authorize source now)"
  unfolding authorize_def
  by (auto intro!: safe.stays_owner safe_audits safe_promote safe_reads [OF reads_load_owner(2)]
      safe_reads [OF repository_reads(10)] split: owner_identity.split)

text \<open>The database after the four statements of a reset.\<close>

definition cleared :: "conversation_key \<Rightarrow> timestamp \<Rightarrow> 'ev db \<Rightarrow> 'ev db" where
  "cleared key now d = d\<lparr>
     outbox := delete_where (\<lambda>r. in_conversation key r \<and> unfinished r) (outbox d),
     challenges := delete_where (\<lambda>c. ch_key c = key) (challenges d),
     ledger := delete_where (\<lambda>m. lm_key m = key) (ledger d),
     conversations := update_where (\<lambda>v. cv_key v = key) (reset_row now) (conversations d)\<rparr>"

lemma clear_run: "clear_conversation key now d = Inr (x, t) \<longleftrightarrow> t = cleared key now d"
  by (simp add: clear_conversation_def and_then_def modify_def cleared_def) auto

lemma reset_row_key [simp]: "cv_key (reset_row now v) = cv_key v" "cv_state (reset_row now v) = New"
  by (simp_all add: reset_row_def)

lemma cleared_obs:
  "row_of (cleared key now d) k
     = map_option (\<lambda>v. if k = key then reset_row now v else v) (row_of d k)"
  "open_for (cleared key now d) k \<longleftrightarrow> k \<noteq> key \<and> open_for d k"
proof -
  have "map_option (\<lambda>v. if cv_key v = key then reset_row now v else v) (row_of d k)
      = map_option (\<lambda>v. if k = key then reset_row now v else v) (row_of d k)"
    by (cases "row_of d k") (auto dest: row_of_key)
  then show "row_of (cleared key now d) k
      = map_option (\<lambda>v. if k = key then reset_row now v else v) (row_of d k)"
    by (simp add: row_of_def cleared_def find_row_update_where)
  show "open_for (cleared key now d) k \<longleftrightarrow> k \<noteq> key \<and> open_for d k"
    by (auto simp: open_for_def cleared_def)
qed

lemma cleared_ok:
  assumes "db_ok d"
  shows "db_ok (cleared key now d)"
proof -
  have open_rows: "filter open_challenge (delete_where (\<lambda>c. ch_key c = key) (challenges d))
      = filter (\<lambda>c. ch_key c \<noteq> key) (filter open_challenge (challenges d))"
    by (simp add: delete_where_def conj_commute)
  show ?thesis
    using assms unfolding cleared_def
    by (auto simp: ok_defs table_simps distinct_map_delete_where open_rows in_update_where_iff
        distinct_map_filter simp del: filter_filter)
qed

lemma cleared_evolves: "outbox_evolves d (cleared key now d)"
proof -
  have "other_writes d (cleared key now d)" if ok: "db_ok d"
  proof -
    have at: "ob_at d i = Some q" if "ob_at (cleared key now d) i = Some q" for i q
    proof -
      have "q \<in> set (outbox (cleared key now d))" "ob_id q = i"
        using cleared_ok [OF ok] that by (simp_all add: ob_at_iff)
      then show ?thesis using ok by (simp add: ob_at_iff cleared_def)
    qed
    moreover have "outbox_seq (cleared key now d) = outbox_seq d" by (simp add: cleared_def)
    ultimately show ?thesis by (auto simp: other_writes_def row_progress_def)
  qed
  with cleared_ok show ?thesis by (auto simp: outbox_evolves_def)
qed

lemma safe_clear: "stays safe_step (clear_conversation key now)"
proof (rule staysI)
  fix d x t
  assume "clear_conversation key now d = Inr (x, t)"
  then have t: "t = cleared key now d" by (simp add: clear_run)
  have "state_of t k = (if k = key then map_option (\<lambda>_. New) (state_of d k) else state_of d k)" for k
    by (cases "k = key"; cases "row_of d k") (simp_all add: t state_of_def cleared_obs)
  then have "verify_sound t" if "verify_sound d"
    using that by (auto simp: verify_sound_def t cleared_obs)
  then show "safe_step d t" using cleared_evolves by (simp add: safe_step_def t)
qed

lemma safe_reset: "stays safe_step (reset_conversation b chat now)"
  unfolding reset_conversation_def Let_def
  by (intro safe.stays_owner safe_clear safe_audits safe_reads repository_reads)

lemma and_then_steps:
  "and_then (gets f) g d = g (f d) d" "and_then (modify h) k u = k () (h u)"
  by (simp_all add: and_then_def gets_def modify_def)

lemma unblock_run:
  fixes d :: database
  assumes "unblock_conversation b chat now d = Inr (r, t)"
    and "key = \<lparr>connection_id = bc_connection_id b, chat_id = chat\<rparr>"
    and "here = (\<lambda>v. cv_key v = key \<and> soft_blocked v)"
  obtains "count_where here (conversations d) = 0" and "t = d"
  | u x where "count_where here (conversations d) \<noteq> 0"
    and "close_active_challenge key now
          (d\<lparr>conversations := update_where here (unblocked_row now) (conversations d)\<rparr>) = Inr (x, u)"
    and "insert_recovery_audit key ''unblock'' now u = Inr ((), t)"
proof (cases "count_where here (conversations d) = 0")
  case True
  have "t = d"
    using assms(1) True
    unfolding unblock_conversation_def Let_def assms(2) [symmetric] assms(3) [symmetric] and_then_steps
    by (simp add: and_then_steps update_where_none split: option.splits)
  show ?thesis by (rule that(1) [OF True \<open>t = d\<close>])
next
  case False
  have run: "and_then (cst (close_active_challenge key now)) (\<lambda>_.
      and_then (cst (insert_recovery_audit key ''unblock'' now)) (\<lambda>_.
        accepted (lit ''unblocked chat_id='' @ show_int chat)))
      (d\<lparr>conversations := update_where here (unblocked_row now) (conversations d)\<rparr>) = Inr (r, t)"
    using assms(1) False
    unfolding unblock_conversation_def Let_def assms(2) [symmetric] assms(3) [symmetric] and_then_steps
    by simp
  show ?thesis
    using run by (elim and_then_E map_err_E) (rule that(2) [OF False], assumption, simp)
qed

lemma unblocked_sound:
  assumes vs: "verify_sound d" and ok: "db_ok d"
    and here: "here = (\<lambda>v. cv_key v = key \<and> soft_blocked v)"
    and some: "count_where here (conversations d) \<noteq> 0"
    and conv: "conversations u = update_where here (unblocked_row now) (conversations d)"
    and opn: "\<And>k. open_for u k \<longleftrightarrow> k \<noteq> key \<and> open_for d k"
  shows "verify_sound u"
proof -
  have row: "cv_key (unblocked_row now v) = cv_key v" "cv_state (unblocked_row now v) = New" for v
    by (simp_all add: unblocked_row_def)
  obtain v where v: "v \<in> set (conversations d)" "cv_key v = key" "soft_blocked v"
    using some unfolding count_where_0_iff here by blast
  have "distinct (map cv_key (conversations d))" using ok by (simp add: ok_defs)
  then have "row_of d key = Some v"
    unfolding row_of_def using v by (intro find_row_key [where k = cv_key]) simp_all
  then have "state_of d key = Some (cv_state v)" by (simp add: state_of_def)
  then have "cv_state v = VerifyPending \<longleftrightarrow> open_for d key" using vs by (simp add: verify_sound_def)
  with v(3) have closed: "\<not> open_for d key" by (auto simp: soft_blocked_def)
  have rows: "row_of u k = map_option (\<lambda>v. if here v then unblocked_row now v else v) (row_of d k)" for k
    by (simp add: row_of_def conv find_row_update_where row)
  show ?thesis unfolding verify_sound_def
  proof (intro allI impI)
    fix k s
    assume "state_of u k = Some s"
    then obtain w where w: "row_of d k = Some w" "s = (if here w then New else cv_state w)"
      by (auto simp: state_of_def rows row)
    have "cv_state w = VerifyPending \<longleftrightarrow> open_for d k"
      using vs w(1) by (simp add: verify_sound_def state_of_def)
    then show "s = VerifyPending \<longleftrightarrow> open_for u k"
      using w(2) closed by (cases "here w") (auto simp: here opn soft_blocked_def)
  qed
qed

lemma safe_unblock: "stays safe_step (unblock_conversation b chat now)"
proof (rule staysI)
  fix d t :: database and r
  assume run: "unblock_conversation b chat now d = Inr (r, t)"
  obtain key :: conversation_key where key: "key = \<lparr>connection_id = bc_connection_id b, chat_id = chat\<rparr>" by simp
  obtain here where here: "here = (\<lambda>v. cv_key v = key \<and> soft_blocked v)" by simp
  show "safe_step d t"
  proof (rule unblock_run [OF run key here])
    assume "t = d"
    then show ?thesis by (simp add: safe.step_refl)
  next
    fix u x
    define m where "m = d\<lparr>conversations := update_where here (unblocked_row now) (conversations d)\<rparr>"
    assume some: "count_where here (conversations d) \<noteq> 0"
      and "close_active_challenge key now
          (d\<lparr>conversations := update_where here (unblocked_row now) (conversations d)\<rparr>) = Inr (x, u)"
      and audit: "insert_recovery_audit key ''unblock'' now u = Inr ((), t)"
    then have close: "close_active_challenge key now m = Inr (x, u)" by (simp add: m_def)
    have "db_ok m" if "db_ok d"
      unfolding m_def using that by (rule ok_conversation_update) (simp add: unblocked_row_def)
    then have ok: "db_ok u" if "db_ok d"
      using that staysD [OF ok_close_active_challenge close] by (simp add: keeps_def)
    have "queue_of u = queue_of d"
      using staysD [OF queue_frames_handler(7) close] by (simp add: same_def queue_of_def m_def)
    from queue_same_evolves [OF ok this] have evolves: "outbox_evolves d u" .
    have conv: "conversations u = update_where here (unblocked_row now) (conversations d)"
      using close_active_effect(1) [OF close] by (simp add: m_def)
    have "open_for m = open_for d" by (simp add: open_for_def m_def fun_eq_iff)
    then have opn: "open_for u k \<longleftrightarrow> k \<noteq> key \<and> open_for d k" for k
      using close_active_effect(2) [OF close] by simp
    from unblocked_sound [OF _ _ here some conv opn] evolves have "safe_step d u"
      by (simp add: safe_step_def)
    moreover have "safe_step u t" using staysD [OF safe_audits(2) audit] .
    ultimately show ?thesis by (rule safe.step_trans)
  qed
qed

lemma safe_execute: "stays safe_step (execute_authorized env rfc service command source who)"
proof -
  have settings: "stays safe_step (modify (set_setting k v))" for k v
    by (rule safe_modify) (simp add: guarded_def set_setting_def)
  have samples: "stays safe_step (modify (\<lambda>d. d\<lparr>spam_samples := f d\<rparr>))"
    "stays safe_step (modify (\<lambda>d. d\<lparr>ham_samples := f d\<rparr>))" for f
    by (rule safe_modify; simp add: guarded_def)+
  show ?thesis
    unfolding execute_authorized_def and_plain_def required_connection_def inspect_def set_dry_run_def
      recent_errors_def label_sample_def
    by (cases command)
      (auto intro!: safe.stays_owner safe_reset safe_unblock settings samples
          safe_reads [OF repository_reads(1)] safe_reads [OF reads_health])
qed

lemma safe_command: "stays safe_step (execute_owner_command env rfc service command source)"
  unfolding execute_owner_command_def by (intro safe.stays_owner safe_authorize safe_execute)

subsection \<open>Resetting a conversation\<close>

definition deletable_ids :: "conversation_key \<Rightarrow> 'ev db \<Rightarrow> i64 set" where
  "deletable_ids k d =
     {lm_message_id m | m. m \<in> set (ledger d) \<and> lm_key m = k \<and> lm_eligible_for_deletion m \<and> lm_deleted_at m = None}
     \<union> {i. \<exists>c \<in> set (challenges d). ch_key c = k \<and> ch_prompt_message_id c = Some i}"

lemma prompt_ids: "set (prompt_message_ids k d)
    = {i. \<exists>c \<in> set (challenges d). ch_key c = k \<and> ch_prompt_message_id c = Some i}"
  by (force simp: prompt_message_ids_def)

lemma strictly_sorted_remdups_adj:
  fixes xs :: "int list"
  shows "sorted xs \<Longrightarrow> sorted_wrt (<) (remdups_adj xs)"
  by (induction xs rule: remdups_adj.induct) (auto simp: order.strict_iff_order)

lemma reset_run:
  assumes "reset_conversation b chat now d = Inr (Inr ex, t)"
    and "key = \<lparr>connection_id = bc_connection_id b, chat_id = chat\<rparr>"
  shows "row_of d key \<noteq> None"
    and "insert_recovery_audit key ''reset'' now (cleared key now d) = Inr ((), t)"
    and "\<exists>ids. sorted_wrt (<) ids \<and> set ids = deletable_ids key d
      \<and> ex_telegram_actions ex = (if ids = [] then [] else [DeleteMessagesAction key ids])"
proof -
  define eligible where "eligible = sort (map lm_message_id
      (filter (\<lambda>r. lm_key r = key \<and> lm_eligible_for_deletion r \<and> lm_deleted_at r = None) (ledger d)))"
  define ids where "ids = remdups_adj (sort (eligible @ prompt_message_ids key d))"
  have run: "and_then_ok (require TargetNotFound (row_of d key)) (\<lambda>_.
      and_then (cst (clear_conversation key now)) (\<lambda>_.
      and_then (cst (insert_recovery_audit key ''reset'' now)) (\<lambda>_.
        accepted \<lparr>ex_response = lit ''reset chat_id='' @ show_int chat @ lit '' telegram_delete=''
            @ lit (if ids = [] then ''none'' else ''queued'') @ lit '' message_count='' @ show_int (int (length ids)),
          ex_telegram_actions = (if ids = [] then [] else [DeleteMessagesAction key ids])\<rparr>))) d = Inr (Inr ex, t)"
    using assms(1)
    unfolding reset_conversation_def Let_def assms(2) [symmetric]
    by (simp add: and_then_ok_Inr and_then_Inr_iff map_err_Inr_iff find_conversation_def gets_Inr_iff
        eligible_deletion_ids_def row_of_def ids_def eligible_def cong: if_cong)
  then show "row_of d key \<noteq> None"
    and "insert_recovery_audit key ''reset'' now (cleared key now d) = Inr ((), t)"
    by (auto simp: and_then_ok_Inr and_then_Inr_iff map_err_Inr_iff clear_run ok_or_def split: option.splits)
  have "ex_telegram_actions ex = (if ids = [] then [] else [DeleteMessagesAction key ids])"
    using run by (auto simp: and_then_ok_Inr and_then_Inr_iff)
  moreover have "sorted_wrt (<) ids"
    by (simp add: ids_def strictly_sorted_remdups_adj)
  moreover have "set ids = deletable_ids key d"
    by (auto simp: ids_def eligible_def prompt_ids deletable_ids_def)
  ultimately show "\<exists>ids. sorted_wrt (<) ids \<and> set ids = deletable_ids key d
      \<and> ex_telegram_actions ex = (if ids = [] then [] else [DeleteMessagesAction key ids])" by blast
qed

text \<open>
  C36: a reset the owner sees succeed forgets exactly one conversation. It returns to state NEW
  with no open challenge, no ledger row and no unfinished action of its own; every other
  conversation keeps its row, its challenge, its ledger and its actions; and the deletion asked
  of Telegram names, once each and in order, the eligible messages of the ledger and the prompts
  of its challenges, and is absent when there are none.
\<close>

theorem reset_forgets_one_conversation:
  assumes "execute_owner_command env rfc service (Reset chat) source d = Inr (Inr ex, t)"
  shows "from_owner source d \<and> (\<exists>cid ids. let k = \<lparr>connection_id = cid, chat_id = chat\<rparr> in
    row_of d k \<noteq> None \<and> state_of t k = Some New \<and> \<not> open_for t k
    \<and> ledger t = filter (\<lambda>m. lm_key m \<noteq> k) (ledger d)
    \<and> challenges t = filter (\<lambda>c. ch_key c \<noteq> k) (challenges d)
    \<and> outbox t = filter (\<lambda>r. \<not> (in_conversation k r \<and> unfinished r)) (outbox d)
    \<and> (\<forall>k'. k' = k \<or> row_of t k' = row_of d k' \<and> open_for t k' = open_for d k')
    \<and> sorted_wrt (<) ids \<and> set ids = deletable_ids k d
    \<and> ex_telegram_actions ex = (if ids = [] then [] else [DeleteMessagesAction k ids]))"
proof -
  obtain who u where own: "from_owner source d"
    and a: "authorize source (os_now service) d = Inr (Inr who, u)"
    and run: "execute_authorized env rfc service (Reset chat) source who u = Inr (Inr ex, t)"
    using execute_Inr [OF assms] by auto
  have u: "u = d\<lparr>owner := owner u\<rparr>" using authorize_Inr(2) [OF a own] by blast
  have same: "row_of u = row_of d" "open_for u = open_for d" "ledger u = ledger d"
    "challenges u = challenges d" "outbox u = outbox d"
    by (subst u, simp add: row_of_def open_for_def fun_eq_iff)+
  obtain b where "reset_conversation b chat (os_now service) u = Inr (Inr ex, t)"
    using run by (auto simp: execute_authorized_def and_then_ok_Inr required_connection_def)
  note r = reset_run [OF this refl]
  let ?k = "\<lparr>connection_id = bc_connection_id b, chat_id = chat\<rparr>"
  define c where "c = cleared ?k (os_now service) u"
  have t: "t = c\<lparr>audit := audit t, audit_seq := audit_seq t\<rparr>"
    using r(2) by (auto simp: c_def insert_recovery_audit_def append_audit_def modify_Inr_iff)
  have obs: "row_of t = row_of c" "open_for t = open_for c" "ledger t = ledger c"
    "challenges t = challenges c" "outbox t = outbox c"
    by (subst t, simp add: row_of_def open_for_def fun_eq_iff)+
  obtain ids where ids: "sorted_wrt (<) ids" "set ids = deletable_ids ?k u"
    "ex_telegram_actions ex = (if ids = [] then [] else [DeleteMessagesAction ?k ids])"
    using r(3) by blast
  have "deletable_ids ?k u = deletable_ids ?k d" by (simp add: deletable_ids_def same)
  moreover have "state_of t ?k = Some New"
    using r(1) by (auto simp: state_of_def obs c_def cleared_obs same)
  moreover have "row_of t k' = row_of d k' \<and> open_for t k' = open_for d k'" if "k' \<noteq> ?k" for k'
    using that by (cases "row_of d k'") (simp_all add: obs c_def cleared_obs same)
  moreover have "ledger t = filter (\<lambda>m. lm_key m \<noteq> ?k) (ledger d)"
    "challenges t = filter (\<lambda>m. ch_key m \<noteq> ?k) (challenges d)"
    "outbox t = filter (\<lambda>r. \<not> (in_conversation ?k r \<and> unfinished r)) (outbox d)"
    by (simp_all add: obs c_def cleared_def same delete_where_def)
  ultimately show ?thesis
    using own r(1) ids by (intro conjI exI [of _ "bc_connection_id b"] exI [of _ ids])
      (auto simp: Let_def obs c_def cleared_obs same)
qed

subsection \<open>Witnesses\<close>

definition sample_service :: owner_command_service where
  "sample_service = \<lparr>os_now = 100, os_default_destructive_mode = False\<rparr>"

definition sample_source :: "i64 \<Rightarrow> owner_command_source" where
  "sample_source user = \<lparr>src_from_user_id = user, src_chat_id = user, src_private_chat = True,
     src_replied_sample = None\<rparr>"


lemma sample_connection_found:
  "find_single_business_connection read_db = Inr (Some (hd sample_connections), read_db)"
  by (simp add: find_single_business_connection_def load_telegram_reconciliation_state_def op_defs
      read_db_def queued_db_def sample_db_def sample_connections_def single_row_def confirmed_def
      decode_optional_def decode_business_connection_def trim_def trim_start_def trim_end_def is_whitespace_def)

lemma sample_authorized:
  "authorize (sample_source 1) 100 read_db = Inr (Inr \<lparr>ow_identity = Claimed 1 1 Claim None 0,
     ow_owner_user_id = 1, ow_owner_chat_id = 1, ow_connection = Some (hd sample_connections)\<rparr>, read_db)"
proof -
  have "owner read_db = OwnerReady (Claimed 1 1 Claim None 0)"
    by (simp add: read_db_def queued_db_def sample_db_def)
  then show ?thesis
    by (simp add: authorize_def and_then_def map_err_def load_owner_run ret_def sample_connection_found
        accepted_def source_accepted_def sample_source_def)
      (simp add: sample_connections_def sample_db_def)
qed


theorem reset_forgets_one_conversation_witness:
  "\<forall>env rfc. \<exists>ex t. execute_owner_command env rfc sample_service (Reset 7) (sample_source 1) read_db
       = Inr (Inr ex, t) \<and> from_owner (sample_source 1) read_db"
proof (intro allI)
  fix env rfc
  have "case reset_conversation (hd sample_connections) 7 100 read_db of
      Inr (Inr ex, t) \<Rightarrow> True | _ \<Rightarrow> False"
    by code_simp
  then obtain ex t where r: "reset_conversation (hd sample_connections) 7 100 read_db = Inr (Inr ex, t)"
    by (auto split: sum.splits)
  have run: "execute_owner_command env rfc sample_service (Reset 7) (sample_source 1) read_db
       = Inr (Inr ex, t)"
    by (simp add: execute_owner_command_def and_then_ok_def and_then_def sample_authorized
        sample_service_def execute_authorized_def required_connection_def require_def ret_def ok_or_def r)
  from reset_forgets_one_conversation [OF run] run
  show "\<exists>ex t. execute_owner_command env rfc sample_service (Reset 7) (sample_source 1) read_db
       = Inr (Inr ex, t) \<and> from_owner (sample_source 1) read_db" by blast
qed

end
