(* ===== verification/Engine_World.thy ===== *)
theory Engine_World
  imports Owner_Commands Connection_Lookup
begin

section \<open>The processing engine and its surroundings\<close>

text \<open>
  The state of \<open>ProcessingEngine\<close> (\<open>src/processing/service.rs\<close>) and what it works on: the
  database, the calls it makes to its collaborators, and the writes the other workers make
  between two of its transactions. A method of the engine is a run on this world; unlike a body
  inside one transaction it keeps what it has committed when it fails later.
\<close>

subsection \<open>Data\<close>

datatype fatal_runtime_event = TelegramAuthentication

datatype trusted_startup_reconciliation =
    Converged
  | StillPending bool \<comment> \<open>transient\<close>
  | AuthenticationFailed

text \<open>An instant of the monotonic clock in seconds, and the failures of a trigger so far.\<close>

type_synonym instant = int

definition USIZE_MAX :: nat where
  "USIZE_MAX = 2 ^ 64 - 1"

record connection_retry =
  cr_failures :: nat
  cr_due_at :: instant

datatype trigger_application = CommitTrigger | RetryTrigger bool \<comment> \<open>transient\<close>

record claimed_owner =
  co_user_id :: i64
  co_chat_source :: owner_chat_source

record owner_claim_snapshot =
  sn_owner :: owner_identity
  sn_global :: telegram_reconciliation_state
  sn_guard :: candidate_guard
  sn_candidates :: "business_connection_candidate list"

record owner_claim_lookup =
  ol_authoritative :: "authoritative_business_connection option"
  ol_authentication_failed :: bool

record valid_owner_claim =
  vc_from_user_id :: i64
  vc_owner_chat_id :: i64
  vc_message_date :: i64
  vc_occurred_at :: timestamp

datatype claim_setup_capability = SetupUnavailable | SetupAvailable

record new_contact_notice =
  nn_owner_user_id :: i64
  nn_owner_chat_id :: i64
  nn_contact_chat_id :: i64
  nn_username :: "ustring option"

text \<open>
  \<open>en_owner_identity\<close> is the value behind the shared \<open>OwnerIdentityHandle\<close>, which only the
  engine writes; \<open>en_connection_retries\<close> is the \<open>HashMap\<close> by update, in some order.
\<close>

record ('d, 'v) processing_engine =
  en_preparer :: "('d, 'v) event_preparer"
  en_default_destructive_mode :: bool
  en_fatal_notified :: bool
  en_connection_retries :: "(i64 \<times> connection_retry) list"
  en_owner_claim_token :: "byte list option"
  en_owner_identity :: "owner_identity option"
  en_claim_file_manager :: bool
  en_claim_setup_capability :: claim_setup_capability
  en_startup_pending_connection_id :: "string option"
  en_startup_pending_retry :: "connection_retry option"

text \<open>A new engine and the parts its builder adds.\<close>

definition new_engine :: "'d \<Rightarrow> 'v \<Rightarrow> bool \<Rightarrow> ('d, 'v) processing_engine" where
  "new_engine detector verifier destructive_mode =
     \<lparr>en_preparer = \<lparr>ep_detector = detector, ep_verifier = verifier,
        ep_destructive_mode = destructive_mode\<rparr>,
      en_default_destructive_mode = destructive_mode, en_fatal_notified = False,
      en_connection_retries = [], en_owner_claim_token = None, en_owner_identity = None,
      en_claim_file_manager = False, en_claim_setup_capability = SetupUnavailable,
      en_startup_pending_connection_id = None, en_startup_pending_retry = None\<rparr>"

definition with_owner_claim ::
  "byte list option \<Rightarrow> owner_identity \<Rightarrow> ('d, 'v) processing_engine \<Rightarrow> ('d, 'v) processing_engine" where
  "with_owner_claim token i en = en\<lparr>en_owner_claim_token := token, en_owner_identity := Some i\<rparr>"

definition with_startup_pending_connection ::
  "string option \<Rightarrow> instant \<Rightarrow> ('d, 'v) processing_engine \<Rightarrow> ('d, 'v) processing_engine" where
  "with_startup_pending_connection cid now en =
     en\<lparr>en_startup_pending_retry := map_option (\<lambda>_. \<lparr>cr_failures = 0, cr_due_at = now\<rparr>) cid,
        en_startup_pending_connection_id := cid\<rparr>"

text \<open>Calls to collaborators whose result the engine ignores.\<close>

datatype engine_call =
    NewContact new_contact_notice
  | FatalRuntime fatal_runtime_event
  | RetireClaimFile "byte list"

record ('d, 'v) world =
  w_engine :: "('d, 'v) processing_engine"
  w_db :: database
  w_calls :: "engine_call list"
  w_others :: "(database \<Rightarrow> database) list"

text \<open>
  What the engine is given: the collaborators of the preparer, the readings of its clocks while
  an update (or the startup connection) is worked on, Telegram's answers to the attempts of a
  lookup, the texts of an instant and of a storage error, and the order in which the map of
  retries is walked.
\<close>

record ('d, 'v) engine_services =
  sv_preparer :: "('d, 'v) preparer_services"
  sv_detection :: detection_env
  sv_rfc :: "timestamp \<Rightarrow> ustring"
  sv_storage_text :: "owner_storage_error \<Rightarrow> ustring"
  sv_prepare_clock :: clock_readings
  sv_snapshot_now :: timestamp
  sv_now :: "i64 \<Rightarrow> timestamp"
  sv_ready_now :: timestamp
  sv_startup_now :: timestamp
  sv_instant :: "i64 \<Rightarrow> instant"
  sv_pass_instant :: instant
  sv_startup_instant :: instant
  sv_api :: "i64 \<Rightarrow> string \<Rightarrow> nat \<Rightarrow> telegram_error + authoritative_business_connection"
  sv_startup_api :: "string \<Rightarrow> nat \<Rightarrow> telegram_error + authoritative_business_connection"
  sv_walk :: "i64 list \<Rightarrow> i64 list"

subsection \<open>Runs\<close>

type_synonym ('w, 'a) run = "'w \<Rightarrow> (processing_error + 'a) \<times> 'w"

definition finish :: "'a \<Rightarrow> ('w, 'a) run" where
  "finish x w = (Inr x, w)"

definition abort :: "processing_error \<Rightarrow> ('w, 'a) run" where
  "abort e w = (Inl e, w)"

text \<open>\<open>?\<close> between transactions: what is done stays done.\<close>

definition run_then :: "('w, 'a) run \<Rightarrow> ('a \<Rightarrow> ('w, 'b) run) \<Rightarrow> ('w, 'b) run" where
  "run_then m f w = (case m w of (Inl e, u) \<Rightarrow> (Inl e, u) | (Inr x, u) \<Rightarrow> f x u)"

definition look :: "('w \<Rightarrow> 'a) \<Rightarrow> ('w, 'a) run" where
  "look f w = (Inr (f w), w)"

definition alter :: "('w \<Rightarrow> 'w) \<Rightarrow> ('w, unit) run" where
  "alter f w = (Inr (), f w)"

text \<open>
  A transaction of the engine. The other workers' writes since the last one come first; the
  code commits or rolls back by looking at the result, and an error rolls back.
\<close>

definition conclude :: "('a \<Rightarrow> bool) \<Rightarrow> ('s, 'e, 'a) op \<Rightarrow> 's \<Rightarrow> ('e + 'a) \<times> 's" where
  "conclude keep m s =
     (case m s of Inl e \<Rightarrow> (Inl e, s) | Inr (x, t) \<Rightarrow> (Inr x, if keep x then t else s))"

definition others_write :: "('d, 'v) world \<Rightarrow> ('d, 'v) world" where
  "others_write w =
     (case w_others w of [] \<Rightarrow> w | f # fs \<Rightarrow> w\<lparr>w_db := f (w_db w), w_others := fs\<rparr>)"

definition transact_if :: "('a \<Rightarrow> bool) \<Rightarrow> 'a pop \<Rightarrow> (('d, 'v) world, 'a) run" where
  "transact_if keep m w =
     (let u = others_write w; (r, d) = conclude keep m (w_db u) in (r, u\<lparr>w_db := d\<rparr>))"

definition transact :: "'a pop \<Rightarrow> (('d, 'v) world, 'a) run" where
  "transact = transact_if (\<lambda>_. True)"

definition peek :: "'a pop \<Rightarrow> (('d, 'v) world, 'a) run" where
  "peek = transact_if (\<lambda>_. False)"

definition set_engine ::
  "(('d, 'v) processing_engine \<Rightarrow> ('d, 'v) processing_engine) \<Rightarrow> (('d, 'v) world, unit) run" where
  "set_engine f = alter (\<lambda>w. w\<lparr>w_engine := f (w_engine w)\<rparr>)"

definition call_out :: "engine_call \<Rightarrow> (('d, 'v) world, unit) run" where
  "call_out c = alter (\<lambda>w. w\<lparr>w_calls := w_calls w @ [c]\<rparr>)"

text \<open>A failed authentication is reported once.\<close>

definition notify_fatal_once :: "(('d, 'v) world, unit) run" where
  "notify_fatal_once =
     run_then (look (\<lambda>w. en_fatal_notified (w_engine w))) (\<lambda>notified.
       if notified then finish ()
       else run_then (set_engine (\<lambda>en. en\<lparr>en_fatal_notified := True\<rparr>)) (\<lambda>_.
            call_out (FatalRuntime TelegramAuthentication)))"

subsection \<open>Receipts\<close>

definition receipt_for_status :: "update_status \<Rightarrow> processing_error + record_receipt" where
  "receipt_for_status s =
     (case s of
        Recorded \<Rightarrow> Inr DuplicateRecorded
      | Applied \<Rightarrow> Inr DuplicateApplied
      | Failed \<Rightarrow> Inl (EventFailure (InvalidStatus (status_text Failed))))"

definition existing_update_receipt_in :: "i64 \<Rightarrow> record_receipt option pop" where
  "existing_update_receipt_in uid =
     gets_result (\<lambda>d.
       case find_update uid d of
         None \<Rightarrow> Inr None
       | Some u \<Rightarrow>
           (case receipt_for_status (pu_status u) of Inl e \<Rightarrow> Inl e | Inr r \<Rightarrow> Inr (Some r)))"

definition existing_update_receipt :: "i64 \<Rightarrow> (('d, 'v) world, record_receipt option) run" where
  "existing_update_receipt uid = peek (existing_update_receipt_in uid)"

subsection \<open>Redacted updates\<close>

text \<open>
  An update of the owner is stored as already applied, with its kind and without its content:
  a plain \<open>INSERT\<close>, refused when the update is known.
\<close>

definition redacted_row :: "string \<Rightarrow> string \<Rightarrow> i64 \<Rightarrow> timestamp \<Rightarrow> stored_event update_row" where
  "redacted_row event_type kind uid at =
     \<lparr>pu_update_id = uid, pu_event_type = event_type, pu_event = RedactedEvent kind,
      pu_status = Applied, pu_received_at = at, pu_applied_at = Some at, pu_error_code = None,
      pu_error_message = None\<rparr>"

definition insert_redacted :: "string \<Rightarrow> string \<Rightarrow> i64 \<Rightarrow> timestamp \<Rightarrow> unit pop" where
  "insert_redacted event_type kind uid at d =
     (if \<exists>u \<in> set (updates d). pu_update_id u = uid
      then Inl (StorageFailure (Database UniqueViolation))
      else Inr ((), d\<lparr>updates := updates d @ [redacted_row event_type kind uid at]\<rparr>))"

definition insert_redacted_owner_start_update :: "i64 \<Rightarrow> timestamp \<Rightarrow> unit pop" where
  "insert_redacted_owner_start_update = insert_redacted ''owner_start'' ''OWNER_START''"

definition insert_redacted_owner_update :: "i64 \<Rightarrow> timestamp \<Rightarrow> unit pop" where
  "insert_redacted_owner_update = insert_redacted ''owner_claim'' ''OWNER_CLAIM''"

definition insert_redacted_owner_command_update :: "i64 \<Rightarrow> timestamp \<Rightarrow> unit pop" where
  "insert_redacted_owner_command_update = insert_redacted ''owner_command'' ''OWNER_COMMAND''"

subsection \<open>Audits and messages\<close>

definition plain_audit :: "i64 \<Rightarrow> string \<Rightarrow> timestamp \<Rightarrow> new_audit_event" where
  "plain_audit uid event_kind at =
     \<lparr>na_source_update_id = uid, na_key = None, na_event_kind = event_kind, na_state_before = None,
      na_state_after = None, na_score = None, na_reasons_json = None, na_rule_ids_json = None,
      na_normalized_hash = None, na_rule_version = None, na_error_code = None,
      na_error_message = None, na_occurred_at = at\<rparr>"

definition insert_owner_claim_audit :: "i64 \<Rightarrow> bool \<Rightarrow> timestamp \<Rightarrow> unit pop" where
  "insert_owner_claim_audit uid success at =
     and_then (stp (insert_audit_event
       (if success then plain_audit uid ''OWNER_CLAIMED'' at
        else (plain_audit uid ''SECURITY'' at)\<lparr>na_error_code := Some ''OWNER_CLAIM_REJECTED'',
               na_error_message := Some (lit ''owner claim rejected'')\<rparr>))) (\<lambda>_. ret ())"

definition insert_connection_audit :: "i64 \<Rightarrow> string \<Rightarrow> timestamp \<Rightarrow> unit pop" where
  "insert_connection_audit uid event_kind at =
     and_then (stp (insert_audit_event (plain_audit uid event_kind at))) (\<lambda>_. ret ())"

definition owner_message_action ::
  "i64 \<Rightarrow> i64 \<Rightarrow> ustring \<Rightarrow> timestamp \<Rightarrow> string \<Rightarrow> new_outbox_action" where
  "owner_message_action uid owner_chat message at suffix =
     \<lparr>no_source_update_id = uid, no_key = None, no_kind = SendOwnerMessage,
      no_payload = Some (JObj [(''message'', JStr message), (''owner_chat_id'', JNum owner_chat)]),
      no_idempotency_key = show_int uid @ lit '':'' @ lit suffix, no_created_at = at\<rparr>"

definition enqueue_direct_owner_message ::
  "i64 \<Rightarrow> i64 \<Rightarrow> ustring \<Rightarrow> timestamp \<Rightarrow> string \<Rightarrow> unit pop" where
  "enqueue_direct_owner_message uid owner_chat message at suffix =
     and_then (stp (enqueue_outbox_action (owner_message_action uid owner_chat message at suffix)))
       (\<lambda>_. ret ())"

definition enqueue_private_message :: "i64 \<Rightarrow> i64 \<Rightarrow> string \<Rightarrow> timestamp \<Rightarrow> unit pop" where
  "enqueue_private_message uid chat message_kind at =
     and_then (stp (enqueue_outbox_action
       \<lparr>no_source_update_id = uid, no_key = None, no_kind = SendPrivateMessage,
        no_payload = Some (JObj [(''chat_id'', JNum chat), (''message_kind'', jstr message_kind)]),
        no_idempotency_key = show_int uid @ lit '':'' @ lit message_kind, no_created_at = at\<rparr>))
       (\<lambda>_. ret ())"

definition owner_delete_action ::
  "i64 \<Rightarrow> conversation_key \<Rightarrow> nat \<Rightarrow> i64 list \<Rightarrow> timestamp \<Rightarrow> new_outbox_action" where
  "owner_delete_action uid key i batch at =
     \<lparr>no_source_update_id = uid, no_key = Some key, no_kind = DeleteBusinessMessages,
      no_payload = Some (JObj [(''message_ids'', JArr (map JNum batch))]),
      no_idempotency_key = show_int uid @ lit '':DELETE_BUSINESS_MESSAGES:'' @ lit (connection_id key)
        @ lit '':'' @ show_int (chat_id key) @ lit '':'' @ show_int (int i),
      no_created_at = at\<rparr>"

definition enqueue_owner_telegram_actions ::
  "i64 \<Rightarrow> owner_telegram_action list \<Rightarrow> timestamp \<Rightarrow> unit pop" where
  "enqueue_owner_telegram_actions uid actions at =
     for_each (\<lambda>action.
       case action of DeleteMessagesAction key ids \<Rightarrow>
         for_each (\<lambda>(i, batch).
             and_then (stp (enqueue_outbox_action (owner_delete_action uid key i batch at)))
               (\<lambda>_. ret ()))
           (List.enumerate 0 (delete_message_batches ids))) actions"

definition enqueue_owner_command_trace ::
  "i64 \<Rightarrow> i64 \<Rightarrow> i64 option \<Rightarrow> timestamp \<Rightarrow> unit pop" where
  "enqueue_owner_command_trace uid owner_chat message_id at =
     and_then (stp (list_outbox_actions_for_update uid)) (\<lambda>source.
     enqueue_direct_owner_message uid owner_chat
       (render (trace_owner_command uid owner_chat message_id source)) at ''DRY_RUN_TRACE'')"

definition dry_run_enabled :: "bool \<Rightarrow> bool pop" where
  "dry_run_enabled default_mode = gets (\<lambda>d. \<not> destructive_setting default_mode d)"

end
