(* ===== verification/Owner_Processing.thy ===== *)
theory Owner_Processing
  imports Engine_World
begin

section \<open>Updates of the owner\<close>

text \<open>
  Models how \<open>ProcessingEngine\<close> (\<open>src/processing/service.rs\<close>) handles the three private
  updates that are stored redacted: the one-time claim, the start of a chat and the commands.
\<close>

subsection \<open>Commands\<close>

fun owner_command_parse_error_text :: "owner_command_parse_error \<Rightarrow> ustring" where
  "owner_command_parse_error_text MissingPrefix = lit ''command must start with /''"
| "owner_command_parse_error_text UnknownCommand = lit ''unknown owner command''"
| "owner_command_parse_error_text InvalidArguments = lit ''invalid command arguments''"
| "owner_command_parse_error_text InvalidSuffix = lit ''invalid bot username suffix''"

definition command_source_of :: "raw_business_event \<Rightarrow> owner_command_snapshot \<Rightarrow> owner_command_source" where
  "command_source_of raw snapshot =
     \<lparr>src_from_user_id = (case os_from_user_id snapshot of None \<Rightarrow> 0 | Some u \<Rightarrow> u),
      src_chat_id = (case raw_chat_id raw of None \<Rightarrow> 0 | Some c \<Rightarrow> c),
      src_private_chat = os_private_chat snapshot,
      src_replied_sample = map_option (\<lambda>s. \<lparr>lb_body = or_body s, lb_content_type = or_content_type s,
        lb_source_chat_id = or_source_chat_id s, lb_source_message_id = or_source_message_id s\<rparr>)
        (os_replied_sample snapshot)\<rparr>"

definition error_reply :: "ustring \<Rightarrow> ustring \<times> owner_telegram_action list" where
  "error_reply e = (lit ''error='' @ e, [])"

text \<open>The reply to a command of the owner, and what it asks of Telegram.\<close>

definition owner_command_reply ::
  "('d, 'v) engine_services \<Rightarrow> owner_command_service \<Rightarrow> owner_command_source \<Rightarrow> ustring
   \<Rightarrow> authorized_owner \<Rightarrow> (ustring \<times> owner_telegram_action list) pop" where
  "owner_command_reply S service source t who =
     (case parse_owner_command t of
        Inl e \<Rightarrow> ret (error_reply (owner_command_parse_error_text e))
      | Inr command \<Rightarrow>
          and_then (map_err (\<lambda>e. InvalidEvent (sv_storage_text S e))
              (execute_authorized (sv_detection S) (sv_rfc S) service command source who)) (\<lambda>r.
            ret (case r of
                   Inl e \<Rightarrow> error_reply (owner_command_error_text e)
                 | Inr execution \<Rightarrow> (ex_response execution, ex_telegram_actions execution))))"

text \<open>
  The transaction of a command: the receipt, and the identity to publish when it was the
  owner's. It also commits when the source is not authorized: the audit stays.
\<close>

definition owner_command_tx ::
  "('d, 'v) engine_services \<Rightarrow> bool \<Rightarrow> i64 \<Rightarrow> raw_business_event
   \<Rightarrow> (record_receipt \<times> owner_identity option) pop" where
  "owner_command_tx S default_mode uid raw =
     and_then (existing_update_receipt_in uid) (\<lambda>existing.
     case existing of
       Some receipt \<Rightarrow> ret (receipt, None)
     | None \<Rightarrow>
         and_then (dry_run_enabled default_mode) (\<lambda>trace_enabled.
         and_then (insert_redacted_owner_command_update uid (raw_occurred_at raw)) (\<lambda>_.
         case raw_owner_command raw of
           None \<Rightarrow> fail (invalid_event ''owner command context is missing'')
         | Some snapshot \<Rightarrow>
             let source = command_source_of raw snapshot;
                 service = \<lparr>os_now = raw_occurred_at raw, os_default_destructive_mode = default_mode\<rparr>
             in and_then (map_err (\<lambda>e. InvalidEvent (lit ''owner command storage failed: ''
                      @ sv_storage_text S e)) (authorize source (raw_occurred_at raw))) (\<lambda>authorized.
                case authorized of
                  Inl Unauthorized \<Rightarrow> ret (ReceiptRecorded, None)
                | Inl e \<Rightarrow> fail (InvalidEvent (owner_command_error_text e))
                | Inr who \<Rightarrow>
                    and_then (owner_command_reply S service source (os_text snapshot) who)
                      (\<lambda>(response, actions).
                    and_then (enqueue_owner_telegram_actions uid actions (raw_occurred_at raw)) (\<lambda>_.
                    and_then (enqueue_direct_owner_message uid (ow_owner_chat_id who) response
                        (raw_occurred_at raw) ''OWNER_COMMAND_REPLY'') (\<lambda>_.
                    and_then
                      (if trace_enabled
                       then enqueue_owner_command_trace uid (ow_owner_chat_id who)
                              (raw_message_id raw) (raw_occurred_at raw)
                       else ret ()) (\<lambda>_.
                      ret (ReceiptRecorded, Some (ow_identity who)))))))))) "

text \<open>Publication of a committed identity behind the shared handle, where there is one.\<close>

definition publish_identity :: "owner_identity \<Rightarrow> (('d, 'v) world, unit) run" where
  "publish_identity i = set_engine (\<lambda>en. en\<lparr>en_owner_identity := map_option (\<lambda>_. i) (en_owner_identity en)\<rparr>)"

definition process_owner_command ::
  "('d, 'v) engine_services \<Rightarrow> i64 \<Rightarrow> raw_business_event \<Rightarrow> (('d, 'v) world, record_receipt) run" where
  "process_owner_command S uid raw =
     run_then (look (\<lambda>w. en_default_destructive_mode (w_engine w))) (\<lambda>default_mode.
     run_then (transact (owner_command_tx S default_mode uid raw)) (\<lambda>(receipt, identity).
     run_then (case identity of None \<Rightarrow> finish () | Some i \<Rightarrow> publish_identity i) (\<lambda>_.
       finish receipt)))"

subsection \<open>Start of a chat\<close>

datatype start_outcome = StartKnown record_receipt | StartOfOwner | StartRecorded

definition owner_start_tx ::
  "claim_setup_capability \<Rightarrow> i64 \<Rightarrow> i64 \<Rightarrow> i64 \<Rightarrow> timestamp \<Rightarrow> start_outcome pop" where
  "owner_start_tx capability uid from_user chat at =
     and_then (existing_update_receipt_in uid) (\<lambda>existing.
     case existing of
       Some receipt \<Rightarrow> ret (StartKnown receipt)
     | None \<Rightarrow>
         and_then (stp load_owner_identity) (\<lambda>i.
         if (case i of
               Claimed user owner_chat source _ _ \<Rightarrow>
                 user = from_user \<and> (source = LegacyFallback \<or> owner_chat = chat)
             | Unclaimed \<Rightarrow> False)
         then ret StartOfOwner
         else
           and_then (insert_redacted_owner_start_update uid at) (\<lambda>_.
           and_then
             (if i = Unclaimed \<and> capability = SetupAvailable
              then enqueue_private_message uid chat ''OWNER_SETUP_GUIDE'' at
              else ret ()) (\<lambda>_.
             ret StartRecorded))))"

definition positive :: "i64 option \<Rightarrow> i64 option" where
  "positive x = (case x of Some v \<Rightarrow> if 0 < v then Some v else None | None \<Rightarrow> None)"

text \<open>The checks before the transaction: the snapshot, the user and the chat of the start.\<close>

definition owner_start_context ::
  "raw_business_event \<Rightarrow> processing_error + owner_command_snapshot \<times> i64 \<times> i64" where
  "owner_start_context raw =
     (case raw_owner_command raw of
        None \<Rightarrow> Inl (invalid_event ''owner Start context is missing'')
      | Some snapshot \<Rightarrow>
          (case positive (os_from_user_id snapshot) of
             None \<Rightarrow> Inl (invalid_event ''owner Start user is invalid'')
           | Some from_user \<Rightarrow>
               (case positive (raw_chat_id raw) of
                  None \<Rightarrow> Inl (invalid_event ''owner Start chat is invalid'')
                | Some chat \<Rightarrow>
                    if \<not> os_private_chat snapshot \<or> os_text snapshot \<noteq> lit ''/start''
                    then Inl (invalid_event ''owner Start shape is invalid'')
                    else Inr (snapshot, from_user, chat))))"

definition process_owner_start ::
  "('d, 'v) engine_services \<Rightarrow> i64 \<Rightarrow> raw_business_event \<Rightarrow> (('d, 'v) world, record_receipt) run" where
  "process_owner_start S uid raw =
     (case owner_start_context raw of
        Inl e \<Rightarrow> abort e
      | Inr (snapshot, from_user, chat) \<Rightarrow>
          run_then (look (\<lambda>w. en_claim_setup_capability (w_engine w))) (\<lambda>capability.
          run_then (transact_if (\<lambda>r. r = StartRecorded)
              (owner_start_tx capability uid from_user chat (raw_occurred_at raw))) (\<lambda>r.
          case r of
            StartKnown receipt \<Rightarrow> finish receipt
          | StartRecorded \<Rightarrow> finish ReceiptRecorded
          | StartOfOwner \<Rightarrow>
              process_owner_command S uid
                (raw\<lparr>raw_kind := RawOwnerCommand,
                     raw_owner_command := Some (snapshot\<lparr>os_text := lit ''/help''\<rparr>)\<rparr>))))"

subsection \<open>The claim\<close>

text \<open>Lengths and then the bytes, compared in constant time.\<close>

definition claim_token_matches :: "byte list option \<Rightarrow> byte list \<Rightarrow> bool" where
  "claim_token_matches expected provided \<longleftrightarrow>
     (case expected of
        None \<Rightarrow> False
      | Some e \<Rightarrow> length e = length provided \<and> list_all (\<lambda>(a, b). a = b) (zip e provided))"

definition owner_claim_rejection_tx :: "i64 \<Rightarrow> i64 option \<Rightarrow> timestamp \<Rightarrow> record_receipt pop" where
  "owner_claim_rejection_tx uid reply at =
     and_then (existing_update_receipt_in uid) (\<lambda>existing.
     case existing of
       Some receipt \<Rightarrow> ret receipt
     | None \<Rightarrow>
         and_then (insert_redacted_owner_update uid at) (\<lambda>_.
         and_then (insert_owner_claim_audit uid False at) (\<lambda>_.
         and_then
           (case reply of
              None \<Rightarrow> ret ()
            | Some chat \<Rightarrow> enqueue_private_message uid chat ''OWNER_CLAIM_REJECTED'' at) (\<lambda>_.
           ret ReceiptRecorded))))"

definition record_owner_claim_rejection ::
  "i64 \<Rightarrow> i64 option \<Rightarrow> timestamp \<Rightarrow> (('d, 'v) world, record_receipt) run" where
  "record_owner_claim_rejection uid reply at = transact (owner_claim_rejection_tx uid reply at)"

definition owner_claim_snapshot_tx :: "i64 \<Rightarrow> timestamp \<Rightarrow> owner_claim_snapshot pop" where
  "owner_claim_snapshot_tx claimant now =
     and_then (stp load_owner_identity) (\<lambda>i.
     and_then (stp load_telegram_reconciliation_state) (\<lambda>global.
     and_then (stp load_candidate_guard) (\<lambda>g.
     and_then (stp (candidates_for_user claimant)) (\<lambda>cs.
       ret \<lparr>sn_owner = i, sn_global = global, sn_guard = g,
            sn_candidates = filter (\<lambda>c. now - days 7 \<le> cc_observed_at c) cs\<rparr>))))"

definition lookup_claim_candidate ::
  "(string \<Rightarrow> nat \<Rightarrow> telegram_error + authoritative_business_connection) \<Rightarrow> owner_claim_snapshot
   \<Rightarrow> owner_claim_lookup" where
  "lookup_claim_candidate api snapshot =
     (if tr_state (sn_global snapshot) \<noteq> GlobalReady
         \<or> cg_overflow_established_at (sn_guard snapshot) \<noteq> None
         \<or> length (sn_candidates snapshot) \<noteq> 1
      then \<lparr>ol_authoritative = None, ol_authentication_failed = False\<rparr>
      else
        (case fst (lookup_business_connection (api (cc_connection_id (hd (sn_candidates snapshot))))) of
           Inr authoritative \<Rightarrow> \<lparr>ol_authoritative = Some authoritative, ol_authentication_failed = False\<rparr>
         | Inl (BotAuthentication _) \<Rightarrow> \<lparr>ol_authoritative = None, ol_authentication_failed = True\<rparr>
         | Inl _ \<Rightarrow> \<lparr>ol_authoritative = None, ol_authentication_failed = False\<rparr>))"

definition claim_generation_floor ::
  "i64 \<Rightarrow> owner_claim_snapshot \<Rightarrow> candidate_guard \<Rightarrow> business_connection_candidate list \<Rightarrow> i64" where
  "claim_generation_floor message_date snapshot current_guard current =
     fold max
       (map cc_connection_established_at (sn_candidates snapshot @ current)
        @ List.map_filter id [cg_overflow_established_at (sn_guard snapshot),
                              cg_overflow_established_at current_guard]) message_date"

definition authoritative_candidate ::
  "authoritative_business_connection \<Rightarrow> timestamp \<Rightarrow> business_connection_candidate" where
  "authoritative_candidate a observed_at =
     \<lparr>cc_connection_id = au_connection_id a, cc_business_user_id = au_business_user_id a,
      cc_user_chat_id = au_user_chat_id a, cc_rights_json = Some (rights_json (au_rights a)),
      cc_enabled = au_enabled a, cc_connection_established_at = au_connection_established_at a,
      cc_state_revision = 0, cc_observed_at = observed_at\<rparr>"

definition try_promote_claim_candidate ::
  "owner_claim_snapshot \<Rightarrow> telegram_reconciliation_state \<Rightarrow> candidate_guard
   \<Rightarrow> business_connection_candidate list \<Rightarrow> authoritative_business_connection option \<Rightarrow> timestamp
   \<Rightarrow> bool pop" where
  "try_promote_claim_candidate snapshot global g retained authoritative now =
     (if tr_state (sn_global snapshot) \<noteq> GlobalReady \<or> tr_state global \<noteq> GlobalReady
         \<or> tr_state_revision (sn_global snapshot) \<noteq> tr_state_revision global
         \<or> sn_guard snapshot \<noteq> g \<or> cg_overflow_established_at g \<noteq> None
         \<or> length (sn_candidates snapshot) \<noteq> 1 \<or> length retained \<noteq> 1
      then ret False
      else
        let s = hd (sn_candidates snapshot); c = hd retained
        in if cc_connection_id s \<noteq> cc_connection_id c \<or> cc_state_revision s \<noteq> cc_state_revision c
           then ret False
           else
             (case authoritative of
                None \<Rightarrow> ret False
              | Some a \<Rightarrow>
                  if \<not> au_enabled a \<or> au_connection_id a \<noteq> cc_connection_id c
                     \<or> au_business_user_id a \<noteq> cc_business_user_id c
                     \<or> au_connection_established_at a \<noteq> cc_connection_established_at c
                  then ret False
                  else
                    and_then (stp (promote_claim_candidate (authoritative_candidate a now)
                        (cc_state_revision c) (cg_state_revision g))) (\<lambda>w.
                      ret (w = Installed))))"

definition claim_connection_state :: "authoritative_business_connection option \<Rightarrow> string" where
  "claim_connection_state authoritative =
     (case authoritative of
        None \<Rightarrow> ''missing''
      | Some a \<Rightarrow>
          if can_reply (au_rights a) \<and> can_read_messages (au_rights a)
             \<and> can_delete_sent_messages (au_rights a) \<and> can_delete_all_messages (au_rights a)
          then ''enabled'' else ''rights_incomplete'')"

text \<open>What becomes of the candidates, and the connection's state for the confirmation.\<close>

definition settle_claim_candidates ::
  "bool \<Rightarrow> valid_owner_claim \<Rightarrow> candidate_guard \<Rightarrow> business_connection_candidate list
   \<Rightarrow> owner_claim_lookup \<Rightarrow> string pop" where
  "settle_claim_candidates promoted claim g retained lookup =
     and_then
       (if promoted then ret (claim_connection_state (ol_authoritative lookup))
        else if cg_overflow_established_at g = None \<and> 2 \<le> length retained
        then and_then (stp (delete_connection_candidates_for_other_users (vc_from_user_id claim)))
               (\<lambda>_. ret ''ambiguous'')
        else and_then (stp clear_connection_candidates) (\<lambda>_. ret ''missing'')) (\<lambda>state.
     and_then (if promoted then and_then (stp clear_connection_candidates) (\<lambda>_. ret ()) else ret ())
       (\<lambda>_. ret state))"

datatype claim_outcome = ClaimKnown record_receipt | ClaimRefused | ClaimAccepted owner_identity

text \<open>The transaction of a claim: the refusal, the acceptance from the binding on, and the whole.\<close>

definition refuse_owner_claim_tx :: "i64 \<Rightarrow> valid_owner_claim \<Rightarrow> claim_outcome pop" where
  "refuse_owner_claim_tx uid claim =
     and_then (insert_redacted_owner_update uid (vc_occurred_at claim)) (\<lambda>_.
     and_then (insert_owner_claim_audit uid False (vc_occurred_at claim)) (\<lambda>_.
     and_then (enqueue_private_message uid (vc_owner_chat_id claim) ''OWNER_CLAIM_REJECTED''
         (vc_occurred_at claim)) (\<lambda>_.
       ret ClaimRefused)))"

definition record_owner_claim_tx ::
  "i64 \<Rightarrow> valid_owner_claim \<Rightarrow> string \<Rightarrow> owner_identity \<Rightarrow> claim_outcome pop" where
  "record_owner_claim_tx uid claim state claimed =
     and_then (insert_redacted_owner_update uid (vc_occurred_at claim)) (\<lambda>_.
     and_then (insert_owner_claim_audit uid True (vc_occurred_at claim)) (\<lambda>_.
     and_then (enqueue_direct_owner_message uid (vc_owner_chat_id claim)
         (lit ''claim succeeded connection='' @ lit state) (vc_occurred_at claim)
         ''OWNER_CLAIM_CONFIRMATION'') (\<lambda>_.
       ret (ClaimAccepted claimed))))"

definition connect_owner_claim_tx ::
  "timestamp \<Rightarrow> valid_owner_claim \<Rightarrow> owner_claim_snapshot \<Rightarrow> owner_claim_lookup
   \<Rightarrow> telegram_reconciliation_state \<Rightarrow> candidate_guard \<Rightarrow> business_connection_candidate list
   \<Rightarrow> string pop" where
  "connect_owner_claim_tx now claim snapshot lookup global g retained =
     and_then
       (if ol_authentication_failed lookup
        then and_then (stp (set_telegram_auth_failed now)) (\<lambda>_. ret ()) else ret ()) (\<lambda>_.
     and_then (try_promote_claim_candidate snapshot global g retained (ol_authoritative lookup) now)
       (\<lambda>promoted.
     settle_claim_candidates promoted claim g retained lookup))"

definition accept_owner_claim_tx ::
  "timestamp \<Rightarrow> i64 \<Rightarrow> valid_owner_claim \<Rightarrow> owner_claim_snapshot \<Rightarrow> owner_claim_lookup
   \<Rightarrow> claim_outcome pop" where
  "accept_owner_claim_tx now uid claim snapshot lookup =
     and_then (stp load_telegram_reconciliation_state) (\<lambda>global.
     and_then (stp load_candidate_guard) (\<lambda>guard_before.
     and_then (stp (candidates_for_user (vc_from_user_id claim))) (\<lambda>candidates_before.
     and_then (stp (prune_connection_candidates (now - days 7) 256)) (\<lambda>_.
     and_then (stp load_candidate_guard) (\<lambda>g.
     and_then (stp (candidates_for_user (vc_from_user_id claim))) (\<lambda>retained.
     and_then (stp (claim_owner (vc_from_user_id claim) (vc_owner_chat_id claim)
         (claim_generation_floor (vc_message_date claim) snapshot guard_before candidates_before)
         now)) (\<lambda>claimed.
     and_then (connect_owner_claim_tx now claim snapshot lookup global g retained) (\<lambda>state.
       record_owner_claim_tx uid claim state claimed))))))))"

definition owner_claim_tx ::
  "timestamp \<Rightarrow> i64 \<Rightarrow> valid_owner_claim \<Rightarrow> owner_claim_snapshot \<Rightarrow> owner_claim_lookup
   \<Rightarrow> claim_outcome pop" where
  "owner_claim_tx now uid claim snapshot lookup =
     and_then (existing_update_receipt_in uid) (\<lambda>existing.
     case existing of
       Some receipt \<Rightarrow> ret (ClaimKnown receipt)
     | None \<Rightarrow>
         and_then (stp load_owner_identity) (\<lambda>i.
           if i \<noteq> Unclaimed then refuse_owner_claim_tx uid claim
           else accept_owner_claim_tx now uid claim snapshot lookup))"

text \<open>
  After the commit: the claim file is retired with the token, the token is dropped, and a failed
  authentication is reported. A failure to retire the file is only logged.
\<close>

definition finish_owner_claim :: "bool \<Rightarrow> (('d, 'v) world, unit) run" where
  "finish_owner_claim authentication_failed =
     run_then (look w_engine) (\<lambda>en.
     run_then
       (case en_owner_claim_token en of
          Some token \<Rightarrow> if en_claim_file_manager en then call_out (RetireClaimFile token) else finish ()
        | None \<Rightarrow> finish ()) (\<lambda>_.
     run_then (set_engine (\<lambda>en. en\<lparr>en_owner_claim_token := None\<rparr>)) (\<lambda>_.
       if authentication_failed then notify_fatal_once else finish ())))"

definition commit_owner_claim ::
  "('d, 'v) engine_services \<Rightarrow> i64 \<Rightarrow> valid_owner_claim \<Rightarrow> owner_claim_snapshot \<Rightarrow> owner_claim_lookup
   \<Rightarrow> (('d, 'v) world, record_receipt) run" where
  "commit_owner_claim S uid claim snapshot lookup =
     run_then (transact (owner_claim_tx (sv_now S uid) uid claim snapshot lookup)) (\<lambda>r.
     case r of
       ClaimKnown receipt \<Rightarrow> finish receipt
     | ClaimRefused \<Rightarrow> finish ReceiptRecorded
     | ClaimAccepted claimed \<Rightarrow>
         run_then (publish_identity claimed) (\<lambda>_.
         run_then (finish_owner_claim (ol_authentication_failed lookup)) (\<lambda>_.
           finish ReceiptRecorded)))"

definition process_owner_claim ::
  "('d, 'v) engine_services \<Rightarrow> i64 \<Rightarrow> raw_business_event \<Rightarrow> (('d, 'v) world, record_receipt) run" where
  "process_owner_claim S uid raw =
     run_then (existing_update_receipt uid) (\<lambda>existing.
     case existing of
       Some receipt \<Rightarrow> finish receipt
     | None \<Rightarrow>
         (case raw_owner_claim raw of
            None \<Rightarrow> abort (invalid_event ''owner claim context is missing'')
          | Some NotClaim \<Rightarrow> abort (invalid_event ''owner claim event is not a claim'')
          | Some IgnoreClaim \<Rightarrow> record_owner_claim_rejection uid None (raw_occurred_at raw)
          | Some (RejectClaim chat) \<Rightarrow>
              record_owner_claim_rejection uid (Some chat) (raw_occurred_at raw)
          | Some (ClaimCandidate from_user chat _ message_date token) \<Rightarrow>
              run_then (look w_engine) (\<lambda>en.
              if en_owner_identity en = None
              then record_owner_claim_rejection uid (Some chat) (raw_occurred_at raw)
              else
                run_then (peek (owner_claim_snapshot_tx from_user (sv_snapshot_now S))) (\<lambda>snapshot.
                if sn_owner snapshot \<noteq> Unclaimed
                   \<or> \<not> claim_token_matches (en_owner_claim_token en) token
                then record_owner_claim_rejection uid (Some chat) (raw_occurred_at raw)
                else
                  commit_owner_claim S uid
                    \<lparr>vc_from_user_id = from_user, vc_owner_chat_id = chat,
                     vc_message_date = message_date, vc_occurred_at = raw_occurred_at raw\<rparr>
                    snapshot (lookup_claim_candidate (sv_api S uid) snapshot)))))"

end
