(* ===== verification/Connection_Processing.thy ===== *)
theory Connection_Processing
  imports Owner_Processing
begin

section \<open>Connection triggers\<close>

text \<open>
  Models how \<open>ProcessingEngine\<close> (\<open>src/processing/service.rs\<close>) reconciles a changed business
  connection with Telegram's current state, retries what it cannot settle, and opens the gate
  once nothing waits.
\<close>

subsection \<open>The startup connection\<close>

definition trusted_write_converged :: "trusted_connection_write \<Rightarrow> bool" where
  "trusted_write_converged w \<longleftrightarrow> w = Installed \<or> w = Reconciled \<or> w = Replaced"

text \<open>Without the engine around it, because the startup of the program calls it too.\<close>

definition reconcile_trusted_current_state ::
  "(string \<Rightarrow> nat \<Rightarrow> telegram_error + authoritative_business_connection) \<Rightarrow> string \<Rightarrow> timestamp
   \<Rightarrow> (('d, 'v) world, trusted_startup_reconciliation) run" where
  "reconcile_trusted_current_state api cid observed_at =
     run_then (peek (stp (connection_reconciliation_snapshot_of cid))) (\<lambda>snapshot.
     case fst (lookup_business_connection (api cid)) of
       Inl (ConnectionNotFound _) \<Rightarrow>
         run_then (transact (stp (retire_trusted_connection_not_found cid
             (case rs_trusted_revision snapshot of None \<Rightarrow> 0 | Some r \<Rightarrow> r)))) (\<lambda>outcome.
           finish (if outcome = Reconciled then Converged else StillPending True))
     | Inl (BotAuthentication _) \<Rightarrow>
         run_then (transact (stp (set_telegram_auth_failed observed_at))) (\<lambda>_.
           finish AuthenticationFailed)
     | Inl (TransientExhausted _) \<Rightarrow> finish (StillPending True)
     | Inl _ \<Rightarrow> finish (StillPending False)
     | Inr authoritative \<Rightarrow>
         if au_connection_id authoritative \<noteq> cid then finish (StillPending False)
         else
           run_then (transact (stp (reconcile_authoritative_trusted_connection
               (authoritative_candidate authoritative observed_at) (rs_trusted_revision snapshot)
               (rs_candidate_revision snapshot) (rs_guard_revision snapshot)))) (\<lambda>outcome.
             finish (if trusted_write_converged outcome then Converged else StillPending True)))"

subsection \<open>Retries\<close>

definition BACKOFF :: "int list" where
  "BACKOFF = [1, 2, 4, 8, 16, 30]"

definition retry_after :: "nat \<Rightarrow> bool \<Rightarrow> int" where
  "retry_after failures transient =
     (if transient then BACKOFF ! min failures (length BACKOFF - 1) else 300)"

definition saturating_succ :: "nat \<Rightarrow> nat" where
  "saturating_succ n = min (n + 1) USIZE_MAX"

definition next_retry :: "connection_retry option \<Rightarrow> bool \<Rightarrow> instant \<Rightarrow> connection_retry" where
  "next_retry current transient now =
     (let failures = (case current of None \<Rightarrow> 0 | Some r \<Rightarrow> cr_failures r)
      in \<lparr>cr_failures = saturating_succ failures, cr_due_at = now + retry_after failures transient\<rparr>)"

definition put_retry ::
  "i64 \<Rightarrow> connection_retry \<Rightarrow> (i64 \<times> connection_retry) list \<Rightarrow> (i64 \<times> connection_retry) list" where
  "put_retry uid r rs = (uid, r) # filter (\<lambda>(k, _). k \<noteq> uid) rs"

definition drop_retry ::
  "i64 \<Rightarrow> (i64 \<times> connection_retry) list \<Rightarrow> (i64 \<times> connection_retry) list" where
  "drop_retry uid rs = filter (\<lambda>(k, _). k \<noteq> uid) rs"

definition schedule_connection_retry ::
  "('d, 'v) engine_services \<Rightarrow> i64 \<Rightarrow> bool \<Rightarrow> (('d, 'v) world, unit) run" where
  "schedule_connection_retry S uid transient =
     set_engine (\<lambda>en. en\<lparr>en_connection_retries := put_retry uid
       (next_retry (map_of (en_connection_retries en) uid) transient (sv_instant S uid))
       (en_connection_retries en)\<rparr>)"

definition forget_retry :: "i64 \<Rightarrow> (('d, 'v) world, unit) run" where
  "forget_retry uid = set_engine (\<lambda>en. en\<lparr>en_connection_retries := drop_retry uid (en_connection_retries en)\<rparr>)"

subsection \<open>Applying a trigger\<close>

definition mark_connection_trigger_applied :: "i64 \<Rightarrow> timestamp \<Rightarrow> unit pop" where
  "mark_connection_trigger_applied uid now d =
     (let here = (\<lambda>u. pu_update_id u = uid \<and> pu_status u = Recorded)
      in if count_where here (updates d) \<noteq> 1
         then Inl (EventFailure (InvalidStatus (lit ''connection trigger changed during application'')))
         else Inr ((), d\<lparr>updates := update_where here
                (\<lambda>u. u\<lparr>pu_status := Applied, pu_applied_at := Some now, pu_error_code := None,
                      pu_error_message := None\<rparr>) (updates d)\<rparr>))"

definition apply_unclaimed_connection_trigger ::
  "business_connection_candidate \<Rightarrow> connection_reconciliation_snapshot \<Rightarrow> i64 \<Rightarrow> timestamp \<Rightarrow> timestamp
   \<Rightarrow> trigger_application pop" where
  "apply_unclaimed_connection_trigger c snapshot uid occurred_at now =
     and_then (stp (apply_authoritative_candidate c (rs_candidate_revision snapshot))) (\<lambda>w.
     case w of
       CandRevisionConflict \<Rightarrow> ret (RetryTrigger True)
     | _ \<Rightarrow>
         and_then
           (if w = CandUserConflict \<or> w = CandGenerationConflict
            then insert_connection_audit uid ''connection_candidate_conflict'' occurred_at
            else ret ()) (\<lambda>_.
         and_then (stp (prune_connection_candidates (now - days 7) 256)) (\<lambda>_.
           ret CommitTrigger)))"

definition promote_legacy_chat ::
  "claimed_owner \<Rightarrow> authoritative_business_connection \<Rightarrow> unit pop" where
  "promote_legacy_chat own a =
     (if co_chat_source own = LegacyFallback
      then (case au_user_chat_id a of
              Some chat \<Rightarrow>
                and_then (stp (promote_owner_chat (co_user_id own) chat BusinessConnection)) (\<lambda>_. ret ())
            | None \<Rightarrow> ret ())
      else ret ())"

definition apply_claimed_connection_trigger ::
  "authoritative_business_connection \<Rightarrow> business_connection_candidate
   \<Rightarrow> connection_reconciliation_snapshot \<Rightarrow> claimed_owner \<Rightarrow> i64 \<Rightarrow> timestamp
   \<Rightarrow> trigger_application pop" where
  "apply_claimed_connection_trigger a c snapshot own uid occurred_at =
     (let matching = (rs_trusted_connection_id snapshot = Some (cc_connection_id c))
      in if au_business_user_id a = co_user_id own
         then
           and_then (stp (reconcile_authoritative_trusted_connection c (rs_trusted_revision snapshot)
               (rs_candidate_revision snapshot) (rs_guard_revision snapshot))) (\<lambda>w.
           if w = RevisionConflict then ret (RetryTrigger True)
           else if w = UserConflict \<or> w = GenerationConflict
           then
             if matching then ret (RetryTrigger False)
             else
               and_then (insert_connection_audit uid ''connection_generation_rejected'' occurred_at)
                 (\<lambda>_. ret CommitTrigger)
           else and_then (promote_legacy_chat own a) (\<lambda>_. ret CommitTrigger))
         else if matching then ret (RetryTrigger False)
         else
           and_then (insert_connection_audit uid ''connection_owner_mismatch'' occurred_at)
             (\<lambda>_. ret CommitTrigger))"

text \<open>
  The end of a trigger's transaction: applied and committed, or rolled back and retried. A
  trigger is retried when the owner is no longer the one the snapshot saw.
\<close>

definition commits :: "trigger_application \<Rightarrow> bool" where
  "commits r \<longleftrightarrow> r = CommitTrigger"

definition under_same_owner ::
  "owner_identity \<Rightarrow> trigger_application pop \<Rightarrow> trigger_application pop" where
  "under_same_owner expected m =
     and_then (stp read_owner_lifecycle_state) (\<lambda>s.
     case s of
       OwnerPending \<Rightarrow> ret (RetryTrigger False)
     | OwnerReady current \<Rightarrow> if current \<noteq> expected then ret (RetryTrigger True) else m)"

definition settle_trigger ::
  "('d, 'v) engine_services \<Rightarrow> i64 \<Rightarrow> trigger_application pop \<Rightarrow> (('d, 'v) world, unit) run" where
  "settle_trigger S uid m =
     run_then (transact_if commits m) (\<lambda>r.
     case r of
       CommitTrigger \<Rightarrow> forget_retry uid
     | RetryTrigger transient \<Rightarrow> schedule_connection_retry S uid transient)"

definition connection_not_found_tx ::
  "i64 \<Rightarrow> string \<Rightarrow> connection_reconciliation_snapshot \<Rightarrow> timestamp \<Rightarrow> trigger_application pop" where
  "connection_not_found_tx uid cid snapshot now =
     and_then (stp (retire_trusted_connection_not_found cid
         (case rs_trusted_revision snapshot of None \<Rightarrow> 0 | Some r \<Rightarrow> r))) (\<lambda>outcome.
     case outcome of
       Reconciled \<Rightarrow> and_then (mark_connection_trigger_applied uid now) (\<lambda>_. ret CommitTrigger)
     | RevisionConflict \<Rightarrow> ret (RetryTrigger True)
     | UserConflict \<Rightarrow> ret (RetryTrigger False)
     | GenerationConflict \<Rightarrow> ret (RetryTrigger False)
     | _ \<Rightarrow> fail (invalid_event ''unexpected connection-not-found outcome''))"

definition apply_connection_not_found ::
  "('d, 'v) engine_services \<Rightarrow> i64 \<Rightarrow> string \<Rightarrow> owner_identity \<Rightarrow> connection_reconciliation_snapshot
   \<Rightarrow> (('d, 'v) world, unit) run" where
  "apply_connection_not_found S uid cid expected snapshot =
     settle_trigger S uid
       (under_same_owner expected (connection_not_found_tx uid cid snapshot (sv_now S uid)))"

definition authoritative_trigger_tx ::
  "i64 \<Rightarrow> timestamp \<Rightarrow> owner_identity \<Rightarrow> connection_reconciliation_snapshot
   \<Rightarrow> authoritative_business_connection \<Rightarrow> timestamp \<Rightarrow> trigger_application pop" where
  "authoritative_trigger_tx uid occurred_at i snapshot a now =
     and_then
       (case i of
          Unclaimed \<Rightarrow>
            apply_unclaimed_connection_trigger (authoritative_candidate a now) snapshot uid occurred_at now
        | Claimed user _ source _ _ \<Rightarrow>
            apply_claimed_connection_trigger a (authoritative_candidate a now) snapshot
              \<lparr>co_user_id = user, co_chat_source = source\<rparr> uid occurred_at) (\<lambda>r.
     case r of
       RetryTrigger transient \<Rightarrow> ret (RetryTrigger transient)
     | CommitTrigger \<Rightarrow>
         and_then (mark_connection_trigger_applied uid now) (\<lambda>_. ret CommitTrigger))"

definition apply_authoritative_connection_trigger ::
  "('d, 'v) engine_services \<Rightarrow> i64 \<Rightarrow> timestamp \<Rightarrow> owner_identity \<Rightarrow> connection_reconciliation_snapshot
   \<Rightarrow> authoritative_business_connection \<Rightarrow> (('d, 'v) world, unit) run" where
  "apply_authoritative_connection_trigger S uid occurred_at expected snapshot a =
     settle_trigger S uid (under_same_owner expected
       (authoritative_trigger_tx uid occurred_at expected snapshot a (sv_now S uid)))"

text \<open>The owner and the revisions before the lookup; nothing while the owner is pending.\<close>

definition trigger_snapshot_tx ::
  "string \<Rightarrow> (owner_identity \<times> connection_reconciliation_snapshot) option pop" where
  "trigger_snapshot_tx cid =
     and_then (stp read_owner_lifecycle_state) (\<lambda>s.
     case s of
       OwnerPending \<Rightarrow> ret None
     | OwnerReady i \<Rightarrow>
         and_then (stp (connection_reconciliation_snapshot_of cid)) (\<lambda>snapshot. ret (Some (i, snapshot))))"

definition reconcile_connection_trigger ::
  "('d, 'v) engine_services \<Rightarrow> i64 \<Rightarrow> string \<Rightarrow> timestamp \<Rightarrow> (('d, 'v) world, unit) run" where
  "reconcile_connection_trigger S uid cid occurred_at =
     run_then (peek (trigger_snapshot_tx cid)) (\<lambda>seen.
     case seen of
       None \<Rightarrow> schedule_connection_retry S uid False
     | Some (i, snapshot) \<Rightarrow>
         (case fst (lookup_business_connection (sv_api S uid cid)) of
            Inl (ConnectionNotFound _) \<Rightarrow> apply_connection_not_found S uid cid i snapshot
          | Inl (BotAuthentication _) \<Rightarrow>
              run_then (transact (stp (set_telegram_auth_failed (sv_now S uid)))) (\<lambda>_. notify_fatal_once)
          | Inl (TransientExhausted _) \<Rightarrow> schedule_connection_retry S uid True
          | Inl _ \<Rightarrow> schedule_connection_retry S uid False
          | Inr a \<Rightarrow> apply_authoritative_connection_trigger S uid occurred_at i snapshot a))"

subsection \<open>Recovery and the retry pass\<close>

definition waiting_trigger :: "stored_event update_row \<Rightarrow> bool" where
  "waiting_trigger u \<longleftrightarrow> pu_status u = Recorded \<and> pu_event_type u = ''business_connection_changed''"

definition trigger_of ::
  "stored_event update_row \<Rightarrow> processing_error + (i64 \<times> string \<times> timestamp) option" where
  "trigger_of u =
     (case pu_event u of
        RedactedEvent _ \<Rightarrow> Inl SerializationFailure
      | StoredEvent e \<Rightarrow>
          if lf_action (pe_facts e) \<noteq> Ignore then Inr None
          else
            (case lf_connection_id (pe_facts e) of
               None \<Rightarrow> Inl (invalid_event ''recorded connection trigger ID is missing'')
             | Some cid \<Rightarrow>
                 if trim (lit cid) = []
                 then Inl (invalid_event ''recorded connection trigger ID is invalid'')
                 else Inr (Some (pu_update_id u, cid, pe_occurred_at e))))"

fun triggers_of ::
  "stored_event update_row list \<Rightarrow> processing_error + (i64 \<times> string \<times> timestamp) list" where
  "triggers_of [] = Inr []"
| "triggers_of (u # us) =
     (case trigger_of u of
        Inl e \<Rightarrow> Inl e
      | Inr t \<Rightarrow>
          (case triggers_of us of
             Inl e \<Rightarrow> Inl e
           | Inr ts \<Rightarrow> Inr (case t of None \<Rightarrow> ts | Some x \<Rightarrow> x # ts)))"

definition recorded_connection_triggers ::
  "(('d, 'v) world, (i64 \<times> string \<times> timestamp) list) run" where
  "recorded_connection_triggers =
     peek (gets_result (\<lambda>d. triggers_of (sort_key pu_update_id (filter waiting_trigger (updates d)))))"

fun reconcile_each ::
  "('d, 'v) engine_services \<Rightarrow> (i64 \<times> string \<times> timestamp) list \<Rightarrow> nat \<Rightarrow> (('d, 'v) world, nat) run" where
  "reconcile_each S [] n = finish n"
| "reconcile_each S ((uid, cid, occurred_at) # ts) n =
     run_then (reconcile_connection_trigger S uid cid occurred_at) (\<lambda>_. reconcile_each S ts (n + 1))"

definition recover_recorded_connection_triggers ::
  "('d, 'v) engine_services \<Rightarrow> (('d, 'v) world, nat) run" where
  "recover_recorded_connection_triggers S =
     run_then recorded_connection_triggers (\<lambda>ts. reconcile_each S ts 0)"

definition publish_ready_tx :: "timestamp \<Rightarrow> unit pop" where
  "publish_ready_tx now =
     and_then (stp load_telegram_reconciliation_state) (\<lambda>global.
     if tr_state global \<noteq> GlobalPending then ret ()
     else
       and_then (gets (\<lambda>d. count_where waiting_trigger (updates d))) (\<lambda>remaining.
       if remaining \<noteq> 0 then ret ()
       else
         and_then (stp (transition_telegram_reconciliation_ready (tr_state_revision global) now))
           (\<lambda>_. ret ())))"

definition publish_ready_if_drained :: "('d, 'v) engine_services \<Rightarrow> (('d, 'v) world, unit) run" where
  "publish_ready_if_drained S =
     run_then (look (\<lambda>w. en_startup_pending_connection_id (w_engine w))) (\<lambda>pending.
       if pending \<noteq> None then finish () else transact (publish_ready_tx (sv_ready_now S)))"

definition settle_startup_pending ::
  "('d, 'v) engine_services \<Rightarrow> trusted_startup_reconciliation \<Rightarrow> (('d, 'v) world, unit) run" where
  "settle_startup_pending S r =
     (case r of
        Converged \<Rightarrow>
          set_engine (\<lambda>en. en\<lparr>en_startup_pending_connection_id := None, en_startup_pending_retry := None\<rparr>)
      | AuthenticationFailed \<Rightarrow> notify_fatal_once
      | StillPending transient \<Rightarrow>
          set_engine (\<lambda>en. en\<lparr>en_startup_pending_retry :=
            Some (next_retry (en_startup_pending_retry en) transient (sv_startup_instant S))\<rparr>))"

definition retry_startup_pending_trusted ::
  "('d, 'v) engine_services \<Rightarrow> (('d, 'v) world, unit) run" where
  "retry_startup_pending_trusted S =
     run_then (look w_engine) (\<lambda>en.
     case en_startup_pending_connection_id en of
       None \<Rightarrow> finish ()
     | Some cid \<Rightarrow>
         if is_some_and (\<lambda>r. sv_startup_instant S < cr_due_at r) (en_startup_pending_retry en)
         then finish ()
         else
           run_then (reconcile_trusted_current_state (sv_startup_api S) cid (sv_startup_now S))
             (settle_startup_pending S))"

fun retry_each ::
  "('d, 'v) engine_services \<Rightarrow> (i64 \<times> string \<times> timestamp) list \<Rightarrow> i64 list \<Rightarrow> (('d, 'v) world, unit) run"
where
  "retry_each S recorded [] = finish ()"
| "retry_each S recorded (uid # uids) =
     run_then
       (case map_of recorded uid of
          Some (cid, occurred_at) \<Rightarrow> reconcile_connection_trigger S uid cid occurred_at
        | None \<Rightarrow> forget_retry uid) (\<lambda>_. retry_each S recorded uids)"

definition due_retries :: "instant \<Rightarrow> ('d, 'v) processing_engine \<Rightarrow> i64 list" where
  "due_retries now en = map fst (filter (\<lambda>(_, r). cr_due_at r \<le> now) (en_connection_retries en))"

definition retry_due_connection_triggers ::
  "('d, 'v) engine_services \<Rightarrow> (('d, 'v) world, unit) run" where
  "retry_due_connection_triggers S =
     run_then (retry_startup_pending_trusted S) (\<lambda>_.
     run_then (look (\<lambda>w. sv_walk S (due_retries (sv_pass_instant S) (w_engine w)))) (\<lambda>due.
     run_then
       (if due = [] then finish ()
        else run_then recorded_connection_triggers (\<lambda>recorded. retry_each S recorded due)) (\<lambda>_.
       publish_ready_if_drained S)))"

definition recover_startup_barrier :: "('d, 'v) engine_services \<Rightarrow> (('d, 'v) world, unit) run" where
  "recover_startup_barrier S =
     run_then (retry_startup_pending_trusted S) (\<lambda>_.
     run_then (recover_recorded_connection_triggers S) (\<lambda>_.
       publish_ready_if_drained S))"

end
