(* ===== verification/Processing_Engine.thy ===== *)
theory Processing_Engine
  imports Connection_Processing
begin

section \<open>The processing engine\<close>

text \<open>
  Models \<open>ProcessingEngine::process\<close> and the loop of its worker (\<open>src/processing/service.rs\<close>):
  one update, one pass over the retries, one expiry or one purge at a time.
\<close>

subsection \<open>One update\<close>

definition business_event_kind :: "raw_event_kind \<Rightarrow> bool" where
  "business_event_kind k \<longleftrightarrow> k \<in> {RawInboundMessage, RawEditedInboundMessage, RawManualOwnerMessage,
     RawBotBusinessMessage, RawImplicitOwnerMessage, RawMessagesDeleted}"

text \<open>Before the installation is claimed a business event loses everything but its date.\<close>

definition make_preclaim_business_event_inert :: "raw_business_event \<Rightarrow> raw_business_event pop" where
  "make_preclaim_business_event_inert raw =
     (if \<not> business_event_kind (raw_kind raw) then ret raw
      else
        and_then (stp read_owner_lifecycle_state) (\<lambda>s.
          if s \<noteq> OwnerReady Unclaimed then ret raw
          else ret (raw\<lparr>raw_kind := RawIgnored, raw_connection_id := None, raw_chat_id := None,
                 raw_message_id := None, raw_media_group_id := None, raw_content := None,
                 raw_deleted_message_ids := [], raw_connection := None,
                 raw_contact_display_name := None, raw_contact_username := None\<rparr>)))"

definition first_contact_notice :: "raw_business_event \<Rightarrow> new_contact_notice option pop" where
  "first_contact_notice raw =
     (case (raw_kind raw, raw_connection_id raw, raw_chat_id raw) of
        (RawInboundMessage, Some cid, Some chat) \<Rightarrow>
          and_then (stp (find_business_connection cid)) (\<lambda>found.
          case found of
            None \<Rightarrow> ret None
          | Some b \<Rightarrow>
              and_then (stp read_owner_lifecycle_state) (\<lambda>s.
              case (case s of
                      OwnerPending \<Rightarrow> Some (bc_owner_user_id b)
                    | OwnerReady (Claimed user owner_chat _ _ _) \<Rightarrow>
                        if user = bc_owner_user_id b then Some owner_chat else None
                    | OwnerReady Unclaimed \<Rightarrow> None) of
                None \<Rightarrow> ret None
              | Some owner_chat \<Rightarrow>
                  and_then (stp (find_conversation \<lparr>connection_id = cid, chat_id = chat\<rparr>)) (\<lambda>known.
                    if known \<noteq> None then ret None
                    else ret (Some \<lparr>nn_owner_user_id = bc_owner_user_id b,
                           nn_owner_chat_id = owner_chat, nn_contact_chat_id = chat,
                           nn_username = raw_contact_username raw\<rparr>))))
      | _ \<Rightarrow> ret None)"

text \<open>The read transaction: the inert event, the notice, and the prepared event.\<close>

definition read_tx ::
  "('d, 'v) engine_services \<Rightarrow> i64 \<Rightarrow> raw_business_event \<Rightarrow> ('d, 'v) event_preparer
   \<Rightarrow> (new_contact_notice option \<times> prepared_event \<times> ('d, 'v) event_preparer) pop" where
  "read_tx S uid raw p =
     and_then (make_preclaim_business_event_inert raw) (\<lambda>raw.
     and_then (first_contact_notice raw) (\<lambda>notice.
     and_then (prepare (sv_preparer S) (sv_prepare_clock S) uid raw p) (\<lambda>(prepared, p).
       ret (notice, prepared, p))))"

definition process_business ::
  "('d, 'v) engine_services \<Rightarrow> i64 \<Rightarrow> raw_business_event \<Rightarrow> (('d, 'v) world, record_receipt) run" where
  "process_business S uid raw =
     run_then (look (\<lambda>w. en_preparer (w_engine w))) (\<lambda>p.
     run_then (peek (read_tx S uid raw p)) (\<lambda>(notice, prepared, p).
     run_then (set_engine (\<lambda>en. en\<lparr>en_preparer := p\<rparr>)) (\<lambda>_.
     run_then (transact (map_err EventFailure (record_prepared_event_tx (sv_rfc S) prepared))) (\<lambda>receipt.
     if receipt = DuplicateApplied then finish receipt
     else if pe_event_type prepared = ''business_connection_changed''
     then
       (case lf_connection_id (pe_facts prepared) of
          None \<Rightarrow> abort (invalid_event ''connection trigger ID is missing'')
        | Some cid \<Rightarrow>
            run_then (reconcile_connection_trigger S uid cid (pe_occurred_at prepared)) (\<lambda>_.
            run_then (publish_ready_if_drained S) (\<lambda>_. finish receipt)))
     else
       run_then (transact (map_err EventFailure
           (apply_recorded_event_tx (lifecycle_apply (sv_rfc S)) (sv_now S) uid))) (\<lambda>_.
       run_then (case notice of None \<Rightarrow> finish () | Some n \<Rightarrow> call_out (NewContact n)) (\<lambda>_.
         finish receipt))))))"

definition process ::
  "('d, 'v) engine_services \<Rightarrow> i64 \<Rightarrow> raw_business_event \<Rightarrow> (('d, 'v) world, record_receipt) run" where
  "process S uid raw =
     (if raw_kind raw = RawOwnerClaim then process_owner_claim S uid raw
      else if raw_kind raw = RawOwnerStart then process_owner_start S uid raw
      else if raw_kind raw = RawOwnerCommand then process_owner_command S uid raw
      else process_business S uid raw)"

subsection \<open>The worker\<close>

text \<open>
  What the worker's loop does in one turn; a failure of any turn is logged or returned to the
  sender of the update, and the loop goes on.
\<close>

datatype turn =
    Barrier
  | Update i64 raw_business_event
  | RetryPass
  | ExpiryPass timestamp
  | PurgePass timestamp

definition on_database :: "(database \<Rightarrow> 'r \<times> database) \<Rightarrow> ('d, 'v) world \<Rightarrow> ('d, 'v) world" where
  "on_database f w = (let u = others_write w in u\<lparr>w_db := snd (f (w_db u))\<rparr>)"

fun take_turn :: "('d, 'v) engine_services \<Rightarrow> turn \<Rightarrow> ('d, 'v) world \<Rightarrow> ('d, 'v) world" where
  "take_turn S Barrier w = snd (recover_startup_barrier S w)"
| "take_turn S (Update uid raw) w = snd (process S uid raw w)"
| "take_turn S RetryPass w = snd (retry_due_connection_triggers S w)"
| "take_turn S (ExpiryPass now) w = on_database (expire_due_state now) w"
| "take_turn S (PurgePass now) w = on_database (purge_history now) w"

text \<open>The turns of a worker, each with the clocks and answers it meets.\<close>

inductive worker_run ::
  "('d, 'v) world \<Rightarrow> (('d, 'v) engine_services \<times> turn) list \<Rightarrow> ('d, 'v) world \<Rightarrow> bool" where
  worker_idle: "worker_run w [] w"
| worker_turn: "worker_run (take_turn S t w) ts u \<Longrightarrow> worker_run w ((S, t) # ts) u"

inductive_cases worker_run_Nil: "worker_run w [] u"
inductive_cases worker_run_Cons: "worker_run w (t # ts) u"

end
