(* ===== verification/Connection_Writes.thy ===== *)
theory Connection_Writes
  imports Command_Effects Connection_Safety Lifecycle_Log
begin

section \<open>The writes of the connection storage\<close>

text \<open>
  Every function of \<open>src/storage/connection_candidate.rs\<close> is composed of a few kinds of
  statement: a trusted row is inserted, replaced, updated in place or deleted with its
  cascades, or a table no invariant speaks of changes. A relation that contains these contains
  the functions.
\<close>

subsection \<open>Unguarded statements\<close>

definition kept ::
  "'ev db \<Rightarrow> (business_connection_record list \<times> conversation list \<times> ledger_row list \<times> challenge_row list
     \<times> i64 \<times> 'ev update_row list \<times> outbox_row list \<times> i64) \<times> owner_row" where
  "kept d = (guarded d, owner d)"

lemmas kept_defs = kept_def guarded_def

interpretation unguarded: step_relation "same kept"
  by (rule step_relation_same)

lemma unguardedI: "(\<And>d x t. m d = Inr (x, t) \<Longrightarrow> kept t = kept d) \<Longrightarrow> stays (same kept) m"
  by (auto simp: stays_def same_def)

lemma unguarded_modify: "(\<And>d. kept (f d) = kept d) \<Longrightarrow> stays (same kept) (modify f)"
  by (rule unguardedI) (auto simp: modify_def)

lemma reads_candidate_loads:
  "reads load_candidate_guard" "reads (load_candidate cid)" "reads (candidates_for_user u)"
  by (auto simp: load_candidate_guard_def load_candidate_def candidates_for_user_def
      intro!: reads_basic reads_if)

lemma unguarded_guard:
  "stays (same kept) (update_overflow_guard v)"
  "stays (same kept) (advance_overflow_guard_if_active c)"
proof -
  show upd: "stays (same kept) (update_overflow_guard v)" for v
    unfolding update_overflow_guard_def
    by (intro unguarded.stays_and_then unguarded.stays_reads [OF reads_candidate_loads(1)] unguardedI)
      (auto simp: kept_defs split: if_splits)
  show "stays (same kept) (advance_overflow_guard_if_active c)"
    unfolding advance_overflow_guard_if_active_def
    by (intro unguarded.stays_basic upd unguarded.stays_reads [OF reads_candidate_loads(1)])
qed

lemma unguarded_deletes:
  "stays (same kept) (delete_candidates p)" "stays (same kept) (delete_exact_candidate x)"
  "stays (same kept) clear_connection_candidates"
  "stays (same kept) (delete_connection_candidate cid)"
  "stays (same kept) (delete_connection_candidates_for_other_users u)"
  "stays (same kept) (delete_each cids n)"
proof -
  show del: "stays (same kept) (delete_candidates p)" for p :: "business_connection_candidate \<Rightarrow> bool"
    by (rule unguardedI) (auto simp: delete_candidates_def kept_defs)
  show "stays (same kept) (delete_exact_candidate x)"
    unfolding delete_exact_candidate_def by (intro unguarded.stays_basic del)
  show "stays (same kept) clear_connection_candidates"
    unfolding clear_connection_candidates_def by (rule del)
  show one: "stays (same kept) (delete_connection_candidate cid)" for cid
    unfolding delete_connection_candidate_def by (rule del)
  show "stays (same kept) (delete_connection_candidates_for_other_users u)"
    unfolding delete_connection_candidates_for_other_users_def by (intro unguarded.stays_basic del)
  show "stays (same kept) (delete_each cids n)"
    by (induction cids arbitrary: n) (auto intro!: unguarded.stays_basic one)
qed

lemma unguarded_prune: "stays (same kept) (prune_connection_candidates cutoff n)"
  unfolding prune_connection_candidates_def
  by (intro unguarded.stays_basic unguarded_deletes unguarded_guard
      unguarded.stays_reads [OF reads_candidate_loads(1)])

lemma unguarded_apply_candidate: "stays (same kept) (apply_authoritative_candidate c r)"
proof -
  have upd: "stays (same kept) (\<lambda>d. let here = p in Inr (count_where here (candidates d),
      d\<lparr>candidates := update_where here f (candidates d)\<rparr>))" for p f
    by (rule unguardedI) (auto simp: Let_def kept_defs)
  have ins: "stays (same kept) (modify (\<lambda>d. d\<lparr>candidates := candidates d @ [x]\<rparr>))" for x
    by (rule unguarded_modify) (simp add: kept_defs)
  show ?thesis
    unfolding apply_authoritative_candidate_def
    by (intro unguarded.stays_basic upd ins unguarded_deletes unguarded_guard
        unguarded.stays_reads [OF reads_candidate_loads(2)])
qed

lemma unguarded_upsert_candidate: "stays (same kept) (modify (upsert_candidate c))"
  by (rule unguarded_modify) (simp add: upsert_candidate_def kept_defs)

lemma unguarded_set_global: "stays (same kept) (set_global p s now)"
  by (rule unguardedI) (auto simp: set_global_def kept_defs split: if_splits)

lemma unguarded_ready: "stays (same kept) (transition_telegram_reconciliation_ready r now)"
  unfolding transition_telegram_reconciliation_ready_def
  by (intro unguarded.stays_basic unguarded_set_global unguarded.stays_reads [OF repository_reads(8)]
      unguarded.stays_reads [OF repository_reads(12)])

lemmas unguarded_statements = unguarded_guard unguarded_deletes unguarded_prune
  unguarded_apply_candidate unguarded_upsert_candidate unguarded_set_global unguarded_ready

subsection \<open>A relation that contains the statements\<close>

locale connection_writer = step_relation R
  for R :: "'ev db \<Rightarrow> 'ev db \<Rightarrow> bool" +
  assumes upsert_stays: "stays R (upsert_business_connection b)"
    and rows_stay: "(\<And>r. bc_connection_id (f r) = bc_connection_id r) \<Longrightarrow>
      (\<And>r. bc_owner_user_id (f r) = bc_owner_user_id r) \<Longrightarrow>
      R d (d\<lparr>connections := update_where p f (connections d)\<rparr>)"
    and delete_stays: "R d (delete_connections p d)"
    and unguarded_stays: "kept t = kept d \<Longrightarrow> R d t"
    and promote_stays: "stays R (promote_owner_chat u h s)"
    and floor_stays: "stays R (advance_owner_connection_floor fl)"
begin

lemma stays_unguarded: "stays (same kept) m \<Longrightarrow> stays R m"
  by (auto simp: stays_def same_def intro: unguarded_stays)

lemmas stays_statements = unguarded_statements [THEN stays_unguarded]

lemmas stays_loads = reads_candidate_loads [THEN stays_reads] repository_reads [THEN stays_reads]
  reads_load_owner [THEN stays_reads]

lemma stays_rows:
  "(\<And>r. bc_connection_id (f r) = bc_connection_id r) \<Longrightarrow>
   (\<And>r. bc_owner_user_id (f r) = bc_owner_user_id r) \<Longrightarrow>
   stays R (modify (\<lambda>d. d\<lparr>connections := update_where p f (connections d)\<rparr>))"
  by (rule stays_modify) (rule rows_stay)

lemma stays_update_trusted:
  assumes "\<And>r. bc_connection_id (f r) = bc_connection_id r"
    and "\<And>r. bc_owner_user_id (f r) = bc_owner_user_id r"
  shows "stays R (update_trusted cid v f)"
  by (rule staysI) (auto simp: update_trusted_def intro: rows_stay assms)

lemma stays_delete_trusted: "stays R (delete_trusted cid v)"
  by (rule staysI) (auto simp: delete_trusted_def intro: delete_stays)

lemma stays_require_one: "stays R (require_one n)"
  unfolding require_one_def by (intro stays_basic)

lemma stays_gate_conflicting: "stays R (gate_conflicting_trusted b now)"
  unfolding gate_conflicting_trusted_def
  by (intro stays_basic stays_update_trusted stays_require_one) simp_all

lemma stays_safety_intersection: "stays R (apply_safety_intersection b c)"
  unfolding apply_safety_intersection_def Let_def
  by (intro stays_basic stays_update_trusted stays_require_one) simp_all

lemma stays_install: "stays R (install_new_generation c r e w)"
  unfolding install_new_generation_def install_trusted_def
  by (intro stays_basic upsert_stays stays_statements)

lemma stays_retain_ambiguous: "stays R (retain_ambiguous_generations b c r chat)"
  unfolding retain_ambiguous_generations_def
  by (intro stays_basic stays_delete_trusted stays_require_one stays_statements floor_stays)

lemma reads_floor: "reads (generation_floor_excluding cid)"
  unfolding generation_floor_excluding_def
  by (intro reads_and_then reads_basic reads_candidate_loads reads_load_owner)

text \<open>The one statement that writes the owner's column writes the value it has.\<close>

lemma reconcile_same_step:
  assumes run: "reconcile_same_trusted b c r e d = Inr (w, t)" and one: "connections d = [b]"
  shows "R d t"
proof (cases "e = Some (bc_state_revision b) \<and> bc_owner_user_id b = cc_business_user_id c
    \<and> \<not> is_some_and (\<lambda>date. date \<noteq> cc_connection_established_at c) (bc_connection_established_at b)")
  case False
  then show ?thesis
    using run unfolding reconcile_same_trusted_def
    by (auto split: if_splits simp: and_then_Inr_iff ret_Inr_iff
        dest: staysD [OF stays_safety_intersection] staysD [OF stays_gate_conflicting])
next
  case True
  let ?f = "\<lambda>q. q\<lparr>bc_owner_user_id := cc_business_user_id c, bc_rights_json := r,
      bc_enabled := cc_enabled c, bc_connection_established_at := Some (cc_connection_established_at c),
      bc_state_revision := bc_state_revision q + 1, bc_reconciliation_state := ReconciliationConfirmed,
      bc_updated_at := cc_observed_at c\<rparr>"
  let ?g = "\<lambda>q. (?f q)\<lparr>bc_owner_user_id := bc_owner_user_id q\<rparr>"
  let ?p = "trusted_row (cc_connection_id c) (bc_state_revision b)"
  define m where "m = d\<lparr>connections := update_where ?p ?f (connections d)\<rparr>"
  have "update_where ?p ?f (connections d) = update_where ?p ?g (connections d)"
    using True by (simp add: one)
  then have dm: "R d m" unfolding m_def by (simp only:) (rule rows_stay; simp)
  have "m = t \<or> (\<exists>x. delete_connection_candidate (cc_connection_id c) m = Inr (x, t))"
    using run True unfolding reconcile_same_trusted_def
    by (auto simp: and_then_Inr_iff ret_Inr_iff update_trusted_def m_def split: if_splits)
  then have "R m t" using step_refl staysD [OF stays_unguarded [OF unguarded_deletes(4)]] by auto
  with dm show ?thesis by (rule step_trans)
qed

lemma stays_reconcile_owned: "stays R (reconcile_owned c r et ec i)"
proof (rule staysI)
  fix d t :: "'ev db" and w
  assume run: "reconcile_owned c r et ec i d = Inr (w, t)"
  show "R d t"
  proof (cases "\<exists>user chat s fl bd. i = Claimed user chat s fl bd \<and> user = cc_business_user_id c")
    case False
    with run show ?thesis
      by (cases i) (auto simp: reconcile_owned_def ret_Inr_iff step_refl)
  next
    case True
    then obtain chat s fl bd where i: "i = Claimed (cc_business_user_id c) chat s fl bd" by blast
    obtain trusted u where l: "load_single_trusted_connection d = Inr (trusted, u)"
      using run by (auto simp: reconcile_owned_def i and_then_Inr_iff)
    note ld = load_single_Inr [OF l]
    note rest = run [unfolded reconcile_owned_def i, simplified, unfolded and_then_run
        [where m = load_single_trusted_connection and s = d, OF l]]
    show ?thesis
    proof (cases trusted)
      case None
      have "stays R (if et \<noteq> None then ret RevisionConflict
             else and_then (generation_floor_excluding (cc_connection_id c)) (\<lambda>fl.
             if below_floor (cc_connection_established_at c) fl then ret GenerationConflict
             else install_new_generation c r ec Installed))"
        by (intro stays_basic stays_install stays_reads [OF reads_floor])
      with rest None ld show ?thesis by (auto dest: staysD)
    next
      case (Some b)
      with ld have one: "connections d = [b]" "u = d" by simp_all
      show ?thesis
      proof (cases "bc_connection_id b = cc_connection_id c")
        case True
        with rest Some one reconcile_same_step show ?thesis by simp
      next
        case other: False
        have "stays R (if et \<noteq> Some (bc_state_revision b) then ret RevisionConflict
             else if bc_owner_user_id b \<noteq> cc_business_user_id c then ret UserConflict
             else
             (case bc_connection_established_at b of
                None \<Rightarrow> ret GenerationConflict
              | Some established \<Rightarrow>
                  if cc_connection_established_at c = established
                  then and_then (retain_ambiguous_generations b c r chat) (\<lambda>_. ret Ambiguous)
                  else
                  and_then (generation_floor_excluding (cc_connection_id c)) (\<lambda>fl.
                  if cc_connection_established_at c < established
                     \<or> below_floor (cc_connection_established_at c) fl
                  then ret GenerationConflict
                  else install_new_generation c r ec Replaced)))"
          by (intro stays_basic stays_install stays_retain_ambiguous stays_reads [OF reads_floor])
        with rest Some one other show ?thesis by (auto dest: staysD)
      qed
    qed
  qed
qed

lemma stays_reconcile: "stays R (reconcile_authoritative_trusted_connection c et ec eg)"
  unfolding reconcile_unfold
  by (intro stays_basic stays_reconcile_owned stays_loads)

lemma stays_claim_promotion: "stays R (promote_claim_candidate c e g)"
  unfolding promote_claim_candidate_def
  by (auto intro!: stays_basic stays_install stays_loads split: owner_identity.split)

lemma stays_retire: "stays R (retire_trusted_connection_not_found cid v)"
  unfolding retire_trusted_connection_not_found_def Let_def
  by (auto intro!: stays_basic stays_delete_trusted stays_loads
      stays_unguarded [OF unguarded_deletes(4)] floor_stays
      split: owner_identity.split)

lemma stays_auth_failed: "stays R (set_telegram_auth_failed now)"
  unfolding set_telegram_auth_failed_def
  by (intro stays_basic stays_loads stays_unguarded [OF unguarded_set_global] stays_rows)
    (simp_all add: pend_trusted_def)

lemma stays_gate_matching: "stays R (gate_matching_trusted_for_reconciliation cid now)"
  by (rule stays_gate [OF step_relation_axioms]) (rule rows_stay; simp add: pend_trusted_def)

lemma reads_snapshot: "reads (connection_reconciliation_snapshot_of cid)"
  unfolding connection_reconciliation_snapshot_of_def
  by (intro reads_if reads_and_then reads_basic reads_candidate_loads repository_reads)

end

subsection \<open>Safe steps contain them\<close>

lemma evolves_safe_rows:
  fixes d :: database
  assumes "\<And>r. bc_connection_id (f r) = bc_connection_id r"
    and "\<And>r. bc_owner_user_id (f r) = bc_owner_user_id r"
  shows "safe_step d (d\<lparr>connections := update_where p f (connections d)\<rparr>)"
    (is "safe_step d ?t")
proof -
  have "outbox_evolves d ?t"
    by (rule queue_same_evolves) (use assms in \<open>simp_all add: ok_update_connections queue_of_def\<close>)
  moreover have "state_of ?t = state_of d" "open_for ?t = open_for d"
    by (simp_all add: state_of_def row_of_def open_for_def fun_eq_iff)
  ultimately show ?thesis by (simp add: safe_step_def verify_sound_def)
qed

lemma cascades_delete: "cascades d (delete_connections p d)"
  unfolding cascades_def delete_connections_def Let_def
  by (rule disjI2, rule exI [of _ "\<lambda>key. \<exists>b \<in> set (connections d). p b \<and> bc_connection_id b = connection_id key"])
    simp

lemma safe_delete_connections:
  fixes d :: database
  shows "safe_step d (delete_connections p d)"
proof -
  have "queue_of (delete_connections p d) = queue_of d"
    by (simp add: queue_of_def delete_connections_def Let_def)
  then have "outbox_evolves d (delete_connections p d)"
    by (intro queue_same_evolves ok_delete_connections)
  with cascades_sound [OF cascades_delete] show ?thesis by (auto simp: safe_step_def)
qed

lemma safe_if_guarded:
  fixes d t :: database
  assumes "guarded t = guarded d"
  shows "safe_step d t"
proof -
  have "stays (same guarded) (\<lambda>u. if u = d then Inr ((), t) else Inl ())"
    using assms by (auto simp: stays_def same_def split: if_splits)
  from staysD [OF safe_unguarded [OF this], of d] show ?thesis by simp
qed

lemma safe_owner:
  "stays safe_step (set_owner_if p f)" "stays safe_step (claim_owner u h fl now)"
  "stays safe_step (advance_owner_connection_floor fl)"
proof -
  show set: "stays safe_step (set_owner_if p f)" for p f
    by (rule staysI, rule safe_if_guarded) (auto simp: set_owner_if_def guarded_def split: if_splits)
  show "stays safe_step (claim_owner u h fl now)" "stays safe_step (advance_owner_connection_floor fl)"
    unfolding claim_owner_def advance_owner_connection_floor_def
    by (auto intro!: safe.stays_basic set safe_reads [OF reads_load_owner(1)]
        safe_reads [OF reads_load_owner(2)] split: owner_row.split owner_identity.split)
qed

interpretation safe_connections: connection_writer safe_step
  by unfold_locales
    (rule safe_if [OF evolves_upsert sound_upsert] | rule evolves_safe_rows; assumption
      | rule safe_delete_connections | rule safe_if_guarded; simp add: kept_def
      | rule safe_promote | rule safe_owner)+

end
