(* ===== verification/Engine_Safety.thy ===== *)
theory Engine_Safety
  imports Processing_Engine Connection_Writes
begin

section \<open>What the engine's transactions write\<close>

text \<open>
  The transactions of the processing engine, and the runs composed of them, move the database
  along any relation that contains the statements they are made of. The relations this is used
  for: the steps that keep the database sound, and the steps that never change a claimed owner.
\<close>

subsection \<open>Reads\<close>

lemma reads_engine:
  "reads (existing_update_receipt_in uid)" "reads (dry_run_enabled b)"
  "reads (owner_claim_snapshot_tx u now)" "reads read_owner_lifecycle_state"
  "reads (make_preclaim_business_event_inert raw)" "reads (first_contact_notice raw)"
  by (auto simp: existing_update_receipt_in_def dry_run_enabled_def owner_claim_snapshot_tx_def
      make_preclaim_business_event_inert_def first_contact_notice_def read_owner_lifecycle_state_eq
      split: option.split raw_event_kind.split owner_row.split
      intro!: reads_rules reads_candidate_loads)

lemma existing_receipt_Inr:
  assumes "existing_update_receipt_in uid d = Inr (r, t)"
  shows "t = d" and "r = None \<longleftrightarrow> find_update uid d = None"
proof -
  show "t = d" using readsD [OF reads_engine(1) assms] .
  show "r = None \<longleftrightarrow> find_update uid d = None"
    using assms by (auto simp: existing_update_receipt_in_def gets_result_Inr_iff split: option.splits sum.splits)
qed

subsection \<open>The statements of the engine\<close>

locale engine_writer = connection_writer R
  for R :: "database \<Rightarrow> database \<Rightarrow> bool" +
  assumes enqueue_stays: "stays R (enqueue_outbox_action a)"
    and audit_stays: "stays R (insert_audit_event e)"
    and insert_stays: "find_update (pu_update_id u) d = None \<Longrightarrow> R d (d\<lparr>updates := updates d @ [u]\<rparr>)"
    and mark_stays: "stays R (mark_connection_trigger_applied uid now)"
    and security_stays: "stays R (insert_security_audit now)"
    and command_stays: "stays R (execute_authorized env rfc service command source who)"
begin

lemmas stays_engine_loads = reads_engine [THEN stays_reads]

lemma stays_cases:
  "(\<And>a b. stays R (f a b)) \<Longrightarrow> stays R (case p of (a, b) \<Rightarrow> f a b)"
  "(\<And>e. stays R (g e)) \<Longrightarrow> (\<And>x. stays R (h x)) \<Longrightarrow> stays R (case r of Inl e \<Rightarrow> g e | Inr x \<Rightarrow> h x)"
  by (cases p; simp) (cases r; simp)

lemma stays_insert_redacted: "stays R (insert_redacted ty kind uid at)"
proof (rule staysI)
  fix d x t
  assume "insert_redacted ty kind uid at d = Inr (x, t)"
  then have t: "t = d\<lparr>updates := updates d @ [redacted_row ty kind uid at]\<rparr>"
    and new: "\<forall>u \<in> set (updates d). pu_update_id u \<noteq> uid"
    by (auto simp: insert_redacted_def split: if_splits)
  have "find_update (pu_update_id (redacted_row ty kind uid at)) d = None"
    using new by (simp add: find_update_def find_row_None_iff redacted_row_def)
  then show "R d t" unfolding t by (rule insert_stays)
qed

lemma stays_redacted:
  "stays R (insert_redacted_owner_start_update uid at)"
  "stays R (insert_redacted_owner_update uid at)"
  "stays R (insert_redacted_owner_command_update uid at)"
  unfolding insert_redacted_owner_start_update_def insert_redacted_owner_update_def
    insert_redacted_owner_command_update_def
  by (rule stays_insert_redacted)+

lemma stays_messages:
  "stays R (insert_owner_claim_audit uid b at)" "stays R (insert_connection_audit uid k at)"
  "stays R (enqueue_direct_owner_message uid h m at s)" "stays R (enqueue_private_message uid h k at)"
  "stays R (enqueue_owner_telegram_actions uid actions at)"
  unfolding insert_owner_claim_audit_def insert_connection_audit_def enqueue_direct_owner_message_def
    enqueue_private_message_def enqueue_owner_telegram_actions_def
  by (auto intro!: stays_basic audit_stays enqueue_stays split: owner_telegram_action.split)

lemma stays_command_trace: "stays R (enqueue_owner_command_trace uid h m at)"
  unfolding enqueue_owner_command_trace_def by (intro stays_basic stays_loads stays_messages)

lemma stays_authorize: "stays R (authorize source now)"
  unfolding authorize_def
  by (auto intro!: stays_owner security_stays promote_stays stays_loads split: owner_identity.split)

lemma stays_command_reply: "stays R (owner_command_reply S service source t who)"
  unfolding owner_command_reply_def by (intro stays_cases stays_basic command_stays)

lemma stays_owner_command: "stays R (owner_command_tx S mode uid raw)"
  unfolding owner_command_tx_def Let_def
  by (auto intro!: stays_basic stays_engine_loads(1,2) stays_redacted stays_authorize stays_command_reply
      stays_messages stays_command_trace
      split: sum.split owner_command_error.split)

lemma stays_owner_start: "stays R (owner_start_tx capability uid u h at)"
  unfolding owner_start_tx_def
  by (intro stays_basic stays_engine_loads stays_redacted stays_messages stays_loads)

lemma stays_claim_rejection: "stays R (owner_claim_rejection_tx uid reply at)"
  unfolding owner_claim_rejection_tx_def
  by (intro stays_basic stays_engine_loads stays_redacted stays_messages)

text \<open>The claim itself, for a relation that contains it.\<close>

lemma stays_claim:
  assumes "\<And>u h fl now. stays R (claim_owner u h fl now)"
  shows "stays R (owner_claim_tx now uid claim snapshot lookup)"
proof -
  have "stays R (try_promote_claim_candidate snapshot global g cs a now)" for global g cs a
    unfolding try_promote_claim_candidate_def Let_def by (intro stays_basic stays_claim_promotion)
  moreover have "stays R (settle_claim_candidates promoted claim g cs lookup)" for promoted g cs
    unfolding settle_claim_candidates_def
    by (intro stays_basic stays_unguarded [OF unguarded_deletes(3)] stays_unguarded [OF unguarded_deletes(5)])
  ultimately show ?thesis
    unfolding owner_claim_tx_def refuse_owner_claim_tx_def accept_owner_claim_tx_def
      connect_owner_claim_tx_def record_owner_claim_tx_def
    by (intro stays_basic stays_engine_loads stays_redacted stays_messages stays_loads assms
        stays_auth_failed stays_unguarded [OF unguarded_prune])
qed

lemma stays_unclaimed_trigger: "stays R (apply_unclaimed_connection_trigger c snapshot uid at now)"
  unfolding apply_unclaimed_connection_trigger_def
  by (auto intro!: stays_basic stays_messages stays_unguarded [OF unguarded_prune]
      stays_unguarded [OF unguarded_apply_candidate] split: candidate_write.split)

lemma stays_claimed_trigger: "stays R (apply_claimed_connection_trigger a c snapshot own uid at)"
  unfolding apply_claimed_connection_trigger_def Let_def promote_legacy_chat_def
  by (intro stays_basic stays_messages stays_reconcile promote_stays)

lemma stays_under_owner: "stays R m \<Longrightarrow> stays R (under_same_owner i m)"
  unfolding under_same_owner_def
  by (auto intro!: stays_basic stays_engine_loads(4) split: owner_row.split)

lemma stays_not_found: "stays R (connection_not_found_tx uid cid snapshot now)"
  unfolding connection_not_found_tx_def
  by (auto intro!: stays_basic stays_retire mark_stays split: trusted_connection_write.split)

lemma stays_authoritative: "stays R (authoritative_trigger_tx uid at i snapshot a now)"
  unfolding authoritative_trigger_tx_def
  by (auto intro!: stays_basic stays_unclaimed_trigger stays_claimed_trigger mark_stays
      split: owner_identity.split trigger_application.split)

lemma stays_publish: "stays R (publish_ready_tx now)"
  unfolding publish_ready_tx_def
  by (intro stays_basic stays_loads stays_unguarded [OF unguarded_ready])

lemma stays_record: "stays R (record_prepared_event_tx rfc e)"
proof -
  have "stays R (insert_update (update_row_of e))"
    by (rule staysI)
      (auto simp: insert_update_def find_update_def find_row_None_iff step_refl
        split: if_splits intro!: insert_stays)
  then show ?thesis
    unfolding record_prepared_event_tx_def
    by (auto intro!: stays_basic stays_gate_matching split: update_status.split)
qed

end

subsection \<open>Runs\<close>

text \<open>
  The other workers write in between along \<open>Q\<close>; the engine then moves the database along \<open>R\<close>,
  however it ends.
\<close>

definition others_in :: "(database \<Rightarrow> database \<Rightarrow> bool) \<Rightarrow> ('d, 'v) world \<Rightarrow> bool" where
  "others_in Q w \<longleftrightarrow> list_all (\<lambda>f. \<forall>d. Q d (f d)) (w_others w)"

definition drives ::
  "(database \<Rightarrow> database \<Rightarrow> bool) \<Rightarrow> (database \<Rightarrow> database \<Rightarrow> bool) \<Rightarrow> (('d, 'v) world, 'a) run \<Rightarrow> bool" where
  "drives Q R m \<longleftrightarrow> (\<forall>w. others_in Q w \<longrightarrow> R (w_db w) (w_db (snd (m w))) \<and> others_in Q (snd (m w)))"

lemma drivesI:
  "(\<And>w. others_in Q w \<Longrightarrow> R (w_db w) (w_db (snd (m w))) \<and> others_in Q (snd (m w))) \<Longrightarrow> drives Q R m"
  by (simp add: drives_def)

lemma drivesD:
  "drives Q R m \<Longrightarrow> others_in Q w \<Longrightarrow> R (w_db w) (w_db (snd (m w))) \<and> others_in Q (snd (m w))"
  by (simp add: drives_def)

lemma others_write_in:
  assumes "others_in Q w" and "\<And>d. Q d d"
  shows "Q (w_db w) (w_db (others_write w))" and "others_in Q (others_write w)"
  using assms by (auto simp: others_in_def others_write_def split: list.split)

locale engine_relation = engine_writer R
  for R :: "database \<Rightarrow> database \<Rightarrow> bool" +
  fixes Q :: "database \<Rightarrow> database \<Rightarrow> bool"
  assumes others_sub: "Q d t \<Longrightarrow> R d t" and others_refl: "Q d d"
begin

lemma drives_still:
  assumes "\<And>w. w_db (snd (m w)) = w_db w" and "\<And>w. w_others (snd (m w)) = w_others w"
  shows "drives Q R m"
  by (rule drivesI) (simp add: assms step_refl others_in_def)

lemma drives_basic:
  "drives Q R (finish x)" "drives Q R (abort e)" "drives Q R (look f)" "drives Q R (set_engine g)"
  "drives Q R (call_out c)"
  by (rule drives_still;
      simp add: finish_def abort_def look_def set_engine_def call_out_def alter_def)+

lemma drives_then:
  fixes m :: "(('d, 'v) world, 'a) run"
  assumes "drives Q R m" and "\<And>x. drives Q R (f x)"
  shows "drives Q R (run_then m f)"
proof (rule drivesI)
  fix w :: "('d, 'v) world"
  assume w: "others_in Q w"
  obtain r u where m: "m w = (r, u)" by fastforce
  have 1: "R (w_db w) (w_db u)" "others_in Q u" using drivesD [OF assms(1) w] m by simp_all
  show "R (w_db w) (w_db (snd (run_then m f w))) \<and> others_in Q (snd (run_then m f w))"
  proof (cases r)
    case (Inl e)
    with m 1 show ?thesis by (simp add: run_then_def)
  next
    case (Inr x)
    with m 1 drivesD [OF assms(2) 1(2), of x] show ?thesis
      by (auto simp: run_then_def intro: step_trans)
  qed
qed

lemma drives_transact_if:
  assumes "stays R m"
  shows "drives Q R (transact_if keep m :: (('d, 'v) world, 'a) run)"
proof (rule drivesI)
  fix w :: "('d, 'v) world"
  assume w: "others_in Q w"
  note o = others_write_in [OF w others_refl]
  have "R (w_db (others_write w)) (snd (conclude keep m (w_db (others_write w))))"
    using assms by (auto simp: conclude_def step_refl dest: staysD split: sum.split)
  with o others_sub show "R (w_db w) (w_db (snd (transact_if keep m w)))
      \<and> others_in Q (snd (transact_if keep m w))"
    by (auto simp: transact_if_def Let_def others_in_def split: prod.split
        intro: step_trans [OF others_sub])
qed

lemma drives_transact: "stays R m \<Longrightarrow> drives Q R (transact m)"
  unfolding transact_def by (rule drives_transact_if)

lemma drives_peek: "drives Q R (peek m :: (('d, 'v) world, 'a) run)"
proof (rule drivesI)
  fix w :: "('d, 'v) world"
  assume w: "others_in Q w"
  note o = others_write_in [OF w others_refl]
  have "snd (conclude (\<lambda>_. False) m d) = d" for d
    by (auto simp: conclude_def split: sum.split)
  with o others_sub show "R (w_db w) (w_db (snd (peek m w))) \<and> others_in Q (snd (peek m w))"
    by (auto simp: peek_def transact_if_def Let_def others_in_def split: prod.split)
      (metis snd_conv)+
qed

lemma drives_if: "drives Q R m \<Longrightarrow> drives Q R n \<Longrightarrow> drives Q R (if b then m else n)"
  by simp

lemma drives_cases:
  "drives Q R m \<Longrightarrow> (\<And>x. drives Q R (f x)) \<Longrightarrow> drives Q R (case v of None \<Rightarrow> m | Some x \<Rightarrow> f x)"
  "(\<And>a b. drives Q R (g a b)) \<Longrightarrow> drives Q R (case p of (a, b) \<Rightarrow> g a b)"
  "(\<And>e. drives Q R (h e)) \<Longrightarrow> (\<And>x. drives Q R (k x)) \<Longrightarrow> drives Q R (case r of Inl e \<Rightarrow> h e | Inr x \<Rightarrow> k x)"
  by (auto split: option.split prod.split sum.split)

lemmas drives_rules = drives_basic drives_then drives_if drives_cases drives_peek

lemma drives_notify: "drives Q R notify_fatal_once"
  unfolding notify_fatal_once_def by (intro drives_rules)

lemma drives_publish_identity: "drives Q R (publish_identity i)"
  unfolding publish_identity_def by (intro drives_rules)

lemma drives_owner_command: "drives Q R (process_owner_command S uid raw)"
  unfolding process_owner_command_def
  by (intro drives_rules drives_transact stays_owner_command drives_publish_identity)

lemma drives_owner_start: "drives Q R (process_owner_start S uid raw)"
  unfolding process_owner_start_def
  by (auto intro!: drives_rules drives_transact_if stays_owner_start drives_owner_command
      split: start_outcome.split)

lemma drives_claim:
  assumes "\<And>u h fl now. stays R (claim_owner u h fl now)"
  shows "drives Q R (process_owner_claim S uid raw)"
proof -
  have finish: "drives Q R (finish_owner_claim b)" for b
    unfolding finish_owner_claim_def by (intro drives_rules drives_notify)
  have commit: "drives Q R (commit_owner_claim S uid claim snapshot lookup)" for claim snapshot lookup
    unfolding commit_owner_claim_def
    by (auto intro!: drives_rules drives_transact stays_claim assms drives_publish_identity finish
        split: claim_outcome.split)
  show ?thesis
    unfolding process_owner_claim_def existing_update_receipt_def record_owner_claim_rejection_def
    by (auto intro!: drives_rules drives_transact stays_claim_rejection commit
        split: parsed_owner_claim.split)
qed

lemma drives_retry: "drives Q R (schedule_connection_retry S uid b)" "drives Q R (forget_retry uid)"
  unfolding schedule_connection_retry_def forget_retry_def by (intro drives_rules)+

lemma drives_settle: "stays R m \<Longrightarrow> drives Q R (settle_trigger S uid m)"
  unfolding settle_trigger_def
  by (auto intro!: drives_rules drives_transact_if drives_retry split: trigger_application.split)

lemma drives_trigger: "drives Q R (reconcile_connection_trigger S uid cid at)"
  unfolding reconcile_connection_trigger_def apply_connection_not_found_def
    apply_authoritative_connection_trigger_def
  by (auto intro!: drives_rules drives_retry drives_notify drives_transact drives_settle stays_map_err
      stays_auth_failed stays_under_owner stays_not_found stays_authoritative
      split: authoritative_lookup_error.split)

lemma drives_publish: "drives Q R (publish_ready_if_drained S)"
  unfolding publish_ready_if_drained_def by (intro drives_rules drives_transact stays_publish)

lemma drives_startup: "drives Q R (retry_startup_pending_trusted S)"
proof -
  have "drives Q R (reconcile_trusted_current_state api cid now)" for api cid now
    unfolding reconcile_trusted_current_state_def
    by (auto intro!: drives_rules drives_transact stays_map_err stays_retire stays_auth_failed
        stays_reconcile split: authoritative_lookup_error.split)
  moreover have "drives Q R (settle_startup_pending S r)" for r
    unfolding settle_startup_pending_def
    by (auto intro!: drives_rules drives_notify split: trusted_startup_reconciliation.split)
  ultimately show ?thesis
    unfolding retry_startup_pending_trusted_def by (intro drives_rules)
qed

lemma drives_recorded: "drives Q R recorded_connection_triggers"
  unfolding recorded_connection_triggers_def by (rule drives_peek)

lemma drives_each:
  "drives Q R (reconcile_each S ts n)" "drives Q R (retry_each S ts uids)"
proof -
  show "drives Q R (reconcile_each S ts n)"
    by (induction S ts n rule: reconcile_each.induct) (auto intro!: drives_rules drives_trigger)
  show "drives Q R (retry_each S ts uids)"
    by (induction uids) (auto intro!: drives_rules drives_trigger drives_retry)
qed

lemma drives_passes:
  "drives Q R (recover_startup_barrier S)" "drives Q R (retry_due_connection_triggers S)"
  unfolding recover_startup_barrier_def recover_recorded_connection_triggers_def
    retry_due_connection_triggers_def
  by (intro drives_rules drives_startup drives_recorded drives_each drives_publish)+

end

end
