(* ===== verification/Engine_Runs.thy ===== *)
theory Engine_Runs
  imports Engine_Safety Preparation_Safety
begin

section \<open>Runs of the processing engine\<close>

text \<open>
  Every turn of the worker, composed with the writes of the other workers between its
  transactions, moves the database along each relation that contains the safe steps. For the
  outbox this gives a refinement: an engine at work is a legal writer of \<open>Outbox_Runs\<close>. For the
  verification invariant it needs that no update is delivered again half-way.
\<close>

subsection \<open>Relations above the safe steps\<close>

lemma stays_mono: "stays R m \<Longrightarrow> (\<And>d t. R d t \<Longrightarrow> S d t) \<Longrightarrow> stays S m"
  by (auto simp: stays_def)

lemma safe_insert:
  assumes "find_update (pu_update_id u) d = None"
  shows "safe_step d (d\<lparr>updates := updates d @ [u]\<rparr>)"
proof -
  have "insert_update u d = Inr (True, d\<lparr>updates := updates d @ [u]\<rparr>)"
    using assms by (auto simp: insert_update_def find_update_def find_row_None_iff)
  from staysD [OF insert_update_ok this] have "outbox_evolves d (d\<lparr>updates := updates d @ [u]\<rparr>)"
    by (intro queue_same_evolves) (simp_all add: keeps_def queue_of_def)
  moreover have "core (d\<lparr>updates := updates d @ [u]\<rparr>) = core d" by (simp add: core_def)
  ultimately show ?thesis
    using core_frame(1,2) [of "d\<lparr>updates := updates d @ [u]\<rparr>" d]
    by (simp add: safe_step_def verify_sound_def)
qed

text \<open>Both ways of marking an update applied change the log only, and no identity in it.\<close>

lemma log_only_safe:
  fixes d t :: database
  assumes "t = d\<lparr>updates := updates t\<rparr>" and "log_step d t"
  shows "safe_step d t"
proof -
  obtain us where t: "t = d\<lparr>updates := us\<rparr>" using assms(1) by blast
  have frame: "queue_of t = queue_of d" "core t = core d" by (simp_all add: t queue_of_def core_def)
  have "db_ok t" if "db_ok d"
    using ok_updates [OF that log_step_ids [OF assms(2)]] assms(1) by simp
  from queue_same_evolves [OF this frame(1)] core_frame(1,2) [OF frame(2)] show ?thesis
    by (simp add: safe_step_def verify_sound_def)
qed

lemma mark_trigger_Inr:
  assumes "mark_connection_trigger_applied uid now d = Inr (x, t)"
  shows "mark_applied uid now d = Inr ((), t)"
  using assms
  by (auto simp: mark_connection_trigger_applied_def mark_applied_def Let_def split: if_splits)

lemma safe_marks:
  "stays safe_step (mark_applied uid now)" "stays safe_step (mark_connection_trigger_applied uid now)"
proof -
  show m: "stays safe_step (mark_applied uid now)"
  proof (rule staysI)
    fix d t :: database and x
    assume run: "mark_applied uid now d = Inr (x, t)"
    show "safe_step d t"
      by (rule log_only_safe [OF mark_applied_Inr(3) [OF run] mark_applied_Inr(1) [OF run]])
  qed
  show "stays safe_step (mark_connection_trigger_applied uid now)"
    by (rule staysI) (rule staysD [OF m mark_trigger_Inr])
qed

interpretation safe_engine: engine_writer safe_step
proof unfold_locales
  show "stays safe_step (enqueue_outbox_action a)" for a
    by (rule safe_if [OF evolves_enqueue sound_if_core [OF queue_core.r_enqueue]])
  show "stays safe_step (insert_audit_event e)" for e
    by (rule safe_unguarded) (auto simp: insert_audit_event_def stays_def same_def guarded_def Let_def
        split: if_splits)
qed (rule safe_insert safe_marks safe_audits safe_execute; assumption?)+

lemma engine_writer_above:
  assumes "step_relation S" and above: "\<And>d t. safe_step d t \<Longrightarrow> S d t"
  shows "engine_writer S"
proof -
  note up = stays_mono [OF _ above]
  show ?thesis
    by (intro engine_writer.intro connection_writer.intro connection_writer_axioms.intro
        engine_writer_axioms.intro assms(1) up [OF safe_connections.upsert_stays]
        above [OF safe_connections.rows_stay] above [OF safe_connections.delete_stays]
        above [OF safe_connections.unguarded_stays] up [OF safe_connections.promote_stays]
        up [OF safe_connections.floor_stays] up [OF safe_engine.enqueue_stays]
        up [OF safe_engine.audit_stays] above [OF safe_engine.insert_stays]
        up [OF safe_engine.mark_stays] up [OF safe_engine.security_stays]
        up [OF safe_engine.command_stays])
qed

subsection \<open>Turns\<close>

locale engine_runs = engine_relation R Q
  for R Q :: "database \<Rightarrow> database \<Rightarrow> bool" +
  assumes apply_stays: "stays R (apply_recorded_event_tx (lifecycle_apply rfc) now uid)"
    and claim_stays: "stays R (claim_owner u h fl at)"
    and expiry_stays: "stays R (expire_due_state_in at)"
    and purge_stays: "stays R (purge_history_in at)"
begin

lemma drives_business: "drives Q R (process_business S uid raw)"
  unfolding process_business_def
  by (intro drives_rules drives_transact stays_map_err stays_record apply_stays drives_trigger drives_publish)

lemma drives_process: "drives Q R (process S uid raw)"
  unfolding process_def
  by (intro drives_if drives_claim claim_stays drives_owner_start drives_owner_command drives_business)

lemma on_database_along:
  assumes "stays R m" and "others_in Q w"
  shows "R (w_db w) (w_db (on_database (commit m) w)) \<and> others_in Q (on_database (commit m) w)"
  using others_write_in [OF assms(2) others_refl] others_sub commit_stays [OF assms(1)]
  by (auto simp: on_database_def Let_def others_in_def intro: step_trans)

lemma turn_along:
  assumes "others_in Q w"
  shows "R (w_db w) (w_db (take_turn S t w)) \<and> others_in Q (take_turn S t w)"
proof (cases t)
  case (ExpiryPass now)
  with on_database_along [OF expiry_stays assms, of now] show ?thesis
    by (simp add: expire_due_state_def)
next
  case (PurgePass now)
  with on_database_along [OF purge_stays assms, of now] show ?thesis
    by (simp add: purge_history_def)
qed (use drivesD [OF drives_process assms] drivesD [OF drives_passes(1) assms]
    drivesD [OF drives_passes(2) assms] in simp_all)

lemma run_along:
  "worker_run w ts u \<Longrightarrow> others_in Q w \<Longrightarrow> R (w_db w) (w_db u) \<and> others_in Q u"
proof (induction rule: worker_run.induct)
  case (worker_idle w)
  then show ?case by (simp add: step_refl)
next
  case (worker_turn S t w ts u)
  with turn_along [OF worker_turn.prems, of S t] show ?case by (auto intro: step_trans)
qed

end

subsection \<open>The outbox\<close>

lemma safe_evolves: "safe_step d t \<Longrightarrow> outbox_evolves d t"
  by (simp add: safe_step_def)

lemma evolves_apply: "stays outbox_evolves (apply_recorded_event_tx (lifecycle_apply rfc) now uid)"
  unfolding apply_recorded_event_tx_def
  by (auto intro!: evolves.stays_basic outbox_writer.stays_lifecycle
      stays_mono [OF safe_marks(1) safe_evolves] split: stored_event.split)

lemma evolves_expiry: "stays outbox_evolves (expire_due_state_in now)"
proof -
  have edit: "stays outbox_evolves (enqueue_expiry_edit c now)" for c
    unfolding enqueue_expiry_edit_def by (intro evolves.stays_basic evolves_enqueue)
  have release: "stays outbox_evolves (release_pending k now)" for k
    unfolding release_pending_def
    by (intro evolves.stays_modify queue_same_evolves ok_conversation_update)
      (simp_all add: queue_of_def)
  have one: "stays outbox_evolves (expire_challenge now c)" for c
    unfolding expire_challenge_def
    by (intro evolves.stays_basic edit release outbox_writer.r_close)
  have all: "stays outbox_evolves (expire_challenges now cs)" for cs
    by (induction cs) (auto intro!: evolves.stays_basic one)
  have blocks: "stays outbox_evolves (expire_blocks now)"
    by (intro evolves_queue ok_expire_blocks) (auto simp: stays_def same_def expire_blocks_def queue_of_def)
  show ?thesis
    unfolding expire_due_state_in_def by (intro evolves.stays_basic all blocks)
qed

lemma evolves_purge: "stays outbox_evolves (purge_history_in now)"
  by (rule staysI) (rule purge_evolves)

interpretation engine_outbox: engine_runs outbox_evolves outbox_evolves
  by (intro engine_runs.intro engine_relation.intro engine_relation_axioms.intro engine_runs_axioms.intro
      engine_writer_above)
    (assumption | rule evolves.step_relation_axioms evolves_apply evolves_expiry evolves_purge
      stays_mono [OF safe_owner(2) safe_evolves] evolves.step_refl safe_evolves)+

text \<open>What the dispatcher and the writers together reach.\<close>

definition outbox_reaches :: "database \<Rightarrow> database \<Rightarrow> bool" where
  "outbox_reaches d t \<longleftrightarrow> (\<exists>es. outbox_run d es t)"

lemma outbox_run_append: "outbox_run d es m \<Longrightarrow> outbox_run m es' t \<Longrightarrow> outbox_run d (es @ es') t"
proof (induction rule: outbox_run.induct)
  case (steps d es m es1 t1)
  then show ?case using outbox_run.steps [OF steps.hyps(1)] by simp
qed simp

lemma evolves_reaches: "outbox_evolves d t \<Longrightarrow> outbox_reaches d t"
  using outbox_run.steps [OF outbox_step.written outbox_run.finished] unfolding outbox_reaches_def by blast

interpretation reach: step_relation outbox_reaches
  by unfold_locales (auto simp: outbox_reaches_def intro: outbox_run.finished outbox_run_append)

lemma reaches_if_evolves: "stays outbox_evolves m \<Longrightarrow> stays outbox_reaches m"
  by (rule stays_mono [OF _ evolves_reaches])

interpretation engine_dispatch: engine_runs outbox_reaches outbox_reaches
  by (intro engine_runs.intro engine_relation.intro engine_relation_axioms.intro engine_runs_axioms.intro
      engine_writer_above)
    (assumption | rule reach.step_relation_axioms reach.step_refl evolves_reaches reaches_if_evolves
      evolves_apply evolves_expiry evolves_purge stays_mono [OF safe_owner(2) safe_evolves] safe_evolves)+

end
