(* ===== verification/Engine_Invariant.thy ===== *)
theory Engine_Invariant
  imports Engine_Runs
begin

section \<open>The verification invariant at run time\<close>

text \<open>
  A conversation awaits verification exactly when it has an open challenge: no turn of the
  worker breaks this while the dispatcher's transactions run in between, provided an update is
  not delivered again after its application failed.
\<close>

subsection \<open>Calm writes\<close>

text \<open>
  What a prepared event was prepared for: the states, the open challenges, and the log. A calm
  write keeps them; the transactions of the dispatcher are calm.
\<close>

definition prepared_for ::
  "database \<Rightarrow> (conversation_key \<Rightarrow> conversation_state option) \<times> (conversation_key \<Rightarrow> bool)
     \<times> (conversation_key \<Rightarrow> i64 \<Rightarrow> bool) \<times> stored_event update_row list" where
  "prepared_for d = (state_of d, open_for d, current_challenge d, updates d)"

definition calm :: "database \<Rightarrow> database \<Rightarrow> bool" where
  "calm d t \<longleftrightarrow> keeps db_ok d t \<and> prepared_for t = prepared_for d"

definition sound_db :: "database \<Rightarrow> bool" where
  "sound_db d \<longleftrightarrow> db_ok d \<and> verify_sound d"

lemma calm_refl: "calm d d"
  by (simp add: calm_def keeps_def)

lemma calm_sound: "calm d t \<Longrightarrow> keeps sound_db d t"
  by (simp add: calm_def keeps_def sound_db_def prepared_for_def verify_sound_def)

lemma calm_current:
  assumes "prepared_for t = prepared_for d"
  shows "action_current t k a = action_current d k a"
proof -
  have "outcome_current t k out = outcome_current d k out" for out
    using assms by (cases out) (simp_all add: prepared_for_def)
  then show ?thesis by (cases a) simp_all
qed

interpretation prepared: step_relation "same prepared_for"
  by (rule step_relation_same)

text \<open>A transaction of the dispatcher: a claim, or the end of a claimed action.\<close>

inductive dispatcher_write :: "(database \<Rightarrow> database) \<Rightarrow> bool" where
  claims: "dispatcher_write (\<lambda>d. snd (commit (claim_due_outbox_action now) d))"
| finishes: "dispatcher_write (\<lambda>d. snd (commit (finish_execution a r now) d))"
| gives_up: "dispatcher_write (\<lambda>d. snd (commit (finish_uncertain_send a c now) d))"

lemma prepared_if:
  assumes "\<And>d x t. m d = Inr (x, t) \<Longrightarrow> conversations t = conversations d
    \<and> challenges t = challenges d \<and> updates t = updates d"
  shows "stays (same prepared_for) m"
proof (rule staysI)
  fix d t :: database and x
  assume "m d = Inr (x, t)"
  note f = assms [OF this]
  then have "state_of t = state_of d" "open_for t = open_for d"
    by (simp_all add: state_of_def row_of_def open_for_def fun_eq_iff)
  moreover have "current_challenge t = current_challenge d" using f current_frame [of t d] by simp
  ultimately show "same prepared_for d t" using f by (simp add: same_def prepared_for_def)
qed

lemma bex_update_same:
  "(\<And>r. P (f r) = P r) \<Longrightarrow> (\<exists>r \<in> set (update_where p f rs). P r) \<longleftrightarrow> (\<exists>r \<in> set rs. P r)"
  by (induction rs) auto

lemma prepared_challenge_update:
  fixes d :: database
  assumes "\<And>r. ch_id (f r) = ch_id r" and "\<And>r. ch_key (f r) = ch_key r"
    and "\<And>r. ch_closed_at (f r) = ch_closed_at r"
  shows "prepared_for (d\<lparr>challenges := update_where p f (challenges d)\<rparr>) = prepared_for d"
proof -
  have "open_challenge (f r) = open_challenge r" for r by (simp add: open_challenge_def assms(3))
  with assms(1,2) show ?thesis
    by (simp add: prepared_for_def state_of_def row_of_def open_for_def current_challenge_def
        bex_update_same fun_eq_iff)
qed

lemma prepared_writes:
  "stays (same prepared_for) (mark_challenge_sent i m)"
  "stays (same prepared_for) (mark_challenge_uncertain i)"
  "stays (same prepared_for) (disable_business_connection c now)"
  "stays (same prepared_for) force_dry_run"
  "stays (same prepared_for) (set_outbox_terminal j s code now)"
  "stays (same prepared_for) (mark_outbox_retry j n ec now)"
  "stays (same prepared_for) (enqueue_outbox_action act)"
  "stays (same prepared_for) (claim_due_outbox_action now)"
proof -
  show "stays (same prepared_for) (mark_challenge_sent i m)"
    "stays (same prepared_for) (mark_challenge_uncertain i)"
    by (rule staysI; auto simp: same_def mark_challenge_sent_def mark_challenge_uncertain_def
        update_one_def split: sum.splits if_splits intro!: prepared_challenge_update)+
qed (rule prepared_if; auto simp: disable_business_connection_def force_dry_run_def
    modify_def set_setting_def set_outbox_terminal_def mark_outbox_retry_def enqueue_outbox_action_def
    claim_due_outbox_action_def Let_def split: sum.splits option.splits if_splits)+

lemma prepared_finish:
  "stays (same prepared_for) (finish_success a s now)"
  "stays (same prepared_for) (finish_uncertain a i c now)"
  "stays (same prepared_for) (finish_action_uncertain a c now)"
  "stays (same prepared_for) (finish_permanent a c b now)"
  "stays (same prepared_for) (schedule_retry a e n now)"
  unfolding finish_success_def finish_uncertain_def finish_action_uncertain_def finish_permanent_def
    schedule_retry_def enqueue_owner_alert_def mark_outbox_succeeded_def mark_outbox_uncertain_def
    mark_outbox_permanent_failure_def
  by (auto intro!: prepared.stays_basic prepared_writes split: option.split action_success.split)

lemma prepared_ends:
  "stays (same prepared_for) (finish_uncertain_send a c now)"
  "stays (same prepared_for) (finish_execution a r now)"
proof -
  show *: "stays (same prepared_for) (finish_uncertain_send a c now)" for c
    unfolding finish_uncertain_send_def
    by (auto intro!: prepared_finish prepared.stays_basic split: option.split)
  show "stays (same prepared_for) (finish_execution a r now)"
    unfolding finish_execution_def handle_telegram_failure_def
    by (auto intro!: prepared_finish * prepared.stays_basic split: sum.split action_failure.split option.split)
qed

lemma dispatcher_calm: "dispatcher_write f \<Longrightarrow> calm d (f d)"
  unfolding calm_def
  by (induction rule: dispatcher_write.induct)
    (auto intro: ok.commit_stays ok_claim ok_finish_execution
        prepared.commit_stays [OF prepared_writes(8), unfolded same_def]
        prepared.commit_stays [OF prepared_ends(1), unfolded same_def]
        prepared.commit_stays [OF prepared_ends(2), unfolded same_def])

subsection \<open>The engine around an application\<close>

lemma safe_sound: "safe_step d t \<Longrightarrow> keeps sound_db d t"
  by (auto simp: safe_step_def outbox_evolves_def keeps_def sound_db_def)

interpretation sound_engine: engine_relation "keeps sound_db" calm
  by (intro engine_relation.intro engine_relation_axioms.intro engine_writer_above step_relation_keeps
      safe_sound calm_sound calm_refl)

lemma sound_passes: "stays (keeps sound_db) (expire_due_state_in now)"
  "stays (keeps sound_db) (purge_history_in now)"
proof -
  show "stays (keeps sound_db) (expire_due_state_in now)"
    by (rule staysI) (auto simp: keeps_def sound_db_def intro: expire_effect(5) expiry_sound)
  show "stays (keeps sound_db) (purge_history_in now)"
  proof (rule staysI)
    fix d t :: database and x
    assume run: "purge_history_in now d = Inr (x, t)"
    have "core t = core d" by (rule purge_shape [OF run]) (simp add: core_def)
    from core_frame(1,2) [OF this] purge_evolves [OF run] show "keeps sound_db d t"
      by (simp add: keeps_def sound_db_def outbox_evolves_def verify_sound_def)
  qed
qed

definition fine :: "('d, 'v) world \<Rightarrow> bool" where
  "fine w \<longleftrightarrow> sound_db (w_db w) \<and> others_in calm w"

text \<open>A run from a world in \<open>P\<close>: a failure leaves a fine world, a success one in \<open>Q\<close>.\<close>

definition yields ::
  "(('d, 'v) world \<Rightarrow> bool) \<Rightarrow> (('d, 'v) world, 'a) run \<Rightarrow> ('a \<Rightarrow> ('d, 'v) world \<Rightarrow> bool) \<Rightarrow> bool" where
  "yields P m Q \<longleftrightarrow>
     (\<forall>w. P w \<longrightarrow> (case m w of (Inl _, u) \<Rightarrow> fine u | (Inr x, u) \<Rightarrow> Q x u))"

lemma yields_then:
  "yields P m Q \<Longrightarrow> (\<And>x. yields (Q x) (f x) T) \<Longrightarrow> yields P (run_then m f) T"
  by (fastforce simp: yields_def run_then_def split: prod.splits sum.splits)

lemma yields_drives: "drives calm (keeps sound_db) m \<Longrightarrow> yields fine m (\<lambda>_. fine)"
  by (fastforce simp: yields_def drives_def fine_def keeps_def split: prod.split sum.split)

lemma yields_weaken: "yields P m Q \<Longrightarrow> (\<And>w. P' w \<Longrightarrow> P w) \<Longrightarrow> yields P' m Q"
  by (auto simp: yields_def)

lemma yields_if:
  "(b \<Longrightarrow> yields P m Q) \<Longrightarrow> (\<not> b \<Longrightarrow> yields P n Q) \<Longrightarrow> yields P (if b then m else n) Q"
  by simp

lemma yields_option:
  "yields P m Q \<Longrightarrow> (\<And>x. yields P (f x) Q) \<Longrightarrow> yields P (case v of None \<Rightarrow> m | Some x \<Rightarrow> f x) Q"
  by (cases v) simp_all

lemma yields_finish: "(\<And>w. P w \<Longrightarrow> Q x w) \<Longrightarrow> yields P (finish x) Q"
  by (simp add: yields_def finish_def)

lemma yields_abort: "(\<And>w. P w \<Longrightarrow> fine w) \<Longrightarrow> yields P (abort e) Q"
  by (simp add: yields_def abort_def)

lemma yields_look: "(\<And>w. P w \<Longrightarrow> Q (f w) w) \<Longrightarrow> yields P (look f) Q"
  by (simp add: yields_def look_def)

lemma yields_set_engine:
  "(\<And>w g. P w \<Longrightarrow> P (w\<lparr>w_engine := g\<rparr>)) \<Longrightarrow> yields P (set_engine h) (\<lambda>_. P)"
  by (simp add: yields_def set_engine_def alter_def)

lemma yields_transact:
  assumes stable: "\<And>w. P w \<Longrightarrow> P (others_write w)" and fine: "\<And>w. P w \<Longrightarrow> fine w"
    and run: "\<And>w x t. P w \<Longrightarrow> m (w_db w) = Inr (x, t) \<Longrightarrow> Q x (w\<lparr>w_db := t\<rparr>)"
  shows "yields P (transact m) Q"
  using stable fine run
  by (auto simp: yields_def transact_def transact_if_def Let_def conclude_def split: sum.split)

lemma yields_peek:
  assumes stable: "\<And>w. P w \<Longrightarrow> P (others_write w)" and fine: "\<And>w. P w \<Longrightarrow> fine w"
    and run: "\<And>w x t. P w \<Longrightarrow> m (w_db w) = Inr (x, t) \<Longrightarrow> Q x w"
  shows "yields P (peek m) Q"
  using stable fine run
  by (auto simp: yields_def peek_def transact_if_def Let_def conclude_def split: sum.split)

lemma others_write_fine:
  assumes "fine w"
  shows "fine (others_write w)" and "prepared_for (w_db (others_write w)) = prepared_for (w_db w)"
proof -
  note o = others_write_in [OF conjunct2 [OF assms [unfolded fine_def]] calm_refl]
  show "fine (others_write w)"
    using assms o calm_sound [OF o(1)] by (simp add: fine_def keeps_def)
  show "prepared_for (w_db (others_write w)) = prepared_for (w_db w)"
    using o(1) by (simp add: calm_def)
qed

lemma fine_engine [simp]: "fine (w\<lparr>w_engine := g\<rparr>) = fine w"
  by (simp add: fine_def others_in_def)

text \<open>The world before the event is recorded, and after.\<close>

definition not_waiting :: "i64 \<Rightarrow> ('d, 'v) world \<Rightarrow> bool" where
  "not_waiting uid w \<longleftrightarrow> fine w \<and> status_of uid (w_db w) \<noteq> Some Recorded"

definition current_event :: "prepared_event \<Rightarrow> database \<Rightarrow> bool" where
  "current_event e d \<longleftrightarrow>
     (\<forall>k. facts_key (pe_facts e) = Inr k \<longrightarrow> action_current d k (lf_action (pe_facts e)))"

definition awaits :: "i64 \<Rightarrow> prepared_event \<Rightarrow> record_receipt \<Rightarrow> ('d, 'v) world \<Rightarrow> bool" where
  "awaits uid e r w \<longleftrightarrow> fine w \<and> (r \<noteq> DuplicateApplied \<longrightarrow>
     find_update uid (w_db w) = Some (update_row_of e) \<and> current_event e (w_db w))"

lemma current_event_prepared:
  "prepared_for t = prepared_for d \<Longrightarrow> current_event e t = current_event e d"
  by (simp add: current_event_def calm_current [of t d])

lemma find_prepared:
  "prepared_for t = prepared_for d \<Longrightarrow> find_update uid t = find_update uid d"
  by (simp add: prepared_for_def find_update_def)

lemma stable_stages:
  "not_waiting uid w \<Longrightarrow> not_waiting uid (others_write w)"
  "not_waiting uid w \<and> current_event e (w_db w)
     \<Longrightarrow> not_waiting uid (others_write w) \<and> current_event e (w_db (others_write w))"
  "awaits uid e r w \<Longrightarrow> awaits uid e r (others_write w)"
  using others_write_fine [of w] find_prepared [of "w_db (others_write w)" "w_db w" uid]
    current_event_prepared [of "w_db (others_write w)" "w_db w" e]
  by (auto simp: not_waiting_def awaits_def status_of_def)

lemma stages_fine: "not_waiting uid w \<Longrightarrow> fine w" "awaits uid e r w \<Longrightarrow> fine w"
  by (simp_all add: not_waiting_def awaits_def)

lemma stages_engine [simp]:
  "not_waiting uid (w\<lparr>w_engine := g\<rparr>) = not_waiting uid w"
  by (simp add: not_waiting_def)

subsection \<open>A business update\<close>

lemma read_Inr:
  assumes "read_tx S uid raw p d = Inr ((notice, e, p'), t)"
  shows "pe_update_id e = uid" and "current_event e d"
proof -
  obtain raw1 raw2 d1 d2 n where i: "make_preclaim_business_event_inert raw d = Inr (raw1, d1)"
    and n: "first_contact_notice raw1 d1 = Inr (n, d2)"
    and e: "\<exists>u. prepare (sv_preparer S) (sv_prepare_clock S) uid raw1 p d2 = Inr ((e, p'), u)"
    using assms unfolding read_tx_def by (auto simp: and_then_Inr_iff ret_Inr_iff)
  have d: "d2 = d" using readsD [OF reads_engine(5) i] readsD [OF reads_engine(6) n] by simp
  from e obtain u where run: "prepare (sv_preparer S) (sv_prepare_clock S) uid raw1 p d = Inr ((e, p'), u)"
    unfolding d by blast
  show "pe_update_id e = uid" using run by (elim prepare_Inr)
  show "current_event e d"
    unfolding current_event_def
  proof (intro allI impI)
    fix k
    assume "facts_key (pe_facts e) = Inr k"
    then have "facts_optional_key (pe_facts e) = Some k"
      by (auto simp: facts_key_def facts_optional_key_def split: option.splits)
    moreover have "facts_optional_key (pe_facts e) = raw_key raw1"
      using run by (elim prepare_Inr) (simp add: prepared_facts_key)
    ultimately show "action_current d k (lf_action (pe_facts e))"
      using prepare_sound(2) [OF run] by simp
  qed
qed

lemma record_duplicate:
  assumes "record_prepared_event_tx rfc e d = Inr (DuplicateRecorded, t)"
  shows "status_of (pe_update_id e) d = Some Recorded"
proof -
  obtain trigger b d1 where
    ins: "insert_update (update_row_of e) d = Inr (b, d1)" and
    rest: "(if b then
          and_then (case trigger of None \<Rightarrow> ret None
             | Some cid \<Rightarrow> map_err Storage
                 (gate_matching_trusted_for_reconciliation cid (pe_occurred_at e)))
           (\<lambda>_. ret ReceiptRecorded)
        else
         and_then (gets (find_update (pe_update_id e))) (\<lambda>row.
         case row of
           None \<Rightarrow> fail (MissingUpdate (pe_update_id e))
         | Some u \<Rightarrow>
             (case pu_status u of
                Recorded \<Rightarrow> ret DuplicateRecorded
              | Applied \<Rightarrow> ret DuplicateApplied
              | Failed \<Rightarrow> fail (InvalidStatus (status_text Failed))))) d1
       = Inr (DuplicateRecorded, t)"
    using assms unfolding record_prepared_event_tx_def
    by (elim and_then_lift_E and_then_E) (rule that; (assumption | simp))
  have "\<not> b" using rest by (auto simp: and_then_Inr_iff ret_Inr_iff)
  moreover from this have "d1 = d" using ins by (auto simp: insert_update_def split: if_splits)
  ultimately show ?thesis
    using rest by (auto simp: status_of_def and_then_Inr_iff gets_Inr_iff ret_Inr_iff fail_Inr_iff
        split: option.splits update_status.splits)
qed

definition tables :: "'ev db \<Rightarrow> conversation list \<times> challenge_row list" where
  "tables d = (conversations d, challenges d)"

interpretation tables: step_relation "same tables"
  by (rule step_relation_same)

lemma record_tables: "stays (same tables) (record_prepared_event_tx rfc e)"
proof -
  have "stays (same tables) (insert_update u)" for u
    by (auto simp: stays_def same_def tables_def insert_update_def split: if_splits)
  moreover have "stays (same tables) (gate_matching_trusted_for_reconciliation cid now)" for cid now
    by (rule stays_gate) (simp_all add: step_relation_same same_def tables_def)
  ultimately show ?thesis
    unfolding record_prepared_event_tx_def
    by (auto intro!: tables.stays_basic split: update_status.split)
qed

lemma record_Inr:
  assumes run: "record_prepared_event_tx rfc e d = Inr (r, t)"
    and "sound_db d" and "current_event e d" and "status_of (pe_update_id e) d \<noteq> Some Recorded"
  shows "sound_db t" and "r \<noteq> DuplicateApplied \<Longrightarrow>
    find_update (pe_update_id e) t = Some (update_row_of e) \<and> current_event e t"
proof -
  show "sound_db t" using staysD [OF sound_engine.stays_record run] assms(2) by (simp add: keeps_def)
  show "find_update (pe_update_id e) t = Some (update_row_of e) \<and> current_event e t"
    if "r \<noteq> DuplicateApplied"
  proof
    have r: "r = ReceiptRecorded" using that run record_duplicate [of rfc e d t] assms(4) by (cases r) auto
    note rec = record_tx_recorded [OF run [unfolded r]]
    then show "find_update (pe_update_id e) t = Some (update_row_of e)"
      by (simp add: find_update_def find_row_snoc update_row_of_def)
    have "tables t = tables d" using staysD [OF record_tables run] by (simp add: same_def)
    then have same: "state_of t = state_of d" "open_for t = open_for d"
      "current_challenge t = current_challenge d"
      using current_frame [of t d] by (simp_all add: tables_def state_of_def row_of_def open_for_def fun_eq_iff)
    have "action_current t k a = action_current d k a" for k a
    proof -
      have "outcome_current t k out = outcome_current d k out" for out
        by (cases out) (simp_all add: same)
      then show ?thesis by (cases a) simp_all
    qed
    with assms(3) show "current_event e t" by (simp add: current_event_def)
  qed
qed

lemma apply_Inr:
  assumes run: "apply_recorded_event_tx (lifecycle_apply rfc) now uid d = Inr (r, t)"
    and "sound_db d" and "find_update uid d = Some (update_row_of e)" and "current_event e d"
  shows "sound_db t"
proof -
  obtain m where app: "lifecycle_apply rfc e d = Inr ((), m)" and mark: "mark_applied uid (now uid) m = Inr ((), t)"
    using run assms(3)
    by (auto simp: apply_recorded_event_tx_def and_then_Inr_iff gets_Inr_iff ret_Inr_iff update_row_of_def)
  have "verify_sound m"
    using verify_sound_step [OF app] assms(2,4) by (simp add: sound_db_def current_event_def)
  moreover have "db_ok m" using applying_evolves [OF app] assms(2) by (simp add: outbox_evolves_def sound_db_def)
  ultimately show ?thesis
    using safe_sound [OF staysD [OF safe_marks(1) mark]] by (simp add: keeps_def sound_db_def)
qed

lemma business_sound:
  fixes S :: "('d, 'v) engine_services"
  shows "yields (not_waiting uid) (process_business S uid raw) (\<lambda>_. fine)"
  unfolding process_business_def
proof (rule yields_then [OF yields_look [where Q = "\<lambda>_. not_waiting uid"]], goal_cases)
  case (2 p)
  show ?case
  proof (rule yields_then [OF yields_peek [where Q = "\<lambda>(_, e, _) w. not_waiting uid w
        \<and> current_event e (w_db w) \<and> pe_update_id e = uid"]], goal_cases)
    case (3 w x t)
    then show ?case by (cases x) (auto dest: read_Inr)
  next
    case (4 x)
    obtain notice e p' where x: "x = (notice, e, p')" by (cases x) auto
    show ?case unfolding x prod.case
    proof (rule yields_then [OF yields_set_engine], simp, rule yields_then [OF yields_transact
          [where Q = "awaits uid e"]], goal_cases)
      case (3 _ w r t)
      then show ?case
        using record_Inr [of "sv_rfc S" e "w_db w" r t]
        by (auto simp: awaits_def map_err_Inr_iff not_waiting_def fine_def others_in_def)
    next
      case (4 _ r)
      have fin: "yields fine (finish r) (\<lambda>_. fine)" by (rule yields_finish) simp
      have trig: "yields fine (run_then (reconcile_connection_trigger S uid cid at) (\<lambda>_.
          run_then (publish_ready_if_drained S) (\<lambda>_. finish r))) (\<lambda>_. fine)" for cid at
        by (intro yields_drives sound_engine.drives_rules sound_engine.drives_trigger
            sound_engine.drives_publish)
      have tell: "yields fine (run_then (case notice of None \<Rightarrow> finish () | Some n \<Rightarrow> call_out (NewContact n))
          (\<lambda>_. finish r)) (\<lambda>_. fine)"
        by (intro yields_drives sound_engine.drives_rules)
      have app: "yields (awaits uid e r) (transact (map_err EventFailure
          (apply_recorded_event_tx (lifecycle_apply (sv_rfc S)) (sv_now S) uid))) (\<lambda>_. fine)"
        if "r \<noteq> DuplicateApplied"
      proof (rule yields_transact)
        fix w x t
        assume "awaits uid e r w" and "map_err EventFailure
          (apply_recorded_event_tx (lifecycle_apply (sv_rfc S)) (sv_now S) uid) (w_db w) = Inr (x, t)"
        with that apply_Inr [of "sv_rfc S" "sv_now S" uid "w_db w" x t e] show "fine (w\<lparr>w_db := t\<rparr>)"
          by (auto simp: awaits_def map_err_Inr_iff fine_def others_in_def)
      qed (simp_all add: stable_stages stages_fine)
      have ab: "yields fine (abort er) (\<lambda>_. fine)" for er by (rule yields_abort)
      show ?case
        by (intro yields_if yields_option yields_weaken [OF fin stages_fine(2)]
            yields_weaken [OF trig stages_fine(2)] yields_weaken [OF ab stages_fine(2)]
            yields_then [OF app tell])
    qed (auto simp: stages_fine stable_stages)
  qed (simp_all add: stable_stages stages_fine)
qed simp

subsection \<open>Turns\<close>

text \<open>An update that is delivered while it is still recorded from an earlier delivery.\<close>

fun redelivers :: "turn \<Rightarrow> database \<Rightarrow> bool" where
  "redelivers (Update uid raw) d = (status_of uid d = Some Recorded)"
| "redelivers _ d = False"

fun no_redelivery ::
  "('d, 'v) world \<Rightarrow> (('d, 'v) engine_services \<times> turn) list \<Rightarrow> bool" where
  "no_redelivery w [] = True"
| "no_redelivery w ((S, t) # ts) \<longleftrightarrow> \<not> redelivers t (w_db w) \<and> no_redelivery (take_turn S t w) ts"

lemma drives_fine: "drives calm (keeps sound_db) m \<Longrightarrow> fine w \<Longrightarrow> fine (snd (m w))"
  by (auto simp: fine_def keeps_def dest: drivesD)

lemma process_fine:
  assumes "fine w" and "status_of uid (w_db w) \<noteq> Some Recorded"
  shows "fine (snd (process S uid raw w))"
proof -
  have "fine (snd (process_business S uid raw w))"
    using business_sound [of uid S raw] assms
    by (cases "process_business S uid raw w"; cases "fst (process_business S uid raw w)")
      (auto simp: yields_def not_waiting_def)
  moreover have "stays (keeps sound_db) (claim_owner v h fl now)" for v h fl now
    by (rule stays_mono [OF safe_owner(2) safe_sound])
  ultimately show ?thesis
    using drives_fine [OF sound_engine.drives_claim assms(1)]
      drives_fine [OF sound_engine.drives_owner_start assms(1)]
      drives_fine [OF sound_engine.drives_owner_command assms(1)]
    by (simp add: process_def)
qed

lemma pass_fine:
  assumes "fine w" and "stays (keeps sound_db) m"
  shows "fine (on_database (commit m) w)"
  using others_write_fine(1) [OF assms(1)] sound_engine.commit_stays [OF assms(2), of "w_db (others_write w)"]
  by (simp add: on_database_def Let_def fine_def others_in_def keeps_def)

lemma turn_fine:
  assumes "fine w" and "\<not> redelivers t (w_db w)"
  shows "fine (take_turn S t w)"
proof (cases t)
  case (Update uid raw)
  with process_fine [OF assms(1)] assms(2) show ?thesis by simp
next
  case (ExpiryPass now)
  with pass_fine [OF assms(1) sound_passes(1)] show ?thesis by (simp add: expire_due_state_def)
next
  case (PurgePass now)
  with pass_fine [OF assms(1) sound_passes(2)] show ?thesis by (simp add: purge_history_def)
qed (use drives_fine [OF sound_engine.drives_passes(1) assms(1)]
    drives_fine [OF sound_engine.drives_passes(2) assms(1)] in simp_all)

lemma run_fine: "worker_run w ts u \<Longrightarrow> fine w \<Longrightarrow> no_redelivery w ts \<Longrightarrow> fine u"
  by (induction rule: worker_run.induct) (auto intro: turn_fine)

subsection \<open>Samples\<close>

text \<open>A stranger starts a chat with the bot while the dispatcher claims an action.\<close>

definition sample_start :: raw_business_event where
  "sample_start = (sample_raw RawOwnerStart)\<lparr>raw_connection_id := None,
     raw_owner_command := Some \<lparr>os_from_user_id = Some 7, os_private_chat = True,
       os_text = lit ''/start'', os_replied_sample = None\<rparr>\<rparr>"

definition sample_engine :: "(rule_detector, unit arithmetic_verifier) processing_engine" where
  "sample_engine = (with_owner_claim (Some [1, 2]) Unclaimed
     (new_engine sample_detector sample_verifier False))
     \<lparr>en_claim_setup_capability := SetupAvailable\<rparr>"

definition sample_run_services ::
  "(rule_detector, unit arithmetic_verifier) engine_services" where
  "sample_run_services =
     \<lparr>sv_preparer = sample_services, sv_detection = sample_env, sv_rfc = (\<lambda>_. []),
      sv_storage_text = (\<lambda>_. []), sv_prepare_clock = (100, 100), sv_snapshot_now = 100,
      sv_now = (\<lambda>_. 100), sv_ready_now = 100, sv_startup_now = 100, sv_instant = (\<lambda>_. 0),
      sv_pass_instant = 0, sv_startup_instant = 0, sv_api = (\<lambda>_ _ _. Inl TgTimeout),
      sv_startup_api = (\<lambda>_ _. Inl TgTimeout), sv_walk = (\<lambda>xs. xs)\<rparr>"

definition sample_world :: "database \<Rightarrow> (rule_detector, unit arithmetic_verifier) world" where
  "sample_world d = \<lparr>w_engine = sample_engine, w_db = d, w_calls = [],
     w_others = [\<lambda>d. snd (commit (claim_due_outbox_action 100) d)]\<rparr>"

lemma one_turn: "worker_run w [(S, t)] (take_turn S t w)"
  by (intro worker_turn worker_idle)

lemma sample_sound: "db_ok (sample_state_db New)" "verify_sound (sample_state_db New)"
proof -
  show "db_ok (sample_state_db New)" by (rule sample_state_ok)
  show "verify_sound (sample_state_db New)"
    by (simp add: verify_sound_def state_of_def row_of_def open_for_def sample_state_db_def
        find_row_def sample_db_def)
qed

subsection \<open>Properties\<close>



end
