(* ===== verification/Engine_Claims.thy ===== *)
theory Engine_Claims
  imports Engine_Invariant
begin

section \<open>Claims and the owner's updates\<close>

text \<open>
  The owner changes hands only through a claim with the expected token, and an update of the
  owner is handled once and leaves no content in the log.
\<close>

subsection \<open>The bound user and the log\<close>

definition bound_user :: "database \<Rightarrow> i64 option" where
  "bound_user d = (case owner d of OwnerReady (Claimed user _ _ _ _) \<Rightarrow> Some user | _ \<Rightarrow> None)"

definition bound_log :: "database \<Rightarrow> i64 option \<times> stored_event update_row list" where
  "bound_log d = (bound_user d, updates d)"

interpretation bound: step_relation "same bound_log"
  by (rule step_relation_same)

lemma bound_if_owner:
  assumes "\<And>d x t. m d = Inr (x, t) \<Longrightarrow> owner t = owner d \<and> updates t = updates d"
  shows "stays (same bound_log) m"
  using assms by (simp add: stays_def same_def bound_log_def bound_user_def)

lemma bound_frames:
  "stays (same bound_log) (get_or_create_conversation key u now)"
  "stays (same bound_log) (save_conversation c v)"
  "stays (same bound_log) (record_message m)"
  "stays (same bound_log) (mark_message_deleted key i now)"
  "stays (same bound_log) (create_challenge ch)"
  "stays (same bound_log) (close_challenge j now)"
  "stays (same bound_log) (close_active_challenge key now)"
  "stays (same bound_log) (increment_challenge_attempts j)"
  "stays (same bound_log) (insert_audit_event e)"
  "stays (same bound_log) (enqueue_outbox_action a)"
  "stays (same bound_log) (upsert_business_connection b)"
  by (rule bound_if_owner; auto simp: get_or_create_conversation_def find_conversation_def
      insert_conversation_def save_conversation_def record_message_def mark_message_deleted_def
      create_challenge_def close_challenge_def close_active_challenge_def
      increment_challenge_attempts_def insert_audit_event_def enqueue_outbox_action_def
      upsert_business_connection_def retire_stale_connection_def set_setting_def
      delete_connections_def Let_def op_success
      split: option.splits if_splits)+

lemma bound_set_owner:
  assumes "\<And>r. p r \<Longrightarrow> (case f r of OwnerReady (Claimed user _ _ _ _) \<Rightarrow> Some user | _ \<Rightarrow> None)
    = (case r of OwnerReady (Claimed user _ _ _ _) \<Rightarrow> Some user | _ \<Rightarrow> None)"
  shows "stays (same bound_log) (set_owner_if p f)"
  using assms by (auto simp: stays_def same_def bound_log_def bound_user_def set_owner_if_def split: if_splits)

lemma bound_promote:
  "stays (same bound_log) (promote_owner_chat user chat src)"
  "stays (same bound_log) (advance_owner_connection_floor fl)"
proof -
  have "stays (same bound_log) (set_owner_if (legacy_claimed_by u) (promote_row c s))" for u c s
    by (rule bound_set_owner) (auto simp: legacy_claimed_by_def split: owner_row.splits owner_identity.splits)
  then show "stays (same bound_log) (promote_owner_chat user chat src)"
    unfolding promote_owner_chat_def
    by (auto intro!: bound.stays_basic bound.stays_reads [OF reads_load_owner(2)] split: owner_identity.split)
  have "stays (same bound_log) (set_owner_if is_claimed (raise_floor fl))"
    by (rule bound_set_owner) (auto simp: is_claimed_def split: owner_row.splits owner_identity.splits)
  then show "stays (same bound_log) (advance_owner_connection_floor fl)"
    unfolding advance_owner_connection_floor_def
    by (auto intro!: bound.stays_basic bound.stays_reads [OF reads_load_owner(2)] split: owner_identity.split)
qed

interpretation bound_handler: repository_relation "same bound_log"
  by (intro repository_relation.intro repository_relation_axioms.intro queue_relation.intro
      queue_relation_axioms.intro bound.step_relation_axioms bound_frames bound_promote)

interpretation bound_connections: connection_writer "same bound_log"
  by unfold_locales
    (rule bound_frames bound_promote
      | simp add: same_def bound_log_def bound_user_def kept_defs delete_connections_def Let_def)+

lemma bound_modify: "(\<And>d. owner (f d) = owner d \<and> updates (f d) = updates d)
   \<Longrightarrow> stays (same bound_log) (modify f)"
  by (rule bound_if_owner) (auto simp: modify_def)

lemma bound_audits:
  "stays (same bound_log) (insert_security_audit now)"
  "stays (same bound_log) (insert_recovery_audit key action now)"
  unfolding insert_security_audit_def insert_recovery_audit_def append_audit_def
  by (intro bound_modify; simp)+

lemma bound_execute: "stays (same bound_log) (execute_authorized env rfc service command source who)"
proof -
  have clear: "stays (same bound_log) (clear_conversation key now)" for key now
    unfolding clear_conversation_def by (intro bound.stays_basic bound_modify) simp_all
  have rows: "stays (same bound_log) (modify (\<lambda>d. d\<lparr>conversations := g d\<rparr>))" for g
    by (rule bound_modify) simp
  have settings: "stays (same bound_log) (modify (set_setting k v))" for k v
    by (rule bound_modify) (simp add: set_setting_def)
  have samples: "stays (same bound_log) (modify (\<lambda>d. d\<lparr>spam_samples := f d\<rparr>))"
    "stays (same bound_log) (modify (\<lambda>d. d\<lparr>ham_samples := f d\<rparr>))" for f
    by (rule bound_modify; simp)+
  have reset: "stays (same bound_log) (reset_conversation b chat now)" for b chat now
    unfolding reset_conversation_def Let_def
    by (intro bound.stays_owner clear bound_audits repository_reads [THEN bound.stays_reads])
  have unblock: "stays (same bound_log) (unblock_conversation b chat now)" for b chat now
    unfolding unblock_conversation_def Let_def
    by (intro bound.stays_owner rows bound_audits bound_frames bound.stays_reads [OF repository_reads(2)])
  show ?thesis
    unfolding execute_authorized_def and_plain_def required_connection_def inspect_def set_dry_run_def
      recent_errors_def label_sample_def
    by (cases command)
      (auto intro!: bound.stays_owner reset unblock settings samples
          bound.stays_reads [OF repository_reads(1)] bound.stays_reads [OF reads_health])
qed

lemma log_bound: "same bound_log d t \<Longrightarrow> same bound_user d t"
  by (simp add: same_def bound_log_def)

interpretation bound_user: step_relation "same bound_user"
  by (rule step_relation_same)

lemmas bound_user_stays = stays_mono [OF _ log_bound]

lemma bound_user_marks:
  "stays (same bound_user) (mark_applied uid now)"
  "stays (same bound_user) (mark_connection_trigger_applied uid now)"
proof -
  show *: "stays (same bound_user) (mark_applied uid now)"
    by (auto simp: stays_def same_def bound_user_def mark_applied_def Let_def split: if_splits)
  show "stays (same bound_user) (mark_connection_trigger_applied uid now)"
    by (rule staysI) (rule staysD [OF * mark_trigger_Inr])
qed

interpretation bound_engine: engine_relation "same bound_user" "same bound_user"
proof (intro engine_relation.intro engine_relation_axioms.intro engine_writer.intro
    connection_writer.intro connection_writer_axioms.intro engine_writer_axioms.intro)
  show "step_relation (same bound_user)" by (rule step_relation_same)
qed (rule bound_frames [THEN bound_user_stays] bound_promote [THEN bound_user_stays]
    bound_audits [THEN bound_user_stays] bound_execute [THEN bound_user_stays] bound_user_marks
    bound_connections.delete_stays [THEN log_bound]
  | simp add: same_def bound_user_def kept_def)+

lemma bound_apply: "stays (same bound_user) (apply_recorded_event_tx (lifecycle_apply rfc) now uid)"
  unfolding apply_recorded_event_tx_def
  by (auto intro!: bound_user.stays_basic bound_user_stays [OF bound_handler.stays_lifecycle]
      bound_user_marks split: stored_event.split)

lemma bound_passes:
  "stays (same bound_user) (expire_due_state_in now)" "stays (same bound_user) (purge_history_in now)"
proof -
  have edit: "stays (same bound_log) (enqueue_expiry_edit c now)" for c
    unfolding enqueue_expiry_edit_def by (intro bound.stays_basic bound_frames)
  have release: "stays (same bound_log) (release_pending k now)" for k
    unfolding release_pending_def by (rule bound_modify) simp
  have one: "stays (same bound_log) (expire_challenge now c)" for c
    unfolding expire_challenge_def by (intro bound.stays_basic edit release bound_frames)
  have all: "stays (same bound_log) (expire_challenges now cs)" for cs
    by (induction cs) (auto intro!: bound.stays_basic one)
  have blocks: "stays (same bound_log) (expire_blocks now)"
    by (rule bound_if_owner) (auto simp: expire_blocks_def)
  show "stays (same bound_user) (expire_due_state_in now)"
    unfolding expire_due_state_in_def
    by (intro bound_user.stays_basic bound_user_stays [OF all] bound_user.stays_map_err
        bound_user_stays [OF blocks])
  show "stays (same bound_user) (purge_history_in now)"
  proof (rule staysI)
    fix d t :: database and x
    assume run: "purge_history_in now d = Inr (x, t)"
    show "same bound_user d t" by (rule purge_shape [OF run]) (simp add: same_def bound_user_def)
  qed
qed

lemma bound_business: "drives (same bound_user) (same bound_user) (process_business S uid raw)"
  unfolding process_business_def
  by (intro bound_engine.drives_rules bound_engine.drives_transact bound_user.stays_map_err
      bound_engine.stays_record bound_apply bound_engine.drives_trigger bound_engine.drives_publish)

subsection \<open>The transactions of the owner's updates\<close>

lemma claim_token_matches_iff: "claim_token_matches expected provided \<longleftrightarrow> expected = Some provided"
proof -
  have "list_all (\<lambda>(a, b). a = b) (zip xs ys) \<longleftrightarrow> xs = ys" if "length xs = length ys" for xs ys :: "byte list"
    using that by (induction rule: list_induct2) auto
  then show ?thesis by (auto simp: claim_token_matches_def split: option.split)
qed

lemma claim_floor_date: "date \<le> claim_generation_floor date snapshot g cs"
proof -
  have "a \<le> fold max xs a" for a and xs :: "i64 list"
    by (induction xs arbitrary: a) (auto intro: order.trans [OF max.cobounded2])
  then show ?thesis unfolding claim_generation_floor_def .
qed

text \<open>A redacted row is appended, then nothing the log or the binding sees.\<close>

definition logged :: "string \<Rightarrow> string \<Rightarrow> i64 \<Rightarrow> timestamp \<Rightarrow> database \<Rightarrow> database \<Rightarrow> bool" where
  "logged ty k uid at d t \<longleftrightarrow> find_update uid d = None \<and> bound_user t = bound_user d
     \<and> updates t = updates d @ [redacted_row ty k uid at]"

lemma logged_then:
  assumes "and_then (insert_redacted ty k uid at) f d = Inr (r, t)"
    and "\<And>x. stays (same bound_log) (f x)"
  shows "logged ty k uid at d t"
proof -
  obtain x m where ins: "insert_redacted ty k uid at d = Inr (x, m)" and f: "f x m = Inr (r, t)"
    using assms(1) by (elim and_then_E)
  have "find_update uid d = None" "m = d\<lparr>updates := updates d @ [redacted_row ty k uid at]\<rparr>"
    using ins by (auto simp: insert_redacted_def find_update_def find_row_None_iff split: if_splits)
  moreover from this have "bound_user m = bound_user d" by (simp add: bound_user_def)
  ultimately show ?thesis
    using staysD [OF assms(2) f] by (simp add: logged_def same_def bound_log_def)
qed

lemma bound_messages:
  "stays (same bound_log) (insert_owner_claim_audit uid b at)"
  "stays (same bound_log) (enqueue_direct_owner_message uid h m at s)"
  "stays (same bound_log) (enqueue_private_message uid h k at)"
  "stays (same bound_log) (enqueue_owner_telegram_actions uid actions at)"
  "stays (same bound_log) (enqueue_owner_command_trace uid h j at)"
proof -
  show direct: "stays (same bound_log) (enqueue_direct_owner_message uid h m at s)" for m s
    unfolding enqueue_direct_owner_message_def by (intro bound.stays_basic bound_frames)
  show "stays (same bound_log) (enqueue_owner_command_trace uid h j at)"
    unfolding enqueue_owner_command_trace_def
    by (intro bound.stays_basic direct repository_reads [THEN bound.stays_reads])
qed (auto simp: insert_owner_claim_audit_def enqueue_private_message_def enqueue_owner_telegram_actions_def
    intro!: bound.stays_basic bound_frames split: owner_telegram_action.split)

lemma claim_owner_Inr:
  assumes "claim_owner u h fl now d = Inr (i, t)"
  shows "i = Claimed u h Claim (Some fl) now" and "bound_user d = None" and "bound_user t = Some u"
    and "updates t = updates d"
  using assms
  by (auto simp: claim_owner_def op_success load_owner_lifecycle_state_def load_owner_identity_def
      set_owner_if_def bound_user_def split: if_splits owner_row.splits owner_identity.splits)

lemma existing_receipt:
  assumes "and_then (existing_update_receipt_in uid) f d = Inr (r, t)"
  shows "(\<exists>receipt. receipt \<noteq> ReceiptRecorded \<and> f (Some receipt) d = Inr (r, t) \<and> find_update uid d \<noteq> None)
    \<or> (f None d = Inr (r, t) \<and> find_update uid d = None)"
  using assms
  by (auto simp: and_then_Inr_iff existing_update_receipt_in_def gets_result_Inr_iff
      receipt_for_status_def split: option.splits sum.splits update_status.splits)

lemma refuse_Inr:
  assumes "refuse_owner_claim_tx uid claim d = Inr (r, t)"
  shows "r = ClaimRefused" and "logged ''owner_claim'' ''OWNER_CLAIM'' uid (vc_occurred_at claim) d t"
proof -
  show "r = ClaimRefused"
    using assms by (auto simp: refuse_owner_claim_tx_def and_then_Inr_iff ret_Inr_iff)
  show "logged ''owner_claim'' ''OWNER_CLAIM'' uid (vc_occurred_at claim) d t"
    by (rule logged_then [OF assms [unfolded refuse_owner_claim_tx_def insert_redacted_owner_update_def]])
      (intro bound.stays_basic bound_messages)
qed

lemma record_claim_Inr:
  assumes "record_owner_claim_tx uid claim state i d = Inr (r, t)"
  shows "r = ClaimAccepted i" and "logged ''owner_claim'' ''OWNER_CLAIM'' uid (vc_occurred_at claim) d t"
proof -
  show "r = ClaimAccepted i"
    using assms by (auto simp: record_owner_claim_tx_def and_then_Inr_iff ret_Inr_iff)
  show "logged ''owner_claim'' ''OWNER_CLAIM'' uid (vc_occurred_at claim) d t"
    by (rule logged_then [OF assms [unfolded record_owner_claim_tx_def insert_redacted_owner_update_def]])
      (intro bound.stays_basic bound_messages)
qed

lemma bound_connect: "stays (same bound_log) (connect_owner_claim_tx now claim snapshot lookup global g retained)"
proof -
  have "stays (same bound_log) (try_promote_claim_candidate snapshot global g cs a now)" for cs a
    unfolding try_promote_claim_candidate_def Let_def
    by (intro bound.stays_basic bound_connections.stays_claim_promotion)
  moreover have "stays (same bound_log) (settle_claim_candidates promoted claim g cs lookup)" for promoted cs
    unfolding settle_claim_candidates_def
    by (intro bound.stays_basic bound_connections.stays_unguarded [OF unguarded_deletes(3)]
        bound_connections.stays_unguarded [OF unguarded_deletes(5)])
  ultimately show ?thesis
    unfolding connect_owner_claim_tx_def
    by (intro bound.stays_basic bound_connections.stays_auth_failed)
qed

lemma accept_Inr:
  assumes "accept_owner_claim_tx now uid claim snapshot lookup d = Inr (r, t)"
  shows "\<exists>fl. r = ClaimAccepted (Claimed (vc_from_user_id claim) (vc_owner_chat_id claim) Claim (Some fl) now)
      \<and> vc_message_date claim \<le> fl"
    and "bound_user d = None" and "bound_user t = Some (vc_from_user_id claim)"
    and "find_update uid d = None"
    and "updates t = updates d @ [redacted_row ''owner_claim'' ''OWNER_CLAIM'' uid (vc_occurred_at claim)]"
proof -
  obtain global m1 gb m2 cb m3 n m4 g m5 retained m6 i m7 state m8 where
    pre: "stp load_telegram_reconciliation_state d = Inr (global, m1)"
      "stp load_candidate_guard m1 = Inr (gb, m2)"
      "stp (candidates_for_user (vc_from_user_id claim)) m2 = Inr (cb, m3)"
      "stp (prune_connection_candidates (now - days 7) 256) m3 = Inr (n, m4)"
      "stp load_candidate_guard m4 = Inr (g, m5)"
      "stp (candidates_for_user (vc_from_user_id claim)) m5 = Inr (retained, m6)"
    and claim: "stp (claim_owner (vc_from_user_id claim) (vc_owner_chat_id claim)
      (claim_generation_floor (vc_message_date claim) snapshot gb cb) now) m6 = Inr (i, m7)"
    and connect: "connect_owner_claim_tx now claim snapshot lookup global g retained m7 = Inr (state, m8)"
    and rec: "record_owner_claim_tx uid claim state i m8 = Inr (r, t)"
    using assms unfolding accept_owner_claim_tx_def by (elim and_then_E) (rule that; assumption)
  note claimed = claim [THEN map_err_Inr_iff [THEN iffD1]]
  have same: "bound_log t' = bound_log d'" if "stays (same bound_log) q" "stp q d' = Inr (y, t')"
    for q :: "(database, storage_error, 'q) op" and d' t' y
    using staysD [OF bound.stays_map_err [OF that(1)] that(2)] by (simp add: same_def)
  note loads = bound_connections.stays_loads
  have m1: "bound_log m6 = bound_log d"
    using same [OF loads(11) pre(1)] same [OF loads(1) pre(2)] same [OF loads(3) pre(3)]
      same [OF bound_connections.stays_unguarded [OF unguarded_prune] pre(4)]
      same [OF loads(1) pre(5)] same [OF loads(3) pre(6)] by simp
  have m3: "bound_log m8 = bound_log m7" using connect staysD [OF bound_connect] by (simp add: same_def)
  note own = claim_owner_Inr [OF claimed] and row = record_claim_Inr [OF rec]
  show "\<exists>fl. r = ClaimAccepted (Claimed (vc_from_user_id claim) (vc_owner_chat_id claim) Claim (Some fl) now)
      \<and> vc_message_date claim \<le> fl"
    using own(1) row(1) claim_floor_date by blast
  show "bound_user d = None" and "bound_user t = Some (vc_from_user_id claim)"
    and "find_update uid d = None"
    and "updates t = updates d @ [redacted_row ''owner_claim'' ''OWNER_CLAIM'' uid (vc_occurred_at claim)]"
    using m1 m3 own(2-4) row(2) by (simp_all add: bound_log_def logged_def find_update_def)
qed

lemma owner_claim_Inr:
  assumes "owner_claim_tx now uid claim snapshot lookup d = Inr (r, t)"
  shows "(\<exists>receipt. r = ClaimKnown receipt \<and> receipt \<noteq> ReceiptRecorded \<and> t = d \<and> find_update uid d \<noteq> None)
    \<or> refuse_owner_claim_tx uid claim d = Inr (r, t)
    \<or> accept_owner_claim_tx now uid claim snapshot lookup d = Inr (r, t)"
  using existing_receipt [OF assms [unfolded owner_claim_tx_def]]
proof (elim disjE exE conjE, goal_cases)
  case (1 receipt)
  then show ?case by (simp add: ret_Inr_iff)
next
  case 2
  then obtain i d1 where i: "stp load_owner_identity d = Inr (i, d1)"
    and rest: "(if i \<noteq> Unclaimed then refuse_owner_claim_tx uid claim
      else accept_owner_claim_tx now uid claim snapshot lookup) d1 = Inr (r, t)"
    by (simp only: option.case) (elim and_then_E, rule that)
  have "d1 = d" using i readsD [OF reads_load_owner(2)] by (auto simp: map_err_Inr_iff)
  with rest show ?case by (cases "i = Unclaimed") simp_all
qed

text \<open>What a body returns.\<close>

definition gives :: "('a \<Rightarrow> bool) \<Rightarrow> ('s, 'e, 'a) op \<Rightarrow> bool" where
  "gives P m \<longleftrightarrow> (\<forall>s x t. m s = Inr (x, t) \<longrightarrow> P x)"

lemma gives_basic:
  "P x \<Longrightarrow> gives P (ret x)" "gives P (fail e)"
  "gives P m \<Longrightarrow> gives P n \<Longrightarrow> gives P (if b then m else n)"
  by (simp_all add: gives_def ret_def fail_def)

lemma gives_then: "(\<And>x. gives P (f x)) \<Longrightarrow> gives P (and_then m f)"
  by (simp add: gives_def and_then_Inr_iff) blast

lemma gives_prod: "(\<And>a b. gives P (f a b)) \<Longrightarrow> gives P (case p of (a, b) \<Rightarrow> f a b)"
  by (cases p) simp

lemma givesD: "gives P m \<Longrightarrow> m s = Inr (x, t) \<Longrightarrow> P x"
  by (auto simp: gives_def)

lemma rejection_Inr:
  assumes "owner_claim_rejection_tx uid reply at d = Inr (r, t)"
  shows "r \<noteq> ReceiptRecorded \<and> t = d \<and> find_update uid d \<noteq> None
    \<or> r = ReceiptRecorded \<and> logged ''owner_claim'' ''OWNER_CLAIM'' uid at d t"
  using existing_receipt [OF assms [unfolded owner_claim_rejection_tx_def]]
proof (elim disjE exE conjE, goal_cases)
  case (1 receipt)
  then show ?case by (simp add: ret_Inr_iff)
next
  case 2
  have "r = ReceiptRecorded" using 2(1) by (auto simp: and_then_Inr_iff ret_Inr_iff)
  moreover have "logged ''owner_claim'' ''OWNER_CLAIM'' uid at d t"
    by (rule logged_then [OF 2(1) [unfolded option.case insert_redacted_owner_update_def]])
      (intro bound.stays_basic bound_messages)
  ultimately show ?case by blast
qed

lemma owner_start_Inr:
  assumes "owner_start_tx capability uid user chat at d = Inr (r, t)"
  shows "(\<exists>receipt. r = StartKnown receipt \<and> receipt \<noteq> ReceiptRecorded \<and> find_update uid d \<noteq> None)
    \<or> r = StartOfOwner \<or> r = StartRecorded \<and> logged ''owner_start'' ''OWNER_START'' uid at d t"
  using existing_receipt [OF assms [unfolded owner_start_tx_def]]
proof (elim disjE exE conjE, goal_cases)
  case (1 receipt)
  then show ?case by (simp add: ret_Inr_iff)
next
  case 2
  define greet where "greet i = (if i = Unclaimed \<and> capability = SetupAvailable
      then enqueue_private_message uid chat ''OWNER_SETUP_GUIDE'' at else ret ())" for i
  obtain i d1 where i: "stp load_owner_identity d = Inr (i, d1)"
    and rest: "(if (case i of
               Claimed user' owner_chat source _ _ \<Rightarrow>
                 user' = user \<and> (source = LegacyFallback \<or> owner_chat = chat)
             | Unclaimed \<Rightarrow> False)
         then ret StartOfOwner
         else and_then (insert_redacted ''owner_start'' ''OWNER_START'' uid at) (\<lambda>_.
           and_then (greet i) (\<lambda>_. ret StartRecorded))) d1 = Inr (r, t)"
    using 2(1) unfolding option.case insert_redacted_owner_start_update_def greet_def [symmetric]
    by (elim and_then_E) (rule that)
  have d1: "d1 = d" using i readsD [OF reads_load_owner(2)] by (auto simp: map_err_Inr_iff)
  show ?case
  proof (cases "r = StartOfOwner")
    case False
    then have run: "and_then (insert_redacted ''owner_start'' ''OWNER_START'' uid at) (\<lambda>_.
        and_then (greet i) (\<lambda>_. ret StartRecorded)) d = Inr (r, t)"
      using rest d1 by (auto simp: ret_Inr_iff split: if_splits)
    have "stays (same bound_log) (and_then (greet i) (\<lambda>_. ret StartRecorded))"
      unfolding greet_def by (intro bound.stays_basic bound_messages)
    from logged_then [OF run this] show ?thesis
      using run by (auto simp: and_then_Inr_iff ret_Inr_iff)
  qed simp
qed

lemma bound_authorize: "stays (same bound_log) (authorize source now)"
  unfolding authorize_def
  by (auto intro!: bound.stays_owner bound_audits bound_promote reads_load_owner [THEN bound.stays_reads]
      repository_reads [THEN bound.stays_reads] split: owner_identity.split)

lemma bound_reply: "stays (same bound_log) (owner_command_reply S service source t who)"
  unfolding owner_command_reply_def
  by (auto intro!: bound.stays_basic bound_execute split: sum.split)

lemma owner_command_Inr:
  assumes "owner_command_tx S mode uid raw d = Inr ((r, i), t)"
  shows "r \<noteq> ReceiptRecorded \<and> i = None \<and> t = d \<and> find_update uid d \<noteq> None
    \<or> r = ReceiptRecorded \<and> logged ''owner_command'' ''OWNER_COMMAND'' uid (raw_occurred_at raw) d t"
  using existing_receipt [OF assms [unfolded owner_command_tx_def]]
proof (elim disjE exE conjE, goal_cases)
  case (1 receipt)
  then show ?case by (simp add: ret_Inr_iff)
next
  case 2
  have "\<exists>b d1. dry_run_enabled mode d = Inr (b, d1)
      \<and> (\<exists>f. and_then (insert_redacted ''owner_command'' ''OWNER_COMMAND'' uid (raw_occurred_at raw)) f d1
           = Inr ((r, i), t)
         \<and> (\<forall>x. stays (same bound_log) (f x)) \<and> (\<forall>x. gives (\<lambda>p. fst p = ReceiptRecorded) (f x)))"
    using 2(1) unfolding option.case insert_redacted_owner_command_update_def
    by (rule and_then_E)
      (intro exI conjI allI, assumption, assumption,
        auto simp: Let_def intro!: bound.stays_basic bound_messages bound_authorize bound_reply
          gives_basic gives_then gives_prod
        split: option.split sum.split owner_command_error.split)
  then obtain b d1 where b: "dry_run_enabled mode d = Inr (b, d1)"
    and rest: "\<exists>f. and_then (insert_redacted ''owner_command'' ''OWNER_COMMAND'' uid (raw_occurred_at raw)) f d1
           = Inr ((r, i), t)
         \<and> (\<forall>x. stays (same bound_log) (f x)) \<and> (\<forall>x. gives (\<lambda>p. fst p = ReceiptRecorded) (f x))"
    by blast
  have "d1 = d" by (rule readsD [OF reads_engine(2) b])
  with rest show ?case using logged_then givesD by (fastforce simp: and_then_Inr_iff)
qed

subsection \<open>Runs of the owner's updates\<close>

lemma transact_if_run:
  "transact_if keep m w = (case m (w_db (others_write w)) of
     Inl e \<Rightarrow> (Inl e, others_write w)
   | Inr (x, t) \<Rightarrow> (Inr x, if keep x then (others_write w)\<lparr>w_db := t\<rparr> else others_write w))"
  by (auto simp: transact_if_def Let_def conclude_def split: sum.split)

lemma transact_run:
  "transact m w = (case m (w_db (others_write w)) of
     Inl e \<Rightarrow> (Inl e, others_write w) | Inr (x, t) \<Rightarrow> (Inr x, (others_write w)\<lparr>w_db := t\<rparr>))"
  by (simp add: transact_def transact_if_run split: sum.split)

lemma peek_run:
  "peek m w = (case m (w_db (others_write w)) of
     Inl e \<Rightarrow> (Inl e, others_write w) | Inr (x, t) \<Rightarrow> (Inr x, others_write w))"
  by (simp add: peek_def transact_if_run split: sum.split)

lemmas run_defs = run_then_def look_def finish_def abort_def set_engine_def call_out_def alter_def

lemma run_then_Inr:
  "run_then m f w = (Inr x, u) \<longleftrightarrow> (\<exists>y v. m w = (Inr y, v) \<and> f y v = (Inr x, u))"
  by (auto simp: run_then_def split: prod.splits sum.splits)

text \<open>An update of the owner is new and logged without its content, or known and left alone.\<close>

definition handled ::
  "string \<Rightarrow> string \<Rightarrow> i64 \<Rightarrow> timestamp \<Rightarrow> record_receipt \<Rightarrow> ('d, 'v) world \<Rightarrow> ('d, 'v) world \<Rightarrow> bool" where
  "handled ty k uid at receipt w u \<longleftrightarrow>
     (if find_update uid (w_db w) = None
      then receipt = ReceiptRecorded \<and> updates (w_db u) = updates (w_db w) @ [redacted_row ty k uid at]
      else receipt \<noteq> ReceiptRecorded \<and> updates (w_db u) = updates (w_db w)
        \<and> w_engine u = w_engine w \<and> w_calls u = w_calls w \<and> (w_others w = [] \<longrightarrow> w_db u = w_db w))"

text \<open>The world once the others have written.\<close>

definition later :: "('d, 'v) world \<Rightarrow> ('d, 'v) world \<Rightarrow> bool" where
  "later w v \<longleftrightarrow> w_engine v = w_engine w \<and> w_calls v = w_calls w \<and> updates (w_db v) = updates (w_db w)
     \<and> (w_others w = [] \<longrightarrow> w_db v = w_db w \<and> w_others v = []) \<and> others_in (same updates) v"

lemma later_others:
  assumes "others_in (same updates) w"
  shows "later w (others_write w)"
proof -
  have q: "same updates d d" for d :: database by (simp add: same_def)
  note o = others_write_in [OF assms q]
  have "w_engine (others_write w) = w_engine w \<and> w_calls (others_write w) = w_calls w
    \<and> (w_others w = [] \<longrightarrow> others_write w = w)"
    by (simp add: others_write_def split: list.split)
  with o(1) [unfolded same_def] o(2) show ?thesis by (auto simp: later_def)
qed

lemma later_trans: "later w v \<Longrightarrow> later v u \<Longrightarrow> later w u"
  by (auto simp: later_def)

lemma find_later: "later w v \<Longrightarrow> find_update uid (w_db v) = find_update uid (w_db w)"
  by (simp add: later_def find_update_def)

lemma handled_later: "later w v \<Longrightarrow> handled ty k uid at r v u \<Longrightarrow> handled ty k uid at r w u"
  by (auto simp: handled_def later_def find_update_def split: if_splits)

lemma handled_known:
  "later w v \<Longrightarrow> find_update uid (w_db w) \<noteq> None \<Longrightarrow> r \<noteq> ReceiptRecorded \<Longrightarrow> handled ty k uid at r w v"
  by (simp add: handled_def later_def)

lemma handled_new:
  "logged ty k uid at (w_db w) (w_db u) \<Longrightarrow> handled ty k uid at ReceiptRecorded w u"
  by (simp add: handled_def logged_def)

lemma command_handled:
  assumes "process_owner_command S uid raw w = (Inr r, u)" and "others_in (same updates) w"
  shows "handled ''owner_command'' ''OWNER_COMMAND'' uid (raw_occurred_at raw) r w u"
proof -
  define v where "v = others_write w"
  have v: "later w v" unfolding v_def by (rule later_others [OF assms(2)])
  obtain i t where tx: "owner_command_tx S (en_default_destructive_mode (w_engine w)) uid raw (w_db v)
      = Inr ((r, i), t)"
    and u: "w_db u = t" "i = None \<Longrightarrow> u = v\<lparr>w_db := t\<rparr>"
    using assms(1) unfolding process_owner_command_def run_then_Inr transact_run v_def
    by (auto simp: run_defs publish_identity_def split: sum.splits option.splits)
  from owner_command_Inr [OF tx] show ?thesis
  proof
    assume "r \<noteq> ReceiptRecorded \<and> i = None \<and> t = w_db v \<and> find_update uid (w_db v) \<noteq> None"
    with u v show ?thesis by (auto simp: find_later intro: handled_known)
  next
    assume "r = ReceiptRecorded \<and> logged ''owner_command'' ''OWNER_COMMAND'' uid (raw_occurred_at raw) (w_db v) t"
    with u(1) show ?thesis by (auto intro: handled_later [OF v] handled_new)
  qed
qed

lemma start_handled:
  assumes "process_owner_start S uid raw w = (Inr r, u)" and "others_in (same updates) w"
  shows "\<exists>ty k. handled ty k uid (raw_occurred_at raw) r w u"
proof -
  define v where "v = others_write w"
  have v: "later w v" unfolding v_def by (rule later_others [OF assms(2)])
  obtain snapshot user chat where ctx: "owner_start_context raw = Inr (snapshot, user, chat)"
    using assms(1) by (auto simp: process_owner_start_def abort_def split: sum.splits)
  obtain x t where tx: "owner_start_tx (en_claim_setup_capability (w_engine w)) uid user chat
      (raw_occurred_at raw) (w_db v) = Inr (x, t)"
    and rest: "(case x of StartKnown receipt \<Rightarrow> finish receipt
        | StartRecorded \<Rightarrow> finish ReceiptRecorded
        | StartOfOwner \<Rightarrow> process_owner_command S uid (raw\<lparr>raw_kind := RawOwnerCommand,
            raw_owner_command := Some (snapshot\<lparr>os_text := lit ''/help''\<rparr>)\<rparr>))
      (if x = StartRecorded then v\<lparr>w_db := t\<rparr> else v) = (Inr r, u)"
    using assms(1) unfolding process_owner_start_def ctx sum.case prod.case run_then_Inr
      transact_if_run v_def
    by (auto simp: look_def split: sum.splits if_splits)
  have vo: "others_in (same updates) v" using v by (simp add: later_def)
  from owner_start_Inr [OF tx] show ?thesis
  proof (elim disjE exE conjE)
    fix receipt
    assume "x = StartKnown receipt" "receipt \<noteq> ReceiptRecorded" "find_update uid (w_db v) \<noteq> None"
    then show ?thesis using rest v by (auto simp: finish_def find_later intro: handled_known)
  next
    assume "x = StartOfOwner"
    with rest command_handled [OF _ vo] show ?thesis
      by (fastforce intro: handled_later [OF v])
  next
    assume "x = StartRecorded" "logged ''owner_start'' ''OWNER_START'' uid (raw_occurred_at raw) (w_db v) t"
    then show ?thesis
      using rest handled_new [of _ _ _ _ v u] by (fastforce simp: finish_def intro: handled_later [OF v])
  qed
qed

lemma rejection_handled:
  assumes "record_owner_claim_rejection uid reply at w = (Inr r, u)" and "others_in (same updates) w"
  shows "handled ''owner_claim'' ''OWNER_CLAIM'' uid at r w u"
proof -
  define v where "v = others_write w"
  have v: "later w v" unfolding v_def by (rule later_others [OF assms(2)])
  obtain t where tx: "owner_claim_rejection_tx uid reply at (w_db v) = Inr (r, t)" and u: "u = v\<lparr>w_db := t\<rparr>"
    using assms(1) by (auto simp: record_owner_claim_rejection_def transact_run v_def split: sum.splits)
  from rejection_Inr [OF tx] show ?thesis
    using u v handled_new [of _ _ _ _ v u]
    by (auto simp: find_later intro: handled_known handled_later [OF v])
qed

lemma claim_run:
  assumes "process_owner_claim S uid raw w = (r, u)"
  obtains (known) receipt where "r = Inr receipt" and "receipt \<noteq> ReceiptRecorded"
      and "find_update uid (w_db (others_write w)) \<noteq> None" and "u = others_write w"
  | (failed) e where "r = Inl e" and "u = others_write w \<or> u = others_write (others_write w)"
  | (rejected) reply v where "record_owner_claim_rejection uid reply (raw_occurred_at raw) v = (r, u)"
      and "v = others_write w \<or> v = others_write (others_write w)"
  | (committed) user chat m date token snapshot lookup
    where "raw_owner_claim raw = Some (ClaimCandidate user chat m date token)"
      and "claim_token_matches (en_owner_claim_token (w_engine (others_write w))) token"
      and "en_owner_identity (w_engine (others_write w)) \<noteq> None"
      and "commit_owner_claim S uid \<lparr>vc_from_user_id = user, vc_owner_chat_id = chat,
        vc_message_date = date, vc_occurred_at = raw_occurred_at raw\<rparr> snapshot lookup
        (others_write (others_write w)) = (r, u)"
proof -
  note split_run = assms [unfolded process_owner_claim_def run_then_def existing_update_receipt_def]
  let ?v = "others_write w"
  show thesis
  proof (cases "existing_update_receipt_in uid (w_db ?v)")
    case (Inl e)
    with split_run show ?thesis by (intro failed) (auto simp: peek_run)
  next
    case (Inr p)
    then obtain existing t where ex: "existing_update_receipt_in uid (w_db ?v) = Inr (existing, t)"
      by (cases p) auto
    show ?thesis
    proof (cases existing)
      case (Some receipt)
      have "receipt \<noteq> ReceiptRecorded \<and> find_update uid (w_db ?v) \<noteq> None"
        using ex Some by (auto simp: existing_update_receipt_in_def gets_result_Inr_iff
            receipt_for_status_def split: option.splits sum.splits update_status.splits)
      with split_run ex Some show ?thesis by (intro known [of receipt]) (auto simp: peek_run finish_def)
    next
      case None
      note run = split_run [unfolded peek_run, unfolded ex, simplified, unfolded None, simplified]
      show ?thesis
      proof (cases "raw_owner_claim raw")
        case None
        with run show ?thesis by (intro failed) (auto simp: abort_def)
      next
        case (Some claim)
        show ?thesis
        proof (cases claim)
          case NotClaim
          with run Some show ?thesis by (intro failed) (auto simp: abort_def)
        next
          case IgnoreClaim
          with run Some show ?thesis by (intro rejected [of None ?v]) auto
        next
          case (RejectClaim chat)
          with run Some show ?thesis by (intro rejected [of "Some chat" ?v]) auto
        next
          case (ClaimCandidate user chat m date token)
          show ?thesis
          proof (cases "en_owner_identity (w_engine ?v) = None")
            case True
            with run Some ClaimCandidate show ?thesis
              by (intro rejected [of "Some chat" ?v]) (auto simp: look_def)
          next
            case False
            show ?thesis
            proof (cases "owner_claim_snapshot_tx user (sv_snapshot_now S) (w_db (others_write ?v))")
              case (Inl e)
              with run Some ClaimCandidate False show ?thesis
                by (intro failed) (auto simp: look_def run_then_def peek_run)
            next
              case (Inr q)
              then obtain snapshot t' where "owner_claim_snapshot_tx user (sv_snapshot_now S)
                  (w_db (others_write ?v)) = Inr (snapshot, t')" by (cases q) auto
              with run Some ClaimCandidate False show ?thesis
                by (cases "sn_owner snapshot \<noteq> Unclaimed
                    \<or> \<not> claim_token_matches (en_owner_claim_token (w_engine ?v)) token")
                  (auto simp: look_def run_then_def peek_run
                    intro: rejected [of "Some chat" "others_write ?v"] committed [of user chat m date token snapshot])
            qed
          qed
        qed
      qed
    qed
  qed
qed

lemma finish_claim_run:
  "\<exists>u. finish_owner_claim b w = (Inr (), u) \<and> w_db u = w_db w
    \<and> en_owner_claim_token (w_engine u) = None
    \<and> en_owner_identity (w_engine u) = en_owner_identity (w_engine w)"
  by (cases "en_owner_claim_token (w_engine w)"; cases "en_claim_file_manager (w_engine w)"; cases b)
    (auto simp: finish_owner_claim_def notify_fatal_once_def run_defs)

lemma commit_run:
  assumes "commit_owner_claim S uid claim snapshot lookup w = (r, u)"
  obtains (failed) e where "r = Inl e" and "u = others_write w"
  | (known) receipt where "r = Inr receipt" and "receipt \<noteq> ReceiptRecorded"
      and "find_update uid (w_db (others_write w)) \<noteq> None" and "u = others_write w"
  | (refused) "r = Inr ReceiptRecorded"
      and "logged ''owner_claim'' ''OWNER_CLAIM'' uid (vc_occurred_at claim) (w_db (others_write w)) (w_db u)"
  | (accepted) i where "r = Inr ReceiptRecorded"
      and "accept_owner_claim_tx (sv_now S uid) uid claim snapshot lookup (w_db (others_write w))
        = Inr (ClaimAccepted i, w_db u)"
      and "en_owner_identity (w_engine u) = map_option (\<lambda>_. i) (en_owner_identity (w_engine (others_write w)))"
      and "en_owner_claim_token (w_engine u) = None"
proof (cases "owner_claim_tx (sv_now S uid) uid claim snapshot lookup (w_db (others_write w))")
  case (Inl e)
  with assms show thesis by (intro failed) (auto simp: commit_owner_claim_def run_then_def transact_run)
next
  case (Inr q)
  then obtain x t where tx: "owner_claim_tx (sv_now S uid) uid claim snapshot lookup
      (w_db (others_write w)) = Inr (x, t)" by (cases q) auto
  note run = assms [unfolded commit_owner_claim_def run_then_def transact_run tx, simplified]
  from owner_claim_Inr [OF tx] show thesis
  proof (elim disjE exE conjE)
    fix receipt
    assume "x = ClaimKnown receipt" "receipt \<noteq> ReceiptRecorded" "t = w_db (others_write w)"
      and "find_update uid (w_db (others_write w)) \<noteq> None"
    with run show thesis by (intro known [of receipt]) (auto simp: finish_def)
  next
    assume "refuse_owner_claim_tx uid claim (w_db (others_write w)) = Inr (x, t)"
    from refuse_Inr [OF this] run show thesis by (intro refused) (auto simp: finish_def)
  next
    assume acc: "accept_owner_claim_tx (sv_now S uid) uid claim snapshot lookup (w_db (others_write w))
      = Inr (x, t)"
    then obtain i where x: "x = ClaimAccepted i" using accept_Inr(1) by blast
    let ?v = "(others_write w)\<lparr>w_db := t\<rparr>"
    obtain v where pub: "publish_identity i ?v = (Inr (), v)" "w_db v = t"
      "en_owner_identity (w_engine v) = map_option (\<lambda>_. i) (en_owner_identity (w_engine (others_write w)))"
      by (simp add: publish_identity_def run_defs)
    obtain u' where fin: "finish_owner_claim (ol_authentication_failed lookup) v = (Inr (), u')"
      "w_db u' = t" "en_owner_claim_token (w_engine u') = None"
      "en_owner_identity (w_engine u') = en_owner_identity (w_engine v)"
      using finish_claim_run [of "ol_authentication_failed lookup" v] pub(2) by auto
    have "u = u'" "r = Inr ReceiptRecorded"
      using run x pub(1) fin(1) by (simp_all add: finish_def)
    then show thesis using acc x fin pub by (intro accepted [of i]) auto
  qed
qed

lemma commit_handled:
  assumes "commit_owner_claim S uid claim snapshot lookup w = (Inr r, u)" and "others_in (same updates) w"
  shows "handled ''owner_claim'' ''OWNER_CLAIM'' uid (vc_occurred_at claim) r w u"
proof -
  note v = later_others [OF assms(2)]
  show ?thesis
    using assms(1)
  proof (cases rule: commit_run)
    case (known receipt)
    with v show ?thesis by (auto simp: find_later intro: handled_known)
  next
    case refused
    with v show ?thesis by (auto intro: handled_later handled_new)
  next
    case (accepted i)
    note acc = accept_Inr(4,5) [OF accepted(2)]
    then have "handled ''owner_claim'' ''OWNER_CLAIM'' uid (vc_occurred_at claim) r (others_write w) u"
      using accepted(1) by (simp add: handled_def)
    with v show ?thesis by (rule handled_later)
  qed auto
qed

lemma claim_handled:
  assumes "process_owner_claim S uid raw w = (Inr r, u)" and "others_in (same updates) w"
  shows "\<exists>ty k. handled ty k uid (raw_occurred_at raw) r w u"
proof -
  note v = later_others [OF assms(2)]
  then have o: "others_in (same updates) (others_write w)" by (simp add: later_def)
  note v2 = later_trans [OF v later_others [OF o]]
  then have o2: "others_in (same updates) (others_write (others_write w))" by (simp add: later_def)
  show ?thesis
    using assms(1)
  proof (cases rule: claim_run)
    case (known receipt)
    with v show ?thesis by (fastforce simp: find_later intro: handled_known)
  next
    case (rejected reply v')
    then have "later w v'" "others_in (same updates) v'" using v v2 o o2 by auto
    with rejection_handled [OF rejected(1)] show ?thesis by (blast intro: handled_later)
  next
    case (committed user chat m date token snapshot lookup)
    from commit_handled [OF committed(4) o2] handled_later [OF v2] show ?thesis by fastforce
  qed auto
qed

subsection \<open>Samples\<close>

definition unclaimed_db :: database where
  "unclaimed_db = (sample_state_db New)\<lparr>owner := OwnerReady Unclaimed\<rparr>"

definition idle_world :: "database \<Rightarrow> (rule_detector, unit arithmetic_verifier) world" where
  "idle_world d = (sample_world d)\<lparr>w_others := []\<rparr>"

definition sample_claim :: raw_business_event where
  "sample_claim = (sample_raw RawOwnerClaim)\<lparr>raw_owner_claim := Some (ClaimCandidate 7 7 70 100 [1, 2])\<rparr>"

lemma idle_simps [simp]:
  "w_db (idle_world d) = d" "w_others (idle_world d) = []" "w_engine (idle_world d) = sample_engine"
  "others_write (idle_world d) = idle_world d"
  by (simp_all add: idle_world_def sample_world_def others_write_def)

lemma unclaimed_tables:
  "updates unclaimed_db = [update_row_of sample_event]" "owner unclaimed_db = OwnerReady Unclaimed"
  "candidates unclaimed_db = []" "outbox unclaimed_db = []"
  "reconciliation unclaimed_db = \<lparr>tr_state = GlobalReady, tr_state_revision = 0, tr_updated_at = 0\<rparr>"
  "guard unclaimed_db = \<lparr>cg_overflow_established_at = None, cg_state_revision = 0\<rparr>"
  by (simp_all add: unclaimed_db_def sample_state_db_def sample_db_def)

lemma sample_start_run:
  "\<exists>u. process sample_run_services 30 sample_start (idle_world unclaimed_db) = (Inr ReceiptRecorded, u)"
  by (simp add: process_def sample_start_def sample_raw_def process_owner_start_def owner_start_context_def
      positive_def run_defs transact_if_run owner_start_tx_def and_then_def existing_update_receipt_in_def
      gets_result_def find_update_def find_row_def unclaimed_tables update_row_of_def sample_event_def
      sample_event_with_def map_err_def load_owner_identity_def load_owner_lifecycle_state_def gets_def
      insert_redacted_owner_start_update_def insert_redacted_def ret_def sample_engine_def
      with_owner_claim_def enqueue_private_message_def enqueue_outbox_action_def Let_def
      redacted_row_def)

lemma sample_claim_run:
  "bound_user (w_db (snd (process sample_run_services 30 sample_claim (idle_world unclaimed_db)))) = Some 7"
proof -
  define snapshot where "snapshot = \<lparr>sn_owner = Unclaimed, sn_global = reconciliation unclaimed_db,
    sn_guard = guard unclaimed_db, sn_candidates = []\<rparr>"
  define claim where "claim = \<lparr>vc_from_user_id = 7, vc_owner_chat_id = 7, vc_message_date = 100,
    vc_occurred_at = 100\<rparr>"
  define lookup where "lookup = \<lparr>ol_authoritative = None, ol_authentication_failed = False\<rparr>"
  have none: "existing_update_receipt_in 30 unclaimed_db = Inr (None, unclaimed_db)"
    by (simp add: existing_update_receipt_in_def gets_result_def find_update_def find_row_def
        unclaimed_tables update_row_of_def sample_event_def sample_event_with_def)
  have guard: "load_candidate_guard d = Inr (guard unclaimed_db, d)" if "guard d = guard unclaimed_db" for d :: database
    using that by (simp add: load_candidate_guard_def gets_result_def unclaimed_tables)
  have cands: "candidates_for_user 7 d = Inr ([], d)" if "candidates d = []" for d :: database
    using that by (simp add: candidates_for_user_def gets_result_def)
  have prune: "prune_connection_candidates c 256 unclaimed_db = Inr (0, unclaimed_db)" for c
  proof -
    have "delete_candidates p unclaimed_db = Inr (0, unclaimed_db)" for p
      by (simp add: delete_candidates_def unclaimed_tables count_where_def delete_where_def)
    then show ?thesis
      by (simp add: prune_connection_candidates_def and_then_def guard gets_def retained_order_def
          unclaimed_tables ret_def)
  qed
  have loads: "load_owner_identity unclaimed_db = Inr (Unclaimed, unclaimed_db)"
    "load_telegram_reconciliation_state unclaimed_db = Inr (reconciliation unclaimed_db, unclaimed_db)"
    by (simp_all add: load_owner_identity_def and_then_def load_owner_lifecycle_state_def gets_def ret_def
        load_telegram_reconciliation_state_def unclaimed_tables)
  have snap: "owner_claim_snapshot_tx 7 100 unclaimed_db = Inr (snapshot, unclaimed_db)"
    by (simp add: owner_claim_snapshot_tx_def and_then_def map_err_def guard cands loads ret_def
        unclaimed_tables(3) snapshot_def)
  have "\<exists>i t. owner_claim_tx 100 30 claim snapshot lookup unclaimed_db = Inr (ClaimAccepted i, t)"
    by (simp add: owner_claim_tx_def and_then_def none map_err_def guard cands loads prune
        accept_owner_claim_tx_def unclaimed_tables(1,2,3) claim_def claim_owner_def
        load_owner_lifecycle_state_def gets_def set_owner_if_def load_owner_identity_def ret_def
        connect_owner_claim_tx_def lookup_def try_promote_claim_candidate_def snapshot_def
        settle_claim_candidates_def clear_connection_candidates_def delete_candidates_def
        delete_where_def fail_def claim_generation_floor_def map_filter_simps unclaimed_tables(6)
        record_owner_claim_tx_def insert_redacted_owner_update_def insert_redacted_def
        update_row_of_def sample_event_def sample_event_with_def redacted_row_def
        insert_owner_claim_audit_def plain_audit_def insert_audit_event_def
        enqueue_direct_owner_message_def enqueue_outbox_action_def Let_def unclaimed_tables(4)
        owner_message_action_def)
  then obtain i t where tx: "owner_claim_tx 100 30 claim snapshot lookup unclaimed_db = Inr (ClaimAccepted i, t)"
    by blast
  with owner_claim_Inr [OF tx] refuse_Inr(1) [of 30 claim unclaimed_db "ClaimAccepted i" t]
  have "accept_owner_claim_tx 100 30 claim snapshot lookup unclaimed_db = Inr (ClaimAccepted i, t)" by auto
  from accept_Inr(3) [OF this] have user: "bound_user t = Some 7" by (simp add: claim_def)
  have asked: "lookup_claim_candidate (sv_api sample_run_services 30) snapshot = lookup"
    by (simp add: lookup_claim_candidate_def snapshot_def lookup_def)
  have "process sample_run_services 30 sample_claim (idle_world unclaimed_db)
      = commit_owner_claim sample_run_services 30 claim snapshot lookup (idle_world unclaimed_db)"
    by (simp add: process_def sample_claim_def sample_raw_def process_owner_claim_def run_then_def
        existing_update_receipt_def peek_run none look_def sample_run_services_def snap
        claim_token_matches_iff sample_engine_def with_owner_claim_def claim_def
        asked [unfolded sample_run_services_def, simplified], simp add: snapshot_def)
  also have "w_db (snd \<dots>) = t"
    using tx
    by (simp add: commit_owner_claim_def run_then_def transact_run sample_run_services_def
        publish_identity_def finish_owner_claim_def run_defs lookup_def split: option.split)
  finally show ?thesis using user by simp
qed

subsection \<open>Properties\<close>

lemma bound_others:
  assumes "others_in (same bound_user) w"
  shows "bound_user (w_db (others_write w)) = bound_user (w_db w)"
    and "others_in (same bound_user) (others_write w)" and "w_engine (others_write w) = w_engine w"
proof -
  note o = others_write_in [OF assms bound_user.step_refl]
  from o(1) show "bound_user (w_db (others_write w)) = bound_user (w_db w)" by (simp add: same_def)
  from o(2) show "others_in (same bound_user) (others_write w)" .
  show "w_engine (others_write w) = w_engine w" by (simp add: others_write_def split: list.split)
qed

lemma bound_drives:
  "drives (same bound_user) (same bound_user) m \<Longrightarrow> others_in (same bound_user) w
   \<Longrightarrow> bound_user (w_db (snd (m w))) = bound_user (w_db w)"
  by (drule (1) drivesD) (simp add: same_def)

lemma bound_other_turns:
  assumes "others_in (same bound_user) w"
    and "\<not> (\<exists>uid raw. t = Update uid raw \<and> raw_kind raw = RawOwnerClaim)"
  shows "bound_user (w_db (take_turn S t w)) = bound_user (w_db w)"
proof (cases t)
  case (Update uid raw)
  with assms(2) show ?thesis
    using bound_drives [OF bound_engine.drives_owner_start assms(1)]
      bound_drives [OF bound_engine.drives_owner_command assms(1)] bound_drives [OF bound_business assms(1)]
    by (simp add: process_def)
next
  case (ExpiryPass now)
  then show ?thesis
    using bound_others(1) [OF assms(1)] bound_user.commit_stays [OF bound_passes(1) [of now], of "w_db (others_write w)"]
    by (simp add: on_database_def Let_def expire_due_state_def same_def)
next
  case (PurgePass now)
  then show ?thesis
    using bound_others(1) [OF assms(1)] bound_user.commit_stays [OF bound_passes(2) [of now], of "w_db (others_write w)"]
    by (simp add: on_database_def Let_def purge_history_def same_def)
qed (use bound_drives [OF bound_engine.drives_passes(1) assms(1)]
    bound_drives [OF bound_engine.drives_passes(2) assms(1)] in simp_all)

lemma bound_rejection:
  "drives (same bound_user) (same bound_user) (record_owner_claim_rejection uid reply at)"
  unfolding record_owner_claim_rejection_def
  by (intro bound_engine.drives_transact bound_engine.stays_claim_rejection)

lemma binding_claim:
  assumes run: "process_owner_claim S uid raw w = (r, u)" and o: "others_in (same bound_user) w"
    and change: "bound_user (w_db u) \<noteq> bound_user (w_db w)"
  shows "\<exists>user chat m date token fl. raw_owner_claim raw = Some (ClaimCandidate user chat m date token)
    \<and> en_owner_claim_token (w_engine w) = Some token
    \<and> bound_user (w_db w) = None \<and> bound_user (w_db u) = Some user
    \<and> en_owner_claim_token (w_engine u) = None \<and> date \<le> fl
    \<and> en_owner_identity (w_engine u) = Some (Claimed user chat Claim (Some fl) (sv_now S uid))"
proof -
  note v = bound_others [OF o] and v2 = bound_others [OF bound_others(2) [OF o]]
  from run show ?thesis
  proof (cases rule: claim_run)
    case (rejected reply v')
    then have "others_in (same bound_user) v'" "bound_user (w_db v') = bound_user (w_db w)"
      using v v2 by auto
    with bound_drives [OF bound_rejection, of v' uid reply "raw_occurred_at raw"] rejected(1) change
    show ?thesis by simp
  next
    case (committed user chat m date token snapshot lookup)
    note v3 = bound_others [OF v2(2)]
    from committed(4) show ?thesis
    proof (cases rule: commit_run)
      case (refused)
      then show ?thesis using change v v2 v3 by (simp add: logged_def)
    next
      case (accepted i)
      note acc = accept_Inr [OF accepted(2)]
      with accepted(3,4) committed(1-3) v v2 v3 show ?thesis by (auto simp: claim_token_matches_iff)
    qed (use change v v2 v3 in auto)
  qed (use change v v2 in auto)
qed

text \<open>
  C1: the owner changes hands only through the claim code. If a turn of the worker changes which
  user the installation is bound to, whatever it works on and whatever Telegram answers, it was
  a claim that carried exactly the expected token, the installation was unclaimed, the claimant
  is the new owner, the published identity has a connection floor not before the claim's
  message, and the token is dropped.
\<close>

theorem owner_binding_needs_token:
  assumes "list_all (\<lambda>f. \<forall>d. bound_user (f d) = bound_user d) (w_others w)"
    and "bound_user (w_db (take_turn S t w)) \<noteq> bound_user (w_db w)"
  shows "\<exists>uid raw user chat m date token fl. t = Update uid raw \<and> raw_kind raw = RawOwnerClaim
    \<and> raw_owner_claim raw = Some (ClaimCandidate user chat m date token)
    \<and> en_owner_claim_token (w_engine w) = Some token
    \<and> bound_user (w_db w) = None \<and> bound_user (w_db (take_turn S t w)) = Some user
    \<and> en_owner_claim_token (w_engine (take_turn S t w)) = None \<and> date \<le> fl
    \<and> en_owner_identity (w_engine (take_turn S t w)) = Some (Claimed user chat Claim (Some fl) (sv_now S uid))"
proof -
  have o: "others_in (same bound_user) w" using assms(1) by (simp add: others_in_def same_def)
  obtain uid raw where t: "t = Update uid raw" "raw_kind raw = RawOwnerClaim"
    using bound_other_turns [OF o] assms(2) by blast
  define u where "u = snd (process_owner_claim S uid raw w)"
  have turn: "take_turn S t w = u" using t by (simp add: process_def u_def)
  have "process_owner_claim S uid raw w = (fst (process_owner_claim S uid raw w), u)" by (simp add: u_def)
  from binding_claim [OF this o] assms(2) show ?thesis using t unfolding turn by blast
qed

theorem owner_binding_needs_token_witness:
  "bound_user (w_db (take_turn sample_run_services (Update 30 sample_claim) (idle_world unclaimed_db))) = Some 7
   \<and> en_owner_claim_token (w_engine (take_turn sample_run_services (Update 30 sample_claim)
       (idle_world unclaimed_db))) = None"
proof -
  have before: "bound_user (w_db (idle_world unclaimed_db)) = None"
    by (simp add: bound_user_def unclaimed_tables)
  have after: "bound_user (w_db (take_turn sample_run_services (Update 30 sample_claim) (idle_world unclaimed_db)))
      = Some 7" by (simp add: sample_claim_run)
  have "list_all (\<lambda>f. \<forall>d. bound_user (f d) = bound_user d) (w_others (idle_world unclaimed_db))" by simp
  from owner_binding_needs_token [OF this, of sample_run_services "Update 30 sample_claim"] before after
  show ?thesis by auto
qed

text \<open>
  C14: an update of the owner - a claim, a start or a command - is handled once and leaves no
  content. When it is new and handled, the log gains exactly one row, applied and redacted:
  its kind, its identifier and its date. When it is known, nothing happens but the answer that
  it is a duplicate.
\<close>

theorem owner_update_once:
  assumes "raw_kind raw \<in> {RawOwnerClaim, RawOwnerStart, RawOwnerCommand}"
    and "list_all (\<lambda>f. \<forall>d. updates (f d) = updates d) (w_others w)"
    and "process S uid raw w = (Inr receipt, u)"
  shows "if find_update uid (w_db w) = None
    then receipt = ReceiptRecorded \<and> (\<exists>ty k. updates (w_db u) = updates (w_db w)
        @ [\<lparr>pu_update_id = uid, pu_event_type = ty, pu_event = RedactedEvent k, pu_status = Applied,
             pu_received_at = raw_occurred_at raw, pu_applied_at = Some (raw_occurred_at raw),
             pu_error_code = None, pu_error_message = None\<rparr>])
    else receipt \<noteq> ReceiptRecorded \<and> updates (w_db u) = updates (w_db w)
      \<and> w_engine u = w_engine w \<and> w_calls u = w_calls w \<and> (w_others w = [] \<longrightarrow> w_db u = w_db w)"
proof -
  have o: "others_in (same updates) w" using assms(2) by (simp add: others_in_def same_def)
  have "\<exists>ty k. handled ty k uid (raw_occurred_at raw) receipt w u"
    using assms(1,3) claim_handled [OF _ o] start_handled [OF _ o] command_handled [OF _ o, of S uid raw receipt u]
    by (auto simp: process_def) blast
  then show ?thesis by (auto simp: handled_def redacted_row_def)
qed

theorem owner_update_once_witness:
  "\<exists>u ty k. process sample_run_services 30 sample_start (idle_world unclaimed_db) = (Inr ReceiptRecorded, u)
     \<and> pu_event (last (updates (w_db u))) = RedactedEvent k
     \<and> length (updates (w_db u)) = length (updates unclaimed_db) + 1"
proof -
  obtain u where run: "process sample_run_services 30 sample_start (idle_world unclaimed_db)
      = (Inr ReceiptRecorded, u)" using sample_start_run by blast
  have kind: "raw_kind sample_start \<in> {RawOwnerClaim, RawOwnerStart, RawOwnerCommand}"
    by (simp add: sample_start_def)
  have new: "find_update 30 (w_db (idle_world unclaimed_db)) = None"
    by (simp add: find_update_def find_row_def unclaimed_tables update_row_of_def sample_event_def
        sample_event_with_def)
  from owner_update_once [OF kind _ run] new run show ?thesis by fastforce
qed

end
