(* ===== verification/Engine_Correctness.thy ===== *)
theory Engine_Correctness
  imports Engine_Claims
begin

section \<open>Correctness of the engine at work\<close>

text \<open>
  The worker against the contracts of its neighbours: the schema it shares with every writer, the
  outbox the dispatcher empties, and the connection triggers it must not lose.
\<close>

subsection \<open>The schema\<close>

lemma typed_evolves: "outbox_evolves d t \<Longrightarrow> keeps db_ok d t"
  by (simp add: outbox_evolves_def keeps_def)

lemma safe_typed: "safe_step d t \<Longrightarrow> keeps db_ok d t"
  by (rule typed_evolves [OF safe_evolves])

interpretation typed_engine: engine_runs "keeps db_ok" "keeps db_ok"
  by (intro engine_runs.intro engine_relation.intro engine_relation_axioms.intro engine_runs_axioms.intro
      engine_writer_above)
    (assumption | rule ok.step_relation_axioms ok.step_refl safe_typed
      evolves_apply [THEN stays_mono, OF typed_evolves] evolves_expiry [THEN stays_mono, OF typed_evolves]
      evolves_purge [THEN stays_mono, OF typed_evolves] safe_owner(2) [THEN stays_mono, OF safe_typed])+



subsection \<open>The outbox\<close>



subsection \<open>Connection triggers\<close>

text \<open>Partial correctness of runs.\<close>

definition ends ::
  "(('d, 'v) world \<Rightarrow> bool) \<Rightarrow> (('d, 'v) world, 'a) run \<Rightarrow> ('a \<Rightarrow> ('d, 'v) world \<Rightarrow> bool) \<Rightarrow> bool" where
  "ends P m Q \<longleftrightarrow> (\<forall>w x u. P w \<longrightarrow> m w = (Inr x, u) \<longrightarrow> Q x u)"

lemma ends_then: "ends P m Q \<Longrightarrow> (\<And>x. ends (Q x) (f x) T) \<Longrightarrow> ends P (run_then m f) T"
  by (fastforce simp: ends_def run_then_Inr)

lemma ends_weaken: "ends P m Q \<Longrightarrow> (\<And>w. P' w \<Longrightarrow> P w) \<Longrightarrow> (\<And>x u. Q x u \<Longrightarrow> Q' x u) \<Longrightarrow> ends P' m Q'"
  by (fastforce simp: ends_def)

lemma ends_finish: "(\<And>w. P w \<Longrightarrow> Q x w) \<Longrightarrow> ends P (finish x) Q"
  by (simp add: ends_def finish_def)

lemma ends_abort: "ends P (abort e) Q"
  by (simp add: ends_def abort_def)

lemma ends_look: "(\<And>w. P w \<Longrightarrow> Q (f w) w) \<Longrightarrow> ends P (look f) Q"
  by (simp add: ends_def look_def)

lemma ends_set_engine:
  "(\<And>w. P w \<Longrightarrow> Q () (w\<lparr>w_engine := h (w_engine w)\<rparr>)) \<Longrightarrow> ends P (set_engine h) Q"
  by (simp add: ends_def set_engine_def alter_def)

lemma ends_call: "(\<And>w. P w \<Longrightarrow> Q () (w\<lparr>w_calls := w_calls w @ [c]\<rparr>)) \<Longrightarrow> ends P (call_out c) Q"
  by (simp add: ends_def call_out_def alter_def)

lemma ends_if:
  "(b \<Longrightarrow> ends P m Q) \<Longrightarrow> (\<not> b \<Longrightarrow> ends P n Q) \<Longrightarrow> ends P (if b then m else n) Q"
  by simp

lemma ends_option:
  "(v = None \<Longrightarrow> ends P m Q) \<Longrightarrow> (\<And>x. v = Some x \<Longrightarrow> ends P (f x) Q)
   \<Longrightarrow> ends P (case v of None \<Rightarrow> m | Some x \<Rightarrow> f x) Q"
  by (cases v) simp_all

lemma ends_transact_if:
  assumes "\<And>w. P w \<Longrightarrow> P (others_write w)"
    and "\<And>w x t. P w \<Longrightarrow> m (w_db w) = Inr (x, t) \<Longrightarrow> Q x (if keep x then w\<lparr>w_db := t\<rparr> else w)"
  shows "ends P (transact_if keep m) Q"
  using assms by (fastforce simp: ends_def transact_if_run split: sum.splits)

lemma ends_transact:
  assumes "\<And>w. P w \<Longrightarrow> P (others_write w)"
    and "\<And>w x t. P w \<Longrightarrow> m (w_db w) = Inr (x, t) \<Longrightarrow> Q x (w\<lparr>w_db := t\<rparr>)"
  shows "ends P (transact m) Q"
  unfolding transact_def by (rule ends_transact_if) (simp_all add: assms)

lemma ends_peek:
  assumes "\<And>w. P w \<Longrightarrow> P (others_write w)"
    and "\<And>w x t. P w \<Longrightarrow> m (w_db w) = Inr (x, t) \<Longrightarrow> Q x w"
  shows "ends P (peek m) Q"
  unfolding peek_def by (rule ends_transact_if) (use assms in simp_all)

text \<open>
  The others leave the log and the reconciliation state alone. A trigger is settled when it is
  applied, has a retry within five minutes, or the bot's authentication failed.
\<close>

definition log_and_gate :: "database \<Rightarrow> stored_event update_row list \<times> telegram_reconciliation_state" where
  "log_and_gate d = (updates d, reconciliation d)"

definition quiet :: "database \<Rightarrow> database \<Rightarrow> bool" where
  "quiet d t \<longleftrightarrow> keeps db_ok d t \<and> log_and_gate t = log_and_gate d"

definition attended :: "('d, 'v) world \<Rightarrow> bool" where
  "attended w \<longleftrightarrow> db_ok (w_db w) \<and> others_in quiet w"

definition settled :: "i64 \<Rightarrow> instant \<Rightarrow> ('d, 'v) world \<Rightarrow> bool" where
  "settled uid now w \<longleftrightarrow> attended w \<and>
     (status_of uid (w_db w) = Some Applied
      \<or> (\<exists>r. map_of (en_connection_retries (w_engine w)) uid = Some r
           \<and> now + 1 \<le> cr_due_at r \<and> cr_due_at r \<le> now + 300)
      \<or> tr_state (reconciliation (w_db w)) = GlobalAuthFailed)"

lemma attended_others:
  assumes "attended w"
  shows "attended (others_write w)" and "log_and_gate (w_db (others_write w)) = log_and_gate (w_db w)"
    and "w_engine (others_write w) = w_engine w"
proof -
  have q: "quiet d d" for d by (simp add: quiet_def keeps_def)
  note o = others_write_in [OF conjunct2 [OF assms [unfolded attended_def]] q]
  show "attended (others_write w)"
    using assms o(1) [unfolded quiet_def keeps_def] o(2) by (simp add: attended_def)
  show "log_and_gate (w_db (others_write w)) = log_and_gate (w_db w)" using o(1) by (simp add: quiet_def)
  show "w_engine (others_write w) = w_engine w" by (simp add: others_write_def split: list.split)
qed

lemma settled_others: "settled uid now w \<Longrightarrow> settled uid now (others_write w)"
  using attended_others [of w] by (simp add: settled_def log_and_gate_def status_of_def find_update_def)

lemma attended_frames [simp]:
  "attended (w\<lparr>w_engine := g\<rparr>) = attended w" "attended (w\<lparr>w_calls := c\<rparr>) = attended w"
  by (simp_all add: attended_def others_in_def)

lemma attended_write: "attended w \<Longrightarrow> stays (keeps db_ok) m \<Longrightarrow> m (w_db w) = Inr (x, t)
  \<Longrightarrow> attended (w\<lparr>w_db := t\<rparr>)"
  by (auto simp: attended_def others_in_def keeps_def dest: staysD)

lemma retry_after_bounds: "1 \<le> retry_after n b \<and> retry_after n b \<le> 300"
proof -
  have "\<forall>m \<in> {0..5}. 1 \<le> BACKOFF ! m \<and> BACKOFF ! m \<le> 300"
    by (simp add: BACKOFF_def numeral_eq_Suc atLeast0_atMost_Suc)
  moreover have "min n (length BACKOFF - 1) \<in> {0..5}" by (auto simp: BACKOFF_def)
  ultimately show ?thesis by (auto simp: retry_after_def)
qed

lemma retry_settles: "ends attended (schedule_connection_retry S uid b) (\<lambda>_. settled uid (sv_instant S uid))"
  unfolding schedule_connection_retry_def
  by (rule ends_set_engine)
    (use retry_after_bounds in \<open>auto simp: settled_def put_retry_def next_retry_def Let_def\<close>)

lemma mark_settles:
  assumes "mark_connection_trigger_applied uid now d = Inr (x, t)" and "db_ok d"
  shows "status_of uid t = Some Applied"
proof -
  note run = mark_trigger_Inr [OF assms(1)]
  then have "count_where (\<lambda>u. pu_update_id u = uid \<and> pu_status u = Recorded) (updates d) \<noteq> 0"
    by (auto simp: mark_applied_def Let_def split: if_splits)
  then obtain u where u: "u \<in> set (updates d)" "pu_update_id u = uid" "pu_status u = Recorded"
    by (auto simp: count_where_0_iff)
  have "distinct (map pu_update_id (updates d))" using assms(2) by (simp add: ok_defs)
  from find_update_row [OF this u(1)] u have "status_of uid d = Some Recorded" by (simp add: status_of_def)
  then show ?thesis by (rule mark_applied_Inr(2) [OF run])
qed

definition commits_applied :: "i64 \<Rightarrow> trigger_application pop \<Rightarrow> bool" where
  "commits_applied uid m \<longleftrightarrow>
     (\<forall>d t. db_ok d \<longrightarrow> m d = Inr (CommitTrigger, t) \<longrightarrow> status_of uid t = Some Applied)"

lemma commits_basic:
  "commits_applied uid (ret (RetryTrigger b))" "commits_applied uid (fail e)"
  "commits_applied uid (and_then (mark_connection_trigger_applied uid now) (\<lambda>_. ret CommitTrigger))"
  by (auto simp: commits_applied_def ret_Inr_iff fail_def and_then_Inr_iff dest: mark_settles)

lemma commits_then:
  "stays (keeps db_ok) m \<Longrightarrow> (\<And>x. commits_applied uid (f x)) \<Longrightarrow> commits_applied uid (and_then m f)"
  by (fastforce simp: commits_applied_def and_then_Inr_iff stays_def keeps_def)

lemma commits_if:
  "commits_applied uid m \<Longrightarrow> commits_applied uid n \<Longrightarrow> commits_applied uid (if b then m else n)"
  by simp

lemma commits_under_owner: "commits_applied uid m \<Longrightarrow> commits_applied uid (under_same_owner i m)"
  unfolding under_same_owner_def
  by (auto intro!: commits_then commits_basic commits_if ok.stays_map_err
      typed_engine.stays_engine_loads(4) split: owner_row.split)

lemma commits_triggers:
  "commits_applied uid (connection_not_found_tx uid cid snapshot now)"
  "commits_applied uid (authoritative_trigger_tx uid at i snapshot a now)"
  unfolding connection_not_found_tx_def authoritative_trigger_tx_def
  by (auto intro!: commits_then commits_basic ok.stays_map_err typed_engine.stays_retire
      typed_engine.stays_unclaimed_trigger typed_engine.stays_claimed_trigger
      split: trusted_connection_write.split owner_identity.split trigger_application.split)

lemma settle_settles:
  assumes "stays (keeps db_ok) m" and "commits_applied uid m"
  shows "ends attended (settle_trigger S uid m) (\<lambda>_. settled uid (sv_instant S uid))"
  unfolding settle_trigger_def
proof (rule ends_then)
  show "ends attended (transact_if commits m)
    (\<lambda>r w. attended w \<and> (r = CommitTrigger \<longrightarrow> status_of uid (w_db w) = Some Applied))"
    using attended_others(1) attended_write [OF _ assms(1)] assms(2)
    by (intro ends_transact_if) (auto simp: commits_def commits_applied_def attended_def)
next
  fix r
  show "ends (\<lambda>w. attended w \<and> (r = CommitTrigger \<longrightarrow> status_of uid (w_db w) = Some Applied))
    (case r of CommitTrigger \<Rightarrow> forget_retry uid
      | RetryTrigger transient \<Rightarrow> schedule_connection_retry S uid transient)
    (\<lambda>_. settled uid (sv_instant S uid))"
    by (cases r)
      (auto simp: forget_retry_def settled_def intro!: ends_set_engine ends_weaken [OF retry_settles])
qed

lemma auth_failed_state:
  "set_telegram_auth_failed now d = Inr (x, t) \<Longrightarrow> tr_state (reconciliation t) = GlobalAuthFailed"
  by (auto simp: set_telegram_auth_failed_def and_then_Inr_iff set_global_def modify_def map_err_Inr_iff
      load_telegram_reconciliation_state_def gets_Inr_iff ret_Inr_iff split: if_splits
      dest!: readsD [OF repository_reads(12)])

lemma auth_settles:
  "ends attended (run_then (transact (stp (set_telegram_auth_failed now))) (\<lambda>_. notify_fatal_once))
     (\<lambda>_. settled uid at)"
proof (rule ends_then [where Q = "\<lambda>_. settled uid at"])
  show "ends attended (transact (stp (set_telegram_auth_failed now))) (\<lambda>_. settled uid at)"
    using attended_others(1)
      attended_write [OF _ ok.stays_map_err [OF typed_engine.stays_auth_failed]]
    by (intro ends_transact) (auto simp: settled_def map_err_Inr_iff dest: auth_failed_state)
  show "ends (settled uid at) notify_fatal_once (\<lambda>_. settled uid at)" for x
    unfolding notify_fatal_once_def
    by (intro ends_then [OF ends_look [where Q = "\<lambda>_. settled uid at"]] ends_if ends_finish
        ends_then [OF ends_set_engine [where Q = "\<lambda>_. settled uid at"]] ends_call)
      (simp_all add: settled_def)
qed

lemma trigger_settles:
  "ends attended (reconcile_connection_trigger S uid cid at) (\<lambda>_. settled uid (sv_instant S uid))"
  unfolding reconcile_connection_trigger_def
proof (rule ends_then [OF ends_peek [where Q = "\<lambda>_. attended"]])
  fix seen
  show "ends attended (case seen of None \<Rightarrow> schedule_connection_retry S uid False
     | Some (i, snapshot) \<Rightarrow>
         (case fst (lookup_business_connection (sv_api S uid cid)) of
            Inl (ConnectionNotFound _) \<Rightarrow> apply_connection_not_found S uid cid i snapshot
          | Inl (BotAuthentication _) \<Rightarrow>
              run_then (transact (stp (set_telegram_auth_failed (sv_now S uid)))) (\<lambda>_. notify_fatal_once)
          | Inl (TransientExhausted _) \<Rightarrow> schedule_connection_retry S uid True
          | Inl _ \<Rightarrow> schedule_connection_retry S uid False
          | Inr a \<Rightarrow> apply_authoritative_connection_trigger S uid at i snapshot a))
      (\<lambda>_. settled uid (sv_instant S uid))"
    unfolding apply_connection_not_found_def apply_authoritative_connection_trigger_def
    by (auto intro!: retry_settles auth_settles settle_settles commits_under_owner commits_triggers
        typed_engine.stays_under_owner typed_engine.stays_not_found typed_engine.stays_authoritative
        split: option.split sum.split authoritative_lookup_error.split)
qed (simp_all add: attended_others)

lemma transition_Inr:
  assumes "transition_telegram_reconciliation_ready v now d = Inr (x, t)"
  shows "updates t = updates d \<and> tr_state (reconciliation d) = GlobalPending"
  using assms
  by (auto simp: transition_telegram_reconciliation_ready_def load_telegram_reconciliation_state_def
      and_then_Inr_iff gets_Inr_iff ret_Inr_iff fail_Inr_iff map_err_Inr_iff set_global_def
      split: if_splits dest!: load_single_Inr)

lemma ready_Inr:
  assumes "publish_ready_tx now d = Inr (x, t)"
  shows "t = d \<or> updates t = updates d \<and> tr_state (reconciliation d) = GlobalPending"
  using assms
  by (auto simp: publish_ready_tx_def load_telegram_reconciliation_state_def and_then_Inr_iff
      gets_Inr_iff ret_Inr_iff map_err_Inr_iff split: if_splits dest!: transition_Inr)

lemma publish_settled:
  "ends (settled uid now) (publish_ready_if_drained S) (\<lambda>_. settled uid now)"
  unfolding publish_ready_if_drained_def
proof (rule ends_then [OF ends_look [where Q = "\<lambda>_. settled uid now"]])
  fix pending :: "string option"
  have "settled uid now (w\<lparr>w_db := t\<rparr>)"
    if "settled uid now w" "publish_ready_tx (sv_ready_now S) (w_db w) = Inr (x, t)" for w :: "('c, 'd) world" and x t
    using that ready_Inr [OF that(2)] attended_write [OF _ typed_engine.stays_publish that(2)]
    by (auto simp: settled_def status_of_def find_update_def)
  then show "ends (settled uid now) (if pending \<noteq> None then finish ()
      else transact (publish_ready_tx (sv_ready_now S))) (\<lambda>_. settled uid now)"
    by (intro ends_if ends_finish ends_transact settled_others)
qed simp

lemma record_applied:
  assumes "record_prepared_event_tx rfc e d = Inr (DuplicateApplied, t)"
  shows "status_of (pe_update_id e) t = Some Applied"
proof -
  obtain trigger b d1 where
    ins: "insert_update (update_row_of e) d = Inr (b, d1)" and
    rest: "(if b then
          and_then (case trigger of None \<Rightarrow> ret None
             | Some cid \<Rightarrow> map_err Storage
                 (gate_matching_trusted_for_reconciliation cid (pe_occurred_at e)))
           (\<lambda>_. ret ReceiptRecorded)
        else
         and_then (gets (find_update (pe_update_id e))) (\<lambda>row.
         case row of
           None \<Rightarrow> fail (MissingUpdate (pe_update_id e))
         | Some u \<Rightarrow>
             (case pu_status u of
                Recorded \<Rightarrow> ret DuplicateRecorded
              | Applied \<Rightarrow> ret DuplicateApplied
              | Failed \<Rightarrow> fail (InvalidStatus (status_text Failed))))) d1
       = Inr (DuplicateApplied, t)"
    using assms unfolding record_prepared_event_tx_def
    by (elim and_then_lift_E and_then_E) (rule that; (assumption | simp))
  have "\<not> b" using rest by (auto simp: and_then_Inr_iff ret_Inr_iff)
  then show ?thesis
    using rest by (auto simp: status_of_def and_then_Inr_iff gets_Inr_iff ret_Inr_iff fail_Inr_iff
        split: option.splits update_status.splits)
qed

lemma read_trigger:
  assumes "read_tx S uid raw p d = Inr ((n, e, p'), t)" and "raw_kind raw = RawConnectionChanged"
  shows "pe_update_id e = uid" and "pe_event_type e = ''business_connection_changed''"
proof -
  obtain d' u where run: "prepare (sv_preparer S) (sv_prepare_clock S) uid raw p d' = Inr ((e, p'), u)"
    using assms unfolding read_tx_def
    by (auto simp: and_then_Inr_iff ret_Inr_iff make_preclaim_business_event_inert_def business_event_kind_def)
  from run show "pe_update_id e = uid" by (elim prepare_Inr)
  from run assms(2) show "pe_event_type e = ''business_connection_changed''" by (elim prepare_Inr) simp
qed

lemma business_settles:
  fixes S :: "('d, 'v) engine_services"
  assumes "raw_kind raw = RawConnectionChanged"
  shows "ends attended (process_business S uid raw) (\<lambda>_. settled uid (sv_instant S uid))"
  unfolding process_business_def
proof (rule ends_then [OF ends_look [where Q = "\<lambda>_. attended"]], goal_cases)
  case (2 p)
  show ?case
  proof (rule ends_then [OF ends_peek [where Q = "\<lambda>(_, e, _) w. attended w \<and> pe_update_id e = uid
        \<and> pe_event_type e = ''business_connection_changed''"]], goal_cases)
    case (2 w x t)
    with read_trigger [OF _ assms] show ?case by (cases x) auto
  next
    case (3 x)
    obtain notice e p' where x: "x = (notice, e, p')" by (cases x) auto
    show ?case unfolding x prod.case
    proof (rule ends_then [OF ends_set_engine [where Q = "\<lambda>_ w. attended w \<and> pe_update_id e = uid
        \<and> pe_event_type e = ''business_connection_changed''"]], simp, rule ends_then [OF ends_transact
          [where Q = "\<lambda>r w. attended w \<and> (r = DuplicateApplied \<longrightarrow> status_of uid (w_db w) = Some Applied)
            \<and> pe_event_type e = ''business_connection_changed''"]], goal_cases)
      case 1
      then show ?case by (simp add: attended_others)
    next
      case (2 w r t)
      then show ?case
        using attended_write [OF _ ok.stays_map_err [OF typed_engine.stays_record]] 
        by (auto simp: map_err_Inr_iff dest: record_applied)
    next
      case (3 _ r)
      have trig: "ends attended (run_then (reconcile_connection_trigger S uid cid at) (\<lambda>_.
          run_then (publish_ready_if_drained S) (\<lambda>_. finish r))) (\<lambda>_. settled uid (sv_instant S uid))" for cid at
        by (intro ends_then [OF trigger_settles] ends_then [OF publish_settled] ends_finish)
      have other: "ends (\<lambda>_. False) m (\<lambda>_. settled uid (sv_instant S uid))"
        for m :: "(('d, 'v) world, record_receipt) run" by (simp add: ends_def)
      have trig': "ends attended (case lf_connection_id (pe_facts e) of
          None \<Rightarrow> abort (invalid_event ''connection trigger ID is missing'')
        | Some cid \<Rightarrow> run_then (reconcile_connection_trigger S uid cid (pe_occurred_at e)) (\<lambda>_.
            run_then (publish_ready_if_drained S) (\<lambda>_. finish r))) (\<lambda>_. settled uid (sv_instant S uid))"
        by (intro ends_option ends_abort trig)
      show ?case
      proof (intro ends_if, goal_cases)
        case 2
        show ?case by (rule ends_weaken [OF trig']) simp_all
      next
        case 3
        then show ?case by (intro ends_weaken [OF other]) simp_all
      qed (rule ends_finish, simp add: settled_def)
    qed
  qed (simp_all add: attended_others)
qed simp

text \<open>A connection of an installation whose owner is not known yet.\<close>

definition sample_trigger :: raw_business_event where
  "sample_trigger = (sample_raw RawConnectionChanged)
     \<lparr>raw_connection_id := Some ''bx'', raw_chat_id := None, raw_message_id := None,
      raw_connection := Some \<lparr>bs_connection_id = ''bx'', bs_owner_user_id = 1,
        bs_owner_chat_id = Some 1, bs_enabled = True, bs_rights = \<lparr>can_reply = True,
          can_read_messages = True, can_delete_sent_messages = True, can_delete_all_messages = True\<rparr>\<rparr>\<rparr>"

definition ownerless_db :: database where
  "ownerless_db = sample_db\<lparr>owner := OwnerPending\<rparr>"

definition trigger_event :: prepared_event where
  "trigger_event =
     \<lparr>pe_update_id = 30, pe_event_type = ''business_connection_changed'', pe_occurred_at = 100,
      pe_facts = prepared_facts sample_trigger False (Some 1, Some 1) None Ignore\<rparr>"

lemma sample_trigger_read:
  "\<exists>p'. read_tx sample_run_services 30 sample_trigger (en_preparer sample_engine) ownerless_db
    = Inr ((None, trigger_event, p'), ownerless_db)"
  by (simp add: read_tx_def and_then_def make_preclaim_business_event_inert_def
      business_event_kind_def sample_trigger_def sample_raw_def ret_def first_contact_notice_def
      prepare_def runtime_destructive_mode_def destructive_setting_def gets_def ownerless_db_def
      sample_db_def trace_owner_identity_def trace_state_before_def requires_known_connection_def
      prepare_action_def trigger_event_def sample_engine_def new_engine_def with_owner_claim_def)

lemma sample_trigger_facts:
  "validate_facts (facts_json (\<lambda>_. []) (pe_facts trigger_event)) (lit ''facts'') = Inr ()"
  by code_simp

lemma sample_trigger_id: "connection_trigger_id (\<lambda>_. []) trigger_event = Inr (Some ''bx'')"
  unfolding connection_trigger_id_def facts_pointer_action_kind
  by (simp add: trigger_event_def
      prepared_facts_def sample_trigger_def trim_def trim_start_def trim_end_def is_whitespace_def jstr_def json_as_str_def)

lemma sample_trigger_record:
  "\<exists>t. record_prepared_event_tx (\<lambda>_. []) trigger_event ownerless_db = Inr (ReceiptRecorded, t)
    \<and> owner t = OwnerPending \<and> tr_state (reconciliation t) \<noteq> GlobalPending"
  unfolding record_prepared_event_tx_def sample_trigger_facts sample_trigger_id
  by (simp add: and_then_def lift_result_def insert_update_def update_row_of_def trigger_event_def
      ownerless_db_def sample_db_def sample_event_def sample_event_with_def map_err_def
      gate_matching_trusted_for_reconciliation_def load_business_connection_for_reconciliation_def
      gets_result_def decode_optional_def find_row_def ret_def)

lemma sample_trigger_run:
  "\<exists>u. process sample_run_services 30 sample_trigger (idle_world ownerless_db) = (Inr ReceiptRecorded, u)"
proof -
  obtain p' where read: "read_tx sample_run_services 30 sample_trigger (en_preparer sample_engine) ownerless_db
    = Inr ((None, trigger_event, p'), ownerless_db)" using sample_trigger_read by blast
  obtain t where rec: "record_prepared_event_tx (\<lambda>_. []) trigger_event ownerless_db = Inr (ReceiptRecorded, t)"
    "owner t = OwnerPending" "tr_state (reconciliation t) \<noteq> GlobalPending" using sample_trigger_record by blast
  have kind: "raw_kind sample_trigger = RawConnectionChanged"
    and event: "pe_event_type trigger_event = ''business_connection_changed''"
      "lf_connection_id (pe_facts trigger_event) = Some ''bx''"
    by (simp_all add: sample_trigger_def sample_raw_def trigger_event_def prepared_facts_def)
  have owner: "read_owner_lifecycle_state t = Inr (OwnerPending, t)"
    using rec(2) by (simp add: read_owner_lifecycle_state_eq load_owner_lifecycle_state_def gets_def)
  have others: "others_write w = w" if "w_others w = []" for w :: "(rule_detector, unit arithmetic_verifier) world"
    using that by (simp add: others_write_def)
  have services: "sv_rfc sample_run_services = (\<lambda>_. [])" by (simp add: sample_run_services_def)
  have retry: "\<exists>v. reconcile_connection_trigger sample_run_services 30 ''bx'' at w = (Inr (), v)
      \<and> w_others v = [] \<and> w_db v = t"
    if "w_others w = []" "w_db w = t" for w and at
    using that by (simp add: reconcile_connection_trigger_def run_then_def peek_run others trigger_snapshot_tx_def
        and_then_def owner map_err_def ret_def schedule_connection_retry_def set_engine_def alter_def)
  have publish: "\<exists>v. publish_ready_if_drained sample_run_services w = (Inr (), v)"
    if "w_others w = []" "tr_state (reconciliation (w_db w)) \<noteq> GlobalPending" for w
    using that by (simp add: publish_ready_if_drained_def run_defs transact_run others publish_ready_tx_def
        and_then_def load_telegram_reconciliation_state_def gets_def map_err_def ret_def)
  define w where "w = (idle_world ownerless_db)\<lparr>w_engine := sample_engine\<lparr>en_preparer := p'\<rparr>, w_db := t\<rparr>"
  obtain v where v: "reconcile_connection_trigger sample_run_services 30 ''bx''
      (pe_occurred_at trigger_event) w = (Inr (), v)" "w_others v = []" "w_db v = t"
    using retry [of w] by (auto simp: w_def)
  obtain u where "publish_ready_if_drained sample_run_services v = (Inr (), u)"
    using publish [OF v(2)] rec(3) v(3) by auto
  then have "process_business sample_run_services 30 sample_trigger (idle_world ownerless_db)
      = (Inr ReceiptRecorded, u)"
    using v(1) by (simp add: process_business_def run_then_def look_def peek_run read set_engine_def
        alter_def transact_run others services rec(1) event map_err_def w_def finish_def)
  then show ?thesis using kind by (simp add: process_def)
qed

text \<open>
  C4: no connection trigger is lost. When the worker has handled an update that reports a change
  of a connection, the update is applied, or its retry is scheduled within five minutes, or the
  bot's authentication failed and the gate is shut for good; whatever Telegram answered, and
  whether the update was new, a duplicate or one already applied.
\<close>

theorem no_trigger_is_lost:
  assumes "raw_kind raw = RawConnectionChanged"
    and "list_all (\<lambda>f. \<forall>d. (db_ok d \<longrightarrow> db_ok (f d)) \<and> updates (f d) = updates d
        \<and> reconciliation (f d) = reconciliation d) (w_others w)"
    and "db_ok (w_db w)" and "process S uid raw w = (Inr receipt, u)"
  shows "status_of uid (w_db u) = Some Applied
    \<or> (\<exists>r. map_of (en_connection_retries (w_engine u)) uid = Some r
          \<and> sv_instant S uid + 1 \<le> cr_due_at r \<and> cr_due_at r \<le> sv_instant S uid + 300)
    \<or> tr_state (reconciliation (w_db u)) = GlobalAuthFailed"
proof -
  have "attended w"
    using assms(2,3) by (simp add: attended_def others_in_def quiet_def keeps_def log_and_gate_def)
  moreover have "process_business S uid raw w = (Inr receipt, u)"
    using assms(1,4) by (simp add: process_def)
  ultimately show ?thesis
    using business_settles [OF assms(1), where S = S and uid = uid] unfolding ends_def settled_def by blast
qed

theorem no_trigger_is_lost_witness:
  "\<exists>u. process sample_run_services 30 sample_trigger (idle_world ownerless_db) = (Inr ReceiptRecorded, u)
     \<and> (status_of 30 (w_db u) = Some Applied
        \<or> (\<exists>r. map_of (en_connection_retries (w_engine u)) 30 = Some r \<and> 1 \<le> cr_due_at r \<and> cr_due_at r \<le> 300)
        \<or> tr_state (reconciliation (w_db u)) = GlobalAuthFailed)"
proof -
  have kind: "raw_kind sample_trigger = RawConnectionChanged"
    by (simp add: sample_trigger_def)
  have db: "db_ok (w_db (idle_world ownerless_db))"
    using sample_ok by (simp add: ownerless_db_def ok_owner_update)
  have others: "list_all (\<lambda>f. \<forall>d. (db_ok d \<longrightarrow> db_ok (f d)) \<and> updates (f d) = updates d
      \<and> reconciliation (f d) = reconciliation d) (w_others (idle_world ownerless_db))" by simp
  obtain u where run: "process sample_run_services 30 sample_trigger (idle_world ownerless_db)
      = (Inr ReceiptRecorded, u)" using sample_trigger_run by blast
  have clock: "sv_instant sample_run_services 30 = 0" by (simp add: sample_run_services_def)
  from no_trigger_is_lost [OF kind others db run] run show ?thesis unfolding clock by auto
qed

end
