(* ===== verification/Telegram_Parser.thy ===== *)
theory Telegram_Parser
  imports Event_Preparer Engine_World
begin

section \<open>Parsing of Telegram updates\<close>

text \<open>
  Models \<open>src/telegram/parser.rs\<close>: a decoded update becomes a raw event, given the published
  identity of the owner. The JSON decoder of \<open>serde\<close>, the calendar range of \<open>chrono\<close>, the
  hexadecimal decoder and the clock are the parameters of \<open>parser_env\<close>.
\<close>

subsection \<open>The update as decoded\<close>

datatype parse_error = InvalidJson | InvalidTimestamp i64 | InvalidConnectionId

record telegram_user =
  us_id :: i64
  us_first_name :: "ustring option"
  us_last_name :: "ustring option"
  us_username :: "ustring option"

record telegram_chat =
  tc_id :: i64
  tc_first_name :: "ustring option"
  tc_last_name :: "ustring option"
  tc_username :: "ustring option"

record bot_chat =
  bk_id :: i64
  bk_kind :: string

datatype bot_message =
  MkBotMessage (bm_message_id: i64) (bm_from: "telegram_user option") (bm_chat: bot_chat)
    (bm_date: i64) (bm_text: "ustring option") (bm_caption: "ustring option")
    (bm_reply_to_message: "bot_message option") (bm_forward_origin: "json option")

record entity =
  et_kind :: string
  et_offset :: nat
  et_length :: nat
  et_url :: "ustring option"

record business_message =
  ms_message_id :: i64
  ms_business_connection_id :: string
  ms_from :: telegram_user
  ms_chat :: telegram_chat
  ms_date :: i64
  ms_edit_date :: "i64 option"
  ms_text :: "ustring option"
  ms_caption :: "ustring option"
  ms_entities :: "entity list"
  ms_caption_entities :: "entity list"
  ms_media_group_id :: "string option"
  ms_sender_business_bot :: "json option"
  ms_is_from_offline :: bool
  ms_forward_origin :: "json option"
  ms_photo :: "json option"
  ms_video :: "json option"
  ms_document :: "ustring option option" \<comment> \<open>the document's file name, when it has one\<close>
  ms_voice :: "json option"
  ms_sticker :: "json option"

record deleted_business_messages =
  dl_business_connection_id :: string
  dl_chat :: telegram_chat
  dl_message_ids :: "i64 list"

record envelope =
  ev_update_id :: i64
  ev_business_connection :: "string option"
  ev_business_message :: "business_message option"
  ev_edited_business_message :: "business_message option"
  ev_deleted_business_messages :: "deleted_business_messages option"
  ev_message :: "bot_message option"
  ev_channel_post :: "bot_message option"

record parsed_update =
  pd_update_id :: i64
  pd_event :: raw_business_event

record parser_env =
  px_decode :: "byte list \<Rightarrow> envelope option"
  px_timestamp :: "i64 \<Rightarrow> timestamp option"
  px_hex :: "ustring \<Rightarrow> byte list option"
  px_now :: timestamp

subsection \<open>Events\<close>

definition ignored_event :: "timestamp \<Rightarrow> raw_business_event" where
  "ignored_event at =
     \<lparr>raw_kind = RawIgnored, raw_connection_id = None, raw_chat_id = None, raw_message_id = None,
      raw_media_group_id = None, raw_content = None, raw_deleted_message_ids = [],
      raw_connection = None, raw_owner_claim = None, raw_owner_command = None,
      raw_contact_display_name = None, raw_contact_username = None, raw_occurred_at = at\<rparr>"

definition owner_user_id_of :: "owner_identity \<Rightarrow> i64" where
  "owner_user_id_of i = (case i of Unclaimed \<Rightarrow> 0 | Claimed user _ _ _ _ \<Rightarrow> user)"

definition telegram_timestamp :: "parser_env \<Rightarrow> i64 \<Rightarrow> parse_error + timestamp" where
  "telegram_timestamp P secs = ok_or (InvalidTimestamp secs) (px_timestamp P secs)"

definition connection_event :: "parser_env \<Rightarrow> string \<Rightarrow> parse_error + raw_business_event" where
  "connection_event P cid =
     (if trim (lit cid) = [] then Inl InvalidConnectionId
      else Inr ((ignored_event (px_now P))
        \<lparr>raw_kind := RawConnectionChanged, raw_connection_id := Some cid\<rparr>))"

definition classify_message :: "business_message \<Rightarrow> i64 \<Rightarrow> bool \<Rightarrow> raw_event_kind" where
  "classify_message m owner_user edited =
     (if ms_sender_business_bot m \<noteq> None then RawBotBusinessMessage
      else if ms_is_from_offline m then RawImplicitOwnerMessage
      else if us_id (ms_from m) = owner_user then RawManualOwnerMessage
      else if edited then RawEditedInboundMessage
      else RawInboundMessage)"

subsection \<open>Content\<close>

text \<open>\<open>str::encode_utf16\<close> and \<open>String::from_utf16\<close>.\<close>

definition utf16_units :: "codepoint \<Rightarrow> nat list" where
  "utf16_units c =
     (if c < 0x10000 then [c]
      else [0xD800 + (c - 0x10000) div 1024, 0xDC00 + (c - 0x10000) mod 1024])"

definition encode_utf16 :: "ustring \<Rightarrow> nat list" where
  "encode_utf16 t = concat (map utf16_units t)"

fun from_utf16 :: "nat list \<Rightarrow> ustring option" where
  "from_utf16 [] = Some []"
| "from_utf16 (u # us) =
     (if u < 0xD800 \<or> 0xE000 \<le> u then map_option ((#) u) (from_utf16 us)
      else if 0xDC00 \<le> u then None
      else
        (case us of
           [] \<Rightarrow> None
         | v # vs \<Rightarrow>
             if 0xDC00 \<le> v \<and> v < 0xE000
             then map_option ((#) (0x10000 + (u - 0xD800) * 1024 + (v - 0xDC00))) (from_utf16 vs)
             else None))"

definition utf16_slice :: "ustring \<Rightarrow> nat \<Rightarrow> nat \<Rightarrow> ustring option" where
  "utf16_slice t offset len =
     (let units = encode_utf16 t; end = offset + len
      in if end > USIZE_MAX then None
         else if end \<le> length units then from_utf16 (take len (drop offset units))
         else None)"

definition entity_kind :: "string \<Rightarrow> message_entity_kind" where
  "entity_kind k =
     (if k = ''url'' then Url
      else if k = ''text_link'' then TextLink
      else if k = ''mention'' then Mention
      else if k = ''phone_number'' then PhoneNumber
      else OtherEntity)"

definition extract_entities :: "ustring option \<Rightarrow> entity list \<Rightarrow> message_entity list" where
  "extract_entities source es =
     List.map_filter (\<lambda>e.
       map_option (\<lambda>v. \<lparr>me_kind = entity_kind (et_kind e), me_value = v\<rparr>)
         (case et_url e of
            Some url \<Rightarrow> Some url
          | None \<Rightarrow> Option.bind source (\<lambda>t. utf16_slice t (et_offset e) (et_length e)))) es"

definition media_kind_of :: "business_message \<Rightarrow> media_kind option" where
  "media_kind_of m =
     (if ms_photo m \<noteq> None then Some Photo
      else if ms_video m \<noteq> None then Some Video
      else if ms_document m \<noteq> None then Some Document
      else if ms_voice m \<noteq> None then Some Voice
      else if ms_sticker m \<noteq> None then Some Sticker
      else None)"

definition message_content_of :: "business_message \<Rightarrow> message_content" where
  "message_content_of m =
     \<lparr>mc_text = ms_text m, mc_caption = ms_caption m,
      mc_entities = extract_entities (ms_text m) (ms_entities m)
        @ extract_entities (ms_caption m) (ms_caption_entities m),
      mc_media_kind = media_kind_of m,
      mc_document_filename = Option.bind (ms_document m) (\<lambda>file_name. file_name),
      mc_forwarded = (ms_forward_origin m \<noteq> None)\<rparr>"

subsection \<open>The contact\<close>

definition nonempty :: "ustring \<Rightarrow> ustring option" where
  "nonempty t = (if t = [] then None else Some t)"

definition display_name :: "ustring option \<Rightarrow> ustring option \<Rightarrow> ustring option" where
  "display_name first_name last_name =
     nonempty (join (lit '' '')
       (concat (map split_whitespace (case_option [] (\<lambda>x. [x]) first_name @ case_option [] (\<lambda>x. [x]) last_name))))"

definition parsed_username :: "ustring option \<Rightarrow> ustring option" where
  "parsed_username username =
     Option.bind username (\<lambda>u. nonempty (dropWhile (\<lambda>c. c = 64) (trim u)))"

definition chat_identity :: "telegram_chat \<Rightarrow> ustring option \<times> ustring option" where
  "chat_identity chat =
     (display_name (tc_first_name chat) (tc_last_name chat), parsed_username (tc_username chat))"

definition or_else :: "'a option \<Rightarrow> 'a option \<Rightarrow> 'a option" where
  "or_else v w = (case v of None \<Rightarrow> w | Some x \<Rightarrow> Some x)"

definition message_contact_identity ::
  "business_message \<Rightarrow> raw_event_kind \<Rightarrow> ustring option \<times> ustring option" where
  "message_contact_identity m kind =
     (let (chat_name, chat_username) = chat_identity (ms_chat m)
      in if kind \<noteq> RawInboundMessage \<and> kind \<noteq> RawEditedInboundMessage
         then (chat_name, chat_username)
         else (or_else chat_name (display_name (us_first_name (ms_from m)) (us_last_name (ms_from m))),
               or_else chat_username (parsed_username (us_username (ms_from m)))))"

definition message_event ::
  "parser_env \<Rightarrow> business_message \<Rightarrow> i64 \<Rightarrow> bool \<Rightarrow> parse_error + raw_business_event" where
  "message_event P m owner_user edited =
     (let kind = classify_message m owner_user edited
      in case telegram_timestamp P (case ms_edit_date m of None \<Rightarrow> ms_date m | Some d \<Rightarrow> d) of
           Inl e \<Rightarrow> Inl e
         | Inr at \<Rightarrow>
             let (name, username) = message_contact_identity m kind
             in Inr ((ignored_event at)
                  \<lparr>raw_kind := kind, raw_connection_id := Some (ms_business_connection_id m),
                   raw_chat_id := Some (tc_id (ms_chat m)), raw_message_id := Some (ms_message_id m),
                   raw_media_group_id := ms_media_group_id m,
                   raw_content := Some (message_content_of m),
                   raw_contact_display_name := name, raw_contact_username := username\<rparr>))"

definition deletion_event :: "parser_env \<Rightarrow> deleted_business_messages \<Rightarrow> raw_business_event" where
  "deletion_event P d =
     (let (name, username) = chat_identity (dl_chat d)
      in (ignored_event (px_now P))
           \<lparr>raw_kind := RawMessagesDeleted, raw_connection_id := Some (dl_business_connection_id d),
            raw_chat_id := Some (tc_id (dl_chat d)), raw_deleted_message_ids := dl_message_ids d,
            raw_contact_display_name := name, raw_contact_username := username\<rparr>)"

subsection \<open>Messages to the bot\<close>

datatype start_command = NotStart | ExactStart | MalformedStart

text \<open>\<open>str::get(..n)\<close>: the characters that make up exactly the first \<open>n\<close> bytes.\<close>

fun byte_prefix :: "nat \<Rightarrow> ustring \<Rightarrow> ustring option" where
  "byte_prefix 0 t = Some []"
| "byte_prefix (Suc n) [] = None"
| "byte_prefix (Suc n) (c # cs) =
     (let k = length (utf8_char c)
      in if k \<le> Suc n then map_option ((#) c) (byte_prefix (Suc n - k) cs) else None)"

definition ends_with :: "ustring \<Rightarrow> ustring \<Rightarrow> bool" where
  "ends_with t p \<longleftrightarrow> starts_with (rev t) (rev p)"

definition start_username :: "ustring \<Rightarrow> bool" where
  "start_username u \<longleftrightarrow> 5 \<le> length (as_bytes u) \<and> length (as_bytes u) \<le> 32
     \<and> list_all (\<lambda>c. is_ascii_alphanumeric c \<or> c = 95) u
     \<and> ends_with (ascii_lower u) (lit ''bot'')"

definition private_start_command :: "ustring \<Rightarrow> start_command" where
  "private_start_command t =
     (if t = lit ''/start'' then ExactStart
      else if is_some_and start_username (strip_prefix (lit ''/start@'') t) then ExactStart
      else if is_some_and (\<lambda>p. ascii_lower p = lit ''/start'') (byte_prefix 6 (trim_start t))
      then MalformedStart
      else NotStart)"

definition owner_command_source_is_authorized ::
  "bot_message \<Rightarrow> bool \<Rightarrow> owner_identity \<Rightarrow> bool" where
  "owner_command_source_is_authorized m ordinary_message i =
     (case i of
        Unclaimed \<Rightarrow> False
      | Claimed owner_user owner_chat source _ _ \<Rightarrow>
          ordinary_message \<and> bk_kind (bm_chat m) = ''private'' \<and> 0 < bk_id (bm_chat m)
          \<and> is_some_and (\<lambda>user. us_id user = owner_user
                \<and> (source = LegacyFallback \<or> bk_id (bm_chat m) = owner_chat)) (bm_from m))"

definition owner_reply_snapshot_of :: "bot_message \<Rightarrow> owner_reply_snapshot option" where
  "owner_reply_snapshot_of m =
     map_option (\<lambda>(body, content_type).
       \<lparr>or_body = body, or_content_type = content_type,
        or_source_chat_id = Option.bind (Option.bind (Option.bind (bm_forward_origin m)
          (json_get ''chat'')) (json_get ''id'')) json_as_i64,
        or_source_message_id = Option.bind (Option.bind (bm_forward_origin m)
          (json_get ''message_id'')) json_as_i64\<rparr>)
       (case bm_text m of
          Some t \<Rightarrow> Some (t, ''text'')
        | None \<Rightarrow> map_option (\<lambda>t. (t, ''caption'')) (bm_caption m))"

definition claim_context_of :: "bot_message \<Rightarrow> bool \<Rightarrow> ustring \<Rightarrow> owner_claim_context" where
  "claim_context_of m ordinary_message t =
     \<lparr>oc_ordinary_message = ordinary_message, oc_private_chat = (bk_kind (bm_chat m) = ''private''),
      oc_from_user_id = map_option us_id (bm_from m), oc_chat_id = bk_id (bm_chat m),
      oc_message_id = bm_message_id m, oc_message_date = bm_date m, oc_text = Some t\<rparr>"

text \<open>The part after the claim is excluded: a start command, an owner command, or nothing.\<close>

definition bot_command_event ::
  "bot_message \<Rightarrow> bool \<Rightarrow> owner_identity \<Rightarrow> ustring \<Rightarrow> timestamp \<Rightarrow> raw_business_event" where
  "bot_command_event m ordinary_message i t at =
     (let start = private_start_command t;
          event = (ignored_event at)\<lparr>raw_chat_id := Some (bk_id (bm_chat m)),
            raw_message_id := Some (bm_message_id m)\<rparr>
      in if start = ExactStart \<and> ordinary_message \<and> bk_kind (bm_chat m) = ''private''
            \<and> 0 < bk_id (bm_chat m) \<and> is_some_and (\<lambda>user. 0 < us_id user) (bm_from m)
         then event\<lparr>raw_kind := RawOwnerStart,
                raw_owner_command := Some \<lparr>os_from_user_id = map_option us_id (bm_from m),
                  os_private_chat = True, os_text = lit ''/start'', os_replied_sample = None\<rparr>\<rparr>
         else if start \<noteq> NotStart then ignored_event at
         else if \<not> (starts_with (trim_start t) (lit ''/'')
                     \<and> owner_command_source_is_authorized m ordinary_message i)
         then ignored_event at
         else event\<lparr>raw_kind := RawOwnerCommand,
                raw_owner_command := Some \<lparr>os_from_user_id = map_option us_id (bm_from m),
                  os_private_chat = (bk_kind (bm_chat m) = ''private''), os_text = t,
                  os_replied_sample = Option.bind (bm_reply_to_message m) owner_reply_snapshot_of\<rparr>\<rparr>)"

definition bot_message_event ::
  "parser_env \<Rightarrow> bot_message \<Rightarrow> bool \<Rightarrow> owner_identity \<Rightarrow> parse_error + raw_business_event" where
  "bot_message_event P m ordinary_message i =
     (let t = (case bm_text m of None \<Rightarrow> [] | Some t \<Rightarrow> t);
          claim = parse_owner_claim (px_hex P) (claim_context_of m ordinary_message t)
      in if claim = NotClaim
         then
           (case telegram_timestamp P (bm_date m) of
              Inl e \<Rightarrow> Inl e
            | Inr at \<Rightarrow> Inr (bot_command_event m ordinary_message i t at))
         else
           Inr ((ignored_event (case telegram_timestamp P (bm_date m) of Inl _ \<Rightarrow> px_now P | Inr at \<Rightarrow> at))
             \<lparr>raw_kind := RawOwnerClaim, raw_chat_id := Some (bk_id (bm_chat m)),
              raw_message_id := Some (bm_message_id m), raw_owner_claim := Some claim\<rparr>))"

subsection \<open>The parser\<close>

definition envelope_event ::
  "parser_env \<Rightarrow> owner_identity \<Rightarrow> envelope \<Rightarrow> parse_error + raw_business_event" where
  "envelope_event P i u =
     (case ev_business_connection u of Some cid \<Rightarrow> connection_event P cid | None \<Rightarrow>
      case ev_business_message u of Some m \<Rightarrow> message_event P m (owner_user_id_of i) False | None \<Rightarrow>
      case ev_edited_business_message u of Some m \<Rightarrow> message_event P m (owner_user_id_of i) True | None \<Rightarrow>
      case ev_deleted_business_messages u of Some d \<Rightarrow> Inr (deletion_event P d) | None \<Rightarrow>
      case ev_message u of Some m \<Rightarrow> bot_message_event P m True i | None \<Rightarrow>
      case ev_channel_post u of Some m \<Rightarrow> bot_message_event P m False i | None \<Rightarrow>
        Inr (ignored_event (px_now P)))"

definition parse_update :: "parser_env \<Rightarrow> byte list \<Rightarrow> owner_identity \<Rightarrow> parse_error + parsed_update" where
  "parse_update P body i =
     (case px_decode P body of
        None \<Rightarrow> Inl InvalidJson
      | Some u \<Rightarrow>
          (case envelope_event P i u of
             Inl e \<Rightarrow> Inl e
           | Inr event \<Rightarrow> Inr \<lparr>pd_update_id = ev_update_id u, pd_event = event\<rparr>))"

end
