(* ===== verification/Parser_Safety.thy ===== *)
theory Parser_Safety
  imports Telegram_Parser Owner_Processing
begin

section \<open>What the parser guarantees\<close>

text \<open>
  Entities are cut out of the text exactly, the text of a stranger's message to the bot goes no
  further, and every parsed event carries what the engine demands of its kind.
\<close>

subsection \<open>UTF-16\<close>

text \<open>The Unicode scalar values.\<close>

definition scalar :: "codepoint \<Rightarrow> bool" where
  "scalar c \<longleftrightarrow> c < 0xD800 \<or> 0xE000 \<le> c \<and> c < 0x110000"

definition lead_unit :: "nat \<Rightarrow> bool" where
  "lead_unit u \<longleftrightarrow> \<not> (0xDC00 \<le> u \<and> u < 0xE000)"

lemma encode_utf16_simps [simp]:
  "encode_utf16 [] = []" "encode_utf16 (c # t) = utf16_units c @ encode_utf16 t"
  "encode_utf16 (s @ t) = encode_utf16 s @ encode_utf16 t"
  by (simp_all add: encode_utf16_def)

lemma encode_utf16_Nil [simp]: "utf16_units c \<noteq> []" "encode_utf16 t = [] \<longleftrightarrow> t = []"
  by (simp add: utf16_units_def) (cases t; simp add: utf16_units_def)

lemma utf16_units_cases:
  assumes "scalar c"
  obtains (bmp) "utf16_units c = [c]" "c < 0xD800 \<or> 0xE000 \<le> c" "c < 0x10000"
  | (pair) h l where "utf16_units c = [0xD800 + h, 0xDC00 + l]" "h < 1024" "l < 1024"
      "c = 0x10000 + h * 1024 + l"
proof (cases "c < 0x10000")
  case True
  with assms show ?thesis by (intro bmp) (auto simp: utf16_units_def scalar_def)
next
  case False
  define d where "d = c - 0x10000"
  have c: "c = 0x10000 + d" using False by (simp add: d_def)
  have "d < 1024 * 1024" using assms unfolding c scalar_def by simp
  then have h: "d div 1024 < 1024" by (rule less_mult_imp_div_less)
  have l: "d mod 1024 < 1024" by simp
  have sum: "c = 0x10000 + d div 1024 * 1024 + d mod 1024" unfolding c by presburger
  have "utf16_units c = [0xD800 + d div 1024, 0xDC00 + d mod 1024]"
    using False by (simp add: utf16_units_def d_def)
  from pair [OF this h l sum] show ?thesis .
qed

lemma from_encode: "list_all scalar t \<Longrightarrow> from_utf16 (encode_utf16 t) = Some t"
proof (induction t)
  case (Cons c t)
  then have "scalar c" by simp
  then show ?case
    by (cases rule: utf16_units_cases) (use Cons in auto)
qed simp

lemma encode_from: "from_utf16 us = Some t \<Longrightarrow> \<forall>u \<in> set us. u < 0x10000 \<Longrightarrow> encode_utf16 t = us"
proof (induction us arbitrary: t rule: from_utf16.induct)
  case (2 u us)
  consider (bmp) "u < 0xD800 \<or> 0xE000 \<le> u" | (low) "0xDC00 \<le> u" "u < 0xE000"
    | (high) "0xD800 \<le> u" "u < 0xDC00" by linarith
  then show ?case
  proof cases
    case bmp
    then obtain s where "from_utf16 us = Some s" "t = u # s" using 2(3) by auto
    with bmp 2(1,4) show ?thesis by (simp add: utf16_units_def)
  next
    case low
    with 2(3) show ?thesis by simp
  next
    case high
    then obtain v vs s where v: "us = v # vs" "0xDC00 \<le> v" "v < 0xE000" "from_utf16 vs = Some s"
      and t: "t = (0x10000 + (u - 0xD800) * 1024 + (v - 0xDC00)) # s"
      using 2(3) by (cases us) (auto split: if_splits)
    have s: "encode_utf16 s = vs" using 2(2) [OF _ _ v(1)] high v 2(4) by simp
    obtain a where a: "u = 0xD800 + a" using high by (auto simp: le_iff_add)
    obtain b where b: "v = 0xDC00 + b" "b < 1024" using v(2,3) by (auto simp: le_iff_add)
    show ?thesis using s a b v(1) by (simp add: t utf16_units_def)
  qed
qed simp

lemma from_scalar: "from_utf16 us = Some t \<Longrightarrow> \<forall>u \<in> set us. u < 0x10000 \<Longrightarrow> list_all scalar t"
proof (induction us arbitrary: t rule: from_utf16.induct)
  case (2 u us)
  then show ?case by (cases us) (auto simp: scalar_def split: if_splits)
qed simp

lemma units_small: "list_all scalar t \<Longrightarrow> u \<in> set (encode_utf16 t) \<Longrightarrow> u < 0x10000"
proof (induction t)
  case (Cons c t)
  then have "scalar c" by simp
  then show ?case by (cases rule: utf16_units_cases) (use Cons in auto)
qed simp

lemma units_split:
  assumes "encode_utf16 t = encode_utf16 v @ us" and "list_all scalar t" and "list_all scalar v"
  shows "\<exists>c. t = v @ c"
  using assms
proof (induction v arbitrary: t)
  case (Cons x v)
  obtain c s where t: "t = c # s" using Cons.prems(1) by (cases t) simp_all
  have c: "scalar c" and x: "scalar x" using Cons.prems t by auto
  have eq: "utf16_units c @ encode_utf16 s = utf16_units x @ encode_utf16 v @ us"
    using Cons.prems(1) t by simp
  have "c = x \<and> encode_utf16 s = encode_utf16 v @ us"
    using c
  proof (cases rule: utf16_units_cases)
    case bmp
    from x show ?thesis by (cases rule: utf16_units_cases) (use bmp eq in auto)
  next
    case pair
    from x show ?thesis by (cases rule: utf16_units_cases) (use pair eq in auto)
  qed
  with Cons.IH [of s] Cons.prems t show ?case by auto
qed simp

lemma units_cut:
  assumes "encode_utf16 t = xs @ encode_utf16 v @ ys" and "v \<noteq> []"
    and "list_all scalar t" and "list_all scalar v"
  shows "\<exists>a c. t = a @ v @ c \<and> encode_utf16 a = xs"
  using assms
proof (induction t arbitrary: xs)
  case Nil
  then show ?case by simp
next
  case (Cons t ts)
  have t: "scalar t" using Cons.prems by simp
  show ?case
  proof (cases "xs = []")
    case True
    with units_split [of "t # ts" v ys] Cons.prems obtain c where "t # ts = v @ c" by auto
    then have "t # ts = [] @ v @ c \<and> encode_utf16 [] = xs" using True by simp
    then show ?thesis by blast
  next
    case False
    have "\<exists>zs. xs = utf16_units t @ zs"
      using t
    proof (cases rule: utf16_units_cases)
      case bmp
      with Cons.prems(1) False show ?thesis by (cases xs) auto
    next
      case (pair h l)
      obtain x w where v: "v = x # w" "scalar x" using Cons.prems by (cases v) auto
      have "\<exists>p q. utf16_units x = p # q \<and> p \<noteq> 0xDC00 + l"
        using pair by - (cases rule: utf16_units_cases [OF v(2)]; auto)
      then obtain p q where "encode_utf16 v = p # q" "p \<noteq> 0xDC00 + l" unfolding v by auto
      with pair(1) Cons.prems(1) False show ?thesis
        by (cases xs; cases "tl xs") auto
    qed
    then obtain zs where xs: "xs = utf16_units t @ zs" ..
    with Cons.prems have "encode_utf16 ts = zs @ encode_utf16 v @ ys" by simp
    from Cons.IH [OF this] Cons.prems obtain a c where "ts = a @ v @ c" "encode_utf16 a = zs" by auto
    then have "t # ts = (t # a) @ v @ c \<and> encode_utf16 (t # a) = xs" using xs by simp
    then show ?thesis by blast
  qed
qed

lemma slice_units:
  assumes "utf16_slice t offset len = Some v" and "list_all scalar t"
  shows "list_all scalar v" and "length (encode_utf16 v) = len"
    and "encode_utf16 t = take offset (encode_utf16 t) @ encode_utf16 v @ drop (offset + len) (encode_utf16 t)"
    and "offset + len \<le> length (encode_utf16 t)"
proof -
  let ?us = "encode_utf16 t"
  have run: "from_utf16 (take len (drop offset ?us)) = Some v" and fits: "offset + len \<le> length ?us"
    using assms(1) by (auto simp: utf16_slice_def Let_def split: if_splits)
  have small: "\<forall>u \<in> set (take len (drop offset ?us)). u < 0x10000"
    using units_small [OF assms(2)] by (meson in_set_dropD in_set_takeD)
  note v = encode_from [OF run small]
  show "list_all scalar v" by (rule from_scalar [OF run small])
  show "length (encode_utf16 v) = len" using v fits by simp
  show "offset + len \<le> length ?us" by (rule fits)
  show "?us = take offset ?us @ encode_utf16 v @ drop (offset + len) ?us"
    unfolding v by (simp add: add.commute flip: drop_drop)
qed

text \<open>
  A slice by UTF-16 positions is exact. On a text and a positive length it is the part of the
  text that begins and ends at these positions, when there is one; when a position falls inside
  a character or past the end there is no slice, so an entity is dropped rather than mangled.
\<close>

theorem utf16_slice_exact:
  assumes "list_all scalar t" and "0 < len" and "offset + len \<le> USIZE_MAX"
  shows "utf16_slice t offset len = Some v \<longleftrightarrow>
    (\<exists>a c. t = a @ v @ c \<and> length (encode_utf16 a) = offset \<and> length (encode_utf16 v) = len)"
proof
  assume run: "utf16_slice t offset len = Some v"
  note s = slice_units [OF this assms(1)]
  have "v \<noteq> []" using s(2) assms(2) by auto
  from units_cut [OF s(3) this assms(1) s(1)] obtain a c
    where "t = a @ v @ c" "encode_utf16 a = take offset (encode_utf16 t)" by blast
  moreover from this(2) have "length (encode_utf16 a) = offset" using s(4) by simp
  ultimately show "\<exists>a c. t = a @ v @ c \<and> length (encode_utf16 a) = offset \<and> length (encode_utf16 v) = len"
    using s(2) by blast
next
  assume "\<exists>a c. t = a @ v @ c \<and> length (encode_utf16 a) = offset \<and> length (encode_utf16 v) = len"
  then obtain a c where t: "t = a @ v @ c" "length (encode_utf16 a) = offset" "length (encode_utf16 v) = len"
    by blast
  have "from_utf16 (encode_utf16 v) = Some v" using assms(1) t by (intro from_encode) simp
  then show "utf16_slice t offset len = Some v"
    using assms(3) t by (simp add: utf16_slice_def Let_def)
qed

theorem utf16_slice_exact_witness:
  "utf16_slice [0x1F600, 64, 97, 98, 32] 2 3 = Some [64, 97, 98]
   \<and> utf16_slice [0x1F600, 64, 97, 98, 32] 1 3 \<noteq> Some [64, 97, 98]"
proof -
  have "list_all scalar [0x1F600, 64, 97, 98, 32]" and "(2::nat) + 3 \<le> USIZE_MAX" and "(1::nat) + 3 \<le> USIZE_MAX"
    by (simp_all add: scalar_def USIZE_MAX_def)
  note slice = utf16_slice_exact [OF this(1) _ this(2), of "[64, 97, 98]"]
    utf16_slice_exact [OF this(1) _ this(3), of "[64, 97, 98]"]
  have "[0x1F600, 64, 97, 98, 32] = [0x1F600] @ [64, 97, 98] @ [32::nat]" by simp
  then have "utf16_slice [0x1F600, 64, 97, 98, 32] 2 3 = Some [64, 97, 98]"
    using slice(1) by (fastforce simp: utf16_units_def)
  moreover have "utf16_slice [0x1F600, 64, 97, 98, 32] 1 3 \<noteq> Some [64, 97, 98]"
    using slice(2) by (auto simp: utf16_units_def Cons_eq_append_conv)
  ultimately show ?thesis ..
qed

subsection \<open>The events\<close>

lemma map_option_eq_Some': "map_option f v = Some y \<longleftrightarrow> (\<exists>x. v = Some x \<and> f x = y)"
  by (cases v) auto

text \<open>The envelope decides by its first part; every event comes from one of the constructors.\<close>

lemma parse_cases:
  assumes "parse_update P body i = Inr u"
  obtains (connection) cid e where "pd_event u = e" "connection_event P cid = Inr e"
  | (business) m edited e where "pd_event u = e" "message_event P m (owner_user_id_of i) edited = Inr e"
  | (deletion) d where "pd_event u = deletion_event P d"
  | (bot) m ordinary e where "pd_event u = e" "bot_message_event P m ordinary i = Inr e"
  | (nothing) "pd_event u = ignored_event (px_now P)"
  using assms
  by (auto simp: parse_update_def envelope_event_def split: option.splits sum.splits)

lemma bot_cases:
  assumes "bot_message_event P m ordinary i = Inr e"
  obtains (claim) c at where "c \<noteq> NotClaim"
      "e = (ignored_event at)\<lparr>raw_kind := RawOwnerClaim, raw_chat_id := Some (bk_id (bm_chat m)),
        raw_message_id := Some (bm_message_id m), raw_owner_claim := Some c\<rparr>"
  | (command) t at where "e = bot_command_event m ordinary i t at"
  using assms
  by (auto simp: bot_message_event_def Let_def split: if_splits sum.splits)

lemma command_cases:
  obtains (ignored) "bot_command_event m ordinary i t at = ignored_event at"
  | (start) user where "bm_from m = Some user" "0 < us_id user" "0 < bk_id (bm_chat m)"
      "bot_command_event m ordinary i t at = (ignored_event at)\<lparr>raw_kind := RawOwnerStart,
        raw_chat_id := Some (bk_id (bm_chat m)), raw_message_id := Some (bm_message_id m),
        raw_owner_command := Some \<lparr>os_from_user_id = Some (us_id user), os_private_chat = True,
          os_text = lit ''/start'', os_replied_sample = None\<rparr>\<rparr>"
  | (obeyed) user chat source fl since r where "i = Claimed user chat source fl since"
      "0 < bk_id (bm_chat m)" "source = LegacyFallback \<or> bk_id (bm_chat m) = chat"
      "bot_command_event m ordinary i t at = (ignored_event at)\<lparr>raw_kind := RawOwnerCommand,
        raw_chat_id := Some (bk_id (bm_chat m)), raw_message_id := Some (bm_message_id m),
        raw_owner_command := Some \<lparr>os_from_user_id = Some user, os_private_chat = True,
          os_text = t, os_replied_sample = r\<rparr>\<rparr>"
proof (cases "bot_command_event m ordinary i t at = ignored_event at")
  case False
  then show ?thesis
    using start obeyed
    by (auto simp: bot_command_event_def ignored_event_def Let_def
        owner_command_source_is_authorized_def is_some_and_def
        split: if_splits option.splits owner_identity.splits)
qed (rule ignored)

text \<open>A private message to the bot.\<close>

definition sample_envelope :: "i64 \<Rightarrow> string \<Rightarrow> envelope" where
  "sample_envelope user t =
     \<lparr>ev_update_id = 30, ev_business_connection = None, ev_business_message = None,
      ev_edited_business_message = None, ev_deleted_business_messages = None,
      ev_message = Some (MkBotMessage 70 (Some \<lparr>us_id = user, us_first_name = None,
        us_last_name = None, us_username = None\<rparr>) \<lparr>bk_id = user, bk_kind = ''private''\<rparr> 100
        (Some (lit t)) None None None),
      ev_channel_post = None\<rparr>"

definition sample_parser :: "i64 \<Rightarrow> string \<Rightarrow> parser_env" where
  "sample_parser user t =
     \<lparr>px_decode = (\<lambda>_. Some (sample_envelope user t)), px_timestamp = Some, px_hex = (\<lambda>_. None),
      px_now = 200\<rparr>"

lemma sample_starts:
  "private_start_command (lit ''/help'') = NotStart" "private_start_command (lit ''/start'') = ExactStart"
  by (simp_all add: private_start_command_def strip_prefix_def is_some_and_def trim_start_def
      is_whitespace_def eval_nat_numeral utf8_char_def)

lemma sample_claims:
  "t = ''/help'' \<or> t = ''/start'' \<Longrightarrow> oc_text ctx = Some (lit t) \<Longrightarrow> parse_owner_claim h ctx = NotClaim"
  by (auto simp: parse_owner_claim_def trim_def trim_start_def trim_end_def is_whitespace_def starts_with_def)

lemma sample_parse:
  assumes "t = ''/help'' \<or> t = ''/start''"
  shows "parse_update (sample_parser user t) [] i
    = Inr \<lparr>pd_update_id = 30, pd_event = bot_command_event (MkBotMessage 70 (Some \<lparr>us_id = user,
        us_first_name = None, us_last_name = None, us_username = None\<rparr>)
        \<lparr>bk_id = user, bk_kind = ''private''\<rparr> 100 (Some (lit t)) None None None) True i (lit t) 100\<rparr>"
  using sample_claims [OF assms]
  by (simp add: parse_update_def sample_parser_def sample_envelope_def envelope_event_def
      bot_message_event_def claim_context_of_def telegram_timestamp_def ok_or_def Let_def)

text \<open>
  C38: text reaches the engine only from the owner or from a business chat. A parsed event holds
  a command only when the message came from the published owner, in a private chat, and - unless
  the owner's chat is only a legacy guess - in the owner's chat; a stranger's message leaves at
  most a bare start command. Content is held for messages of business chats alone.
\<close>

theorem parsed_text_is_trusted:
  assumes "parse_update P body i = Inr u"
  shows "case raw_owner_command (pd_event u) of
      None \<Rightarrow> raw_kind (pd_event u) \<noteq> RawOwnerCommand
    | Some s \<Rightarrow>
        raw_content (pd_event u) = None \<and> os_private_chat s
        \<and> (if raw_kind (pd_event u) = RawOwnerCommand
           then (\<exists>user chat source fl since. i = Claimed user chat source fl since
             \<and> os_from_user_id s = Some user
             \<and> (source = LegacyFallback \<or> raw_chat_id (pd_event u) = Some chat))
           else raw_kind (pd_event u) = RawOwnerStart \<and> os_text s = lit ''/start''
             \<and> os_replied_sample s = None)"
  using assms
proof (cases rule: parse_cases)
  case (bot m ordinary e)
  from bot(2) show ?thesis
  proof (cases rule: bot_cases)
    case (command t at)
    then show ?thesis
      by (cases rule: command_cases [of m ordinary i t at]) (auto simp: bot(1) ignored_event_def)
  qed (simp add: bot(1) ignored_event_def)
next
  case (connection cid e)
  from connection(2) show ?thesis unfolding connection(1)
    by (auto simp: connection_event_def ignored_event_def split: if_splits)
next
  case (business m edited e)
  from business(2) show ?thesis unfolding business(1)
    by (auto simp: message_event_def ignored_event_def classify_message_def Let_def
        split: if_splits sum.splits prod.splits)
qed (simp_all add: deletion_event_def ignored_event_def split: prod.split)

theorem parsed_text_is_trusted_witness:
  "\<exists>u s. parse_update (sample_parser 7 ''/help'') [] (Claimed 7 7 Claim None 0) = Inr u
    \<and> raw_kind (pd_event u) = RawOwnerCommand \<and> raw_owner_command (pd_event u) = Some s
    \<and> os_from_user_id s = Some 7 \<and> os_private_chat s"
proof -
  have "case parse_update (sample_parser 7 ''/help'') [] (Claimed 7 7 Claim None 0) of
      Inr u \<Rightarrow> raw_kind (pd_event u) = RawOwnerCommand | _ \<Rightarrow> False"
    by (simp add: sample_parse bot_command_event_def sample_starts [unfolded lit_simps, simplified]
        trim_start_def is_whitespace_def starts_with_def owner_command_source_is_authorized_def
        is_some_and_def Let_def ignored_event_def)
  then obtain u where run: "parse_update (sample_parser 7 ''/help'') [] (Claimed 7 7 Claim None 0) = Inr u"
    and kind: "raw_kind (pd_event u) = RawOwnerCommand"
    by (auto split: sum.splits)
  from parsed_text_is_trusted [OF run] run kind show ?thesis by (auto split: option.splits)
qed

text \<open>
  The parser's side of the contract with the engine. Every event it returns carries what the
  engine demands of its kind: a connection change has an identifier that is not blank, the
  events of a chat have their key, a claim holds a claim, a start satisfies the checks on its
  sender, and a command has its context.
\<close>

theorem parsed_event_complete:
  assumes "parse_update P body i = Inr u"
  shows "case raw_kind (pd_event u) of
      RawConnectionChanged \<Rightarrow> (\<exists>cid. raw_connection_id (pd_event u) = Some cid \<and> trim (lit cid) \<noteq> [])
    | RawOwnerClaim \<Rightarrow> (\<exists>c. raw_owner_claim (pd_event u) = Some c \<and> c \<noteq> NotClaim)
    | RawOwnerStart \<Rightarrow> (\<exists>r. owner_start_context (pd_event u) = Inr r)
    | RawOwnerCommand \<Rightarrow> (\<exists>s c. raw_owner_command (pd_event u) = Some s \<and> raw_chat_id (pd_event u) = Some c)
    | RawIgnored \<Rightarrow> raw_content (pd_event u) = None
    | _ \<Rightarrow> (\<exists>k. event_key (pd_event u) = Inr k)"
  using assms
proof (cases rule: parse_cases)
  case (bot m ordinary e)
  from bot(2) show ?thesis
  proof (cases rule: bot_cases)
    case (command t at)
    then show ?thesis
      by (cases rule: command_cases [of m ordinary i t at])
        (auto simp: bot(1) ignored_event_def owner_start_context_def positive_def)
  qed (simp add: bot(1) ignored_event_def)
next
  case (connection cid e)
  from connection(2) show ?thesis unfolding connection(1)
    by (auto simp: connection_event_def ignored_event_def split: if_splits)
next
  case (business m edited e)
  from business(2) show ?thesis unfolding business(1)
    by (auto simp: message_event_def ignored_event_def classify_message_def Let_def event_key_def
        split: if_splits sum.splits prod.splits)
qed (simp_all add: deletion_event_def ignored_event_def event_key_def split: prod.split)

theorem parsed_event_complete_witness:
  "\<exists>u r. parse_update (sample_parser 7 ''/start'') [] Unclaimed = Inr u
    \<and> raw_kind (pd_event u) = RawOwnerStart \<and> owner_start_context (pd_event u) = Inr r"
proof -
  have "case parse_update (sample_parser 7 ''/start'') [] Unclaimed of
      Inr u \<Rightarrow> raw_kind (pd_event u) = RawOwnerStart | _ \<Rightarrow> False"
    by (simp add: sample_parse bot_command_event_def sample_starts [unfolded lit_simps, simplified]
        trim_start_def is_whitespace_def starts_with_def owner_command_source_is_authorized_def
        is_some_and_def Let_def ignored_event_def)
  then obtain u where run: "parse_update (sample_parser 7 ''/start'') [] Unclaimed = Inr u"
    and kind: "raw_kind (pd_event u) = RawOwnerStart"
    by (auto split: sum.splits)
  from parsed_event_complete [OF run] run kind show ?thesis by auto
qed

end
