(* ===== verification/Webhook.thy ===== *)
theory Webhook
  imports Engine_Correctness Parser_Safety
begin

section \<open>The webhook\<close>

text \<open>
  Models \<open>src/telegram/webhook.rs\<close> on top of the worker: the secret of a request, the parser, and
  the answer Telegram gets once the worker returned its receipt. SHA-256 is a parameter; the
  router and its limit on the body belong to the HTTP framework, and the worker is running.
\<close>

record webhook_request =
  wr_secret :: "byte list option" \<comment> \<open>the secret header, when it is there and readable\<close>
  wr_body :: "byte list"

datatype webhook_status = StatusOk | StatusBadRequest | StatusForbidden | StatusServiceUnavailable

definition secret_is_valid ::
  "(byte list \<Rightarrow> byte list) \<Rightarrow> byte list option \<Rightarrow> byte list \<Rightarrow> bool" where
  "secret_is_valid sha256 header expected \<longleftrightarrow>
     (case header of None \<Rightarrow> False | Some provided \<Rightarrow> sha256 expected = sha256 provided)"

text \<open>\<open>ProcessingHandle::submit\<close>: the receipt of the worker, or one error for every failure.\<close>

definition submit ::
  "('d, 'v) engine_services \<Rightarrow> parsed_update \<Rightarrow> ('d, 'v) world \<Rightarrow> record_receipt option \<times> ('d, 'v) world" where
  "submit S update w =
     (case process S (pd_update_id update) (pd_event update) w of
        (Inl _, u) \<Rightarrow> (None, u) | (Inr receipt, u) \<Rightarrow> (Some receipt, u))"

definition handle_webhook ::
  "(byte list \<Rightarrow> byte list) \<Rightarrow> byte list \<Rightarrow> parser_env \<Rightarrow> owner_identity \<Rightarrow> ('d, 'v) engine_services
   \<Rightarrow> webhook_request \<Rightarrow> ('d, 'v) world \<Rightarrow> webhook_status \<times> ('d, 'v) world" where
  "handle_webhook sha256 secret P i S request w =
     (if \<not> secret_is_valid sha256 (wr_secret request) secret then (StatusForbidden, w)
      else
        (case parse_update P (wr_body request) i of
           Inl _ \<Rightarrow> (StatusBadRequest, w)
         | Inr update \<Rightarrow>
             (case submit S update w of
                (Some _, u) \<Rightarrow> (StatusOk, u) | (None, u) \<Rightarrow> (StatusServiceUnavailable, u))))"

subsection \<open>The log while an update is processed\<close>

definition log_ids :: "database \<Rightarrow> i64 set" where
  "log_ids d = pu_update_id ` set (updates d)"

definition log_grows :: "database \<Rightarrow> database \<Rightarrow> bool" where
  "log_grows d t \<longleftrightarrow> log_ids d \<subseteq> log_ids t"

lemma log_ids_find: "uid \<in> log_ids d \<longleftrightarrow> find_update uid d \<noteq> None"
  by (auto simp: log_ids_def find_update_def find_row_None_iff)

lemma log_same_grows: "same bound_log d t \<Longrightarrow> log_grows d t"
  by (simp add: same_def bound_log_def log_grows_def log_ids_def)

interpretation growing: step_relation log_grows
  by unfold_locales (auto simp: log_grows_def)

lemmas growing_stays = stays_mono [OF _ log_same_grows]

lemma growing_marks:
  "stays log_grows (mark_applied uid now)" "stays log_grows (mark_connection_trigger_applied uid now)"
proof -
  have ids: "pu_update_id ` set (update_where p f us) = pu_update_id ` set us"
    if "\<And>u. pu_update_id (f u) = pu_update_id u" for p f and us :: "stored_event update_row list"
  proof -
    have "map pu_update_id (update_where p f us) = map pu_update_id us"
      using that by (auto simp: update_where_def)
    from arg_cong [OF this, of set] show ?thesis by simp
  qed
  show *: "stays log_grows (mark_applied uid now)"
    by (rule staysI) (auto simp: log_grows_def log_ids_def mark_applied_def Let_def ids split: if_splits)
  show "stays log_grows (mark_connection_trigger_applied uid now)"
    by (rule staysI) (rule staysD [OF * mark_trigger_Inr])
qed

interpretation growing_engine: engine_relation log_grows "same updates"
proof (intro engine_relation.intro engine_relation_axioms.intro engine_writer.intro
    connection_writer.intro connection_writer_axioms.intro engine_writer_axioms.intro)
  show "step_relation log_grows" by (rule growing.step_relation_axioms)
qed (rule bound_frames [THEN growing_stays] bound_promote [THEN growing_stays]
    bound_audits [THEN growing_stays] bound_execute [THEN growing_stays] growing_marks
    bound_connections.delete_stays [THEN log_same_grows]
  | auto simp: same_def log_grows_def log_ids_def kept_defs delete_connections_def Let_def)+

lemma growing_apply: "stays log_grows (apply_recorded_event_tx (lifecycle_apply rfc) now uid)"
  unfolding apply_recorded_event_tx_def
  by (auto intro!: growing.stays_basic growing_stays [OF bound_handler.stays_lifecycle]
      growing_marks split: stored_event.split)

lemma record_known:
  assumes "record_prepared_event_tx rfc e d = Inr (r, t)"
  shows "pe_update_id e \<in> log_ids t"
proof (cases r)
  case ReceiptRecorded
  with record_tx_recorded(4) [of rfc e d t] assms show ?thesis
    by (simp add: log_ids_def update_row_of_def)
next
  case DuplicateApplied
  with record_applied [of rfc e d t] assms show ?thesis
    by (auto simp: log_ids_find status_of_def)
next
  case DuplicateRecorded
  have "log_grows d t" by (rule staysD [OF growing_engine.stays_record assms])
  moreover have "status_of (pe_update_id e) d = Some Recorded"
    using record_duplicate [of rfc e d t] DuplicateRecorded assms by simp
  then have "pe_update_id e \<in> log_ids d" unfolding log_ids_find by (auto simp: status_of_def)
  ultimately show ?thesis by (auto simp: log_grows_def)
qed

definition holds :: "i64 \<Rightarrow> ('d, 'v) world \<Rightarrow> bool" where
  "holds uid w \<longleftrightarrow> others_in (same updates) w \<and> uid \<in> log_ids (w_db w)"

lemma drives_holds: "drives (same updates) log_grows m \<Longrightarrow> ends (holds uid) m (\<lambda>_. holds uid)"
  using drivesD [of "same updates" log_grows m] by (fastforce simp: ends_def holds_def log_grows_def)

lemma read_update_id:
  "read_tx S uid raw p d = Inr ((n, e, p'), t) \<Longrightarrow> pe_update_id e = uid"
  unfolding read_tx_def by (auto simp: and_then_Inr_iff ret_Inr_iff elim: prepare_Inr)

lemma business_known:
  "ends (others_in (same updates)) (process_business S uid raw) (\<lambda>_. holds uid)"
  unfolding process_business_def
proof (rule ends_then [OF ends_look [where Q = "\<lambda>_. others_in (same updates)"]], goal_cases)
  case (2 p)
  have o: "others_in (same updates) (others_write w)" if "others_in (same updates) w" for w :: "('a, 'b) world"
    using later_others [OF that] by (simp add: later_def)
  show ?case
  proof (rule ends_then [OF ends_peek [where Q = "\<lambda>(_, e, _) w. others_in (same updates) w \<and> pe_update_id e = uid"]],
      goal_cases)
    case (3 x)
    obtain notice e p' where x: "x = (notice, e, p')" by (cases x) auto
    show ?case unfolding x prod.case
    proof (rule ends_then [OF ends_set_engine [where Q = "\<lambda>_ w. others_in (same updates) w \<and> pe_update_id e = uid"]],
        simp add: others_in_def, rule ends_then [OF ends_transact [where Q = "\<lambda>_. holds uid"]], goal_cases)
      case (2 w r t)
      then show ?case by (auto simp: map_err_Inr_iff holds_def others_in_def dest: record_known)
    next
      case (3 _ r)
      show ?case
        by (intro drives_holds growing_engine.drives_rules growing_engine.drives_transact
            growing_engine.drives_trigger growing_engine.drives_publish growing.stays_map_err growing_apply)
    qed (simp_all add: o)
  qed (use o in \<open>auto dest: read_update_id\<close>)
qed simp

lemma process_known:
  assumes "process S uid raw w = (Inr receipt, u)" and "others_in (same updates) w"
  shows "uid \<in> log_ids (w_db u)"
proof -
  have handled: "uid \<in> log_ids (w_db u)" if "handled ty k uid at receipt w u" for ty k at
    using that by (auto simp: handled_def log_ids_def redacted_row_def find_update_def find_row_None_iff split: if_splits)
  show ?thesis
    using assms claim_handled [OF _ assms(2), of S uid raw receipt u]
      start_handled [OF _ assms(2), of S uid raw receipt u]
      command_handled [OF _ assms(2), of S uid raw receipt u] business_known [of S uid raw]
    unfolding process_def ends_def holds_def by (auto split: if_splits dest!: handled)
qed

text \<open>
  C39: an update is acknowledged only when it is safe in the log. Telegram gets the status OK only
  for a request that carried the secret and parsed, after the update with this identifier was
  recorded; otherwise it will deliver the update again. A request without the secret, or one
  that does not parse, changes nothing at all.
\<close>

theorem acknowledged_is_recorded:
  assumes "list_all (\<lambda>f. \<forall>d. updates (f d) = updates d) (w_others w)"
    and "handle_webhook sha256 secret P i S request w = (status, u)"
  shows "case status of
      StatusOk \<Rightarrow> (\<exists>provided update. wr_secret request = Some provided \<and> sha256 provided = sha256 secret
        \<and> parse_update P (wr_body request) i = Inr update
        \<and> find_update (pd_update_id update) (w_db u) \<noteq> None)
    | StatusServiceUnavailable \<Rightarrow> (\<exists>update e. parse_update P (wr_body request) i = Inr update
        \<and> process S (pd_update_id update) (pd_event update) w = (Inl e, u))
    | _ \<Rightarrow> u = w"
proof -
  have "others_in (same updates) w" using assms(1) by (simp add: others_in_def same_def)
  note known = process_known [OF _ this, unfolded log_ids_find]
  show ?thesis
    using assms(2) known
    by (auto simp: handle_webhook_def submit_def secret_is_valid_def
        split: if_splits sum.splits prod.splits option.splits)
qed

theorem acknowledged_is_recorded_witness:
  "\<exists>u. handle_webhook (\<lambda>b. b) [1] (sample_parser 7 ''/start'') Unclaimed sample_run_services
      \<lparr>wr_secret = Some [1], wr_body = []\<rparr> (idle_world unclaimed_db) = (StatusOk, u)
    \<and> find_update 30 (w_db u) \<noteq> None"
proof -
  obtain u where run: "process sample_run_services 30 sample_start (idle_world unclaimed_db)
      = (Inr ReceiptRecorded, u)" using sample_start_run by blast
  have event: "parse_update (sample_parser 7 ''/start'') [] Unclaimed
      = Inr \<lparr>pd_update_id = 30, pd_event = sample_start\<rparr>"
    by (simp add: sample_parse bot_command_event_def sample_starts [unfolded lit_simps, simplified]
        is_some_and_def Let_def ignored_event_def sample_start_def sample_raw_def)
  have "handle_webhook (\<lambda>b. b) [1] (sample_parser 7 ''/start'') Unclaimed sample_run_services
      \<lparr>wr_secret = Some [1], wr_body = []\<rparr> (idle_world unclaimed_db) = (StatusOk, u)"
    by (simp add: handle_webhook_def secret_is_valid_def submit_def event run)
  with acknowledged_is_recorded [OF _ this] event show ?thesis by simp
qed

end
