(* ===== verification/Installation_Keys.thy ===== *)
theory Installation_Keys
  imports Arithmetic_Challenge
begin

section \<open>The keys of an installation\<close>

text \<open>
  Models \<open>src/installation.rs\<close>: every secret of an installation is derived from its master seed
  with HKDF, each under a label of its own. HKDF, SHA-256 and hexadecimal coding are parameters.
\<close>

definition LEGACY_CHALLENGE_HMAC_KEY_VERSION :: i64 where
  "LEGACY_CHALLENGE_HMAC_KEY_VERSION = 0"

definition CURRENT_KEY_VERSION :: i64 where
  "CURRENT_KEY_VERSION = 1"

definition MASTER_SEED_LEN :: nat where
  "MASTER_SEED_LEN = 32"

definition DERIVED_KEY_LEN :: nat where
  "DERIVED_KEY_LEN = 32"

definition HKDF_SALT_V1 :: "byte list" where
  "HKDF_SALT_V1 = as_bytes (lit ''chathygiene.hkdf-sha256.v1'')"

definition WEBHOOK_INFO_PREFIX_V1 :: "byte list" where
  "WEBHOOK_INFO_PREFIX_V1 = as_bytes (lit ''chathygiene.telegram-webhook-secret.v1'' @ [0])"

definition CHALLENGE_INFO_V1 :: "byte list" where
  "CHALLENGE_INFO_V1 = as_bytes (lit ''chathygiene.arithmetic-challenge-hmac.v1'')"

definition OWNER_CLAIM_INFO_V1 :: "byte list" where
  "OWNER_CLAIM_INFO_V1 = as_bytes (lit ''chathygiene.owner-claim-token.v1'')"

definition SEED_CHECKSUM_DOMAIN_V1 :: "byte list" where
  "SEED_CHECKSUM_DOMAIN_V1 = as_bytes (lit ''chathygiene.master-seed-checksum.v1'')"

record bot_independent_keys =
  ik_key_version :: i64
  ik_challenge_hmac_key :: "byte list"
  ik_owner_claim_token :: "byte list"

datatype installation_key_error =
    UnsupportedVersion i64
  | InvalidSeedLength
  | InvalidBotId
  | InvalidOutputLength

text \<open>\<open>hkdf salt seed info n\<close> is \<open>n\<close> bytes of output, or nothing when \<open>n\<close> is too large.\<close>

record key_services =
  hkdf_expand :: "byte list \<Rightarrow> byte list \<Rightarrow> byte list \<Rightarrow> nat \<Rightarrow> byte list option"
  sha256_digest :: "byte list \<Rightarrow> byte list"
  hex_text :: "byte list \<Rightarrow> byte list"

definition validate_version :: "i64 \<Rightarrow> installation_key_error + unit" where
  "validate_version key_version =
     (if key_version \<noteq> CURRENT_KEY_VERSION then Inl (UnsupportedVersion key_version) else Inr ())"

definition validate_version_and_seed :: "i64 \<Rightarrow> byte list \<Rightarrow> installation_key_error + unit" where
  "validate_version_and_seed key_version seed =
     (case validate_version key_version of
        Inl e \<Rightarrow> Inl e
      | Inr _ \<Rightarrow> if length seed \<noteq> MASTER_SEED_LEN then Inl InvalidSeedLength else Inr ())"

definition derive_bot_independent_keys ::
  "key_services \<Rightarrow> i64 \<Rightarrow> byte list \<Rightarrow> installation_key_error + bot_independent_keys" where
  "derive_bot_independent_keys K key_version seed =
     (case validate_version_and_seed key_version seed of
        Inl e \<Rightarrow> Inl e
      | Inr _ \<Rightarrow>
          (case hkdf_expand K HKDF_SALT_V1 seed CHALLENGE_INFO_V1 DERIVED_KEY_LEN of
             None \<Rightarrow> Inl InvalidOutputLength
           | Some challenge \<Rightarrow>
               (case hkdf_expand K HKDF_SALT_V1 seed OWNER_CLAIM_INFO_V1 DERIVED_KEY_LEN of
                  None \<Rightarrow> Inl InvalidOutputLength
                | Some owner_claim \<Rightarrow>
                    Inr \<lparr>ik_key_version = key_version, ik_challenge_hmac_key = challenge,
                         ik_owner_claim_token = owner_claim\<rparr>)))"

text \<open>\<open>u64::to_be_bytes\<close>.\<close>

definition to_be_bytes :: "nat \<Rightarrow> byte list" where
  "to_be_bytes n = map (\<lambda>k. of_nat (n div 256 ^ k mod 256)) (rev [0..<8])"

definition webhook_info :: "i64 \<Rightarrow> byte list" where
  "webhook_info bot_id = WEBHOOK_INFO_PREFIX_V1 @ to_be_bytes (nat bot_id)"

definition derive_webhook_secret ::
  "key_services \<Rightarrow> i64 \<Rightarrow> byte list \<Rightarrow> i64 \<Rightarrow> installation_key_error + byte list" where
  "derive_webhook_secret K key_version seed bot_id =
     (case validate_version_and_seed key_version seed of
        Inl e \<Rightarrow> Inl e
      | Inr _ \<Rightarrow>
          if bot_id \<le> 0 then Inl InvalidBotId
          else
            (case hkdf_expand K HKDF_SALT_V1 seed (webhook_info bot_id) DERIVED_KEY_LEN of
               None \<Rightarrow> Inl InvalidOutputLength
             | Some secret \<Rightarrow> Inr (hex_text K secret)))"

definition master_seed_checksum ::
  "key_services \<Rightarrow> i64 \<Rightarrow> byte list \<Rightarrow> installation_key_error + byte list" where
  "master_seed_checksum K key_version seed =
     (case validate_version key_version of
        Inl e \<Rightarrow> Inl e
      | Inr _ \<Rightarrow>
          if length seed \<noteq> MASTER_SEED_LEN then Inl InvalidSeedLength
          else Inr (sha256_digest K (SEED_CHECKSUM_DOMAIN_V1 @ seed)))"

subsection \<open>Separation of the labels\<close>

lemma to_be_bytes_inj:
  assumes "to_be_bytes m = to_be_bytes n" and "m < 2 ^ 64" and "n < 2 ^ 64"
  shows "m = n"
proof -
  have digit: "m div 256 ^ k mod 256 = n div 256 ^ k mod 256" if "k < 8" for k
  proof -
    have "(of_nat (m div 256 ^ k mod 256) :: byte) = of_nat (n div 256 ^ k mod 256)"
      using assms(1) that by (simp add: to_be_bytes_def)
    then have "unat (of_nat (m div 256 ^ k mod 256) :: byte) = unat (of_nat (n div 256 ^ k mod 256) :: byte)"
      by simp
    then show ?thesis by (simp add: unat_of_nat)
  qed
  have "m mod 256 ^ k = n mod 256 ^ k" if "k \<le> 8" for k
    using that
  proof (induction k)
    case (Suc k)
    then show ?case using digit [of k] by (simp add: mod_mult2_eq mult.commute [of _ "256 ^ k"])
  qed simp
  from this [of 8] assms(2,3) show ?thesis by simp
qed

lemma length_as_bytes_ascii:
  assumes "\<forall>c \<in> set t. c < 128"
  shows "length (as_bytes t) = length t"
proof -
  have "length (utf8_char c) = 1" if "c < 128" for c using that by (simp add: utf8_char_def)
  then show ?thesis using assms by (induction t) (simp_all add: as_bytes_def)
qed

lemma length_to_be_bytes [simp]: "length (to_be_bytes n) = 8"
  by (simp add: to_be_bytes_def)

lemma label_lengths:
  "length CHALLENGE_INFO_V1 = 40" "length OWNER_CLAIM_INFO_V1 = 32" "length (webhook_info b) = 47"
  by (simp_all add: CHALLENGE_INFO_V1_def OWNER_CLAIM_INFO_V1_def webhook_info_def
      WEBHOOK_INFO_PREFIX_V1_def length_as_bytes_ascii)

text \<open>
  No two secrets of an installation come from the same label: the labels of the challenge key,
  of the claim token and of the webhook secret of any bot are pairwise different, and the labels
  of two bots are different.
\<close>

lemma labels_separate:
  assumes "0 < b" and "b < 2 ^ 63" and "0 < c" and "c < 2 ^ 63"
  shows "distinct [CHALLENGE_INFO_V1, OWNER_CLAIM_INFO_V1, webhook_info b]
    \<and> (webhook_info b = webhook_info c \<longrightarrow> b = c)"
proof -
  have "nat b < 2 ^ 64" "nat c < 2 ^ 64" using assms by simp_all
  then have "webhook_info b = webhook_info c \<longrightarrow> b = c"
    using to_be_bytes_inj [of "nat b" "nat c"] assms by (auto simp: webhook_info_def)
  moreover have "x \<noteq> y" if "length x \<noteq> length y" for x y :: "byte list" using that by blast
  then have "CHALLENGE_INFO_V1 \<noteq> OWNER_CLAIM_INFO_V1" "CHALLENGE_INFO_V1 \<noteq> webhook_info b"
    "OWNER_CLAIM_INFO_V1 \<noteq> webhook_info b"
    by (simp_all add: label_lengths)
  ultimately show ?thesis by simp
qed

end
