(* ===== verification/Challenge_Upgrade.thy ===== *)
theory Challenge_Upgrade
  imports Event_Preparer Installation_Keys
begin

section \<open>The upgrade of challenge tags\<close>

text \<open>
  Models \<open>src/verification/upgrade.rs\<close>: at startup every open challenge that an older version
  signed is signed again with the installation's key, in one transaction, from its stored
  expression. Nobody in the middle of a challenge notices.
\<close>

datatype challenge_key_upgrade_error =
    UpgradeStorage storage_error
  | UpgradeExpression
  | WrongSignerVersion i64
  | UnknownSourceVersion i64

type_synonym 'a uop = "(database, challenge_key_upgrade_error, 'a) op"

definition upgrade_challenge ::
  "crypto \<Rightarrow> 'r arithmetic_verifier \<Rightarrow> challenge_hmac_upgrade_record \<Rightarrow> unit uop" where
  "upgrade_challenge cr v challenge =
     (if hu_hmac_key_version challenge \<noteq> LEGACY_CHALLENGE_HMAC_KEY_VERSION
      then fail (UnknownSourceVersion (hu_hmac_key_version challenge))
      else
        (case answer_hmac_for_expression cr v (hu_expression challenge) of
           Inl _ \<Rightarrow> fail UpgradeExpression
         | Inr hmac \<Rightarrow>
             map_err UpgradeStorage
               (replace_challenge_hmac (hu_id challenge) (hu_hmac_key_version challenge)
                  CURRENT_KEY_VERSION hmac)))"

definition upgrade_active_challenge_hmacs_tx :: "crypto \<Rightarrow> 'r arithmetic_verifier \<Rightarrow> nat uop" where
  "upgrade_active_challenge_hmacs_tx cr v =
     and_then (map_err UpgradeStorage (active_challenges_not_on_version CURRENT_KEY_VERSION)) (\<lambda>challenges.
     and_then (for_each (upgrade_challenge cr v) challenges) (\<lambda>_. ret (length challenges)))"

definition upgrade_active_challenge_hmacs ::
  "crypto \<Rightarrow> 'r arithmetic_verifier \<Rightarrow> database \<Rightarrow> (challenge_key_upgrade_error + nat) \<times> database" where
  "upgrade_active_challenge_hmacs cr v d =
     (if av_key_version v \<noteq> CURRENT_KEY_VERSION then (Inl (WrongSignerVersion (av_key_version v)), d)
      else commit (upgrade_active_challenge_hmacs_tx cr v) d)"

subsection \<open>The rows it changes\<close>

definition outdated :: "challenge_row \<Rightarrow> bool" where
  "outdated r \<longleftrightarrow> open_challenge r \<and> ch_hmac_key_version r \<noteq> CURRENT_KEY_VERSION"

definition upgradable :: "crypto \<Rightarrow> 'r arithmetic_verifier \<Rightarrow> challenge_row \<Rightarrow> bool" where
  "upgradable cr v r \<longleftrightarrow> ch_hmac_key_version r = LEGACY_CHALLENGE_HMAC_KEY_VERSION
     \<and> (\<exists>h. answer_hmac_for_expression cr v (ch_expression r) = Inr h)"

definition signed_again :: "crypto \<Rightarrow> 'r arithmetic_verifier \<Rightarrow> challenge_row \<Rightarrow> challenge_row" where
  "signed_again cr v r =
     (case answer_hmac_for_expression cr v (ch_expression r) of
        Inl _ \<Rightarrow> r
      | Inr h \<Rightarrow> r\<lparr>ch_answer_hmac := h, ch_hmac_key_version := CURRENT_KEY_VERSION\<rparr>)"

definition record_of :: "challenge_row \<Rightarrow> challenge_hmac_upgrade_record" where
  "record_of r = \<lparr>hu_id = ch_id r, hu_expression = ch_expression r, hu_hmac_key_version = ch_hmac_key_version r\<rparr>"

lemma signed_again_simps [simp]: "ch_id (signed_again cr v r) = ch_id r"
  by (simp add: signed_again_def split: sum.split)

lemma upgrade_one:
  assumes "distinct (map ch_id (challenges d))" and "r \<in> set (challenges d)" and "open_challenge r"
    and "upgradable cr v r"
  shows "upgrade_challenge cr v (record_of r) d
    = Inr ((), d\<lparr>challenges := update_where (\<lambda>q. ch_id q = ch_id r) (signed_again cr v) (challenges d)\<rparr>)"
proof -
  obtain h where h: "answer_hmac_for_expression cr v (ch_expression r) = Inr h"
    and version: "ch_hmac_key_version r = LEGACY_CHALLENGE_HMAC_KEY_VERSION"
    using assms(4) by (auto simp: upgradable_def)
  let ?here = "\<lambda>q. ch_id q = ch_id r \<and> open_challenge q \<and> ch_hmac_key_version q = ch_hmac_key_version r"
  have one: "count_where ?here (challenges d) = 1"
    by (rule count_where_1I [OF assms(1) _ assms(2)]) (use assms(3) in auto)
  have "update_where ?here (\<lambda>q. q\<lparr>ch_answer_hmac := h, ch_hmac_key_version := CURRENT_KEY_VERSION\<rparr>) (challenges d)
    = update_where (\<lambda>q. ch_id q = ch_id r) (signed_again cr v) (challenges d)"
  proof -
    have "q = r" if "q \<in> set (challenges d)" "ch_id q = ch_id r" for q
      using assms(1,2) that by (metis distinct_map inj_onD)
    note same = this
    show ?thesis
      unfolding update_where_def
    proof (intro map_cong refl)
      fix x
      assume x: "x \<in> set (challenges d)"
      show "(if ?here x then x\<lparr>ch_answer_hmac := h, ch_hmac_key_version := CURRENT_KEY_VERSION\<rparr> else x)
          = (if ch_id x = ch_id r then signed_again cr v x else x)"
        using same [OF x] assms(3) h by (cases "ch_id x = ch_id r") (simp_all add: signed_again_def)
    qed
  qed
  with one version h show ?thesis
    by (simp add: upgrade_challenge_def record_of_def replace_challenge_hmac_def Let_def map_err_def)
qed

lemma upgrade_all:
  assumes "distinct (map ch_id (challenges d))" and "distinct (map ch_id rs)" and "set rs \<subseteq> set (challenges d)"
    and "\<forall>r \<in> set rs. open_challenge r \<and> upgradable cr v r"
  shows "for_each (upgrade_challenge cr v) (map record_of rs) d
    = Inr ((), d\<lparr>challenges := update_where (\<lambda>q. ch_id q \<in> ch_id ` set rs) (signed_again cr v) (challenges d)\<rparr>)"
  using assms
proof (induction rs arbitrary: d)
  case Nil
  then show ?case by (simp add: ret_def update_where_def)
next
  case (Cons r rs)
  let ?d = "d\<lparr>challenges := update_where (\<lambda>q. ch_id q = ch_id r) (signed_again cr v) (challenges d)\<rparr>"
  have ids: "map ch_id (challenges ?d) = map ch_id (challenges d)" by (simp add: map_update_where)
  have "s \<in> set (challenges ?d)" if "s \<in> set rs" for s
  proof -
    have "ch_id s \<noteq> ch_id r" using Cons.prems(2) that by (force simp: image_iff)
    with Cons.prems(3) that show ?thesis by (auto simp: in_update_where_iff)
  qed
  then have "for_each (upgrade_challenge cr v) (map record_of rs) ?d = Inr ((), ?d\<lparr>challenges :=
      update_where (\<lambda>q. ch_id q \<in> ch_id ` set rs) (signed_again cr v) (challenges ?d)\<rparr>)"
    using Cons.prems ids by (intro Cons.IH) auto
  moreover have "update_where (\<lambda>q. ch_id q \<in> ch_id ` set rs) (signed_again cr v)
      (update_where (\<lambda>q. ch_id q = ch_id r) (signed_again cr v) (challenges d))
    = update_where (\<lambda>q. ch_id q \<in> ch_id ` set (r # rs)) (signed_again cr v) (challenges d)"
    using Cons.prems(2) by (auto simp: update_where_def)
  ultimately show ?case
    using upgrade_one [of d r cr v] Cons.prems by (simp add: and_then_run)
qed

lemma upgrade_fails:
  assumes "distinct (map ch_id (challenges d))" and "distinct (map ch_id rs)" and "set rs \<subseteq> set (challenges d)"
    and "\<forall>r \<in> set rs. outdated r" and "\<exists>r \<in> set rs. \<not> upgradable cr v r"
  shows "\<exists>e. for_each (upgrade_challenge cr v) (map record_of rs) d = Inl e"
  using assms
proof (induction rs arbitrary: d)
  case (Cons r rs)
  show ?case
  proof (cases "upgradable cr v r")
    case False
    then have "\<exists>e. upgrade_challenge cr v (record_of r) d = Inl e"
      by (auto simp: upgrade_challenge_def record_of_def upgradable_def fail_def split: sum.split)
    then show ?thesis by (auto simp: and_then_def)
  next
    case True
    let ?d = "d\<lparr>challenges := update_where (\<lambda>q. ch_id q = ch_id r) (signed_again cr v) (challenges d)\<rparr>"
    have ids: "map ch_id (challenges ?d) = map ch_id (challenges d)" by (simp add: map_update_where)
    have "s \<in> set (challenges ?d)" if "s \<in> set rs" for s
    proof -
      have "ch_id s \<noteq> ch_id r" using Cons.prems(2) that by (force simp: image_iff)
      with Cons.prems(3) that show ?thesis by (auto simp: in_update_where_iff)
    qed
    then have "\<exists>e. for_each (upgrade_challenge cr v) (map record_of rs) ?d = Inl e"
      using Cons.prems ids True by (intro Cons.IH) auto
    moreover have "upgrade_challenge cr v (record_of r) d = Inr ((), ?d)"
      using Cons.prems True by (intro upgrade_one) (auto simp: outdated_def)
    ultimately show ?thesis by (auto simp: and_then_run)
  qed
qed simp

lemma upgrade_run:
  assumes "av_key_version v = CURRENT_KEY_VERSION"
  shows "upgrade_active_challenge_hmacs cr v d = (let rs = sort_key ch_id (filter outdated (challenges d))
      in case for_each (upgrade_challenge cr v) (map record_of rs) d of
           Inl e \<Rightarrow> (Inl e, d) | Inr (x, t) \<Rightarrow> (Inr (length rs), t))"
proof -
  have "active_challenges_not_on_version CURRENT_KEY_VERSION d
      = Inr (map record_of (sort_key ch_id (filter outdated (challenges d))), d)"
    by (simp add: active_challenges_not_on_version_def gets_def record_of_def [abs_def] outdated_def [abs_def])
  then show ?thesis
    using assms
    by (auto simp: upgrade_active_challenge_hmacs_def upgrade_active_challenge_hmacs_tx_def and_then_def
        map_err_def commit_def ret_def Let_def split: sum.split)
qed

lemma outdated_rows:
  fixes d :: database
  assumes "db_ok d"
  defines "rs \<equiv> sort_key ch_id (filter outdated (challenges d))"
  shows "distinct (map ch_id (challenges d))" and "distinct (map ch_id rs)"
    and "set rs \<subseteq> set (challenges d)" and "\<forall>r \<in> set rs. outdated r"
    and "q \<in> set (challenges d) \<Longrightarrow> ch_id q \<in> ch_id ` set rs \<longleftrightarrow> outdated q"
proof -
  show ids: "distinct (map ch_id (challenges d))" using assms(1) by (simp add: db_ok_def challenges_ok_def)
  then have "distinct (map ch_id (filter outdated (challenges d)))" by (rule distinct_map_filter)
  then show "distinct (map ch_id rs)" unfolding rs_def by (simp add: distinct_map)
  show "ch_id q \<in> ch_id ` set rs \<longleftrightarrow> outdated q" if "q \<in> set (challenges d)"
    using ids that by (auto simp: rs_def distinct_map dest: inj_onD)
qed (auto simp: rs_def)

lemma upgrade_success:
  assumes "db_ok d" and "av_key_version v = CURRENT_KEY_VERSION"
    and "\<forall>r \<in> set (challenges d). outdated r \<longrightarrow> upgradable cr v r"
  shows "upgrade_active_challenge_hmacs cr v d = (Inr (count_where outdated (challenges d)),
    d\<lparr>challenges := map (\<lambda>r. if outdated r then signed_again cr v r else r) (challenges d)\<rparr>)"
proof -
  note rows = outdated_rows [OF assms(1)]
  define rs where "rs = sort_key ch_id (filter outdated (challenges d))"
  have "\<forall>r \<in> set rs. open_challenge r \<and> upgradable cr v r"
    using assms(3) by (auto simp: rs_def outdated_def)
  note all = upgrade_all [OF rows(1-3) this [unfolded rs_def]]
  have "update_where (\<lambda>q. ch_id q \<in> ch_id ` set rs) (signed_again cr v) (challenges d)
      = map (\<lambda>r. if outdated r then signed_again cr v r else r) (challenges d)"
    unfolding update_where_def using rows(5) by (intro map_cong refl) (simp add: rs_def)
  with all upgrade_run [OF assms(2), of cr d] show ?thesis
    by (simp add: rs_def [symmetric] Let_def) (simp add: rs_def count_where_def)
qed

text \<open>
  The upgrade is exact. With a current signer it succeeds if and only if every outdated open
  challenge is of the legacy version and has a well-formed expression; then these challenges
  carry the tag of their expression under the new key and its version, nothing else is changed,
  and a second upgrade has nothing left to do. Otherwise the database is as it was.
\<close>

theorem upgrade_exact:
  assumes "db_ok d" and "av_key_version v = CURRENT_KEY_VERSION"
  shows "if \<forall>r \<in> set (challenges d). outdated r \<longrightarrow> upgradable cr v r
    then (let t = d\<lparr>challenges := map (\<lambda>r. if outdated r then signed_again cr v r else r) (challenges d)\<rparr>
          in upgrade_active_challenge_hmacs cr v d = (Inr (count_where outdated (challenges d)), t)
             \<and> upgrade_active_challenge_hmacs cr v t = (Inr 0, t))
    else \<exists>e. upgrade_active_challenge_hmacs cr v d = (Inl e, d)"
proof (cases "\<forall>r \<in> set (challenges d). outdated r \<longrightarrow> upgradable cr v r")
  case True
  let ?t = "d\<lparr>challenges := map (\<lambda>r. if outdated r then signed_again cr v r else r) (challenges d)\<rparr>"
  have "\<not> outdated (signed_again cr v r)" if "r \<in> set (challenges d)" "outdated r" for r
    using True that by (auto simp: upgradable_def signed_again_def outdated_def)
  then have "filter outdated (challenges ?t) = []" by (auto simp: filter_empty_conv)
  then have "upgrade_active_challenge_hmacs cr v ?t = (Inr 0, ?t)"
    unfolding upgrade_run [OF assms(2)] by (simp add: ret_def)
  with upgrade_success [OF assms True] True show ?thesis by (simp add: Let_def)
next
  case False
  note rows = outdated_rows [OF assms(1)]
  have "\<exists>r \<in> set (sort_key ch_id (filter outdated (challenges d))). \<not> upgradable cr v r" using False by auto
  from upgrade_fails [OF rows(1-4) this] False show ?thesis
    using upgrade_run [OF assms(2), of cr d] by auto
qed

definition legacy_db :: "bool \<Rightarrow> database" where
  "legacy_db well_formed =
     sample_db\<lparr>challenges := map (\<lambda>r. r\<lparr>ch_hmac_key_version := 0,
       ch_expression := (if well_formed then gc_expression (fst (generate sample_crypto sample_range sample_verifier 0))
         else [])\<rparr>) (challenges sample_db)\<rparr>"

lemma legacy_ok: "db_ok (legacy_db b)"
  using sample_ok by (auto simp: legacy_db_def db_ok_def challenges_ok_def attempts_ok_def open_challenge_def
      sample_db_def connections_ok_def conversations_ok_def ledger_ok_def updates_ok_def outbox_ok_def)

theorem upgrade_exact_witness:
  "\<exists>e. upgrade_active_challenge_hmacs sample_crypto sample_verifier (legacy_db False) = (Inl e, legacy_db False)"
proof -
  have "av_key_version sample_verifier = CURRENT_KEY_VERSION"
    by (simp add: sample_verifier_def CURRENT_KEY_VERSION_def)
  moreover have "\<exists>r \<in> set (challenges (legacy_db False)). outdated r \<and> \<not> upgradable sample_crypto sample_verifier r"
    by (simp add: legacy_db_def sample_db_def outdated_def upgradable_def open_challenge_def CURRENT_KEY_VERSION_def
        answer_hmac_for_expression_def split_whitespace_def)
  ultimately show ?thesis using upgrade_exact [OF legacy_ok, of sample_verifier False sample_crypto] by auto
qed

subsection \<open>Answers across the upgrade\<close>

text \<open>Whoever sends the value of the displayed expression, in any spelling, is accepted.\<close>

definition answerable :: "crypto \<Rightarrow> 'r arithmetic_verifier \<Rightarrow> challenge_row \<Rightarrow> bool" where
  "answerable cr v s \<longleftrightarrow> (\<exists>a p b q c n. in_0_99 a \<and> in_0_99 b \<and> in_0_99 c
     \<and> ch_expression s = format_expression a p b q c
     \<and> int n = snd (expression_steps (sint a) p (sint b) q (sint c))
     \<and> (\<forall>xs sg k ys. ascii_blank xs \<and> ascii_blank ys \<longrightarrow>
          evaluate cr v (answer_spelling xs sg k n ys) (ch_answer_hmac s) = Correct))"

lemma generated_signed_again:
  fixes w :: "'r arithmetic_verifier" and v :: "'q arithmetic_verifier"
  assumes "rng_in_range rr" and "crypto_documented cr"
    and "ch_expression r = gc_expression (fst (generate cr rr w now))"
    and "ch_hmac_key_version r = LEGACY_CHALLENGE_HMAC_KEY_VERSION"
  shows "upgradable cr v r" and "answerable cr v (signed_again cr v r)"
proof -
  obtain a p b q c x where g: "in_0_99 a" "in_0_99 b" "in_0_99 c"
    "gc_expression (fst (generate cr rr w now)) = format_expression a p b q c" "bounded_answer a p b q c = Some x"
    using generate_canonical [OF assms(1)] by metis
  have h: "answer_hmac_for_expression cr v (ch_expression r) = Inr (answer_hmac cr v (show_int (sint x)))"
    using g assms(3) by (simp add: answer_hmac_for_canonical)
  with assms(4) show "upgradable cr v r" by (simp add: upgradable_def)
  have r: "0 \<le> sint x" "sint x \<le> 99" using bounded_answer_in_range [OF g(5)] by (auto simp: in_0_99_def)
  have sum: "sint x = snd (expression_steps (sint a) p (sint b) q (sint c))"
    using g(1-3) g(5) bounded_answer_of_int [of "sint a" "sint b" "sint c" p q]
    by (auto simp: in_0_99_def Let_def case_prod_beta sint_small split: if_splits)
  have "evaluate cr v (answer_spelling xs sg k (nat (sint x)) ys) (ch_answer_hmac (signed_again cr v r)) = Correct"
    if "ascii_blank xs \<and> ascii_blank ys" for xs sg k ys
    using that assms(2) r h by (simp add: signed_again_def evaluate_spelling show_int_nat)
  moreover have "ch_expression (signed_again cr v r) = format_expression a p b q c"
    using h g(4) assms(3) by (simp add: signed_again_def)
  moreover have "int (nat (sint x)) = snd (expression_steps (sint a) p (sint b) q (sint c))"
    using r sum by simp
  ultimately show "answerable cr v (signed_again cr v r)"
    unfolding answerable_def using g(1-3) by blast
qed

text \<open>
  C23: nobody in the middle of a challenge notices the upgrade. When every outdated open challenge
  was generated by the program, under whatever key, the upgrade succeeds; each of these
  challenges still shows its expression, and every spelling of the value of that expression is
  accepted under the new key. All other challenges are as they were.
\<close>

theorem upgraded_challenge_answerable:
  fixes v :: "'q arithmetic_verifier"
  assumes "rng_in_range rr" and "crypto_documented cr" and "db_ok d"
    and "av_key_version v = CURRENT_KEY_VERSION"
    and "\<forall>r \<in> set (challenges d). outdated r \<longrightarrow> ch_hmac_key_version r = LEGACY_CHALLENGE_HMAC_KEY_VERSION
      \<and> (\<exists>(w :: 'r arithmetic_verifier) now. ch_expression r = gc_expression (fst (generate cr rr w now)))"
  shows "\<exists>t. upgrade_active_challenge_hmacs cr v d = (Inr (count_where outdated (challenges d)), t)
    \<and> list_all2 (\<lambda>r s. if outdated r
        then ch_expression s = ch_expression r \<and> ch_hmac_key_version s = CURRENT_KEY_VERSION
          \<and> answerable cr v s
        else s = r) (challenges d) (challenges t)"
proof -
  let ?f = "\<lambda>r. if outdated r then signed_again cr v r else r"
  have gen: "upgradable cr v r" "answerable cr v (signed_again cr v r)"
    if "r \<in> set (challenges d)" "outdated r" for r
    using assms(5) that generated_signed_again [OF assms(1,2), of r _ _ v] by blast+
  have same: "ch_expression (signed_again cr v r) = ch_expression r"
    "ch_hmac_key_version (signed_again cr v r) = CURRENT_KEY_VERSION" if "upgradable cr v r" for r
    using that by (auto simp: signed_again_def upgradable_def)
  from upgrade_success [OF assms(3,4), of cr] gen(1)
  have "upgrade_active_challenge_hmacs cr v d = (Inr (count_where outdated (challenges d)),
      d\<lparr>challenges := map ?f (challenges d)\<rparr>)" by blast
  moreover have "if outdated r then ch_expression (?f r) = ch_expression r
      \<and> ch_hmac_key_version (?f r) = CURRENT_KEY_VERSION \<and> answerable cr v (?f r) else ?f r = r"
    if "r \<in> set (challenges d)" for r
    using gen same that by simp
  then have "list_all2 (\<lambda>r s. if outdated r
        then ch_expression s = ch_expression r \<and> ch_hmac_key_version s = CURRENT_KEY_VERSION
          \<and> answerable cr v s
        else s = r) (challenges d) (map ?f (challenges d))"
    unfolding list_all2_map2 by (intro list.rel_refl_strong)
  ultimately show ?thesis by (intro exI conjI) (assumption, simp)
qed

theorem upgraded_challenge_answerable_witness:
  "\<exists>t n xs. upgrade_active_challenge_hmacs sample_crypto sample_verifier (legacy_db True) = (Inr 1, t)
    \<and> evaluate sample_crypto sample_verifier (answer_spelling [32] True xs n []) (ch_answer_hmac (hd (challenges t))) = Correct"
proof -
  have version: "av_key_version sample_verifier = CURRENT_KEY_VERSION"
    by (simp add: sample_verifier_def CURRENT_KEY_VERSION_def)
  obtain r where row: "challenges (legacy_db True) = [r]" "outdated r"
      "ch_hmac_key_version r = LEGACY_CHALLENGE_HMAC_KEY_VERSION"
      "ch_expression r = gc_expression (fst (generate sample_crypto sample_range sample_verifier 0))"
    by (simp add: legacy_db_def sample_db_def outdated_def open_challenge_def CURRENT_KEY_VERSION_def
        LEGACY_CHALLENGE_HMAC_KEY_VERSION_def)
  from row(4) have "\<exists>w now. ch_expression r = gc_expression (fst (generate sample_crypto sample_range w now))"
    by blast
  with row have "\<forall>r \<in> set (challenges (legacy_db True)). outdated r \<longrightarrow>
      ch_hmac_key_version r = LEGACY_CHALLENGE_HMAC_KEY_VERSION
      \<and> (\<exists>w now. ch_expression r = gc_expression (fst (generate sample_crypto sample_range w now)))" by simp
  note up = upgraded_challenge_answerable [OF sample_range_in_range sample_crypto_documented legacy_ok version this]
  have "ascii_blank [32] \<and> ascii_blank []" by (simp add: ascii_blank_def is_whitespace_def)
  with row up show ?thesis by (auto simp: list_all2_Cons1 count_where_def answerable_def) blast
qed

end
