(* ===== verification/Key_Material.thy ===== *)
theory Key_Material
  imports Installation_Keys Storage_Repositories
begin

section \<open>The stored key material\<close>

text \<open>
  Models \<open>src/storage/key_material.rs\<close>: the single row that holds the master seed, its checksum
  and the identifier of the bot. The columns are read with their dynamic SQLite types, as the
  code does; the table's constraints are those of \<open>migrations/0004_key_material.sql\<close>. Entropy,
  the clock and the RFC 3339 format are parameters.
\<close>

subsection \<open>The table\<close>

datatype sql_value =
    SqlNull
  | SqlInteger int
  | SqlReal ustring
  | SqlText ustring
  | SqlBlob "byte list"

fun typeof :: "sql_value \<Rightarrow> string" where
  "typeof SqlNull = ''null''"
| "typeof (SqlInteger n) = ''integer''"
| "typeof (SqlReal r) = ''real''"
| "typeof (SqlText t) = ''text''"
| "typeof (SqlBlob b) = ''blob''"

fun sql_length :: "sql_value \<Rightarrow> nat option" where
  "sql_length SqlNull = None"
| "sql_length (SqlInteger n) = Some (length (show_int n))"
| "sql_length (SqlReal r) = Some (length r)"
| "sql_length (SqlText t) = Some (length t)"
| "sql_length (SqlBlob b) = Some (length b)"

fun integer_value :: "sql_value \<Rightarrow> i64 option" where
  "integer_value (SqlInteger n) = Some n"
| "integer_value _ = None"

fun text_value :: "sql_value \<Rightarrow> ustring option" where
  "text_value (SqlText t) = Some t"
| "text_value _ = None"

record key_row =
  km_singleton :: sql_value
  km_key_version :: sql_value
  km_state :: sql_value
  km_master_seed :: sql_value
  km_seed_checksum :: sql_value
  km_initialized_at :: sql_value
  km_telegram_bot_id :: sql_value

type_synonym 'a kop = "(key_row list, storage_error, 'a) op"

text \<open>The \<open>CHECK\<close> of the table on a row in one of its two states.\<close>

definition key_row_checked :: "key_row \<Rightarrow> bool" where
  "key_row_checked r \<longleftrightarrow>
     km_state r = SqlText (lit ''PENDING'') \<and> km_master_seed r = SqlNull \<and> km_seed_checksum r = SqlNull
       \<and> km_initialized_at r = SqlNull \<and> km_telegram_bot_id r = SqlNull
     \<or> km_state r = SqlText (lit ''READY'')
       \<and> typeof (km_master_seed r) = ''blob'' \<and> sql_length (km_master_seed r) = Some 32
       \<and> typeof (km_seed_checksum r) = ''blob'' \<and> sql_length (km_seed_checksum r) = Some 32
       \<and> km_initialized_at r \<noteq> SqlNull"

record key_env =
  ke_services :: key_services
  ke_parse_rfc3339 :: "ustring \<Rightarrow> timestamp option"
  ke_rfc3339 :: "timestamp \<Rightarrow> ustring"

subsection \<open>Metadata\<close>

datatype material_state = MaterialPending | MaterialReady timestamp "i64 option"

record material_metadata =
  mm_key_version :: i64
  mm_state :: ustring
  mm_master_seed_type :: string
  mm_master_seed_len :: "nat option"
  mm_checksum_type :: string
  mm_checksum_len :: "nat option"
  mm_initialized_at_type :: string
  mm_initialized_at :: "ustring option"
  mm_bot_id_type :: string
  mm_telegram_bot_id :: "i64 option"

definition metadata_of :: "key_row list \<Rightarrow> storage_error + material_metadata" where
  "metadata_of rows =
     (case rows of
        [] \<Rightarrow> Inl KeyMaterialMissing
      | [r] \<Rightarrow>
          (case integer_value (km_singleton r) of
             None \<Rightarrow> Inl (InvalidKeyMaterial ''singleton row id must be an integer'')
           | Some singleton \<Rightarrow>
               if singleton \<noteq> 1 then Inl (InvalidKeyMaterial ''singleton row must have id 1'')
               else
                 (case integer_value (km_key_version r) of
                    None \<Rightarrow> Inl (InvalidKeyMaterial ''key version must be an integer'')
                  | Some key_version \<Rightarrow>
                      (case text_value (km_state r) of
                         None \<Rightarrow> Inl (InvalidKeyMaterial ''state must be text'')
                       | Some state \<Rightarrow>
                           Inr \<lparr>mm_key_version = key_version, mm_state = state,
                             mm_master_seed_type = typeof (km_master_seed r),
                             mm_master_seed_len = sql_length (km_master_seed r),
                             mm_checksum_type = typeof (km_seed_checksum r),
                             mm_checksum_len = sql_length (km_seed_checksum r),
                             mm_initialized_at_type = typeof (km_initialized_at r),
                             mm_initialized_at = text_value (km_initialized_at r),
                             mm_bot_id_type = typeof (km_telegram_bot_id r),
                             mm_telegram_bot_id = integer_value (km_telegram_bot_id r)\<rparr>)))
      | _ \<Rightarrow> Inl (InvalidKeyMaterial ''expected exactly one singleton row''))"

definition load_metadata :: "material_metadata kop" where
  "load_metadata = gets_result metadata_of"

definition ready_bot_id :: "material_metadata \<Rightarrow> storage_error + i64 option" where
  "ready_bot_id m =
     (if mm_bot_id_type m = ''null'' \<and> mm_telegram_bot_id m = None then Inr None
      else if mm_bot_id_type m = ''integer''
      then
        (case mm_telegram_bot_id m of
           Some value \<Rightarrow>
             if 0 < value then Inr (Some value)
             else Inl (InvalidKeyMaterial ''Telegram bot id must be positive'')
         | None \<Rightarrow> Inl (InvalidKeyMaterial ''Telegram bot id must be positive''))
      else Inl (InvalidKeyMaterial ''Telegram bot id must be an integer''))"

definition validate_ready :: "key_env \<Rightarrow> material_metadata \<Rightarrow> storage_error + material_state" where
  "validate_ready K m =
     (if mm_master_seed_type m \<noteq> ''blob'' \<or> mm_master_seed_len m \<noteq> Some 32
      then Inl (InvalidKeyMaterial ''master seed must be a 32-byte blob'')
      else if mm_checksum_type m \<noteq> ''blob'' \<or> mm_checksum_len m \<noteq> Some 32
      then Inl (InvalidKeyMaterial ''seed checksum must be a 32-byte blob'')
      else if mm_initialized_at_type m \<noteq> ''text''
      then Inl (InvalidKeyMaterial ''initialized timestamp must be text'')
      else
        (case mm_initialized_at m of
           None \<Rightarrow> Inl (InvalidKeyMaterial ''initialized timestamp is missing'')
         | Some t \<Rightarrow>
             (case ke_parse_rfc3339 K t of
                None \<Rightarrow> Inl (InvalidKeyMaterial ''initialized timestamp must be RFC3339'')
              | Some at \<Rightarrow>
                  (case ready_bot_id m of Inl e \<Rightarrow> Inl e | Inr bot_id \<Rightarrow> Inr (MaterialReady at bot_id)))))"

definition validate_metadata :: "key_env \<Rightarrow> material_metadata \<Rightarrow> storage_error + material_state" where
  "validate_metadata K m =
     (if mm_key_version m \<noteq> CURRENT_KEY_VERSION then Inl (UnsupportedKeyVersion (mm_key_version m))
      else if mm_state m = lit ''PENDING''
      then
        (if mm_master_seed_type m \<noteq> ''null'' \<or> mm_master_seed_len m \<noteq> None
            \<or> mm_checksum_type m \<noteq> ''null'' \<or> mm_checksum_len m \<noteq> None
            \<or> mm_initialized_at_type m \<noteq> ''null'' \<or> mm_initialized_at m \<noteq> None
            \<or> mm_bot_id_type m \<noteq> ''null'' \<or> mm_telegram_bot_id m \<noteq> None
         then Inl (InvalidKeyMaterial ''pending material must not contain initialized values'')
         else Inr MaterialPending)
      else if mm_state m = lit ''READY'' then validate_ready K m
      else Inl (InvalidKeyMaterial ''state must be PENDING or READY''))"

subsection \<open>The seed\<close>

definition seed_checksum :: "key_env \<Rightarrow> i64 \<Rightarrow> byte list \<Rightarrow> storage_error + byte list" where
  "seed_checksum K key_version seed =
     (case master_seed_checksum (ke_services K) key_version seed of
        Inr c \<Rightarrow> Inr c
      | Inl (UnsupportedVersion version) \<Rightarrow> Inl (UnsupportedKeyVersion version)
      | Inl _ \<Rightarrow> Inl (InvalidKeyMaterial ''master seed is invalid''))"

text \<open>A column read as \<open>Vec<u8>\<close>.\<close>

fun blob_column :: "sql_value \<Rightarrow> storage_error + byte list" where
  "blob_column (SqlBlob b) = Inr b"
| "blob_column _ = Inl (Database ColumnDecode)"

definition ready_seed :: "key_env \<Rightarrow> i64 \<Rightarrow> key_row list \<Rightarrow> storage_error + byte list" where
  "ready_seed K key_version rows =
     (case find_row (\<lambda>r. km_singleton r = SqlInteger 1) rows of
        None \<Rightarrow> Inl (Database RowNotFound)
      | Some r \<Rightarrow>
          (case blob_column (km_master_seed r) of
             Inl e \<Rightarrow> Inl e
           | Inr seed \<Rightarrow>
               (case blob_column (km_seed_checksum r) of
                  Inl e \<Rightarrow> Inl e
                | Inr stored \<Rightarrow>
                    (case seed_checksum K key_version seed of
                       Inl e \<Rightarrow> Inl e
                     | Inr expected \<Rightarrow>
                         if expected \<noteq> stored
                         then Inl (InvalidKeyMaterial ''master seed checksum does not match'')
                         else Inr seed))))"

definition load_and_validate_ready_seed :: "key_env \<Rightarrow> i64 \<Rightarrow> byte list kop" where
  "load_and_validate_ready_seed K key_version = gets_result (ready_seed K key_version)"

record master_seed =
  sd_key_version :: i64
  sd_bytes :: "byte list"

definition pending_row :: "key_row \<Rightarrow> bool" where
  "pending_row r \<longleftrightarrow> km_singleton r = SqlInteger 1 \<and> km_key_version r = SqlInteger 1
     \<and> km_state r = SqlText (lit ''PENDING'') \<and> km_master_seed r = SqlNull
     \<and> km_seed_checksum r = SqlNull \<and> km_initialized_at r = SqlNull"

definition store_seed :: "byte list \<Rightarrow> byte list \<Rightarrow> ustring \<Rightarrow> nat kop" where
  "store_seed seed checksum at rows =
     (let ready = (\<lambda>r. r\<lparr>km_state := SqlText (lit ''READY''), km_master_seed := SqlBlob seed,
            km_seed_checksum := SqlBlob checksum, km_initialized_at := SqlText at\<rparr>)
      in if list_all (\<lambda>r. pending_row r \<longrightarrow> key_row_checked (ready r)) rows
         then Inr (count_where pending_row rows, update_where pending_row ready rows)
         else Inl (Database CheckViolation))"

text \<open>\<open>fill\<close> is the entropy source: the bytes for a buffer of the given length, or a failure.\<close>

definition initialize_seed ::
  "key_env \<Rightarrow> (nat \<Rightarrow> byte list option) \<Rightarrow> timestamp \<Rightarrow> i64 \<Rightarrow> master_seed kop" where
  "initialize_seed K fill now key_version =
     (case fill MASTER_SEED_LEN of
        None \<Rightarrow> fail EntropyUnavailable
      | Some generated \<Rightarrow>
          and_then (lift_result (seed_checksum K key_version generated)) (\<lambda>checksum.
          and_then (store_seed generated checksum (ke_rfc3339 K now)) (\<lambda>changed.
          if changed \<noteq> 1 then fail (InvalidKeyMaterial ''pending seed transition did not update one row'')
          else
            and_then load_metadata (\<lambda>ready.
            and_then (lift_result (validate_metadata K ready)) (\<lambda>state.
            case state of
              MaterialPending \<Rightarrow>
                fail (InvalidKeyMaterial ''seed transition did not produce ready material'')
            | MaterialReady _ _ \<Rightarrow>
                and_then (load_and_validate_ready_seed K (mm_key_version ready)) (\<lambda>fetched.
                if generated \<noteq> fetched
                then fail (InvalidKeyMaterial ''persisted seed differs from generated seed'')
                else ret \<lparr>sd_key_version = mm_key_version ready, sd_bytes = fetched\<rparr>))))))"

definition load_or_initialize_master_seed_tx ::
  "key_env \<Rightarrow> (nat \<Rightarrow> byte list option) \<Rightarrow> timestamp \<Rightarrow> master_seed kop" where
  "load_or_initialize_master_seed_tx K fill now =
     and_then load_metadata (\<lambda>m.
     and_then (lift_result (validate_metadata K m)) (\<lambda>state.
     case state of
       MaterialPending \<Rightarrow> initialize_seed K fill now (mm_key_version m)
     | MaterialReady _ _ \<Rightarrow>
         and_then (load_and_validate_ready_seed K (mm_key_version m)) (\<lambda>fetched.
           ret \<lparr>sd_key_version = mm_key_version m, sd_bytes = fetched\<rparr>)))"

definition load_or_initialize_master_seed ::
  "key_env \<Rightarrow> (nat \<Rightarrow> byte list option) \<Rightarrow> timestamp \<Rightarrow> key_row list
   \<Rightarrow> (storage_error + master_seed) \<times> key_row list" where
  "load_or_initialize_master_seed K fill now = commit (load_or_initialize_master_seed_tx K fill now)"

subsection \<open>The bot\<close>

definition unpinned_row :: "key_row \<Rightarrow> bool" where
  "unpinned_row r \<longleftrightarrow> km_singleton r = SqlInteger 1 \<and> km_state r = SqlText (lit ''READY'')
     \<and> km_telegram_bot_id r = SqlNull"

definition store_bot :: "i64 \<Rightarrow> nat kop" where
  "store_bot bot_id rows =
     Inr (count_where unpinned_row rows,
          update_where unpinned_row (\<lambda>r. r\<lparr>km_telegram_bot_id := SqlInteger bot_id\<rparr>) rows)"

definition pin_or_verify_telegram_bot_id :: "key_env \<Rightarrow> i64 \<Rightarrow> i64 kop" where
  "pin_or_verify_telegram_bot_id K bot_id =
     (if bot_id \<le> 0 then fail (InvalidKeyMaterial ''authenticated Telegram bot id must be positive'')
      else
        and_then load_metadata (\<lambda>m.
        and_then (lift_result (validate_metadata K m)) (\<lambda>state.
        case state of
          MaterialPending \<Rightarrow> fail (InvalidKeyMaterial ''Telegram bot id requires ready key material'')
        | MaterialReady _ known \<Rightarrow>
            and_then (load_and_validate_ready_seed K (mm_key_version m)) (\<lambda>_.
            case known of
              Some pinned \<Rightarrow> if pinned = bot_id then ret pinned else fail TelegramBotIdentityMismatch
            | None \<Rightarrow>
                and_then (store_bot bot_id) (\<lambda>changed.
                  if changed \<noteq> 1 then fail TelegramBotIdentityMismatch else ret bot_id)))))"

definition load_persisted_telegram_bot_id :: "key_env \<Rightarrow> i64 kop" where
  "load_persisted_telegram_bot_id K =
     and_then load_metadata (\<lambda>m.
     and_then (lift_result (validate_metadata K m)) (\<lambda>state.
     case state of
       MaterialReady _ (Some bot_id) \<Rightarrow>
         and_then (load_and_validate_ready_seed K (mm_key_version m)) (\<lambda>_. ret bot_id)
     | _ \<Rightarrow> fail (InvalidKeyMaterial ''persisted Telegram bot id is missing'')))"

subsection \<open>What an installed seed promises\<close>

text \<open>The table holds the seed: every later read validates.\<close>

definition installed :: "key_env \<Rightarrow> key_row list \<Rightarrow> master_seed \<Rightarrow> i64 option \<Rightarrow> bool" where
  "installed K rows m known \<longleftrightarrow>
     (\<exists>md at. metadata_of rows = Inr md \<and> validate_metadata K md = Inr (MaterialReady at known)
        \<and> mm_key_version md = sd_key_version m \<and> ready_seed K (mm_key_version md) rows = Inr (sd_bytes m))"

lemma load_metadata_Inr [simp]: "load_metadata rows = Inr (md, rows') \<longleftrightarrow> metadata_of rows = Inr md \<and> rows' = rows"
  by (simp add: load_metadata_def gets_result_Inr_iff)

lemma ready_seed_Inr [simp]:
  "load_and_validate_ready_seed K v rows = Inr (seed, rows') \<longleftrightarrow> ready_seed K v rows = Inr seed \<and> rows' = rows"
  by (simp add: load_and_validate_ready_seed_def gets_result_Inr_iff)

lemma installed_load:
  assumes "installed K rows m known"
  shows "load_or_initialize_master_seed_tx K fill now rows = Inr (m, rows)"
proof -
  from assms obtain md at where "metadata_of rows = Inr md"
    and "validate_metadata K md = Inr (MaterialReady at known)" and "mm_key_version md = sd_key_version m"
    and "ready_seed K (mm_key_version md) rows = Inr (sd_bytes m)"
    unfolding installed_def by blast
  then show ?thesis
    by (auto simp: load_or_initialize_master_seed_tx_def and_then_Inr_iff lift_result_Inr_iff ret_Inr_iff)
qed

lemma initialized_installed:
  assumes "initialize_seed K fill now v rows = Inr (m, rows')"
  shows "\<exists>known. installed K rows' m known"
proof -
  from assms obtain generated where "fill MASTER_SEED_LEN = Some generated"
    by (auto simp: initialize_seed_def fail_def split: option.splits)
  with assms show ?thesis
    unfolding initialize_seed_def installed_def
    by (simp only: and_then_Inr_iff lift_result_Inr_iff option.case)
      (auto simp: fail_Inr_iff ret_Inr_iff and_then_Inr_iff lift_result_Inr_iff
        split: material_state.splits if_split_asm, (metis material_state.exhaust)+)
qed

lemma loaded_installed:
  assumes "load_or_initialize_master_seed_tx K fill now rows = Inr (m, rows')"
  shows "\<exists>known. installed K rows' m known"
proof -
  from assms obtain md state where md: "metadata_of rows = Inr md" "validate_metadata K md = Inr state"
    and rest: "(case state of MaterialPending \<Rightarrow> initialize_seed K fill now (mm_key_version md)
       | MaterialReady _ _ \<Rightarrow> and_then (load_and_validate_ready_seed K (mm_key_version md))
           (\<lambda>fetched. ret \<lparr>sd_key_version = mm_key_version md, sd_bytes = fetched\<rparr>)) rows = Inr (m, rows')"
    by (auto simp: load_or_initialize_master_seed_tx_def and_then_Inr_iff lift_result_Inr_iff)
  show ?thesis
  proof (cases state)
    case MaterialPending
    with rest have "initialize_seed K fill now (mm_key_version md) rows = Inr (m, rows')" by simp
    then show ?thesis by (rule initialized_installed)
  next
    case (MaterialReady at known)
    with rest md show ?thesis by (auto simp: installed_def and_then_Inr_iff ret_Inr_iff)
  qed
qed

lemma metadata_single:
  assumes "metadata_of rows = Inr md"
  shows "\<exists>r. rows = [r] \<and> km_singleton r = SqlInteger 1"
proof (cases rows)
  case (Cons r rest)
  show ?thesis
  proof (cases rest)
    case Nil
    with assms Cons show ?thesis
      by (cases "km_singleton r") (simp_all add: metadata_of_def split: if_splits)
  qed (use assms Cons in \<open>simp add: metadata_of_def\<close>)
qed (use assms in \<open>simp add: metadata_of_def\<close>)

lemma typeof_null [simp]: "typeof x = ''null'' \<longleftrightarrow> x = SqlNull"
  by (cases x) simp_all

lemma metadata_columns:
  assumes "metadata_of [r] = Inr md"
  shows "text_value (km_state r) = Some (mm_state md)" and "mm_bot_id_type md = typeof (km_telegram_bot_id r)"
    and "mm_telegram_bot_id md = integer_value (km_telegram_bot_id r)"
    and "metadata_of [r\<lparr>km_telegram_bot_id := SqlInteger b\<rparr>]
      = Inr (md\<lparr>mm_bot_id_type := ''integer'', mm_telegram_bot_id := Some b\<rparr>)"
  using assms by (auto simp: metadata_of_def Let_def split: option.splits if_split_asm)

lemma validated_ready:
  assumes "validate_metadata K md = Inr (MaterialReady at known)"
  shows "mm_state md = lit ''READY''" and "ready_bot_id md = Inr known"
    and "0 < b \<Longrightarrow> validate_metadata K (md\<lparr>mm_bot_id_type := ''integer'', mm_telegram_bot_id := Some b\<rparr>)
      = Inr (MaterialReady at (Some b))"
proof -
  have ready: "validate_ready K md = Inr (MaterialReady at known)" and state: "mm_state md = lit ''READY''"
    and version: "mm_key_version md = CURRENT_KEY_VERSION"
    using assms unfolding validate_metadata_def by (auto split: if_split_asm)
  show "mm_state md = lit ''READY''" by (fact state)
  show "ready_bot_id md = Inr known"
    using ready by (auto simp: validate_ready_def split: if_split_asm option.splits sum.splits)
  show "validate_metadata K (md\<lparr>mm_bot_id_type := ''integer'', mm_telegram_bot_id := Some b\<rparr>)
      = Inr (MaterialReady at (Some b))" if "0 < b"
    using ready state version that
    by (auto simp: validate_ready_def validate_metadata_def ready_bot_id_def lit_simps
        split: if_split_asm option.splits sum.splits)
qed

lemma pinned_again:
  assumes "installed K rows m (Some b)"
  shows "load_persisted_telegram_bot_id K rows = Inr (b, rows)"
    and "0 < c \<Longrightarrow> pin_or_verify_telegram_bot_id K c rows
      = (if c = b then Inr (b, rows) else Inl TelegramBotIdentityMismatch)"
proof -
  from assms obtain md at where md: "metadata_of rows = Inr md"
    "validate_metadata K md = Inr (MaterialReady at (Some b))" "ready_seed K (mm_key_version md) rows = Inr (sd_bytes m)"
    unfolding installed_def by blast
  have loaded: "load_metadata rows = Inr (md, rows)"
    and seed: "load_and_validate_ready_seed K (mm_key_version md) rows = Inr (sd_bytes m, rows)"
    using md by simp_all
  show "load_persisted_telegram_bot_id K rows = Inr (b, rows)"
    by (simp add: load_persisted_telegram_bot_id_def md and_then_Inr_iff lift_result_Inr_iff ret_Inr_iff)
  show "0 < c \<Longrightarrow> pin_or_verify_telegram_bot_id K c rows
      = (if c = b then Inr (b, rows) else Inl TelegramBotIdentityMismatch)"
    by (simp add: pin_or_verify_telegram_bot_id_def and_then_def loaded seed md lift_result_def ret_def fail_def)
qed

lemma pin_first:
  assumes "installed K rows m None" and "0 < b"
  shows "\<exists>rows'. pin_or_verify_telegram_bot_id K b rows = Inr (b, rows') \<and> installed K rows' m (Some b)"
proof -
  from assms(1) obtain md at where md: "metadata_of rows = Inr md"
    "validate_metadata K md = Inr (MaterialReady at None)" "mm_key_version md = sd_key_version m"
    "ready_seed K (mm_key_version md) rows = Inr (sd_bytes m)"
    unfolding installed_def by blast
  from metadata_single [OF md(1)] obtain r where rows: "rows = [r]" and one: "km_singleton r = SqlInteger 1" by blast
  note columns = metadata_columns [OF md(1) [unfolded rows]] and ready = validated_ready [OF md(2)]
  have null: "km_telegram_bot_id r = SqlNull"
    using ready(2) columns(2,3) by (auto simp: ready_bot_id_def split: if_split_asm option.splits)
  have unpinned: "unpinned_row r"
    using columns(1) ready(1) null one by (cases "km_state r") (simp_all add: unpinned_row_def)
  let ?r = "r\<lparr>km_telegram_bot_id := SqlInteger b\<rparr>"
  have "ready_seed K v [?r] = ready_seed K v [r]" for v
    using one by (simp add: ready_seed_def find_row_def cong: sum.case_cong)
  then have "installed K [?r] m (Some b)"
    using columns(4) ready(3) [OF assms(2)] md rows unfolding installed_def by auto
  moreover have "pin_or_verify_telegram_bot_id K b rows = Inr (b, [?r])"
    using assms(2) md unpinned rows
    by (simp add: pin_or_verify_telegram_bot_id_def and_then_Inr_iff lift_result_Inr_iff ret_Inr_iff fail_Inr_iff
        store_bot_def count_where_def update_where_def)
  ultimately show ?thesis by blast
qed

subsection \<open>The identity of an installation\<close>

text \<open>The table as the migration leaves it.\<close>

definition migrated_row :: key_row where
  "migrated_row = \<lparr>km_singleton = SqlInteger 1, km_key_version = SqlInteger 1,
     km_state = SqlText (lit ''PENDING''), km_master_seed = SqlNull, km_seed_checksum = SqlNull,
     km_initialized_at = SqlNull, km_telegram_bot_id = SqlNull\<rparr>"

definition ready_row :: "key_env \<Rightarrow> byte list \<Rightarrow> timestamp \<Rightarrow> key_row" where
  "ready_row K seed now = migrated_row\<lparr>km_state := SqlText (lit ''READY''), km_master_seed := SqlBlob seed,
     km_seed_checksum := SqlBlob (sha256_digest (ke_services K) (SEED_CHECKSUM_DOMAIN_V1 @ seed)),
     km_initialized_at := SqlText (ke_rfc3339 K now)\<rparr>"

lemma migrated_pending: "metadata_of [migrated_row] = Inr \<lparr>mm_key_version = 1, mm_state = lit ''PENDING'',
    mm_master_seed_type = ''null'', mm_master_seed_len = None, mm_checksum_type = ''null'', mm_checksum_len = None,
    mm_initialized_at_type = ''null'', mm_initialized_at = None, mm_bot_id_type = ''null'', mm_telegram_bot_id = None\<rparr>"
  by (simp add: metadata_of_def migrated_row_def)

lemma ready_metadata: "metadata_of [ready_row K seed now] = Inr \<lparr>mm_key_version = 1, mm_state = lit ''READY'',
    mm_master_seed_type = ''blob'', mm_master_seed_len = Some (length seed), mm_checksum_type = ''blob'',
    mm_checksum_len = Some (length (sha256_digest (ke_services K) (SEED_CHECKSUM_DOMAIN_V1 @ seed))),
    mm_initialized_at_type = ''text'', mm_initialized_at = Some (ke_rfc3339 K now),
    mm_bot_id_type = ''null'', mm_telegram_bot_id = None\<rparr>"
  by (simp add: metadata_of_def migrated_row_def ready_row_def)

lemma current_checksum:
  "length seed = 32 \<Longrightarrow>
    seed_checksum K 1 seed = Inr (sha256_digest (ke_services K) (SEED_CHECKSUM_DOMAIN_V1 @ seed))"
  by (simp add: seed_checksum_def master_seed_checksum_def validate_version_def CURRENT_KEY_VERSION_def
      MASTER_SEED_LEN_def)

lemma first_load:
  assumes "\<And>b. length (sha256_digest (ke_services K) b) = 32" and "fill 32 = Some seed" and "length seed = 32"
    and "ke_parse_rfc3339 K (ke_rfc3339 K now) = Some at"
  shows "load_or_initialize_master_seed_tx K fill now [migrated_row]
    = Inr (\<lparr>sd_key_version = 1, sd_bytes = seed\<rparr>, [ready_row K seed now])"
proof -
  have stored: "store_seed seed (sha256_digest (ke_services K) (SEED_CHECKSUM_DOMAIN_V1 @ seed))
      (ke_rfc3339 K now) [migrated_row] = Inr (1, [ready_row K seed now])"
    using assms(1,3) by (simp add: store_seed_def Let_def pending_row_def migrated_row_def ready_row_def
        key_row_checked_def count_where_def update_where_def)
  have again: "ready_seed K 1 [ready_row K seed now] = Inr seed"
    by (simp add: ready_seed_def find_row_def ready_row_def migrated_row_def current_checksum assms(3))
  have "fill MASTER_SEED_LEN = Some seed" using assms(2) by (simp add: MASTER_SEED_LEN_def)
  then have "initialize_seed K fill now 1 [migrated_row]
      = Inr (\<lparr>sd_key_version = 1, sd_bytes = seed\<rparr>, [ready_row K seed now])"
    using stored again assms
    by (simp add: initialize_seed_def and_then_Inr_iff lift_result_Inr_iff ret_Inr_iff current_checksum
        ready_metadata validate_metadata_def validate_ready_def ready_bot_id_def CURRENT_KEY_VERSION_def lit_simps
        fail_Inr_iff)
  then show ?thesis
    by (simp add: load_or_initialize_master_seed_tx_def and_then_Inr_iff lift_result_Inr_iff migrated_pending
        validate_metadata_def CURRENT_KEY_VERSION_def)
qed

text \<open>An installation keeps its identity. Whatever start gave a seed, on a fresh table or on an old one, every
  later start gives the same seed and leaves the table, whatever the clock and the entropy are, before and after a bot is pinned. Once
  one is, its identifier is what later reads give, pinning it again succeeds, and every other bot
  is refused and changes nothing.\<close>

theorem installation_identity_stable:
  assumes "load_or_initialize_master_seed K fill now rows = (Inr m, rows')"
  shows "load_or_initialize_master_seed K fill' now' rows' = (Inr m, rows')
    \<and> (commit (pin_or_verify_telegram_bot_id K b) rows' = (Inr c, rows'') \<longrightarrow>
        c = b \<and> 0 < b
        \<and> load_or_initialize_master_seed K fill' now' rows'' = (Inr m, rows'')
        \<and> commit (load_persisted_telegram_bot_id K) rows'' = (Inr b, rows'')
        \<and> commit (pin_or_verify_telegram_bot_id K other) rows''
          = (if other = b then Inr b
             else if other \<le> 0 then Inl (InvalidKeyMaterial ''authenticated Telegram bot id must be positive'')
             else Inl TelegramBotIdentityMismatch, rows''))"
proof (intro conjI impI)
  have "load_or_initialize_master_seed_tx K fill now rows = Inr (m, rows')"
    using assms by (simp add: load_or_initialize_master_seed_def commit_success)
  from loaded_installed [OF this] obtain known where known: "installed K rows' m known" by blast
  then show "load_or_initialize_master_seed K fill' now' rows' = (Inr m, rows')"
    by (simp add: load_or_initialize_master_seed_def commit_success installed_load)
  assume "commit (pin_or_verify_telegram_bot_id K b) rows' = (Inr c, rows'')"
  then have pin: "pin_or_verify_telegram_bot_id K b rows' = Inr (c, rows'')" by (simp add: commit_success)
  then show positive: "0 < b" by (auto simp: pin_or_verify_telegram_bot_id_def fail_def split: if_split_asm)
  have "c = b \<and> installed K rows'' m (Some b)"
  proof (cases known)
    case None
    with pin_first known positive pin show ?thesis by fastforce
  next
    case (Some a)
    with pinned_again(2) [of K rows' m a b] known positive pin show ?thesis by (auto split: if_split_asm)
  qed
  then show "c = b" and here: "load_or_initialize_master_seed K fill' now' rows'' = (Inr m, rows'')"
    and "commit (load_persisted_telegram_bot_id K) rows'' = (Inr b, rows'')"
    and "commit (pin_or_verify_telegram_bot_id K other) rows''
          = (if other = b then Inr b
             else if other \<le> 0 then Inl (InvalidKeyMaterial ''authenticated Telegram bot id must be positive'')
             else Inl TelegramBotIdentityMismatch, rows'')"
    using positive pinned_again(2) [of K rows'' m b other]
    by (auto simp: load_or_initialize_master_seed_def commit_success installed_load pinned_again(1) commit_def
        pin_or_verify_telegram_bot_id_def fail_def)
qed

definition sample_keys :: key_env where
  "sample_keys = \<lparr>ke_services = \<lparr>hkdf_expand = (\<lambda>_ _ _ n. Some (replicate n 7)),
     sha256_digest = (\<lambda>bs. replicate 31 0 @ [of_nat (length bs)]), hex_text = (\<lambda>bs. bs @ bs)\<rparr>,
     ke_parse_rfc3339 = (\<lambda>_. Some 0), ke_rfc3339 = (\<lambda>_. lit ''1970-01-01T00:00:00+00:00'')\<rparr>"

theorem installation_identity_stable_witness:
  "load_or_initialize_master_seed sample_keys (\<lambda>_. None) 9
     [ready_row sample_keys (replicate 32 5) 3]
   = (Inr \<lparr>sd_key_version = 1, sd_bytes = replicate 32 5\<rparr>, [ready_row sample_keys (replicate 32 5) 3])"
proof -
  have "load_or_initialize_master_seed sample_keys (\<lambda>n. Some (replicate n 5)) 3 [migrated_row]
    = (Inr \<lparr>sd_key_version = 1, sd_bytes = replicate 32 5\<rparr>, [ready_row sample_keys (replicate 32 5) 3])"
    unfolding load_or_initialize_master_seed_def commit_success
    by (rule first_load [where at = 0]) (simp_all add: sample_keys_def)
  from installation_identity_stable [OF this, of "\<lambda>_. None" 9] show ?thesis by blast
qed

end
