(* ===== verification/Claim_File.thy ===== *)
theory Claim_File
  imports Installation_Keys Owner_Identity
begin

unbundle bit_operations_syntax

section \<open>The claim-code file\<close>

text \<open>
  Models \<open>src/owner/claim_file.rs\<close>: the file beside the database from which the owner of a new
  installation takes the claim command. The directory is a state of its own, with inodes, link
  counts, owners and modes. Every call to the operating system may fail, a write may take only
  some of the bytes, and a failure leaves the directory as the calls before it left it, which is
  also what a crash leaves. Other processes do not write to the directory between two calls.
\<close>

subsection \<open>The directory\<close>

datatype file_kind = RegularFile | SymbolicLink | OtherKind

record inode =
  fl_kind :: file_kind
  fl_mode :: "16 word"
  fl_uid :: nat
  fl_gid :: nat
  fl_nlink :: nat
  fl_bytes :: "byte list"

record directory_stat =
  dr_is_dir :: bool
  dr_inode :: nat
  dr_uid :: nat
  dr_gid :: nat

record fs =
  fs_names :: "string \<rightharpoonup> nat"
  fs_files :: "nat \<rightharpoonup> inode"
  fs_next :: nat
  fs_directory :: directory_stat
  fs_calls :: nat

text \<open>What the operating system does in one run of the program: which call fails, how many bytes
  a read or a write takes at most, the process's umask, and the group a new file gets.\<close>

record os =
  os_fails :: "nat \<Rightarrow> bool"
  os_accepts :: "nat \<Rightarrow> nat"
  os_umask :: "16 word"
  os_created_gid :: nat

datatype claim_file_error = InvalidToken | UnsafeEntry | Filesystem string

type_synonym 'a fop = "fs \<Rightarrow> (claim_file_error + 'a) \<times> fs"

definition pass :: "'a \<Rightarrow> 'a fop" where
  "pass x f = (Inr x, f)"

definition refuse :: "claim_file_error \<Rightarrow> 'a fop" where
  "refuse e f = (Inl e, f)"

definition fbind :: "'a fop \<Rightarrow> ('a \<Rightarrow> 'b fop) \<Rightarrow> 'b fop" where
  "fbind m k f = (case m f of (Inl e, g) \<Rightarrow> (Inl e, g) | (Inr x, g) \<Rightarrow> k x g)"

text \<open>One call: it may fail, or do its work.\<close>

definition attempt :: "os \<Rightarrow> claim_file_error \<Rightarrow> (fs \<Rightarrow> (claim_file_error + 'a) \<times> fs) \<Rightarrow> 'a fop" where
  "attempt os e work f =
     (let g = f\<lparr>fs_calls := fs_calls f + 1\<rparr>
      in if os_fails os (fs_calls f) then (Inl e, g) else work g)"

definition TARGET_NAME :: string where "TARGET_NAME = ''claim-code''"

definition TEMP_NAME :: string where "TEMP_NAME = ''.claim-code.tmp''"

definition COMMAND_LEN :: nat where "COMMAND_LEN = 72"

definition MAX_READ_LEN :: nat where "MAX_READ_LEN = COMMAND_LEN + 1"

text \<open>\<open>Mode::RUSR | Mode::WUSR\<close>.\<close>

definition OWNER_READ_WRITE :: "16 word" where "OWNER_READ_WRITE = 0x180"

subsection \<open>The calls\<close>

definition fstat :: "os \<Rightarrow> claim_file_error \<Rightarrow> nat \<Rightarrow> inode fop" where
  "fstat os e n = attempt os e (\<lambda>f. case fs_files f n of None \<Rightarrow> (Inl e, f) | Some node \<Rightarrow> (Inr node, f))"

definition openat_read :: "os \<Rightarrow> string \<Rightarrow> nat option fop" where
  "openat_read os name = attempt os UnsafeEntry (\<lambda>f.
     case fs_names f name of
       None \<Rightarrow> (Inr None, f)
     | Some n \<Rightarrow>
         (case fs_files f n of
            Some node \<Rightarrow> if fl_kind node = SymbolicLink then (Inl UnsafeEntry, f) else (Inr (Some n), f)
          | None \<Rightarrow> (Inl UnsafeEntry, f)))"

definition statat :: "os \<Rightarrow> string \<Rightarrow> nat fop" where
  "statat os name = attempt os UnsafeEntry (\<lambda>f.
     case fs_names f name of None \<Rightarrow> (Inl UnsafeEntry, f) | Some n \<Rightarrow> (Inr n, f))"

definition update_file :: "nat \<Rightarrow> (inode \<Rightarrow> inode) \<Rightarrow> fs \<Rightarrow> fs" where
  "update_file n g f = f\<lparr>fs_files := (fs_files f)(n := map_option g (fs_files f n))\<rparr>"

definition unlinkat :: "os \<Rightarrow> claim_file_error \<Rightarrow> string \<Rightarrow> unit fop" where
  "unlinkat os e name = attempt os e (\<lambda>f.
     case fs_names f name of
       None \<Rightarrow> (Inl e, f)
     | Some n \<Rightarrow> (Inr (), update_file n (\<lambda>node. node\<lparr>fl_nlink := fl_nlink node - 1\<rparr>)
                            (f\<lparr>fs_names := (fs_names f)(name := None)\<rparr>)))"

definition linkat :: "os \<Rightarrow> claim_file_error \<Rightarrow> string \<Rightarrow> string \<Rightarrow> unit fop" where
  "linkat os e old new = attempt os e (\<lambda>f.
     case (fs_names f old, fs_names f new) of
       (Some n, None) \<Rightarrow> (Inr (), update_file n (\<lambda>node. node\<lparr>fl_nlink := fl_nlink node + 1\<rparr>)
                                    (f\<lparr>fs_names := (fs_names f)(new \<mapsto> n)\<rparr>))
     | _ \<Rightarrow> (Inl e, f))"

text \<open>\<open>fsync\<close> orders what reaches the disk; it changes nothing another call can see.\<close>

definition fsync :: "os \<Rightarrow> claim_file_error \<Rightarrow> unit fop" where
  "fsync os e = attempt os e (pass ())"

definition openat_create :: "os \<Rightarrow> nat \<Rightarrow> claim_file_error \<Rightarrow> string \<Rightarrow> nat fop" where
  "openat_create os uid e name = attempt os e (\<lambda>f.
     case fs_names f name of
       Some _ \<Rightarrow> (Inl e, f)
     | None \<Rightarrow>
         (let n = fs_next f;
              node = \<lparr>fl_kind = RegularFile, fl_mode = OWNER_READ_WRITE AND NOT (os_umask os), fl_uid = uid,
                      fl_gid = os_created_gid os, fl_nlink = 1, fl_bytes = []\<rparr>
          in (Inr n, f\<lparr>fs_names := (fs_names f)(name \<mapsto> n), fs_files := (fs_files f)(n \<mapsto> node),
                       fs_next := n + 1\<rparr>)))"

definition fchown :: "os \<Rightarrow> claim_file_error \<Rightarrow> nat \<Rightarrow> nat \<Rightarrow> nat \<Rightarrow> unit fop" where
  "fchown os e n uid gid = attempt os e (\<lambda>f.
     (Inr (), update_file n (\<lambda>node. node\<lparr>fl_uid := uid, fl_gid := gid\<rparr>) f))"

text \<open>The bytes of an open file from an offset, by reads that each return at least one byte until
  the end of the file.\<close>

definition taken :: "os \<Rightarrow> nat \<Rightarrow> nat \<Rightarrow> nat" where
  "taken os call available = min available (os_accepts os call)"

function read_loop :: "os \<Rightarrow> nat \<Rightarrow> byte list \<Rightarrow> byte list \<Rightarrow> byte list fop" where
  "read_loop os capacity rest read =
     (if length read < capacity
      then attempt os (Filesystem ''cannot read claim-code entry'') (\<lambda>f.
        let count = max 1 (taken os (fs_calls f - 1) (min (length rest) (capacity - length read)))
        in if rest = [] then (Inr read, f)
           else read_loop os capacity (drop count rest) (read @ take count rest) f)
      else pass read)"
  by pat_completeness auto
termination
  by (relation "measure (\<lambda>(os, capacity, rest, read). length rest)")
    (auto simp: length_greater_0_conv [symmetric] simp del: length_greater_0_conv)

definition read_capped :: "os \<Rightarrow> nat \<Rightarrow> nat \<Rightarrow> byte list fop" where
  "read_capped os n capacity f =
     (case fs_files f n of
        None \<Rightarrow> (Inl (Filesystem ''cannot read claim-code entry''), f)
      | Some node \<Rightarrow> read_loop os capacity (fl_bytes node) [] f)"

function write_all :: "os \<Rightarrow> nat \<Rightarrow> byte list \<Rightarrow> unit fop" where
  "write_all os n bytes =
     (if bytes = [] then pass ()
      else attempt os (Filesystem ''cannot write claim-code entry'') (\<lambda>f.
        let count = taken os (fs_calls f - 1) (length bytes)
        in if count = 0 then (Inl (Filesystem ''cannot write claim-code entry''), f)
           else write_all os n (drop count bytes)
                  (update_file n (\<lambda>node. node\<lparr>fl_bytes := fl_bytes node @ take count bytes\<rparr>) f)))"
  by pat_completeness auto
termination
  by (relation "measure (\<lambda>(os, n, bytes). length bytes)") auto

declare read_loop.simps [simp del] write_all.simps [simp del]

subsection \<open>The manager\<close>

datatype entry_content = Exact | Partial

record entry =
  en_inode :: nat
  en_stat :: inode
  en_content :: entry_content

record claim_file_manager =
  cm_directory :: nat
  cm_expected_uid :: nat
  cm_expected_gid :: nat
  cm_service_uid :: nat
  cm_service_gid :: nat

text \<open>The stat of the opened parent of the database, or nothing when it cannot be opened.\<close>

definition from_database_descriptor ::
  "directory_stat option \<Rightarrow> nat \<Rightarrow> nat \<Rightarrow> claim_file_error + claim_file_manager" where
  "from_database_descriptor directory effective_user effective_group =
     (case directory of
        None \<Rightarrow> Inl (Filesystem ''cannot open claim-code directory'')
      | Some stat \<Rightarrow>
          if effective_user \<noteq> 0 \<and> dr_uid stat \<noteq> effective_user
          then Inl (Filesystem ''claim-code directory is not service-owned'')
          else Inr \<lparr>cm_directory = dr_inode stat, cm_expected_uid = dr_uid stat,
                    cm_expected_gid = dr_gid stat, cm_service_uid = effective_user,
                    cm_service_gid = effective_group\<rparr>)"

definition expected_command :: "(byte list \<Rightarrow> byte list) \<Rightarrow> byte list \<Rightarrow> claim_file_error + byte list" where
  "expected_command hex token =
     (if length token \<noteq> 32 then Inl InvalidToken
      else if length (hex token) \<noteq> 64 then Inl InvalidToken
      else Inr (as_bytes (lit ''/claim '') @ hex token @ [10]))"

definition open_directory :: "claim_file_manager \<Rightarrow> os \<Rightarrow> unit fop" where
  "open_directory M os =
     fbind (attempt os (Filesystem ''cannot open claim-code directory'') (pass ())) (\<lambda>_.
     attempt os (Filesystem ''cannot inspect claim-code directory'') (\<lambda>f.
       let stat = fs_directory f
       in if \<not> dr_is_dir stat \<or> dr_inode stat \<noteq> cm_directory M \<or> dr_uid stat \<noteq> cm_expected_uid M
             \<or> dr_gid stat \<noteq> cm_expected_gid M
          then (Inl UnsafeEntry, f) else (Inr (), f)))"

definition expected_owner :: "claim_file_manager \<Rightarrow> inode \<Rightarrow> bool" where
  "expected_owner M stat \<longleftrightarrow> fl_uid stat = cm_expected_uid M \<and> fl_gid stat = cm_expected_gid M"

definition service_owner :: "claim_file_manager \<Rightarrow> inode \<Rightarrow> bool" where
  "service_owner M stat \<longleftrightarrow> fl_uid stat = cm_service_uid M \<and> fl_gid stat = cm_service_gid M"

definition safe_stat :: "claim_file_manager \<Rightarrow> bool \<Rightarrow> inode \<Rightarrow> bool" where
  "safe_stat M temporary stat \<longleftrightarrow>
     \<not> (fl_kind stat \<noteq> RegularFile \<or> fl_mode stat \<noteq> OWNER_READ_WRITE \<or> fl_nlink stat = 0
        \<or> 2 < fl_nlink stat \<or> MAX_READ_LEN < length (fl_bytes stat))
     \<and> (expected_owner M stat \<or> temporary \<and> service_owner M stat \<and> fl_nlink stat = 1)"

definition entry_content_of :: "bool \<Rightarrow> byte list \<Rightarrow> byte list \<Rightarrow> entry_content option" where
  "entry_content_of temporary expected bytes =
     (if length bytes = length expected \<and> bytes = expected then Some Exact
      else if temporary \<and> length bytes < length expected \<and> take (length bytes) expected = bytes
      then Some Partial else None)"

definition inspect_entry ::
  "claim_file_manager \<Rightarrow> os \<Rightarrow> string \<Rightarrow> bool \<Rightarrow> byte list \<Rightarrow> entry option fop" where
  "inspect_entry M os name temporary expected =
     fbind (openat_read os name) (\<lambda>opened.
     case opened of
       None \<Rightarrow> pass None
     | Some n \<Rightarrow>
         fbind (fstat os UnsafeEntry n) (\<lambda>stat.
         if \<not> safe_stat M temporary stat then refuse UnsafeEntry
         else
           fbind (read_capped os n MAX_READ_LEN) (\<lambda>bytes.
           case entry_content_of temporary expected bytes of
             None \<Rightarrow> refuse UnsafeEntry
           | Some content \<Rightarrow>
               if content = Exact \<and> \<not> expected_owner M stat then refuse UnsafeEntry
               else pass (Some \<lparr>en_inode = n, en_stat = stat, en_content = content\<rparr>))))"

definition same_inode :: "entry \<Rightarrow> entry \<Rightarrow> bool" where
  "same_inode left right \<longleftrightarrow> en_inode left = en_inode right"

definition validate_pair :: "entry option \<Rightarrow> entry option \<Rightarrow> claim_file_error + unit" where
  "validate_pair target temp =
     (case target of
        Some t \<Rightarrow>
          if en_content t \<noteq> Exact then Inl UnsafeEntry
          else
            (case temp of
               None \<Rightarrow> if fl_nlink (en_stat t) \<noteq> 1 then Inl UnsafeEntry else Inr ()
             | Some p \<Rightarrow>
                 if same_inode t p
                 then if fl_nlink (en_stat t) \<noteq> 2 \<or> fl_nlink (en_stat p) \<noteq> 2 \<or> en_content p \<noteq> Exact
                      then Inl UnsafeEntry else Inr ()
                 else if fl_nlink (en_stat t) \<noteq> 1 \<or> fl_nlink (en_stat p) \<noteq> 1 then Inl UnsafeEntry
                 else Inr ())
      | None \<Rightarrow>
          (case temp of
             Some p \<Rightarrow> if fl_nlink (en_stat p) \<noteq> 1 then Inl UnsafeEntry else Inr ()
           | None \<Rightarrow> Inr ()))"

definition path_matches_entry :: "os \<Rightarrow> string \<Rightarrow> entry \<Rightarrow> bool fop" where
  "path_matches_entry os name e = fbind (statat os name) (\<lambda>current. pass (current = en_inode e))"

definition unlink_verified :: "os \<Rightarrow> string \<Rightarrow> entry \<Rightarrow> unit fop" where
  "unlink_verified os name e =
     fbind (path_matches_entry os name e) (\<lambda>matches.
     if \<not> matches then refuse UnsafeEntry
     else unlinkat os (Filesystem ''cannot remove claim-code entry'') name)"

definition sync_directory :: "os \<Rightarrow> unit fop" where
  "sync_directory os = fsync os (Filesystem ''cannot sync claim-code directory'')"

definition verify_new_temp :: "claim_file_manager \<Rightarrow> os \<Rightarrow> nat \<Rightarrow> unit fop" where
  "verify_new_temp M os n =
     fbind (fstat os (Filesystem ''cannot inspect claim-code temporary file'') n) (\<lambda>stat.
     if fl_kind stat \<noteq> RegularFile \<or> fl_mode stat \<noteq> OWNER_READ_WRITE \<or> fl_uid stat \<noteq> cm_expected_uid M
        \<or> fl_gid stat \<noteq> cm_expected_gid M \<or> fl_nlink stat \<noteq> 1
     then refuse UnsafeEntry else pass ())"

definition create_and_publish :: "claim_file_manager \<Rightarrow> os \<Rightarrow> byte list \<Rightarrow> unit fop" where
  "create_and_publish M os expected =
     fbind (openat_create os (cm_service_uid M) (Filesystem ''cannot create claim-code temporary file'')
       TEMP_NAME) (\<lambda>temp.
     fbind (if cm_service_uid M = 0
       then fchown os (Filesystem ''cannot set claim-code ownership'') temp (cm_expected_uid M) (cm_expected_gid M)
       else pass ()) (\<lambda>_.
     fbind (verify_new_temp M os temp) (\<lambda>_.
     fbind (write_all os temp expected) (\<lambda>_.
     fbind (fsync os (Filesystem ''cannot sync claim-code file'')) (\<lambda>_.
     fbind (linkat os (Filesystem ''cannot publish claim-code file'') TEMP_NAME TARGET_NAME) (\<lambda>_.
     fbind (sync_directory os) (\<lambda>_.
     fbind (fstat os (Filesystem ''cannot inspect published claim-code'') temp) (\<lambda>stat.
     fbind (unlink_verified os TEMP_NAME \<lparr>en_inode = temp, en_stat = stat, en_content = Exact\<rparr>) (\<lambda>_.
     sync_directory os)))))))))"

text \<open>What every operation does first: both entries are inspected and judged together.\<close>

definition inspect_pair :: "claim_file_manager \<Rightarrow> os \<Rightarrow> byte list \<Rightarrow> (entry option \<times> entry option) fop" where
  "inspect_pair M os expected =
     fbind (open_directory M os) (\<lambda>_.
     fbind (inspect_entry M os TARGET_NAME False expected) (\<lambda>target.
     fbind (inspect_entry M os TEMP_NAME True expected) (\<lambda>temp.
     case validate_pair target temp of Inl e \<Rightarrow> refuse e | Inr _ \<Rightarrow> pass (target, temp))))"

definition with_command ::
  "(byte list \<Rightarrow> byte list) \<Rightarrow> byte list \<Rightarrow> (byte list \<Rightarrow> 'a fop) \<Rightarrow> 'a fop" where
  "with_command hex token k = (case expected_command hex token of Inl e \<Rightarrow> refuse e | Inr expected \<Rightarrow> k expected)"

definition validate_existing_before_reconciliation ::
  "(byte list \<Rightarrow> byte list) \<Rightarrow> claim_file_manager \<Rightarrow> os \<Rightarrow> byte list \<Rightarrow> unit fop" where
  "validate_existing_before_reconciliation hex M os token =
     with_command hex token (\<lambda>expected. fbind (inspect_pair M os expected) (\<lambda>_. pass ()))"

text \<open>A temporary entry whose name still leads to the inspected file is removed.\<close>

definition remove_temp :: "os \<Rightarrow> entry option \<Rightarrow> unit fop" where
  "remove_temp os temp =
     (case temp of
        None \<Rightarrow> pass ()
      | Some p \<Rightarrow>
          fbind (path_matches_entry os TEMP_NAME p) (\<lambda>matches.
          if matches then fbind (unlink_verified os TEMP_NAME p) (\<lambda>_. sync_directory os) else pass ()))"

definition retire_after_claim ::
  "(byte list \<Rightarrow> byte list) \<Rightarrow> claim_file_manager \<Rightarrow> os \<Rightarrow> byte list \<Rightarrow> unit fop" where
  "retire_after_claim hex M os token =
     with_command hex token (\<lambda>expected.
     fbind (inspect_pair M os expected) (\<lambda>(target, temp).
     fbind (case target of
         None \<Rightarrow> pass ()
       | Some t \<Rightarrow> fbind (unlink_verified os TARGET_NAME t) (\<lambda>_. sync_directory os)) (\<lambda>_.
     remove_temp os temp)))"

definition reconcile_unclaimed ::
  "(byte list \<Rightarrow> byte list) \<Rightarrow> claim_file_manager \<Rightarrow> os \<Rightarrow> byte list \<Rightarrow> unit fop" where
  "reconcile_unclaimed hex M os token =
     with_command hex token (\<lambda>expected.
     fbind (inspect_pair M os expected) (\<lambda>(target, temp).
     case target of
       Some _ \<Rightarrow> remove_temp os temp
     | None \<Rightarrow>
         fbind (case temp of
             None \<Rightarrow> pass ()
           | Some p \<Rightarrow> fbind (unlink_verified os TEMP_NAME p) (\<lambda>_. sync_directory os)) (\<lambda>_.
         create_and_publish M os expected)))"

definition reconcile_claim_file ::
  "(byte list \<Rightarrow> byte list) \<Rightarrow> claim_file_manager \<Rightarrow> os \<Rightarrow> owner_identity \<Rightarrow> byte list \<Rightarrow> unit fop" where
  "reconcile_claim_file hex M os owner_state token =
     (case owner_state of
        Unclaimed \<Rightarrow> reconcile_unclaimed hex M os token
      | Claimed _ _ _ _ _ \<Rightarrow> retire_after_claim hex M os token)"

end
