(* ===== verification/Claim_File_Safety.thy ===== *)
theory Claim_File_Safety
  imports Claim_File
begin

section \<open>What the claim-code file survives\<close>

text \<open>
  The states the directory passes through while the file is created, published and retired, under
  every failure of the operating system; and what a run without failure reaches from any of them.
\<close>

subsection \<open>Runs of operations\<close>

text \<open>Two directories that differ only in the count of calls.\<close>

definition core :: "fs \<Rightarrow> fs" where
  "core f = f\<lparr>fs_calls := 0\<rparr>"

lemma core_fields:
  assumes "core f = core g"
  shows "fs_names f = fs_names g" "fs_files f = fs_files g" "fs_next f = fs_next g"
    "fs_directory f = fs_directory g"
  using arg_cong [OF assms, of fs_names] arg_cong [OF assms, of fs_files] arg_cong [OF assms, of fs_next]
    arg_cong [OF assms, of fs_directory] by (simp_all add: core_def)

lemma core_calls [simp]: "core (f\<lparr>fs_calls := n\<rparr>) = core f"
  by (simp add: core_def)

definition fault_free :: "os \<Rightarrow> bool" where
  "fault_free os \<longleftrightarrow> (\<forall>n. \<not> os_fails os n) \<and> (\<forall>n. 0 < os_accepts os n)"

text \<open>From \<open>F\<close>, \<open>m\<close> gives \<open>x\<close> and the directory \<open>F'\<close>; or the operating system failed and the directory
  is a safe one.\<close>

definition runs :: "os \<Rightarrow> (fs \<Rightarrow> bool) \<Rightarrow> fs \<Rightarrow> 'a fop \<Rightarrow> 'a \<Rightarrow> fs \<Rightarrow> bool" where
  "runs os S F m x F' \<longleftrightarrow>
     (\<forall>f. core f = core F \<longrightarrow>
        (case m f of
           (Inl _, g) \<Rightarrow> S (core g) \<and> \<not> fault_free os
         | (Inr y, g) \<Rightarrow> y = x \<and> core g = core F'))"

lemma runs_fbind:
  assumes "runs os S F m x G" and "runs os S G (k x) y H"
  shows "runs os S F (fbind m k) y H"
  unfolding runs_def
proof (intro allI impI)
  fix f
  assume "core f = core F"
  then have "case m f of (Inl _, g) \<Rightarrow> S (core g) \<and> \<not> fault_free os
      | (Inr y, g) \<Rightarrow> y = x \<and> core g = core G"
    using assms(1) by (simp only: runs_def)
  then show "case fbind m k f of (Inl _, g) \<Rightarrow> S (core g) \<and> \<not> fault_free os
      | (Inr z, g) \<Rightarrow> z = y \<and> core g = core H"
    using assms(2) by (cases "m f"; cases "fst (m f)") (auto simp: runs_def fbind_def)
qed

lemma runs_pass: "core F = core F' \<Longrightarrow> runs os S F (pass x) x F'"
  by (simp add: runs_def pass_def)

lemma runs_attempt:
  assumes "S (core F)"
    and "\<And>f. fs_names f = fs_names F \<Longrightarrow> fs_files f = fs_files F \<Longrightarrow> fs_next f = fs_next F
      \<Longrightarrow> fs_directory f = fs_directory F \<Longrightarrow> core f = core F
      \<Longrightarrow> \<exists>g. work f = (Inr x, g) \<and> core g = core F'"
  shows "runs os S F (attempt os e work) x F'"
  unfolding runs_def
proof (intro allI impI)
  fix f
  assume f: "core f = core F"
  show "case attempt os e work f of (Inl _, g) \<Rightarrow> S (core g) \<and> \<not> fault_free os
      | (Inr y, g) \<Rightarrow> y = x \<and> core g = core F'"
  proof (cases "os_fails os (fs_calls f)")
    case True
    then show ?thesis using assms(1) f unfolding attempt_def fault_free_def Let_def by auto
  next
    case False
    let ?f = "f\<lparr>fs_calls := fs_calls f + 1\<rparr>"
    have "core ?f = core F" using f by simp
    from assms(2) [OF core_fields [OF this] this] obtain g where "work ?f = (Inr x, g)" "core g = core F'" by blast
    with False show ?thesis unfolding attempt_def Let_def by simp
  qed
qed

lemma runs_fsync: "S (core F) \<Longrightarrow> core F = core F' \<Longrightarrow> runs os S F (fsync os e) () F'"
  unfolding fsync_def by (rule runs_attempt) (simp_all add: pass_def)

lemma runs_fstat:
  "S (core F) \<Longrightarrow> fs_files F n = Some node \<Longrightarrow> runs os S F (fstat os e n) node F"
  unfolding fstat_def by (rule runs_attempt) auto

lemma runs_openat_none: "S (core F) \<Longrightarrow> fs_names F name = None \<Longrightarrow> runs os S F (openat_read os name) None F"
  unfolding openat_read_def by (rule runs_attempt) auto

lemma runs_openat_some:
  "S (core F) \<Longrightarrow> fs_names F name = Some n \<Longrightarrow> fs_files F n = Some node \<Longrightarrow> fl_kind node = RegularFile
    \<Longrightarrow> runs os S F (openat_read os name) (Some n) F"
  unfolding openat_read_def by (rule runs_attempt) auto

lemma runs_statat: "S (core F) \<Longrightarrow> fs_names F name = Some n \<Longrightarrow> runs os S F (statat os name) n F"
  unfolding statat_def by (rule runs_attempt) auto

lemma update_file_core: "core f = core F \<Longrightarrow> core (update_file n h f) = core (update_file n h F)"
  using core_fields [of f F] unfolding update_file_def core_def by (cases f, cases F) simp

definition unlinked :: "string \<Rightarrow> nat \<Rightarrow> fs \<Rightarrow> fs" where
  "unlinked name n F = update_file n (\<lambda>node. node\<lparr>fl_nlink := fl_nlink node - 1\<rparr>)
     (F\<lparr>fs_names := (fs_names F)(name := None)\<rparr>)"

definition linked :: "string \<Rightarrow> nat \<Rightarrow> fs \<Rightarrow> fs" where
  "linked name n F = update_file n (\<lambda>node. node\<lparr>fl_nlink := fl_nlink node + 1\<rparr>)
     (F\<lparr>fs_names := (fs_names F)(name \<mapsto> n)\<rparr>)"

lemma names_core: "core f = core F \<Longrightarrow> core (f\<lparr>fs_names := m\<rparr>) = core (F\<lparr>fs_names := m\<rparr>)"
  using core_fields [of f F] unfolding core_def by (cases f, cases F) simp

lemma runs_unlinkat:
  "S (core F) \<Longrightarrow> fs_names F name = Some n \<Longrightarrow> runs os S F (unlinkat os e name) () (unlinked name n F)"
  unfolding unlinkat_def
  by (rule runs_attempt) (auto simp: unlinked_def intro!: update_file_core names_core)

lemma runs_linkat:
  "S (core F) \<Longrightarrow> fs_names F old = Some n \<Longrightarrow> fs_names F new = None
    \<Longrightarrow> runs os S F (linkat os e old new) () (linked new n F)"
  unfolding linkat_def
  by (rule runs_attempt) (auto simp: linked_def intro!: update_file_core names_core)

lemma runs_fchown:
  "S (core F) \<Longrightarrow> runs os S F (fchown os e n uid gid) ()
     (update_file n (\<lambda>node. node\<lparr>fl_uid := uid, fl_gid := gid\<rparr>) F)"
  unfolding fchown_def by (rule runs_attempt) (auto intro!: update_file_core)

definition new_file :: "os \<Rightarrow> nat \<Rightarrow> inode" where
  "new_file os uid = \<lparr>fl_kind = RegularFile, fl_mode = OWNER_READ_WRITE AND NOT (os_umask os), fl_uid = uid,
     fl_gid = os_created_gid os, fl_nlink = 1, fl_bytes = []\<rparr>"

definition created :: "os \<Rightarrow> nat \<Rightarrow> string \<Rightarrow> fs \<Rightarrow> fs" where
  "created os uid name F = F\<lparr>fs_names := (fs_names F)(name \<mapsto> fs_next F),
     fs_files := (fs_files F)(fs_next F \<mapsto> new_file os uid), fs_next := fs_next F + 1\<rparr>"

lemma runs_openat_create:
  "S (core F) \<Longrightarrow> fs_names F name = None
    \<Longrightarrow> runs os S F (openat_create os uid e name) (fs_next F) (created os uid name F)"
  unfolding openat_create_def
  by (rule runs_attempt)
    (auto simp: created_def new_file_def Let_def core_def)

lemma runs_unlink_verified:
  assumes "S (core F)" and "fs_names F name = Some (en_inode e)"
  shows "runs os S F (unlink_verified os name e) () (unlinked name (en_inode e) F)"
  unfolding unlink_verified_def path_matches_entry_def
  by (rule runs_fbind [where x = True and G = F], rule runs_fbind [where x = "en_inode e" and G = F])
    (use assms in \<open>auto intro: runs_statat runs_pass runs_unlinkat\<close>)

lemma runs_remove_temp:
  assumes "S (core F)" and "fs_names F TEMP_NAME = Some (en_inode p)" and "S (core (unlinked TEMP_NAME (en_inode p) F))"
  shows "runs os S F (remove_temp os (Some p)) () (unlinked TEMP_NAME (en_inode p) F)"
  unfolding remove_temp_def path_matches_entry_def option.case
  by (rule runs_fbind [where x = True and G = F], rule runs_fbind [where x = "en_inode p" and G = F])
    (use assms in \<open>auto intro!: runs_statat runs_pass runs_unlink_verified runs_fsync runs_fbind simp: sync_directory_def\<close>)

subsection \<open>Loops of reads and writes\<close>

lemma runs_attempt_step:
  assumes "S (core F)"
    and "\<And>f. core f = core F \<Longrightarrow>
      (case work f of (Inl _, g) \<Rightarrow> S (core g) \<and> \<not> fault_free os | (Inr y, g) \<Rightarrow> y = x \<and> core g = core F')"
  shows "runs os S F (attempt os e work) x F'"
  unfolding runs_def
proof (intro allI impI)
  fix f
  assume f: "core f = core F"
  let ?f = "f\<lparr>fs_calls := fs_calls f + 1\<rparr>"
  show "case attempt os e work f of (Inl _, g) \<Rightarrow> S (core g) \<and> \<not> fault_free os
      | (Inr y, g) \<Rightarrow> y = x \<and> core g = core F'"
  proof (cases "os_fails os (fs_calls f)")
    case True
    then show ?thesis using assms(1) f unfolding attempt_def fault_free_def Let_def by auto
  next
    case False
    have "core ?f = core F" using f by simp
    from assms(2) [OF this] False show ?thesis unfolding attempt_def Let_def by simp
  qed
qed

lemma runsD:
  "runs os S F m x F' \<Longrightarrow> core f = core F \<Longrightarrow>
    (case m f of (Inl _, g) \<Rightarrow> S (core g) \<and> \<not> fault_free os | (Inr y, g) \<Rightarrow> y = x \<and> core g = core F')"
  by (simp add: runs_def)

lemma runs_read_loop:
  assumes "S (core F)" and "length read \<le> capacity"
  shows "runs os S F (read_loop os capacity rest read) (take capacity (read @ rest)) F"
  using assms(2)
proof (induction "length rest" arbitrary: rest read rule: less_induct)
  case less
  show ?case
  proof (cases "length read < capacity")
    case False
    with less.prems show ?thesis by (simp add: read_loop.simps runs_pass)
  next
    case True
    show ?thesis
      unfolding read_loop.simps [of os capacity rest read] if_P [OF True]
    proof (rule runs_attempt_step [where S = S and F = F and x = "take capacity (read @ rest)", OF assms(1)], goal_cases)
      case (1 f)
      show ?case
      proof (cases "rest = []")
        case True
        with \<open>length read < capacity\<close> 1 show ?thesis by (simp add: Let_def)
      next
        case False
        define count where "count = max 1 (taken os (fs_calls f - 1) (min (length rest) (capacity - length read)))"
        have count: "1 \<le> count" "count \<le> length rest" "count \<le> capacity - length read"
          using False \<open>length read < capacity\<close> by (auto simp: count_def taken_def Suc_le_eq)
        have "runs os S F (read_loop os capacity (drop count rest) (read @ take count rest))
            (take capacity (read @ rest)) F"
          using less.hyps [of "drop count rest" "read @ take count rest"] count False by simp
        from runsD [OF this 1] False show ?thesis
          unfolding Let_def count_def [symmetric] by simp
      qed
    qed
  qed
qed

lemma runs_read_capped:
  assumes "S (core F)" and "fs_files F n = Some node"
  shows "runs os S F (read_capped os n capacity) (take capacity (fl_bytes node)) F"
  unfolding runs_def
proof (intro allI impI)
  fix f
  assume f: "core f = core F"
  have "runs os S F (read_loop os capacity (fl_bytes node) []) (take capacity (fl_bytes node)) F"
    using runs_read_loop [where S = S and F = F and read = "[]", OF assms(1)] by simp
  from runsD [OF this f] core_fields(2) [OF f] assms(2)
  show "case read_capped os n capacity f of (Inl _, g) \<Rightarrow> S (core g) \<and> \<not> fault_free os
      | (Inr y, g) \<Rightarrow> y = take capacity (fl_bytes node) \<and> core g = core F"
    by (simp add: read_capped_def)
qed

definition with_bytes :: "nat \<Rightarrow> byte list \<Rightarrow> fs \<Rightarrow> fs" where
  "with_bytes n bytes = update_file n (\<lambda>node. node\<lparr>fl_bytes := bytes\<rparr>)"

lemma with_bytes_append:
  "update_file n (\<lambda>node. node\<lparr>fl_bytes := fl_bytes node @ extra\<rparr>) (with_bytes n bytes F)
    = with_bytes n (bytes @ extra) F"
  by (simp add: with_bytes_def update_file_def option.map_comp comp_def)

lemma runs_write_all:
  assumes "\<And>k. S (core (with_bytes n (take k all) F))"
  shows "written @ bytes = all
    \<Longrightarrow> runs os S (with_bytes n written F) (write_all os n bytes) () (with_bytes n all F)"
proof (induction "length bytes" arbitrary: bytes written rule: less_induct)
  case less
  have here: "S (core (with_bytes n written F))"
    using assms [of "length written"] less.prems by auto
  show ?case
  proof (cases "bytes = []")
    case True
    with less.prems show ?thesis by (simp add: write_all.simps runs_pass)
  next
    case False
    show ?thesis
      unfolding write_all.simps [of os n bytes] if_not_P [OF False]
    proof (rule runs_attempt_step [where S = S and F = "with_bytes n written F" and x = "()", OF here], goal_cases)
      case (1 f)
      define count where "count = taken os (fs_calls f - 1) (length bytes)"
      show ?case
      proof (cases "count = 0")
        case True
        then have "\<not> fault_free os" using False by (auto simp: count_def taken_def fault_free_def min_def split: if_split_asm)
        with True here 1 show ?thesis unfolding Let_def count_def [symmetric] by simp
      next
        case False
        have next_step: "runs os S (with_bytes n (written @ take count bytes) F) (write_all os n (drop count bytes)) ()
            (with_bytes n all F)"
          by (rule less.hyps) (use False \<open>bytes \<noteq> []\<close> less.prems in auto)
        have "core (update_file n (\<lambda>node. node\<lparr>fl_bytes := fl_bytes node @ take count bytes\<rparr>) f)
            = core (with_bytes n (written @ take count bytes) F)"
          using update_file_core [OF 1] by (simp only: with_bytes_append)
        from runsD [OF next_step this] False show ?thesis
          unfolding Let_def count_def [symmetric] by simp
      qed
    qed
  qed
qed

subsection \<open>Sound directories\<close>

text \<open>What an inspection that no call disturbs finds.\<close>

definition survey ::
  "claim_file_manager \<Rightarrow> bool \<Rightarrow> byte list \<Rightarrow> fs \<Rightarrow> string \<Rightarrow> claim_file_error + entry option" where
  "survey M temporary expected F name =
     (case fs_names F name of
        None \<Rightarrow> Inr None
      | Some n \<Rightarrow>
          (case fs_files F n of
             None \<Rightarrow> Inl UnsafeEntry
           | Some node \<Rightarrow>
               if \<not> safe_stat M temporary node then Inl UnsafeEntry
               else
                 (case entry_content_of temporary expected (fl_bytes node) of
                    None \<Rightarrow> Inl UnsafeEntry
                  | Some content \<Rightarrow>
                      if content = Exact \<and> \<not> expected_owner M node then Inl UnsafeEntry
                      else Inr (Some \<lparr>en_inode = n, en_stat = node, en_content = content\<rparr>))))"

lemma runs_inspect_entry:
  assumes "S (core F)" and "survey M temporary expected F name = Inr found"
  shows "runs os S F (inspect_entry M os name temporary expected) found F"
proof (cases "fs_names F name")
  case None
  then show ?thesis
    unfolding inspect_entry_def using assms
    by (intro runs_fbind [OF runs_openat_none]) (simp_all add: survey_def runs_pass)
next
  case (Some n)
  with assms(2) obtain node content where node: "fs_files F n = Some node" "safe_stat M temporary node"
    and content: "entry_content_of temporary expected (fl_bytes node) = Some content"
    and owner_ok: "content = Exact \<longrightarrow> expected_owner M node"
    and found: "found = Some \<lparr>en_inode = n, en_stat = node, en_content = content\<rparr>"
    by (auto simp: survey_def split: option.splits if_split_asm)
  have regular: "fl_kind node = RegularFile" and short: "take MAX_READ_LEN (fl_bytes node) = fl_bytes node"
    using node(2) by (auto simp: safe_stat_def)
  have opened: "runs os S F (openat_read os name) (Some n) F" and stat: "runs os S F (fstat os UnsafeEntry n) node F"
    and bytes: "runs os S F (read_capped os n MAX_READ_LEN) (fl_bytes node) F"
    using runs_openat_some [where S = S] runs_fstat [where S = S] runs_read_capped [where S = S and capacity = MAX_READ_LEN]
      assms(1) Some node(1) regular short by fastforce+
  have judged: "runs os S F (case entry_content_of temporary expected (fl_bytes node) of None \<Rightarrow> refuse UnsafeEntry
      | Some content \<Rightarrow> if content = Exact \<and> \<not> expected_owner M node then refuse UnsafeEntry
          else pass (Some \<lparr>en_inode = n, en_stat = node, en_content = content\<rparr>)) found F"
    using content owner_ok found by (auto intro: runs_pass)
  show ?thesis
    unfolding inspect_entry_def
    by (rule runs_fbind [OF opened], unfold option.case, rule runs_fbind [OF stat], simp only: node(2) not_True_eq_False
        if_False, rule runs_fbind [OF bytes], rule judged)
qed

definition directory_kept :: "claim_file_manager \<Rightarrow> fs \<Rightarrow> bool" where
  "directory_kept M F \<longleftrightarrow> dr_is_dir (fs_directory F) \<and> dr_inode (fs_directory F) = cm_directory M
     \<and> dr_uid (fs_directory F) = cm_expected_uid M \<and> dr_gid (fs_directory F) = cm_expected_gid M"

definition sound_directory :: "claim_file_manager \<Rightarrow> byte list \<Rightarrow> fs \<Rightarrow> bool" where
  "sound_directory M expected F \<longleftrightarrow> directory_kept M F
     \<and> (\<exists>target temp. survey M False expected F TARGET_NAME = Inr target
          \<and> survey M True expected F TEMP_NAME = Inr temp \<and> validate_pair target temp = Inr ())"

lemma runs_open_directory: "S (core F) \<Longrightarrow> directory_kept M F \<Longrightarrow> runs os S F (open_directory M os) () F"
  unfolding open_directory_def
  by (intro runs_fbind [where x = "()" and G = F] runs_attempt) (simp_all add: pass_def directory_kept_def Let_def)

lemma runs_inspect_pair:
  assumes "S (core F)" and "directory_kept M F" and "survey M False expected F TARGET_NAME = Inr target"
    and "survey M True expected F TEMP_NAME = Inr temp" and "validate_pair target temp = Inr ()"
  shows "runs os S F (inspect_pair M os expected) (target, temp) F"
  unfolding inspect_pair_def
  by (intro runs_fbind [OF runs_open_directory] runs_fbind [OF runs_inspect_entry [OF _ assms(3)]]
      runs_fbind [OF runs_inspect_entry [OF _ assms(4)]]) (use assms in \<open>simp_all add: runs_pass\<close>)

text \<open>A node that may be a claim-code file.\<close>

definition acceptable :: "claim_file_manager \<Rightarrow> bool \<Rightarrow> byte list \<Rightarrow> inode \<Rightarrow> entry_content \<Rightarrow> bool" where
  "acceptable M temporary expected node content \<longleftrightarrow> safe_stat M temporary node
     \<and> entry_content_of temporary expected (fl_bytes node) = Some content \<and> (content = Exact \<longrightarrow> expected_owner M node)"

lemma survey_None_iff: "survey M temporary expected F name = Inr None \<longleftrightarrow> fs_names F name = None"
  by (auto simp: survey_def split: option.splits)

lemma survey_Some_iff:
  "survey M temporary expected F name = Inr (Some e) \<longleftrightarrow>
     (\<exists>n node content. fs_names F name = Some n \<and> fs_files F n = Some node
        \<and> acceptable M temporary expected node content
        \<and> e = \<lparr>en_inode = n, en_stat = node, en_content = content\<rparr>)"
  by (auto simp: survey_def acceptable_def split: option.splits)

lemma acceptable_exact_temporary:
  "acceptable M False expected node content \<Longrightarrow> acceptable M True expected node Exact \<and> content = Exact"
  by (auto simp: acceptable_def safe_stat_def entry_content_of_def split: if_split_asm)

lemma acceptable_target:
  "acceptable M True expected node Exact \<Longrightarrow> acceptable M False expected node Exact"
  by (auto simp: acceptable_def safe_stat_def entry_content_of_def split: if_split_asm)

lemma acceptable_nlink:
  assumes "acceptable M temporary expected node content" and "0 < k" and "k \<le> 2"
    and "content = Exact \<or> k = 1"
  shows "acceptable M temporary expected (node\<lparr>fl_nlink := k\<rparr>) content"
  using assms by (auto simp: acceptable_def safe_stat_def expected_owner_def service_owner_def)

text \<open>The five shapes of a sound directory.\<close>

definition holds :: "claim_file_manager \<Rightarrow> bool \<Rightarrow> byte list \<Rightarrow> fs \<Rightarrow> string \<Rightarrow> nat \<Rightarrow> nat \<Rightarrow> bool" where
  "holds M temporary expected F name n links \<longleftrightarrow> fs_names F name = Some n
     \<and> (\<exists>node content. fs_files F n = Some node \<and> acceptable M temporary expected node content \<and> fl_nlink node = links)"

lemma survey_holds:
  assumes "survey M temporary expected F name = Inr (Some e)"
  shows "holds M temporary expected F name (en_inode e) (fl_nlink (en_stat e))"
  using assms unfolding survey_Some_iff holds_def by auto

lemma holds_survey:
  assumes "holds M temporary expected F name n k"
  shows "\<exists>e. survey M temporary expected F name = Inr (Some e) \<and> en_inode e = n \<and> fl_nlink (en_stat e) = k"
  using assms unfolding survey_Some_iff holds_def by force

lemma target_exact:
  "survey M False expected F name = Inr (Some e) \<Longrightarrow> en_content e = Exact"
  using acceptable_exact_temporary unfolding survey_Some_iff by force

lemma same_node:
  "survey M False expected F name = Inr (Some e) \<Longrightarrow> fs_names F name' = Some (en_inode e)
    \<Longrightarrow> survey M True expected F name' = Inr (Some e)"
  using acceptable_exact_temporary unfolding survey_Some_iff by force

lemma survey_name: "survey M temporary expected F name = Inr (Some e) \<Longrightarrow> fs_names F name = Some (en_inode e)"
  unfolding survey_Some_iff by auto

lemma sound_directoryI:
  assumes "directory_kept M F" and "survey M False expected F TARGET_NAME = Inr target"
    and "survey M True expected F TEMP_NAME = Inr temp" and "validate_pair target temp = Inr ()"
  shows "sound_directory M expected F"
  using assms unfolding sound_directory_def by blast

lemma sound_none:
  assumes "directory_kept M F" and "fs_names F TARGET_NAME = None" and "fs_names F TEMP_NAME = None"
  shows "sound_directory M expected F"
  by (rule sound_directoryI [where target = None and temp = None])
    (use assms in \<open>simp_all add: survey_None_iff validate_pair_def\<close>)

lemma sound_temp:
  assumes "directory_kept M F" and "fs_names F TARGET_NAME = None" and "holds M True expected F TEMP_NAME n 1"
  shows "sound_directory M expected F"
proof -
  from holds_survey [OF assms(3)] obtain e where "survey M True expected F TEMP_NAME = Inr (Some e)"
    and "fl_nlink (en_stat e) = 1" by blast
  then show ?thesis
    using assms(1,2) by (intro sound_directoryI [where target = None and temp = "Some e"])
      (simp_all add: survey_None_iff validate_pair_def)
qed

lemma sound_target:
  assumes "directory_kept M F" and "holds M False expected F TARGET_NAME n 1" and "fs_names F TEMP_NAME = None"
  shows "sound_directory M expected F"
proof -
  from holds_survey [OF assms(2)] obtain e where "survey M False expected F TARGET_NAME = Inr (Some e)"
    and "fl_nlink (en_stat e) = 1" by blast
  then show ?thesis
    using assms(1,3) target_exact by (intro sound_directoryI [where target = "Some e" and temp = None])
      (simp_all add: survey_None_iff validate_pair_def)
qed

lemma sound_linked:
  assumes "directory_kept M F" and "holds M False expected F TARGET_NAME n 2" and "fs_names F TEMP_NAME = Some n"
  shows "sound_directory M expected F"
proof -
  from holds_survey [OF assms(2)] obtain e where "survey M False expected F TARGET_NAME = Inr (Some e)"
    and "en_inode e = n" and "fl_nlink (en_stat e) = 2" by blast
  then show ?thesis
    using assms(1,3) target_exact same_node
    by (intro sound_directoryI [where target = "Some e" and temp = "Some e"])
      (simp_all add: validate_pair_def same_inode_def)
qed

lemma sound_two:
  assumes "directory_kept M F" and "holds M False expected F TARGET_NAME n 1"
    and "holds M True expected F TEMP_NAME m 1" and "n \<noteq> m"
  shows "sound_directory M expected F"
proof -
  from holds_survey [OF assms(2)] obtain e where "survey M False expected F TARGET_NAME = Inr (Some e)"
    and "en_inode e = n" and "fl_nlink (en_stat e) = 1" by blast
  moreover from holds_survey [OF assms(3)] obtain p where "survey M True expected F TEMP_NAME = Inr (Some p)"
    and "en_inode p = m" and "fl_nlink (en_stat p) = 1" by blast
  ultimately show ?thesis
    using assms(1,4) target_exact
    by (intro sound_directoryI [where target = "Some e" and temp = "Some p"])
      (simp_all add: validate_pair_def same_inode_def)
qed

lemma sound_cases:
  assumes "sound_directory M expected F"
  obtains (none) "fs_names F TARGET_NAME = None" "fs_names F TEMP_NAME = None"
    | (temp) n where "fs_names F TARGET_NAME = None" "holds M True expected F TEMP_NAME n 1"
    | (target) n where "holds M False expected F TARGET_NAME n 1" "fs_names F TEMP_NAME = None"
    | (linked) n where "holds M False expected F TARGET_NAME n 2" "fs_names F TEMP_NAME = Some n"
    | (two) n m where "n \<noteq> m" "holds M False expected F TARGET_NAME n 1" "holds M True expected F TEMP_NAME m 1"
proof -
  from assms obtain target temp where target: "survey M False expected F TARGET_NAME = Inr target"
    and temp: "survey M True expected F TEMP_NAME = Inr temp" and pair: "validate_pair target temp = Inr ()"
    unfolding sound_directory_def by blast
  show thesis
  proof (cases target)
    case None
    then have none: "fs_names F TARGET_NAME = None" using target by (simp add: survey_None_iff)
    show thesis
    proof (cases temp)
      case None
      with temp none that(1) show thesis by (simp add: survey_None_iff)
    next
      case (Some p)
      with pair \<open>target = None\<close> have "fl_nlink (en_stat p) = 1" by (simp add: validate_pair_def split: if_split_asm)
      with survey_holds [OF temp [unfolded Some]] none that(2) show thesis by simp
    qed
  next
    case (Some t)
    note t = survey_holds [OF target [unfolded Some]]
    show thesis
    proof (cases temp)
      case None
      with pair Some have "fl_nlink (en_stat t) = 1" by (simp add: validate_pair_def split: if_split_asm)
      with t None temp that(3) show thesis by (simp add: survey_None_iff)
    next
      case (Some p)
      note p = survey_holds [OF temp [unfolded Some]] survey_name [OF temp [unfolded Some]]
      show thesis
      proof (cases "en_inode t = en_inode p")
        case True
        with pair Some \<open>target = Some t\<close> have "fl_nlink (en_stat t) = 2"
          by (simp add: validate_pair_def same_inode_def split: if_split_asm)
        with t p True that(4) show thesis by simp
      next
        case False
        with pair Some \<open>target = Some t\<close> have "fl_nlink (en_stat t) = 1" "fl_nlink (en_stat p) = 1"
          by (simp_all add: validate_pair_def same_inode_def split: if_split_asm)
        with t p(1) False that(5) show thesis by simp
      qed
    qed
  qed
qed

end
