(* ===== verification/Claim_File_Recovery.thy ===== *)
theory Claim_File_Recovery
  imports Claim_File_Safety
begin

section \<open>Recovery of the claim-code file\<close>

text \<open>
  Every state in which a failing run may leave the directory is a sound one, and a run that does
  not fail brings a sound directory to the state its owner asks for.
\<close>

subsection \<open>What the steps keep\<close>

definition claimed_inode :: "fs \<Rightarrow> nat \<Rightarrow> bool" where
  "claimed_inode F n \<longleftrightarrow> fs_names F TARGET_NAME = Some n \<or> fs_names F TEMP_NAME = Some n"

text \<open>Nothing but the two entries and what they lead to has changed.\<close>

definition spared :: "fs \<Rightarrow> fs \<Rightarrow> bool" where
  "spared F G \<longleftrightarrow> fs_next F \<le> fs_next G \<and> fs_directory G = fs_directory F
     \<and> (\<forall>name. name \<noteq> TARGET_NAME \<and> name \<noteq> TEMP_NAME \<longrightarrow> fs_names G name = fs_names F name)
     \<and> (\<forall>n. n < fs_next F \<and> \<not> claimed_inode F n \<longrightarrow> fs_files G n = fs_files F n \<and> \<not> claimed_inode G n)"

lemma spared_refl [simp]: "spared F F"
  by (simp add: spared_def)

lemma spared_trans: "spared F G \<Longrightarrow> spared G H \<Longrightarrow> spared F H"
  unfolding spared_def by (metis (no_types) order_trans order_less_le_trans)

lemma core_simps [simp]:
  "fs_names (core F) = fs_names F" "fs_files (core F) = fs_files F" "fs_next (core F) = fs_next F"
  "fs_directory (core F) = fs_directory F"
  by (simp_all add: core_def)

lemma spared_core [simp]: "spared F (core G) = spared F G" "spared (core F) G = spared F G"
  by (simp_all add: spared_def claimed_inode_def)

lemma sound_core [simp]: "sound_directory M expected (core F) = sound_directory M expected F"
  unfolding sound_directory_def directory_kept_def survey_def core_simps ..

lemma spared_update: "claimed_inode F n \<Longrightarrow> spared F (update_file n h F)"
  by (auto simp: spared_def update_file_def claimed_inode_def)

lemma names_distinct [simp]: "TARGET_NAME \<noteq> TEMP_NAME" "TEMP_NAME \<noteq> TARGET_NAME"
  by (simp_all add: TARGET_NAME_def TEMP_NAME_def)

lemma spared_unlinked:
  "fs_names F name = Some n \<Longrightarrow> name = TARGET_NAME \<or> name = TEMP_NAME \<Longrightarrow> spared F (unlinked name n F)"
  by (auto simp: spared_def unlinked_def update_file_def claimed_inode_def)

lemma spared_created: "spared F (created os uid TEMP_NAME F)"
  by (auto simp: spared_def created_def claimed_inode_def)

lemma spared_linked: "fs_names F TEMP_NAME = Some n \<Longrightarrow> spared F (linked TARGET_NAME n F)"
  by (auto simp: spared_def linked_def update_file_def claimed_inode_def)

lemma spared_kept: "spared F G \<Longrightarrow> directory_kept M F \<Longrightarrow> directory_kept M G"
  by (simp add: spared_def directory_kept_def)

lemma sound_kept: "sound_directory M expected F \<Longrightarrow> directory_kept M F"
  by (simp add: sound_directory_def)

lemma unlinked_fields [simp]:
  "fs_names (unlinked name n F) = (fs_names F)(name := None)"
  "fs_files (unlinked name n F) = (fs_files F)(n := map_option (\<lambda>node. node\<lparr>fl_nlink := fl_nlink node - 1\<rparr>) (fs_files F n))"
  by (simp_all add: unlinked_def update_file_def)

lemma holds_unlinked:
  assumes "holds M temporary expected F name n (Suc k)" and "name \<noteq> name'" and "0 < k" and "k \<le> 2"
    and "\<not> temporary"
  shows "holds M temporary expected (unlinked name' n F) name n k"
  using assms acceptable_nlink [of M temporary expected _ _ k] acceptable_exact_temporary
  unfolding holds_def by force

lemma holds_other:
  assumes "holds M temporary expected F name n k" and "name \<noteq> name'" and "m \<noteq> n"
  shows "holds M temporary expected (unlinked name' m F) name n k"
  using assms unfolding holds_def by auto

lemma holds_temporary: "holds M False expected F name n k \<Longrightarrow> fs_names F name' = Some n \<Longrightarrow> holds M True expected F name' n k"
  using acceptable_exact_temporary unfolding holds_def by blast

lemma holds_name: "holds M temporary expected F name n k \<Longrightarrow> fs_names F name = Some n"
  by (simp add: holds_def)

lemma sound_unlink_temp:
  assumes "sound_directory M expected F" and "fs_names F TEMP_NAME = Some n"
  shows "sound_directory M expected (unlinked TEMP_NAME n F)"
proof -
  have kept: "directory_kept M (unlinked TEMP_NAME n F)"
    using spared_kept [OF spared_unlinked [OF assms(2)]] sound_kept [OF assms(1)] by simp
  from assms(1) show ?thesis
  proof (cases rule: sound_cases)
    case (temp m)
    then show ?thesis using kept by (intro sound_none) simp_all
  next
    case (linked m)
    then have "holds M False expected (unlinked TEMP_NAME n F) TARGET_NAME n 1"
      using assms(2) by (intro holds_unlinked) (simp_all add: numeral_2_eq_2)
    then show ?thesis using kept by (intro sound_target) simp_all
  next
    case (two m k)
    with assms(2) have "k = n" by (auto dest: holds_name)
    with two have "holds M False expected (unlinked TEMP_NAME n F) TARGET_NAME m 1"
      by (intro holds_other) simp_all
    then show ?thesis using kept by (intro sound_target) simp_all
  qed (use assms(2) in simp_all)
qed

lemma sound_unlink_target:
  assumes "sound_directory M expected F" and "fs_names F TARGET_NAME = Some n"
  shows "sound_directory M expected (unlinked TARGET_NAME n F)"
proof -
  have kept: "directory_kept M (unlinked TARGET_NAME n F)"
    using spared_kept [OF spared_unlinked [OF assms(2)]] sound_kept [OF assms(1)] by simp
  from assms(1) show ?thesis
  proof (cases rule: sound_cases)
    case (target m)
    then show ?thesis using kept by (intro sound_none) simp_all
  next
    case (linked m)
    then have "m = n" using assms(2) by (simp add: holds_def)
    have two: "fs_names F TEMP_NAME = Some n" "holds M False expected F TARGET_NAME n 2" using linked \<open>m = n\<close> by simp_all
    obtain node where node: "fs_files F n = Some node" "acceptable M False expected node Exact" "fl_nlink node = 2"
      using two(2) acceptable_exact_temporary unfolding holds_def by blast
    have "acceptable M True expected (node\<lparr>fl_nlink := 1\<rparr>) Exact"
      by (rule acceptable_nlink) (use acceptable_exact_temporary [OF node(2)] in simp_all)
    then have "holds M True expected (unlinked TARGET_NAME n F) TEMP_NAME n 1"
      using two(1) node unfolding holds_def by auto
    then show ?thesis using kept by (intro sound_temp) simp_all
  next
    case (two m k)
    with assms(2) have "m = n" by (auto dest: holds_name)
    with two have "holds M True expected (unlinked TARGET_NAME n F) TEMP_NAME k 1"
      by (intro holds_other) simp_all
    then show ?thesis using kept by (intro sound_temp) simp_all
  qed (use assms(2) in simp_all)
qed

subsection \<open>Publication\<close>

text \<open>What the process needs to give a new file the owner and the mode the inspection asks for.\<close>

definition publishable :: "claim_file_manager \<Rightarrow> os \<Rightarrow> bool" where
  "publishable M os \<longleftrightarrow> OWNER_READ_WRITE AND NOT (os_umask os) = OWNER_READ_WRITE
     \<and> os_created_gid os = cm_service_gid M
     \<and> (cm_service_uid M = 0
        \<or> cm_service_uid M = cm_expected_uid M \<and> cm_service_gid M = cm_expected_gid M)"

text \<open>The temporary file holds some of the command.\<close>

definition drafted :: "claim_file_manager \<Rightarrow> fs \<Rightarrow> nat \<Rightarrow> byte list \<Rightarrow> bool" where
  "drafted M G n bytes \<longleftrightarrow> directory_kept M G \<and> fs_names G TARGET_NAME = None \<and> fs_names G TEMP_NAME = Some n
     \<and> fs_files G n = Some \<lparr>fl_kind = RegularFile, fl_mode = OWNER_READ_WRITE, fl_uid = cm_expected_uid M,
         fl_gid = cm_expected_gid M, fl_nlink = 1, fl_bytes = bytes\<rparr>"

lemma drafted_sound:
  assumes "drafted M G n (take k expected)" and "length expected = COMMAND_LEN"
  shows "sound_directory M expected G"
proof -
  have "\<exists>content. entry_content_of True expected (take k expected) = Some content"
    using assms(2) by (auto simp: entry_content_of_def min_def)
  then have "holds M True expected G TEMP_NAME n 1"
    using assms unfolding drafted_def holds_def
    by (auto simp: acceptable_def safe_stat_def expected_owner_def MAX_READ_LEN_def)
  with assms(1) show ?thesis by (intro sound_temp) (simp_all add: drafted_def)
qed

lemma created_sound:
  assumes "directory_kept M F" and "fs_names F TARGET_NAME = None" and "publishable M os"
    and "length expected = COMMAND_LEN"
  shows "sound_directory M expected (created os (cm_service_uid M) TEMP_NAME F)" (is "sound_directory _ _ ?G")
proof -
  have "entry_content_of True expected [] = Some Partial"
    using assms(4) by (cases expected) (simp_all add: entry_content_of_def COMMAND_LEN_def)
  then have "holds M True expected ?G TEMP_NAME (fs_next F) 1"
    using assms(3) unfolding holds_def
    by (auto simp: created_def new_file_def acceptable_def safe_stat_def service_owner_def publishable_def)
  with assms(1,2) show ?thesis
    using spared_kept [OF spared_created assms(1)] by (intro sound_temp) (simp_all add: created_def)
qed

definition published :: "claim_file_manager \<Rightarrow> byte list \<Rightarrow> fs \<Rightarrow> bool" where
  "published M expected G \<longleftrightarrow> fs_names G TEMP_NAME = None
     \<and> (\<exists>n. fs_names G TARGET_NAME = Some n
          \<and> fs_files G n = Some \<lparr>fl_kind = RegularFile, fl_mode = OWNER_READ_WRITE, fl_uid = cm_expected_uid M,
              fl_gid = cm_expected_gid M, fl_nlink = 1, fl_bytes = expected\<rparr>)"

lemma holds_target_node:
  assumes "holds M False expected F TARGET_NAME n 1"
  shows "fs_files F n = Some \<lparr>fl_kind = RegularFile, fl_mode = OWNER_READ_WRITE, fl_uid = cm_expected_uid M,
    fl_gid = cm_expected_gid M, fl_nlink = 1, fl_bytes = expected\<rparr>"
proof -
  from assms obtain node where "fs_files F n = Some node" "acceptable M False expected node Exact" "fl_nlink node = 1"
    using acceptable_exact_temporary unfolding holds_def by blast
  then show ?thesis
    by (cases node) (auto simp: acceptable_def safe_stat_def entry_content_of_def expected_owner_def split: if_split_asm)
qed

lemma holds_published:
  "holds M False expected F TARGET_NAME n 1 \<Longrightarrow> fs_names F TEMP_NAME = None \<Longrightarrow> published M expected F"
  using holds_target_node unfolding published_def by (fastforce simp: holds_def)

text \<open>A directory a run that started in \<open>F\<close> may leave.\<close>

definition safe_from :: "claim_file_manager \<Rightarrow> byte list \<Rightarrow> fs \<Rightarrow> fs \<Rightarrow> bool" where
  "safe_from M expected F G \<longleftrightarrow> sound_directory M expected G \<and> spared F G"

lemma safe_from_core [simp]: "safe_from M expected F (core G) = safe_from M expected F G"
  by (simp add: safe_from_def)

lemma drafted_with_bytes:
  "drafted M G n bytes \<Longrightarrow> drafted M (with_bytes n bytes' G) n bytes'"
  by (auto simp: drafted_def with_bytes_def update_file_def directory_kept_def)

lemma drafted_spared: "drafted M G n bytes \<Longrightarrow> spared G (update_file n h G)"
  by (intro spared_update) (simp add: drafted_def claimed_inode_def)

lemma drafted_publishes:
  assumes draft: "drafted M G n expected" and len: "length expected = COMMAND_LEN"
  defines "H \<equiv> linked TARGET_NAME n G"
  shows "sound_directory M expected H" and "spared G H" and "fs_names H TEMP_NAME = Some n"
    and "fs_files H n = Some \<lparr>fl_kind = RegularFile, fl_mode = OWNER_READ_WRITE, fl_uid = cm_expected_uid M,
        fl_gid = cm_expected_gid M, fl_nlink = 2, fl_bytes = expected\<rparr>"
    and "published M expected (unlinked TEMP_NAME n H)"
proof -
  show "spared G H" unfolding H_def using draft by (intro spared_linked) (simp add: drafted_def)
  from spared_kept [OF this] draft have kept: "directory_kept M H" by (simp add: drafted_def)
  show temp: "fs_names H TEMP_NAME = Some n" and node: "fs_files H n = Some \<lparr>fl_kind = RegularFile,
      fl_mode = OWNER_READ_WRITE, fl_uid = cm_expected_uid M, fl_gid = cm_expected_gid M, fl_nlink = 2,
      fl_bytes = expected\<rparr>"
    using draft by (simp_all add: H_def linked_def update_file_def drafted_def numeral_2_eq_2)
  have target: "fs_names H TARGET_NAME = Some n" by (simp add: H_def linked_def update_file_def)
  have "holds M False expected H TARGET_NAME n 2"
    using target node len unfolding holds_def
    by (auto simp: acceptable_def safe_stat_def entry_content_of_def expected_owner_def MAX_READ_LEN_def)
  with kept temp show "sound_directory M expected H" by (intro sound_linked)
  show "published M expected (unlinked TEMP_NAME n H)"
    using target node by (simp add: published_def)
qed

lemma runs_verify_new_temp:
  assumes "S (core G)" and "drafted M G n bytes"
  shows "runs os S G (verify_new_temp M os n) () G"
  unfolding verify_new_temp_def
  by (rule runs_fbind, rule runs_fstat) (use assms in \<open>auto simp: drafted_def runs_pass\<close>)

lemma runs_create_and_publish:
  assumes sound: "sound_directory M expected F" and gone: "fs_names F TARGET_NAME = None" "fs_names F TEMP_NAME = None"
    and os: "publishable M os" and len: "length expected = COMMAND_LEN" and from_start: "spared F0 F"
  shows "\<exists>G. runs os (safe_from M expected F0) F (create_and_publish M os expected) () G
    \<and> published M expected G \<and> safe_from M expected F0 G"
proof -
  let ?n = "fs_next F"
  let ?G1 = "created os (cm_service_uid M) TEMP_NAME F"
  let ?own = "\<lambda>node. node\<lparr>fl_uid := cm_expected_uid M, fl_gid := cm_expected_gid M\<rparr>"
  let ?G2 = "if cm_service_uid M = 0 then update_file ?n ?own ?G1 else ?G1"
  let ?G3 = "with_bytes ?n expected ?G2"
  let ?G4 = "linked TARGET_NAME ?n ?G3"
  let ?G5 = "unlinked TEMP_NAME ?n ?G4"
  let ?S = "safe_from M expected F0"
  note kept = sound_kept [OF sound]
  have s1: "?S (core ?G1)"
    using created_sound [OF kept gone(1) os len] spared_trans [OF from_start spared_created]
    by (simp add: safe_from_def)
  have d2: "drafted M ?G2 ?n []"
    using spared_kept [OF spared_created kept, of os "cm_service_uid M"] gone(1) os
    by (auto simp: drafted_def created_def update_file_def new_file_def publishable_def directory_kept_def)
  have "spared ?G1 ?G2" by (auto intro!: spared_update simp: claimed_inode_def created_def)
  with spared_trans [OF from_start spared_created] have p2: "spared F0 ?G2" by (rule spared_trans)
  have s2: "?S (core (with_bytes ?n (take k expected) ?G2))" for k
    using drafted_sound [OF drafted_with_bytes [OF d2] len] spared_trans [OF p2 drafted_spared [OF d2]]
    by (simp add: safe_from_def with_bytes_def)
  have d3: "drafted M ?G3 ?n expected" by (rule drafted_with_bytes [OF d2])
  have "take (length expected) expected = expected" by simp
  with s2 [of "length expected"] have s3: "?S (core ?G3)" by simp
  note publish = drafted_publishes [OF d3 len]
  have s4: "?S (core ?G4)" using publish(1,2) s3 spared_trans by (auto simp: safe_from_def)
  have s5: "?S (core ?G5)"
    using sound_unlink_temp [OF publish(1,3)] spared_unlinked [OF publish(3)] s4 spared_trans
    by (auto simp: safe_from_def)
  have start: "with_bytes ?n [] ?G2 = ?G2"
    using d2 by (auto simp: drafted_def with_bytes_def update_file_def intro!: fs.equality)
  have "runs os ?S F (create_and_publish M os expected) () ?G5"
    unfolding create_and_publish_def
  proof (rule runs_fbind [OF runs_openat_create], goal_cases)
    case 1
    show ?case using sound from_start by (simp add: safe_from_def)
  next
    case 2
    show ?case by (rule gone(2))
  next
    case 3
    have "runs os ?S ?G1 (if cm_service_uid M = 0
        then fchown os (Filesystem ''cannot set claim-code ownership'') ?n (cm_expected_uid M) (cm_expected_gid M)
        else pass ()) () ?G2"
      using s1 runs_fchown [where S = ?S] runs_pass [OF refl] by (cases "cm_service_uid M = 0") auto
    moreover have "runs os ?S ?G2 (verify_new_temp M os ?n) () ?G2"
      by (rule runs_verify_new_temp [OF _ d2]) (use s2 [of 0] start in simp)
    moreover have "runs os ?S ?G2 (write_all os ?n expected) () ?G3"
      using runs_write_all [where S = ?S and n = ?n and all = expected and F = ?G2 and written = "[]", OF s2] start by simp
    moreover have "runs os ?S ?G3 (fsync os (Filesystem ''cannot sync claim-code file'')) () ?G3"
      using s3 by (intro runs_fsync) simp_all
    moreover have "runs os ?S ?G3 (linkat os (Filesystem ''cannot publish claim-code file'') TEMP_NAME TARGET_NAME) () ?G4"
      using s3 d3 by (intro runs_linkat) (simp_all add: drafted_def)
    moreover have "runs os ?S ?G4 (sync_directory os) () ?G4"
      unfolding sync_directory_def using s4 by (intro runs_fsync) simp_all
    moreover have "runs os ?S ?G4 (fstat os (Filesystem ''cannot inspect published claim-code'') ?n)
        \<lparr>fl_kind = RegularFile, fl_mode = OWNER_READ_WRITE, fl_uid = cm_expected_uid M,
          fl_gid = cm_expected_gid M, fl_nlink = 2, fl_bytes = expected\<rparr> ?G4"
      using s4 publish(4) by (intro runs_fstat) simp_all
    moreover have "runs os ?S ?G4 (unlink_verified os TEMP_NAME \<lparr>en_inode = ?n, en_stat = stat, en_content = Exact\<rparr>) () ?G5" for stat
      using runs_unlink_verified [where S = ?S and F = ?G4 and name = TEMP_NAME
        and e = "\<lparr>en_inode = ?n, en_stat = stat, en_content = Exact\<rparr>"] s4 publish(3) by simp
    moreover have "runs os ?S ?G5 (sync_directory os) () ?G5"
      unfolding sync_directory_def using s5 by (intro runs_fsync) simp_all
    ultimately show ?case by (blast intro: runs_fbind)
  qed
  with publish(5) s5 show ?thesis by auto
qed

subsection \<open>Runs of the manager\<close>

definition settled :: "claim_file_manager \<Rightarrow> byte list \<Rightarrow> owner_identity \<Rightarrow> fs \<Rightarrow> bool" where
  "settled M expected owner_state G \<longleftrightarrow>
     (case owner_state of
        Unclaimed \<Rightarrow> published M expected G
      | Claimed _ _ _ _ _ \<Rightarrow> fs_names G TARGET_NAME = None \<and> fs_names G TEMP_NAME = None)"

lemma safe_from_unlink_temp:
  "safe_from M expected F0 F \<Longrightarrow> fs_names F TEMP_NAME = Some n \<Longrightarrow> safe_from M expected F0 (unlinked TEMP_NAME n F)"
  unfolding safe_from_def using sound_unlink_temp spared_unlinked spared_trans by blast

lemma safe_from_unlink_target:
  "safe_from M expected F0 F \<Longrightarrow> fs_names F TARGET_NAME = Some n \<Longrightarrow> safe_from M expected F0 (unlinked TARGET_NAME n F)"
  unfolding safe_from_def using sound_unlink_target spared_unlinked spared_trans by blast

lemma runs_unlink_and_sync:
  assumes "S (core F)" and "fs_names F name = Some (en_inode e)" and "S (core (unlinked name (en_inode e) F))"
  shows "runs os S F (fbind (unlink_verified os name e) (\<lambda>_. sync_directory os)) () (unlinked name (en_inode e) F)"
  by (rule runs_fbind [where x = "()", OF runs_unlink_verified]) (use assms in \<open>simp_all add: sync_directory_def runs_fsync\<close>)

lemma survey_none_name: "survey M temporary expected F name = Inr None \<Longrightarrow> fs_names F name = None"
  by (simp add: survey_None_iff)

text \<open>With both entries removed when there are any.\<close>

definition without :: "string \<Rightarrow> entry option \<Rightarrow> fs \<Rightarrow> fs" where
  "without name e F = (case e of None \<Rightarrow> F | Some x \<Rightarrow> unlinked name (en_inode x) F)"

lemma runs_clear_temp:
  assumes "safe_from M expected F0 F" and "fs_names F TEMP_NAME = map_option en_inode temp"
  shows "runs os (safe_from M expected F0) F (remove_temp os temp) () (without TEMP_NAME temp F)"
    and "runs os (safe_from M expected F0) F (case temp of None \<Rightarrow> pass ()
       | Some p \<Rightarrow> fbind (unlink_verified os TEMP_NAME p) (\<lambda>_. sync_directory os)) () (without TEMP_NAME temp F)"
    and "safe_from M expected F0 (without TEMP_NAME temp F)"
    and "fs_names (without TEMP_NAME temp F) = (fs_names F)(TEMP_NAME := None)"
proof -
  note safe = assms(1) safe_from_unlink_temp [OF assms(1)]
  show "runs os (safe_from M expected F0) F (remove_temp os temp) () (without TEMP_NAME temp F)"
  proof (cases temp)
    case None
    then show ?thesis by (simp add: remove_temp_def without_def runs_pass)
  next
    case (Some p)
    then show ?thesis using assms safe by (simp add: without_def runs_remove_temp)
  qed
  show "runs os (safe_from M expected F0) F (case temp of None \<Rightarrow> pass ()
       | Some p \<Rightarrow> fbind (unlink_verified os TEMP_NAME p) (\<lambda>_. sync_directory os)) () (without TEMP_NAME temp F)"
  proof (cases temp)
    case None
    then show ?thesis by (simp add: without_def runs_pass)
  next
    case (Some p)
    then show ?thesis using assms safe by (simp add: without_def runs_unlink_and_sync)
  qed
  show "safe_from M expected F0 (without TEMP_NAME temp F)"
    using assms safe by (cases temp) (simp_all add: without_def)
  show "fs_names (without TEMP_NAME temp F) = (fs_names F)(TEMP_NAME := None)"
    using assms(2) by (cases temp) (auto simp: without_def)
qed

lemma survey_names:
  "survey M temporary expected F name = Inr e \<Longrightarrow> fs_names F name = map_option en_inode e"
  by (cases e) (simp_all add: survey_None_iff survey_name)

lemma runs_with_command:
  "expected_command hex token = Inr expected \<Longrightarrow> runs os S F (k expected) x G \<Longrightarrow> runs os S F (with_command hex token k) x G"
  by (simp add: with_command_def)

lemma reconcile_runs:
  assumes safe: "safe_from M expected F0 F" and os: "publishable M os"
    and command: "expected_command hex token = Inr expected" and len: "length expected = COMMAND_LEN"
  shows "\<exists>G. runs os (safe_from M expected F0) F (reconcile_claim_file hex M os owner_state token) () G
    \<and> settled M expected owner_state G \<and> safe_from M expected F0 G"
proof -
  let ?S = "safe_from M expected F0"
  have sound: "sound_directory M expected F" and from_start: "spared F0 F" using safe by (simp_all add: safe_from_def)
  from sound obtain target temp where target: "survey M False expected F TARGET_NAME = Inr target"
    and temp: "survey M True expected F TEMP_NAME = Inr temp" and pair: "validate_pair target temp = Inr ()"
    unfolding sound_directory_def by blast
  have inspect: "runs os ?S F (inspect_pair M os expected) (target, temp) F"
    by (rule runs_inspect_pair [OF _ sound_kept [OF sound] target temp pair]) (use safe in simp)
  note clear = runs_clear_temp [OF safe survey_names [OF temp]]
  show ?thesis
  proof (cases owner_state)
    case Unclaimed
    show ?thesis
    proof (cases target)
      case (Some t)
      let ?G = "without TEMP_NAME temp F"
      have "runs os ?S F (reconcile_claim_file hex M os owner_state token) () ?G"
        using clear(1) Some
        by (simp add: Unclaimed reconcile_claim_file_def reconcile_unclaimed_def)
          (intro runs_with_command [OF command] runs_fbind [OF inspect], simp)
      moreover have "published M expected ?G"
      proof -
        have "sound_directory M expected ?G" using clear(3) by (simp add: safe_from_def)
        moreover have "fs_names ?G TEMP_NAME = None" "fs_names ?G TARGET_NAME = Some (en_inode t)"
          using clear(4) survey_names [OF target] Some by simp_all
        ultimately show ?thesis
          by (cases rule: sound_cases) (auto dest: holds_name intro: holds_published)
      qed
      ultimately show ?thesis using clear(3) Unclaimed by (auto simp: settled_def)
    next
      case None
      let ?F = "without TEMP_NAME temp F"
      have gone: "fs_names ?F TARGET_NAME = None" "fs_names ?F TEMP_NAME = None"
        using clear(4) survey_names [OF target] None by simp_all
      have ready: "sound_directory M expected ?F" "spared F0 ?F" using clear(3) by (simp_all add: safe_from_def)
      from runs_create_and_publish [OF ready(1) gone os len ready(2)] obtain G where
        G: "runs os ?S ?F (create_and_publish M os expected) () G" "published M expected G" "?S G"
        by blast
      have "runs os ?S F (reconcile_claim_file hex M os owner_state token) () G"
        using None
        by (simp add: Unclaimed reconcile_claim_file_def reconcile_unclaimed_def)
          (intro runs_with_command [OF command] runs_fbind [OF inspect],
            simp, rule runs_fbind [OF clear(2) G(1)])
      with G(2,3) Unclaimed show ?thesis by (auto simp: settled_def)
    qed
  next
    case (Claimed user chat source floor at)
    let ?F = "without TARGET_NAME target F" and ?G = "without TEMP_NAME temp (without TARGET_NAME target F)"
    have names: "fs_names ?F = (fs_names F)(TARGET_NAME := None)"
      using survey_names [OF target] by (cases target) (auto simp: without_def)
    have safe': "?S ?F"
      using safe safe_from_unlink_target [OF safe] survey_names [OF target] by (cases target) (simp_all add: without_def)
    have retire: "runs os ?S F (case target of None \<Rightarrow> pass ()
       | Some t \<Rightarrow> fbind (unlink_verified os TARGET_NAME t) (\<lambda>_. sync_directory os)) () ?F"
      using safe safe_from_unlink_target [OF safe] survey_names [OF target]
      by (cases target) (simp_all add: without_def runs_pass runs_unlink_and_sync)
    have "fs_names ?F TEMP_NAME = map_option en_inode temp" using survey_names [OF temp] names by simp
    note clear' = runs_clear_temp [OF safe' this]
    have "runs os ?S F (reconcile_claim_file hex M os owner_state token) () ?G"
      by (simp add: Claimed reconcile_claim_file_def retire_after_claim_def)
        (intro runs_with_command [OF command] runs_fbind [OF inspect],
          simp, rule runs_fbind [OF retire clear'(1)])
    moreover have "settled M expected owner_state ?G"
      using clear'(4) names by (simp add: settled_def Claimed)
    ultimately show ?thesis using clear'(3) by blast
  qed
qed

subsection \<open>Unsafe entries\<close>

text \<open>From \<open>F\<close>, \<open>m\<close> fails and leaves the directory.\<close>

definition halts :: "fs \<Rightarrow> 'a fop \<Rightarrow> bool" where
  "halts F m \<longleftrightarrow> (\<forall>f. core f = core F \<longrightarrow> (\<exists>e g. m f = (Inl e, g) \<and> core g = core F))"

lemma halts_refuse: "halts F (refuse e)"
  by (simp add: halts_def refuse_def)

lemma halts_first: "halts F m \<Longrightarrow> halts F (fbind m k)"
  unfolding halts_def fbind_def by fastforce

lemma halts_then:
  assumes "runs os (\<lambda>c. c = core F) F m x F" and "halts F (k x)"
  shows "halts F (fbind m k)"
  unfolding halts_def
proof (intro allI impI)
  fix f
  assume f: "core f = core F"
  obtain r g where m: "m f = (r, g)" by (cases "m f")
  show "\<exists>e g. fbind m k f = (Inl e, g) \<and> core g = core F"
    using runsD [OF assms(1) f] m assms(2) by (cases r) (auto simp: fbind_def halts_def)
qed

lemma halts_attempt:
  assumes "\<And>f. fs_names f = fs_names F \<Longrightarrow> fs_files f = fs_files F \<Longrightarrow> fs_directory f = fs_directory F
    \<Longrightarrow> \<exists>e'. work f = (Inl e', f)"
  shows "halts F (attempt os e work)"
  unfolding halts_def
proof (intro allI impI)
  fix f
  assume f: "core f = core F"
  let ?f = "f\<lparr>fs_calls := fs_calls f + 1\<rparr>"
  have "core ?f = core F" using f by simp
  with assms core_fields [OF this] obtain e' where "work ?f = (Inl e', ?f)" by blast
  with \<open>core ?f = core F\<close> show "\<exists>e' g. attempt os e work f = (Inl e', g) \<and> core g = core F"
    unfolding attempt_def Let_def by auto
qed

lemma halts_inspect_entry:
  assumes "survey M temporary expected F name = Inl e"
  shows "halts F (inspect_entry M os name temporary expected)"
proof -
  from assms obtain n where n: "fs_names F name = Some n" by (auto simp: survey_def split: option.splits)
  show ?thesis
  proof (cases "\<exists>node. fs_files F n = Some node \<and> fl_kind node \<noteq> SymbolicLink")
    case False
    then have "halts F (openat_read os name)"
      unfolding openat_read_def using n by (intro halts_attempt) (auto split: option.splits)
    then show ?thesis unfolding inspect_entry_def by (rule halts_first)
  next
    case True
    then obtain node where node: "fs_files F n = Some node" "fl_kind node \<noteq> SymbolicLink" by blast
    have opened: "runs os (\<lambda>c. c = core F) F (openat_read os name) (Some n) F"
      unfolding openat_read_def using n node by (intro runs_attempt) auto
    have stat: "runs os (\<lambda>c. c = core F) F (fstat os UnsafeEntry n) node F"
      using node by (intro runs_fstat) simp_all
    have bytes: "runs os (\<lambda>c. c = core F) F (read_capped os n MAX_READ_LEN) (take MAX_READ_LEN (fl_bytes node)) F"
      using node by (intro runs_read_capped) simp_all
    show ?thesis
      unfolding inspect_entry_def
    proof (rule halts_then [OF opened], unfold option.case, rule halts_then [OF stat], cases "safe_stat M temporary node")
      case False
      then show "halts F (if \<not> safe_stat M temporary node then refuse UnsafeEntry
          else fbind (read_capped os n MAX_READ_LEN) (\<lambda>bytes.
            case entry_content_of temporary expected bytes of None \<Rightarrow> refuse UnsafeEntry
            | Some content \<Rightarrow> if content = Exact \<and> \<not> expected_owner M node then refuse UnsafeEntry
                else pass (Some \<lparr>en_inode = n, en_stat = node, en_content = content\<rparr>)))"
        by (simp add: halts_refuse)
    next
      case True
      then have "take MAX_READ_LEN (fl_bytes node) = fl_bytes node" by (simp add: safe_stat_def)
      with bytes have read: "runs os (\<lambda>c. c = core F) F (read_capped os n MAX_READ_LEN) (fl_bytes node) F" by simp
      have "halts F (case entry_content_of temporary expected (fl_bytes node) of None \<Rightarrow> refuse UnsafeEntry
            | Some content \<Rightarrow> if content = Exact \<and> \<not> expected_owner M node then refuse UnsafeEntry
                else pass (Some \<lparr>en_inode = n, en_stat = node, en_content = content\<rparr>))"
        using assms n node True by (auto simp: survey_def halts_refuse split: option.splits if_split_asm)
      with halts_then [OF read] True show "halts F (if \<not> safe_stat M temporary node then refuse UnsafeEntry
          else fbind (read_capped os n MAX_READ_LEN) (\<lambda>bytes.
            case entry_content_of temporary expected bytes of None \<Rightarrow> refuse UnsafeEntry
            | Some content \<Rightarrow> if content = Exact \<and> \<not> expected_owner M node then refuse UnsafeEntry
                else pass (Some \<lparr>en_inode = n, en_stat = node, en_content = content\<rparr>)))"
        by simp
    qed
  qed
qed

lemma halts_inspect_pair:
  assumes "\<not> sound_directory M expected F"
  shows "halts F (inspect_pair M os expected)"
proof (cases "directory_kept M F")
  case False
  have "runs os (\<lambda>c. c = core F) F (attempt os (Filesystem ''cannot open claim-code directory'') (pass ())) () F"
    by (rule runs_attempt) (simp_all add: pass_def)
  then have "halts F (open_directory M os)"
    unfolding open_directory_def
    by (rule halts_then) (rule halts_attempt, use False in \<open>auto simp: directory_kept_def Let_def\<close>)
  then show ?thesis unfolding inspect_pair_def by (rule halts_first)
next
  case True
  have opened: "runs os (\<lambda>c. c = core F) F (open_directory M os) () F"
    by (rule runs_open_directory) (simp_all add: True)
  show ?thesis
    unfolding inspect_pair_def
  proof (rule halts_then [OF opened])
    show "halts F (fbind (inspect_entry M os TARGET_NAME False expected) (\<lambda>target.
        fbind (inspect_entry M os TEMP_NAME True expected) (\<lambda>temp.
        case validate_pair target temp of Inl e \<Rightarrow> refuse e | Inr _ \<Rightarrow> pass (target, temp))))"
    proof (cases "survey M False expected F TARGET_NAME")
      case (Inl e)
      then show ?thesis by (intro halts_first halts_inspect_entry)
    next
      case (Inr target)
      then have t: "runs os (\<lambda>c. c = core F) F (inspect_entry M os TARGET_NAME False expected) target F"
        by (intro runs_inspect_entry) simp_all
      show ?thesis
      proof (rule halts_then [OF t], cases "survey M True expected F TEMP_NAME")
        case (Inl e)
        then show "halts F (fbind (inspect_entry M os TEMP_NAME True expected) (\<lambda>temp.
            case validate_pair target temp of Inl e \<Rightarrow> refuse e | Inr _ \<Rightarrow> pass (target, temp)))"
          by (intro halts_first halts_inspect_entry)
      next
        case temp: (Inr temp)
        then have p: "runs os (\<lambda>c. c = core F) F (inspect_entry M os TEMP_NAME True expected) temp F"
          by (intro runs_inspect_entry) simp_all
        obtain e where "validate_pair target temp = Inl e"
          using assms True Inr temp by (cases "validate_pair target temp") (auto simp: sound_directory_def)
        then show "halts F (fbind (inspect_entry M os TEMP_NAME True expected) (\<lambda>temp.
            case validate_pair target temp of Inl e \<Rightarrow> refuse e | Inr _ \<Rightarrow> pass (target, temp)))"
          by (intro halts_then [OF p]) (simp add: halts_refuse)
      qed
    qed
  qed
qed

lemma halts_reconcile:
  assumes "\<not> sound_directory M expected F" and "expected_command hex token = Inr expected"
  shows "halts F (reconcile_claim_file hex M os owner_state token)"
proof -
  note halt = halts_first [OF halts_inspect_pair [OF assms(1)]]
  show ?thesis
    unfolding reconcile_claim_file_def retire_after_claim_def reconcile_unclaimed_def with_command_def assms(2) sum.case
    by (cases owner_state) (simp_all add: halt)
qed

subsection \<open>The properties\<close>

lemma command_length: "expected_command hex token = Inr expected \<Longrightarrow> length expected = COMMAND_LEN"
  by (auto simp: expected_command_def COMMAND_LEN_def length_as_bytes_ascii split: if_split_asm)

lemma settled_core:
  assumes "core F = core G"
  shows "settled M expected owner_state F = settled M expected owner_state G"
  unfolding settled_def published_def core_fields [OF assms] ..

lemma safe_from_cores: "core F = core G \<Longrightarrow> safe_from M expected F0 F = safe_from M expected F0 G"
  by (metis safe_from_core)

lemma one_run:
  assumes "safe_from M expected F0 F" and "publishable M os" and "expected_command hex token = Inr expected"
    and "reconcile_claim_file hex M os owner_state token F = (r, G)"
  shows "safe_from M expected F0 G" and "r = Inr () \<Longrightarrow> settled M expected owner_state G"
    and "fault_free os \<Longrightarrow> r = Inr ()"
proof -
  from reconcile_runs [OF assms(1-3) command_length [OF assms(3)]] obtain H where
    H: "runs os (safe_from M expected F0) F (reconcile_claim_file hex M os owner_state token) () H"
    and final: "settled M expected owner_state H" "safe_from M expected F0 H" by blast
  have r: "case r of Inl _ \<Rightarrow> safe_from M expected F0 G \<and> \<not> fault_free os | Inr y \<Rightarrow> core G = core H"
    using runsD [OF H refl] assms(4) by (auto split: sum.splits)
  show "safe_from M expected F0 G"
    using r final(2) safe_from_cores [of G H] by (auto split: sum.splits)
  show "settled M expected owner_state G" if "r = Inr ()"
    using r final(1) settled_core [of G H] that by simp
  show "r = Inr ()" if "fault_free os"
    using r that by (auto split: sum.splits)
qed

definition after_runs ::
  "(byte list \<Rightarrow> byte list) \<Rightarrow> claim_file_manager \<Rightarrow> byte list \<Rightarrow> (os \<times> owner_identity) list \<Rightarrow> fs \<Rightarrow> fs" where
  "after_runs hex M token attempts F =
     foldl (\<lambda>f (os, owner_state). snd (reconcile_claim_file hex M os owner_state token f)) F attempts"

lemma after_runs_safe:
  assumes "expected_command hex token = Inr expected" and "\<forall>(os, w) \<in> set attempts. publishable M os"
  shows "safe_from M expected F0 F \<Longrightarrow> safe_from M expected F0 (after_runs hex M token attempts F)"
  using assms(2)
proof (induction attempts arbitrary: F)
  case (Cons attempt attempts)
  obtain os w where attempt: "attempt = (os, w)" by (cases attempt)
  obtain r G where G: "reconcile_claim_file hex M os w token F = (r, G)"
    by (cases "reconcile_claim_file hex M os w token F")
  have "safe_from M expected F0 G"
    using one_run(1) [OF Cons.prems(1) _ assms(1) G] Cons.prems(2) attempt by simp
  with Cons.IH [of G] Cons.prems(2) show ?case by (simp add: after_runs_def attempt G)
qed (simp add: after_runs_def)

text \<open>C12: The claim-code file survives any failure of its writer. From a directory without unsafe
  entries, after any number of starts that the operating system interrupted at any call, however
  many bytes each write took, whether the owner was claimed then or not, the next start that is not
  interrupted succeeds: without an owner exactly one file holds the whole claim command, with one
  link and only for the service's eyes; with an owner neither entry is left; and nothing else in the
  directory was touched.\<close>

theorem claim_file_recovers:
  assumes "expected_command hex token = Inr expected" and "sound_directory M expected F"
    and "\<forall>(os, w) \<in> set attempts. publishable M os" and "publishable M os" and "fault_free os"
  shows "\<exists>G. reconcile_claim_file hex M os owner_state token (after_runs hex M token attempts F) = (Inr (), G)
    \<and> settled M expected owner_state G \<and> spared F G"
proof -
  have "safe_from M expected F (after_runs hex M token attempts F)"
    by (rule after_runs_safe [OF assms(1,3)]) (simp add: safe_from_def assms(2))
  note run = one_run [OF this assms(4,1)]
  obtain r G where G: "reconcile_claim_file hex M os owner_state token (after_runs hex M token attempts F) = (r, G)"
    by (cases "reconcile_claim_file hex M os owner_state token (after_runs hex M token attempts F)")
  from run [OF G] assms(5) G show ?thesis by (auto simp: safe_from_def)
qed

text \<open>C21: The manager never touches what it did not write. Whatever the operating system does, a run leaves
  every other name and every other file of the directory; and when one of the two entries is not
  safe, a link, a file of another owner, mode, length or content, or a wrong pair of links, the run
  fails and changes nothing at all.\<close>

theorem claim_file_spares_foreign_entries:
  assumes "expected_command hex token = Inr expected" and "publishable M os"
    and "reconcile_claim_file hex M os owner_state token F = (r, G)"
  shows "spared F G \<and> (\<not> sound_directory M expected F \<longrightarrow> (\<exists>e. r = Inl e) \<and> G = F\<lparr>fs_calls := fs_calls G\<rparr>)"
proof (cases "sound_directory M expected F")
  case True
  then have "safe_from M expected F F" by (simp add: safe_from_def)
  from one_run(1) [OF this assms(2,1,3)] True show ?thesis by (simp add: safe_from_def)
next
  case False
  from halts_reconcile [where M = M and os = os and owner_state = owner_state, OF this assms(1), unfolded halts_def, rule_format, OF refl] assms(3)
  have failed: "\<exists>e. r = Inl e" and same: "core G = core F" by auto
  note fields = core_fields [OF same]
  have "G = F\<lparr>fs_calls := fs_calls G\<rparr>" by (rule fs.equality) (simp_all add: fields)
  moreover have "spared F G" by (simp add: spared_def claimed_inode_def fields)
  ultimately show ?thesis using failed by blast
qed

subsection \<open>Witnesses\<close>

definition sample_manager :: claim_file_manager where
  "sample_manager = \<lparr>cm_directory = 2, cm_expected_uid = 1000, cm_expected_gid = 1000, cm_service_uid = 1000,
     cm_service_gid = 1000\<rparr>"

definition sample_fs :: fs where
  "sample_fs = \<lparr>fs_names = Map.empty, fs_files = Map.empty, fs_next = 7,
     fs_directory = \<lparr>dr_is_dir = True, dr_inode = 2, dr_uid = 1000, dr_gid = 1000\<rparr>, fs_calls = 0\<rparr>"

definition failing_at :: "nat set \<Rightarrow> os" where
  "failing_at calls = \<lparr>os_fails = (\<lambda>n. n \<in> calls), os_accepts = (\<lambda>_. 5), os_umask = 0x3F, os_created_gid = 1000\<rparr>"

definition sample_hex :: "byte list \<Rightarrow> byte list" where
  "sample_hex bs = replicate (2 * length bs) 48"

lemma sample_command:
  "expected_command sample_hex (replicate 32 0) = Inr (as_bytes (lit ''/claim '') @ replicate 64 48 @ [10])"
  by (simp add: expected_command_def sample_hex_def)

lemma sample_publishable: "publishable sample_manager (failing_at calls)"
  by (simp add: publishable_def sample_manager_def failing_at_def OWNER_READ_WRITE_def)

theorem claim_file_recovers_witness:
  "\<exists>G. reconcile_claim_file sample_hex sample_manager (failing_at {}) Unclaimed (replicate 32 0)
      (after_runs sample_hex sample_manager (replicate 32 0) [(failing_at {12}, Unclaimed), (failing_at {20}, Unclaimed)]
         sample_fs) = (Inr (), G)
    \<and> settled sample_manager (as_bytes (lit ''/claim '') @ replicate 64 48 @ [10]) Unclaimed G \<and> spared sample_fs G"
proof (rule claim_file_recovers [OF sample_command])
  show "sound_directory sample_manager (as_bytes (lit ''/claim '') @ replicate 64 48 @ [10]) sample_fs"
    by (rule sound_none) (simp_all add: sample_fs_def sample_manager_def directory_kept_def)
  show "fault_free (failing_at {})" by (simp add: fault_free_def failing_at_def)
qed (simp_all add: sample_publishable)

definition foreign_fs :: fs where
  "foreign_fs = sample_fs\<lparr>fs_names := [''claim-code'' \<mapsto> 3], fs_files := [3 \<mapsto>
     \<lparr>fl_kind = SymbolicLink, fl_mode = 0x1FF, fl_uid = 0, fl_gid = 0, fl_nlink = 1, fl_bytes = []\<rparr>]\<rparr>"

theorem claim_file_spares_foreign_entries_witness:
  "spared foreign_fs (snd (reconcile_claim_file sample_hex sample_manager (failing_at {}) Unclaimed (replicate 32 0) foreign_fs))"
  using claim_file_spares_foreign_entries [where owner_state = Unclaimed and F = foreign_fs,
      OF sample_command sample_publishable surjective_pairing]
  by blast

end
