(* ===== verification/Telegram_Client.thy ===== *)
theory Telegram_Client
  imports Outbox_Dispatcher
begin

section \<open>The Telegram client\<close>

text \<open>
  Models \<open>src/telegram/client.rs\<close>: the requests of the Bot API, the envelope their answers come in,
  and what the client accepts of it. The HTTP library is a parameter: for a request it gives a
  timeout, a transport failure, or a status with the JSON of the body when there is one. And
  \<open>src/telegram/webhook_registration.rs\<close>: the declaration of the webhook, with its retries.
\<close>

subsection \<open>Requests and answers\<close>

record http_request =
  rq_path :: "ustring list" \<comment> \<open>the segments after the base address\<close>
  rq_body :: json
  rq_timeout :: "nat option" \<comment> \<open>seconds\<close>

datatype http_answer = HttpTimedOut | HttpFailed | HttpAnswered nat "json option"

type_synonym http = "http_request \<Rightarrow> http_answer"

record telegram_client =
  cl_token :: ustring
  cl_base_usable :: bool
  cl_webhook_timeout :: nat

definition AUTHORITATIVE_REQUEST_TIMEOUT :: nat where
  "AUTHORITATIVE_REQUEST_TIMEOUT = 5"

definition WEBHOOK_REQUEST_TIMEOUT :: nat where
  "WEBHOOK_REQUEST_TIMEOUT = 10"

definition new_client :: "ustring \<Rightarrow> telegram_client" where
  "new_client token =
     \<lparr>cl_token = token, cl_base_usable = True, cl_webhook_timeout = WEBHOOK_REQUEST_TIMEOUT\<rparr>"

record 'a api_envelope =
  ae_ok :: bool
  ae_result :: "'a option"
  ae_error_code :: "nat option"
  ae_description :: "ustring option"
  ae_retry_after :: "nat option" \<comment> \<open>of \<open>parameters\<close>\<close>

definition bool_of_json :: "json \<Rightarrow> bool option" where
  "bool_of_json v = (case v of JBool b \<Rightarrow> Some b | _ \<Rightarrow> None)"

definition unsigned_of_json :: "nat \<Rightarrow> json \<Rightarrow> nat option" where
  "unsigned_of_json bits v =
     (case v of JNum n \<Rightarrow> if 0 \<le> n \<and> n < 2 ^ bits then Some (nat n) else None | _ \<Rightarrow> None)"

definition response_parameters :: "json \<Rightarrow> nat option option" where
  "response_parameters v =
     (case payload_fields False [''retry_after''] v of
        Some [r] \<Rightarrow> optional_field (unsigned_of_json 64) r
      | _ \<Rightarrow> None)"

definition envelope_of :: "(json \<Rightarrow> 'a option) \<Rightarrow> json \<Rightarrow> 'a api_envelope option" where
  "envelope_of decode v =
     (case payload_fields False [''ok'', ''result'', ''error_code'', ''description'', ''parameters''] v of
        Some [ok, result, code, description, parameters] \<Rightarrow>
          (case (required_field bool_of_json ok, optional_field decode result,
                 optional_field (unsigned_of_json 16) code, optional_field text_of_json description,
                 optional_field response_parameters parameters) of
             (Some ok, Some result, Some code, Some description, Some parameters) \<Rightarrow>
               Some \<lparr>ae_ok = ok, ae_result = result, ae_error_code = code, ae_description = description,
                     ae_retry_after = Option.bind parameters (\<lambda>p. p)\<rparr>
           | _ \<Rightarrow> None)
      | _ \<Rightarrow> None)"

text \<open>\<open>StatusCode::is_success\<close>.\<close>

definition protocol_error :: "nat \<Rightarrow> telegram_error" where
  "protocol_error status =
     (if 200 \<le> status \<and> status < 300
      then TgProtocol (lit ''response was not a Telegram JSON envelope'')
      else TgApi status (lit ''Telegram returned a non-JSON error'') None)"

definition call_with_timeout ::
  "telegram_client \<Rightarrow> http \<Rightarrow> string \<Rightarrow> json \<Rightarrow> nat option \<Rightarrow> (json \<Rightarrow> 'a option) \<Rightarrow> telegram_error + 'a" where
  "call_with_timeout c http tg_method request timeout decode =
     (if \<not> cl_base_usable c then Inl (TgInvalidRequest (lit ''invalid API base URL''))
      else
        (case http \<lparr>rq_path = [lit ''bot'' @ cl_token c, lit tg_method], rq_body = request, rq_timeout = timeout\<rparr> of
           HttpTimedOut \<Rightarrow> Inl TgTimeout
         | HttpFailed \<Rightarrow> Inl TgTransport
         | HttpAnswered status body \<Rightarrow>
             (case Option.bind body (envelope_of decode) of
                None \<Rightarrow> Inl (protocol_error status)
              | Some e \<Rightarrow>
                  if ae_ok e
                  then ok_or (TgProtocol (lit ''successful response omitted result'')) (ae_result e)
                  else
                    Inl (TgApi (case ae_error_code e of Some code \<Rightarrow> code | None \<Rightarrow> status)
                      (case ae_description e of Some d \<Rightarrow> d | None \<Rightarrow> lit ''Telegram rejected the request'')
                      (ae_retry_after e)))))"

definition call_api ::
  "telegram_client \<Rightarrow> http \<Rightarrow> string \<Rightarrow> json \<Rightarrow> (json \<Rightarrow> 'a option) \<Rightarrow> telegram_error + 'a" where
  "call_api c http tg_method request decode = call_with_timeout c http tg_method request None decode"

subsection \<open>The webhook\<close>

definition set_webhook_request :: "ustring \<Rightarrow> ustring \<Rightarrow> json" where
  "set_webhook_request url secret =
     JObj [(''url'', JStr url), (''secret_token'', JStr secret),
       (''allowed_updates'', JArr (map (\<lambda>u. JStr (lit u))
          [''business_connection'', ''business_message'', ''edited_business_message'',
           ''deleted_business_messages'', ''message''])),
       (''drop_pending_updates'', JBool False)]"

definition set_webhook :: "telegram_client \<Rightarrow> http \<Rightarrow> ustring \<Rightarrow> ustring \<Rightarrow> telegram_error + unit" where
  "set_webhook c http url secret =
     (case call_with_timeout c http ''setWebhook'' (set_webhook_request url secret)
             (Some (cl_webhook_timeout c)) bool_of_json of
        Inl e \<Rightarrow> Inl e
      | Inr accepted \<Rightarrow>
          if \<not> accepted then Inl (TgProtocol (lit ''setWebhook returned false'')) else Inr ())"

subsection \<open>Authoritative requests\<close>

definition sanitize_authoritative_error :: "bool \<Rightarrow> telegram_error \<Rightarrow> telegram_error" where
  "sanitize_authoritative_error recognize_not_found e =
     (case e of
        TgApi code description retry_after \<Rightarrow>
          if recognize_not_found \<and> code = 400 \<and> description = RECOGNIZED_CONNECTION_NOT_FOUND
          then TgProtocol SAFE_CONNECTION_NOT_FOUND
          else TgApi code (lit ''Telegram rejected authoritative lookup'') retry_after
      | TgProtocol _ \<Rightarrow> TgProtocol (lit ''invalid authoritative response'')
      | TgInvalidRequest _ \<Rightarrow> TgInvalidRequest (lit ''invalid authoritative request'')
      | TgTimeout \<Rightarrow> TgTimeout
      | TgTransport \<Rightarrow> TgTransport)"

record raw_authenticated_bot =
  rb_id :: i64
  rb_is_bot :: bool

definition raw_bot_of :: "json \<Rightarrow> raw_authenticated_bot option" where
  "raw_bot_of v =
     (case payload_fields False [''id'', ''is_bot''] v of
        Some [i, b] \<Rightarrow>
          (case (required_field number_of_json i, required_field bool_of_json b) of
             (Some i, Some b) \<Rightarrow> Some \<lparr>rb_id = i, rb_is_bot = b\<rparr>
           | _ \<Rightarrow> None)
      | _ \<Rightarrow> None)"

definition get_me :: "telegram_client \<Rightarrow> http \<Rightarrow> telegram_error + authenticated_bot" where
  "get_me c http =
     (case call_with_timeout c http ''getMe'' (JObj []) (Some AUTHORITATIVE_REQUEST_TIMEOUT) raw_bot_of of
        Inl e \<Rightarrow> Inl (sanitize_authoritative_error False e)
      | Inr raw \<Rightarrow>
          if rb_id raw \<le> 0 \<or> \<not> rb_is_bot raw
          then Inl (TgProtocol (lit ''invalid authoritative bot response''))
          else Inr \<lparr>ab_id = rb_id raw\<rparr>)"

record raw_connection_answer =
  ra_id :: ustring
  ra_user_id :: i64
  ra_user_chat_id :: "i64 option"
  ra_date :: i64
  ra_rights :: rights
  ra_is_enabled :: bool

definition raw_user_of :: "json \<Rightarrow> i64 option" where
  "raw_user_of v =
     (case payload_fields False [''id''] v of Some [i] \<Rightarrow> required_field number_of_json i | _ \<Rightarrow> None)"

text \<open>All four rights, nothing else; an array of rights has one element for each.\<close>

definition raw_rights_of :: "json \<Rightarrow> rights option" where
  "raw_rights_of v =
     (case payload_fields True rights_fields v of
        Some [a, b, d, e] \<Rightarrow>
          (case (required_field bool_of_json a, required_field bool_of_json b,
                 required_field bool_of_json d, required_field bool_of_json e) of
             (Some a, Some b, Some d, Some e) \<Rightarrow>
               Some \<lparr>can_reply = a, can_read_messages = b, can_delete_sent_messages = d,
                     can_delete_all_messages = e\<rparr>
           | _ \<Rightarrow> None)
      | _ \<Rightarrow> None)"

definition raw_connection_answer_of :: "json \<Rightarrow> raw_connection_answer option" where
  "raw_connection_answer_of v =
     (case payload_fields False [''id'', ''user'', ''user_chat_id'', ''date'', ''rights'', ''is_enabled''] v of
        Some [i, u, ch, d, r, en] \<Rightarrow>
          (case (required_field text_of_json i, required_field raw_user_of u, optional_field number_of_json ch,
                 required_field number_of_json d, required_field raw_rights_of r,
                 required_field bool_of_json en) of
             (Some i, Some u, Some ch, Some d, Some r, Some en) \<Rightarrow>
               Some \<lparr>ra_id = i, ra_user_id = u, ra_user_chat_id = ch, ra_date = d, ra_rights = r,
                     ra_is_enabled = en\<rparr>
           | _ \<Rightarrow> None)
      | _ \<Rightarrow> None)"

definition get_business_connection ::
  "telegram_client \<Rightarrow> http \<Rightarrow> string \<Rightarrow> telegram_error + authoritative_business_connection" where
  "get_business_connection c http cid =
     (if trim (lit cid) = [] then Inl (TgInvalidRequest (lit ''authoritative connection ID is invalid''))
      else
        (case call_with_timeout c http ''getBusinessConnection''
                (JObj [(''business_connection_id'', JStr (lit cid))])
                (Some AUTHORITATIVE_REQUEST_TIMEOUT) raw_connection_answer_of of
           Inl e \<Rightarrow> Inl (sanitize_authoritative_error True e)
         | Inr raw \<Rightarrow>
             if trim (ra_id raw) = [] \<or> ra_id raw \<noteq> lit cid \<or> ra_user_id raw \<le> 0
                \<or> (\<exists>chat. ra_user_chat_id raw = Some chat \<and> chat \<le> 0) \<or> ra_date raw \<le> 0
             then Inl (TgProtocol (lit ''invalid authoritative connection response''))
             else Inr \<lparr>au_connection_id = cid, au_business_user_id = ra_user_id raw,
                       au_user_chat_id = ra_user_chat_id raw,
                       au_connection_established_at = ra_date raw, au_rights = ra_rights raw,
                       au_enabled = ra_is_enabled raw\<rparr>))"

subsection \<open>Business requests\<close>

definition sent_message_of :: "json \<Rightarrow> i64 option" where
  "sent_message_of v =
     (case payload_fields False [''message_id''] v of Some [i] \<Rightarrow> required_field number_of_json i | _ \<Rightarrow> None)"

definition send_action_json :: "string option \<Rightarrow> i64 \<Rightarrow> ustring \<Rightarrow> json" where
  "send_action_json cid chat body =
     JObj ((case cid of None \<Rightarrow> [] | Some k \<Rightarrow> [(''business_connection_id'', JStr (lit k))])
       @ [(''chat_id'', JNum chat), (''text'', JStr body)])"

definition edit_action_json :: "string \<Rightarrow> i64 \<Rightarrow> i64 \<Rightarrow> ustring \<Rightarrow> json" where
  "edit_action_json cid chat message body =
     JObj [(''business_connection_id'', JStr (lit cid)), (''chat_id'', JNum chat),
       (''message_id'', JNum message), (''text'', JStr body)]"

definition read_action_json :: "string \<Rightarrow> i64 \<Rightarrow> i64 \<Rightarrow> json" where
  "read_action_json cid chat message =
     JObj [(''business_connection_id'', JStr (lit cid)), (''chat_id'', JNum chat), (''message_id'', JNum message)]"

definition delete_action_json :: "string \<Rightarrow> i64 list \<Rightarrow> json" where
  "delete_action_json cid messages =
     JObj [(''business_connection_id'', JStr (lit cid)), (''message_ids'', JArr (map JNum messages))]"

text \<open>The message of an answer counts only for a message sent; the others give 0.\<close>

definition business_api_of :: "telegram_client \<Rightarrow> http \<Rightarrow> business_api" where
  "business_api_of c http call =
     (case call of
        SendMessageCall cid chat body \<Rightarrow> call_api c http ''sendMessage'' (send_action_json cid chat body) sent_message_of
      | EditMessageCall cid chat message body \<Rightarrow>
          map_sum id (\<lambda>_. 0) (call_api c http ''editMessageText'' (edit_action_json cid chat message body) bool_of_json)
      | ReadMessageCall cid chat message \<Rightarrow>
          map_sum id (\<lambda>_. 0) (call_api c http ''readBusinessMessage'' (read_action_json cid chat message) bool_of_json)
      | DeleteMessagesCall cid messages \<Rightarrow>
          if length messages < 1 \<or> 100 < length messages
          then Inl (TgInvalidRequest (lit ''delete batch must contain 1 to 100 message IDs''))
          else
            map_sum id (\<lambda>_. 0)
              (call_api c http ''deleteBusinessMessages'' (delete_action_json cid messages) bool_of_json))"

subsection \<open>Registration of the webhook\<close>

datatype webhook_failure_kind =
    WebhookTimeout
  | WebhookTransport
  | RateLimited
  | ClientResponse
  | ServerResponse
  | WebhookProtocol
  | WebhookInvalidRequest

record webhook_failure_summary =
  wf_kind :: webhook_failure_kind
  wf_status_code :: "nat option"

datatype webhook_registration_error =
    RegistrationPermanent webhook_failure_summary
  | RegistrationExhausted webhook_failure_summary

datatype registration_failure =
    RegistrationRetry webhook_failure_summary "nat option"
  | RegistrationRefused webhook_failure_summary

definition REGISTRATION_RETRY_SECONDS :: "nat list" where
  "REGISTRATION_RETRY_SECONDS = [1, 2, 4, 8, 16, 30]"

definition MAX_RETRY_AFTER_SECONDS :: nat where
  "MAX_RETRY_AFTER_SECONDS = 60"

fun classify_registration :: "telegram_error \<Rightarrow> registration_failure" where
  "classify_registration TgTimeout =
     RegistrationRetry \<lparr>wf_kind = WebhookTimeout, wf_status_code = None\<rparr> None"
| "classify_registration TgTransport =
     RegistrationRetry \<lparr>wf_kind = WebhookTransport, wf_status_code = None\<rparr> None"
| "classify_registration (TgApi code _ retry_after) =
     (if code = 429
      then RegistrationRetry \<lparr>wf_kind = RateLimited, wf_status_code = Some 429\<rparr> retry_after
      else if 500 \<le> code \<and> code \<le> 599
      then RegistrationRetry \<lparr>wf_kind = ServerResponse, wf_status_code = Some code\<rparr> None
      else RegistrationRefused \<lparr>wf_kind = ClientResponse, wf_status_code = Some code\<rparr>)"
| "classify_registration (TgProtocol _) =
     RegistrationRetry \<lparr>wf_kind = WebhookProtocol, wf_status_code = None\<rparr> None"
| "classify_registration (TgInvalidRequest _) =
     RegistrationRefused \<lparr>wf_kind = WebhookInvalidRequest, wf_status_code = None\<rparr>"

definition registration_delay :: "nat \<Rightarrow> webhook_failure_summary \<Rightarrow> nat option \<Rightarrow> nat" where
  "registration_delay scheduled summary retry_after =
     (if wf_kind summary = RateLimited
      then (case map_option (\<lambda>s. min s MAX_RETRY_AFTER_SECONDS) retry_after of
              None \<Rightarrow> scheduled | Some s \<Rightarrow> max s scheduled)
      else scheduled)"

text \<open>As for lookups: the answer to each attempt, the delays left, and with the result the waits.\<close>

fun registration_attempts ::
  "(nat \<Rightarrow> telegram_error + unit) \<Rightarrow> nat list \<Rightarrow> nat \<Rightarrow> (webhook_registration_error + unit) \<times> nat list" where
  "registration_attempts api delays n =
     (case api n of
        Inr _ \<Rightarrow> (Inr (), [])
      | Inl error \<Rightarrow>
          (case classify_registration error of
             RegistrationRefused summary \<Rightarrow> (Inl (RegistrationPermanent summary), [])
           | RegistrationRetry summary retry_after \<Rightarrow>
               (case delays of
                  [] \<Rightarrow> (Inl (RegistrationExhausted summary), [])
                | scheduled # later \<Rightarrow>
                    let (r, waited) = registration_attempts api later (n + 1)
                    in (r, registration_delay scheduled summary retry_after # waited))))"

declare registration_attempts.simps [simp del]

definition reconcile_webhook ::
  "(nat \<Rightarrow> telegram_error + unit) \<Rightarrow> (webhook_registration_error + unit) \<times> nat list" where
  "reconcile_webhook api = registration_attempts api REGISTRATION_RETRY_SECONDS 0"

subsection \<open>Registration is bounded\<close>

definition temporary_failure :: "telegram_error + unit \<Rightarrow> bool" where
  "temporary_failure r \<longleftrightarrow> (\<exists>e summary after. r = Inl e \<and> classify_registration e = RegistrationRetry summary after)"

lemma registration_attempts_spec:
  assumes "registration_attempts api delays n = (r, waited)"
  shows "length waited \<le> length delays"
    and "\<And>i. i < length waited \<Longrightarrow> temporary_failure (api (n + i))"
    and "\<And>i. i < length waited \<Longrightarrow> delays ! i \<le> waited ! i \<and> waited ! i \<le> max (delays ! i) MAX_RETRY_AFTER_SECONDS"
    and "r = Inr () \<longleftrightarrow> api (n + length waited) = Inr ()"
    and "\<And>s. r = Inl (RegistrationExhausted s) \<Longrightarrow>
      length waited = length delays \<and> temporary_failure (api (n + length waited))"
    and "\<And>s. r = Inl (RegistrationPermanent s) \<Longrightarrow>
      \<exists>e. api (n + length waited) = Inl e \<and> classify_registration e = RegistrationRefused s"
proof -
  have "length waited \<le> length delays
    \<and> (\<forall>i < length waited. temporary_failure (api (n + i)) \<and> delays ! i \<le> waited ! i
        \<and> waited ! i \<le> max (delays ! i) MAX_RETRY_AFTER_SECONDS)
    \<and> (r = Inr () \<longleftrightarrow> api (n + length waited) = Inr ())
    \<and> (\<forall>s. r = Inl (RegistrationExhausted s) \<longrightarrow>
        length waited = length delays \<and> temporary_failure (api (n + length waited)))
    \<and> (\<forall>s. r = Inl (RegistrationPermanent s) \<longrightarrow>
        (\<exists>e. api (n + length waited) = Inl e \<and> classify_registration e = RegistrationRefused s))"
    using assms
  proof (induction delays arbitrary: n r waited)
    case Nil
    then show ?case
      by (subst (asm) registration_attempts.simps)
        (auto simp: temporary_failure_def split: sum.splits registration_failure.splits)
  next
    case (Cons d ds)
    show ?case
    proof (cases "temporary_failure (api n)")
      case False
      with Cons.prems show ?thesis
        by (subst (asm) registration_attempts.simps)
          (auto simp: temporary_failure_def split: sum.splits registration_failure.splits)
    next
      case True
      then obtain e summary after where e: "api n = Inl e" "classify_registration e = RegistrationRetry summary after"
        by (auto simp: temporary_failure_def)
      obtain r' rest where rest: "registration_attempts api ds (n + 1) = (r', rest)"
        by (cases "registration_attempts api ds (n + 1)")
      have waited: "waited = registration_delay d summary after # rest" "r = r'"
        using Cons.prems e rest by (simp_all add: registration_attempts.simps [of api "d # ds" n])
      have delay: "d \<le> registration_delay d summary after"
        "registration_delay d summary after \<le> max d MAX_RETRY_AFTER_SECONDS"
        by (auto simp: registration_delay_def split: option.split)
      show ?thesis
        using Cons.IH [OF rest] True delay unfolding waited
        by (auto simp: nth_Cons' less_Suc_eq_0_disj)
    qed
  qed
  then show "length waited \<le> length delays"
    and "\<And>i. i < length waited \<Longrightarrow> temporary_failure (api (n + i))"
    and "\<And>i. i < length waited \<Longrightarrow> delays ! i \<le> waited ! i \<and> waited ! i \<le> max (delays ! i) MAX_RETRY_AFTER_SECONDS"
    and "r = Inr () \<longleftrightarrow> api (n + length waited) = Inr ()"
    and "\<And>s. r = Inl (RegistrationExhausted s) \<Longrightarrow>
      length waited = length delays \<and> temporary_failure (api (n + length waited))"
    and "\<And>s. r = Inl (RegistrationPermanent s) \<Longrightarrow>
      \<exists>e. api (n + length waited) = Inl e \<and> classify_registration e = RegistrationRefused s"
    by blast+
qed

subsection \<open>What an authoritative answer is worth\<close>

definition connection_request :: "telegram_client \<Rightarrow> string \<Rightarrow> http_request" where
  "connection_request c cid = \<lparr>rq_path = [lit ''bot'' @ cl_token c, lit ''getBusinessConnection''],
     rq_body = JObj [(''business_connection_id'', JStr (lit cid))], rq_timeout = Some AUTHORITATIVE_REQUEST_TIMEOUT\<rparr>"

text \<open>Telegram's own word that there is no such connection.\<close>

definition says_not_found :: "http_answer \<Rightarrow> bool" where
  "says_not_found answer \<longleftrightarrow>
     (\<exists>status body e. answer = HttpAnswered status (Some body) \<and> envelope_of raw_connection_answer_of body = Some e
        \<and> \<not> ae_ok e \<and> (case ae_error_code e of Some code \<Rightarrow> code | None \<Rightarrow> status) = 400
        \<and> ae_description e = Some RECOGNIZED_CONNECTION_NOT_FOUND)"

definition valid_answer :: "string \<Rightarrow> authoritative_business_connection \<Rightarrow> bool" where
  "valid_answer cid a \<longleftrightarrow> trim (lit cid) \<noteq> [] \<and> au_connection_id a = cid \<and> 0 < au_business_user_id a
     \<and> 0 < au_connection_established_at a \<and> (\<forall>chat. au_user_chat_id a = Some chat \<longrightarrow> 0 < chat)"

lemmas not_found_texts = RECOGNIZED_CONNECTION_NOT_FOUND_def SAFE_CONNECTION_NOT_FOUND_def

lemma call_not_found:
  assumes "call_with_timeout c http tg_method request timeout decode
    = Inl (TgApi 400 RECOGNIZED_CONNECTION_NOT_FOUND after)"
  shows "\<exists>status body e. http \<lparr>rq_path = [lit ''bot'' @ cl_token c, lit tg_method], rq_body = request, rq_timeout = timeout\<rparr>
      = HttpAnswered status (Some body)
    \<and> envelope_of decode body = Some e \<and> \<not> ae_ok e
    \<and> (case ae_error_code e of Some code \<Rightarrow> code | None \<Rightarrow> status) = 400
    \<and> ae_description e = Some RECOGNIZED_CONNECTION_NOT_FOUND"
  using assms
  by (auto simp: call_with_timeout_def protocol_error_def ok_or_def not_found_texts
      split: http_answer.splits option.splits if_split_asm bind_splits)

lemma connection_not_found:
  assumes "get_business_connection c http cid = Inl e" and "classify e True = TerminalFailure (ConnectionNotFound status)"
  shows "says_not_found (http (connection_request c cid))"
proof -
  have ready: "trim (lit cid) \<noteq> []" using assms by (auto simp: get_business_connection_def)
  obtain e0 where e0: "call_with_timeout c http ''getBusinessConnection''
      (JObj [(''business_connection_id'', JStr (lit cid))]) (Some AUTHORITATIVE_REQUEST_TIMEOUT)
      raw_connection_answer_of = Inl e0" and e: "e = sanitize_authoritative_error True e0"
    using assms ready by (auto simp: get_business_connection_def not_found_texts split: sum.splits if_split_asm)
  obtain after where "e0 = TgApi 400 RECOGNIZED_CONNECTION_NOT_FOUND after"
    using assms(2) unfolding e by (cases e0) (auto simp: sanitize_authoritative_error_def not_found_texts split: if_split_asm)
  with call_not_found e0 show ?thesis unfolding says_not_found_def connection_request_def by blast
qed

lemma connection_valid:
  "get_business_connection c http cid = Inr a \<Longrightarrow> valid_answer cid a"
  by (auto simp: get_business_connection_def valid_answer_def split: sum.splits if_split_asm)

lemma lookup_attempts_origin:
  assumes "lookup_attempts b api delays n = (r, waited)"
  shows "(\<forall>x. r = Inr x \<longrightarrow> (\<exists>m. n \<le> m \<and> m \<le> n + length delays \<and> api m = Inr x))
    \<and> (\<forall>s. r = Inl (ConnectionNotFound s) \<longrightarrow> (\<exists>m e. n \<le> m \<and> m \<le> n + length delays \<and> api m = Inl e
          \<and> classify e b = TerminalFailure (ConnectionNotFound s)))"
  using assms
proof (induction delays arbitrary: n r waited)
  case Nil
  then show ?case
    by (subst (asm) lookup_attempts.simps) (auto split: sum.splits failure_class.splits)
next
  case (Cons d ds)
  show ?case
  proof (cases "\<exists>e s after. api n = Inl e \<and> classify e b = RetryFailure s after")
    case True
    then obtain e s after where e: "api n = Inl e" "classify e b = RetryFailure s after" by blast
    obtain r' rest where rest: "lookup_attempts b api ds (n + 1) = (r', rest)"
      by (cases "lookup_attempts b api ds (n + 1)")
    have "r = r'" using Cons.prems e rest by (simp add: lookup_attempts.simps [of b api "d # ds" n])
    have widen: "n + 1 \<le> m \<Longrightarrow> m \<le> n + 1 + length ds \<Longrightarrow> n \<le> m \<and> m \<le> n + length (d # ds)" for m by simp
    show ?thesis using Cons.IH [OF rest] widen unfolding \<open>r = r'\<close> by blast
  next
    case False
    with Cons.prems show ?thesis
      by (subst (asm) lookup_attempts.simps) (auto split: sum.splits failure_class.splits)
  qed
qed


text \<open>C40: The registration of the webhook ends. It makes at most seven attempts and waits only after a failure
  that may pass, never less than the schedule and never more than a minute; it succeeds exactly when
  the attempt after the last wait does, gives up at once when Telegram refuses, and reports
  exhaustion only after the seventh such failure.\<close>

theorem registration_bounded:
  assumes "reconcile_webhook api = (r, waited)"
  shows "length waited \<le> 6
    \<and> (\<forall>i < length waited. temporary_failure (api i) \<and> [1, 2, 4, 8, 16, 30] ! i \<le> waited ! i \<and> waited ! i \<le> 60)
    \<and> (r = Inr () \<longleftrightarrow> api (length waited) = Inr ())
    \<and> (case r of
         Inr _ \<Rightarrow> True
       | Inl (RegistrationExhausted _) \<Rightarrow> length waited = 6 \<and> temporary_failure (api 6)
       | Inl (RegistrationPermanent s) \<Rightarrow>
           \<exists>e. api (length waited) = Inl e \<and> classify_registration e = RegistrationRefused s)"
proof -
  note spec = registration_attempts_spec [OF assms [unfolded reconcile_webhook_def]]
  have six: "length waited \<le> 6" using spec(1) by (simp add: REGISTRATION_RETRY_SECONDS_def)
  have "REGISTRATION_RETRY_SECONDS ! i \<le> 60" if "i < 6" for i
  proof -
    from that have "i \<in> {0, 1, 2, 3, 4, 5}" by auto
    then show ?thesis by (auto simp: REGISTRATION_RETRY_SECONDS_def)
  qed
  note scheduled = this
  have waits: "\<forall>i < length waited. temporary_failure (api i) \<and> [1, 2, 4, 8, 16, 30] ! i \<le> waited ! i \<and> waited ! i \<le> 60"
  proof (intro allI impI)
    fix i
    assume i: "i < length waited"
    with six have "REGISTRATION_RETRY_SECONDS ! i \<le> 60" by (intro scheduled) simp
    with spec(2,3) [OF i] show "temporary_failure (api i) \<and> [1, 2, 4, 8, 16, 30] ! i \<le> waited ! i \<and> waited ! i \<le> 60"
      unfolding MAX_RETRY_AFTER_SECONDS_def REGISTRATION_RETRY_SECONDS_def by simp
  qed
  show ?thesis
  proof (intro conjI six waits)
    show "r = Inr () \<longleftrightarrow> api (length waited) = Inr ()" using spec(4) by simp
    show "case r of Inr _ \<Rightarrow> True
       | Inl (RegistrationExhausted _) \<Rightarrow> length waited = 6 \<and> temporary_failure (api 6)
       | Inl (RegistrationPermanent s) \<Rightarrow>
           \<exists>e. api (length waited) = Inl e \<and> classify_registration e = RegistrationRefused s"
    proof (cases r)
      case (Inl e)
      show ?thesis
      proof (cases e)
        case (RegistrationExhausted s)
        have len: "length REGISTRATION_RETRY_SECONDS = 6" by (simp add: REGISTRATION_RETRY_SECONDS_def)
        from Inl RegistrationExhausted have "r = Inl (RegistrationExhausted s)" by simp
        from spec(5) [OF this] len have at_end: "length waited = 6" "temporary_failure (api (length waited))" by auto
        then have "temporary_failure (api 6)" by (simp only: at_end(1))
        with at_end(1) Inl RegistrationExhausted show ?thesis
          by (simp only: sum.case webhook_registration_error.case simp_thms)
      qed (use spec(6) Inl in simp)
    qed simp
  qed
qed

theorem registration_bounded_witness:
  "reconcile_webhook (\<lambda>n. if n < 2 then Inl (TgApi 429 [] (Some 90)) else Inr ()) = (Inr (), [60, 60])
   \<and> length [60, 60 :: nat] \<le> 6"
proof -
  have run: "reconcile_webhook (\<lambda>n. if n < 2 then Inl (TgApi 429 [] (Some 90)) else Inr ()) = (Inr (), [60, 60])"
    by (simp add: reconcile_webhook_def REGISTRATION_RETRY_SECONDS_def registration_attempts.simps
        registration_delay_def MAX_RETRY_AFTER_SECONDS_def)
  from registration_bounded [OF this] run show ?thesis by blast
qed

end
