(* ===== verification/Configuration.thy ===== *)
theory Configuration
  imports Storage_Repositories
begin

section \<open>Configuration and the database file\<close>

text \<open>
  Models \<open>src/config.rs\<close> and the preflight of \<open>src/storage/database.rs\<close>: which settings the program
  accepts and which database files it opens. The parsers of URLs and of query strings belong to
  libraries and the file system is asked through \<open>path_env\<close>.
\<close>

subsection \<open>Settings\<close>

record url =
  ur_scheme :: ustring
  ur_host :: "ustring option"
  ur_username :: ustring
  ur_password :: "ustring option"
  ur_fragment :: "ustring option"
  ur_port_or_known_default :: "nat option"
  ur_text :: ustring

record app_settings =
  as_bot_token :: ustring
  as_public_webhook_url :: url
  as_database_url :: ustring
  as_destructive_mode :: bool

datatype config_error =
    ConfigMissing string
  | ConfigEmpty string
  | InvalidPublicWebhookUrl
  | UnsupportedPublicWebhookPort nat
  | InvalidDestructiveMode

definition BOT_TOKEN :: string where "BOT_TOKEN = ''CHATHYGIENE_BOT_TOKEN''"

definition PUBLIC_WEBHOOK_URL :: string where "PUBLIC_WEBHOOK_URL = ''CHATHYGIENE_PUBLIC_WEBHOOK_URL''"

definition DATABASE_URL :: string where "DATABASE_URL = ''CHATHYGIENE_DATABASE_URL''"

definition DESTRUCTIVE_MODE :: string where "DESTRUCTIVE_MODE = ''CHATHYGIENE_DESTRUCTIVE_MODE''"

definition parse_destructive_mode :: "ustring option \<Rightarrow> config_error + bool" where
  "parse_destructive_mode value_text =
     (case value_text of
        None \<Rightarrow> Inr False
      | Some t \<Rightarrow>
          if t = lit ''false'' then Inr False
          else if t = lit ''true'' then Inr True
          else Inl InvalidDestructiveMode)"

definition parse_public_webhook_url :: "(ustring \<Rightarrow> url option) \<Rightarrow> ustring \<Rightarrow> config_error + url" where
  "parse_public_webhook_url parse t =
     (case parse t of
        None \<Rightarrow> Inl InvalidPublicWebhookUrl
      | Some u \<Rightarrow>
          if ur_scheme u \<noteq> lit ''https'' \<or> ur_host u = None \<or> ur_username u \<noteq> [] \<or> ur_password u \<noteq> None
             \<or> ur_fragment u \<noteq> None
          then Inl InvalidPublicWebhookUrl
          else
            (case ur_port_or_known_default u of
               None \<Rightarrow> Inl InvalidPublicWebhookUrl
             | Some port \<Rightarrow>
                 if port \<notin> {443, 80, 88, 8443} then Inl (UnsupportedPublicWebhookPort port) else Inr u))"

definition default_database_url :: ustring where
  "default_database_url = lit ''sqlite://data/chathygiene.db''"

text \<open>The four parts, as both loaders put them together.\<close>

definition settings_of ::
  "config_error + ustring \<Rightarrow> config_error + url \<Rightarrow> config_error + ustring option
   \<Rightarrow> (config_error + bool) \<Rightarrow> config_error + app_settings" where
  "settings_of token url database mode =
     (case token of Inl e \<Rightarrow> Inl e | Inr token \<Rightarrow>
     (case url of Inl e \<Rightarrow> Inl e | Inr url \<Rightarrow>
     (case database of Inl e \<Rightarrow> Inl e | Inr database \<Rightarrow>
     (case mode of Inl e \<Rightarrow> Inl e | Inr mode \<Rightarrow>
        Inr \<lparr>as_bot_token = token, as_public_webhook_url = url,
             as_database_url = (case database of None \<Rightarrow> default_database_url | Some d \<Rightarrow> d),
             as_destructive_mode = mode\<rparr>))))"

definition required_secret :: "(string \<rightharpoonup> ustring) \<Rightarrow> string \<Rightarrow> config_error + ustring" where
  "required_secret values name =
     (case values name of
        None \<Rightarrow> Inl (ConfigMissing name)
      | Some t \<Rightarrow> if trim t = [] then Inl (ConfigEmpty name) else Inr t)"

definition from_map :: "(ustring \<Rightarrow> url option) \<Rightarrow> (string \<rightharpoonup> ustring) \<Rightarrow> config_error + app_settings" where
  "from_map parse values =
     settings_of (required_secret values BOT_TOKEN)
       (case values PUBLIC_WEBHOOK_URL of
          None \<Rightarrow> Inl (ConfigMissing PUBLIC_WEBHOOK_URL)
        | Some t \<Rightarrow> parse_public_webhook_url parse t)
       (Inr (values DATABASE_URL))
       (parse_destructive_mode (values DESTRUCTIVE_MODE))"

datatype env_var = EnvPresent ustring | EnvNotPresent | EnvNotUnicode

definition optional_environment :: "(string \<Rightarrow> env_var) \<Rightarrow> string \<Rightarrow> config_error + ustring option" where
  "optional_environment env name =
     (case env name of
        EnvPresent t \<Rightarrow> Inr (Some t)
      | EnvNotPresent \<Rightarrow> Inr None
      | EnvNotUnicode \<Rightarrow> Inl (ConfigEmpty name))"

definition required_environment :: "(string \<Rightarrow> env_var) \<Rightarrow> string \<Rightarrow> config_error + ustring" where
  "required_environment env name =
     (case optional_environment env name of
        Inl e \<Rightarrow> Inl e
      | Inr None \<Rightarrow> Inl (ConfigMissing name)
      | Inr (Some t) \<Rightarrow> if trim t = [] then Inl (ConfigEmpty name) else Inr t)"

definition from_env :: "(ustring \<Rightarrow> url option) \<Rightarrow> (string \<Rightarrow> env_var) \<Rightarrow> config_error + app_settings" where
  "from_env parse env =
     settings_of (required_environment env BOT_TOKEN)
       (case required_environment env PUBLIC_WEBHOOK_URL of
          Inl e \<Rightarrow> Inl e | Inr t \<Rightarrow> parse_public_webhook_url parse t)
       (optional_environment env DATABASE_URL)
       (case optional_environment env DESTRUCTIVE_MODE of
          Inl e \<Rightarrow> Inl e | Inr t \<Rightarrow> parse_destructive_mode t)"

subsection \<open>Paths\<close>

text \<open>A path by its components.\<close>

record path =
  pa_absolute :: bool
  pa_names :: "ustring list"

definition path_join :: "path \<Rightarrow> path \<Rightarrow> path" where
  "path_join base p = (if pa_absolute p then p else base\<lparr>pa_names := pa_names base @ pa_names p\<rparr>)"

definition path_child :: "path \<Rightarrow> string \<Rightarrow> path" where
  "path_child base name = base\<lparr>pa_names := pa_names base @ [lit name]\<rparr>"

definition path_file_name :: "path \<Rightarrow> ustring option" where
  "path_file_name p =
     (case rev (pa_names p) of
        [] \<Rightarrow> None
      | n # _ \<Rightarrow> if n = lit ''..'' \<or> n = lit ''.'' then None else Some n)"

definition path_parent :: "path \<Rightarrow> path option" where
  "path_parent p = (if pa_names p = [] then None else Some (p\<lparr>pa_names := butlast (pa_names p)\<rparr>))"

datatype lstat_result = LstatFound bool \<comment> \<open>a symbolic link\<close> | LstatNotFound | LstatFailed

record path_env =
  pe_current_dir :: "path option"
  pe_is_dir :: "path \<Rightarrow> bool option" \<comment> \<open>nothing when it cannot be read\<close>
  pe_accessible :: "path \<Rightarrow> bool"
  pe_lstat :: "path \<Rightarrow> lstat_result"
  pe_parse_url :: "ustring \<Rightarrow> path option" \<comment> \<open>the file of a database URL\<close>
  pe_parse_query :: "ustring \<Rightarrow> (ustring \<times> ustring) list"

record service_database_descriptor =
  sd_database_path :: path
  sd_database_existed :: bool

definition MEMORY_URLS :: "ustring list" where
  "MEMORY_URLS = [lit '':memory:'', lit ''sqlite::memory:'', lit ''sqlite://:memory:'']"

text \<open>\<open>split_once('?')\<close>: what follows the first question mark.\<close>

fun query_of :: "ustring \<Rightarrow> ustring option" where
  "query_of [] = None"
| "query_of (c # cs) = (if c = 63 then Some cs else query_of cs)"

definition in_memory :: "storage_error" where
  "in_memory = InvalidServiceDatabase ''in-memory databases are unsupported''"

definition reject_memory_url :: "path_env \<Rightarrow> ustring \<Rightarrow> storage_error + unit" where
  "reject_memory_url P raw_url =
     (if ascii_lower (trim raw_url) \<in> set MEMORY_URLS then Inl in_memory
      else
        (case query_of raw_url of
           None \<Rightarrow> Inr ()
         | Some query \<Rightarrow>
             if \<exists>(key, v) \<in> set (pe_parse_query P query). ascii_lower key = lit ''mode'' \<and> ascii_lower v = lit ''memory''
             then Inl in_memory else Inr ()))"

definition no_follow_exists :: "path_env \<Rightarrow> path \<Rightarrow> storage_error + bool" where
  "no_follow_exists P p =
     (case pe_lstat P p of
        LstatFound _ \<Rightarrow> Inr True
      | LstatNotFound \<Rightarrow> Inr False
      | LstatFailed \<Rightarrow> Inl (InvalidServiceDatabase ''database path cannot be inspected''))"

definition sibling_claim_artifact_exists :: "path_env \<Rightarrow> path \<Rightarrow> storage_error + bool" where
  "sibling_claim_artifact_exists P parent =
     (case no_follow_exists P (path_child parent ''claim-code'') of
        Inl e \<Rightarrow> Inl e
      | Inr True \<Rightarrow> Inr True
      | Inr False \<Rightarrow> no_follow_exists P (path_child parent ''.claim-code.tmp''))"

definition working_directory :: "path_env \<Rightarrow> path \<Rightarrow> storage_error + path" where
  "working_directory P service_working_directory =
     (if pa_absolute service_working_directory then Inr service_working_directory
      else
        (case pe_current_dir P of
           None \<Rightarrow> Inl (InvalidServiceDatabase ''working directory is invalid'')
         | Some current \<Rightarrow> Inr (path_join current service_working_directory)))"

text \<open>The checks of \<open>parse\<close> on the resolved path of the database.\<close>

definition accept_database_path :: "path_env \<Rightarrow> path \<Rightarrow> storage_error + service_database_descriptor" where
  "accept_database_path P database_path =
     (if path_file_name database_path = Some (lit ''claim-code'')
         \<or> path_file_name database_path = Some (lit ''.claim-code.tmp'')
      then Inl (InvalidServiceDatabase ''database filename collides with a claim artifact'')
      else
        (case path_parent database_path of
           None \<Rightarrow> Inl (InvalidServiceDatabase ''database parent directory is missing'')
         | Some parent \<Rightarrow>
             if pe_is_dir P parent \<noteq> Some True \<or> \<not> pe_accessible P parent
             then Inl (InvalidServiceDatabase ''database parent directory is unusable'')
             else
               (case no_follow_exists P database_path of
                  Inl e \<Rightarrow> Inl e
                | Inr database_existed \<Rightarrow>
                    if database_existed \<and> pe_lstat P database_path = LstatFound True
                    then Inl (InvalidServiceDatabase ''database path must not be a symlink'')
                    else if \<not> database_existed
                    then
                      (case sibling_claim_artifact_exists P parent of
                         Inl e \<Rightarrow> Inl e
                       | Inr orphan \<Rightarrow>
                           if orphan then Inl OrphanClaimArtifact
                           else Inr \<lparr>sd_database_path = database_path, sd_database_existed = False\<rparr>)
                    else Inr \<lparr>sd_database_path = database_path, sd_database_existed = True\<rparr>)))"

definition parse_descriptor :: "path_env \<Rightarrow> ustring \<Rightarrow> path \<Rightarrow> storage_error + service_database_descriptor" where
  "parse_descriptor P raw_url service_working_directory =
     (case reject_memory_url P raw_url of
        Inl e \<Rightarrow> Inl e
      | Inr _ \<Rightarrow>
          (case working_directory P service_working_directory of
             Inl e \<Rightarrow> Inl e
           | Inr directory \<Rightarrow>
               if pe_is_dir P directory \<noteq> Some True
               then Inl (InvalidServiceDatabase ''working directory is unusable'')
               else
                 (case pe_parse_url P raw_url of
                    None \<Rightarrow> Inl (InvalidServiceDatabase ''database URL is invalid'')
                  | Some filename \<Rightarrow>
                      if (pa_names filename = [] \<and> \<not> pa_absolute filename) \<or> path_file_name filename = None
                      then Inl (InvalidServiceDatabase ''database filename is missing'')
                      else accept_database_path P (path_join directory filename))))"

text \<open>The second look, right before the database is opened; the opening itself belongs to the driver.\<close>

definition connect_preflight :: "path_env \<Rightarrow> service_database_descriptor \<Rightarrow> storage_error + unit" where
  "connect_preflight P d =
     (if sd_database_existed d then Inr ()
      else
        (case no_follow_exists P (sd_database_path d) of
           Inl e \<Rightarrow> Inl e
         | Inr True \<Rightarrow> Inl (InvalidServiceDatabase ''database path changed after preflight'')
         | Inr False \<Rightarrow>
             (case path_parent (sd_database_path d) of
                None \<Rightarrow> Inl (InvalidServiceDatabase ''database parent directory is missing'')
              | Some parent \<Rightarrow>
                  (case sibling_claim_artifact_exists P parent of
                     Inl e \<Rightarrow> Inl e
                   | Inr orphan \<Rightarrow> if orphan then Inl OrphanClaimArtifact else Inr ()))))"

subsection \<open>What is accepted\<close>

lemma settings_of_Inr:
  assumes "settings_of token url database mode = Inr s"
  shows "token = Inr (as_bot_token s)" and "url = Inr (as_public_webhook_url s)"
  using assms by (auto simp: settings_of_def split: sum.splits)

lemma accepted_url:
  assumes "parse_public_webhook_url parse t = Inr u"
  shows "ur_scheme u = lit ''https'' \<and> ur_host u \<noteq> None \<and> ur_port_or_known_default u \<in> Some ` {443, 80, 88, 8443}"
  using assms by (auto simp: parse_public_webhook_url_def split: option.splits if_split_asm)

text \<open>Settings that are accepted have a token and an address that Telegram can call.\<close>

lemma accepted_settings:
  assumes "from_env parse env = Inr s \<or> from_map parse values = Inr s"
  shows "trim (as_bot_token s) \<noteq> [] \<and> ur_scheme (as_public_webhook_url s) = lit ''https''
    \<and> ur_host (as_public_webhook_url s) \<noteq> None
    \<and> ur_port_or_known_default (as_public_webhook_url s) \<in> Some ` {443, 80, 88, 8443}"
  using assms
proof
  assume "from_env parse env = Inr s"
  note parts = settings_of_Inr [OF this [unfolded from_env_def]]
  from parts(1) have "trim (as_bot_token s) \<noteq> []"
    by (auto simp: required_environment_def split: sum.splits option.splits if_split_asm)
  moreover from parts(2) obtain t where "parse_public_webhook_url parse t = Inr (as_public_webhook_url s)"
    by (auto split: sum.splits)
  ultimately show ?thesis using accepted_url by blast
next
  assume "from_map parse values = Inr s"
  note parts = settings_of_Inr [OF this [unfolded from_map_def]]
  from parts(1) have "trim (as_bot_token s) \<noteq> []"
    by (auto simp: required_secret_def split: option.splits if_split_asm)
  moreover from parts(2) obtain t where "parse_public_webhook_url parse t = Inr (as_public_webhook_url s)"
    by (auto split: option.splits)
  ultimately show ?thesis using accepted_url by blast
qed

lemma no_follow_absent: "no_follow_exists P p = Inr False \<longleftrightarrow> pe_lstat P p = LstatNotFound"
  by (simp add: no_follow_exists_def split: lstat_result.split)

text \<open>
  A database is created only where no claim artifact of another installation lies, and never in
  memory, through a symbolic link, or under the name of an artifact.
\<close>

lemma database_file_accepted:
  assumes "parse_descriptor P raw_url directory = Inr d"
  shows "reject_memory_url P raw_url = Inr ()
    \<and> pe_lstat P (sd_database_path d) \<noteq> LstatFound True
    \<and> (\<exists>parent name. path_parent (sd_database_path d) = Some parent \<and> pe_is_dir P parent = Some True
        \<and> path_file_name (sd_database_path d) \<noteq> Some (lit ''claim-code'')
        \<and> path_file_name (sd_database_path d) \<noteq> Some (lit ''.claim-code.tmp'')
        \<and> (sd_database_existed d \<or> pe_lstat P (path_child parent ''claim-code'') = LstatNotFound
             \<and> pe_lstat P (path_child parent ''.claim-code.tmp'') = LstatNotFound))"
proof -
  from assms obtain p where ok: "reject_memory_url P raw_url = Inr ()" and p: "accept_database_path P p = Inr d"
    by (auto simp: parse_descriptor_def split: sum.splits option.splits if_split_asm)
  obtain parent existed where parent: "path_parent p = Some parent" "pe_is_dir P parent = Some True"
    and names: "path_file_name p \<noteq> Some (lit ''claim-code'')" "path_file_name p \<noteq> Some (lit ''.claim-code.tmp'')"
    and existed: "no_follow_exists P p = Inr existed" "\<not> (existed \<and> pe_lstat P p = LstatFound True)"
    and d: "d = \<lparr>sd_database_path = p, sd_database_existed = existed\<rparr>"
    and fresh: "existed \<or> sibling_claim_artifact_exists P parent = Inr False"
    using p unfolding accept_database_path_def
    by (auto split: option.splits sum.splits if_split_asm)
  have "pe_lstat P p \<noteq> LstatFound True"
    using existed by (auto simp: no_follow_exists_def)
  moreover have "existed \<or> pe_lstat P (path_child parent ''claim-code'') = LstatNotFound
      \<and> pe_lstat P (path_child parent ''.claim-code.tmp'') = LstatNotFound"
    using fresh by (auto simp: sibling_claim_artifact_exists_def no_follow_absent split: sum.splits bool.splits)
  ultimately show ?thesis using ok parent names d by auto
qed

end
