(* ===== verification/Startup.thy ===== *)
theory Startup
  imports Webhook Challenge_Upgrade Key_Material Claim_File_Recovery Telegram_Client Configuration
begin

section \<open>The start of the program\<close>

text \<open>
  Models \<open>src/app.rs\<close> and \<open>src/runtime_workers.rs\<close>: the one path by which a process gets from its settings to a prepared
  runtime, through the key material, the claim-code file, the bot's identity, the reconciliation
  gate, the log and the challenges. Every step is one transaction or one operation on files, and a
  failing step leaves what the earlier steps did. What the operating system, Telegram, the clock and
  the entropy source answer is \<open>startup_env\<close>; opening and migrating the database is one of its
  answers. Then what the listener, the registration and the stop of the workers make of a prepared
  runtime, and the answers on its health.
\<close>

subsection \<open>The machine\<close>

record machine =
  mc_keys :: "key_row list"
  mc_db :: database
  mc_fs :: fs

record 'r startup_env =
  st_path :: path_env
  st_connect_path :: path_env
  st_open :: "storage_error + unit"
  st_keys :: key_env
  st_fill :: "nat \<Rightarrow> byte list option"
  st_crypto :: crypto
  st_detector :: "detector_error + rule_detector"
  st_rng :: 'r
  st_get_me :: "nat \<Rightarrow> telegram_error + authenticated_bot"
  st_business :: "string \<Rightarrow> nat \<Rightarrow> telegram_error + authoritative_business_connection"
  st_rfc :: "timestamp \<Rightarrow> ustring"
  st_seed_now :: timestamp
  st_gate_now :: timestamp
  st_event_now :: "i64 \<Rightarrow> timestamp"
  st_owner_now :: timestamp
  st_trusted_now :: timestamp
  st_directory :: "directory_stat option"
  st_euid :: nat
  st_egid :: nat
  st_os :: os
  st_os_later :: os \<comment> \<open>for the second look at the claim-code file\<close>

datatype startup_error =
    AppStorage storage_error
  | AppDetector detector_error
  | AppEvent event_error
  | AppProcessing processing_error
  | AppInstallationKey installation_key_error
  | AppChallengeKeyUpgrade challenge_key_upgrade_error
  | AppClaimFile claim_file_error
  | StartupBotAuthentication
  | StartupBotLookup
  | StartupBusinessAuthentication
  | AppWebhookRegistration webhook_registration_error
  | AppBind
  | AppServer
  | AppWorkerShutdown
  | AppServerAndWorker
  | RuntimeTelegramAuthentication

record 'r prepared_runtime =
  pr_detector :: rule_detector
  pr_verifier :: "'r arithmetic_verifier"
  pr_webhook_secret :: "byte list"
  pr_public_webhook_url :: url
  pr_owner_identity :: owner_identity
  pr_claim_file_manager :: claim_file_manager
  pr_claim_setup_capability :: claim_setup_capability
  pr_owner_claim_token :: "byte list option"
  pr_destructive_mode :: bool
  pr_startup_pending_connection_id :: "string option"

type_synonym 'a start = "machine \<Rightarrow> (startup_error + 'a) \<times> machine"

definition started :: "'a \<Rightarrow> 'a start" where
  "started x m = (Inr x, m)"

definition start_fails :: "startup_error \<Rightarrow> 'a start" where
  "start_fails e m = (Inl e, m)"

definition start_then :: "'a start \<Rightarrow> ('a \<Rightarrow> 'b start) \<Rightarrow> 'b start" where
  "start_then f k m = (case f m of (Inl e, n) \<Rightarrow> (Inl e, n) | (Inr x, n) \<Rightarrow> k x n)"

definition demand :: "('e \<Rightarrow> startup_error) \<Rightarrow> 'e + 'a \<Rightarrow> 'a start" where
  "demand f r = (case r of Inl e \<Rightarrow> start_fails (f e) | Inr x \<Rightarrow> started x)"

definition on_keys :: "(key_row list \<Rightarrow> (storage_error + 'a) \<times> key_row list) \<Rightarrow> 'a start" where
  "on_keys f m = (case f (mc_keys m) of (r, rows) \<Rightarrow> (map_sum AppStorage id r, m\<lparr>mc_keys := rows\<rparr>))"

definition on_db :: "('e \<Rightarrow> startup_error) \<Rightarrow> (database \<Rightarrow> ('e + 'a) \<times> database) \<Rightarrow> 'a start" where
  "on_db e f m = (case f (mc_db m) of (r, d) \<Rightarrow> (map_sum e id r, m\<lparr>mc_db := d\<rparr>))"

definition on_files :: "'a fop \<Rightarrow> 'a start" where
  "on_files f m = (case f (mc_fs m) of (r, g) \<Rightarrow> (map_sum AppClaimFile id r, m\<lparr>mc_fs := g\<rparr>))"

subsection \<open>Preparation\<close>

definition startup_lookup_error :: "authoritative_lookup_error \<Rightarrow> startup_error" where
  "startup_lookup_error e = (case e of BotAuthentication _ \<Rightarrow> StartupBotAuthentication | _ \<Rightarrow> StartupBotLookup)"

text \<open>No engine runs yet, and no other worker.\<close>

definition trusted_at_startup :: "'r startup_env \<Rightarrow> string \<Rightarrow> database
    \<Rightarrow> (processing_error + trusted_startup_reconciliation) \<times> database" where
  "trusted_at_startup E cid d =
     (case reconcile_trusted_current_state (st_business E) cid (st_trusted_now E)
             \<lparr>w_engine = new_engine () () False, w_db = d, w_calls = [], w_others = []\<rparr> of
        (r, w) \<Rightarrow> (r, w_db w))"

definition reconcile_trusted_at_startup :: "'r startup_env \<Rightarrow> string option start" where
  "reconcile_trusted_at_startup E =
     start_then (on_db AppStorage (commit load_single_trusted_connection)) (\<lambda>trusted.
     case trusted of
       None \<Rightarrow> started None
     | Some b \<Rightarrow>
         start_then (on_db AppProcessing (trusted_at_startup E (bc_connection_id b))) (\<lambda>outcome.
         case outcome of
           Converged \<Rightarrow> started None
         | StillPending _ \<Rightarrow> started (Some (bc_connection_id b))
         | AuthenticationFailed \<Rightarrow> start_fails StartupBusinessAuthentication))"

text \<open>The keys: the seed, the derived keys, and the first look at the claim-code file.\<close>

definition prepare_keys ::
  "'r startup_env \<Rightarrow> claim_file_manager \<Rightarrow> (master_seed \<times> bot_independent_keys) start" where
  "prepare_keys E manager =
     (let services = ke_services (st_keys E)
      in start_then (on_keys (load_or_initialize_master_seed (st_keys E) (st_fill E) (st_seed_now E))) (\<lambda>seed.
         start_then (demand AppInstallationKey
           (derive_bot_independent_keys services (sd_key_version seed) (sd_bytes seed))) (\<lambda>keys.
         start_then (on_files (validate_existing_before_reconciliation (hex_text services) manager (st_os E)
           (ik_owner_claim_token keys))) (\<lambda>_.
           started (seed, keys)))))"

text \<open>The bot: who it is, that it is the pinned one, and the webhook secret that goes with it.\<close>

definition prepare_bot :: "'r startup_env \<Rightarrow> master_seed \<Rightarrow> byte list start" where
  "prepare_bot E seed =
     start_then (demand startup_lookup_error (fst (lookup_authenticated_bot (st_get_me E)))) (\<lambda>bot.
     start_then (on_keys (commit (pin_or_verify_telegram_bot_id (st_keys E) (ab_id bot)))) (\<lambda>_.
     start_then (on_keys (commit (load_persisted_telegram_bot_id (st_keys E)))) (\<lambda>persisted.
       demand AppInstallationKey
         (derive_webhook_secret (ke_services (st_keys E)) (sd_key_version seed) (sd_bytes seed) persisted))))"

text \<open>The database: the gate closes, what was recorded is applied, and the owner is known.\<close>

definition prepare_database :: "'r startup_env \<Rightarrow> (owner_identity \<times> string option) start" where
  "prepare_database E =
     (let applier = lifecycle_apply (st_rfc E)
      in start_then (on_db AppStorage (commit (normalize_startup_reconciliation (st_gate_now E)))) (\<lambda>_.
         start_then (on_db AppEvent (recover_legacy_recorded_connection_events applier (st_rfc E) (st_event_now E))) (\<lambda>_.
         start_then (on_db AppStorage (commit (initialize_or_load_owner_identity (st_owner_now E)))) (\<lambda>i.
         start_then (reconcile_trusted_at_startup E) (\<lambda>pending.
         start_then (on_db AppEvent (recover_recorded_events applier (st_rfc E) (st_event_now E))) (\<lambda>_.
           started (i, pending)))))))"

text \<open>The last steps: what is stored under old keys is brought up to date, and so is the claim-code file.\<close>

definition finish_preparation :: "'r startup_env \<Rightarrow> app_settings \<Rightarrow> claim_file_manager
    \<Rightarrow> bot_independent_keys \<Rightarrow> byte list \<Rightarrow> owner_identity \<Rightarrow> string option \<Rightarrow> 'r prepared_runtime start" where
  "finish_preparation E s manager keys webhook_secret i pending =
     (let verifier = \<lparr>av_rng = st_rng E, av_key = ik_challenge_hmac_key keys, av_key_version = ik_key_version keys\<rparr>
      in start_then (on_db AppChallengeKeyUpgrade (upgrade_active_challenge_hmacs (st_crypto E) verifier)) (\<lambda>_.
         start_then (demand AppDetector (st_detector E)) (\<lambda>detector.
         start_then (on_files (reconcile_claim_file (hex_text (ke_services (st_keys E))) manager (st_os_later E) i
           (ik_owner_claim_token keys))) (\<lambda>_.
           started \<lparr>pr_detector = detector, pr_verifier = verifier, pr_webhook_secret = webhook_secret,
             pr_public_webhook_url = as_public_webhook_url s, pr_owner_identity = i,
             pr_claim_file_manager = manager,
             pr_claim_setup_capability = (case i of Unclaimed \<Rightarrow> SetupAvailable | Claimed _ _ _ _ _ \<Rightarrow> SetupUnavailable),
             pr_owner_claim_token =
               (case i of Unclaimed \<Rightarrow> Some (ik_owner_claim_token keys) | Claimed _ _ _ _ _ \<Rightarrow> None),
             pr_destructive_mode = as_destructive_mode s,
             pr_startup_pending_connection_id = pending\<rparr>))))"

definition prepare_runtime :: "'r startup_env \<Rightarrow> app_settings \<Rightarrow> 'r prepared_runtime start" where
  "prepare_runtime E s =
     start_then (demand AppStorage
       (parse_descriptor (st_path E) (as_database_url s) \<lparr>pa_absolute = False, pa_names = [lit ''.'']\<rparr>)) (\<lambda>database.
     start_then (demand AppClaimFile (from_database_descriptor (st_directory E) (st_euid E) (st_egid E))) (\<lambda>manager.
     start_then (demand AppStorage (connect_preflight (st_connect_path E) database)) (\<lambda>_.
     start_then (demand AppStorage (st_open E)) (\<lambda>_.
     start_then (prepare_keys E manager) (\<lambda>(seed, keys).
     start_then (prepare_bot E seed) (\<lambda>webhook_secret.
     start_then (prepare_database E) (\<lambda>(i, pending).
       finish_preparation E s manager keys webhook_secret i pending)))))))"

subsection \<open>Serving\<close>

text \<open>The engine and the identity that \<open>serve\<close> gives its workers.\<close>

definition served_world :: "instant \<Rightarrow> 'r prepared_runtime \<Rightarrow> (database \<Rightarrow> database) list \<Rightarrow> machine
    \<Rightarrow> (rule_detector, 'r arithmetic_verifier) world" where
  "served_world now p others m =
     \<lparr>w_engine = with_startup_pending_connection (pr_startup_pending_connection_id p) now
        ((with_owner_claim (pr_owner_claim_token p) (pr_owner_identity p)
           (new_engine (pr_detector p) (pr_verifier p) (pr_destructive_mode p)))
         \<lparr>en_claim_file_manager := True, en_claim_setup_capability := pr_claim_setup_capability p\<rparr>),
      w_db = mc_db m, w_calls = [], w_others = others\<rparr>"

definition bind_listener :: "bool \<Rightarrow> 'p \<Rightarrow> startup_error + 'p" where
  "bind_listener bound prepared = (if bound then Inr prepared else Inl AppBind)"

definition reconcile_bound :: "(nat \<Rightarrow> telegram_error + unit) \<Rightarrow> 'p \<Rightarrow> startup_error + 'p" where
  "reconcile_bound api prepared = map_sum AppWebhookRegistration (\<lambda>_. prepared) (fst (reconcile_webhook api))"

text \<open>
  \<open>src/runtime_workers.rs\<close>: every worker is told to stop before any is awaited, and every one is
  awaited; one that does not stop in time is aborted.
\<close>

datatype worker_end = WorkerReturned | WorkerPanicked | WorkerTimedOut

datatype shutdown_event = StopSignalled nat | WorkerAwaited nat | WorkerAborted nat

definition wait_worker :: "nat \<Rightarrow> worker_end \<Rightarrow> bool \<times> shutdown_event list" where
  "wait_worker i e =
     (case e of
        WorkerReturned \<Rightarrow> (True, [WorkerAwaited i])
      | WorkerPanicked \<Rightarrow> (False, [WorkerAwaited i])
      | WorkerTimedOut \<Rightarrow> (False, [WorkerAwaited i, WorkerAborted i]))"

fun wait_workers :: "nat \<Rightarrow> worker_end list \<Rightarrow> bool \<times> shutdown_event list" where
  "wait_workers i [] = (True, [])"
| "wait_workers i (e # es) =
     (let (ok, done_now) = wait_worker i e; (rest_ok, later) = wait_workers (i + 1) es
      in (ok \<and> rest_ok, done_now @ later))"

definition stop_and_wait :: "worker_end list \<Rightarrow> bool \<times> shutdown_event list" where
  "stop_and_wait workers =
     (let (ok, waits) = wait_workers 0 workers in (ok, map StopSignalled [0..<length workers] @ waits))"

datatype runtime_exit_error = ServerFailed | WorkerShutdownFailed | ServerAndWorkerFailed

definition run_server_with_workers :: "bool \<Rightarrow> worker_end list \<Rightarrow> runtime_exit_error option \<times> shutdown_event list" where
  "run_server_with_workers server_ok workers =
     (let (workers_ok, events) = stop_and_wait workers
      in (case (server_ok, workers_ok) of
            (True, True) \<Rightarrow> None
          | (False, True) \<Rightarrow> Some ServerFailed
          | (True, False) \<Rightarrow> Some WorkerShutdownFailed
          | (False, False) \<Rightarrow> Some ServerAndWorkerFailed, events))"

definition serve_result :: "bool \<Rightarrow> worker_end list \<Rightarrow> bool \<Rightarrow> startup_error + unit" where
  "serve_result server_ok workers fatal_seen =
     (case fst (run_server_with_workers server_ok workers) of
        Some ServerFailed \<Rightarrow> Inl AppServer
      | Some WorkerShutdownFailed \<Rightarrow> Inl AppWorkerShutdown
      | Some ServerAndWorkerFailed \<Rightarrow> Inl AppServerAndWorker
      | None \<Rightarrow> if fatal_seen then Inl RuntimeTelegramAuthentication else Inr ())"

subsection \<open>Health\<close>

definition liveness :: "nat \<times> json" where
  "liveness = (200, JObj [(''status'', jstr ''ok'')])"

definition health_response :: "timestamp \<Rightarrow> database \<Rightarrow> (nat \<times> json) \<times> database" where
  "health_response now d =
     (case classify_readiness now d of
        (Inr h, t) \<Rightarrow>
          ((200, JObj [(''status'', jstr ''ok''), (''owner'', jstr (owner_health_as_str (hs_owner h))),
             (''connection'', jstr (connection_health_as_str (hs_connection h)))]), t)
      | (Inl _, t) \<Rightarrow> ((503, JObj [(''status'', jstr ''unavailable'')]), t))"

end
