(* ===== verification/Startup_Safety.thy ===== *)
theory Startup_Safety
  imports Startup
begin

section \<open>What a start guarantees\<close>

text \<open>
  A successful start leaves a machine on which nothing is trusted yet, nothing is lost, and every
  secret is the one of the start before.
\<close>

subsection \<open>Steps of a start\<close>

lemma start_then_Inr:
  "start_then f k m = (Inr y, n) \<longleftrightarrow> (\<exists>x m'. f m = (Inr x, m') \<and> k x m' = (Inr y, n))"
  by (cases "f m"; cases "fst (f m)") (auto simp: start_then_def)

lemma started_Inr: "started x m = (Inr y, n) \<longleftrightarrow> y = x \<and> n = m"
  by (auto simp: started_def)

lemma start_fails_Inr: "start_fails e m = (Inr y, n) \<longleftrightarrow> False"
  by (simp add: start_fails_def)

lemma demand_Inr: "demand f r m = (Inr x, n) \<longleftrightarrow> r = Inr x \<and> n = m"
  by (cases r) (auto simp: demand_def started_def start_fails_def)

lemma map_sum_Inr: "map_sum f id r = Inr x \<longleftrightarrow> r = Inr x"
  by (cases r) auto

lemma on_keys_Inr: "on_keys f m = (Inr x, n) \<longleftrightarrow> (\<exists>rows. f (mc_keys m) = (Inr x, rows) \<and> n = m\<lparr>mc_keys := rows\<rparr>)"
  by (cases "f (mc_keys m)") (auto simp: on_keys_def map_sum_Inr)

lemma on_db_Inr: "on_db e f m = (Inr x, n) \<longleftrightarrow> (\<exists>d. f (mc_db m) = (Inr x, d) \<and> n = m\<lparr>mc_db := d\<rparr>)"
  by (cases "f (mc_db m)") (auto simp: on_db_def map_sum_Inr)

lemma on_files_Inr: "on_files f m = (Inr x, n) \<longleftrightarrow> (\<exists>g. f (mc_fs m) = (Inr x, g) \<and> n = m\<lparr>mc_fs := g\<rparr>)"
  by (cases "f (mc_fs m)") (auto simp: on_files_def map_sum_Inr)

lemmas start_Inr = start_then_Inr started_Inr start_fails_Inr demand_Inr on_keys_Inr on_db_Inr on_files_Inr

subsection \<open>The gate stays closed\<close>

interpretation gate: step_relation "same reconciliation"
  by (rule step_relation_same)

lemma gateI: "(\<And>d x t. m d = Inr (x, t) \<Longrightarrow> reconciliation t = reconciliation d) \<Longrightarrow> stays (same reconciliation) m"
  by (auto simp: stays_def same_def)

lemma gate_owner: "stays (same reconciliation) (set_owner_if p f)"
  by (rule gateI) (auto simp: set_owner_if_def split: if_splits)

lemma gate_promote: "stays (same reconciliation) (promote_owner_chat user chat src :: (database, _, _) op)"
  unfolding promote_owner_chat_def
  by (auto intro!: gate.stays_basic gate_owner gate.stays_reads [OF reads_load_owner(2)] split: owner_identity.split)

lemma gate_floor: "stays (same reconciliation) (advance_owner_connection_floor fl :: (database, _, _) op)"
  unfolding advance_owner_connection_floor_def
  by (auto intro!: gate.stays_basic gate_owner gate.stays_reads [OF reads_load_owner(1)]
      gate.stays_reads [OF reads_load_owner(2)] split: owner_row.split owner_identity.split)

lemma gate_upsert: "stays (same reconciliation) (upsert_business_connection b :: (database, _, _) op)"
proof (rule gateI)
  fix d :: database and x t
  assume run: "upsert_business_connection b d = Inr (x, t)"
  have retire: "reconciliation (retire_stale_connection c n d) = reconciliation d" for c n
    by (simp add: retire_stale_connection_def set_setting_def delete_connections_def Let_def)
  show "reconciliation t = reconciliation d"
  proof (cases "find_row (\<lambda>a. bc_owner_user_id a = bc_owner_user_id b
      \<and> bc_connection_id a \<noteq> bc_connection_id b) (connections d)")
    case None
    with run show ?thesis by (auto simp: upsert_business_connection_def Let_def split: if_splits)
  next
    case (Some a)
    with run retire show ?thesis by (auto simp: upsert_business_connection_def Let_def split: if_splits)
  qed
qed

interpretation gate_handler: repository_relation "same reconciliation"
proof (intro repository_relation.intro repository_relation_axioms.intro queue_relation.intro
    queue_relation_axioms.intro step_relation_same gate_upsert gate_promote)
  show "stays (same reconciliation) (get_or_create_conversation key u now :: (database, _, _) op)" for key u now
    by (rule gateI) (auto simp: get_or_create_conversation_def find_conversation_def insert_conversation_def op_success
        split: option.splits if_splits)
  show "stays (same reconciliation) (save_conversation c v :: (database, _, _) op)" for c v
    by (rule gateI) (auto simp: save_conversation_def Let_def split: option.splits if_splits)
  show "stays (same reconciliation) (record_message m :: (database, _, _) op)" for m
    by (rule gateI) (auto simp: record_message_def split: option.splits if_splits)
  show "stays (same reconciliation) (mark_message_deleted key i now :: (database, _, _) op)" for key i now
    by (rule gateI) (auto simp: mark_message_deleted_def Let_def)
  show "stays (same reconciliation) (create_challenge ch :: (database, _, _) op)" for ch
    by (rule gateI) (auto simp: create_challenge_def Let_def split: option.splits if_splits)
  show "stays (same reconciliation) (close_challenge i now :: (database, _, _) op)" for i now
    by (rule gateI) (auto simp: close_challenge_def Let_def)
  show "stays (same reconciliation) (close_active_challenge key now :: (database, _, _) op)" for key now
    by (rule gateI) (auto simp: close_active_challenge_def Let_def split: option.splits if_splits)
  show "stays (same reconciliation) (increment_challenge_attempts i :: (database, _, _) op)" for i
    by (rule gateI) (auto simp: increment_challenge_attempts_def Let_def split: option.splits if_splits)
  show "stays (same reconciliation) (enqueue_outbox_action a :: (database, _, _) op)" for a
    by (rule gateI) (auto simp: enqueue_outbox_action_def Let_def split: option.splits if_splits)
  show "stays (same reconciliation) (insert_audit_event e :: (database, _, _) op)" for e
    by (rule gateI) (auto simp: insert_audit_event_def Let_def split: option.splits if_splits)
qed

lemma gate_apply: "stays (same reconciliation) (apply_recorded_event_tx (lifecycle_apply rfc) now uid)"
proof -
  have "stays (same reconciliation) (mark_applied i n)" for i n
    by (rule gateI) (auto simp: mark_applied_def Let_def split: if_splits)
  then show ?thesis
    unfolding apply_recorded_event_tx_def
    by (auto intro!: gate.stays_basic gate_handler.stays_lifecycle split: option.split stored_event.split)
qed

lemma gate_replay: "reconciliation (snd (replay (lifecycle_apply rfc) now skip us n d)) = reconciliation d"
proof (induction us arbitrary: n d)
  case (Cons u us)
  have "reconciliation (snd (apply_recorded_event (lifecycle_apply rfc) now (pu_update_id u) d)) = reconciliation d"
    using gate.commit_stays [OF gate_apply] by (simp add: apply_recorded_event_def same_def)
  with Cons show ?case by (auto split: prod.splits sum.splits)
qed simp

lemma gate_initialize: "stays (same reconciliation) (initialize_or_load_owner_identity now :: (database, _, _) op)"
  unfolding initialize_or_load_owner_identity_def
  by (auto intro!: gate.stays_basic gate_owner gate.stays_reads [OF reads_load_owner(1)]
      gate.stays_reads [OF reads_load_owner(2)] split: owner_row.split list.split)

lemma gate_trusted:
  "stays (same reconciliation) (update_trusted cid v f)" "stays (same reconciliation) (delete_trusted cid v)"
  "stays (same reconciliation) (require_one n)" "stays (same reconciliation) (delete_connection_candidate cid)"
  "stays (same reconciliation) (modify (upsert_candidate c))"
  by (rule gateI; auto simp: update_trusted_def delete_trusted_def delete_connections_def Let_def require_one_def
      op_success delete_connection_candidate_def delete_candidates_def modify_def upsert_candidate_def
      split: if_splits)+

lemma gate_guard: "stays (same reconciliation) (advance_overflow_guard_if_active c)"
proof -
  have "stays (same reconciliation) (update_overflow_guard v)" for v
    unfolding update_overflow_guard_def
    by (intro gate.stays_and_then gate.stays_reads [OF reads_candidate_loads(1)] gateI) (auto split: if_splits)
  then show ?thesis
    unfolding advance_overflow_guard_if_active_def
    by (intro gate.stays_basic gate.stays_reads [OF reads_candidate_loads(1)])
qed

lemma gate_reads_floor: "stays (same reconciliation) (generation_floor_excluding cid :: (database, _, _) op)"
  unfolding generation_floor_excluding_def
  by (intro gate.stays_reads reads_and_then reads_basic reads_candidate_loads reads_load_owner)

lemmas gate_loads = reads_candidate_loads [THEN gate.stays_reads] repository_reads [THEN gate.stays_reads]
  reads_load_owner [THEN gate.stays_reads]

lemma gate_reconcile:
  "stays (same reconciliation) (reconcile_authoritative_trusted_connection c et ec eg :: (database, _, _) op)"
proof -
  have install: "stays (same reconciliation) (install_new_generation c r e w :: (database, _, _) op)" for r e w
    unfolding install_new_generation_def install_trusted_def by (intro gate.stays_basic gate_upsert gate_trusted)
  have same: "stays (same reconciliation) (reconcile_same_trusted b c r e :: (database, _, _) op)" for b r e
    unfolding reconcile_same_trusted_def apply_safety_intersection_def gate_conflicting_trusted_def Let_def
    by (intro gate.stays_basic gate_trusted)
  have ambiguous: "stays (same reconciliation) (retain_ambiguous_generations b c r chat :: (database, _, _) op)" for b r chat
    unfolding retain_ambiguous_generations_def by (intro gate.stays_basic gate_trusted gate_floor gate_guard)
  have "stays (same reconciliation) (reconcile_owned c r et ec i :: (database, _, _) op)" for r i
    unfolding reconcile_owned_def
    by (auto intro!: gate.stays_basic gate_loads install same ambiguous gate_reads_floor
        split: owner_identity.split option.split)
  then show ?thesis unfolding reconcile_unfold by (intro gate.stays_basic gate_loads)
qed

lemma gate_retire: "stays (same reconciliation) (retire_trusted_connection_not_found cid v :: (database, _, _) op)"
  unfolding retire_trusted_connection_not_found_def Let_def
  by (auto intro!: gate.stays_basic gate_trusted gate_loads gate_floor split: owner_identity.split)

subsection \<open>The database after a start\<close>

definition startup_world :: "database \<Rightarrow> (unit, unit) world" where
  "startup_world d = \<lparr>w_engine = new_engine () () False, w_db = d, w_calls = [], w_others = []\<rparr>"

lemma alone [simp]: "w_others w = [] \<Longrightarrow> others_write w = w"
  by (simp add: others_write_def)

lemma transact_alone:
  "w_others w = [] \<Longrightarrow> transact m w = (case commit m (w_db w) of (r, d) \<Rightarrow> (r, w\<lparr>w_db := d\<rparr>))"
  by (auto simp: transact_def transact_if_def conclude_def commit_def split: sum.split)

lemma peek_alone: "w_others w = [] \<Longrightarrow> snd (peek m w) = w"
  by (auto simp: peek_def transact_if_def conclude_def Let_def split: sum.split prod.split)

text \<open>Unless Telegram refuses the bot, the gate is not touched.\<close>

lemma trusted_gate:
  assumes "trusted_at_startup E cid d = (Inr outcome, t)" and "outcome \<noteq> AuthenticationFailed"
  shows "reconciliation t = reconciliation d"
proof -
  obtain w where run: "reconcile_trusted_current_state (st_business E) cid (st_trusted_now E) (startup_world d)
      = (Inr outcome, w)" and t: "t = w_db w"
    using assms(1) by (auto simp: trusted_at_startup_def startup_world_def split: prod.splits)
  obtain snapshot where look: "peek (stp (connection_reconciliation_snapshot_of cid)) (startup_world d)
      = (Inr snapshot, startup_world d)"
  proof -
    have "snd (peek (stp (connection_reconciliation_snapshot_of cid)) (startup_world d)) = startup_world d"
      by (rule peek_alone) (simp add: startup_world_def)
    with run that show thesis
      by (cases "peek (stp (connection_reconciliation_snapshot_of cid)) (startup_world d)"; cases "fst (peek
          (stp (connection_reconciliation_snapshot_of cid)) (startup_world d))")
        (auto simp: reconcile_trusted_current_state_def run_then_def)
  qed
  have wrote: "reconciliation (w_db (snd (transact (stp m) (startup_world d)))) = reconciliation d"
    if "stays (same reconciliation) m" for m :: "(database, storage_error, trusted_connection_write) op"
    using gate.commit_stays [OF gate.stays_map_err [OF that, of StorageFailure], of d]
    by (cases "commit (stp m) d") (simp add: transact_alone startup_world_def same_def)
  have cases: "w = startup_world d \<or> (\<exists>c et ec eg. w = snd (transact (stp
        (reconcile_authoritative_trusted_connection c et ec eg)) (startup_world d)))
      \<or> (\<exists>v. w = snd (transact (stp (retire_trusted_connection_not_found cid v)) (startup_world d)))"
    using run assms(2) look
    unfolding reconcile_trusted_current_state_def run_then_def
    by (auto simp: finish_def split: sum.splits authoritative_lookup_error.splits prod.splits if_split_asm)
      (metis snd_conv)+
  then show ?thesis
    using wrote [OF gate_reconcile] wrote [OF gate_retire] by (auto simp: t startup_world_def)
qed

lemma trusted_ok:
  assumes "db_ok d"
  shows "db_ok (snd (trusted_at_startup E cid d))"
proof -
  have "drives (keeps db_ok) (keeps db_ok) (reconcile_trusted_current_state api c now)" for api c now
    unfolding reconcile_trusted_current_state_def
    by (auto intro!: typed_engine.drives_rules typed_engine.drives_transact ok.stays_map_err
        typed_engine.stays_retire typed_engine.stays_auth_failed typed_engine.stays_reconcile
        split: authoritative_lookup_error.split)
  from drivesD [OF this, of "startup_world d" "st_business E" cid "st_trusted_now E"] assms
  show ?thesis
    by (auto simp: trusted_at_startup_def startup_world_def others_in_def keeps_def split: prod.split)
qed

lemma ok_other_tables [simp]:
  "db_ok (d\<lparr>reconciliation := x\<rparr>) = db_ok d" "db_ok (d\<lparr>owner := i\<rparr>) = db_ok d"
  by (simp_all add: ok_defs)

lemma normalize_ok: "stays (keeps db_ok) (normalize_startup_reconciliation now :: (database, _, _) op)"
proof -
  have global: "stays (keeps db_ok) (set_global p s now :: (database, _, _) op)" for p s
    by (rule stays_okI) (auto simp: set_global_def split: if_splits)
  have rows: "stays (keeps db_ok) (\<lambda>d :: database. Inr (count_where confirmed (connections d),
      d\<lparr>connections := update_where confirmed (pend_trusted now) (connections d)\<rparr>))"
    by (rule stays_okI) (auto simp: pend_trusted_def intro!: ok_update_connections)
  show ?thesis
    unfolding normalize_startup_reconciliation_def
    by (intro ok.stays_basic ok.stays_reads [OF repository_reads(8)] ok.stays_reads [OF repository_reads(12)] global rows)
qed

lemma initialize_ok: "stays (keeps db_ok) (initialize_or_load_owner_identity now :: (database, _, _) op)"
proof -
  have "stays (keeps db_ok) (set_owner_if p f :: (database, _, _) op)" for p f
    by (rule stays_okI) (auto simp: set_owner_if_def split: if_splits)
  then show ?thesis
    unfolding initialize_or_load_owner_identity_def
    by (auto intro!: ok.stays_basic ok.stays_reads [OF reads_load_owner(1)]
        ok.stays_reads [OF reads_load_owner(2)] split: owner_row.split list.split)
qed

lemma upgrade_ok:
  assumes "db_ok d" and "upgrade_active_challenge_hmacs cr v d = (r, t)"
  shows "db_ok t"
proof -
  have "stays (keeps db_ok) (upgrade_active_challenge_hmacs_tx cr v)"
    unfolding upgrade_active_challenge_hmacs_tx_def upgrade_challenge_def
    by (auto intro!: ok.stays_basic ok_replace_challenge_hmac split: sum.split
        simp: active_challenges_not_on_version_def)
  from ok.commit_stays [OF this, of d] assms show ?thesis
    by (auto simp: upgrade_active_challenge_hmacs_def keeps_def split: if_split_asm)
qed

lemma upgrade_Inr:
  assumes "db_ok d" and "upgrade_active_challenge_hmacs cr v d = (Inr k, t)"
  shows "\<forall>r \<in> set (challenges t). \<not> outdated r" and "updates t = updates d" and "reconciliation t = reconciliation d"
proof -
  have version: "av_key_version v = CURRENT_KEY_VERSION"
    using assms(2) by (auto simp: upgrade_active_challenge_hmacs_def split: if_split_asm)
  have all: "\<forall>r \<in> set (challenges d). outdated r \<longrightarrow> upgradable cr v r"
  proof (rule ccontr)
    assume "\<not> ?thesis"
    then have "\<exists>r \<in> set (sort_key ch_id (filter outdated (challenges d))). \<not> upgradable cr v r" by auto
    from upgrade_fails [OF outdated_rows(1-4) [OF assms(1)] this] assms(2) show False
      unfolding upgrade_run [OF version] by (auto simp: Let_def)
  qed
  have t: "t = d\<lparr>challenges := map (\<lambda>r. if outdated r then signed_again cr v r else r) (challenges d)\<rparr>"
    using upgrade_success [OF assms(1) version all] assms(2) by simp
  have "\<not> outdated (signed_again cr v r)" if "r \<in> set (challenges d)" "outdated r" for r
    using all that by (auto simp: upgradable_def signed_again_def outdated_def)
  then show "\<forall>r \<in> set (challenges t). \<not> outdated r" by (auto simp: t)
  show "updates t = updates d" "reconciliation t = reconciliation d" by (simp_all add: t)
qed

lemma commit_Inr_keeps: "stays (keeps P) m \<Longrightarrow> P d \<Longrightarrow> commit m d = (Inr x, t) \<Longrightarrow> P t"
  by (auto simp: commit_success keeps_def dest: staysD)

lemma trusted_start:
  assumes "reconcile_trusted_at_startup E m = (Inr pending, n)" and "db_ok (mc_db m)"
  shows "db_ok (mc_db n)" and "reconciliation (mc_db n) = reconciliation (mc_db m)"
    and "mc_keys n = mc_keys m" and "mc_fs n = mc_fs m"
proof -
  obtain trusted d where load: "commit load_single_trusted_connection (mc_db m) = (Inr trusted, d)"
    and rest: "(case trusted of None \<Rightarrow> started None
       | Some b \<Rightarrow> start_then (on_db AppProcessing (trusted_at_startup E (bc_connection_id b))) (\<lambda>outcome.
           case outcome of Converged \<Rightarrow> started None | StillPending _ \<Rightarrow> started (Some (bc_connection_id b))
           | AuthenticationFailed \<Rightarrow> start_fails StartupBusinessAuthentication)) (m\<lparr>mc_db := d\<rparr>) = (Inr pending, n)"
    using assms(1) unfolding reconcile_trusted_at_startup_def by (auto simp: start_then_Inr on_db_Inr)
  have d: "d = mc_db m" using load load_single_Inr by (auto simp: commit_success)
  have "db_ok (mc_db n) \<and> reconciliation (mc_db n) = reconciliation (mc_db m) \<and> mc_keys n = mc_keys m \<and> mc_fs n = mc_fs m"
  proof (cases trusted)
    case None
    with rest d assms(2) show ?thesis by (auto simp: started_Inr)
  next
    case (Some b)
    with rest obtain outcome t where run: "trusted_at_startup E (bc_connection_id b) d = (Inr outcome, t)"
      and last: "(case outcome of Converged \<Rightarrow> started None | StillPending _ \<Rightarrow> started (Some (bc_connection_id b))
           | AuthenticationFailed \<Rightarrow> start_fails StartupBusinessAuthentication) (m\<lparr>mc_db := t\<rparr>) = (Inr pending, n)"
      by (auto simp: start_then_Inr on_db_Inr)
    then have fin: "outcome \<noteq> AuthenticationFailed" "n = m\<lparr>mc_db := t\<rparr>"
      by (cases outcome; simp add: started_Inr start_fails_Inr)+
    from trusted_ok [of d E "bc_connection_id b"] trusted_gate [OF run fin(1)] run fin(2) d assms(2)
    show ?thesis by simp
  qed
  then show "db_ok (mc_db n)" "reconciliation (mc_db n) = reconciliation (mc_db m)" "mc_keys n = mc_keys m"
    "mc_fs n = mc_fs m" by simp_all
qed

lemma prepare_database_effect:
  assumes run: "prepare_database E m = (Inr (i, pending), n)" and ok: "db_ok (mc_db m)"
  shows "db_ok (mc_db n)" and "tr_state (reconciliation (mc_db n)) = GlobalPending"
    and "\<forall>u \<in> set (updates (mc_db n)). pu_status u = Recorded
      \<longrightarrow> is_authoritative_connection_trigger (st_rfc E) (pu_event_type u) (pu_event u)"
    and "mc_keys n = mc_keys m" and "mc_fs n = mc_fs m"
proof -
  let ?apply = "lifecycle_apply (st_rfc E)"
  obtain g d1 k d2 d3 m4 k' d5 where
    normal: "commit (normalize_startup_reconciliation (st_gate_now E)) (mc_db m) = (Inr g, d1)" and
    legacy: "recover_legacy_recorded_connection_events ?apply (st_rfc E) (st_event_now E) d1 = (Inr k, d2)" and
    init: "commit (initialize_or_load_owner_identity (st_owner_now E)) d2 = (Inr i, d3)" and
    trusted: "reconcile_trusted_at_startup E (m\<lparr>mc_db := d3\<rparr>) = (Inr pending, m4)" and
    recorded: "recover_recorded_events ?apply (st_rfc E) (st_event_now E) (mc_db m4) = (Inr k', d5)" and
    n: "n = m4\<lparr>mc_db := d5\<rparr>"
    using run unfolding prepare_database_def Let_def
    by (auto simp: start_then_Inr on_db_Inr started_Inr)
  have ok1: "db_ok d1" by (rule commit_Inr_keeps [OF normalize_ok ok normal])
  have ok2: "db_ok d2"
    using lifecycle_replay_ok [OF ok1] legacy by (metis recover_legacy_recorded_connection_events_def snd_conv)
  have ok3: "db_ok d3" by (rule commit_Inr_keeps [OF initialize_ok ok2 init])
  note t = trusted_start [OF trusted, simplified, OF ok3]
  note rec = recovery_facts [OF recorded t(1)]
  have "tr_state (reconciliation d1) = GlobalPending"
    using startup_effect(1) normal by (auto simp: commit_success)
  moreover have "reconciliation d2 = reconciliation d1"
    using gate_replay legacy by (metis recover_legacy_recorded_connection_events_def snd_conv)
  moreover have "reconciliation d3 = reconciliation d2"
    using staysD [OF gate_initialize] init by (simp add: commit_success same_def)
  moreover have "reconciliation d5 = reconciliation (mc_db m4)"
    using gate_replay recorded by (metis recover_recorded_events_def snd_conv)
  ultimately show "tr_state (reconciliation (mc_db n)) = GlobalPending" using t(2) n by simp
  show "db_ok (mc_db n)" "mc_keys n = mc_keys m" "mc_fs n = mc_fs m" using rec(3) t(3,4) n by simp_all
  show "\<forall>u \<in> set (updates (mc_db n)). pu_status u = Recorded
      \<longrightarrow> is_authoritative_connection_trigger (st_rfc E) (pu_event_type u) (pu_event u)"
    using rec(1) n by simp
qed

subsection \<open>The stages\<close>

lemma prepare_keys_effect:
  assumes "prepare_keys E manager m = (Inr (seed, keys), n)"
  shows "\<exists>known. installed (st_keys E) (mc_keys n) seed known"
    and "derive_bot_independent_keys (ke_services (st_keys E)) (sd_key_version seed) (sd_bytes seed) = Inr keys"
    and "mc_db n = mc_db m"
    and "installed (st_keys E) (mc_keys m) seed' known' \<Longrightarrow> seed = seed' \<and> mc_keys n = mc_keys m"
proof -
  obtain rows g where load: "load_or_initialize_master_seed (st_keys E) (st_fill E) (st_seed_now E) (mc_keys m) = (Inr seed, rows)"
    and keys: "derive_bot_independent_keys (ke_services (st_keys E)) (sd_key_version seed) (sd_bytes seed) = Inr keys"
    and n: "n = m\<lparr>mc_keys := rows, mc_fs := g\<rparr>"
    using assms unfolding prepare_keys_def Let_def by (auto simp: start_Inr)
  have run: "load_or_initialize_master_seed_tx (st_keys E) (st_fill E) (st_seed_now E) (mc_keys m) = Inr (seed, rows)"
    using load by (simp add: load_or_initialize_master_seed_def commit_success)
  from loaded_installed [OF this] n show "\<exists>known. installed (st_keys E) (mc_keys n) seed known" by simp
  show "derive_bot_independent_keys (ke_services (st_keys E)) (sd_key_version seed) (sd_bytes seed) = Inr keys"
    by (fact keys)
  show "mc_db n = mc_db m" by (simp add: n)
  show "seed = seed' \<and> mc_keys n = mc_keys m" if "installed (st_keys E) (mc_keys m) seed' known'"
    using installed_load [OF that, of "st_fill E" "st_seed_now E"] run n by simp
qed

lemma prepare_bot_effect:
  assumes "prepare_bot E seed m = (Inr secret, n)" and "installed (st_keys E) (mc_keys m) seed known"
  shows "\<exists>b. installed (st_keys E) (mc_keys n) seed (Some b)
      \<and> derive_webhook_secret (ke_services (st_keys E)) (sd_key_version seed) (sd_bytes seed) b = Inr secret
      \<and> map_sum id ab_id (fst (lookup_authenticated_bot (st_get_me E))) = Inr b
      \<and> (known \<noteq> None \<longrightarrow> known = Some b \<and> mc_keys n = mc_keys m)"
    and "mc_db n = mc_db m" and "mc_fs n = mc_fs m"
proof -
  obtain a :: authenticated_bot and c rows persisted rows' where
    look: "fst (lookup_authenticated_bot (st_get_me E)) = Inr a" and
    pin: "pin_or_verify_telegram_bot_id (st_keys E) (ab_id a) (mc_keys m) = Inr (c, rows)" and
    read: "load_persisted_telegram_bot_id (st_keys E) rows = Inr (persisted, rows')" and
    secret: "derive_webhook_secret (ke_services (st_keys E)) (sd_key_version seed) (sd_bytes seed) persisted = Inr secret" and
    n: "n = m\<lparr>mc_keys := rows'\<rparr>"
  proof -
    obtain a m1 c m2 persisted where look: "demand startup_lookup_error (fst (lookup_authenticated_bot (st_get_me E))) m = (Inr a, m1)"
      and pin: "on_keys (commit (pin_or_verify_telegram_bot_id (st_keys E) (ab_id a))) m1 = (Inr c, m2)"
      and rest: "start_then (on_keys (commit (load_persisted_telegram_bot_id (st_keys E)))) (\<lambda>persisted. demand AppInstallationKey
         (derive_webhook_secret (ke_services (st_keys E)) (sd_key_version seed) (sd_bytes seed) persisted)) m2 = (Inr secret, n)"
      using assms(1) unfolding prepare_bot_def start_then_Inr by blast
    from rest obtain persisted m3 where read: "on_keys (commit (load_persisted_telegram_bot_id (st_keys E))) m2 = (Inr persisted, m3)"
      and secret: "derive_webhook_secret (ke_services (st_keys E)) (sd_key_version seed) (sd_bytes seed) persisted = Inr secret" "n = m3"
      unfolding start_then_Inr demand_Inr by blast
    from look have a: "fst (lookup_authenticated_bot (st_get_me E)) = Inr a" and "m1 = m" by (simp_all add: demand_Inr)
    with pin obtain rows where 1: "pin_or_verify_telegram_bot_id (st_keys E) (ab_id a) (mc_keys m) = Inr (c, rows)"
      and m2: "m2 = m\<lparr>mc_keys := rows\<rparr>"
      by (auto simp: on_keys_Inr commit_success)
    from read obtain rows' where 2: "load_persisted_telegram_bot_id (st_keys E) rows = Inr (persisted, rows')"
      and m3: "m3 = m\<lparr>mc_keys := rows'\<rparr>"
      by (auto simp: on_keys_Inr commit_success m2)
    show thesis by (rule that [OF a 1 2 secret(1)]) (simp add: secret m3)
  qed
  show "mc_db n = mc_db m" "mc_fs n = mc_fs m" by (simp_all add: n)
  have positive: "0 < ab_id a"
    using pin by (auto simp: pin_or_verify_telegram_bot_id_def fail_def split: if_split_asm)
  have pinned: "installed (st_keys E) rows seed (Some (ab_id a)) \<and> (known \<noteq> None \<longrightarrow> known = Some (ab_id a) \<and> rows = mc_keys m)"
  proof (cases known)
    case None
    with pin_first [OF assms(2) [unfolded None] positive] pin show ?thesis by auto
  next
    case (Some b)
    with pinned_again(2) [OF assms(2) [unfolded Some] positive] pin assms(2) show ?thesis
      by (auto split: if_split_asm)
  qed
  with pinned_again(1) read have "persisted = ab_id a" "rows' = rows" by auto
  with pinned secret n look show "\<exists>b. installed (st_keys E) (mc_keys n) seed (Some b)
      \<and> derive_webhook_secret (ke_services (st_keys E)) (sd_key_version seed) (sd_bytes seed) b = Inr secret
      \<and> map_sum id ab_id (fst (lookup_authenticated_bot (st_get_me E))) = Inr b
      \<and> (known \<noteq> None \<longrightarrow> known = Some b \<and> mc_keys n = mc_keys m)"
    by auto
qed

lemma finish_preparation_effect:
  assumes "finish_preparation E s manager keys secret i pending m = (Inr p, n)"
  shows "\<exists>k d. upgrade_active_challenge_hmacs (st_crypto E) (pr_verifier p) (mc_db m) = (Inr k, d) \<and> mc_db n = d"
    and "\<exists>g. reconcile_claim_file (hex_text (ke_services (st_keys E))) manager (st_os_later E) i
      (ik_owner_claim_token keys) (mc_fs m) = (Inr (), g) \<and> mc_fs n = g"
    and "mc_keys n = mc_keys m" and "pr_webhook_secret p = secret"
    and "av_key (pr_verifier p) = ik_challenge_hmac_key keys"
    and "av_key_version (pr_verifier p) = ik_key_version keys"
    and "pr_owner_identity p = i" and "pr_claim_file_manager p = manager"
    and "pr_owner_claim_token p = (case i of Unclaimed \<Rightarrow> Some (ik_owner_claim_token keys) | Claimed _ _ _ _ _ \<Rightarrow> None)"
  using assms unfolding finish_preparation_def Let_def by (auto simp: start_Inr)

lemma prepare_runtime_steps:
  assumes "prepare_runtime E s m = (Inr p, n)"
  obtains manager seed keys secret i pending m1 m2 m3 where
    "from_database_descriptor (st_directory E) (st_euid E) (st_egid E) = Inr manager"
    and "prepare_keys E manager m = (Inr (seed, keys), m1)" and "prepare_bot E seed m1 = (Inr secret, m2)"
    and "prepare_database E m2 = (Inr (i, pending), m3)"
    and "finish_preparation E s manager keys secret i pending m3 = (Inr p, n)"
  using assms unfolding prepare_runtime_def by (auto simp: start_then_Inr demand_Inr)

subsection \<open>The properties\<close>

lemma trusted_keeps_keys:
  "reconcile_trusted_at_startup E m = (Inr pending, n) \<Longrightarrow> mc_keys n = mc_keys m"
  unfolding reconcile_trusted_at_startup_def
  by (auto simp: start_Inr split: option.splits trusted_startup_reconciliation.splits)
    (metis trusted_startup_reconciliation.exhaust)

lemma database_keeps_keys: "prepare_database E m = (Inr r, n) \<Longrightarrow> mc_keys n = mc_keys m"
  unfolding prepare_database_def Let_def
  by (auto simp: start_Inr dest!: trusted_keeps_keys)

lemma reconciled_command:
  "reconcile_claim_file hex M os i token F = (Inr (), G) \<Longrightarrow> \<exists>expected. expected_command hex token = Inr expected"
  by (auto simp: reconcile_claim_file_def retire_after_claim_def reconcile_unclaimed_def with_command_def refuse_def
      split: owner_identity.splits sum.splits)

lemma reconciled_settled:
  assumes "reconcile_claim_file hex M os i token F = (Inr (), G)" and "publishable M os"
  shows "\<exists>expected. expected_command hex token = Inr expected \<and> settled M expected i G"
proof -
  obtain expected where command: "expected_command hex token = Inr expected"
    using reconciled_command [OF assms(1)] by blast
  have "sound_directory M expected F"
  proof (rule ccontr)
    assume "\<not> ?thesis"
    from halts_reconcile [where M = M and os = os and owner_state = i, OF this command, unfolded halts_def,
        rule_format, OF refl] assms(1) show False by auto
  qed
  then have "safe_from M expected F F" by (simp add: safe_from_def)
  from one_run(2) [OF this assms(2) command assms(1)] command show ?thesis by blast
qed

text \<open>C9: What holds when a start has succeeded, whatever the earlier runs left. The tables are well formed;
  no connection is trusted until it has been looked up again; every recorded event is applied,
  except those that only ask for such a lookup; no challenge is signed with an old key; and the
  claim-code file is there exactly when nobody has claimed the bot, and then it holds the command
  with the token of this installation.\<close>

theorem startup_postcondition:
  assumes "prepare_runtime E s m = (Inr p, n)" and "db_ok (mc_db m)"
    and "publishable (pr_claim_file_manager p) (st_os_later E)"
  shows "db_ok (mc_db n) \<and> find_business_connection cid (mc_db n) = Inr (None, mc_db n)
    \<and> (\<forall>u \<in> set (updates (mc_db n)). pu_status u = Recorded
          \<longrightarrow> is_authoritative_connection_trigger (st_rfc E) (pu_event_type u) (pu_event u))
    \<and> (\<forall>r \<in> set (challenges (mc_db n)). \<not> outdated r)
    \<and> (case pr_owner_identity p of
         Unclaimed \<Rightarrow> \<exists>token expected. pr_owner_claim_token p = Some token
           \<and> expected_command (hex_text (ke_services (st_keys E))) token = Inr expected
           \<and> published (pr_claim_file_manager p) expected (mc_fs n)
       | Claimed _ _ _ _ _ \<Rightarrow> pr_owner_claim_token p = None \<and> fs_names (mc_fs n) TARGET_NAME = None
           \<and> fs_names (mc_fs n) TEMP_NAME = None)"
proof -
  obtain manager seed keys secret i pending m1 m2 m3 where
    keys: "prepare_keys E manager m = (Inr (seed, keys), m1)" and bot: "prepare_bot E seed m1 = (Inr secret, m2)" and
    db: "prepare_database E m2 = (Inr (i, pending), m3)" and
    fin: "finish_preparation E s manager keys secret i pending m3 = (Inr p, n)"
    using assms(1) by (rule prepare_runtime_steps)
  obtain known where "installed (st_keys E) (mc_keys m1) seed known" using prepare_keys_effect(1) [OF keys] by blast
  with prepare_keys_effect(3) [OF keys] prepare_bot_effect(2) [OF bot] assms(2) have ok: "db_ok (mc_db m2)" by simp
  note e = prepare_database_effect [OF db ok] and f = finish_preparation_effect [OF fin]
  obtain k where up: "upgrade_active_challenge_hmacs (st_crypto E) (pr_verifier p) (mc_db m3) = (Inr k, mc_db n)"
    using f(1) by blast
  note u = upgrade_ok [OF e(1) up] upgrade_Inr [OF e(1) up]
  have "find_business_connection cid (mc_db n) = Inr (None, mc_db n)"
    using gate_closed_hides(1) [of "mc_db n"] u(4) e(2) by simp
  moreover obtain expected where "expected_command (hex_text (ke_services (st_keys E))) (ik_owner_claim_token keys) = Inr expected"
    and "settled manager expected i (mc_fs n)"
    using f(2,8) reconciled_settled assms(3) by metis
  ultimately show ?thesis using u(1-3) e(3) f(7-9) by (auto simp: settled_def split: owner_identity.splits)
qed

text \<open>C16: A restart changes no secret. Over the key table that a successful start left, a later start that
  succeeds has the same webhook secret, the same key and key version for challenges and, while
  nobody has claimed the bot, the same claim token, whatever its clock, its entropy, its settings
  and its database are; it runs for the same bot, and it leaves the table as it is.\<close>

theorem startup_keeps_identity:
  assumes "prepare_runtime E s m = (Inr p, n)" and "prepare_runtime E' s' m' = (Inr p', n')"
    and "st_keys E' = st_keys E" and "mc_keys m' = mc_keys n"
  shows "pr_webhook_secret p' = pr_webhook_secret p
    \<and> av_key (pr_verifier p') = av_key (pr_verifier p) \<and> av_key_version (pr_verifier p') = av_key_version (pr_verifier p)
    \<and> (pr_owner_claim_token p \<noteq> None \<and> pr_owner_claim_token p' \<noteq> None
        \<longrightarrow> pr_owner_claim_token p' = pr_owner_claim_token p)
    \<and> map_sum id ab_id (fst (lookup_authenticated_bot (st_get_me E')))
      = map_sum id ab_id (fst (lookup_authenticated_bot (st_get_me E)))
    \<and> mc_keys n' = mc_keys n"
proof -
  obtain manager seed keys secret i pending m1 m2 m3 where
    keys: "prepare_keys E manager m = (Inr (seed, keys), m1)" and bot: "prepare_bot E seed m1 = (Inr secret, m2)" and
    db: "prepare_database E m2 = (Inr (i, pending), m3)" and
    fin: "finish_preparation E s manager keys secret i pending m3 = (Inr p, n)"
    using assms(1) by (rule prepare_runtime_steps)
  obtain manager' seed' keys' secret' i' pending' m1' m2' m3' where
    keys': "prepare_keys E' manager' m' = (Inr (seed', keys'), m1')" and
    bot': "prepare_bot E' seed' m1' = (Inr secret', m2')" and
    db': "prepare_database E' m2' = (Inr (i', pending'), m3')" and
    fin': "finish_preparation E' s' manager' keys' secret' i' pending' m3' = (Inr p', n')"
    using assms(2) by (rule prepare_runtime_steps)
  obtain known where "installed (st_keys E) (mc_keys m1) seed known" using prepare_keys_effect(1) [OF keys] by blast
  from prepare_bot_effect(1) [OF bot this] obtain b where
    b: "installed (st_keys E) (mc_keys m2) seed (Some b)"
      "derive_webhook_secret (ke_services (st_keys E)) (sd_key_version seed) (sd_bytes seed) b = Inr secret"
      "map_sum id ab_id (fst (lookup_authenticated_bot (st_get_me E))) = Inr b" by blast
  have kept: "mc_keys n = mc_keys m2" "mc_keys n' = mc_keys m2'"
    using finish_preparation_effect(3) fin fin' database_keeps_keys db db' by metis+
  have again: "installed (st_keys E') (mc_keys m') seed (Some b)" using b(1) kept(1) assms(3,4) by simp
  note k' = prepare_keys_effect(4) [OF keys' again]
  then have "installed (st_keys E') (mc_keys m1') seed' (Some b)" using again by simp
  from prepare_bot_effect(1) [OF bot' this] k' have
    b': "derive_webhook_secret (ke_services (st_keys E')) (sd_key_version seed) (sd_bytes seed) b = Inr secret'"
      "map_sum id ab_id (fst (lookup_authenticated_bot (st_get_me E'))) = Inr b" "mc_keys m2' = mc_keys m'" by auto
  have "keys' = keys"
    using prepare_keys_effect(2) [OF keys] prepare_keys_effect(2) [OF keys'] k' assms(3) by simp
  moreover have "secret' = secret" using b(2) b'(1) assms(3) by simp
  ultimately show ?thesis
    using finish_preparation_effect(4-6,9) [OF fin] finish_preparation_effect(4-6,9) [OF fin'] b(3) b'(2,3) kept assms(4)
    by (auto split: owner_identity.splits)
qed

subsection \<open>Witnesses\<close>

definition fresh_db :: database where
  "fresh_db = sample_db\<lparr>connections := [], conversations := [], challenges := [], challenge_seq := 0, updates := [],
     owner := OwnerPending\<rparr>"

definition start_keys :: key_env where
  "start_keys = sample_keys\<lparr>ke_services := (ke_services sample_keys)\<lparr>hex_text := sample_hex\<rparr>\<rparr>"

definition start_paths :: path_env where
  "start_paths = \<lparr>pe_current_dir = Some \<lparr>pa_absolute = True, pa_names = [lit ''srv'']\<rparr>, pe_is_dir = (\<lambda>_. Some True),
     pe_accessible = (\<lambda>_. True), pe_lstat = (\<lambda>_. LstatNotFound),
     pe_parse_url = (\<lambda>_. Some \<lparr>pa_absolute = False, pa_names = [lit ''x.db'']\<rparr>), pe_parse_query = (\<lambda>_. [])\<rparr>"

definition start_env :: "unit startup_env" where
  "start_env = \<lparr>st_path = start_paths, st_connect_path = start_paths, st_open = Inr (), st_keys = start_keys,
     st_fill = (\<lambda>n. Some (replicate n 5)), st_crypto = sample_crypto, st_detector = Inr sample_detector,
     st_rng = (), st_get_me = (\<lambda>_. Inr \<lparr>ab_id = 42\<rparr>), st_business = (\<lambda>_ _. Inl TgTimeout),
     st_rfc = (\<lambda>_. []), st_seed_now = 3, st_gate_now = 3, st_event_now = (\<lambda>_. 3), st_owner_now = 3,
     st_trusted_now = 3, st_directory = Some (fs_directory sample_fs), st_euid = 1000, st_egid = 1000,
     st_os = failing_at {}, st_os_later = failing_at {}\<rparr>"

definition start_settings :: app_settings where
  "start_settings = \<lparr>as_bot_token = lit ''t'', as_public_webhook_url = \<lparr>ur_scheme = lit ''https'',
     ur_host = Some (lit ''h''), ur_username = [], ur_password = None, ur_fragment = None,
     ur_port_or_known_default = Some 443, ur_text = []\<rparr>, as_database_url = lit ''x'', as_destructive_mode = False\<rparr>"

definition start_machine :: "key_row list \<Rightarrow> machine" where
  "start_machine rows = \<lparr>mc_keys = rows, mc_db = fresh_db, mc_fs = sample_fs\<rparr>"

lemma fresh_ok: "db_ok fresh_db"
  using sample_ok by (auto simp: fresh_db_def ok_defs sample_db_def)

lemma start_claim_manager: "from_database_descriptor (st_directory start_env) (st_euid start_env) (st_egid start_env) = Inr sample_manager"
  by (simp add: start_env_def from_database_descriptor_def sample_manager_def sample_fs_def)

lemma start_database_file:
  "\<exists>d. parse_descriptor (st_path start_env) (as_database_url start_settings) \<lparr>pa_absolute = False, pa_names = [lit ''.'']\<rparr> = Inr d
    \<and> connect_preflight (st_connect_path start_env) d = Inr ()"
  by (simp add: start_env_def start_paths_def start_settings_def parse_descriptor_def reject_memory_url_def trim_def
      trim_start_def trim_end_def is_whitespace_def lit_simps MEMORY_URLS_def ascii_lower_def working_directory_def
      path_join_def path_file_name_def accept_database_path_def path_parent_def no_follow_exists_def
      sibling_claim_artifact_exists_def connect_preflight_def)

lemma start_first_look:
  "\<exists>k. validate_existing_before_reconciliation sample_hex sample_manager (failing_at {}) (replicate 32 7) sample_fs
    = (Inr (), sample_fs\<lparr>fs_calls := k\<rparr>)"
  by (simp add: validate_existing_before_reconciliation_def with_command_def expected_command_def sample_hex_def
      inspect_pair_def open_directory_def inspect_entry_def openat_read_def fbind_def attempt_def pass_def failing_at_def
      sample_fs_def sample_manager_def validate_pair_def)

definition pending_gate :: telegram_reconciliation_state where
  "pending_gate = \<lparr>tr_state = GlobalPending, tr_state_revision = 1, tr_updated_at = 3\<rparr>"

lemma fresh_normalized:
  "commit (normalize_startup_reconciliation 3) fresh_db = (Inr pending_gate, fresh_db\<lparr>reconciliation := pending_gate\<rparr>)"
  by (simp add: commit_def normalize_startup_reconciliation_def op_defs load_telegram_reconciliation_state_def
      load_single_trusted_connection_def single_row_def set_global_def fresh_db_def sample_db_def pending_gate_def
      count_where_def update_where_def)

lemma fresh_initialized:
  "commit (initialize_or_load_owner_identity 3) (fresh_db\<lparr>reconciliation := g\<rparr>)
   = (Inr Unclaimed, fresh_db\<lparr>reconciliation := g, owner := OwnerReady Unclaimed\<rparr>)"
  by (simp add: commit_def initialize_or_load_owner_identity_def op_defs load_owner_lifecycle_state_def
      load_owner_identity_def set_owner_if_def fresh_db_def sample_db_def)

lemma fresh_nothing_trusted:
  "reconcile_trusted_at_startup E (m\<lparr>mc_db := fresh_db\<lparr>reconciliation := g, owner := i\<rparr>\<rparr>)
   = (Inr None, m\<lparr>mc_db := fresh_db\<lparr>reconciliation := g, owner := i\<rparr>\<rparr>)"
  by (simp add: reconcile_trusted_at_startup_def start_then_def on_db_def commit_def load_single_trusted_connection_def
      op_defs single_row_def fresh_db_def sample_db_def started_def)

lemma fresh_nothing_recorded:
  "recover_legacy_recorded_connection_events f rfc now (fresh_db\<lparr>reconciliation := g\<rparr>)
     = (Inr 0, fresh_db\<lparr>reconciliation := g\<rparr>)"
  "recover_recorded_events f rfc now (fresh_db\<lparr>reconciliation := g, owner := i\<rparr>)
     = (Inr 0, fresh_db\<lparr>reconciliation := g, owner := i\<rparr>)"
  by (simp_all add: recover_legacy_recorded_connection_events_def recover_recorded_events_def recorded_rows_def
      fresh_db_def sample_db_def)

lemma start_prepare_database:
  assumes "mc_db m = fresh_db"
  shows "prepare_database start_env m
    = (Inr (Unclaimed, None), m\<lparr>mc_db := fresh_db\<lparr>reconciliation := pending_gate, owner := OwnerReady Unclaimed\<rparr>\<rparr>)"
  by (simp add: prepare_database_def start_env_def Let_def start_then_def on_db_def started_def assms
      fresh_normalized fresh_nothing_recorded fresh_initialized fresh_nothing_trusted)

lemma start_prepare_keys:
  assumes "load_or_initialize_master_seed start_keys (\<lambda>n. Some (replicate n 5)) 3 rows = (Inr seed, rows')"
    and "sd_key_version seed = 1" and "length (sd_bytes seed) = 32"
  shows "\<exists>k keys. prepare_keys start_env sample_manager (start_machine rows)
      = (Inr (seed, keys), (start_machine rows')\<lparr>mc_fs := sample_fs\<lparr>fs_calls := k\<rparr>\<rparr>)
    \<and> ik_owner_claim_token keys = replicate 32 7 \<and> ik_key_version keys = 1"
proof -
  obtain k where look: "validate_existing_before_reconciliation sample_hex sample_manager (failing_at {}) (replicate 32 7) sample_fs
    = (Inr (), sample_fs\<lparr>fs_calls := k\<rparr>)" using start_first_look by blast
  have keys: "derive_bot_independent_keys (ke_services start_keys) (sd_key_version seed) (sd_bytes seed)
      = Inr \<lparr>ik_key_version = 1, ik_challenge_hmac_key = replicate 32 7, ik_owner_claim_token = replicate 32 7\<rparr>"
    using assms(2,3) by (simp add: derive_bot_independent_keys_def start_keys_def sample_keys_def
        validate_version_and_seed_def validate_version_def CURRENT_KEY_VERSION_def MASTER_SEED_LEN_def DERIVED_KEY_LEN_def)
  have "st_keys start_env = start_keys" "st_fill start_env = (\<lambda>n. Some (replicate n 5))" "st_seed_now start_env = 3"
    "st_os start_env = failing_at {}" "hex_text (ke_services start_keys) = sample_hex"
    by (simp_all add: start_env_def start_keys_def)
  with keys look assms(1) show ?thesis
    by (simp add: prepare_keys_def Let_def start_then_def on_keys_def demand_def started_def on_files_def start_machine_def) blast
qed

lemma start_prepare_bot:
  assumes "installed start_keys (mc_keys m) seed known" and "known \<in> {None, Some 42}" and "sd_key_version seed = 1"
    and "length (sd_bytes seed) = 32"
  shows "\<exists>secret rows. prepare_bot start_env seed m = (Inr secret, m\<lparr>mc_keys := rows\<rparr>)"
proof -
  obtain rows where pin: "pin_or_verify_telegram_bot_id start_keys 42 (mc_keys m) = Inr (42, rows)"
    and pinned: "installed start_keys rows seed (Some 42)"
    using assms(1,2) pin_first [of start_keys "mc_keys m" seed 42]
      pinned_again(2) [of start_keys "mc_keys m" seed 42 42] by auto
  have bot: "lookup_authenticated_bot (st_get_me start_env) = (Inr \<lparr>ab_id = 42\<rparr>, [])"
    by (simp add: lookup_authenticated_bot_def lookup_attempts.simps start_env_def)
  have secret: "\<exists>secret. derive_webhook_secret (ke_services start_keys) (sd_key_version seed) (sd_bytes seed) 42 = Inr secret"
    using assms(3,4) by (simp add: derive_webhook_secret_def start_keys_def sample_keys_def
        validate_version_and_seed_def validate_version_def CURRENT_KEY_VERSION_def MASTER_SEED_LEN_def)
  have "st_keys start_env = start_keys" by (simp add: start_env_def)
  with pin pinned_again(1) [OF pinned] bot secret show ?thesis
    by (auto simp: prepare_bot_def start_then_def demand_def on_keys_def commit_def started_def)
qed

lemma fault_free_failing: "fault_free (failing_at {})"
  by (simp add: fault_free_def failing_at_def)

lemma start_finish:
  assumes "mc_db m = fresh_db\<lparr>reconciliation := g, owner := i'\<rparr>" and "mc_fs m = sample_fs\<lparr>fs_calls := k\<rparr>"
    and "ik_owner_claim_token keys = replicate 32 7" and "ik_key_version keys = 1"
  shows "\<exists>p n. finish_preparation start_env s sample_manager keys secret Unclaimed None m = (Inr p, n)"
proof -
  let ?command = "as_bytes (lit ''/claim '') @ replicate 64 48 @ [10]"
  have command: "expected_command sample_hex (replicate 32 7) = Inr ?command"
    by (simp add: expected_command_def sample_hex_def)
  have "sound_directory sample_manager ?command (sample_fs\<lparr>fs_calls := k\<rparr>)"
    by (rule sound_none) (simp_all add: sample_fs_def sample_manager_def directory_kept_def)
  then have "safe_from sample_manager ?command (sample_fs\<lparr>fs_calls := k\<rparr>) (sample_fs\<lparr>fs_calls := k\<rparr>)"
    by (simp add: safe_from_def)
  from one_run(3) [OF this sample_publishable command surjective_pairing] obtain f where
    files: "reconcile_claim_file sample_hex sample_manager (failing_at {}) Unclaimed (replicate 32 7) (mc_fs m) = (Inr (), f)"
    using assms(2) by (metis fault_free_failing prod.collapse)
  have upgrade: "upgrade_active_challenge_hmacs cr v (mc_db m) = (Inr 0, mc_db m)"
    if "av_key_version v = CURRENT_KEY_VERSION" for cr and v :: "unit arithmetic_verifier"
    unfolding upgrade_run [OF that] assms(1) by (simp add: fresh_db_def ret_def)
  have "st_keys start_env = start_keys" "st_os_later start_env = failing_at {}" "st_detector start_env = Inr sample_detector"
    "hex_text (ke_services start_keys) = sample_hex"
    by (simp_all add: start_env_def start_keys_def)
  with files assms(3,4) show ?thesis
    by (simp add: finish_preparation_def Let_def start_then_def on_db_def upgrade CURRENT_KEY_VERSION_def demand_def
        started_def on_files_def)
qed

lemma start_succeeds:
  assumes "load_or_initialize_master_seed start_keys (\<lambda>n. Some (replicate n 5)) 3 rows = (Inr seed, rows')"
    and "installed start_keys rows' seed known" and "known \<in> {None, Some 42}"
    and "sd_key_version seed = 1" and "length (sd_bytes seed) = 32"
  shows "\<exists>p n. prepare_runtime start_env start_settings (start_machine rows) = (Inr p, n)"
proof -
  from start_prepare_keys [OF assms(1,4,5)] obtain k keys where
    keys: "prepare_keys start_env sample_manager (start_machine rows)
      = (Inr (seed, keys), (start_machine rows')\<lparr>mc_fs := sample_fs\<lparr>fs_calls := k\<rparr>\<rparr>)"
    "ik_owner_claim_token keys = replicate 32 7" "ik_key_version keys = 1" by blast
  let ?m = "(start_machine rows')\<lparr>mc_fs := sample_fs\<lparr>fs_calls := k\<rparr>\<rparr>"
  have "installed start_keys (mc_keys ?m) seed known" using assms(2) by (simp add: start_machine_def)
  from start_prepare_bot [OF this assms(3-5)] obtain secret rows'' where
    bot: "prepare_bot start_env seed ?m = (Inr secret, ?m\<lparr>mc_keys := rows''\<rparr>)" by blast
  have "mc_db (?m\<lparr>mc_keys := rows''\<rparr>) = fresh_db" by (simp add: start_machine_def)
  note db = start_prepare_database [OF this]
  let ?n = "?m\<lparr>mc_keys := rows'', mc_db := fresh_db\<lparr>reconciliation := pending_gate, owner := OwnerReady Unclaimed\<rparr>\<rparr>"
  obtain p n where fin: "finish_preparation start_env start_settings sample_manager keys secret Unclaimed None ?n = (Inr p, n)"
    using start_finish [where m = ?n and g = pending_gate and i' = "OwnerReady Unclaimed" and k = k
        and s = start_settings and secret = secret, OF _ _ keys(2,3)] by auto
  have "st_open start_env = Inr ()" by (simp add: start_env_def)
  with start_database_file start_claim_manager keys(1) bot db fin show ?thesis
    by (auto simp: prepare_runtime_def start_then_def demand_def started_def)
qed

definition start_row :: key_row where
  "start_row = ready_row start_keys (replicate 32 5) 3"

lemma start_first_load:
  "load_or_initialize_master_seed start_keys (\<lambda>n. Some (replicate n 5)) 3 [migrated_row]
    = (Inr \<lparr>sd_key_version = 1, sd_bytes = replicate 32 5\<rparr>, [start_row])"
  unfolding load_or_initialize_master_seed_def commit_success start_row_def
  by (rule first_load [where at = 0]) (simp_all add: start_keys_def sample_keys_def)

lemma start_row_installed: "installed start_keys [start_row] \<lparr>sd_key_version = 1, sd_bytes = replicate 32 5\<rparr> None"
proof -
  have "load_or_initialize_master_seed_tx start_keys (\<lambda>n. Some (replicate n 5)) 3 [migrated_row]
    = Inr (\<lparr>sd_key_version = 1, sd_bytes = replicate 32 5\<rparr>, [start_row])"
    using start_first_load by (simp add: load_or_initialize_master_seed_def commit_success)
  from loaded_installed [OF this] obtain known where
    known: "installed start_keys [start_row] \<lparr>sd_key_version = 1, sd_bytes = replicate 32 5\<rparr> known" by blast
  obtain md where md: "metadata_of [start_row] = Inr md" and none: "ready_bot_id md = Inr None"
    using ready_metadata [of start_keys "replicate 32 5" 3] unfolding start_row_def by (simp add: ready_bot_id_def)
  from known md none have "known = None" unfolding installed_def using validated_ready(2) by fastforce
  with known show ?thesis by simp
qed

lemma first_start: "\<exists>p n. prepare_runtime start_env start_settings (start_machine [migrated_row]) = (Inr p, n)"
  by (rule start_succeeds [OF start_first_load start_row_installed]) simp_all

theorem startup_postcondition_witness:
  "\<exists>p n. prepare_runtime start_env start_settings (start_machine [migrated_row]) = (Inr p, n)
    \<and> find_business_connection ''bc'' (mc_db n) = Inr (None, mc_db n)"
proof -
  obtain p n where run: "prepare_runtime start_env start_settings (start_machine [migrated_row]) = (Inr p, n)"
    using first_start by blast
  obtain manager where "from_database_descriptor (st_directory start_env) (st_euid start_env) (st_egid start_env) = Inr manager"
    and "pr_claim_file_manager p = manager"
    using prepare_runtime_steps [OF run] finish_preparation_effect(8) by metis
  then have "pr_claim_file_manager p = sample_manager" using start_claim_manager by simp
  then have "publishable (pr_claim_file_manager p) (st_os_later start_env)"
    by (simp add: start_env_def sample_publishable)
  moreover have "db_ok (mc_db (start_machine [migrated_row]))" by (simp add: start_machine_def fresh_ok)
  ultimately show ?thesis using run startup_postcondition [OF run] by blast
qed

lemma second_start:
  assumes "prepare_runtime start_env start_settings (start_machine [migrated_row]) = (Inr p, n)"
  shows "\<exists>p' n'. prepare_runtime start_env start_settings (start_machine (mc_keys n)) = (Inr p', n')"
proof -
  obtain manager seed keys secret i pending m1 m2 m3 where
    keys: "prepare_keys start_env manager (start_machine [migrated_row]) = (Inr (seed, keys), m1)" and
    bot: "prepare_bot start_env seed m1 = (Inr secret, m2)" and
    db: "prepare_database start_env m2 = (Inr (i, pending), m3)" and
    fin: "finish_preparation start_env start_settings manager keys secret i pending m3 = (Inr p, n)"
    using assms by (rule prepare_runtime_steps)
  have st: "st_keys start_env = start_keys" "st_fill start_env = (\<lambda>n. Some (replicate n 5))" "st_seed_now start_env = 3"
    by (simp_all add: start_env_def)
  have seed: "seed = \<lparr>sd_key_version = 1, sd_bytes = replicate 32 5\<rparr>"
    using keys start_first_load unfolding prepare_keys_def Let_def by (auto simp: start_Inr st start_machine_def)
  obtain known where "installed start_keys (mc_keys m1) seed known" using prepare_keys_effect(1) [OF keys] st by auto
  from prepare_bot_effect(1) [OF bot, unfolded st, OF this] obtain b where
    b: "installed start_keys (mc_keys m2) seed (Some b)"
      "map_sum id ab_id (fst (lookup_authenticated_bot (st_get_me start_env))) = Inr b" by blast
  have "b = 42" using b(2) by (simp add: lookup_authenticated_bot_def lookup_attempts.simps start_env_def)
  moreover have "mc_keys n = mc_keys m2"
    using finish_preparation_effect(3) [OF fin] database_keeps_keys [OF db] by simp
  ultimately have inst: "installed start_keys (mc_keys n) seed (Some 42)" using b(1) by simp
  have "load_or_initialize_master_seed start_keys (\<lambda>n. Some (replicate n 5)) 3 (mc_keys n) = (Inr seed, mc_keys n)"
    using installed_load [OF inst] by (simp add: load_or_initialize_master_seed_def commit_success)
  from start_succeeds [OF this inst] seed show ?thesis by simp
qed

theorem startup_keeps_identity_witness:
  "\<exists>p n p' n'. prepare_runtime start_env start_settings (start_machine [migrated_row]) = (Inr p, n)
    \<and> prepare_runtime start_env start_settings (start_machine (mc_keys n)) = (Inr p', n')
    \<and> pr_webhook_secret p' = pr_webhook_secret p \<and> mc_keys n' = mc_keys n"
proof -
  obtain p n where first: "prepare_runtime start_env start_settings (start_machine [migrated_row]) = (Inr p, n)"
    using first_start by blast
  obtain p' n' where second: "prepare_runtime start_env start_settings (start_machine (mc_keys n)) = (Inr p', n')"
    using second_start [OF first] by blast
  have "mc_keys (start_machine (mc_keys n)) = mc_keys n" by (simp add: start_machine_def)
  from startup_keeps_identity [OF first second refl this] first second show ?thesis by blast
qed

end
