(* ===== verification/Contact_Notifier.thy ===== *)
theory Contact_Notifier
  imports Engine_World Outbox_Dispatcher
begin

section \<open>Notices of new contacts\<close>

text \<open>
  Models \<open>src/telegram/contact_notifier.rs\<close> and \<open>src/processing/notifications.rs\<close>: a bounded
  queue that never makes the engine wait, and the task that empties it. The task looks for a request
  to stop before it takes the next notice, and what is queued when it stops is lost; the group of
  workers aborts it when it does not stop in time, also in the middle of a call.
\<close>

subsection \<open>The text\<close>

definition no_username_text :: ustring where
  "no_username_text = [0x672A, 0x8BBE, 0x7F6E, 0x7528, 0x6237, 0x540D]"

definition new_contact_text :: "new_contact_notice \<Rightarrow> ustring" where
  "new_contact_text n =
     (let contact = (case nn_username n of None \<Rightarrow> no_username_text | Some u \<Rightarrow> 64 # u);
          chat = show_int (nn_contact_chat_id n)
      in [0x65B0, 0x8054, 0x7CFB, 0x4EBA, 0xFF1A] @ contact @ [10]
         @ [0x7528, 0x6237] @ lit '' ID'' @ [0xFF1A] @ chat @ [10]
         @ [0x72B6, 0x6001, 0xFF1A, 0x7B49, 0x5F85, 0x9A8C, 0x8BC1, 10, 10]
         @ lit ''/inspect '' @ chat @ [10] @ lit ''/reset '' @ chat @ [10] @ lit ''/unblock '' @ chat)"

definition new_contact_action :: "new_contact_notice \<Rightarrow> api_call" where
  "new_contact_action n = SendMessageCall None (nn_owner_chat_id n) (new_contact_text n)"

subsection \<open>The queue\<close>

datatype new_contact_notify_error = QueueFull | WorkerStopped

record notifier =
  nt_queue :: "new_contact_notice list"
  nt_capacity :: nat
  nt_stop :: bool
  nt_sending :: bool
  nt_ended :: bool
  nt_calls :: "api_call list"

definition spawn_new_contact_notifier :: "nat \<Rightarrow> notifier" where
  "spawn_new_contact_notifier capacity =
     \<lparr>nt_queue = [], nt_capacity = max capacity 1, nt_stop = False, nt_sending = False, nt_ended = False,
      nt_calls = []\<rparr>"

definition try_notify :: "new_contact_notice \<Rightarrow> notifier \<Rightarrow> (new_contact_notify_error + unit) \<times> notifier" where
  "try_notify n t =
     (if nt_ended t then (Inl WorkerStopped, t)
      else if nt_capacity t \<le> length (nt_queue t) then (Inl QueueFull, t)
      else (Inr (), t\<lparr>nt_queue := nt_queue t @ [n]\<rparr>))"

text \<open>What can happen next: a notice is offered, the stop is requested, the task moves or is aborted.\<close>

inductive notifier_step :: "notifier \<Rightarrow> new_contact_notice list \<Rightarrow> notifier \<Rightarrow> bool" where
  offer_accepted: "try_notify n t = (Inr (), t') \<Longrightarrow> notifier_step t [n] t'"
| offer_refused: "try_notify n t = (Inl e, t') \<Longrightarrow> notifier_step t [] t'"
| signal_stop: "notifier_step t [] (t\<lparr>nt_stop := True\<rparr>)"
| leave: "\<not> nt_sending t \<Longrightarrow> \<not> nt_ended t \<Longrightarrow> nt_stop t \<Longrightarrow> notifier_step t [] (t\<lparr>nt_ended := True, nt_queue := []\<rparr>)"
| take_notice: "\<not> nt_sending t \<Longrightarrow> \<not> nt_ended t \<Longrightarrow> \<not> nt_stop t \<Longrightarrow> nt_queue t = n # ns
    \<Longrightarrow> notifier_step t [] (t\<lparr>nt_queue := ns, nt_sending := True, nt_calls := nt_calls t @ [new_contact_action n]\<rparr>)"
| call_returned: "nt_sending t \<Longrightarrow> notifier_step t [] (t\<lparr>nt_sending := False\<rparr>)"
| aborted: "nt_stop t \<Longrightarrow> \<not> nt_ended t
    \<Longrightarrow> notifier_step t [] (t\<lparr>nt_ended := True, nt_sending := False, nt_queue := []\<rparr>)"

inductive_cases notifier_stepE: "notifier_step t ns u"

text \<open>A run with the notices it accepted, in their order.\<close>

inductive notifier_run :: "notifier \<Rightarrow> new_contact_notice list \<Rightarrow> notifier \<Rightarrow> bool" where
  run_start: "notifier_run t [] t"
| run_step: "notifier_run t ns u \<Longrightarrow> notifier_step u ms v \<Longrightarrow> notifier_run t (ns @ ms) v"

text \<open>What was called for, what waits and what was lost at the end are the accepted notices, in order.\<close>

definition notices_accounted :: "new_contact_notice list \<Rightarrow> notifier \<Rightarrow> bool" where
  "notices_accounted ns t \<longleftrightarrow> length (nt_queue t) \<le> nt_capacity t \<and> (nt_ended t \<longrightarrow> nt_queue t = [])
     \<and> (\<exists>called. nt_calls t = map new_contact_action called
          \<and> (if nt_ended t then \<exists>lost. ns = called @ lost else ns = called @ nt_queue t))"

lemma accounted_step:
  assumes "notifier_step t ms u" and "notices_accounted ns t"
  shows "notices_accounted (ns @ ms) u"
  using assms
proof cases
  case (take_notice n qs)
  obtain called where "nt_calls t = map new_contact_action called" "ns = called @ n # qs"
    using assms(2) take_notice by (auto simp: notices_accounted_def)
  then show ?thesis using assms(2) take_notice
    by (auto simp: notices_accounted_def intro!: exI [of _ "called @ [n]"])
qed (auto simp: notices_accounted_def try_notify_def split: if_splits)

lemma accounted_run: "notifier_run t ns u \<Longrightarrow> notices_accounted [] t \<Longrightarrow> notices_accounted ns u"
proof (induction rule: notifier_run.induct)
  case (run_step t ns u ms v)
  then show ?case using accounted_step by blast
qed simp

text \<open>
  Every notice is announced at most once and in order, in a message to the owner's own chat that uses
  no business connection; and only the end of the task loses an accepted notice.
\<close>

lemma notices_in_order:
  assumes "notifier_run (spawn_new_contact_notifier capacity) ns t"
  shows "\<exists>called rest. ns = called @ rest
    \<and> nt_calls t = map (\<lambda>n. SendMessageCall None (nn_owner_chat_id n) (new_contact_text n)) called
    \<and> (nt_ended t \<or> rest = nt_queue t)"
proof -
  have "notices_accounted [] (spawn_new_contact_notifier capacity)"
    by (simp add: notices_accounted_def spawn_new_contact_notifier_def)
  moreover have "new_contact_action = (\<lambda>n. SendMessageCall None (nn_owner_chat_id n) (new_contact_text n))"
    by (simp add: new_contact_action_def fun_eq_iff)
  ultimately show ?thesis
    using accounted_run [OF assms] unfolding notices_accounted_def by (cases "nt_ended t") force+
qed

text \<open>The engine is never refused without reason.\<close>

lemma notify_refused:
  assumes "try_notify n t = (Inl e, u)"
  shows "u = t \<and> (case e of WorkerStopped \<Rightarrow> nt_ended t | QueueFull \<Rightarrow> nt_capacity t \<le> length (nt_queue t))"
  using assms by (auto simp: try_notify_def split: if_splits)

end
