(* ===== verification/Spec2Isabelle.thy ===== *)
theory Spec2Isabelle
  imports Lifecycle_Log Connection_Safety Preparation_Safety Outbox_Correctness Retention_Safety
    Command_Effects Startup_Safety Contact_Notifier
begin

text \<open>
  Verification of the chat hygiene bot, a Telegram bot that acts on the private chats of its owner
  through a Business connection. A stranger's first message is judged for spam and answered with an
  arithmetic challenge; three wrong answers or spam block the contact, an owner's reply makes the
  chat active. All sources are below \<open>src/src\<close>.

  The program and its parts.

  A webhook request is checked and parsed (\<open>telegram/webhook.rs\<close>, \<open>telegram/parser.rs\<close>), and the
  update goes to the one worker (\<open>processing/service.rs\<close>). The worker reads the state of the
  conversation, prepares a body-free event (\<open>processing/preparer.rs\<close> with the detector and the
  challenge verifier), records it in the log (\<open>events/\<close>), and applies it in a transaction of its own
  (\<open>processing/handler.rs\<close>), which moves the conversation and queues messages. The outbox worker
  (\<open>telegram/outbox.rs\<close>) sends what is queued. Changes of the business connection are recorded as
  triggers and settled against Telegram's current state (\<open>storage/connection_candidate.rs\<close>,
  \<open>telegram/connection_state.rs\<close>); until they are, a global gate hides the connection. The owner is
  bound once, by a token that a file beside the database shows (\<open>owner/\<close>). A start (\<open>app.rs\<close>)
  puts all of this into a safe state before the first request is served.

  The model.

  The database is one record of tables (\<open>Storage_Model\<close>), a table is a list of rows, and a body
  inside a transaction is a function from it to an error or a result with the new database;
  \<open>commit\<close> keeps the old database on an error (\<open>CH_Prelude\<close>). A method of the engine that uses
  several transactions is a run on a \<open>world\<close> (\<open>Engine_World\<close>), and between two transactions the
  writes of the other workers are applied. Errors are sums with the constructors of the source, so
  every \<open>?\<close> and every early return is a branch. An \<open>i32\<close>, \<open>u16\<close> or \<open>u8\<close> that can wrap or saturate is a
  word; an \<open>i64\<close> that only holds identifiers and stored numbers is an \<open>int\<close>. The definitions compute.

  Theories by component, in the order they build on each other.

  \<^item> \<open>CH_Prelude\<close>, \<open>CH_Text\<close>: sequencing, the calculus of step relations, tables; text as scalar values.
  \<^item> \<open>Conversation_State\<close>: \<open>domain/state.rs\<close>. \<open>Spam_Detection\<close>: \<open>detection/\<close>.
    \<open>Arithmetic_Challenge\<close>: \<open>verification/arithmetic.rs\<close>. \<open>Owner_Input\<close>: \<open>owner/commands.rs\<close>,
    \<open>owner/claim.rs\<close>.
  \<^item> \<open>Storage_Model\<close>, \<open>Storage_Repositories\<close>, \<open>Owner_Identity\<close>, \<open>Connection_Reconciliation\<close>:
    the files of \<open>storage/\<close> with the schema of \<open>migrations/\<close>; \<open>Connection_Safety\<close>, \<open>Connection_Writes\<close>:
    what the reconciliation does to trust.
  \<^item> \<open>Lifecycle_Facts\<close>, \<open>Processing_Trace\<close>, \<open>Event_Log\<close>, \<open>Lifecycle_Handler\<close>: \<open>events/\<close>,
    \<open>processing/models.rs\<close>, \<open>trace.rs\<close>, \<open>handler.rs\<close>; \<open>Lifecycle_Effects\<close>, \<open>Lifecycle_Correctness\<close>,
    \<open>Lifecycle_Log\<close>: the handler against the abstract machine of conversations, and the log.
  \<^item> \<open>Event_Preparer\<close>, \<open>Preparation_Safety\<close>: \<open>processing/preparer.rs\<close> and \<open>telegram/models.rs\<close>.
  \<^item> \<open>Readiness\<close>: \<open>health.rs\<close>. \<open>Connection_Lookup\<close>: \<open>telegram/connection_state.rs\<close>.
    \<open>Outbox_Dispatcher\<close>, \<open>Outbox_Safety\<close>, \<open>Outbox_Runs\<close>, \<open>Outbox_Correctness\<close>: \<open>telegram/outbox.rs\<close>.
  \<^item> \<open>Retention_Service\<close>, \<open>Retention_Safety\<close>: \<open>retention/service.rs\<close>. \<open>Owner_Commands\<close>,
    \<open>Owner_Safety\<close>, \<open>Command_Effects\<close>: \<open>owner/mod.rs\<close>.
  \<^item> \<open>Engine_World\<close>, \<open>Owner_Processing\<close>, \<open>Connection_Processing\<close>, \<open>Processing_Engine\<close>:
    \<open>processing/service.rs\<close>; \<open>Engine_Safety\<close>, \<open>Engine_Runs\<close>, \<open>Engine_Invariant\<close>, \<open>Engine_Claims\<close>,
    \<open>Engine_Correctness\<close>: invariants of every run of the worker.
  \<^item> \<open>Telegram_Parser\<close>, \<open>Parser_Safety\<close>, \<open>Webhook\<close>: \<open>telegram/parser.rs\<close> and \<open>webhook.rs\<close>.
    \<open>Contact_Notifier\<close>: \<open>telegram/contact_notifier.rs\<close>.
  \<^item> \<open>Installation_Keys\<close>, \<open>Key_Material\<close>, \<open>Challenge_Upgrade\<close>: \<open>installation.rs\<close>,
    \<open>storage/key_material.rs\<close>, \<open>verification/upgrade.rs\<close>.
  \<^item> \<open>Claim_File\<close>, \<open>Claim_File_Safety\<close>, \<open>Claim_File_Recovery\<close>: \<open>owner/claim_file.rs\<close>, over a
    directory of names and inodes.
  \<^item> \<open>Telegram_Client\<close>: \<open>telegram/client.rs\<close>, \<open>telegram/webhook_registration.rs\<close>.
    \<open>Configuration\<close>: \<open>config.rs\<close> and the checks of \<open>storage/database.rs\<close>. \<open>Startup\<close>,
    \<open>Startup_Safety\<close>: \<open>app.rs\<close>, \<open>runtime_workers.rs\<close>.

  Interfaces.

  \<open>step_relation\<close> is a reflexive and transitive relation on states that sequencing carries through
  code; \<open>queue_relation\<close>, \<open>repository_relation\<close>, \<open>connection_writer\<close>, \<open>engine_writer\<close>, \<open>engine_relation\<close> and
  \<open>engine_runs\<close> extend it by the operations a component uses, so that one walk through the code of
  the handler, of the reconciliation and of the engine serves every invariant: each is interpreted
  at several relations. \<open>event_applier\<close>, \<open>challenge_verifier\<close>, \<open>spam_detector\<close> and \<open>preparation\<close> are
  the traits of the code with their laws, interpreted at the program's implementations.
\<close>

text \<open>
  What is shown.

  \<^item> Conversations: an application is one step of the abstract machine on its own conversation, a
    state has only the causes the product describes, and a conversation awaits verification exactly
    when it has an open challenge, through every run of the worker. A challenge that was displayed
    can be answered, also after a restart that changes the key.
  \<^item> Log and outbox: an event is applied exactly once; a run of all workers is a run of the abstract
    outbox; a message that may have been sent is not sent again; attempts run out; a connection
    trigger is never lost while it is young.
  \<^item> Trust: only the newest confirmed connection of the claimed owner is ever used, a conflict only
    narrows trust, nothing destructive happens without the mode, the right and full score, and only
    the owner is obeyed.
  \<^item> Retention: expiry is the machine's; the purge keeps what is in use.
  \<^item> Installation: a restart changes no secret; a successful start leaves a closed gate, an applied log,
    current challenges and a right claim-code file; the claim-code file survives every failure of a
    run and the run never touches a foreign entry.
  \<^item> Edges: parsers are exact, a stranger's text goes nowhere, the webhook answers OK only for what
    the log holds, lookups and the registration end and believe only Telegram's own answers.

  Bounds. Loops of the code are structural recursion on the list they walk (retry schedules,
  batches, replays); the retry loops recurse on the list of delays, at most three attempts of a lookup
  and seven of the registration. The loops that read and write a file recurse on the bytes that are
  left, with a termination proof. No definition uses fuel. The worker's own endless loop is an
  inductive run of turns, of any length.

  Hypotheses. Third-party code is a parameter: HMAC, SHA-256, HKDF, random numbers, NFKC and other
  Unicode tables, regular expressions, URL and JSON parsers, the calendar, the HTTP library and
  Telegram. Where a proof needs it, their documented behaviour is a named hypothesis
  (\<open>crypto_documented\<close>, \<open>rng_in_range\<close>). The verification invariant of the worker assumes that no
  update is delivered again after its application failed (\<open>no_redelivery\<close>): the handler ignores
  whether \<open>close_challenge\<close> closed anything, so an old correct answer that is applied after a newer
  challenge was opened would leave that challenge open. The claim-code file assumes that a new file gets
  the mode asked for and an owner the manager accepts (\<open>publishable\<close>).

  Not modelled.

  \<^item> The asynchronous runtime: tasks, channels and locks. Workers interleave between transactions, with one
    exception: in \<open>outbox_step\<close> a dispatch that does not crash is one step, so no other writer comes
    between its claim and its finish. The stop of the workers is modelled by its order and its result.
  \<^item> The HTTP server and its router, the driver of the database (opening, migrating, its own failures at
    \<open>BEGIN\<close> and \<open>COMMIT\<close>), logging, and the erasure of secrets from memory.
  \<^item> Timestamps are compared as instants, which the one text form of the code allows. JSON numbers with a
    fraction are not represented; the code reads none.
  \<^item> For the claim-code file: loss of data that was not synced, an open that blocks (a named pipe under
    the name of the file), and other processes that write to the directory during a run.
  \<^item> \<open>main.rs\<close>, \<open>clock.rs\<close>, \<open>owner/identity.rs\<close> and the module files, which only connect the parts.
\<close>

end
